(* ===== verification/Tron_Prelude.thy ===== *)
theory Tron_Prelude
  imports Main "HOL-Library.Word" "HOL-Library.Signed_Division" "HOL-Library.Sublist"
begin

text \<open>
  Shared vocabulary of the development: Rust results as sums, machine integers as
  \<open>int\<close>/\<open>nat\<close> with their bounds written out, byte strings, fixed-width byte
  codecs and the slice operations of the standard library that the crates call.
\<close>

unbundle bit_operations_syntax

named_theorems int_bounds \<open>range predicates of the machine integers\<close>
named_theorems bt_simps \<open>lookup laws of the ordered map\<close>

section \<open>Results\<close>

text \<open>\<open>Result<T, E>\<close> is a sum with the error on the left.\<close>

type_synonym ('a, 'e) result = "'e + 'a"

abbreviation Ok :: "'a \<Rightarrow> ('a, 'e) result" where "Ok \<equiv> Inr"
abbreviation Err :: "'e \<Rightarrow> ('a, 'e) result" where "Err \<equiv> Inl"

definition is_ok :: "('a, 'e) result \<Rightarrow> bool" where
  "is_ok r = (case r of Inl _ \<Rightarrow> False | Inr _ \<Rightarrow> True)"

lemma is_ok_simps [simp]: "is_ok (Ok x)" "\<not> is_ok (Err e)"
  by (simp_all add: is_ok_def)

definition ok_or :: "'a option \<Rightarrow> 'e \<Rightarrow> ('a, 'e) result" where
  "ok_or x e = (case x of None \<Rightarrow> Err e | Some v \<Rightarrow> Ok v)"

lemma ok_or_simps [simp]:
  "ok_or (Some v) e = Ok v" "ok_or None e = Err e"
  "ok_or x e = Ok v \<longleftrightarrow> x = Some v" "ok_or x e = Err e' \<longleftrightarrow> x = None \<and> e' = e"
  by (auto simp: ok_or_def split: option.splits)

text \<open>The \<open>?\<close> operator: continue with the value, or return the error early.\<close>

definition and_then :: "('a, 'e) result \<Rightarrow> ('a \<Rightarrow> ('b, 'e) result) \<Rightarrow> ('b, 'e) result" where
  "and_then r f = (case r of Inl e \<Rightarrow> Err e | Inr x \<Rightarrow> f x)"

lemma and_then_simps [simp]:
  "and_then (Ok x) f = f x" "and_then (Err e) f = Err e"
  by (simp_all add: and_then_def)

lemma and_then_Ok: "and_then r f = Ok y \<longleftrightarrow> (\<exists>x. r = Ok x \<and> f x = Ok y)"
  by (cases r) auto

lemma and_then_Err: "and_then r f = Err e \<longleftrightarrow> r = Err e \<or> (\<exists>x. r = Ok x \<and> f x = Err e)"
  by (cases r) auto

lemma and_then_cong [fundef_cong]:
  "r = r' \<Longrightarrow> (\<And>x. r' = Ok x \<Longrightarrow> f x = g x) \<Longrightarrow> and_then r f = and_then r' g"
  by (cases r') auto

section \<open>Slices\<close>

text \<open>\<open>iter().position(p)\<close>: the index of the first match.\<close>

fun position :: "('a \<Rightarrow> bool) \<Rightarrow> 'a list \<Rightarrow> nat option" where
  "position P [] = None"
| "position P (x # xs) = (if P x then Some 0 else map_option Suc (position P xs))"

lemma position_None [simp]: "position P xs = None \<longleftrightarrow> (\<forall>x\<in>set xs. \<not> P x)"
  by (induction xs) auto

lemma position_Some:
  "position P xs = Some i \<Longrightarrow> i < length xs \<and> P (xs ! i) \<and> (\<forall>j<i. \<not> P (xs ! j))"
proof (induction xs arbitrary: i)
  case (Cons x xs)
  then show ?case by (auto split: if_splits simp: nth_Cons split: nat.splits)
qed simp

lemma position_length: "position P xs = Some i \<Longrightarrow> i < length xs"
  by (drule position_Some) simp

lemma position_append:
  "position P (xs @ ys) = (case position P xs of Some i \<Rightarrow> Some i | None \<Rightarrow> map_option (\<lambda>i. length xs + i) (position P ys))"
proof (induction xs)
  case Nil
  then show ?case by (cases "position P ys") (simp_all del: position_None)
next
  case (Cons x xs)
  then show ?case
    by (cases "position P xs"; cases "position P ys") (simp_all del: position_None)
qed

text \<open>\<open>get(start..end)\<close>: the sub-slice when the range is valid.\<close>

definition get_range :: "'a list \<Rightarrow> nat \<Rightarrow> nat \<Rightarrow> 'a list option" where
  "get_range xs start end' =
     (if start \<le> end' \<and> end' \<le> length xs then Some (take (end' - start) (drop start xs)) else None)"

lemma get_range_mid: "get_range (a @ b @ c) (length a) (length a + length b) = Some b"
  by (simp add: get_range_def)

lemma get_range_mid': "i = length a \<Longrightarrow> j = length a + length b \<Longrightarrow> get_range (a @ b @ c) i j = Some b"
  by (simp add: get_range_mid)

section \<open>Machine integers\<close>

type_synonym i32 = int
type_synonym i64 = int
type_synonym usize = nat
type_synonym u64 = nat

abbreviation i64_min :: int where "i64_min \<equiv> - 9223372036854775808"
abbreviation i64_max :: int where "i64_max \<equiv> 9223372036854775807"
abbreviation i32_min :: int where "i32_min \<equiv> - 2147483648"
abbreviation i32_max :: int where "i32_max \<equiv> 2147483647"
abbreviation i128_min :: int where "i128_min \<equiv> - 170141183460469231731687303715884105728"
abbreviation i128_max :: int where "i128_max \<equiv> 170141183460469231731687303715884105727"
abbreviation usize_max :: nat where "usize_max \<equiv> 18446744073709551615"
abbreviation u32_max :: nat where "u32_max \<equiv> 4294967295"

definition in_i64 :: "int \<Rightarrow> bool" where
  "in_i64 x \<longleftrightarrow> i64_min \<le> x \<and> x \<le> i64_max"
definition in_i32 :: "int \<Rightarrow> bool" where
  "in_i32 x \<longleftrightarrow> i32_min \<le> x \<and> x \<le> i32_max"
definition in_i128 :: "int \<Rightarrow> bool" where
  "in_i128 x \<longleftrightarrow> i128_min \<le> x \<and> x \<le> i128_max"

lemmas [int_bounds] = in_i64_def in_i32_def in_i128_def

definition checked_i64 :: "int \<Rightarrow> int option" where
  "checked_i64 x = (if in_i64 x then Some x else None)"
definition checked_i32 :: "int \<Rightarrow> int option" where
  "checked_i32 x = (if in_i32 x then Some x else None)"

lemma checked_i64_Some [simp]: "checked_i64 x = Some y \<longleftrightarrow> in_i64 x \<and> y = x"
  by (auto simp: checked_i64_def)
lemma checked_i64_None [simp]: "checked_i64 x = None \<longleftrightarrow> \<not> in_i64 x"
  by (simp add: checked_i64_def)
lemma checked_i32_Some [simp]: "checked_i32 x = Some y \<longleftrightarrow> in_i32 x \<and> y = x"
  by (auto simp: checked_i32_def)
lemma checked_i32_None [simp]: "checked_i32 x = None \<longleftrightarrow> \<not> in_i32 x"
  by (simp add: checked_i32_def)

text \<open>Two's-complement wrap-around, as \<open>wrapping_*\<close> and \<open>as i64\<close> compute it.\<close>

definition wrap_i64 :: "int \<Rightarrow> int" where
  "wrap_i64 x = (x + 9223372036854775808) mod 18446744073709551616 - 9223372036854775808"
definition wrap_i32 :: "int \<Rightarrow> int" where
  "wrap_i32 x = (x + 2147483648) mod 4294967296 - 2147483648"

lemma wrap_i64_id [simp]: "in_i64 x \<Longrightarrow> wrap_i64 x = x"
  by (simp add: wrap_i64_def in_i64_def)
lemma in_i64_wrap [simp]: "in_i64 (wrap_i64 x)"
  using pos_mod_bound [of 18446744073709551616 "x + 9223372036854775808"]
    pos_mod_sign [of 18446744073709551616 "x + 9223372036854775808"]
  by (simp add: wrap_i64_def in_i64_def)
lemma wrap_i64_mod: "wrap_i64 x mod 18446744073709551616 = x mod 18446744073709551616"
  unfolding wrap_i64_def by (simp only: mod_diff_left_eq) simp

lemma wrap_i32_id [simp]: "in_i32 x \<Longrightarrow> wrap_i32 x = x"
  by (simp add: wrap_i32_def in_i32_def)
lemma in_i32_wrap [simp]: "in_i32 (wrap_i32 x)"
  using pos_mod_bound [of 4294967296 "x + 2147483648"]
    pos_mod_sign [of 4294967296 "x + 2147483648"]
  by (simp add: wrap_i32_def in_i32_def)

lemma int_div_range: "0 < b \<Longrightarrow> min a 0 \<le> a div b \<and> a div b \<le> max a 0" for a b :: int
proof (cases "0 \<le> a")
  case True
  assume "0 < b"
  with True show ?thesis
    using zdiv_mono2 [of a 1 b] by (simp add: pos_imp_zdiv_nonneg_iff)
next
  case False
  assume b: "0 < b"
  with False have "a * b \<le> a * 1" by (intro mult_left_mono_neg) auto
  then have "a * b div b \<le> a div b" using b by (intro zdiv_mono1) auto
  moreover have "a div b < 0" using False b by (simp add: neg_imp_zdiv_neg_iff pos_imp_zdiv_neg_iff)
  ultimately show ?thesis using False b by simp
qed

text \<open>Checked and saturating operations on \<open>usize\<close>.\<close>

definition usize_checked_add :: "nat \<Rightarrow> nat \<Rightarrow> nat option" where
  "usize_checked_add a b = (if a + b \<le> usize_max then Some (a + b) else None)"
definition usize_saturating_add :: "nat \<Rightarrow> nat \<Rightarrow> nat" where
  "usize_saturating_add a b = min (a + b) usize_max"
definition usize_saturating_mul :: "nat \<Rightarrow> nat \<Rightarrow> nat" where
  "usize_saturating_mul a b = min (a * b) usize_max"

text \<open>\<open>saturating_sub\<close> on \<open>usize\<close> is subtraction on \<open>nat\<close>.\<close>

abbreviation usize_saturating_sub :: "nat \<Rightarrow> nat \<Rightarrow> nat" where
  "usize_saturating_sub a b \<equiv> a - b"

lemma usize_checked_add_Some [simp]:
  "usize_checked_add a b = Some c \<longleftrightarrow> a + b \<le> usize_max \<and> c = a + b"
  by (auto simp: usize_checked_add_def)
lemma usize_checked_add_None [simp]:
  "usize_checked_add a b = None \<longleftrightarrow> usize_max < a + b"
  by (auto simp: usize_checked_add_def)

section \<open>Bytes\<close>

type_synonym u8 = "8 word"
type_synonym bytes = "8 word list"

text \<open>The bytes of an ASCII literal.\<close>

definition str_bytes :: "string \<Rightarrow> bytes" where
  "str_bytes s = map (\<lambda>c. word_of_nat (of_char c)) s"

lemma length_str_bytes [simp]: "length (str_bytes s) = length s"
  by (simp add: str_bytes_def)

text \<open>Unsigned value of a big-endian byte string.\<close>

fun be_value :: "bytes \<Rightarrow> int" where
  "be_value [] = 0"
| "be_value (b # bs) = uint b * 256 ^ length bs + be_value bs"

text \<open>The \<open>n\<close> low bytes of an integer, most significant first (two's complement).\<close>

fun be_bytes :: "nat \<Rightarrow> int \<Rightarrow> bytes" where
  "be_bytes 0 x = []"
| "be_bytes (Suc n) x = word_of_int (x div 256 ^ n) # be_bytes n x"

definition le_bytes :: "nat \<Rightarrow> int \<Rightarrow> bytes" where
  "le_bytes n x = rev (be_bytes n x)"
definition le_value :: "bytes \<Rightarrow> int" where
  "le_value bs = be_value (rev bs)"

lemma length_be_bytes [simp]: "length (be_bytes n x) = n"
  by (induction n) auto
lemma length_le_bytes [simp]: "length (le_bytes n x) = n"
  by (simp add: le_bytes_def)

lemma be_value_nonneg [simp]: "0 \<le> be_value bs"
  by (induction bs) auto

lemma be_value_less: "be_value bs < 256 ^ length bs"
proof (induction bs)
  case Nil
  then show ?case by simp
next
  case (Cons b bs)
  have "uint b < 256"
    using uint_lt2p [of b] by simp
  then have "uint b + 1 \<le> 256" by simp
  then have "(uint b + 1) * 256 ^ length bs \<le> 256 * 256 ^ length bs"
    by (rule mult_right_mono) simp
  then have "uint b * 256 ^ length bs + 256 ^ length bs \<le> 256 ^ length (b # bs)"
    by (simp add: distrib_right)
  then show ?case using Cons by (simp only: be_value.simps)
qed

lemma be_value_be_bytes: "be_value (be_bytes n x) = x mod 256 ^ n"
proof (induction n)
  case 0
  then show ?case by simp
next
  case (Suc n)
  have "x mod 256 ^ Suc n = 256 ^ n * (x div 256 ^ n mod 256) + x mod 256 ^ n"
    by (metis mult.commute power_Suc zmod_zmult2_eq zero_le_numeral zero_le_power)
  with Suc show ?case
    by (simp add: uint_word_of_int mult.commute)
qed

lemma be_bytes_be_value: "be_bytes (length bs) (be_value bs) = bs"
proof (induction bs)
  case Nil
  then show ?case by simp
next
  case (Cons b bs)
  have shift: "be_bytes n (y * 256 ^ (n + k) + x) = be_bytes n x" for n k y x
  proof (induction n arbitrary: k)
    case 0
    then show ?case by simp
  next
    case (Suc n)
    have "(y * 256 ^ (Suc n + k) + x) div 256 ^ n = y * 256 ^ Suc k + x div 256 ^ n"
    proof -
      have "y * 256 ^ (Suc n + k) = (y * 256 ^ Suc k) * 256 ^ n"
        by (simp add: power_add)
      then show ?thesis
        by (simp only: div_mult_self3) simp
    qed
    moreover have "word_of_int (y * 256 ^ Suc k + x div 256 ^ n) = (word_of_int (x div 256 ^ n) :: u8)"
    proof -
      have "y * 256 ^ Suc k + x div 256 ^ n = x div 256 ^ n + 256 * (y * 256 ^ k)"
        by simp
      then have "(y * 256 ^ Suc k + x div 256 ^ n) mod 256 = x div 256 ^ n mod 256"
        by (simp only: mod_mult_self2)
      then show ?thesis
        by (intro word_of_int_eq_iff [THEN iffD2]) (simp add: take_bit_eq_mod)
    qed
    ultimately show ?case
      using Suc.IH [of "Suc k"] by simp
  qed
  have "(uint b * 256 ^ length bs + be_value bs) div 256 ^ length bs = uint b"
    using be_value_less [of bs] by simp
  moreover have "be_bytes (length bs) (uint b * 256 ^ length bs + be_value bs) = bs"
    using shift [of "length bs" "uint b" 0] Cons by simp
  ultimately show ?case by simp
qed

lemma be_value_inj: "length xs = length ys \<Longrightarrow> be_value xs = be_value ys \<Longrightarrow> xs = ys"
  by (metis be_bytes_be_value)

lemma le_value_le_bytes: "le_value (le_bytes n x) = x mod 256 ^ n"
  by (simp add: le_value_def le_bytes_def be_value_be_bytes)

lemma le_bytes_le_value: "length bs = n \<Longrightarrow> le_bytes n (le_value bs) = bs"
  using be_bytes_be_value [of "rev bs"] by (auto simp: le_value_def le_bytes_def)

text \<open>The widths the formats use, written out.\<close>

lemma be_bytes_4: "be_bytes 4 x = [word_of_int (x div 16777216), word_of_int (x div 65536), word_of_int (x div 256), word_of_int x]"
  by (simp add: eval_nat_numeral)

lemma le_bytes_4: "le_bytes 4 x = [word_of_int x, word_of_int (x div 256), word_of_int (x div 65536), word_of_int (x div 16777216)]"
  by (simp add: le_bytes_def be_bytes_4)

end
