(* ===== verification/Primitives_Arithmetic.thy ===== *)
theory Primitives_Arithmetic
  imports Tron_Prelude
begin

text \<open>
  Java-compatible integer arithmetic of \<open>tron-primitives/src/arithmetic.rs\<close> and the injected
  clocks of \<open>tron-primitives/src/time.rs\<close>. Machine integers are \<open>int\<close> values in the
  range of their width; every checked operation has its overflow branch.
\<close>

section \<open>Arithmetic policy\<close>

datatype ArithmeticMode = Strict | Legacy

record MathPolicy =
  allow_strict_math :: bool
  disable_java_lang_math :: bool

definition arithmetic_mode :: "MathPolicy \<Rightarrow> ArithmeticMode" where
  "arithmetic_mode p = (if disable_java_lang_math p then Strict else Legacy)"

datatype ArithmeticError = Overflow | DivisionByZero

text \<open>The implementations of \<open>JavaInteger\<close>: the two widths with their checked operations.\<close>

datatype java_integer = I32 | I64

definition checked_in :: "java_integer \<Rightarrow> int \<Rightarrow> int option" where
  "checked_in ty x = (case ty of I32 \<Rightarrow> checked_i32 x | I64 \<Rightarrow> checked_i64 x)"

definition add :: "java_integer \<Rightarrow> int \<Rightarrow> int \<Rightarrow> ArithmeticMode \<Rightarrow> (int, ArithmeticError) result" where
  "add ty left right mode = ok_or (checked_in ty (left + right)) Overflow"
definition subtract :: "java_integer \<Rightarrow> int \<Rightarrow> int \<Rightarrow> ArithmeticMode \<Rightarrow> (int, ArithmeticError) result" where
  "subtract ty left right mode = ok_or (checked_in ty (left - right)) Overflow"
definition multiply :: "java_integer \<Rightarrow> int \<Rightarrow> int \<Rightarrow> ArithmeticMode \<Rightarrow> (int, ArithmeticError) result" where
  "multiply ty left right mode = ok_or (checked_in ty (left * right)) Overflow"

definition add_exact_i64 :: "i64 \<Rightarrow> i64 \<Rightarrow> (i64, ArithmeticError) result" where
  "add_exact_i64 left right = ok_or (checked_i64 (left + right)) Overflow"
definition subtract_exact_i64 :: "i64 \<Rightarrow> i64 \<Rightarrow> (i64, ArithmeticError) result" where
  "subtract_exact_i64 left right = ok_or (checked_i64 (left - right)) Overflow"
definition multiply_exact_i64 :: "i64 \<Rightarrow> i64 \<Rightarrow> (i64, ArithmeticError) result" where
  "multiply_exact_i64 left right = ok_or (checked_i64 (left * right)) Overflow"
definition add_exact_i32 :: "i32 \<Rightarrow> i32 \<Rightarrow> (i32, ArithmeticError) result" where
  "add_exact_i32 left right = ok_or (checked_i32 (left + right)) Overflow"
definition multiply_exact_i32 :: "i32 \<Rightarrow> i32 \<Rightarrow> (i32, ArithmeticError) result" where
  "multiply_exact_i32 left right = ok_or (checked_i32 (left * right)) Overflow"

definition min_i32 :: "i32 \<Rightarrow> i32 \<Rightarrow> i32" where
  "min_i32 left right = (if left \<le> right then left else right)"
definition min_i64 :: "i64 \<Rightarrow> i64 \<Rightarrow> i64" where
  "min_i64 left right = (if left \<le> right then left else right)"
definition max_i32 :: "i32 \<Rightarrow> i32 \<Rightarrow> i32" where
  "max_i32 left right = (if left \<ge> right then left else right)"
definition max_i64 :: "i64 \<Rightarrow> i64 \<Rightarrow> i64" where
  "max_i64 left right = (if left \<ge> right then left else right)"

definition abs_i64 :: "i64 \<Rightarrow> i64" where
  "abs_i64 value = (if value < 0 then wrap_i64 (- value) else value)"

section \<open>Injected floating-point engines\<close>

datatype FloatOperation = RoundF32 int | RoundF64 int | CeilF64 int | SignumF64 int
datatype FloatResult = FI32 int | FI64 int | F64Bits int

text \<open>A \<open>FloatMathProvider\<close> is the pair of its strict and legacy engines.\<close>

record 'e float_provider =
  strict_float :: "FloatOperation \<Rightarrow> (FloatResult, 'e) result"
  legacy_float :: "FloatOperation \<Rightarrow> (FloatResult, 'e) result"

definition float_operation ::
    "'e float_provider \<Rightarrow> FloatOperation \<Rightarrow> bool \<Rightarrow> (FloatResult, 'e) result" where
  "float_operation provider operation use_strict_math =
     (if use_strict_math then strict_float provider operation else legacy_float provider operation)"

record 'e pow_provider =
  strict_pow :: "int \<Rightarrow> int \<Rightarrow> (int, 'e) result"
  legacy_pow :: "int \<Rightarrow> int \<Rightarrow> (int, 'e) result"

definition pow_bits :: "'e pow_provider \<Rightarrow> int \<Rightarrow> int \<Rightarrow> MathPolicy \<Rightarrow> (int, 'e) result" where
  "pow_bits provider base_bits exponent_bits policy =
     (if allow_strict_math policy then strict_pow provider base_bits exponent_bits
      else legacy_pow provider base_bits exponent_bits)"

section \<open>Division\<close>

text \<open>Rust's \<open>/\<close> and \<open>%\<close> truncate towards zero: \<open>sdiv\<close> and \<open>smod\<close>.\<close>

definition floor_div_i64 :: "i64 \<Rightarrow> i64 \<Rightarrow> (i64, ArithmeticError) result" where
  "floor_div_i64 dividend divisor =
     (if divisor = 0 then Err DivisionByZero
      else if dividend = i64_min \<and> divisor = -1 then Ok i64_min
      else let quotient = dividend sdiv divisor; remainder = dividend smod divisor
           in Ok (if remainder \<noteq> 0 \<and> (dividend XOR divisor) < 0 then quotient - 1 else quotient))"

definition floor_div_i32 :: "i32 \<Rightarrow> i32 \<Rightarrow> (i32, ArithmeticError) result" where
  "floor_div_i32 dividend divisor =
     (if divisor = 0 then Err DivisionByZero
      else if dividend = i32_min \<and> divisor = -1 then Ok i32_min
      else let quotient = dividend sdiv divisor; remainder = dividend smod divisor
           in Ok (if remainder \<noteq> 0 \<and> (dividend XOR divisor) < 0 then quotient - 1 else quotient))"

definition bigint_divide_truncating :: "int \<Rightarrow> int \<Rightarrow> (int, ArithmeticError) result" where
  "bigint_divide_truncating dividend divisor =
     (if divisor = 0 then Err DivisionByZero else Ok (dividend sdiv divisor))"

section \<open>Clocks\<close>

text \<open>
  \<open>UnixMillis\<close> is an \<open>i64\<close>; a \<open>Duration\<close> is a count of nanoseconds below
  \<open>2 ^ 64\<close> seconds. The cell inside a manual clock is explicit state.
\<close>

datatype ClockError = ClockOverflow

abbreviation duration_limit :: nat where
  "duration_limit \<equiv> 18446744073709551616 * 1000000000"

definition instant_checked_add :: "nat \<Rightarrow> nat \<Rightarrow> nat option" where
  "instant_checked_add i d = (if i + d < duration_limit then Some (i + d) else None)"
definition checked_duration_since :: "nat \<Rightarrow> nat \<Rightarrow> nat option" where
  "checked_duration_since i earlier = (if earlier \<le> i then Some (i - earlier) else None)"

definition wall_advance :: "i64 \<Rightarrow> i64 \<Rightarrow> i64 \<times> (unit, ClockError) result" where
  "wall_advance now millis =
     (case checked_i64 (now + millis) of
        None \<Rightarrow> (now, Err ClockOverflow)
      | Some nxt \<Rightarrow> (nxt, Ok ()))"

definition monotonic_advance :: "nat \<Rightarrow> nat \<Rightarrow> nat \<times> (unit, ClockError) result" where
  "monotonic_advance now d =
     (case instant_checked_add now d of
        None \<Rightarrow> (now, Err ClockOverflow)
      | Some nxt \<Rightarrow> (nxt, Ok ()))"

section \<open>Correctness\<close>

lemma floor_quotient:
  fixes a b :: int
  assumes "b \<noteq> 0"
  shows "(if a smod b \<noteq> 0 \<and> (a XOR b) < 0 then a sdiv b - 1 else a sdiv b) = a div b"
proof -
  have r: "a smod b = 0 \<longleftrightarrow> b dvd a"
    by (auto simp: signed_modulo_int_def sgn_0_0 simp flip: dvd_eq_mod_eq_0)
  have s: "\<not> b dvd a \<Longrightarrow> (a XOR b) < 0 \<longleftrightarrow> sgn a \<noteq> sgn b"
    using assms by (cases "a < 0"; cases "b < 0") (auto simp: sgn_if)
  show ?thesis
    using assms r s by (auto simp: divide_int_eq_signed_divide_int)
qed

lemma in_i64_div:
  assumes "in_i64 a" and "b \<noteq> 0" and "\<not> (a = i64_min \<and> b = -1)"
  shows "in_i64 (a div b)"
proof (cases "0 < b")
  case True
  with int_div_range [of b a] assms show ?thesis
    by (auto simp: in_i64_def min_def max_def split: if_splits)
next
  case False
  with assms have c: "0 < - b" "a div b = (- a) div (- b)" by auto
  show ?thesis
  proof (cases "b = -1")
    case True
    with assms show ?thesis by (auto simp: in_i64_def)
  next
    case False
    with c have "2 \<le> - b" by simp
    have "(- a) div (- b) \<le> 4611686018427387904" if "0 \<le> - a"
    proof -
      have "(- a) div (- b) \<le> (- a) div 2"
        using that \<open>2 \<le> - b\<close> by (intro zdiv_mono2) auto
      also have "\<dots> \<le> 4611686018427387904" using assms(1) unfolding in_i64_def by linarith
      finally show ?thesis .
    qed
    then have "in_i64 ((- a) div (- b))"
      using int_div_range [OF c(1), of "- a"] assms(1) unfolding in_i64_def by linarith
    then show ?thesis by simp
  qed
qed

text \<open>
  For every pair of 64-bit integers with a non-zero divisor, \<open>floor_div_i64\<close> returns the
  mathematical floor of the quotient reduced to 64 bits (so \<open>MIN / -1\<close> gives \<open>MIN\<close>), as
  Java's \<open>Math.floorDiv\<close> does.
\<close>

theorem floor_div_i64_correct:
  assumes "in_i64 a" and "in_i64 b" and "b \<noteq> 0"
  shows "floor_div_i64 a b = Ok (wrap_i64 (a div b))"
proof (cases "a = i64_min \<and> b = -1")
  case True
  then show ?thesis by (simp add: floor_div_i64_def wrap_i64_def)
next
  case False
  then have "in_i64 (a div b)" using assms by (intro in_i64_div) auto
  with False assms show ?thesis
    using floor_quotient [OF assms(3), of a] by (simp only: floor_div_i64_def Let_def if_False wrap_i64_id)
qed

theorem floor_div_i64_witness:
  "in_i64 (-7) \<and> floor_div_i64 (-7) 2 = Ok (-4)"
  using floor_div_i64_correct [of "-7" 2] by (simp add: in_i64_def wrap_i64_def)

end
