(* ===== verification/BTree_Map.thy ===== *)
theory BTree_Map
  imports Tron_Prelude "HOL-Library.Multiset"
begin

text \<open>
  The ordering protocol and the ordered map of the Rust standard library, as the crates
  use them. An \<open>Ord\<close> implementation is a comparison function; the locale
  \<open>rust_ord\<close> states the laws the map relies on, on the keys \<open>K\<close> that occur.
  A \<open>BTreeMap\<close> is an association list in strictly ascending key order.
\<close>

section \<open>Comparisons\<close>

datatype ordering = Less | Equal | Greater

definition cmp_lin :: "'a::linorder \<Rightarrow> 'a \<Rightarrow> ordering" where
  "cmp_lin a b = (if a < b then Less else if a = b then Equal else Greater)"

text \<open>Lexicographic comparison of slices (\<open>impl Ord for [T]\<close>).\<close>

fun cmp_lex :: "('a \<Rightarrow> 'a \<Rightarrow> ordering) \<Rightarrow> 'a list \<Rightarrow> 'a list \<Rightarrow> ordering" where
  "cmp_lex c [] [] = Equal"
| "cmp_lex c [] (y # ys) = Less"
| "cmp_lex c (x # xs) [] = Greater"
| "cmp_lex c (x # xs) (y # ys) = (case c x y of Equal \<Rightarrow> cmp_lex c xs ys | r \<Rightarrow> r)"

definition cmp_bytes :: "bytes \<Rightarrow> bytes \<Rightarrow> ordering" where
  "cmp_bytes = cmp_lex cmp_lin"

text \<open>\<open>Ordering::then_with\<close>.\<close>

definition then_with :: "ordering \<Rightarrow> ordering \<Rightarrow> ordering" where
  "then_with a b = (case a of Equal \<Rightarrow> b | r \<Rightarrow> r)"

section \<open>Ordered maps\<close>

type_synonym ('k, 'v) bt_map = "('k \<times> 'v) list"

fun bt_insert :: "('k \<Rightarrow> 'k \<Rightarrow> ordering) \<Rightarrow> 'k \<Rightarrow> 'v \<Rightarrow> ('k, 'v) bt_map \<Rightarrow> ('k, 'v) bt_map" where
  "bt_insert cmp k v [] = [(k, v)]"
| "bt_insert cmp k v ((k', v') # m) =
     (case cmp k k' of
        Less \<Rightarrow> (k, v) # (k', v') # m
      | Equal \<Rightarrow> (k', v) # m
      | Greater \<Rightarrow> (k', v') # bt_insert cmp k v m)"

definition bt_remove :: "'k \<Rightarrow> ('k, 'v) bt_map \<Rightarrow> ('k, 'v) bt_map" where
  "bt_remove k m = filter (\<lambda>p. fst p \<noteq> k) m"

abbreviation bt_get :: "('k, 'v) bt_map \<Rightarrow> 'k \<Rightarrow> 'v option" where
  "bt_get \<equiv> map_of"

definition bt_extend :: "('k \<Rightarrow> 'k \<Rightarrow> ordering) \<Rightarrow> ('k \<times> 'v) list \<Rightarrow> ('k, 'v) bt_map \<Rightarrow> ('k, 'v) bt_map" where
  "bt_extend cmp es m = fold (\<lambda>(k, v) m. bt_insert cmp k v m) es m"

text \<open>\<open>range(lo..)\<close>: the entries from a lower bound on.\<close>

definition bt_range_from :: "('k \<Rightarrow> 'k \<Rightarrow> ordering) \<Rightarrow> 'k \<Rightarrow> ('k, 'v) bt_map \<Rightarrow> ('k, 'v) bt_map" where
  "bt_range_from cmp lo m = filter (\<lambda>p. cmp (fst p) lo \<noteq> Less) m"

definition bt_wf :: "('k \<Rightarrow> 'k \<Rightarrow> ordering) \<Rightarrow> ('k, 'v) bt_map \<Rightarrow> bool" where
  "bt_wf cmp m \<longleftrightarrow> sorted_wrt (\<lambda>a b. cmp a b = Less) (map fst m)"

lemma bt_wf_Nil [simp]: "bt_wf cmp []"
  by (simp add: bt_wf_def)

lemma bt_get_remove [simp, bt_simps]: "bt_get (bt_remove k m) k' = (if k' = k then None else bt_get m k')"
  by (induction m) (auto simp: bt_remove_def)

lemma bt_wf_filter: "bt_wf cmp m \<Longrightarrow> bt_wf cmp (filter P m)"
  by (induction m) (auto simp: bt_wf_def)

lemma bt_wf_remove [simp]: "bt_wf cmp m \<Longrightarrow> bt_wf cmp (bt_remove k m)"
  by (simp add: bt_remove_def bt_wf_filter)

lemma keys_bt_remove: "fst ` set (bt_remove k m) = fst ` set m - {k}"
  by (auto simp: bt_remove_def)

lemma bt_insert_last: "(\<And>k'. k' \<in> fst ` set m \<Longrightarrow> cmp k k' = Greater) \<Longrightarrow> bt_insert cmp k v m = m @ [(k, v)]"
  by (induction m) auto

section \<open>The ordering protocol\<close>

text \<open>A comparison that ranks keys: distinct keys may compare \<open>Equal\<close>.\<close>

locale rust_preord =
  fixes cmp :: "'k \<Rightarrow> 'k \<Rightarrow> ordering" and K :: "'k set"
  assumes pre_refl: "a \<in> K \<Longrightarrow> cmp a a = Equal"
    and pre_swap: "a \<in> K \<Longrightarrow> b \<in> K \<Longrightarrow> cmp a b = Greater \<longleftrightarrow> cmp b a = Less"
    and pre_trans: "a \<in> K \<Longrightarrow> b \<in> K \<Longrightarrow> c \<in> K \<Longrightarrow> cmp a b = Less \<Longrightarrow> cmp b c = Less \<Longrightarrow> cmp a c = Less"
    and pre_equal: "a \<in> K \<Longrightarrow> b \<in> K \<Longrightarrow> c \<in> K \<Longrightarrow> cmp a b = Equal \<Longrightarrow> cmp a c = cmp b c"
begin

lemma pre_equal_sym: "a \<in> K \<Longrightarrow> b \<in> K \<Longrightarrow> cmp a b = Equal \<Longrightarrow> cmp b a = Equal"
  using pre_equal [of a b a] pre_refl by simp

lemma pre_less_equal: "a \<in> K \<Longrightarrow> b \<in> K \<Longrightarrow> c \<in> K \<Longrightarrow> cmp a b = Less \<Longrightarrow> cmp b c = Equal \<Longrightarrow> cmp a c = Less"
  using pre_equal [of c b a] pre_equal_sym [of b c] pre_swap [of b a] pre_swap [of c a] by simp

end

text \<open>The full protocol: \<open>Equal\<close> is equality.\<close>

locale rust_ord =
  fixes cmp :: "'k \<Rightarrow> 'k \<Rightarrow> ordering" and K :: "'k set"
  assumes cmp_eq: "a \<in> K \<Longrightarrow> b \<in> K \<Longrightarrow> cmp a b = Equal \<longleftrightarrow> a = b"
    and cmp_swap: "a \<in> K \<Longrightarrow> b \<in> K \<Longrightarrow> cmp a b = Greater \<longleftrightarrow> cmp b a = Less"
    and cmp_trans: "a \<in> K \<Longrightarrow> b \<in> K \<Longrightarrow> c \<in> K \<Longrightarrow> cmp a b = Less \<Longrightarrow> cmp b c = Less \<Longrightarrow> cmp a c = Less"
begin

lemma cmp_refl: "a \<in> K \<Longrightarrow> cmp a a = Equal"
  by (simp add: cmp_eq)

lemma keys_insert: "k \<in> K \<Longrightarrow> fst ` set m \<subseteq> K \<Longrightarrow> fst ` set (bt_insert cmp k v m) = insert k (fst ` set m)"
proof (induction m)
  case (Cons p m)
  then show ?case
    by (cases p; cases "cmp k (fst p)") (auto simp: cmp_eq cmp_refl insert_commute)
qed simp

lemma get_insert:
  "k \<in> K \<Longrightarrow> fst ` set m \<subseteq> K \<Longrightarrow> bt_get (bt_insert cmp k v m) = (bt_get m)(k \<mapsto> v)"
proof (induction m)
  case Nil
  then show ?case by simp
next
  case (Cons p m)
  obtain k' v' where p: "p = (k', v')" by (cases p)
  show ?case
  proof (cases "cmp k k'")
    case Less
    then show ?thesis by (simp add: p fun_eq_iff)
  next
    case Equal
    with Cons.prems p have "k = k'" by (simp add: cmp_eq)
    with Equal show ?thesis by (simp add: p fun_eq_iff)
  next
    case Greater
    with Cons.prems p have "k \<noteq> k'" by (auto simp: cmp_refl)
    with Greater Cons show ?thesis by (auto simp: p fun_eq_iff)
  qed
qed

lemma wf_insert:
  assumes "k \<in> K" "fst ` set m \<subseteq> K" "bt_wf cmp m"
  shows "bt_wf cmp (bt_insert cmp k v m)"
  using assms
proof (induction m)
  case Nil
  then show ?case by (simp add: bt_wf_def)
next
  case (Cons p m)
  obtain k' v' where p: "p = (k', v')" by (cases p)
  from Cons.prems p have k': "k' \<in> K" and sub: "fst ` set m \<subseteq> K"
    and least: "\<forall>x\<in>fst ` set m. cmp k' x = Less" and wf: "bt_wf cmp m"
    by (auto simp: bt_wf_def)
  show ?case
  proof (cases "cmp k k'")
    case Less
    with least k' sub Cons.prems(1) have "\<forall>x\<in>fst ` set m. cmp k x = Less"
      by (meson cmp_trans subsetD)
    with Less Cons.prems show ?thesis by (simp add: p bt_wf_def)
  next
    case Equal
    with Cons.prems show ?thesis by (simp add: p bt_wf_def)
  next
    case Greater
    with Cons.prems(1) k' have "cmp k' k = Less" by (simp add: cmp_swap)
    moreover have "bt_wf cmp (bt_insert cmp k v m)"
      using Cons.IH Cons.prems(1) sub wf by blast
    moreover have "fst ` set (bt_insert cmp k v m) = insert k (fst ` set m)"
      using Cons.prems(1) sub by (rule keys_insert)
    ultimately have "\<forall>x\<in>fst ` set (bt_insert cmp k v m). cmp k' x = Less"
      using least by simp
    with \<open>bt_wf cmp (bt_insert cmp k v m)\<close> show ?thesis
      by (simp add: p Greater bt_wf_def)
  qed
qed

lemma wf_distinct: "fst ` set m \<subseteq> K \<Longrightarrow> bt_wf cmp m \<Longrightarrow> distinct (map fst m)"
proof (induction m)
  case (Cons p m)
  then have "\<forall>x\<in>fst ` set m. cmp (fst p) x = Less" "distinct (map fst m)"
    by (auto simp: bt_wf_def)
  moreover have "cmp (fst p) (fst p) = Equal"
    using Cons.prems(1) by (simp add: cmp_refl)
  ultimately show ?case by auto
qed simp

lemma keys_extend:
  "fst ` set es \<subseteq> K \<Longrightarrow> fst ` set m \<subseteq> K \<Longrightarrow> fst ` set (bt_extend cmp es m) = fst ` set m \<union> fst ` set es"
proof (induction es arbitrary: m)
  case (Cons e es)
  obtain k v where e: "e = (k, v)" by (cases e)
  have ins: "fst ` set (bt_insert cmp k v m) = insert k (fst ` set m)"
    by (rule keys_insert) (use Cons.prems e in auto)
  then have "fst ` set (bt_extend cmp es (bt_insert cmp k v m)) = fst ` set (bt_insert cmp k v m) \<union> fst ` set es"
    using Cons.prems e by (intro Cons.IH) auto
  with ins show ?case by (auto simp: e bt_extend_def)
qed (simp add: bt_extend_def)

lemma wf_extend:
  "fst ` set es \<subseteq> K \<Longrightarrow> fst ` set m \<subseteq> K \<Longrightarrow> bt_wf cmp m \<Longrightarrow> bt_wf cmp (bt_extend cmp es m)"
proof (induction es arbitrary: m)
  case (Cons e es)
  obtain k v where e: "e = (k, v)" by (cases e)
  have k: "k \<in> K" using Cons.prems e by simp
  have "bt_wf cmp (bt_extend cmp es (bt_insert cmp k v m))"
    using Cons.prems e k keys_insert [OF k Cons.prems(2)] wf_insert [OF k Cons.prems(2,3)]
    by (intro Cons.IH) auto
  then show ?case by (simp add: e bt_extend_def)
qed (simp add: bt_extend_def)

lemma get_extend:
  "fst ` set es \<subseteq> K \<Longrightarrow> fst ` set m \<subseteq> K \<Longrightarrow> distinct (map fst es) \<Longrightarrow>
   bt_get (bt_extend cmp es m) = bt_get m ++ bt_get es"
proof (induction es arbitrary: m)
  case (Cons e es)
  obtain k v where e: "e = (k, v)" by (cases e)
  have k: "k \<in> K" using Cons.prems e by simp
  have "bt_get (bt_extend cmp es (bt_insert cmp k v m)) = bt_get (bt_insert cmp k v m) ++ bt_get es"
    using Cons.prems e k keys_insert [OF k Cons.prems(2)] by (intro Cons.IH) auto
  moreover have "bt_get es k = None"
    using Cons.prems(3) e by (auto simp: map_of_eq_None_iff)
  ultimately show ?case
    using Cons.prems e k
    by (auto simp: bt_extend_def get_insert map_add_def fun_eq_iff split: option.splits)
qed (simp add: bt_extend_def)

text \<open>Two ordered maps with the same lookups are the same list.\<close>

lemma wf_ext:
  "bt_wf cmp m \<Longrightarrow> bt_wf cmp n \<Longrightarrow> fst ` set m \<subseteq> K \<Longrightarrow> fst ` set n \<subseteq> K \<Longrightarrow> bt_get m = bt_get n \<Longrightarrow> m = n"
proof (induction m arbitrary: n)
  case Nil
  then show ?case by (cases n) (auto simp: fun_eq_iff split: if_splits dest: spec)
next
  case (Cons p m)
  obtain k v where p: "p = (k, v)" by (cases p)
  from Cons.prems(5) p have "bt_get n k = Some v"
    by (metis map_of_Cons_code(2))
  then have kn: "(k, v) \<in> set n" by (rule map_of_SomeD)
  then obtain q n' where n: "n = q # n'" by (cases n) auto
  obtain k' v' where q: "q = (k', v')" by (cases q)
  have "bt_get n k' = Some v'" by (simp add: n q)
  then have "bt_get (p # m) k' = Some v'" using fun_cong [OF Cons.prems(5), of k'] by (simp only:)
  then have km: "(k', v') \<in> set (p # m)" by (rule map_of_SomeD)
  have K: "k \<in> K" "k' \<in> K" using Cons.prems p n q by auto
  have "k = k'"
  proof (rule ccontr)
    assume ne: "k \<noteq> k'"
    with kn n q have "k \<in> fst ` set n'" by force
    then have "cmp k' k = Less" using Cons.prems(2) n q by (auto simp: bt_wf_def)
    moreover from ne km p have "k' \<in> fst ` set m" by force
    then have "cmp k k' = Less" using Cons.prems(1) p by (auto simp: bt_wf_def)
    ultimately show False using K cmp_swap [of k k'] by simp
  qed
  have "distinct (map fst (p # m))" "distinct (map fst n)"
    using wf_distinct [OF Cons.prems(3,1)] wf_distinct [OF Cons.prems(4,2)] .
  then have none: "bt_get m k = None" "bt_get n' k' = None"
    using p n q by (auto simp: map_of_eq_None_iff)
  have "bt_get m = bt_get n'"
  proof
    fix x
    show "bt_get m x = bt_get n' x"
      using fun_cong [OF Cons.prems(5), of x] none \<open>k = k'\<close> p n q by (cases "x = k") simp_all
  qed
  moreover have "v = v'" using \<open>bt_get n k = Some v\<close> \<open>k = k'\<close> n q by simp
  moreover have "bt_wf cmp m" "bt_wf cmp n'" "fst ` set m \<subseteq> K" "fst ` set n' \<subseteq> K"
    using Cons.prems p n q by (auto simp: bt_wf_def)
  ultimately show ?case
    using Cons.IH [of n'] \<open>k = k'\<close> p n q by simp
qed

end

sublocale rust_ord \<subseteq> pre: rust_preord cmp K
  by unfold_locales (auto simp: cmp_refl cmp_eq cmp_swap intro: cmp_trans)

context rust_ord
begin

lemma preord: "rust_preord cmp K"
  by (rule pre.rust_preord_axioms)

end

section \<open>Lawful comparisons\<close>

lemma preord_vimage:
  assumes "rust_preord cmp K" and "\<And>a. a \<in> L \<Longrightarrow> f a \<in> K"
  shows "rust_preord (\<lambda>a b. cmp (f a) (f b)) L"
proof
  fix a b c
  show "cmp (f a) (f a) = Equal" if "a \<in> L"
    using that by (simp add: rust_preord.pre_refl [OF assms(1)] assms(2))
  show "cmp (f a) (f b) = Greater \<longleftrightarrow> cmp (f b) (f a) = Less" if "a \<in> L" "b \<in> L"
    using that by (simp add: rust_preord.pre_swap [OF assms(1)] assms(2))
  show "cmp (f a) (f c) = Less" if "a \<in> L" "b \<in> L" "c \<in> L" "cmp (f a) (f b) = Less" "cmp (f b) (f c) = Less"
    using that rust_preord.pre_trans [OF assms(1), of "f a" "f b" "f c"] assms(2) by simp
  show "cmp (f a) (f c) = cmp (f b) (f c)" if "a \<in> L" "b \<in> L" "c \<in> L" "cmp (f a) (f b) = Equal"
    using that(4) by (rule rust_preord.pre_equal [OF assms(1), rotated 3]) (use that assms(2) in auto)
qed

text \<open>Comparing by a rank first and by a second comparison then keeps the laws.\<close>

lemma then_with_preord:
  assumes "rust_preord c1 K" and "rust_preord c2 K"
  shows "rust_preord (\<lambda>a b. then_with (c1 a b) (c2 a b)) K"
proof -
  note p = rust_preord.pre_refl [OF assms(1)] rust_preord.pre_swap [OF assms(1)]
    rust_preord.pre_trans [OF assms(1)] rust_preord.pre_equal [OF assms(1)]
    rust_preord.pre_equal_sym [OF assms(1)] rust_preord.pre_less_equal [OF assms(1)]
  note q = rust_preord.pre_refl [OF assms(2)] rust_preord.pre_swap [OF assms(2)]
    rust_preord.pre_trans [OF assms(2)] rust_preord.pre_equal [OF assms(2)]
  show ?thesis
  proof
    fix a b
    assume K: "a \<in> K" "b \<in> K"
    then show "then_with (c1 a a) (c2 a a) = Equal"
      by (simp add: then_with_def p(1) q(1))
    show "then_with (c1 a b) (c2 a b) = Greater \<longleftrightarrow> then_with (c1 b a) (c2 b a) = Less"
      using K p(2) [of a b] p(2) [of b a] p(5) [of a b] p(5) [of b a] q(2) [of a b]
      by (cases "c1 a b"; cases "c1 b a") (auto simp: then_with_def)
  next
    fix a b c
    assume K: "a \<in> K" "b \<in> K" "c \<in> K"
    show "then_with (c1 a c) (c2 a c) = Less"
      if ab: "then_with (c1 a b) (c2 a b) = Less" and bc: "then_with (c1 b c) (c2 b c) = Less"
    proof (cases "c1 a b = Less")
      case True
      then have "c1 a c = Less"
        using p(3) [OF K True] p(6) [OF K True] bc by (auto simp: then_with_def split: ordering.splits)
      then show ?thesis by (simp add: then_with_def)
    next
      case False
      with ab have 2: "c1 a b = Equal" "c2 a b = Less" by (auto simp: then_with_def split: ordering.splits)
      then have "c1 a c = c1 b c" using p(4) [OF K] by blast
      then show ?thesis using bc q(3) [OF K 2(2)] by (auto simp: then_with_def split: ordering.splits)
    qed
    show "then_with (c1 a c) (c2 a c) = then_with (c1 b c) (c2 b c)"
      if "then_with (c1 a b) (c2 a b) = Equal"
    proof -
      from that have "c1 a b = Equal" "c2 a b = Equal" by (auto simp: then_with_def split: ordering.splits)
      then show ?thesis using p(4) [OF K] q(4) [OF K] by simp
    qed
  qed
qed

lemma ord_cong:
  assumes "rust_ord c K" and "\<And>a b. a \<in> K \<Longrightarrow> b \<in> K \<Longrightarrow> c' a b = c a b"
  shows "rust_ord c' K"
proof
  fix a b d
  show "c' a b = Equal \<longleftrightarrow> a = b" if "a \<in> K" "b \<in> K"
    using that rust_ord.cmp_eq [OF assms(1)] by (simp add: assms(2))
  show "c' a b = Greater \<longleftrightarrow> c' b a = Less" if "a \<in> K" "b \<in> K"
    using that rust_ord.cmp_swap [OF assms(1)] by (simp add: assms(2))
  show "c' a d = Less" if "a \<in> K" "b \<in> K" "d \<in> K" "c' a b = Less" "c' b d = Less"
    using that rust_ord.cmp_trans [OF assms(1), of a b d] by (simp add: assms(2))
qed

lemma ord_subset:
  assumes "rust_ord cmp K" and "L \<subseteq> K"
  shows "rust_ord cmp L"
proof
  fix a b c
  show "cmp a b = Equal \<longleftrightarrow> a = b" if "a \<in> L" "b \<in> L"
    by (rule rust_ord.cmp_eq [OF assms(1)]) (use that assms(2) in auto)
  show "cmp a b = Greater \<longleftrightarrow> cmp b a = Less" if "a \<in> L" "b \<in> L"
    by (rule rust_ord.cmp_swap [OF assms(1)]) (use that assms(2) in auto)
  show "cmp a c = Less" if "a \<in> L" "b \<in> L" "c \<in> L" "cmp a b = Less" "cmp b c = Less"
    by (rule rust_ord.cmp_trans [OF assms(1), of a b c]) (use that assms(2) in auto)
qed


lemma then_with_ord:
  assumes "rust_preord c1 K" and "rust_ord c2 K"
  shows "rust_ord (\<lambda>a b. then_with (c1 a b) (c2 a b)) K"
proof -
  have pre: "rust_preord c2 K" by (rule rust_ord.preord [OF assms(2)])
  note t = then_with_preord [OF assms(1) pre]
  show ?thesis
  proof
    fix a b
    assume "a \<in> K" "b \<in> K"
    then show "then_with (c1 a b) (c2 a b) = Equal \<longleftrightarrow> a = b"
      using rust_preord.pre_refl [OF assms(1), of a] rust_ord.cmp_eq [OF assms(2), of a b]
      by (auto simp: then_with_def split: ordering.splits)
  qed (rule rust_preord.pre_swap [OF t] rust_preord.pre_trans [OF t]; assumption)+
qed

lemma cmp_lin_simps [simp]:
  "cmp_lin a b = Less \<longleftrightarrow> a < b" "cmp_lin a b = Equal \<longleftrightarrow> a = b" "cmp_lin a b = Greater \<longleftrightarrow> b < a"
  by (auto simp: cmp_lin_def)

interpretation lin: rust_ord cmp_lin UNIV
  by unfold_locales auto

context rust_ord
begin

lemma lex_eq: "set xs \<subseteq> K \<Longrightarrow> set ys \<subseteq> K \<Longrightarrow> cmp_lex cmp xs ys = Equal \<longleftrightarrow> xs = ys"
proof (induction xs arbitrary: ys)
  case Nil
  then show ?case by (cases ys) auto
next
  case (Cons x xs)
  then show ?case by (cases ys) (auto simp: cmp_eq cmp_refl split: ordering.splits)
qed

lemma lex_swap: "set xs \<subseteq> K \<Longrightarrow> set ys \<subseteq> K \<Longrightarrow> cmp_lex cmp xs ys = Greater \<longleftrightarrow> cmp_lex cmp ys xs = Less"
proof (induction xs arbitrary: ys)
  case Nil
  then show ?case by (cases ys) auto
next
  case (Cons x xs)
  show ?case
  proof (cases ys)
    case Nil
    then show ?thesis by simp
  next
    case ys: (Cons y ys')
    with Cons.prems have "x \<in> K" "y \<in> K" by auto
    then show ?thesis
      using Cons.IH [of ys'] Cons.prems ys cmp_swap [of x y] cmp_swap [of y x] cmp_eq [of x y] cmp_eq [of y x]
      by (cases "cmp x y"; cases "cmp y x") auto
  qed
qed

lemma lex_trans:
  "set xs \<subseteq> K \<Longrightarrow> set ys \<subseteq> K \<Longrightarrow> set zs \<subseteq> K \<Longrightarrow>
   cmp_lex cmp xs ys = Less \<Longrightarrow> cmp_lex cmp ys zs = Less \<Longrightarrow> cmp_lex cmp xs zs = Less"
proof (induction xs arbitrary: ys zs)
  case Nil
  then show ?case by (cases ys; cases zs) auto
next
  case (Cons x xs)
  obtain y ys' where ys: "ys = y # ys'" using Cons.prems(4) by (cases ys) auto
  obtain z zs' where zs: "zs = z # zs'" using Cons.prems(5) ys by (cases zs) auto
  from Cons.prems ys zs have K: "x \<in> K" "y \<in> K" "z \<in> K" by auto
  consider "cmp x y = Less" | "x = y" "cmp_lex cmp xs ys' = Less"
    using Cons.prems(4) ys K by (auto simp: cmp_eq split: ordering.splits)
  then show ?case
  proof cases
    case 1
    then have "cmp x z = Less"
      using Cons.prems(5) ys zs K cmp_trans [of x y z] cmp_eq [of y z] by (auto split: ordering.splits)
    then show ?thesis by (simp add: zs)
  next
    case 2
    then show ?thesis
      using Cons.prems ys zs K Cons.IH [of ys' zs'] by (auto split: ordering.splits)
  qed
qed

lemma lex_rust_ord: "rust_ord (cmp_lex cmp) {xs. set xs \<subseteq> K}"
  by unfold_locales (auto simp: lex_eq lex_swap intro: lex_trans)

end

text \<open>\<open>Vec<u8>\<close>, \<open>[u8]\<close> and \<open>String\<close> compare as unsigned byte strings.\<close>

interpretation bytes: rust_ord cmp_bytes UNIV
  using lin.lex_rust_ord by (simp add: cmp_bytes_def)

lemmas bytes_get_insert [simp, bt_simps] = bytes.get_insert [simplified]
lemmas bytes_wf_insert [simp] = bytes.wf_insert [simplified]

section \<open>Prefix ranges\<close>

lemma cmp_bytes_prefix: "prefix p k \<Longrightarrow> cmp_bytes k p \<noteq> Less"
proof (induction p arbitrary: k)
  case Nil
  then show ?case by (cases k) (auto simp: cmp_bytes_def)
next
  case (Cons a p)
  then obtain k' where "k = a # k'" "prefix p k'" by (cases k) auto
  with Cons.IH [of k'] show ?case by (simp add: cmp_bytes_def bytes.cmp_eq cmp_lin_def)
qed

lemma cmp_bytes_past_prefix:
  "cmp_bytes k p \<noteq> Less \<Longrightarrow> \<not> prefix p k \<Longrightarrow> prefix p k' \<Longrightarrow> cmp_bytes k k' \<noteq> Less"
proof (induction p arbitrary: k k')
  case Nil
  then show ?case by simp
next
  case (Cons a p)
  obtain l' where k': "k' = a # l'" "prefix p l'" using Cons.prems(3) by (cases k') auto
  obtain b l where k: "k = b # l" using Cons.prems(1) by (cases k) (auto simp: cmp_bytes_def)
  show ?case
  proof (cases "b = a")
    case True
    with Cons k k' show ?thesis by (simp add: cmp_bytes_def cmp_lin_def)
  next
    case False
    with Cons.prems(1) k have "a < b"
      by (auto simp: cmp_bytes_def cmp_lin_def split: if_splits)
    with k k' show ?thesis by (auto simp: cmp_bytes_def cmp_lin_def)
  qed
qed

text \<open>
  A range scan from a prefix that stops at the first key without it visits exactly the keys
  with that prefix.
\<close>

lemma takeWhile_filter_range:
  assumes "bt_wf cmp_bytes m"
  shows "takeWhile (\<lambda>e. prefix p (fst e)) (bt_range_from cmp_bytes p m) = filter (\<lambda>e. prefix p (fst e)) m"
  using assms
proof (induction m)
  case Nil
  then show ?case by (simp add: bt_range_from_def)
next
  case (Cons e m)
  then have wf: "bt_wf cmp_bytes m" and lt: "\<forall>x\<in>set m. cmp_bytes (fst e) (fst x) = Less"
    by (auto simp: bt_wf_def)
  show ?case
  proof (cases "prefix p (fst e)")
    case True
    then show ?thesis
      using Cons.IH [OF wf] cmp_bytes_prefix [OF True] by (simp add: bt_range_from_def)
  next
    case np: False
    show ?thesis
    proof (cases "cmp_bytes (fst e) p = Less")
      case True
      with np Cons.IH [OF wf] show ?thesis by (simp add: bt_range_from_def)
    next
      case False
      with np lt have "\<forall>x\<in>set m. \<not> prefix p (fst x)"
        using cmp_bytes_past_prefix by blast
      then have "filter (\<lambda>e. prefix p (fst e)) m = []" by (simp add: filter_empty_conv)
      with np False show ?thesis by (simp add: bt_range_from_def)
    qed
  qed
qed

text \<open>The same for any order: scanning from a lower bound while \<open>P\<close> holds collects all of
  \<open>P\<close> when its keys start at the bound and are contiguous in the order.\<close>

lemma takeWhile_filter_convex:
  assumes "sorted_wrt lt m" and "\<And>x. x \<in> set m \<Longrightarrow> P x \<Longrightarrow> Q x"
    and "\<And>x y. x \<in> set m \<Longrightarrow> y \<in> set m \<Longrightarrow> lt x y \<Longrightarrow> Q x \<Longrightarrow> \<not> P x \<Longrightarrow> \<not> P y"
  shows "takeWhile P (filter Q m) = filter P m"
  using assms
proof (induction m)
  case (Cons x m)
  then have ih: "takeWhile P (filter Q m) = filter P m" by (intro Cons.IH) auto
  show ?case
  proof (cases "P x \<or> \<not> Q x")
    case True
    with ih Cons.prems(2) show ?thesis by auto
  next
    case False
    moreover have "\<not> P y" if "y \<in> set m" for y
      using Cons.prems(1) Cons.prems(3) [of x y] False that by auto
    ultimately show ?thesis by (simp add: filter_False)
  qed
qed simp

section \<open>Stable sorting\<close>

text \<open>\<open>slice::sort_by\<close> is a stable sort: an element goes in front of the first later one it does
  not exceed.\<close>

fun insert_by :: "('a \<Rightarrow> 'a \<Rightarrow> ordering) \<Rightarrow> 'a \<Rightarrow> 'a list \<Rightarrow> 'a list" where
  "insert_by cmp x [] = [x]"
| "insert_by cmp x (y # ys) = (if cmp x y = Greater then y # insert_by cmp x ys else x # y # ys)"

definition sort_by :: "('a \<Rightarrow> 'a \<Rightarrow> ordering) \<Rightarrow> 'a list \<Rightarrow> 'a list" where
  "sort_by cmp xs = foldr (insert_by cmp) xs []"

lemma set_insert_by [simp]: "set (insert_by cmp x ys) = insert x (set ys)"
  by (induction ys) auto

lemma mset_insert_by [simp]: "mset (insert_by cmp x ys) = add_mset x (mset ys)"
  by (induction ys) auto

lemma mset_sort_by [simp]: "mset (sort_by cmp xs) = mset xs"
  by (induction xs) (auto simp: sort_by_def)

lemma set_sort_by [simp]: "set (sort_by cmp xs) = set xs"
  by (metis mset_sort_by set_mset_mset)

context rust_preord
begin

lemma insert_by_sorted:
  assumes "f x \<in> K" "f ` set ys \<subseteq> K" "sorted_wrt (\<lambda>a b. cmp (f a) (f b) \<noteq> Greater) ys"
  shows "sorted_wrt (\<lambda>a b. cmp (f a) (f b) \<noteq> Greater) (insert_by (\<lambda>a b. cmp (f a) (f b)) x ys)"
  using assms
proof (induction ys)
  case (Cons y ys)
  show ?case
  proof (cases "cmp (f x) (f y) = Greater")
    case True
    with Cons.prems have "cmp (f y) (f x) = Less" by (simp add: pre_swap)
    with True Cons show ?thesis by auto
  next
    case False
    have "cmp (f x) (f z) \<noteq> Greater" if "z \<in> set ys" for z
    proof -
      have yz: "cmp (f y) (f z) \<noteq> Greater" using Cons.prems(3) that by simp
      have K: "f x \<in> K" "f y \<in> K" "f z \<in> K" using Cons.prems that by auto
      from False yz show ?thesis
        using pre_trans [OF K] pre_equal [OF K] pre_less_equal [OF K]
        by (cases "cmp (f x) (f y)"; cases "cmp (f y) (f z)") auto
    qed
    with False Cons.prems show ?thesis by simp
  qed
qed simp

lemma sort_by_sorted:
  "f ` set xs \<subseteq> K \<Longrightarrow>
   sorted_wrt (\<lambda>a b. cmp (f a) (f b) \<noteq> Greater) (sort_by (\<lambda>a b. cmp (f a) (f b)) xs)"
proof (induction xs)
  case (Cons x xs)
  then have "f ` set (sort_by (\<lambda>a b. cmp (f a) (f b)) xs) \<subseteq> K" by simp
  with Cons insert_by_sorted [of f x "sort_by (\<lambda>a b. cmp (f a) (f b)) xs"] show ?case
    by (simp add: sort_by_def)
qed (simp add: sort_by_def)

end

end
