(* ===== verification/Primitives_Bytes.thy ===== *)
theory Primitives_Bytes
  imports BTree_Map
begin

text \<open>
  Byte conversions, fixed-width identifiers, wire boundaries, TAPOS fields and the Merkle root
  of \<open>tron-primitives\<close> (\<open>bytes.rs\<close>, \<open>types.rs\<close>, \<open>wire.rs\<close>, \<open>tapos.rs\<close>,
  \<open>merkle.rs\<close>). Strings are their UTF-8 bytes; a \<open>[u8; N]\<close> is a byte list of length
  \<open>N\<close>; \<open>BigInt\<close> and \<open>BigUint\<close> are \<open>int\<close>; the digest engine is an argument.
\<close>

section \<open>bytes.rs\<close>

datatype ByteError =
    InvalidHex nat u8
  | InvalidRange nat nat nat
  | WidthMismatch nat nat
  | InvalidUtf8
  | IntegerOutOfRange
  | LengthOverflow

definition i64_to_be_bytes :: "i64 \<Rightarrow> bytes" where "i64_to_be_bytes v = be_bytes 8 v"
definition i64_to_le_bytes :: "i64 \<Rightarrow> bytes" where "i64_to_le_bytes v = le_bytes 8 v"
definition i32_to_be_bytes :: "i32 \<Rightarrow> bytes" where "i32_to_be_bytes v = be_bytes 4 v"
definition i32_to_le_bytes :: "i32 \<Rightarrow> bytes" where "i32_to_le_bytes v = le_bytes 4 v"
definition i64_from_be_bytes :: "bytes \<Rightarrow> i64" where "i64_from_be_bytes bs = wrap_i64 (be_value bs)"
definition i64_from_le_bytes :: "bytes \<Rightarrow> i64" where "i64_from_le_bytes bs = wrap_i64 (le_value bs)"
definition i32_from_be_bytes :: "bytes \<Rightarrow> i32" where "i32_from_be_bytes bs = wrap_i32 (be_value bs)"
definition i32_from_le_bytes :: "bytes \<Rightarrow> i32" where "i32_from_le_bytes bs = wrap_i32 (le_value bs)"

definition unsigned_lexicographic_cmp :: "bytes \<Rightarrow> bytes \<Rightarrow> ordering" where
  "unsigned_lexicographic_cmp l r = cmp_bytes l r"
definition reverse_unsigned_lexicographic_cmp :: "bytes \<Rightarrow> bytes \<Rightarrow> ordering" where
  "reverse_unsigned_lexicographic_cmp l r = cmp_bytes (rev l) (rev r)"

fun sum_lengths :: "nat \<Rightarrow> bytes list \<Rightarrow> nat option" where
  "sum_lengths acc [] = Some acc"
| "sum_lengths acc (p # ps) =
     (case usize_checked_add acc (length p) of None \<Rightarrow> None | Some acc' \<Rightarrow> sum_lengths acc' ps)"

definition concat_bytes :: "bytes list \<Rightarrow> (bytes, ByteError) result" where
  "concat_bytes parts =
     (case sum_lengths 0 parts of None \<Rightarrow> Err LengthOverflow | Some _ \<Rightarrow> Ok (concat parts))"

definition concat_fixed :: "nat \<Rightarrow> bytes list \<Rightarrow> (bytes, ByteError) result" where
  "concat_fixed n parts =
     (case concat_bytes parts of
        Err e \<Rightarrow> Err e
      | Ok bs \<Rightarrow> if length bs = n then Ok bs else Err (WidthMismatch n (length bs)))"

definition exact_slice :: "bytes \<Rightarrow> nat \<Rightarrow> nat \<Rightarrow> (bytes, ByteError) result" where
  "exact_slice input start end' = ok_or (get_range input start end') (InvalidRange start end' (length input))"

definition parse_bytes :: "bytes \<Rightarrow> nat \<Rightarrow> nat \<Rightarrow> bytes" where
  "parse_bytes input offset len =
     (if offset \<ge> length input \<or> len = 0 then []
      else let copied = min len (length input - offset)
           in take copied (drop offset input) @ replicate (len - copied) 0)"

definition parse_word :: "bytes \<Rightarrow> nat \<Rightarrow> bytes" where
  "parse_word input index = (if index * 32 \<le> usize_max then parse_bytes input (index * 32) 32 else [])"

text \<open>The loop of \<open>increment_be\<close> runs from the last byte to the first.\<close>

fun increment_rev :: "bytes \<Rightarrow> bytes \<times> bool" where
  "increment_rev [] = ([], False)"
| "increment_rev (b # bs) =
     (if b + 1 \<noteq> 0 then ((b + 1) # bs, True)
      else (let (bs', r) = increment_rev bs in ((b + 1) # bs', r)))"

definition increment_be :: "bytes \<Rightarrow> bytes \<times> bool" where
  "increment_be bs = (let (bs', r) = increment_rev (rev bs) in (rev bs', r))"

definition long_to_32_bytes :: "i64 \<Rightarrow> bytes" where
  "long_to_32_bytes v = replicate 24 0 @ i64_to_be_bytes v"

definition int_to_bytes_no_leading_zeroes :: "i32 \<Rightarrow> bytes" where
  "int_to_bytes_no_leading_zeroes v =
     (if v = 0 then []
      else let bs = i32_to_be_bytes v;
               first = (case position (\<lambda>b. b \<noteq> 0) bs of None \<Rightarrow> length bs - 1 | Some i \<Rightarrow> i)
           in drop first bs)"

definition strip_leading_zeroes :: "bytes option \<Rightarrow> bytes option" where
  "strip_leading_zeroes input =
     map_option (\<lambda>bs. case position (\<lambda>b. b \<noteq> 0) bs of None \<Rightarrow> [0] | Some first \<Rightarrow> drop first bs) input"

abbreviation unwrap_or_default :: "bytes option \<Rightarrow> bytes" where
  "unwrap_or_default x \<equiv> (case x of None \<Rightarrow> [] | Some bs \<Rightarrow> bs)"

definition positive_biguint :: "bytes option \<Rightarrow> int" where
  "positive_biguint input = be_value (unwrap_or_default input)"

definition positive_to_i64_truncating :: "bytes option \<Rightarrow> i64" where
  "positive_to_i64_truncating input =
     (let bs = unwrap_or_default input; copied = min (length bs) 8
      in i64_from_be_bytes (replicate (8 - copied) 0 @ drop (length bs - copied) bs))"

definition positive_to_i32_truncating :: "bytes option \<Rightarrow> i32" where
  "positive_to_i32_truncating input =
     (let bs = unwrap_or_default input; copied = min (length bs) 4
      in i32_from_be_bytes (replicate (4 - copied) 0 @ drop (length bs - copied) bs))"

definition positive_to_i64_exact :: "bytes option \<Rightarrow> (i64, ByteError) result" where
  "positive_to_i64_exact input = ok_or (checked_i64 (positive_biguint input)) IntegerOutOfRange"

text \<open>\<open>BigInt::to_signed_bytes_be\<close> of the bignum library is the argument \<open>signed_be\<close>.\<close>

definition bigint_to_fixed_bytes :: "(int \<Rightarrow> bytes) \<Rightarrow> int option \<Rightarrow> nat \<Rightarrow> bytes option" where
  "bigint_to_fixed_bytes signed_be value width =
     map_option (\<lambda>v.
       let signed = (if signed_be v = [] then [0] else signed_be v);
           source_start = (if width + 1 \<le> usize_max \<and> width + 1 = length signed then 1 else 0);
           len = min (length signed - source_start) width
       in replicate (width - len) 0 @ take len (drop source_start signed)) value"

definition bigint_to_unsigned_bytes :: "(int \<Rightarrow> bytes) \<Rightarrow> int option \<Rightarrow> bytes option" where
  "bigint_to_unsigned_bytes signed_be value =
     map_option (\<lambda>v.
       case signed_be v of
         [] \<Rightarrow> [0]
       | b # bs \<Rightarrow> if bs \<noteq> [] \<and> b = 0 then bs else b # bs) value"

definition HEX :: bytes where "HEX = str_bytes ''0123456789abcdef''"

fun to_hex :: "bytes \<Rightarrow> bytes" where
  "to_hex [] = []"
| "to_hex (b # bs) = HEX ! unat (drop_bit 4 b) # HEX ! unat (b AND 15) # to_hex bs"

definition to_hex_or_empty :: "bytes option \<Rightarrow> bytes" where
  "to_hex_or_empty input = (case input of None \<Rightarrow> [] | Some bs \<Rightarrow> to_hex bs)"

definition hex_nibble :: "u8 \<Rightarrow> u8 option" where
  "hex_nibble byte =
     (if 48 \<le> byte \<and> byte \<le> 57 then Some (byte - 48)
      else if 97 \<le> byte \<and> byte \<le> 102 then Some (byte - 97 + 10)
      else if 65 \<le> byte \<and> byte \<le> 70 then Some (byte - 65 + 10)
      else None)"

text \<open>The decoding loop, at byte \<open>index\<close> of the (even-length) text.\<close>

fun from_hex_loop :: "nat \<Rightarrow> bytes \<Rightarrow> (bytes, ByteError) result" where
  "from_hex_loop index (h # l # rest) =
     (case hex_nibble h of
        None \<Rightarrow> Err (InvalidHex index h)
      | Some high \<Rightarrow>
          (case hex_nibble l of
             None \<Rightarrow> Err (InvalidHex (index + 1) l)
           | Some low \<Rightarrow>
               (case from_hex_loop (index + 2) rest of
                  Err e \<Rightarrow> Err e
                | Ok out \<Rightarrow> Ok ((push_bit 4 high OR low) # out))))"
| "from_hex_loop index _ = Ok []"

definition strip_0x :: "bytes \<Rightarrow> bytes" where
  "strip_0x s = (if prefix [48, 120] s then drop 2 s else s)"

definition from_hex :: "bytes option \<Rightarrow> (bytes, ByteError) result" where
  "from_hex input =
     (case input of
        None \<Rightarrow> Ok []
      | Some s \<Rightarrow>
          (let t = strip_0x s; u = (if length t mod 2 = 1 then 48 # t else t)
           in from_hex_loop 0 u))"

section \<open>types.rs\<close>

definition ADDRESS20_LENGTH :: nat where "ADDRESS20_LENGTH = 20"
definition TRON_ADDRESS_LENGTH :: nat where "TRON_ADDRESS_LENGTH = 21"
definition HASH_LENGTH :: nat where "HASH_LENGTH = 32"
definition DEFAULT_TRON_PREFIX :: u8 where "DEFAULT_TRON_PREFIX = 0x41"

datatype FixedBytesError = InvalidLength nat nat | InvalidAddressPrefix u8 u8

text \<open>\<open>TryFrom<&[u8]>\<close> of the \<open>fixed_bytes!\<close> types of width \<open>n\<close>.\<close>

definition fixed_try_from :: "nat \<Rightarrow> bytes \<Rightarrow> (bytes, FixedBytesError) result" where
  "fixed_try_from n value = (if length value = n then Ok value else Err (InvalidLength n (length value)))"

definition Hash32_ZERO :: bytes where "Hash32_ZERO = replicate HASH_LENGTH 0"

definition address_new :: "u8 \<Rightarrow> bytes \<Rightarrow> bytes" where
  "address_new pfx payload = pfx # payload"

definition address_validate :: "bytes \<Rightarrow> u8 \<Rightarrow> (bytes, FixedBytesError) result" where
  "address_validate bs expected_prefix =
     (if length bs \<noteq> TRON_ADDRESS_LENGTH then Err (InvalidLength TRON_ADDRESS_LENGTH (length bs))
      else if bs ! 0 \<noteq> expected_prefix then Err (InvalidAddressPrefix expected_prefix (bs ! 0))
      else Ok bs)"

definition address_validate_mainnet :: "bytes \<Rightarrow> (bytes, FixedBytesError) result" where
  "address_validate_mainnet bs = address_validate bs DEFAULT_TRON_PREFIX"

definition address_prefix :: "bytes \<Rightarrow> u8" where "address_prefix a = a ! 0"
definition address_payload :: "bytes \<Rightarrow> bytes" where "address_payload a = drop 1 a"

definition hash_to_positive_biguint :: "bytes \<Rightarrow> int" where "hash_to_positive_biguint h = be_value h"

definition hash_cmp :: "bytes \<Rightarrow> bytes \<Rightarrow> ordering" where
  "hash_cmp a b = cmp_bytes (rev a) (rev b)"

definition blockid_new :: "i64 \<Rightarrow> bytes \<Rightarrow> bytes" where
  "blockid_new height hash = i64_to_be_bytes height @ drop 8 hash"
definition from_overlaid_hash :: "bytes \<Rightarrow> bytes" where "from_overlaid_hash hash = hash"
definition blockid_height :: "bytes \<Rightarrow> i64" where
  "blockid_height i = i64_from_be_bytes (take 8 i)"
definition height_compare :: "bytes \<Rightarrow> bytes \<Rightarrow> ordering" where
  "height_compare a b = cmp_lin (blockid_height a) (blockid_height b)"
definition total_bytes_compare :: "bytes \<Rightarrow> bytes \<Rightarrow> ordering" where
  "total_bytes_compare a b = cmp_bytes a b"
definition blockid_cmp_hash :: "bytes \<Rightarrow> bytes \<Rightarrow> ordering" where
  "blockid_cmp_hash i hash = hash_cmp i hash"

text \<open>A \<open>DigestProvider\<close> is its \<open>digest\<close> function.\<close>

type_synonym 'e digest = "bytes \<Rightarrow> (bytes, 'e) result"

definition digest_pair :: "'e digest \<Rightarrow> bytes \<Rightarrow> bytes \<Rightarrow> (bytes, 'e) result" where
  "digest_pair digest left right = digest (left @ right)"

section \<open>tapos.rs\<close>

definition ref_block_bytes :: "i64 \<Rightarrow> bytes" where
  "ref_block_bytes height = take 2 (drop 6 (i64_to_be_bytes height))"
definition ref_block_hash :: "bytes \<Rightarrow> bytes" where
  "ref_block_hash hash = take 8 (drop 8 hash)"
definition ref_block_hash_from_id :: "bytes \<Rightarrow> bytes" where
  "ref_block_hash_from_id block_id = ref_block_hash block_id"

section \<open>wire.rs\<close>

record TransactionWire =
  tx_full :: bytes
  tx_raw :: bytes

definition transaction_id :: "'e digest \<Rightarrow> TransactionWire \<Rightarrow> (bytes, 'e) result" where
  "transaction_id digest tx = digest (tx_raw tx)"
definition full_hash :: "'e digest \<Rightarrow> TransactionWire \<Rightarrow> (bytes, 'e) result" where
  "full_hash digest tx = digest (tx_full tx)"

record BlockWire =
  block_full :: bytes
  block_raw_header :: bytes
  block_height :: i64

definition block_id :: "'e digest \<Rightarrow> BlockWire \<Rightarrow> (bytes, 'e) result" where
  "block_id digest b =
     (case digest (block_raw_header b) of
        Err e \<Rightarrow> Err e
      | Ok hash \<Rightarrow> Ok (blockid_new (block_height b) hash))"

section \<open>merkle.rs\<close>

text \<open>One pass of the pairing loop: complete pairs are hashed, an unpaired last node is kept.\<close>

fun merkle_parents :: "'e digest \<Rightarrow> bytes list \<Rightarrow> (bytes list, 'e) result" where
  "merkle_parents digest (l # r # rest) =
     (case digest_pair digest l r of
        Err e \<Rightarrow> Err e
      | Ok p \<Rightarrow> (case merkle_parents digest rest of Err e \<Rightarrow> Err e | Ok ps \<Rightarrow> Ok (p # ps)))"
| "merkle_parents digest rest = Ok rest"

lemma merkle_parents_length:
  "merkle_parents digest level = Ok parents \<Longrightarrow> length parents = (length level + 1) div 2"
  by (induction digest level arbitrary: parents rule: merkle_parents.induct)
    (auto split: sum.splits)

function merkle_loop :: "'e digest \<Rightarrow> bytes list \<Rightarrow> (bytes, 'e) result" where
  "merkle_loop digest level =
     (if length level > 1 then
        (case merkle_parents digest level of Err e \<Rightarrow> Err e | Ok parents \<Rightarrow> merkle_loop digest parents)
      else Ok (level ! 0))"
  by pat_completeness auto
termination
  by (relation "measure (\<lambda>(d, level). length level)") (auto dest: merkle_parents_length)

declare merkle_loop.simps [simp del]

definition merkle_root :: "'e digest \<Rightarrow> bytes list \<Rightarrow> (bytes, 'e) result" where
  "merkle_root digest leaves = (if leaves = [] then Ok Hash32_ZERO else merkle_loop digest leaves)"

section \<open>Codec round trips\<close>

lemma i64_be_roundtrip [simp]: "in_i64 v \<Longrightarrow> i64_from_be_bytes (i64_to_be_bytes v) = v"
proof -
  assume v: "in_i64 v"
  have "wrap_i64 (v mod 18446744073709551616) = wrap_i64 v"
    unfolding wrap_i64_def by (simp only: mod_add_left_eq)
  with v show ?thesis
    by (simp add: i64_from_be_bytes_def i64_to_be_bytes_def be_value_be_bytes)
qed

lemma length_i64_to_be_bytes [simp]: "length (i64_to_be_bytes v) = 8"
  by (simp add: i64_to_be_bytes_def)

lemma i64_from_be_inj:
  assumes "length a = 8" and "length b = 8" and "i64_from_be_bytes a = i64_from_be_bytes b"
  shows "a = b"
proof -
  have "be_value a mod 18446744073709551616 = be_value b mod 18446744073709551616"
    using assms(3) wrap_i64_mod by (metis i64_from_be_bytes_def)
  moreover have "be_value a < 18446744073709551616" "be_value b < 18446744073709551616"
    using be_value_less [of a] be_value_less [of b] assms by simp_all
  ultimately have "be_value a = be_value b" by simp
  with assms show ?thesis by (simp add: be_value_inj)
qed

subsection \<open>Hexadecimal text\<close>

lemma nat_lt_16: "(n::nat) < 16 \<longleftrightarrow> n \<in> set [0..<16]"
  by simp

lemma hex_nibble_HEX: "n < 16 \<Longrightarrow> hex_nibble (HEX ! n) = Some (word_of_nat n)"
  unfolding nat_lt_16 by (auto simp: upt_rec HEX_def str_bytes_def hex_nibble_def)

lemma HEX_not_x: "n < 16 \<Longrightarrow> HEX ! n \<noteq> 120"
  unfolding nat_lt_16 by (auto simp: upt_rec HEX_def str_bytes_def)

lemma high_nibble_less: "unat (drop_bit 4 (b :: u8)) < 16"
proof -
  have "unat b < 2 ^ LENGTH(8)" by (rule unsigned_less)
  moreover have "unat (drop_bit 4 b) = unat b div 16"
    by (simp only: unat_drop_bit_eq) (simp add: drop_bit_eq_div)
  ultimately show ?thesis by simp
qed

lemma low_nibble_less: "unat ((b :: u8) AND 15) < 16"
proof -
  have "b AND 15 \<le> 15" by (rule word_and_le1)
  then show ?thesis by (simp add: word_le_nat_alt)
qed

lemma nibbles_join: "push_bit 4 (drop_bit 4 b) OR (b AND 15) = (b :: u8)"
proof -
  have "(15 :: u8) = mask 4" by (simp add: mask_eq_exp_minus_1)
  then show ?thesis
    by (auto simp: bit_eq_iff bit_simps not_le)
qed

lemma from_hex_loop_to_hex: "from_hex_loop i (to_hex bs) = Ok bs"
  by (induction bs arbitrary: i)
    (auto simp: hex_nibble_HEX high_nibble_less low_nibble_less nibbles_join)

lemma length_to_hex [simp]: "length (to_hex bs) = 2 * length bs"
  by (induction bs) auto

lemma strip_0x_to_hex [simp]: "strip_0x (to_hex bs) = to_hex bs"
  by (cases bs) (auto simp: strip_0x_def HEX_not_x [OF low_nibble_less] dest: sym)

text \<open>
  \<open>from_hex\<close> reads back exactly the bytes that \<open>to_hex\<close> printed; the optional
  \<open>0x\<close> prefix does not change the result.
\<close>

theorem from_hex_to_hex:
  "from_hex (Some (to_hex bs)) = Ok bs \<and> from_hex (Some (str_bytes ''0x'' @ to_hex bs)) = Ok bs"
proof -
  have "strip_0x (str_bytes ''0x'' @ to_hex bs) = to_hex bs"
    by (simp add: strip_0x_def str_bytes_def)
  then show ?thesis
    by (simp add: from_hex_def from_hex_loop_to_hex)
qed

subsection \<open>Big-endian increment\<close>

fun rev_value :: "bytes \<Rightarrow> int" where
  "rev_value [] = 0"
| "rev_value (b # bs) = uint b + 256 * rev_value bs"

lemma be_value_snoc: "be_value (bs @ [b]) = 256 * be_value bs + uint b"
  by (induction bs) (auto simp: algebra_simps)

lemma rev_value_eq: "rev_value bs = be_value (rev bs)"
  by (induction bs) (auto simp: be_value_snoc)

lemma rev_value_nonneg: "0 \<le> rev_value bs"
  by (simp add: rev_value_eq)

lemma increment_rev_value:
  "increment_rev bs = (bs', r) \<Longrightarrow>
   length bs' = length bs \<and> rev_value bs' = (if r then rev_value bs + 1 else 0) \<and>
   (\<not> r \<longrightarrow> rev_value bs + 1 = 256 ^ length bs)"
proof (induction bs arbitrary: bs' r)
  case Nil
  then show ?case by simp
next
  case (Cons b bs)
  have "uint b < 256" using uint_lt2p [of b] by simp
  have mod: "uint (b + 1) = (uint b + 1) mod 256" by (simp add: uint_word_ariths)
  have zero: "b + 1 = 0 \<longleftrightarrow> uint b = 255"
  proof -
    have "b + 1 = 0 \<longleftrightarrow> uint (b + 1) = 0" by (simp only: uint_0_iff)
    then show ?thesis using mod \<open>uint b < 256\<close> uint_ge_0 [of b]
      by (cases "uint b = 255") (simp_all del: uint_ge_0)
  qed
  show ?case
  proof (cases "b + 1 = 0")
    case False
    with mod zero \<open>uint b < 256\<close> have "uint (b + 1) = uint b + 1" by simp
    with False Cons.prems show ?thesis by auto
  next
    case True
    with Cons.prems obtain cs where cs: "increment_rev bs = (cs, r)" "bs' = 0 # cs"
      by (auto split: prod.splits)
    with Cons.IH [OF cs(1)] True zero show ?thesis by auto
  qed
qed

text \<open>
  \<open>increment_be\<close> keeps the width and adds one modulo \<open>256 ^ width\<close>; it reports
  \<open>false\<close> exactly when the addition wrapped to zero.
\<close>

theorem increment_be_correct:
  "length (fst (increment_be bs)) = length bs \<and>
   be_value (fst (increment_be bs)) = (be_value bs + 1) mod 256 ^ length bs \<and>
   (snd (increment_be bs) \<longleftrightarrow> be_value bs + 1 < 256 ^ length bs)"
proof -
  obtain cs r where inc: "increment_rev (rev bs) = (cs, r)" by fastforce
  from increment_rev_value [OF inc]
  have len: "length cs = length bs"
    and val: "be_value (rev cs) = (if r then be_value bs + 1 else 0)"
    and full: "\<not> r \<Longrightarrow> be_value bs + 1 = 256 ^ length bs"
    by (auto simp: rev_value_eq)
  have less: "be_value (rev cs) < 256 ^ length bs"
    using be_value_less [of "rev cs"] len by simp
  have eq: "increment_be bs = (rev cs, r)" by (simp add: increment_be_def inc)
  show ?thesis
    using len val full less by (cases r) (simp_all add: eq)
qed

subsection \<open>Block identifiers\<close>

text \<open>
  A block identifier carries its height and the tail of its hash: reading the height back
  gives the signed block number, the other 24 bytes are those of the hash, the width is kept,
  and the TAPOS reference bytes are the low two bytes of the number.
\<close>

theorem blockid_new_roundtrip:
  assumes "in_i64 height" and "length hash = HASH_LENGTH"
  shows "blockid_height (blockid_new height hash) = height \<and>
         drop 8 (blockid_new height hash) = drop 8 hash \<and>
         length (blockid_new height hash) = HASH_LENGTH \<and>
         be_value (ref_block_bytes height) = height mod 65536 \<and>
         ref_block_hash_from_id (blockid_new height hash) = ref_block_hash hash"
proof -
  have tail: "drop m (be_bytes n x) = be_bytes (n - m) x" for m n x
    by (induction n x arbitrary: m rule: be_bytes.induct) (auto simp: drop_Cons' split: nat_diff_split)
  have "ref_block_bytes height = be_bytes 2 height"
    by (simp add: ref_block_bytes_def i64_to_be_bytes_def tail)
  then have "be_value (ref_block_bytes height) = height mod 65536"
    by (simp add: be_value_be_bytes)
  with assms show ?thesis
    by (simp add: blockid_new_def blockid_height_def HASH_LENGTH_def ref_block_hash_def
        ref_block_hash_from_id_def)
qed

theorem blockid_new_roundtrip_witness:
  "in_i64 (-2) \<and> blockid_height (blockid_new (-2) (replicate 32 7)) = -2"
  using blockid_new_roundtrip [of "-2" "replicate 32 7"] by (simp add: in_i64_def HASH_LENGTH_def)

section \<open>Merkle root\<close>

definition digest_collision :: "'e digest \<Rightarrow> bool" where
  "digest_collision digest \<longleftrightarrow>
     (\<exists>a b h. a \<noteq> b \<and> length a = 64 \<and> length b = 64 \<and> digest a = Ok h \<and> digest b = Ok h)"

definition hashes :: "bytes list \<Rightarrow> bool" where
  "hashes hs \<longleftrightarrow> (\<forall>h\<in>set hs. length h = 32)"

text \<open>The digest engine returns a \<open>Hash32\<close>.\<close>

definition digest_width :: "'e digest \<Rightarrow> bool" where
  "digest_width digest \<longleftrightarrow> (\<forall>m h. digest m = Ok h \<longrightarrow> length h = 32)"

lemma merkle_parents_hashes:
  "digest_width digest \<Longrightarrow> hashes level \<Longrightarrow> merkle_parents digest level = Ok ps \<Longrightarrow> hashes ps"
  by (induction digest level arbitrary: ps rule: merkle_parents.induct)
    (auto simp: hashes_def digest_width_def digest_pair_def split: sum.splits)

lemma merkle_parents_inj:
  assumes "merkle_parents digest xs = Ok ps" and "merkle_parents digest ys = Ok ps"
    and "hashes xs" and "hashes ys" and "length xs = length ys" and "\<not> digest_collision digest"
  shows "xs = ys"
  using assms
proof (induction digest xs arbitrary: ys ps rule: merkle_parents.induct)
  case (1 digest l r rest)
  obtain l' r' rest' where ys: "ys = l' # r' # rest'"
    using "1.prems"(5) by (metis length_Suc_conv)
  from "1.prems"(1) obtain p qs where p: "digest (l @ r) = Ok p" "merkle_parents digest rest = Ok qs" "ps = p # qs"
    by (auto simp: digest_pair_def split: sum.splits)
  from "1.prems"(2) ys p(3) have p': "digest (l' @ r') = Ok p" "merkle_parents digest rest' = Ok qs"
    by (auto simp: digest_pair_def split: sum.splits)
  have len: "length l = 32" "length r = 32" "length l' = 32" "length r' = 32"
    using "1.prems"(3,4) ys by (auto simp: hashes_def)
  have "l @ r = l' @ r'"
  proof (rule ccontr)
    assume "l @ r \<noteq> l' @ r'"
    then have "digest_collision digest"
      unfolding digest_collision_def using p(1) p'(1) len by (metis length_append numeral_Bit0)
    with "1.prems"(6) show False by simp
  qed
  then have "l = l'" "r = r'" using len by auto
  moreover have "rest = rest'"
    using "1.IH" [of p qs rest'] p p' "1.prems" ys by (auto simp: digest_pair_def hashes_def)
  ultimately show ?case by (simp add: ys)
qed (auto simp: length_Suc_conv dest!: sym [of "Suc 0"])

lemma merkle_loop_inj:
  assumes "merkle_loop digest xs = Ok root" and "merkle_loop digest ys = Ok root"
    and "hashes xs" and "hashes ys" and "length xs = length ys" and "xs \<noteq> []"
    and "digest_width digest" and "\<not> digest_collision digest"
  shows "xs = ys"
  using assms
proof (induction digest xs arbitrary: ys rule: merkle_loop.induct)
  case (1 digest xs)
  show ?case
  proof (cases "length xs > 1")
    case True
    with "1.prems"(1,2,5) obtain ps qs
      where ps: "merkle_parents digest xs = Ok ps" "merkle_loop digest ps = Ok root"
        and qs: "merkle_parents digest ys = Ok qs" "merkle_loop digest qs = Ok root"
      by (auto simp: merkle_loop.simps [of digest xs] merkle_loop.simps [of digest ys] split: sum.splits)
    have "length ps = length qs" "ps \<noteq> []"
      using merkle_parents_length [OF ps(1)] merkle_parents_length [OF qs(1)] "1.prems"(5) True by auto
    then have "ps = qs"
      using "1.IH" [OF True ps(1) ps(2) qs(2)] merkle_parents_hashes ps(1) qs(1) "1.prems" by blast
    then show ?thesis
      using merkle_parents_inj ps(1) qs(1) "1.prems" by blast
  next
    case False
    with "1.prems"(5,6) obtain x y where "xs = [x]" "ys = [y]"
      by (cases xs; cases ys) auto
    with "1.prems"(1,2) show ?thesis
      by (simp add: merkle_loop.simps [of digest "[_]"])
  qed
qed

lemma merkle_parents_total:
  "(\<And>m. is_ok (digest m)) \<Longrightarrow> \<exists>ps. merkle_parents digest xs = Ok ps"
proof (induction digest xs rule: merkle_parents.induct)
  case (1 digest l r rest)
  obtain p where p: "digest (l @ r) = Ok p"
    using "1.prems" [of "l @ r"] by (cases "digest (l @ r)") auto
  obtain ps where "merkle_parents digest rest = Ok ps"
    using "1.IH" [of p] p "1.prems" by (auto simp: digest_pair_def)
  with p show ?case by (simp add: digest_pair_def)
qed auto

lemma merkle_loop_total:
  "(\<And>m. is_ok (digest m)) \<Longrightarrow> \<exists>r. merkle_loop digest xs = Ok r"
proof (induction digest xs rule: merkle_loop.induct)
  case (1 digest xs)
  obtain ps where ps: "merkle_parents digest xs = Ok ps"
    using merkle_parents_total "1.prems" by blast
  show ?case
    using "1.IH" [OF _ ps "1.prems"] ps by (subst merkle_loop.simps) auto
qed

lemma merkle_root_total: "(\<And>m. is_ok (digest m)) \<Longrightarrow> \<exists>r. merkle_root digest xs = Ok r"
  using merkle_loop_total [of digest xs] by (auto simp: merkle_root_def)

text \<open>
  C36: the Merkle root binds its leaves: two different lists of 32-byte leaves of the same
  length with the same root give a collision of the digest engine on 64-byte inputs.
\<close>

theorem merkle_root_binding:
  assumes "digest_width digest" and "hashes xs" and "hashes ys" and "length xs = length ys"
    and "merkle_root digest xs = Ok root" and "merkle_root digest ys = Ok root" and "xs \<noteq> ys"
  shows "digest_collision digest"
  using assms merkle_loop_inj [of digest xs root ys] by (auto simp: merkle_root_def split: if_splits)

theorem merkle_root_binding_witness:
  "digest_collision (\<lambda>m. Ok (replicate 32 0) :: (bytes, unit) result)"
proof (rule merkle_root_binding [where xs = "[replicate 32 1, replicate 32 1]"
      and ys = "[replicate 32 2, replicate 32 2]" and root = "replicate 32 0"])
  show "([replicate 32 1, replicate 32 1] :: bytes list) \<noteq> [replicate 32 2, replicate 32 2]"
    by (simp add: numeral_eq_Suc)
qed (simp_all add: digest_width_def hashes_def merkle_root_def digest_pair_def merkle_loop.simps)

end
