(* ===== verification/Market_Keys.thy ===== *)
theory Market_Keys
  imports Primitives_Bytes
begin

text \<open>
  Market price keys: the comparison of \<open>tron-primitives/src/market.rs\<close>, the total order
  \<open>market_total_cmp\<close> that \<open>tron-storage/src/lib.rs\<close> keys its market index with, and the
  key codecs of \<open>tron-state/src/market.rs\<close>. A key is the two token identifiers padded to
  19 bytes each and the two quantities as big-endian \<open>i64\<close>.
\<close>

section \<open>market.rs (primitives)\<close>

definition MARKET_TOKEN_ID_LENGTH :: nat where "MARKET_TOKEN_ID_LENGTH = 19"
definition MARKET_PAIR_LENGTH :: nat where "MARKET_PAIR_LENGTH = 38"
definition MARKET_PRICE_KEY_LENGTH :: nat where "MARKET_PRICE_KEY_LENGTH = 54"

lemmas market_lengths [simp] =
  MARKET_TOKEN_ID_LENGTH_def MARKET_PAIR_LENGTH_def MARKET_PRICE_KEY_LENGTH_def

record MarketPrice =
  sell_quantity :: i64
  buy_quantity :: i64

datatype MarketKeyError = TooShort nat nat

definition compare_unsigned :: "bytes \<Rightarrow> bytes \<Rightarrow> ordering" where
  "compare_unsigned left right = cmp_bytes left right"

definition positive_bytes_to_i64_truncating :: "bytes \<Rightarrow> i64" where
  "positive_bytes_to_i64_truncating bs =
     (let source = (if length bs > 8 then drop (length bs - 8) bs else bs)
      in i64_from_be_bytes (replicate (8 - length source) 0 @ source))"

definition compare_price :: "MarketPrice \<Rightarrow> MarketPrice \<Rightarrow> ordering" where
  "compare_price left right =
     (case (checked_i64 (buy_quantity left * sell_quantity right),
            checked_i64 (buy_quantity right * sell_quantity left)) of
        (Some left_cross, Some right_cross) \<Rightarrow> cmp_lin left_cross right_cross
      | _ \<Rightarrow>
          (let left_cross = buy_quantity left * sell_quantity right;
               right_cross = buy_quantity right * sell_quantity left
           in cmp_lin left_cross right_cross))"

definition key_price :: "bytes \<Rightarrow> MarketPrice" where
  "key_price key =
     \<lparr>sell_quantity = positive_bytes_to_i64_truncating (take 8 (drop MARKET_PAIR_LENGTH key)),
      buy_quantity = positive_bytes_to_i64_truncating (take 8 (drop (MARKET_PAIR_LENGTH + 8) key))\<rparr>"

definition price_zero :: "MarketPrice \<Rightarrow> bool" where
  "price_zero p \<longleftrightarrow> sell_quantity p = 0 \<or> buy_quantity p = 0"

definition compare_price_key :: "bytes \<Rightarrow> bytes \<Rightarrow> (ordering, MarketKeyError) result" where
  "compare_price_key left right =
     (if length left < MARKET_PRICE_KEY_LENGTH then Err (TooShort MARKET_PRICE_KEY_LENGTH (length left))
      else if length right < MARKET_PRICE_KEY_LENGTH then Err (TooShort MARKET_PRICE_KEY_LENGTH (length right))
      else let pair_order = compare_unsigned (take MARKET_PAIR_LENGTH left) (take MARKET_PAIR_LENGTH right) in
        if pair_order \<noteq> Equal then Ok pair_order
        else let left_price = key_price left; right_price = key_price right in
          Ok (case (price_zero left_price, price_zero right_price) of
                (True, True) \<Rightarrow> Equal
              | (True, False) \<Rightarrow> Less
              | (False, True) \<Rightarrow> Greater
              | (False, False) \<Rightarrow> compare_price left_price right_price))"

section \<open>The index order (storage)\<close>

definition market_total_cmp :: "bytes \<Rightarrow> bytes \<Rightarrow> ordering" where
  "market_total_cmp left right =
     (case compare_price_key left right of
        Ok Equal \<Rightarrow> cmp_bytes left right
      | Ok other \<Rightarrow> other
      | Err _ \<Rightarrow> cmp_bytes left right)"

section \<open>Key codecs (state)\<close>

datatype MarketCodecError = TokenIdTooLong nat nat | InvalidQuantity i64 i64

text \<open>\<open>wrapping_rem\<close> is \<open>smod\<close>: its only wrapping case, \<open>MIN % -1\<close>, is zero in both.\<close>

function gcd_loop :: "i64 \<Rightarrow> i64 \<Rightarrow> i64" where
  "gcd_loop a b = (if b \<noteq> 0 then gcd_loop b (a smod b) else a)"
  by pat_completeness auto
termination
proof (relation "measure (\<lambda>(a, b). nat \<bar>b\<bar>)")
  fix a b :: int
  assume "b \<noteq> 0"
  then have "\<bar>a smod b\<bar> < \<bar>b\<bar>"
    using smod_int_range [of b a] by auto
  then show "((b, a smod b), (a, b)) \<in> measure (\<lambda>(a, b). nat \<bar>b\<bar>)" by simp
qed simp

declare gcd_loop.simps [simp del]

definition market_gcd :: "i64 \<Rightarrow> i64 \<Rightarrow> i64" where
  "market_gcd a b = (if a = 0 \<or> b = 0 then 0 else gcd_loop a b)"

definition pad_token :: "bytes \<Rightarrow> bytes" where
  "pad_token token = token @ replicate (MARKET_TOKEN_ID_LENGTH - length token) 0"

definition padded_pair :: "bytes \<Rightarrow> bytes \<Rightarrow> (bytes, MarketCodecError) result" where
  "padded_pair sell buy =
     (if length sell > MARKET_TOKEN_ID_LENGTH then Err (TokenIdTooLong MARKET_TOKEN_ID_LENGTH (length sell))
      else if length buy > MARKET_TOKEN_ID_LENGTH then Err (TokenIdTooLong MARKET_TOKEN_ID_LENGTH (length buy))
      else Ok (pad_token sell @ pad_token buy))"

definition pair_key :: "bytes \<Rightarrow> bytes \<Rightarrow> (bytes, MarketCodecError) result" where
  "pair_key sell buy = padded_pair sell buy"

definition pair_price_key_no_gcd :: "bytes \<Rightarrow> bytes \<Rightarrow> i64 \<Rightarrow> i64 \<Rightarrow> (bytes, MarketCodecError) result" where
  "pair_price_key_no_gcd sell buy sell_q buy_q =
     (if sell_q \<le> 0 \<or> buy_q \<le> 0 then Err (InvalidQuantity sell_q buy_q)
      else case padded_pair sell buy of
             Err e \<Rightarrow> Err e
           | Ok pair \<Rightarrow> Ok (pair @ i64_to_be_bytes sell_q @ i64_to_be_bytes buy_q))"

definition pair_price_key :: "bytes \<Rightarrow> bytes \<Rightarrow> i64 \<Rightarrow> i64 \<Rightarrow> (bytes, MarketCodecError) result" where
  "pair_price_key sell buy sell_q buy_q =
     (if sell_q \<le> 0 \<or> buy_q \<le> 0 then Err (InvalidQuantity sell_q buy_q)
      else let divisor = market_gcd sell_q buy_q in
        pair_price_key_no_gcd sell buy
          (wrap_i64 (sell_q sdiv divisor)) (wrap_i64 (buy_q sdiv divisor)))"

definition pair_price_head_key :: "bytes \<Rightarrow> bytes \<Rightarrow> (bytes, MarketCodecError) result" where
  "pair_price_head_key sell buy =
     (case padded_pair sell buy of Err e \<Rightarrow> Err e | Ok pair \<Rightarrow> Ok (pair @ replicate 16 0))"

text \<open>\<open>keccak256\<close> of the cryptographic library is the argument \<open>keccak\<close>.\<close>

definition order_id :: "(bytes \<Rightarrow> bytes) \<Rightarrow> bytes \<Rightarrow> bytes \<Rightarrow> bytes \<Rightarrow> i64 \<Rightarrow> (bytes, MarketCodecError) result" where
  "order_id keccak address sell buy n =
     (case padded_pair sell buy of
        Err e \<Rightarrow> Err e
      | Ok pair \<Rightarrow> Ok (keccak (address @ pair @ i64_to_be_bytes n)))"

definition decode_price :: "bytes \<Rightarrow> (i64 \<times> i64) option" where
  "decode_price key =
     (if length key \<noteq> MARKET_PRICE_KEY_LENGTH then None
      else Some (i64_from_be_bytes (take 8 (drop 38 key)), i64_from_be_bytes (take 8 (drop 46 key))))"

definition pair_prefix :: "bytes \<Rightarrow> bytes option" where
  "pair_prefix key = get_range key 0 MARKET_PAIR_LENGTH"

section \<open>The price order\<close>

lemma compare_price_cross:
  "compare_price l r = cmp_lin (buy_quantity l * sell_quantity r) (buy_quantity r * sell_quantity l)"
  by (simp add: compare_price_def Let_def checked_i64_def split: option.splits)

text \<open>The keys whose quantities are not negative.\<close>

definition market_keys :: "bytes set" where
  "market_keys = {k. MARKET_PRICE_KEY_LENGTH \<le> length k \<and>
     0 \<le> sell_quantity (key_price k) \<and> 0 \<le> buy_quantity (key_price k)}"

text \<open>A zero price ranks like the fraction \<open>0/1\<close>.\<close>

definition norm_price :: "MarketPrice \<Rightarrow> int \<times> int" where
  "norm_price p = (if price_zero p then (1, 0) else (sell_quantity p, buy_quantity p))"

definition ratio_cmp :: "int \<times> int \<Rightarrow> int \<times> int \<Rightarrow> ordering" where
  "ratio_cmp l r = cmp_lin (snd l * fst r) (snd r * fst l)"

lemma ratio_preord: "rust_preord ratio_cmp {p. 0 < fst p}"
proof
  fix a b c :: "int \<times> int"
  assume K: "a \<in> {p. 0 < fst p}" "b \<in> {p. 0 < fst p}" "c \<in> {p. 0 < fst p}"
  then have pos: "0 < fst a" "0 < fst b" "0 < fst c" by auto
  have scale: "x < y \<longleftrightarrow> x * fst b < y * fst b" "x = y \<longleftrightarrow> x * fst b = y * fst b" for x y
    using pos(2) by auto
  show "ratio_cmp a c = Less" if "ratio_cmp a b = Less" "ratio_cmp b c = Less"
  proof -
    have "snd a * fst b * fst c < snd b * fst a * fst c" "snd b * fst c * fst a < snd c * fst b * fst a"
      using that pos by (auto simp: ratio_cmp_def)
    then show ?thesis using scale(1) [of "snd a * fst c" "snd c * fst a"]
      by (simp add: ratio_cmp_def algebra_simps)
  qed
  show "ratio_cmp a c = ratio_cmp b c" if "ratio_cmp a b = Equal"
  proof -
    have eq: "snd a * fst b = snd b * fst a" using that by (simp add: ratio_cmp_def)
    have l: "snd a * fst c * fst b = snd b * fst c * fst a" using eq by (simp add: algebra_simps)
    have r: "snd c * fst a * fst b = snd c * fst b * fst a" by simp
    have "snd a * fst c < snd c * fst a \<longleftrightarrow> snd b * fst c < snd c * fst b"
      "snd a * fst c = snd c * fst a \<longleftrightarrow> snd b * fst c = snd c * fst b"
      using scale [of "snd a * fst c" "snd c * fst a"] l r pos(1) by auto
    then show ?thesis by (simp add: ratio_cmp_def cmp_lin_def)
  qed
qed (auto simp: ratio_cmp_def)

lemma market_total_cmp_ranked:
  assumes "l \<in> market_keys" "r \<in> market_keys"
  shows "market_total_cmp l r =
    then_with (then_with (cmp_bytes (take 38 l) (take 38 r)) (ratio_cmp (norm_price (key_price l)) (norm_price (key_price r))))
      (cmp_bytes l r)"
proof -
  have "(case (price_zero p, price_zero q) of
            (True, True) \<Rightarrow> Equal | (True, False) \<Rightarrow> Less | (False, True) \<Rightarrow> Greater
          | (False, False) \<Rightarrow> compare_price p q) = ratio_cmp (norm_price p) (norm_price q)"
    if "0 \<le> sell_quantity p" "0 \<le> buy_quantity p" "0 \<le> sell_quantity q" "0 \<le> buy_quantity q" for p q
    using that
    by (auto simp: ratio_cmp_def norm_price_def compare_price_cross cmp_lin_def price_zero_def
        split: bool.splits)
  note price = this
  show ?thesis
    using assms price [of "key_price l" "key_price r"]
    by (auto simp: market_total_cmp_def compare_price_key_def compare_unsigned_def market_keys_def
        then_with_def Let_def split: ordering.splits bool.splits)
qed

lemma market_keys_ord: "rust_ord market_total_cmp market_keys"
proof -
  have pair: "rust_preord (\<lambda>l r. cmp_bytes (take 38 l) (take 38 r)) market_keys"
    by (rule preord_vimage [OF bytes.preord]) simp
  have price: "rust_preord (\<lambda>l r. ratio_cmp (norm_price (key_price l)) (norm_price (key_price r))) market_keys"
    by (rule preord_vimage [OF ratio_preord])
      (auto simp: norm_price_def market_keys_def price_zero_def)
  let ?ranked = "\<lambda>l r. then_with (then_with (cmp_bytes (take 38 l) (take 38 r))
    (ratio_cmp (norm_price (key_price l)) (norm_price (key_price r)))) (cmp_bytes l r)"
  have "rust_ord ?ranked market_keys"
    by (rule then_with_ord [OF then_with_preord [OF pair price]])
      (rule ord_subset [OF bytes.rust_ord_axioms], simp)
  moreover have "\<And>l r. l \<in> market_keys \<Longrightarrow> r \<in> market_keys \<Longrightarrow> market_total_cmp l r = ?ranked l r"
    by (rule market_total_cmp_ranked)
  ultimately show ?thesis by (rule ord_cong)
qed

interpretation market: rust_ord market_total_cmp market_keys
  by (rule market_keys_ord)

text \<open>
  On keys of at least 54 bytes whose two quantities are not negative, the order of the
  market index is a lawful total order: it is antisymmetric, \<open>Equal\<close> only on identical keys,
  and transitive.
\<close>

theorem market_total_cmp_lawful:
  assumes "a \<in> market_keys" and "b \<in> market_keys" and "c \<in> market_keys"
  shows "(market_total_cmp a b = Equal \<longleftrightarrow> a = b) \<and>
         (market_total_cmp a b = Greater \<longleftrightarrow> market_total_cmp b a = Less) \<and>
         (market_total_cmp a b = Less \<and> market_total_cmp b c = Less \<longrightarrow> market_total_cmp a c = Less)"
  using market.cmp_eq [OF assms(1,2)] market.cmp_swap [OF assms(1,2)] market.cmp_trans [OF assms]
  by blast

definition sample_key :: "i64 \<Rightarrow> i64 \<Rightarrow> bytes" where
  "sample_key sell buy = replicate 38 0 @ be_bytes 8 sell @ be_bytes 8 buy"

lemma key_price_sample:
  "in_i64 s \<Longrightarrow> in_i64 b \<Longrightarrow> key_price (sample_key s b) = \<lparr>sell_quantity = s, buy_quantity = b\<rparr>"
  using i64_be_roundtrip [of s] i64_be_roundtrip [of b]
  by (simp add: key_price_def sample_key_def positive_bytes_to_i64_truncating_def i64_to_be_bytes_def)

lemma sample_key_cmp:
  assumes "in_i64 s" "in_i64 b" "in_i64 s'" "in_i64 b'" "s \<noteq> 0" "b \<noteq> 0" "s' \<noteq> 0" "b' \<noteq> 0" "b * s' \<noteq> b' * s"
  shows "market_total_cmp (sample_key s b) (sample_key s' b') = cmp_lin (b * s') (b' * s)"
proof -
  have "take 38 (sample_key s b) = take 38 (sample_key s' b')" "54 \<le> length (sample_key s b)"
    "54 \<le> length (sample_key s' b')"
    by (simp_all add: sample_key_def)
  with assms show ?thesis
    by (auto simp: market_total_cmp_def compare_price_key_def compare_unsigned_def key_price_sample
        price_zero_def compare_price_cross bytes.cmp_refl cmp_lin_def Let_def)
qed

lemma sample_key_in: "0 \<le> s \<Longrightarrow> 0 \<le> b \<Longrightarrow> in_i64 s \<Longrightarrow> in_i64 b \<Longrightarrow> sample_key s b \<in> market_keys"
  by (simp add: market_keys_def key_price_sample) (simp add: sample_key_def)

theorem market_total_cmp_lawful_witness:
  "market_total_cmp (sample_key 3 1) (sample_key 1 2) = Less"
proof -
  have "sample_key 3 1 \<in> market_keys" "sample_key 2 1 \<in> market_keys" "sample_key 1 2 \<in> market_keys"
    by (simp_all add: sample_key_in in_i64_def)
  moreover have "market_total_cmp (sample_key 3 1) (sample_key 2 1) = Less"
    "market_total_cmp (sample_key 2 1) (sample_key 1 2) = Less"
    by (simp_all add: sample_key_cmp in_i64_def)
  ultimately show ?thesis
    using market_total_cmp_lawful [of "sample_key 3 1" "sample_key 2 1" "sample_key 1 2"] by blast
qed

text \<open>
  C40: Outside those keys the comparison is not an order: three 54-byte keys with the same
  pair form a cycle as soon as one of them has negative quantities. The market index of the
  storage backend is keyed by every logical key of at least 54 bytes, whatever its store.
\<close>

theorem market_total_cmp_cycle:
  "\<exists>a b c. length a = 54 \<and> length b = 54 \<and> length c = 54 \<and>
     market_total_cmp a b = Less \<and> market_total_cmp b c = Less \<and> market_total_cmp c a = Less"
proof (intro exI conjI)
  show "length (sample_key 1 2) = 54" "length (sample_key (-1) (-1)) = 54" "length (sample_key 2 1) = 54"
    by (simp_all add: sample_key_def)
  show "market_total_cmp (sample_key 1 2) (sample_key (-1) (-1)) = Less"
    "market_total_cmp (sample_key (-1) (-1)) (sample_key 2 1) = Less"
    "market_total_cmp (sample_key 2 1) (sample_key 1 2) = Less"
    by (simp_all add: sample_key_cmp in_i64_def)
qed

section \<open>Canonical price keys\<close>

lemma gcd_loop_eq: "0 < a \<Longrightarrow> 0 \<le> b \<Longrightarrow> gcd_loop a b = gcd a b"
proof (induction a b rule: gcd_loop.induct)
  case (1 a b)
  show ?case
  proof (cases "b = 0")
    case True
    with "1.prems" show ?thesis by (simp add: gcd_loop.simps [of a 0])
  next
    case False
    with "1.prems" have "0 < b" by simp
    then have "a smod b = a mod b" "0 \<le> a mod b" using "1.prems" by (simp_all add: smod_mod_positive)
    with False "1.IH" \<open>0 < b\<close> show ?thesis
      by (simp add: gcd_loop.simps [of a b] gcd_red_int [of a b])
  qed
qed

lemma market_gcd_pos: "0 < a \<Longrightarrow> 0 < b \<Longrightarrow> market_gcd a b = gcd a b"
  by (simp add: market_gcd_def gcd_loop_eq)

lemma pos_sdiv: "0 \<le> a \<Longrightarrow> 0 < b \<Longrightarrow> a sdiv b = a div b" for a b :: int
  by (auto simp: signed_divide_int_def sgn_if)

lemma reduced_range:
  assumes "0 < a" "in_i64 a" "0 < (b::int)"
  shows "0 < a div gcd a b" "in_i64 (a div gcd a b)"
proof -
  have "0 < gcd a b" "gcd a b \<le> a" using assms by (auto intro: zdvd_imp_le)
  then show "0 < a div gcd a b" by (simp add: pos_imp_zdiv_pos_iff)
  then show "in_i64 (a div gcd a b)"
    using int_div_range [OF \<open>0 < gcd a b\<close>, of a] assms by (auto simp: in_i64_def)
qed

lemma pair_price_key_Ok:
  assumes "in_i64 s" "in_i64 b"
  shows "pair_price_key sell buy s b = Ok k \<longleftrightarrow>
    (\<exists>pair. padded_pair sell buy = Ok pair \<and> 0 < s \<and> 0 < b \<and>
       k = pair @ i64_to_be_bytes (s div gcd s b) @ i64_to_be_bytes (b div gcd s b))"
proof (cases "0 < s \<and> 0 < b")
  case True
  then have g: "0 < gcd s b" by simp
  have "0 < s div gcd s b" "in_i64 (s div gcd s b)" "0 < b div gcd s b" "in_i64 (b div gcd s b)"
    using reduced_range [of s b] reduced_range [of b s] True assms by (auto simp: gcd.commute)
  with True g show ?thesis
    by (auto simp: pair_price_key_def pair_price_key_no_gcd_def market_gcd_pos pos_sdiv Let_def
        split: sum.splits)
next
  case False
  then show ?thesis by (auto simp: pair_price_key_def)
qed

lemma length_padded_pair: "padded_pair sell buy = Ok pair \<Longrightarrow> length pair = 38"
  by (auto simp: padded_pair_def pad_token_def split: if_splits)

lemma reduced_fraction_eq:
  assumes "0 < s" "0 < b" "0 < s'" "0 < (b'::int)"
  shows "(s div gcd s b = s' div gcd s' b' \<and> b div gcd s b = b' div gcd s' b') \<longleftrightarrow> s * b' = s' * b"
proof
  let ?g = "gcd s b" and ?h = "gcd s' b'"
  have s: "s = s div ?g * ?g" "b = b div ?g * ?g" "s' = s' div ?h * ?h" "b' = b' div ?h * ?h" by simp_all
  { assume "s div ?g = s' div ?h \<and> b div ?g = b' div ?h"
    then have "(s div ?g) * (b' div ?h) * ?g * ?h = (s' div ?h) * (b div ?g) * ?g * ?h" by simp
    then have "(s div ?g * ?g) * (b' div ?h * ?h) = (s' div ?h * ?h) * (b div ?g * ?g)"
      by (simp only: ac_simps)
    then show "s * b' = s' * b" using s by simp }
  assume cross: "s * b' = s' * b"
  have cop: "coprime (s div ?g) (b div ?g)" "coprime (s' div ?h) (b' div ?h)"
    using assms by (auto intro: div_gcd_coprime)
  have pos: "0 < ?g" "0 < ?h" using assms by auto
  have "(s div ?g * ?g) * (b' div ?h * ?h) = (s' div ?h * ?h) * (b div ?g * ?g)"
    using cross by simp
  then have "(s div ?g) * (b' div ?h) * (?g * ?h) = (s' div ?h) * (b div ?g) * (?g * ?h)"
    by (simp only: ac_simps)
  then have eq: "(s div ?g) * (b' div ?h) = (s' div ?h) * (b div ?g)"
    using pos by (simp only: mult_cancel_right) auto
  have p: "0 < s div ?g" "0 < b div ?g" "0 < s' div ?h" "0 < b' div ?h"
    using assms by (auto simp: pos_imp_zdiv_pos_iff intro: zdvd_imp_le)
  have "s div ?g dvd s' div ?h" "s' div ?h dvd s div ?g"
    using eq cop by (metis coprime_dvd_mult_left_iff coprime_commute dvd_triv_left mult.commute)+
  then have 1: "s div ?g = s' div ?h" using p by (simp add: zdvd_antisym_nonneg)
  moreover have "b div ?g = b' div ?h" using eq 1 p by simp
  ultimately show "s div ?g = s' div ?h \<and> b div ?g = b' div ?h" ..
qed

text \<open>
  A price key is canonical: two orders with valid keys share their price key exactly when
  their padded token pairs are equal and their sell/buy ratios are equal; the key is 54 bytes
  long, starts with the pair key, and decodes to the ratio in lowest terms.
\<close>

theorem pair_price_key_canonical:
  assumes "in_i64 s" and "in_i64 b" and "in_i64 s'" and "in_i64 b'"
    and "pair_price_key sell buy s b = Ok k" and "pair_price_key sell' buy' s' b' = Ok k'"
  shows "(k = k' \<longleftrightarrow> pair_key sell buy = pair_key sell' buy' \<and> s * b' = s' * b) \<and>
         length k = MARKET_PRICE_KEY_LENGTH \<and>
         Ok (take MARKET_PAIR_LENGTH k) = pair_key sell buy \<and>
         decode_price k = Some (s div gcd s b, b div gcd s b)"
proof -
  from assms obtain p where p: "padded_pair sell buy = Ok p" "0 < s" "0 < b"
    and k: "k = p @ i64_to_be_bytes (s div gcd s b) @ i64_to_be_bytes (b div gcd s b)"
    by (auto simp: pair_price_key_Ok)
  from assms obtain p' where p': "padded_pair sell' buy' = Ok p'" "0 < s'" "0 < b'"
    and k': "k' = p' @ i64_to_be_bytes (s' div gcd s' b') @ i64_to_be_bytes (b' div gcd s' b')"
    by (auto simp: pair_price_key_Ok)
  have r: "in_i64 (s div gcd s b)" "in_i64 (b div gcd s b)" "in_i64 (s' div gcd s' b')" "in_i64 (b' div gcd s' b')"
    using reduced_range [of s b] reduced_range [of b s] reduced_range [of s' b'] reduced_range [of b' s']
      assms p p' by (auto simp: gcd.commute)
  have inj: "i64_to_be_bytes x = i64_to_be_bytes y \<longleftrightarrow> x = y" if "in_i64 x" "in_i64 y" for x y
    using that by (metis i64_be_roundtrip)
  have len: "length p = 38" "length p' = 38" using p(1) p'(1) by (simp_all add: length_padded_pair)
  have "k = k' \<longleftrightarrow> p = p' \<and> s div gcd s b = s' div gcd s' b' \<and> b div gcd s b = b' div gcd s' b'"
    using len r by (auto simp: k k' inj)
  then have "k = k' \<longleftrightarrow> p = p' \<and> s * b' = s' * b"
    using reduced_fraction_eq [OF p(2,3) p'(2,3)] by simp
  with p p' len r show ?thesis
    by (simp add: k pair_key_def decode_price_def)
qed

theorem pair_price_key_canonical_witness:
  "\<exists>k. pair_price_key [1] [2] 4 6 = Ok k \<and> pair_price_key [1] [2] 2 3 = Ok k \<and> decode_price k = Some (2, 3)"
proof -
  let ?k = "pad_token [1] @ pad_token [2] @ i64_to_be_bytes 2 @ i64_to_be_bytes 3"
  have g: "gcd (4::int) 6 = 2" "gcd (2::int) 3 = 1" by (simp_all add: gcd_code_int)
  have k: "pair_price_key [1] [2] 4 6 = Ok ?k" "pair_price_key [1] [2] 2 3 = Ok ?k"
    by (simp_all add: pair_price_key_Ok in_i64_def padded_pair_def g)
  have "decode_price ?k = Some (4 div gcd 4 6, 6 div gcd 4 6)"
    using pair_price_key_canonical [OF _ _ _ _ k] by (simp add: in_i64_def)
  with k g show ?thesis by auto
qed

end
