(* ===== verification/Rust_Log_Codec.thy ===== *)
theory Rust_Log_Codec
  imports BTree_Map
begin

text \<open>
  The \<open>rustlog-v1\<close> encodings of \<open>tron-storage/src/lib.rs\<close>: options and errors, write
  batches, the bounded slice cursor, batch and snapshot payloads, the checksum and the
  log frame. The payload codecs are inverse to each other under the same options, so a
  batch or snapshot the writer accepts is a batch or snapshot the reader accepts.
\<close>

section \<open>Errors\<close>

text \<open>\<open>io::Error\<close>, as far as the crate inspects it: its kind and raw OS code.\<close>

datatype ErrorKind = PermissionDenied | StorageFull | WouldBlock | NotFound | AlreadyExists | OtherKind

datatype IoError = IoError (io_kind: ErrorKind) (raw_os_error: "int option")

datatype StableError =
    JavaFormat | AmbiguousNonempty | ManifestMissing | ManifestCorrupt | FormatUnknown | FormatNewer
  | WrongNetwork | WrongGenesis | BackendUnsupported | FeaturesUnsupported | PartialMigration
  | StableLocked | StablePermission | StableDiskFull | StableConcurrentOpen | Integrity
  | SnapshotUnauthenticated | SnapshotIncompatible | NotEmpty | UnsupportedMigration | StableIo
  | SourceTooLarge

datatype FormatError = FormatError (fe_category: StableError) (fe_path: string) (fe_detail: string)

datatype Corruption =
    InvalidWalHeader
  | InvalidSnapshotHeader
  | WalChecksum nat
  | SnapshotChecksum
  | FrameTooLarge nat nat
  | KeyTooLarge nat nat
  | ValueTooLarge nat nat
  | TooManyOperations nat nat
  | TooManySnapshotEntries nat nat
  | InvalidOperation u8
  | InvalidEncoding
  | TrailingSnapshotBytes

datatype StorageError =
    Io IoError
  | DiskFull "string option"
  | Permission "string option"
  | ConcurrentOpen "string option"
  | Locked string
  | Corruption Corruption
  | InvalidOptions string
  | InvalidCheckpoint string
  | MarketKeyError nat
  | Format FormatError
  | RewriteRejected string string
  | Closed
  | Poisoned

definition storage_error_of_io :: "IoError \<Rightarrow> StorageError" where
  "storage_error_of_io e =
     (case io_kind e of
        PermissionDenied \<Rightarrow> Permission None
      | StorageFull \<Rightarrow> DiskFull None
      | WouldBlock \<Rightarrow> ConcurrentOpen None
      | _ \<Rightarrow> if raw_os_error e = Some 28 then DiskFull None else Io e)"

definition storage_error_of_format :: "FormatError \<Rightarrow> StorageError" where
  "storage_error_of_format e =
     (case fe_category e of
        StablePermission \<Rightarrow> Permission (Some (fe_path e))
      | StableDiskFull \<Rightarrow> DiskFull (Some (fe_path e))
      | StableConcurrentOpen \<Rightarrow> ConcurrentOpen (Some (fe_path e))
      | StableLocked \<Rightarrow> Locked (fe_path e)
      | _ \<Rightarrow> Format e)"

section \<open>Options and batches\<close>

record RustLogOptions =
  sync_on_write :: bool
  compact_after_bytes :: nat
  max_snapshot_bytes :: nat
  max_snapshot_entries :: nat
  max_frame_bytes :: nat
  max_key_bytes :: nat
  max_value_bytes :: nat
  max_batch_operations :: nat

definition default_options :: RustLogOptions where
  "default_options =
     \<lparr> sync_on_write = False,
       compact_after_bytes = 16 * 1024 * 1024,
       max_snapshot_bytes = 1024 * 1024 * 1024,
       max_snapshot_entries = 1000000,
       max_frame_bytes = 64 * 1024 * 1024,
       max_key_bytes = 16 * 1024 * 1024,
       max_value_bytes = 64 * 1024 * 1024,
       max_batch_operations = 1000000 \<rparr>"

definition validate_options :: "RustLogOptions \<Rightarrow> (unit, StorageError) result" where
  "validate_options opts =
     (if max_frame_bytes opts = 0 then Err (InvalidOptions ''max_frame_bytes must be nonzero'')
      else if max_snapshot_bytes opts = 0 then Err (InvalidOptions ''max_snapshot_bytes must be nonzero'')
      else if max_snapshot_entries opts = 0 then Err (InvalidOptions ''max_snapshot_entries must be nonzero'')
      else if max_key_bytes opts = 0 then Err (InvalidOptions ''max_key_bytes must be nonzero'')
      else if max_batch_operations opts = 0 then Err (InvalidOptions ''max_batch_operations must be nonzero'')
      else Ok ())"

datatype BatchOperation = Put bytes bytes | Delete bytes

type_synonym WriteBatch = "BatchOperation list"

definition batch_put :: "bytes \<Rightarrow> bytes \<Rightarrow> WriteBatch \<Rightarrow> WriteBatch" where
  "batch_put key v batch = batch @ [Put key v]"

definition batch_delete :: "bytes \<Rightarrow> WriteBatch \<Rightarrow> WriteBatch" where
  "batch_delete key batch = batch @ [Delete key]"

type_synonym entries = "(bytes, bytes) bt_map"

fun apply_batch :: "entries \<Rightarrow> BatchOperation list \<Rightarrow> entries" where
  "apply_batch es [] = es"
| "apply_batch es (Put key v # ops) = apply_batch (bt_insert cmp_bytes key v es) ops"
| "apply_batch es (Delete key # ops) = apply_batch (bt_remove key es) ops"

section \<open>Encoding\<close>

definition check_limit :: "nat \<Rightarrow> nat \<Rightarrow> (nat \<Rightarrow> nat \<Rightarrow> Corruption) \<Rightarrow> (unit, StorageError) result" where
  "check_limit actual maximum error =
     (if actual > maximum then Err (Corruption (error actual maximum)) else Ok ())"

definition push_u32 :: "bytes \<Rightarrow> nat \<Rightarrow> (bytes, StorageError) result" where
  "push_u32 output v =
     (if v > u32_max then Err (Corruption InvalidEncoding) else Ok (output @ le_bytes 4 (int v)))"

definition too_large :: "bool \<Rightarrow> nat \<Rightarrow> nat \<Rightarrow> Corruption" where
  "too_large key actual maximum = (if key then KeyTooLarge actual maximum else ValueTooLarge actual maximum)"

definition encode_bytes :: "bytes \<Rightarrow> bytes \<Rightarrow> nat \<Rightarrow> bool \<Rightarrow> (bytes, StorageError) result" where
  "encode_bytes output bs maximum key =
     (if length bs > maximum then Err (Corruption (too_large key (length bs) maximum))
      else and_then (push_u32 output (length bs)) (\<lambda>output. Ok (output @ bs)))"

fun encode_operation :: "RustLogOptions \<Rightarrow> bytes \<Rightarrow> BatchOperation \<Rightarrow> (bytes, StorageError) result" where
  "encode_operation opts payload (Put key v) =
     and_then (encode_bytes (payload @ [0]) key (max_key_bytes opts) True)
       (\<lambda>payload. encode_bytes payload v (max_value_bytes opts) False)"
| "encode_operation opts payload (Delete key) =
     encode_bytes (payload @ [1]) key (max_key_bytes opts) True"

fun encode_operations :: "RustLogOptions \<Rightarrow> bytes \<Rightarrow> BatchOperation list \<Rightarrow> (bytes, StorageError) result" where
  "encode_operations opts payload [] = Ok payload"
| "encode_operations opts payload (operation # rest) =
     and_then (encode_operation opts payload operation)
       (\<lambda>payload. if length payload > max_frame_bytes opts
          then Err (Corruption (FrameTooLarge (length payload) (max_frame_bytes opts)))
          else encode_operations opts payload rest)"

definition encode_batch :: "WriteBatch \<Rightarrow> RustLogOptions \<Rightarrow> (bytes, StorageError) result" where
  "encode_batch batch opts =
     and_then (check_limit (length batch) (max_batch_operations opts) TooManyOperations)
       (\<lambda>_. and_then (push_u32 [] (length batch))
         (\<lambda>payload. encode_operations opts payload batch))"

fun encode_entries :: "RustLogOptions \<Rightarrow> bytes \<Rightarrow> entries \<Rightarrow> (bytes, StorageError) result" where
  "encode_entries opts payload [] = Ok payload"
| "encode_entries opts payload ((key, v) # rest) =
     and_then (encode_bytes payload key (max_key_bytes opts) True)
       (\<lambda>payload. and_then (encode_bytes payload v (max_value_bytes opts) False)
         (\<lambda>payload. if length payload > max_snapshot_bytes opts
            then Err (Corruption (FrameTooLarge (length payload) (max_snapshot_bytes opts)))
            else encode_entries opts payload rest))"

definition encode_snapshot :: "entries \<Rightarrow> RustLogOptions \<Rightarrow> (bytes, StorageError) result" where
  "encode_snapshot es opts =
     and_then (check_limit (length es) (max_snapshot_entries opts) TooManySnapshotEntries)
       (\<lambda>_. and_then (push_u32 [] (length es)) (\<lambda>payload. encode_entries opts payload es))"

section \<open>Decoding\<close>

record SliceCursor =
  sc_bytes :: bytes
  sc_position :: nat

definition cursor_new :: "bytes \<Rightarrow> SliceCursor" where
  "cursor_new bs = \<lparr> sc_bytes = bs, sc_position = 0 \<rparr>"

definition invalid_encoding :: StorageError where
  "invalid_encoding = Corruption InvalidEncoding"

definition cursor_byte :: "SliceCursor \<Rightarrow> (u8 \<times> SliceCursor, StorageError) result" where
  "cursor_byte c =
     (if sc_position c < length (sc_bytes c)
      then Ok (sc_bytes c ! sc_position c, c\<lparr> sc_position := sc_position c + 1 \<rparr>)
      else Err invalid_encoding)"

definition cursor_take :: "SliceCursor \<Rightarrow> nat \<Rightarrow> (bytes \<times> SliceCursor, StorageError) result" where
  "cursor_take c n =
     and_then (ok_or (usize_checked_add (sc_position c) n) invalid_encoding)
       (\<lambda>end'. and_then (ok_or (get_range (sc_bytes c) (sc_position c) end') invalid_encoding)
         (\<lambda>bs. Ok (bs, c\<lparr> sc_position := end' \<rparr>)))"

definition cursor_u32 :: "SliceCursor \<Rightarrow> (nat \<times> SliceCursor, StorageError) result" where
  "cursor_u32 c = and_then (cursor_take c 4) (\<lambda>(bs, c). Ok (nat (le_value bs), c))"

definition cursor_bytes :: "SliceCursor \<Rightarrow> nat \<Rightarrow> bool \<Rightarrow> (bytes \<times> SliceCursor, StorageError) result" where
  "cursor_bytes c maximum key =
     and_then (cursor_u32 c)
       (\<lambda>(n, c). if n > maximum then Err (Corruption (too_large key n maximum)) else cursor_take c n)"

definition cursor_is_finished :: "SliceCursor \<Rightarrow> bool" where
  "cursor_is_finished c \<longleftrightarrow> sc_position c = length (sc_bytes c)"

fun decode_operations :: "RustLogOptions \<Rightarrow> nat \<Rightarrow> SliceCursor \<Rightarrow> BatchOperation list \<Rightarrow>
    (BatchOperation list \<times> SliceCursor, StorageError) result" where
  "decode_operations opts 0 c ops = Ok (ops, c)"
| "decode_operations opts (Suc n) c ops =
     and_then (cursor_byte c) (\<lambda>(tag, c).
     and_then (cursor_bytes c (max_key_bytes opts) True) (\<lambda>(key, c).
       if tag = 0 then
         and_then (cursor_bytes c (max_value_bytes opts) False) (\<lambda>(v, c).
           decode_operations opts n c (ops @ [Put key v]))
       else if tag = 1 then decode_operations opts n c (ops @ [Delete key])
       else Err (Corruption (InvalidOperation tag))))"

definition decode_batch :: "bytes \<Rightarrow> RustLogOptions \<Rightarrow> (WriteBatch, StorageError) result" where
  "decode_batch payload opts =
     and_then (cursor_u32 (cursor_new payload)) (\<lambda>(count, c).
     and_then (check_limit count (max_batch_operations opts) TooManyOperations) (\<lambda>_.
     and_then (decode_operations opts count c []) (\<lambda>(ops, c).
       if \<not> cursor_is_finished c then Err (Corruption InvalidEncoding) else Ok ops)))"

fun decode_entries :: "RustLogOptions \<Rightarrow> nat \<Rightarrow> SliceCursor \<Rightarrow> entries \<Rightarrow>
    (entries \<times> SliceCursor, StorageError) result" where
  "decode_entries opts 0 c es = Ok (es, c)"
| "decode_entries opts (Suc n) c es =
     and_then (cursor_bytes c (max_key_bytes opts) True) (\<lambda>(key, c).
     and_then (cursor_bytes c (max_value_bytes opts) False) (\<lambda>(v, c).
       if bt_get es key \<noteq> None then Err (Corruption InvalidEncoding)
       else decode_entries opts n c (bt_insert cmp_bytes key v es)))"

definition decode_snapshot :: "bytes \<Rightarrow> RustLogOptions \<Rightarrow> (entries, StorageError) result" where
  "decode_snapshot payload opts =
     and_then (cursor_u32 (cursor_new payload)) (\<lambda>(count, c).
     and_then (check_limit count (max_snapshot_entries opts) TooManySnapshotEntries) (\<lambda>_.
     and_then (decode_entries opts count c []) (\<lambda>(es, c).
       if \<not> cursor_is_finished c then Err (Corruption InvalidEncoding) else Ok es)))"

section \<open>Checksum and frame\<close>

definition crc32_bit :: "32 word \<Rightarrow> 32 word" where
  "crc32_bit crc = drop_bit 1 crc XOR (0xedb88320 AND (0 - (crc AND 1)))"

fun crc32_bits :: "nat \<Rightarrow> 32 word \<Rightarrow> 32 word" where
  "crc32_bits 0 crc = crc"
| "crc32_bits (Suc n) crc = crc32_bits n (crc32_bit crc)"

fun crc32_bytes :: "32 word \<Rightarrow> bytes \<Rightarrow> 32 word" where
  "crc32_bytes crc [] = crc"
| "crc32_bytes crc (b # bs) = crc32_bytes (crc32_bits 8 (crc XOR ucast b)) bs"

definition crc32 :: "bytes \<Rightarrow> 32 word" where
  "crc32 bs = NOT (crc32_bytes (NOT 0) bs)"

definition encode_frame :: "bytes \<Rightarrow> (bytes, StorageError) result" where
  "encode_frame payload =
     (if length payload > u32_max then Err (Corruption InvalidEncoding)
      else Ok (le_bytes 4 (int (length payload)) @ le_bytes 4 (uint (crc32 payload)) @ payload))"

section \<open>The layout of a payload\<close>

text \<open>What the encoders append, without the bounds they check.\<close>

definition prefixed :: "bytes \<Rightarrow> bytes" where
  "prefixed bs = le_bytes 4 (int (length bs)) @ bs"

fun op_image :: "BatchOperation \<Rightarrow> bytes" where
  "op_image (Put key v) = [0] @ prefixed key @ prefixed v"
| "op_image (Delete key) = [1] @ prefixed key"

definition fits :: "nat \<Rightarrow> bytes \<Rightarrow> bool" where
  "fits maximum bs \<longleftrightarrow> length bs \<le> maximum \<and> length bs \<le> u32_max"

fun op_fits :: "RustLogOptions \<Rightarrow> BatchOperation \<Rightarrow> bool" where
  "op_fits opts (Put key v) \<longleftrightarrow> fits (max_key_bytes opts) key \<and> fits (max_value_bytes opts) v"
| "op_fits opts (Delete key) \<longleftrightarrow> fits (max_key_bytes opts) key"

fun entry_image :: "bytes \<times> bytes \<Rightarrow> bytes" where
  "entry_image (key, v) = prefixed key @ prefixed v"

fun entry_fits :: "RustLogOptions \<Rightarrow> bytes \<times> bytes \<Rightarrow> bool" where
  "entry_fits opts (key, v) \<longleftrightarrow> fits (max_key_bytes opts) key \<and> fits (max_value_bytes opts) v"

lemma encode_bytes_Ok:
  "encode_bytes output bs maximum key = Ok output' \<longleftrightarrow> fits maximum bs \<and> output' = output @ prefixed bs"
  by (auto simp: encode_bytes_def push_u32_def fits_def prefixed_def)

lemma encode_operation_Ok:
  "encode_operation opts payload operation = Ok payload' \<longleftrightarrow>
     op_fits opts operation \<and> payload' = payload @ op_image operation"
  by (cases operation) (auto simp: and_then_Ok encode_bytes_Ok)

lemma encode_operations_Ok:
  "encode_operations opts payload ops = Ok payload' \<Longrightarrow>
     list_all (op_fits opts) ops \<and> payload' = payload @ concat (map op_image ops) \<and>
     (ops \<noteq> [] \<longrightarrow> length payload' \<le> max_frame_bytes opts)"
proof (induction opts payload ops arbitrary: payload' rule: encode_operations.induct)
  case (2 opts payload operation rest)
  then show ?case
    by (cases rest) (auto simp: and_then_Ok encode_operation_Ok split: if_splits)
qed simp

lemma encode_entries_Ok:
  "encode_entries opts payload es = Ok payload' \<Longrightarrow>
     list_all (entry_fits opts) es \<and> payload' = payload @ concat (map entry_image es) \<and>
     (es \<noteq> [] \<longrightarrow> length payload' \<le> max_snapshot_bytes opts)"
proof (induction opts payload es arbitrary: payload' rule: encode_entries.induct)
  case (2 opts payload key v rest)
  then show ?case
    by (cases rest) (auto simp: and_then_Ok encode_bytes_Ok split: if_splits)
qed simp

lemma encode_batch_Ok:
  assumes "encode_batch batch opts = Ok payload"
  shows "length batch \<le> max_batch_operations opts" "length batch \<le> u32_max"
    and "list_all (op_fits opts) batch"
    and "payload = le_bytes 4 (int (length batch)) @ concat (map op_image batch)"
    and "batch \<noteq> [] \<Longrightarrow> length payload \<le> max_frame_bytes opts"
  using assms encode_operations_Ok
  by (fastforce simp: encode_batch_def and_then_Ok check_limit_def push_u32_def split: if_splits)+

lemma encode_snapshot_Ok:
  assumes "encode_snapshot es opts = Ok payload"
  shows "length es \<le> max_snapshot_entries opts" "length es \<le> u32_max"
    and "list_all (entry_fits opts) es"
    and "payload = le_bytes 4 (int (length es)) @ concat (map entry_image es)"
    and "es \<noteq> [] \<Longrightarrow> length payload \<le> max_snapshot_bytes opts"
  using assms encode_entries_Ok
  by (fastforce simp: encode_snapshot_def and_then_Ok check_limit_def push_u32_def split: if_splits)+

section \<open>Reading back\<close>

text \<open>A cursor that has consumed \<open>pre\<close> and still has \<open>rest\<close> to read.\<close>

definition cursor_at :: "bytes \<Rightarrow> bytes \<Rightarrow> SliceCursor" where
  "cursor_at pre rest = \<lparr> sc_bytes = pre @ rest, sc_position = length pre \<rparr>"

lemma cursor_new_at: "cursor_new bs = cursor_at [] bs"
  by (simp add: cursor_new_def cursor_at_def)

lemma cursor_at_finished [simp]: "cursor_is_finished (cursor_at pre rest) \<longleftrightarrow> rest = []"
  by (simp add: cursor_is_finished_def cursor_at_def)

lemma cursor_byte_at [simp]: "cursor_byte (cursor_at pre (b # rest)) = Ok (b, cursor_at (pre @ [b]) rest)"
  by (simp add: cursor_byte_def cursor_at_def nth_append)

lemma cursor_take_at:
  "length pre + length bs \<le> usize_max \<Longrightarrow> n = length bs \<Longrightarrow>
   cursor_take (cursor_at pre (bs @ rest)) n = Ok (bs, cursor_at (pre @ bs) rest)"
  by (simp add: cursor_take_def cursor_at_def usize_checked_add_def get_range_mid)

lemma cursor_u32_at:
  assumes "length pre + 4 \<le> usize_max" and "n \<le> u32_max"
  shows "cursor_u32 (cursor_at pre (le_bytes 4 (int n) @ rest)) = Ok (n, cursor_at (pre @ le_bytes 4 (int n)) rest)"
  using assms by (simp add: cursor_u32_def cursor_take_at le_value_le_bytes)

lemma cursor_bytes_at:
  assumes "length (pre @ prefixed bs) \<le> usize_max" and "fits maximum bs"
  shows "cursor_bytes (cursor_at pre (prefixed bs @ rest)) maximum key = Ok (bs, cursor_at (pre @ prefixed bs) rest)"
  using assms by (simp add: cursor_bytes_def prefixed_def fits_def cursor_u32_at cursor_take_at)

lemma decode_operations_at:
  assumes "list_all (op_fits opts) ops" and "length pre + length (concat (map op_image ops)) \<le> usize_max"
  shows "decode_operations opts (length ops) (cursor_at pre (concat (map op_image ops) @ rest)) acc =
    Ok (acc @ ops, cursor_at (pre @ concat (map op_image ops)) rest)"
  using assms
proof (induction ops arbitrary: pre acc)
  case Nil
  then show ?case by simp
next
  case (Cons operation ops)
  show ?case
  proof (cases operation)
    case (Put key v)
    with Cons show ?thesis
      using cursor_bytes_at [of "pre @ [0]" key "max_key_bytes opts" "prefixed v @ concat (map op_image ops) @ rest" True]
        cursor_bytes_at [of "pre @ [0] @ prefixed key" v "max_value_bytes opts" "concat (map op_image ops) @ rest" False]
      by simp
  next
    case (Delete key)
    with Cons show ?thesis
      using cursor_bytes_at [of "pre @ [1]" key "max_key_bytes opts" "concat (map op_image ops) @ rest" True]
      by simp
  qed
qed

lemma decode_entries_at:
  assumes "list_all (entry_fits opts) es" and "length pre + length (concat (map entry_image es)) \<le> usize_max"
    and "bt_wf cmp_bytes (acc @ es)"
  shows "decode_entries opts (length es) (cursor_at pre (concat (map entry_image es) @ rest)) acc =
    Ok (acc @ es, cursor_at (pre @ concat (map entry_image es)) rest)"
  using assms
proof (induction es arbitrary: pre acc)
  case Nil
  then show ?case by simp
next
  case (Cons p es)
  obtain key v where p: "p = (key, v)" by (cases p)
  have less: "cmp_bytes k key = Less" if "k \<in> fst ` set acc" for k
    using Cons.prems(3) that by (auto simp: bt_wf_def p sorted_wrt_append)
  then have "key \<notin> fst ` set acc" using bytes.cmp_refl by fastforce
  then have fresh: "bt_get acc key = None" by (simp add: map_of_eq_None_iff)
  have "bt_insert cmp_bytes key v acc = acc @ [(key, v)]"
    using less by (intro bt_insert_last) (auto simp: bytes.cmp_swap)
  with Cons p fresh show ?case
    using cursor_bytes_at [of pre key "max_key_bytes opts" "prefixed v @ concat (map entry_image es) @ rest" True]
      cursor_bytes_at [of "pre @ prefixed key" v "max_value_bytes opts" "concat (map entry_image es) @ rest" False]
    by simp
qed

text \<open>Conversely, what a successful read says of the bytes it consumed.\<close>

lemma cursor_byte_atD:
  "cursor_byte (cursor_at pre r) = Ok (b, c) \<Longrightarrow> \<exists>rest. r = b # rest \<and> c = cursor_at (pre @ [b]) rest"
  by (cases r) (auto simp: cursor_byte_def cursor_at_def)

lemma cursor_take_atD:
  assumes "cursor_take (cursor_at pre r) n = Ok (bs, c)"
  shows "\<exists>rest. r = bs @ rest \<and> length bs = n \<and> c = cursor_at (pre @ bs) rest"
proof -
  from assms have "n \<le> length r" "bs = take n r" "c = cursor_at (pre @ bs) (drop n r)"
    by (auto simp: cursor_take_def cursor_at_def and_then_Ok get_range_def split: if_splits)
  then show ?thesis by (metis append_take_drop_id length_take min.absorb2)
qed

lemma cursor_u32_atD:
  assumes "cursor_u32 (cursor_at pre r) = Ok (n, c)"
  shows "\<exists>rest. r = le_bytes 4 (int n) @ rest \<and> n \<le> u32_max \<and> c = cursor_at (pre @ le_bytes 4 (int n)) rest"
proof -
  from assms obtain bs where bs: "cursor_take (cursor_at pre r) 4 = Ok (bs, c)" and n: "n = nat (le_value bs)"
    by (auto simp: cursor_u32_def and_then_Ok)
  then obtain rest where r: "r = bs @ rest" "length bs = 4" "c = cursor_at (pre @ bs) rest"
    using cursor_take_atD by blast
  have "0 \<le> le_value bs" "le_value bs < 256 ^ 4"
    using be_value_less [of "rev bs"] r(2) by (auto simp: le_value_def)
  then have "n \<le> u32_max" using n by simp
  moreover have "le_bytes 4 (int n) = bs"
    using le_bytes_le_value [OF r(2)] n \<open>0 \<le> le_value bs\<close> by simp
  ultimately show ?thesis using r by blast
qed

lemma cursor_bytes_atD:
  assumes "cursor_bytes (cursor_at pre r) maximum key = Ok (bs, c)"
  shows "\<exists>rest. r = prefixed bs @ rest \<and> fits maximum bs \<and> c = cursor_at (pre @ prefixed bs) rest"
proof -
  from assms obtain n c1 where u: "cursor_u32 (cursor_at pre r) = Ok (n, c1)"
    and n: "n \<le> maximum" and tk: "cursor_take c1 n = Ok (bs, c)"
    by (auto simp: cursor_bytes_def and_then_Ok split: if_splits)
  from cursor_u32_atD [OF u] obtain r1 where r1: "r = le_bytes 4 (int n) @ r1" "n \<le> u32_max"
    "c1 = cursor_at (pre @ le_bytes 4 (int n)) r1" by blast
  from cursor_take_atD [OF tk [unfolded r1(3)]] obtain rest where "r1 = bs @ rest" "length bs = n"
    "c = cursor_at ((pre @ le_bytes 4 (int n)) @ bs) rest" by blast
  with r1 n show ?thesis by (auto simp: prefixed_def fits_def)
qed

lemma decode_operations_atD:
  assumes "decode_operations opts n (cursor_at pre r) acc = Ok (res, c)"
  shows "\<exists>ops rest. res = acc @ ops \<and> length ops = n \<and> list_all (op_fits opts) ops \<and>
    r = concat (map op_image ops) @ rest \<and> c = cursor_at (pre @ concat (map op_image ops)) rest"
  using assms
proof (induction n arbitrary: pre r acc)
  case 0
  then show ?case by auto
next
  case (Suc n)
  from Suc.prems obtain tag c1 key c2 where b: "cursor_byte (cursor_at pre r) = Ok (tag, c1)"
    and k: "cursor_bytes c1 (max_key_bytes opts) True = Ok (key, c2)"
    by (auto simp: and_then_Ok)
  from cursor_byte_atD [OF b] obtain r1 where r1: "r = tag # r1" "c1 = cursor_at (pre @ [tag]) r1" by blast
  from cursor_bytes_atD [OF k [unfolded r1(2)]] obtain r2 where r2: "r1 = prefixed key @ r2"
    "fits (max_key_bytes opts) key" "c2 = cursor_at (pre @ [tag] @ prefixed key) r2" by auto
  consider (put) "tag = 0" | (del) "tag = 1" | (bad) "tag \<noteq> 0" "tag \<noteq> 1" by blast
  then show ?case
  proof cases
    case put
    with Suc.prems b k obtain v c3 where v: "cursor_bytes c2 (max_value_bytes opts) False = Ok (v, c3)"
      and d: "decode_operations opts n c3 (acc @ [Put key v]) = Ok (res, c)"
      by (auto simp: and_then_Ok)
    from cursor_bytes_atD [OF v [unfolded r2(3)]] obtain r3 where r3: "r2 = prefixed v @ r3"
      "fits (max_value_bytes opts) v" "c3 = cursor_at (pre @ [tag] @ prefixed key @ prefixed v) r3" by auto
    from Suc.IH [OF d [unfolded r3(3)]] obtain ops rest where ih: "res = acc @ [Put key v] @ ops"
      "length ops = n" "list_all (op_fits opts) ops" "r3 = concat (map op_image ops) @ rest"
      "c = cursor_at ((pre @ [tag] @ prefixed key @ prefixed v) @ concat (map op_image ops)) rest"
      by auto
    with put r1 r2 r3 show ?thesis
      by (intro exI [of _ "Put key v # ops"] exI [of _ rest]) simp
  next
    case del
    with Suc.prems b k have d: "decode_operations opts n c2 (acc @ [Delete key]) = Ok (res, c)" by simp
    from Suc.IH [OF d [unfolded r2(3)]] obtain ops rest where ih: "res = acc @ [Delete key] @ ops"
      "length ops = n" "list_all (op_fits opts) ops" "r2 = concat (map op_image ops) @ rest"
      "c = cursor_at ((pre @ [tag] @ prefixed key) @ concat (map op_image ops)) rest"
      by auto
    with del r1 r2 show ?thesis
      by (intro exI [of _ "Delete key # ops"] exI [of _ rest]) simp
  next
    case bad
    with Suc.prems b k show ?thesis by simp
  qed
qed

lemma encode_operations_total:
  "list_all (op_fits opts) ops \<Longrightarrow> length payload + length (concat (map op_image ops)) \<le> max_frame_bytes opts \<Longrightarrow>
   encode_operations opts payload ops = Ok (payload @ concat (map op_image ops))"
proof (induction ops arbitrary: payload)
  case (Cons operation ops)
  then have "encode_operation opts payload operation = Ok (payload @ op_image operation)"
    by (simp add: encode_operation_Ok)
  with Cons show ?case by simp
qed simp

lemma batch_codec:
  assumes "length payload \<le> usize_max" and "batch \<noteq> []"
  shows "encode_batch batch opts = Ok payload \<longleftrightarrow>
    decode_batch payload opts = Ok batch \<and> length payload \<le> max_frame_bytes opts"
proof
  assume enc: "encode_batch batch opts = Ok payload"
  note e = encode_batch_Ok [OF enc]
  have "decode_batch payload opts = Ok batch"
    using assms(1) e(1-3) decode_operations_at [of opts batch "le_bytes 4 (int (length batch))" "[]" "[]"]
    by (simp add: decode_batch_def cursor_new_at e(4) cursor_u32_at [of "[]", simplified] check_limit_def)
  with e(5) assms(2) show "decode_batch payload opts = Ok batch \<and> length payload \<le> max_frame_bytes opts" by simp
next
  assume dec: "decode_batch payload opts = Ok batch \<and> length payload \<le> max_frame_bytes opts"
  then obtain n c c1 where u: "cursor_u32 (cursor_at [] payload) = Ok (n, c)"
    and lim: "n \<le> max_batch_operations opts"
    and ops: "decode_operations opts n c [] = Ok (batch, c1)" and fin: "cursor_is_finished c1"
    by (auto simp: decode_batch_def cursor_new_at and_then_Ok check_limit_def split: if_splits)
  from cursor_u32_atD [OF u] obtain r where r: "payload = le_bytes 4 (int n) @ r" "n \<le> u32_max"
    "c = cursor_at (le_bytes 4 (int n)) r" by auto
  from decode_operations_atD [OF ops [unfolded r(3)]] fin have
    "length batch = n" "list_all (op_fits opts) batch" "r = concat (map op_image batch)" by auto
  with r lim dec show "encode_batch batch opts = Ok payload"
    by (simp add: encode_batch_def check_limit_def push_u32_def encode_operations_total)
qed

lemma snapshot_codec:
  assumes "encode_snapshot es opts = Ok payload" and "bt_wf cmp_bytes es" and "length payload \<le> usize_max"
  shows "decode_snapshot payload opts = Ok es"
proof -
  note e = encode_snapshot_Ok [OF assms(1)]
  show ?thesis
    using assms(2,3) e(1-3) decode_entries_at [of opts es "le_bytes 4 (int (length es))" "[]" "[]"]
    by (simp add: decode_snapshot_def cursor_new_at e(4) cursor_u32_at [of "[]", simplified] check_limit_def)
qed

section \<open>Detecting corruption\<close>

lemma crc32_bit_odd: "crc32_bit crc = drop_bit 1 crc XOR (if odd crc then 0xedb88320 else 0)"
  by (simp add: crc32_bit_def and_one_eq mod_2_eq_odd)

lemma xor_cancel: "x XOR z = y XOR z \<Longrightarrow> x = y" for x y z :: "'a::len word"
proof -
  assume "x XOR z = y XOR z"
  then have "(x XOR z) XOR z = (y XOR z) XOR z" by simp
  then show "x = y" by (simp add: xor.assoc)
qed

lemma crc32_bit_inj: "crc32_bit a = crc32_bit b \<Longrightarrow> a = b"
proof -
  assume eq: "crc32_bit a = crc32_bit b"
  have top: "bit (crc32_bit x) 31 \<longleftrightarrow> odd x" for x
    using bit_imp_le_length [of x 32] by (auto simp: crc32_bit_odd bit_simps)
  have par: "odd a \<longleftrightarrow> odd b" using eq top [of a] top [of b] by simp
  then have "drop_bit 1 a = drop_bit 1 b"
    using eq by (auto simp: crc32_bit_odd split: if_splits dest: xor_cancel)
  then have "a div 2 = b div 2" by (simp add: drop_bit_eq_div)
  moreover have "a mod 2 = b mod 2" using par by (simp add: mod_2_eq_odd)
  ultimately show "a = b" by (metis div_mult_mod_eq)
qed

lemma crc32_bits_inj: "crc32_bits n a = crc32_bits n b \<Longrightarrow> a = b"
  by (induction n arbitrary: a b) (auto dest: crc32_bit_inj)

lemma crc32_bytes_inj: "crc32_bytes a bs = crc32_bytes b bs \<Longrightarrow> a = b"
proof (induction bs arbitrary: a b)
  case (Cons x bs)
  then have "crc32_bits 8 (a XOR ucast x) = crc32_bits 8 (b XOR ucast x)" by simp
  then show ?case by (rule xor_cancel [OF crc32_bits_inj])
qed simp

lemma crc32_bytes_append: "crc32_bytes crc (xs @ ys) = crc32_bytes (crc32_bytes crc xs) ys"
  by (induction xs arbitrary: crc) auto

lemma u8_is_up: "is_up (ucast :: u8 \<Rightarrow> 32 word)"
  by (simp add: is_up_def source_size_def target_size_def)

lemma ucast_u8_inj: "(ucast (x::u8) :: 32 word) = ucast y \<Longrightarrow> x = y"
  by (metis (mono_tags) ucast_up_ucast_id u8_is_up)

text \<open>The published check value of this checksum.\<close>

lemma crc32_bits_8: "crc32_bits 8 crc = crc32_bit (crc32_bit (crc32_bit (crc32_bit (crc32_bit (crc32_bit (crc32_bit (crc32_bit crc)))))))"
  by (simp add: eval_nat_numeral)

lemma crc32_check_value: "crc32 (str_bytes ''123456789'') = 0xcbf43926"
  by (simp add: crc32_def str_bytes_def crc32_bits_8 crc32_bit_odd)

section \<open>Properties\<close>

text \<open>C33: the batch codec is exact. A non-empty batch is written as a payload exactly when the
  reader accepts that payload within the frame limit and reads the same batch from it; so
  nothing the writer logs is refused or misread on recovery, and no second payload stands
  for the same batch.\<close>

theorem batch_codec_exact:
  assumes "length payload \<le> usize_max" and "batch \<noteq> []"
  shows "encode_batch batch opts = Ok payload \<longleftrightarrow>
    decode_batch payload opts = Ok batch \<and> length payload \<le> max_frame_bytes opts"
  using assms by (rule batch_codec)

definition demo_options :: RustLogOptions where
  "demo_options =
     \<lparr> sync_on_write = True, compact_after_bytes = 64, max_snapshot_bytes = 200, max_snapshot_entries = 4,
       max_frame_bytes = 64, max_key_bytes = 8, max_value_bytes = 8, max_batch_operations = 3 \<rparr>"

lemma batch_codec_exact_witness:
  "decode_batch [2, 0, 0, 0, 0, 1, 0, 0, 0, 7, 2, 0, 0, 0, 8, 9, 1, 1, 0, 0, 0, 7] demo_options =
     Ok [Put [7] [8, 9], Delete [7]]"
proof -
  let ?p = "[2, 0, 0, 0, 0, 1, 0, 0, 0, 7, 2, 0, 0, 0, 8, 9, 1, 1, 0, 0, 0, 7] :: bytes"
  have "encode_batch [Put [7] [8, 9], Delete [7]] demo_options = Ok ?p"
    by (simp add: encode_batch_def check_limit_def push_u32_def encode_bytes_def demo_options_def le_bytes_4)
  then show ?thesis
    using batch_codec_exact [of ?p "[Put [7] [8, 9], Delete [7]]" demo_options] by simp
qed

text \<open>A snapshot payload reads back as the map it was written from, whatever the options,
  as long as it was written under them.\<close>

theorem snapshot_codec_roundtrip:
  assumes "encode_snapshot es opts = Ok payload" and "bt_wf cmp_bytes es" and "length payload \<le> usize_max"
  shows "decode_snapshot payload opts = Ok es"
  using assms by (rule snapshot_codec)

lemma snapshot_codec_witness:
  "decode_snapshot [1, 0, 0, 0, 1, 0, 0, 0, 7, 2, 0, 0, 0, 8, 9] demo_options = Ok [([7], [8, 9])]"
  by (rule snapshot_codec_roundtrip)
    (simp_all add: encode_snapshot_def check_limit_def push_u32_def encode_bytes_def demo_options_def
      le_bytes_4 bt_wf_def)

text \<open>Changing any single byte of a payload changes its checksum, so a log frame or a
  snapshot with one corrupted payload byte is refused.\<close>

theorem crc32_detects_byte:
  assumes "x \<noteq> y"
  shows "crc32 (pre @ x # post) \<noteq> crc32 (pre @ y # post)"
proof
  assume eq: "crc32 (pre @ x # post) = crc32 (pre @ y # post)"
  let ?c = "crc32_bytes (NOT 0) pre"
  from eq have "crc32_bytes (NOT 0) (pre @ x # post) = crc32_bytes (NOT 0) (pre @ y # post)"
    unfolding crc32_def by (metis bit.double_compl)
  then have "crc32_bits 8 (?c XOR ucast x) = crc32_bits 8 (?c XOR ucast y)"
    by (simp only: crc32_bytes_append crc32_bytes.simps) (rule crc32_bytes_inj)
  then have "?c XOR ucast x = ?c XOR ucast y" by (rule crc32_bits_inj)
  then have "ucast x XOR ?c = ucast y XOR ?c" by (simp add: xor.commute)
  then have "(ucast x :: 32 word) = ucast y" by (rule xor_cancel)
  with assms show False by (blast dest: ucast_u8_inj)
qed

lemma crc32_detects_byte_witness: "crc32 ([1] @ 2 # [3]) \<noteq> crc32 ([1] @ 4 # [3])"
  by (rule crc32_detects_byte) simp

end
