(* ===== verification/Market_Index.thy ===== *)
theory Market_Index
  imports Market_Keys Rust_Log_Codec
begin

text \<open>
  The ordered market view of \<open>tron-storage/src/lib.rs\<close>: the secondary index keyed by
  \<open>MarketIndexKey\<close>, its construction from the entries and its maintenance under a batch,
  and the sorted reference query \<open>market_order\<close>. A \<open>BTreeMap\<close> search follows the
  comparison of its keys, so the list model of the index stands for the tree on keys where
  the comparison is lawful; the properties below are stated on those keys.
\<close>

section \<open>Index keys\<close>

record MarketIndexKey =
  mk_namespace :: bytes
  mk_logical :: bytes

definition market_index_cmp :: "MarketIndexKey \<Rightarrow> MarketIndexKey \<Rightarrow> ordering" where
  "market_index_cmp a b =
     then_with (cmp_bytes (mk_namespace a) (mk_namespace b)) (market_total_cmp (mk_logical a) (mk_logical b))"

type_synonym market_index = "(MarketIndexKey, bytes) bt_map"

definition validate_market_key :: "bytes \<Rightarrow> (unit, StorageError) result" where
  "validate_market_key key =
     (case compare_price_key key key of Ok _ \<Rightarrow> Ok () | Err _ \<Rightarrow> Err (MarketKeyError (length key)))"

definition split_market_physical_key :: "bytes \<Rightarrow> MarketIndexKey option" where
  "split_market_physical_key key =
     (case key of [] \<Rightarrow> None
      | tag # _ \<Rightarrow>
        if tag \<noteq> 1 \<or> length key < 5 then None
        else let name_len = nat (be_value (take 4 (drop 1 key))) in
          case usize_checked_add 5 name_len of None \<Rightarrow> None
          | Some logical_offset \<Rightarrow>
            if length key < logical_offset + 54 then None
            else let logical = drop logical_offset key in
              case validate_market_key logical of Err _ \<Rightarrow> None
              | Ok _ \<Rightarrow> Some \<lparr> mk_namespace = take logical_offset key, mk_logical = logical \<rparr>)"

section \<open>The index\<close>

definition index_entry :: "bytes \<Rightarrow> (MarketIndexKey \<times> bytes) option" where
  "index_entry physical = map_option (\<lambda>key. (key, physical)) (split_market_physical_key physical)"

definition build_market_index :: "entries \<Rightarrow> market_index" where
  "build_market_index es = bt_extend market_index_cmp (List.map_filter index_entry (map fst es)) []"

fun op_key :: "BatchOperation \<Rightarrow> bytes" where
  "op_key (Put key _) = key"
| "op_key (Delete key) = key"

definition apply_market_operation :: "BatchOperation \<Rightarrow> market_index \<Rightarrow> market_index" where
  "apply_market_operation operation index =
     (case split_market_physical_key (op_key operation) of
        None \<Rightarrow> index
      | Some key \<Rightarrow>
          (case operation of
             Put physical _ \<Rightarrow> bt_insert market_index_cmp key physical index
           | Delete _ \<Rightarrow> bt_remove key index))"

definition apply_market_batch :: "market_index \<Rightarrow> BatchOperation list \<Rightarrow> market_index" where
  "apply_market_batch index ops = fold apply_market_operation ops index"

section \<open>Queries\<close>

definition market_order :: "entries \<Rightarrow> bytes option \<Rightarrow> nat \<Rightarrow> (entries, StorageError) result" where
  "market_order es pair limit =
     (if limit = 0 then Ok []
      else if \<exists>p\<in>set_option pair. length p \<noteq> MARKET_PAIR_LENGTH
      then Err (MarketKeyError (length (the pair)))
      else let selected = filter (\<lambda>e. case pair of None \<Rightarrow> True | Some p \<Rightarrow> prefix p (fst e)) es in
        case find (\<lambda>e. \<not> is_ok (validate_market_key (fst e))) selected of
          Some e \<Rightarrow> Err (MarketKeyError (length (fst e)))
        | None \<Rightarrow> Ok (take limit (sort_by (\<lambda>l r. market_total_cmp (fst l) (fst r)) selected)))"

definition market_seek :: "entries \<Rightarrow> bytes \<Rightarrow> nat \<Rightarrow> (entries, StorageError) result" where
  "market_seek es target limit =
     (if limit = 0 then Ok []
      else and_then (validate_market_key target) (\<lambda>_.
        and_then (market_order es (Some (take MARKET_PAIR_LENGTH target)) usize_max) (\<lambda>ordered.
          Ok (take limit (dropWhile (\<lambda>e. market_total_cmp (fst e) target = Less) ordered)))))"

record MarketQueryResult =
  mq_rows :: entries
  mq_visited :: nat

fun market_scan :: "entries \<Rightarrow> bytes \<Rightarrow> bytes \<Rightarrow> bytes \<Rightarrow> nat \<Rightarrow> entries \<Rightarrow> nat \<Rightarrow> market_index \<Rightarrow> MarketQueryResult" where
  "market_scan es namespace pair excluded limit rows visited [] = \<lparr> mq_rows = rows, mq_visited = visited \<rparr>"
| "market_scan es namespace pair excluded limit rows visited ((key, physical) # rest) =
     (if mk_namespace key \<noteq> namespace \<or> \<not> prefix pair (mk_logical key)
      then \<lparr> mq_rows = rows, mq_visited = visited \<rparr>
      else if mk_logical key = excluded
      then market_scan es namespace pair excluded limit rows (visited + 1) rest
      else let rows = (case bt_get es physical of Some v \<Rightarrow> rows @ [(mk_logical key, v)] | None \<Rightarrow> rows) in
        if length rows = limit then \<lparr> mq_rows = rows, mq_visited = visited + 1 \<rparr>
        else market_scan es namespace pair excluded limit rows (visited + 1) rest)"

definition market_ordered_namespace_from ::
    "entries \<Rightarrow> market_index \<Rightarrow> bytes \<Rightarrow> bytes \<Rightarrow> bytes option \<Rightarrow> bytes \<Rightarrow> nat \<Rightarrow> (MarketQueryResult, StorageError) result" where
  "market_ordered_namespace_from es index namespace pair after excluded limit =
     (if limit = 0 then Ok \<lparr> mq_rows = [], mq_visited = 0 \<rparr>
      else if length pair \<noteq> MARKET_PAIR_LENGTH then Err (MarketKeyError (length pair))
      else case after of
        Some after \<Rightarrow>
          and_then (validate_market_key after) (\<lambda>_.
            Ok (market_scan es namespace pair excluded limit [] 0
              (filter (\<lambda>e. market_index_cmp (fst e) \<lparr> mk_namespace = namespace, mk_logical = after \<rparr> = Greater) index)))
      | None \<Rightarrow>
          Ok (market_scan es namespace pair excluded limit [] 0
            (bt_range_from market_index_cmp
              \<lparr> mk_namespace = namespace, mk_logical = pair @ replicate 16 0 \<rparr> index)))"

definition market_ordered_namespace ::
    "entries \<Rightarrow> market_index \<Rightarrow> bytes \<Rightarrow> bytes \<Rightarrow> bytes \<Rightarrow> nat \<Rightarrow> (MarketQueryResult, StorageError) result" where
  "market_ordered_namespace es index namespace pair excluded limit =
     market_ordered_namespace_from es index namespace pair None excluded limit"

section \<open>The index order is lawful\<close>

definition index_keys :: "MarketIndexKey set" where
  "index_keys = {k. mk_logical k \<in> market_keys}"

lemma index_cmp_ord: "rust_ord market_index_cmp index_keys"
proof -
  have ns: "rust_preord (\<lambda>a b. cmp_bytes (mk_namespace a) (mk_namespace b)) index_keys"
    by (rule preord_vimage [OF bytes.preord]) simp
  have lg: "rust_preord (\<lambda>a b. market_total_cmp (mk_logical a) (mk_logical b)) index_keys"
    by (rule preord_vimage [OF market.preord]) (simp add: index_keys_def)
  note both = then_with_preord [OF ns lg]
  show ?thesis
  proof
    fix a b c :: MarketIndexKey
    show "market_index_cmp a b = Equal \<longleftrightarrow> a = b" if "a \<in> index_keys" "b \<in> index_keys"
      using that bytes.cmp_eq [of "mk_namespace a" "mk_namespace b"]
        market.cmp_eq [of "mk_logical a" "mk_logical b"]
      by (cases a; cases b) (auto simp: market_index_cmp_def then_with_def index_keys_def split: ordering.splits)
    show "market_index_cmp a b = Greater \<longleftrightarrow> market_index_cmp b a = Less"
      if "a \<in> index_keys" "b \<in> index_keys"
      using rust_preord.pre_swap [OF both that] by (simp add: market_index_cmp_def)
    show "market_index_cmp a c = Less" if "a \<in> index_keys" "b \<in> index_keys" "c \<in> index_keys"
      "market_index_cmp a b = Less" "market_index_cmp b c = Less"
      using rust_preord.pre_trans [OF both that(1-3)] that(4,5) by (simp add: market_index_cmp_def)
  qed
qed

interpretation index: rust_ord market_index_cmp index_keys
  by (rule index_cmp_ord)

text \<open>A physical key the index can hold in order, or does not hold at all.\<close>

definition lawful_physical :: "bytes \<Rightarrow> bool" where
  "lawful_physical key \<longleftrightarrow> (\<forall>k\<in>set_option (split_market_physical_key key). k \<in> index_keys)"

lemma split_concat: "split_market_physical_key key = Some k \<Longrightarrow> mk_namespace k @ mk_logical k = key"
  by (auto simp: split_market_physical_key_def Let_def split: list.splits if_splits option.splits sum.splits)

lemma split_inj: "split_market_physical_key a = Some k \<Longrightarrow> split_market_physical_key b = Some k \<Longrightarrow> a = b"
  using split_concat by metis

section \<open>What the index holds\<close>

definition index_view :: "bytes set \<Rightarrow> MarketIndexKey \<Rightarrow> bytes option" where
  "index_view P k =
     (let physical = mk_namespace k @ mk_logical k in
      if physical \<in> P \<and> split_market_physical_key physical = Some k then Some physical else None)"

definition index_ok :: "bytes set \<Rightarrow> market_index \<Rightarrow> bool" where
  "index_ok P index \<longleftrightarrow> bt_wf market_index_cmp index \<and> fst ` set index \<subseteq> index_keys \<and> bt_get index = index_view P"

lemma index_ok_unique: "index_ok P a \<Longrightarrow> index_ok P b \<Longrightarrow> a = b"
  by (auto simp: index_ok_def intro: index.wf_ext)

lemma index_ok_empty: "index_ok {} []"
  by (simp add: index_ok_def index_view_def fun_eq_iff)

lemma index_view_hit:
  assumes "split_market_physical_key physical = Some k"
  shows "index_view P k = (if physical \<in> P then Some physical else None)"
  using split_concat [OF assms] assms by (simp add: index_view_def)

lemma index_view_miss:
  assumes "split_market_physical_key physical \<noteq> Some k"
  shows "index_view (insert physical P) k = index_view P k" and "index_view (P - {physical}) k = index_view P k"
  using assms by (auto simp: index_view_def Let_def)

lemma index_ok_put:
  assumes "index_ok P index" and "lawful_physical physical"
  shows "index_ok (insert physical P) (apply_market_operation (Put physical v) index)"
proof (cases "split_market_physical_key physical")
  case None
  then have "index_view (insert physical P) = index_view P"
    by (intro ext index_view_miss) simp
  with None assms(1) show ?thesis by (simp add: apply_market_operation_def index_ok_def)
next
  case (Some k)
  with assms(2) have k: "k \<in> index_keys" by (simp add: lawful_physical_def)
  have "index_view (insert physical P) = (index_view P)(k \<mapsto> physical)"
  proof
    fix k'
    show "index_view (insert physical P) k' = ((index_view P)(k \<mapsto> physical)) k'"
      using Some index_view_hit [OF Some] index_view_miss(1) [of physical k' P] by (cases "k' = k") auto
  qed
  with assms(1) k Some show ?thesis
    by (simp add: apply_market_operation_def index_ok_def index.wf_insert index.keys_insert index.get_insert)
qed

lemma index_ok_delete:
  assumes "index_ok P index"
  shows "index_ok (P - {physical}) (apply_market_operation (Delete physical) index)"
proof (cases "split_market_physical_key physical")
  case None
  then have "index_view (P - {physical}) = index_view P"
    by (intro ext index_view_miss) simp
  with None assms show ?thesis by (simp add: apply_market_operation_def index_ok_def)
next
  case (Some k)
  have "index_view (P - {physical}) = (\<lambda>k'. if k' = k then None else index_view P k')"
  proof
    fix k'
    show "index_view (P - {physical}) k' = (if k' = k then None else index_view P k')"
      using Some index_view_hit [OF Some] index_view_miss(2) [of physical k' P] by (cases "k' = k") auto
  qed
  with assms Some show ?thesis
    by (auto simp: apply_market_operation_def index_ok_def keys_bt_remove fun_eq_iff)
qed

lemma map_filter_append [simp]: "List.map_filter f (xs @ ys) = List.map_filter f xs @ List.map_filter f ys"
  by (induction xs) (auto simp: List.map_filter_simps split: option.splits)

lemma index_ok_build: "list_all lawful_physical (map fst es) \<Longrightarrow> index_ok (fst ` set es) (build_market_index es)"
proof (induction es rule: rev_induct)
  case Nil
  then show ?case by (simp add: build_market_index_def bt_extend_def List.map_filter_simps index_ok_empty)
next
  case (snoc e es)
  then have "index_ok (insert (fst e) (fst ` set es)) (apply_market_operation (Put (fst e) (snd e)) (build_market_index es))"
    by (intro index_ok_put) auto
  moreover have "build_market_index (es @ [e]) = apply_market_operation (Put (fst e) (snd e)) (build_market_index es)"
    by (simp add: build_market_index_def bt_extend_def apply_market_operation_def index_entry_def
        List.map_filter_simps split: option.splits)
  ultimately show ?case by simp
qed

lemma index_ok_batch:
  "index_ok (fst ` set es) index \<Longrightarrow> list_all (\<lambda>operation. lawful_physical (op_key operation)) ops \<Longrightarrow>
   index_ok (fst ` set (apply_batch es ops)) (apply_market_batch index ops)"
proof (induction es ops arbitrary: index rule: apply_batch.induct)
  case (2 es key v ops)
  then show ?case
    using index_ok_put [of "fst ` set es" index key v] bytes.keys_insert [of key es v]
    by (simp add: apply_market_batch_def)
next
  case (3 es key ops)
  then show ?case
    using index_ok_delete [of "fst ` set es" index key] by (simp add: apply_market_batch_def keys_bt_remove)
qed (simp add: apply_market_batch_def)

lemma lawful_batch:
  "list_all lawful_physical (map fst es) \<Longrightarrow> list_all (\<lambda>operation. lawful_physical (op_key operation)) ops \<Longrightarrow>
   list_all lawful_physical (map fst (apply_batch es ops))"
proof (induction es ops rule: apply_batch.induct)
  case (2 es key v ops)
  then show ?case using bytes.keys_insert [of key es v] by (auto simp: list_all_iff)
next
  case (3 es key ops)
  then show ?case using keys_bt_remove [of key es] by (fastforce simp: list_all_iff bt_remove_def)
qed simp

section \<open>A pair is a contiguous range\<close>

lemma market_total_cmp_pair:
  assumes "54 \<le> length l" "54 \<le> length r" "take 38 l \<noteq> take 38 r"
  shows "market_total_cmp l r = cmp_bytes (take 38 l) (take 38 r)"
proof -
  have "cmp_bytes (take 38 l) (take 38 r) \<noteq> Equal" using assms(3) by (simp add: bytes.cmp_eq)
  with assms show ?thesis
    by (auto simp: market_total_cmp_def compare_price_key_def compare_unsigned_def split: ordering.splits)
qed

lemma cmp_bytes_append: "cmp_bytes (p @ a) (p @ b) = cmp_bytes a b"
  by (induction p) (auto simp: cmp_bytes_def cmp_lin_def)

lemma cmp_bytes_zeros: "n \<le> length r \<Longrightarrow> cmp_bytes (replicate n 0) r \<noteq> Greater"
proof (induction n arbitrary: r)
  case 0
  then show ?case by (cases r) (simp_all add: cmp_bytes_def)
next
  case (Suc n)
  then obtain x xs where r: "r = x # xs" by (cases r) auto
  consider "0 < x" | "x = 0" using word_neq_0_conv by blast
  then show ?case
    using Suc r by cases (simp_all add: cmp_bytes_def cmp_lin_def)
qed

lemma be_value_zeros: "be_value (replicate n 0) = 0"
  by (induction n) auto

lemma pair_start_least:
  assumes "length pair = 38" "prefix pair l" "54 \<le> length l"
  shows "market_total_cmp (pair @ replicate 16 0) l \<noteq> Greater"
proof -
  from assms(2) obtain rest where l: "l = pair @ rest" by (auto simp: prefix_def)
  have zero: "price_zero (key_price (pair @ replicate 16 0))"
    using assms(1) by (simp add: price_zero_def key_price_def positive_bytes_to_i64_truncating_def
        i64_from_be_bytes_def be_value_zeros wrap_i64_def)
  have "cmp_bytes (pair @ replicate 16 0) l \<noteq> Greater"
    unfolding l cmp_bytes_append by (rule cmp_bytes_zeros) (use assms l in simp)
  then show ?thesis
    using assms zero by (auto simp: market_total_cmp_def compare_price_key_def compare_unsigned_def l
        bytes.cmp_refl Let_def split: ordering.splits bool.splits if_splits)
qed

lemma index_key_length: "k \<in> index_keys \<Longrightarrow> 54 \<le> length (mk_logical k)"
  by (simp add: index_keys_def market_keys_def)

lemma pair_start_lawful:
  assumes "length pair = 38"
  shows "pair @ replicate 16 0 \<in> market_keys"
  using assms by (simp add: market_keys_def key_price_def positive_bytes_to_i64_truncating_def
      i64_from_be_bytes_def be_value_zeros wrap_i64_def)

lemma pair_contiguous:
  assumes k: "x \<in> index_keys" "y \<in> index_keys" and pair: "length pair = 38"
    and xy: "market_index_cmp x y = Less"
    and lo: "market_index_cmp x \<lparr> mk_namespace = namespace, mk_logical = pair @ replicate 16 0 \<rparr> \<noteq> Less"
    and y: "mk_namespace y = namespace" "prefix pair (mk_logical y)"
  shows "mk_namespace x = namespace \<and> prefix pair (mk_logical x)"
proof -
  have len: "54 \<le> length (mk_logical x)" "54 \<le> length (mk_logical y)"
    using k by (simp_all add: index_key_length)
  have ty: "take 38 (mk_logical y) = pair" using y(2) pair by (auto simp: prefix_def)
  have ns: "mk_namespace x = namespace"
    using xy lo y(1) bytes.cmp_eq [of "mk_namespace x" namespace]
    by (auto simp: market_index_cmp_def then_with_def split: ordering.splits)
  have "take 38 (mk_logical x) = pair"
  proof (rule ccontr)
    assume ne: "take 38 (mk_logical x) \<noteq> pair"
    have "market_total_cmp (mk_logical x) (mk_logical y) = cmp_bytes (take 38 (mk_logical x)) pair"
      using market_total_cmp_pair [of "mk_logical x" "mk_logical y"] len ne ty by simp
    moreover have "market_total_cmp (mk_logical x) (pair @ replicate 16 0) = cmp_bytes (take 38 (mk_logical x)) pair"
      using market_total_cmp_pair [of "mk_logical x" "pair @ replicate 16 0"] len ne pair by simp
    ultimately show False
      using xy lo ns y(1) by (simp add: market_index_cmp_def then_with_def bytes.cmp_refl)
  qed
  then show ?thesis using ns by (metis take_is_prefix)
qed

lemma pair_range:
  assumes "bt_wf market_index_cmp index" and "fst ` set index \<subseteq> index_keys" and "length pair = 38"
  shows "takeWhile (\<lambda>e. mk_namespace (fst e) = namespace \<and> prefix pair (mk_logical (fst e)))
      (bt_range_from market_index_cmp \<lparr> mk_namespace = namespace, mk_logical = pair @ replicate 16 0 \<rparr> index) =
    filter (\<lambda>e. mk_namespace (fst e) = namespace \<and> prefix pair (mk_logical (fst e))) index"
  unfolding bt_range_from_def
proof (rule takeWhile_filter_convex [where lt = "\<lambda>a b. market_index_cmp (fst a) (fst b) = Less"])
  show "sorted_wrt (\<lambda>a b. market_index_cmp (fst a) (fst b) = Less) index"
    using assms(1) by (simp add: bt_wf_def sorted_wrt_map)
next
  fix x
  assume x: "x \<in> set index" "mk_namespace (fst x) = namespace \<and> prefix pair (mk_logical (fst x))"
  then have k: "fst x \<in> index_keys" using assms(2) by auto
  have "market_total_cmp (pair @ replicate 16 0) (mk_logical (fst x)) \<noteq> Greater"
    using pair_start_least [OF assms(3)] x(2) index_key_length [OF k] by simp
  then have "market_total_cmp (mk_logical (fst x)) (pair @ replicate 16 0) \<noteq> Less"
    using market.cmp_swap [OF pair_start_lawful [OF assms(3)], of "mk_logical (fst x)"] k
    by (simp add: index_keys_def)
  then show "market_index_cmp (fst x) \<lparr> mk_namespace = namespace, mk_logical = pair @ replicate 16 0 \<rparr> \<noteq> Less"
    using x(2) by (simp add: market_index_cmp_def then_with_def bytes.cmp_refl)
next
  fix x y
  assume "x \<in> set index" "y \<in> set index" "market_index_cmp (fst x) (fst y) = Less"
    "market_index_cmp (fst x) \<lparr> mk_namespace = namespace, mk_logical = pair @ replicate 16 0 \<rparr> \<noteq> Less"
    "\<not> (mk_namespace (fst x) = namespace \<and> prefix pair (mk_logical (fst x)))"
  then show "\<not> (mk_namespace (fst y) = namespace \<and> prefix pair (mk_logical (fst y)))"
    using pair_contiguous [of "fst x" "fst y" pair namespace] assms by blast
qed

section \<open>The scan\<close>

abbreviation scan_row :: "entries \<Rightarrow> MarketIndexKey \<times> bytes \<Rightarrow> bytes \<times> bytes" where
  "scan_row es e \<equiv> (mk_logical (fst e), the (bt_get es (snd e)))"

lemma market_scan_rows:
  assumes "length rows < limit" and "\<And>e. e \<in> set index \<Longrightarrow> bt_get es (snd e) \<noteq> None"
  shows "mq_rows (market_scan es namespace pair excluded limit rows visited index) =
    take limit (rows @ map (scan_row es)
      (filter (\<lambda>e. mk_logical (fst e) \<noteq> excluded)
        (takeWhile (\<lambda>e. mk_namespace (fst e) = namespace \<and> prefix pair (mk_logical (fst e))) index)))"
  using assms
proof (induction es namespace pair excluded limit rows visited index rule: market_scan.induct)
  case (2 es namespace pair excluded limit rows visited key physical rest)
  from "2.prems"(2) [of "(key, physical)"] obtain v where v: "bt_get es physical = Some v" by auto
  have ok: "\<And>e. e \<in> set rest \<Longrightarrow> bt_get es (snd e) \<noteq> None" using "2.prems"(2) by simp
  show ?case
    using 2 v ok by (auto simp: Let_def)
qed simp

section \<open>Properties\<close>

text \<open>C32: the incremental maintenance of the market index by a batch gives the index that a
  rebuild from the resulting entries gives, on keys with a lawful order.\<close>

theorem market_index_maintained:
  assumes "list_all lawful_physical (map fst es)"
    and "list_all (\<lambda>operation. lawful_physical (op_key operation)) ops"
  shows "apply_market_batch (build_market_index es) ops = build_market_index (apply_batch es ops)"
  using index_ok_batch [OF index_ok_build [OF assms(1)] assms(2)] index_ok_build [OF lawful_batch [OF assms]]
  by (rule index_ok_unique)

definition demo_physical :: "u8 \<Rightarrow> bytes" where
  "demo_physical q = [1, 0, 0, 0, 1, 77] @ replicate 45 0 @ [1] @ replicate 7 0 @ [q]"

lemma demo_split:
  "split_market_physical_key (demo_physical q) =
     Some \<lparr> mk_namespace = [1, 0, 0, 0, 1, 77], mk_logical = replicate 45 0 @ [1] @ replicate 7 0 @ [q] \<rparr>"
  by (simp add: split_market_physical_key_def demo_physical_def validate_market_key_def compare_price_key_def
      compare_unsigned_def bytes.cmp_refl Let_def usize_checked_add_def)

lemma demo_lawful: "lawful_physical (demo_physical q)"
proof -
  have "int (unat q) < 256" using unsigned_less [of q] by simp
  then have "0 \<le> wrap_i64 (be_value (replicate 7 0 @ [q]))"
    by (simp add: eval_nat_numeral) (simp add: wrap_i64_def)
  moreover have "0 \<le> wrap_i64 (be_value (replicate 7 0 @ [1]))"
    by (simp add: eval_nat_numeral) (simp add: wrap_i64_def)
  ultimately show ?thesis
    by (simp add: lawful_physical_def demo_split index_keys_def market_keys_def key_price_def
        positive_bytes_to_i64_truncating_def i64_from_be_bytes_def)
qed

lemma market_index_maintained_witness:
  "apply_market_batch (build_market_index [(demo_physical 1, [])]) [Put (demo_physical 2) [], Delete (demo_physical 1)] =
   build_market_index (apply_batch [(demo_physical 1, [])] [Put (demo_physical 2) [], Delete (demo_physical 1)])"
  by (rule market_index_maintained) (simp_all add: demo_lawful)

text \<open>A market query returns the first rows of the complete, strictly price-ordered list
  of the stored entries of that namespace and pair, without the excluded key.\<close>

theorem market_ordered_namespace_exact:
  assumes "list_all lawful_physical (map fst es)" and "length pair = 38" and "0 < limit"
  shows "\<exists>rows visited.
    market_ordered_namespace es (build_market_index es) namespace pair excluded limit =
      Ok \<lparr> mq_rows = take limit rows, mq_visited = visited \<rparr> \<and>
    sorted_wrt (\<lambda>a b. market_total_cmp (fst a) (fst b) = Less) rows \<and>
    set rows = {(l, v). bt_get es (namespace @ l) = Some v \<and> prefix pair l \<and> l \<noteq> excluded \<and>
      split_market_physical_key (namespace @ l) = Some \<lparr> mk_namespace = namespace, mk_logical = l \<rparr>}"
proof -
  let ?index = "build_market_index es"
  let ?P = "\<lambda>e. mk_namespace (fst e) = namespace \<and> prefix pair (mk_logical (fst e))"
  let ?sel = "filter (\<lambda>e. mk_logical (fst e) \<noteq> excluded) (filter ?P ?index)"
  let ?rows = "map (scan_row es) ?sel"
  from index_ok_build [OF assms(1)] have wf: "bt_wf market_index_cmp ?index"
    and keys: "fst ` set ?index \<subseteq> index_keys" and view: "bt_get ?index = index_view (fst ` set es)"
    by (simp_all add: index_ok_def)
  have mem: "(k, p) \<in> set ?index \<longleftrightarrow>
      p = mk_namespace k @ mk_logical k \<and> p \<in> fst ` set es \<and> split_market_physical_key p = Some k" for k p
    unfolding map_of_eq_Some_iff [OF index.wf_distinct [OF keys wf], symmetric] view index_view_def Let_def
    by (cases "p = mk_namespace k @ mk_logical k"; cases "mk_namespace k @ mk_logical k \<in> fst ` set es") simp_all
  have some: "bt_get es (snd e) \<noteq> None" if "e \<in> set ?index" for e
    using that mem [of "fst e" "snd e"] by (metis map_of_eq_None_iff prod.collapse)
  let ?range = "bt_range_from market_index_cmp \<lparr> mk_namespace = namespace, mk_logical = pair @ replicate 16 0 \<rparr> ?index"
  have "mq_rows (market_scan es namespace pair excluded limit [] 0 ?range) = take limit ?rows"
    using market_scan_rows [of "[]" limit ?range es namespace pair excluded 0] assms(3) some
      pair_range [OF wf keys assms(2), of namespace]
    by (simp add: bt_range_from_def)
  then have "market_ordered_namespace es ?index namespace pair excluded limit =
      Ok \<lparr> mq_rows = take limit ?rows, mq_visited = mq_visited (market_scan es namespace pair excluded limit [] 0 ?range) \<rparr>"
    using assms by (simp add: market_ordered_namespace_def market_ordered_namespace_from_def)
  moreover have "sorted_wrt (\<lambda>a b. market_total_cmp (fst a) (fst b) = Less) ?rows"
  proof -
    have "sorted_wrt (\<lambda>a b. market_index_cmp (fst a) (fst b) = Less) ?sel"
      using wf by (simp add: bt_wf_def sorted_wrt_map sorted_wrt_filter)
    then show ?thesis
      by (auto simp: sorted_wrt_map market_index_cmp_def then_with_def bytes.cmp_refl elim!: sorted_wrt_mono_rel [rotated])
  qed
  moreover have "set ?rows = {(l, v). bt_get es (namespace @ l) = Some v \<and> prefix pair l \<and> l \<noteq> excluded \<and>
      split_market_physical_key (namespace @ l) = Some \<lparr> mk_namespace = namespace, mk_logical = l \<rparr>}" (is "_ = ?R")
  proof (intro set_eqI iffI)
    fix r assume "r \<in> set ?rows"
    then obtain k p where e: "(k, p) \<in> set ?index" "?P (k, p)" "mk_logical k \<noteq> excluded"
      "r = (mk_logical k, the (bt_get es p))" by auto
    then have "k = \<lparr> mk_namespace = namespace, mk_logical = mk_logical k \<rparr>" by simp
    with e mem [of k p] some [OF e(1)] show "r \<in> ?R" by auto
  next
    fix r assume "r \<in> ?R"
    then obtain l v where r: "r = (l, v)" "bt_get es (namespace @ l) = Some v" "prefix pair l" "l \<noteq> excluded"
      "split_market_physical_key (namespace @ l) = Some \<lparr> mk_namespace = namespace, mk_logical = l \<rparr>" by auto
    from r(2) have "namespace @ l \<in> fst ` set es" by (metis map_of_eq_None_iff option.distinct(1))
    with r(5) have "(\<lparr> mk_namespace = namespace, mk_logical = l \<rparr>, namespace @ l) \<in> set ?index"
      using mem [of "\<lparr> mk_namespace = namespace, mk_logical = l \<rparr>" "namespace @ l"] by simp
    with r show "r \<in> set ?rows" by (force simp: image_iff)
  qed
  ultimately show ?thesis by blast
qed

lemma market_ordered_namespace_witness:
  "\<exists>rows visited.
    market_ordered_namespace [(demo_physical 1, [9])] (build_market_index [(demo_physical 1, [9])])
      [1, 0, 0, 0, 1, 77] (replicate 38 0) [] 5 = Ok \<lparr> mq_rows = take 5 rows, mq_visited = visited \<rparr> \<and>
    (replicate 45 0 @ [1] @ replicate 7 0 @ [1], [9]) \<in> set rows"
proof -
  let ?l = "replicate 45 0 @ [1] @ replicate 7 0 @ [1] :: bytes"
  have "[1, 0, 0, 0, 1, 77] @ ?l = demo_physical 1" by (simp add: demo_physical_def)
  moreover have "prefix (replicate 38 0) ?l"
    by (rule prefixI [of _ _ "replicate 7 0 @ [1] @ replicate 7 0 @ [1]"]) (simp add: replicate_add [symmetric] flip: append_assoc)
  ultimately show ?thesis
    using market_ordered_namespace_exact [of "[(demo_physical 1, [9])]" "replicate 38 0" 5 "[1, 0, 0, 0, 1, 77]" "[]"]
    by (auto simp: demo_lawful demo_split)
qed

end
