(* ===== verification/Rust_Log.thy ===== *)
theory Rust_Log
  imports Market_Index
begin

text \<open>
  The \<open>rustlog-v1\<close> engine of \<open>tron-storage/src/lib.rs\<close>: the open handle, the write-ahead log
  and its recovery, the compact snapshot, rollback, shutdown and the ordered queries. The two
  files of a generation are byte strings. Every call into the operating system is named by an
  \<open>IoCall\<close>; an \<open>os\<close> says which calls fail and how much of a failing write reached the file,
  so a property quantified over \<open>os\<close> holds for every pattern of failures.
\<close>

section \<open>The operating system\<close>

datatype IoCall =
    WalSeekEnd | WalWrite | WalFlush | WalSyncData | WalMetadata
  | RollbackSetLen | RollbackSeek | RollbackSyncData
  | CompactSetLen | CompactSeek | CompactWriteMagic | CompactSyncAll | CompactDirSync
  | SnapTempFile | SnapWriteMagic | SnapWriteLength | SnapWriteCrc | SnapWritePayload
  | SnapSyncAll | SnapRename | SnapDirSync
  | LoadOpen | LoadMetadata | LoadReadHeader | LoadReadPayload
  | RecoverOpen | RecoverMetadata | RecoverWriteMagic | RecoverSyncAll | RecoverSetLen
  | RecoverSeekStart | RecoverReadMagic | RecoverRead nat | RecoverTruncate | RecoverSeekEnd | OpenSeekEnd
  | FlushFile | FlushSyncAll | FlushDirSync
  | CloseFlush | CloseWalSync | CloseOpenSnapshot | CloseSnapshotSync | CloseDirSync

record os =
  fails :: "IoCall \<Rightarrow> IoError option"
  torn :: "IoCall \<Rightarrow> nat"
  chunk :: "nat \<Rightarrow> nat"

definition io :: "os \<Rightarrow> IoCall \<Rightarrow> (unit, StorageError) result" where
  "io env c = (case fails env c of None \<Rightarrow> Ok () | Some e \<Rightarrow> Err (storage_error_of_io e))"

fun io_all :: "os \<Rightarrow> IoCall list \<Rightarrow> (unit, StorageError) result" where
  "io_all env [] = Ok ()"
| "io_all env (c # cs) = and_then (io env c) (\<lambda>_. io_all env cs)"

declare io_all.simps [simp del]

text \<open>\<open>write_all\<close> at the end of a file: a failure leaves a part of the buffer behind.\<close>

definition write_all :: "os \<Rightarrow> IoCall \<Rightarrow> bytes \<Rightarrow> bytes \<Rightarrow> bytes \<times> (unit, StorageError) result" where
  "write_all env c file buffer =
     (case fails env c of
        None \<Rightarrow> (file @ buffer, Ok ())
      | Some e \<Rightarrow> (file @ take (torn env c) buffer, Err (storage_error_of_io e)))"

text \<open>Fault injectors: \<open>NoWriteFaults\<close> and \<open>NoShutdownFaults\<close> never fail.\<close>

datatype WritePhase = Append | Flush | Sync | Truncate | RollbackSync | Metadata | Compaction
datatype ShutdownPhase = WalSync | SnapshotSync | GenerationSync

definition before :: "('phase \<Rightarrow> IoError option) \<Rightarrow> 'phase \<Rightarrow> (unit, StorageError) result" where
  "before faults phase = (case faults phase of None \<Rightarrow> Ok () | Some e \<Rightarrow> Err (storage_error_of_io e))"

definition no_faults :: "'phase \<Rightarrow> IoError option" where
  "no_faults = (\<lambda>_. None)"

section \<open>The handle\<close>

definition WAL_MAGIC :: bytes where "WAL_MAGIC = str_bytes ''RLOGWAL1''"
definition SNAPSHOT_MAGIC :: bytes where "SNAPSHOT_MAGIC = str_bytes ''RLOGSNP1''"
definition FRAME_HEADER_LEN :: nat where "FRAME_HEADER_LEN = 8"
definition SNAPSHOT_HEADER_LEN :: nat where "SNAPSHOT_HEADER_LEN = 20"

record RustLog =
  rl_snapshot :: "bytes option"
  rl_options :: RustLogOptions
  rl_entries :: entries
  rl_market_entries :: market_index
  rl_wal :: bytes
  rl_lock :: bool
  rl_closed :: bool
  rl_poisoned :: bool
  rl_maintenance_error :: "StorageError option"

definition ensure_usable :: "RustLog \<Rightarrow> (unit, StorageError) result" where
  "ensure_usable s =
     (if rl_closed s then Err Closed else if rl_poisoned s then Err Poisoned else Ok ())"

section \<open>Snapshot files\<close>

definition snapshot_image :: "bytes \<Rightarrow> bytes" where
  "snapshot_image payload =
     SNAPSHOT_MAGIC @ le_bytes 8 (int (length payload)) @ le_bytes 4 (uint (crc32 payload)) @ payload"

definition install_snapshot :: "os \<Rightarrow> bytes option \<Rightarrow> entries \<Rightarrow> RustLogOptions \<Rightarrow>
    bytes option \<times> (unit, StorageError) result" where
  "install_snapshot env snapshot es opts =
     (case encode_snapshot es opts of
        Err e \<Rightarrow> (snapshot, Err e)
      | Ok payload \<Rightarrow>
        (case io_all env [SnapTempFile, SnapWriteMagic, SnapWriteLength, SnapWriteCrc, SnapWritePayload,
                        SnapSyncAll, SnapRename] of
           Err e \<Rightarrow> (snapshot, Err e)
         | Ok _ \<Rightarrow> (Some (snapshot_image payload), io env SnapDirSync)))"

definition load_snapshot :: "os \<Rightarrow> bytes option \<Rightarrow> RustLogOptions \<Rightarrow> (entries, StorageError) result" where
  "load_snapshot env snapshot opts =
     (case (fails env LoadOpen, snapshot) of
        (Some e, _) \<Rightarrow> if io_kind e = NotFound then Ok [] else Err (storage_error_of_io e)
      | (None, None) \<Rightarrow> Ok []
      | (None, Some file) \<Rightarrow>
        and_then (io env LoadMetadata) (\<lambda>_.
        if length file < SNAPSHOT_HEADER_LEN then Err (Corruption InvalidSnapshotHeader)
        else and_then (io env LoadReadHeader) (\<lambda>_.
        let header = take SNAPSHOT_HEADER_LEN file in
        if take 8 header \<noteq> SNAPSHOT_MAGIC then Err (Corruption InvalidSnapshotHeader)
        else let payload_length = nat (le_value (take 8 (drop 8 header))) in
        if payload_length > max_snapshot_bytes opts
        then Err (Corruption (FrameTooLarge payload_length (max_snapshot_bytes opts)))
        else if length file \<noteq> SNAPSHOT_HEADER_LEN + payload_length then Err (Corruption TrailingSnapshotBytes)
        else let expected_crc = le_value (take 4 (drop 16 header)) in
        and_then (io env LoadReadPayload) (\<lambda>_.
        let payload = drop SNAPSHOT_HEADER_LEN file in
        if uint (crc32 payload) \<noteq> expected_crc then Err (Corruption SnapshotChecksum)
        else decode_snapshot payload opts))))"

section \<open>Log recovery\<close>

datatype ReadState = Complete | Eof | Incomplete

text \<open>One \<open>read\<close> returns at most what is wanted and what the file holds, and may return less;
  it returns zero bytes only at the end of the file.\<close>

definition read_count :: "os \<Rightarrow> nat \<Rightarrow> nat \<Rightarrow> nat \<Rightarrow> nat" where
  "read_count env position' wanted available = min wanted (min available (max 1 (chunk env position')))"

function read_complete :: "os \<Rightarrow> bytes \<Rightarrow> nat \<Rightarrow> nat \<Rightarrow> nat \<Rightarrow> (ReadState, StorageError) result" where
  "read_complete env content start wanted got =
     (if got < wanted then
        and_then (io env (RecoverRead (start + got))) (\<lambda>_.
        let count' = read_count env (start + got) (wanted - got) (length content - (start + got)) in
        if count' = 0 then (if got = 0 then Ok Eof else Ok Incomplete)
        else read_complete env content start wanted (got + count'))
      else Ok Complete)"
  by pat_completeness auto
termination
  by (relation "measure (\<lambda>(env, content, start, wanted, got). wanted - got)") auto

declare read_complete.simps [simp del]

lemma read_complete_Complete:
  "read_complete env content start wanted got = Ok Complete \<Longrightarrow> start + wanted \<le> length content \<or> wanted \<le> got"
proof (induction env content start wanted got rule: read_complete.induct)
  case (1 env content start wanted got)
  show ?case
  proof (cases "got < wanted")
    case True
    let ?c = "read_count env (start + got) (wanted - got) (length content - (start + got))"
    from 1(2) True have ne: "?c \<noteq> 0" and io: "io env (RecoverRead (start + got)) = Ok ()"
      and rest: "read_complete env content start wanted (got + ?c) = Ok Complete"
      by (auto simp: read_complete.simps [of env content start wanted got] Let_def and_then_Ok split: if_splits)
    have "start + (got + ?c) \<le> length content"
      using ne by (auto simp: read_count_def)
    with 1(1) [OF True _ refl ne rest] io show ?thesis by fastforce
  qed simp
qed

definition truncate_tail :: "os \<Rightarrow> bytes \<Rightarrow> nat \<Rightarrow> entries \<Rightarrow> bytes \<times> (entries, StorageError) result" where
  "truncate_tail env wal frame_start es =
     (case io env RecoverTruncate of Err e \<Rightarrow> (wal, Err e) | Ok _ \<Rightarrow> (take frame_start wal, Ok es))"

function recover_frames :: "os \<Rightarrow> RustLogOptions \<Rightarrow> bytes \<Rightarrow> nat \<Rightarrow> entries \<Rightarrow>
    bytes \<times> (entries, StorageError) result" where
  "recover_frames env opts wal frame_start es =
     (case read_complete env wal frame_start FRAME_HEADER_LEN 0 of
        Err e \<Rightarrow> (wal, Err e)
      | Ok Eof \<Rightarrow> (wal, Ok es)
      | Ok Incomplete \<Rightarrow> truncate_tail env wal frame_start es
      | Ok Complete \<Rightarrow>
        let header = take FRAME_HEADER_LEN (drop frame_start wal);
            offset = frame_start + FRAME_HEADER_LEN;
            frame_length = nat (le_value (take 4 header)) in
        if frame_length > max_frame_bytes opts
        then (wal, Err (Corruption (FrameTooLarge frame_length (max_frame_bytes opts))))
        else let expected_crc = le_value (drop 4 header) in
        (case read_complete env wal offset frame_length 0 of
           Err e \<Rightarrow> (wal, Err e)
         | Ok Eof \<Rightarrow> truncate_tail env wal frame_start es
         | Ok Incomplete \<Rightarrow> truncate_tail env wal frame_start es
         | Ok Complete \<Rightarrow>
           let payload = take frame_length (drop offset wal) in
           if uint (crc32 payload) \<noteq> expected_crc then (wal, Err (Corruption (WalChecksum frame_start)))
           else case decode_batch payload opts of
             Err e \<Rightarrow> (wal, Err e)
           | Ok batch \<Rightarrow> recover_frames env opts wal (offset + frame_length) (apply_batch es batch)))"
  by pat_completeness auto
termination
  by (relation "measure (\<lambda>(env, opts, wal, frame_start, es). length wal - frame_start)")
    (auto dest: read_complete_Complete simp: FRAME_HEADER_LEN_def)

declare recover_frames.simps [simp del]

definition write_magic :: "os \<Rightarrow> bytes \<Rightarrow> entries \<Rightarrow> bytes \<times> (entries, StorageError) result" where
  "write_magic env wal es =
     (let (wal, r) = write_all env RecoverWriteMagic wal WAL_MAGIC
      in (wal, and_then r (\<lambda>_. and_then (io env RecoverSyncAll) (\<lambda>_. Ok es))))"

definition recover_wal :: "os \<Rightarrow> RustLogOptions \<Rightarrow> bytes \<Rightarrow> entries \<Rightarrow> bytes \<times> (entries, StorageError) result" where
  "recover_wal env opts wal es =
     (case io env RecoverMetadata of
        Err e \<Rightarrow> (wal, Err e)
      | Ok _ \<Rightarrow>
        if length wal = 0 then write_magic env wal es
        else if length wal < length WAL_MAGIC then
          (case io env RecoverSetLen of Err e \<Rightarrow> (wal, Err e) | Ok _ \<Rightarrow> write_magic env [] es)
        else case io_all env [RecoverSeekStart, RecoverReadMagic] of
          Err e \<Rightarrow> (wal, Err e)
        | Ok _ \<Rightarrow>
          if take 8 wal \<noteq> WAL_MAGIC then (wal, Err (Corruption InvalidWalHeader))
          else let (wal, r) = recover_frames env opts wal (length WAL_MAGIC) es
            in (wal, and_then r (\<lambda>es. and_then (io env RecoverSeekEnd) (\<lambda>_. Ok es))))"

definition open_generation :: "os \<Rightarrow> bytes option \<Rightarrow> bytes \<Rightarrow> RustLogOptions \<Rightarrow>
    bytes \<times> (RustLog, StorageError) result" where
  "open_generation env snapshot wal opts =
     (case and_then (validate_options opts) (\<lambda>_.
             and_then (load_snapshot env snapshot opts) (\<lambda>es.
             and_then (io env RecoverOpen) (\<lambda>_. Ok es))) of
        Err e \<Rightarrow> (wal, Err e)
      | Ok es \<Rightarrow>
        let (wal, r) = recover_wal env opts wal es in
        (wal, and_then r (\<lambda>es. and_then (io env OpenSeekEnd) (\<lambda>_.
           Ok \<lparr> rl_snapshot = snapshot, rl_options = opts, rl_entries = es,
                rl_market_entries = build_market_index es, rl_wal = wal, rl_lock = True,
                rl_closed = False, rl_poisoned = False, rl_maintenance_error = None \<rparr>))))"

section \<open>Writing\<close>

definition compact :: "os \<Rightarrow> RustLog \<Rightarrow> RustLog \<times> (unit, StorageError) result" where
  "compact env s =
     (case ensure_usable s of
        Err e \<Rightarrow> (s, Err e)
      | Ok _ \<Rightarrow>
        let (snapshot, r) = install_snapshot env (rl_snapshot s) (rl_entries s) (rl_options s);
            s = s\<lparr> rl_snapshot := snapshot \<rparr> in
        (case r of Err e \<Rightarrow> (s, Err e)
         | Ok _ \<Rightarrow>
           (case io env CompactSetLen of Err e \<Rightarrow> (s, Err e)
            | Ok _ \<Rightarrow>
              let s = s\<lparr> rl_wal := [] \<rparr> in
              (case io env CompactSeek of Err e \<Rightarrow> (s, Err e)
               | Ok _ \<Rightarrow>
                 let (wal, r) = write_all env CompactWriteMagic (rl_wal s) WAL_MAGIC in
                 (s\<lparr> rl_wal := wal \<rparr>,
                  and_then r (\<lambda>_. io_all env [CompactSyncAll, CompactDirSync]))))))"

definition rollback_wal :: "os \<Rightarrow> (WritePhase \<Rightarrow> IoError option) \<Rightarrow> nat \<Rightarrow> RustLog \<Rightarrow>
    RustLog \<times> (unit, StorageError) result" where
  "rollback_wal env faults wal_offset s =
     (case and_then (before faults Truncate) (\<lambda>_. io env RollbackSetLen) of
        Err e \<Rightarrow> (s, Err e)
      | Ok _ \<Rightarrow>
        (s\<lparr> rl_wal := take wal_offset (rl_wal s) \<rparr>,
         and_then (io env RollbackSeek) (\<lambda>_.
         and_then (before faults RollbackSync) (\<lambda>_. io env RollbackSyncData))))"

definition append_frame :: "os \<Rightarrow> (WritePhase \<Rightarrow> IoError option) \<Rightarrow> bytes \<Rightarrow> RustLog \<Rightarrow>
    RustLog \<times> (unit, StorageError) result" where
  "append_frame env faults frame s =
     (case before faults Append of
        Err e \<Rightarrow> (s, Err e)
      | Ok _ \<Rightarrow>
        let (wal, r) = write_all env WalWrite (rl_wal s) frame in
        (s\<lparr> rl_wal := wal \<rparr>,
         and_then r (\<lambda>_.
         and_then (before faults Flush) (\<lambda>_.
         and_then (io env WalFlush) (\<lambda>_.
           if sync_on_write (rl_options s)
           then and_then (before faults Sync) (\<lambda>_. io env WalSyncData)
           else Ok ())))))"

definition write_maintenance :: "os \<Rightarrow> (WritePhase \<Rightarrow> IoError option) \<Rightarrow> RustLog \<Rightarrow> RustLog" where
  "write_maintenance env faults s =
     (case and_then (before faults Metadata) (\<lambda>_. io env WalMetadata) of
        Err e \<Rightarrow> s\<lparr> rl_maintenance_error := Some e \<rparr>
      | Ok _ \<Rightarrow>
        if compact_after_bytes (rl_options s) > 0 \<and> length (rl_wal s) \<ge> compact_after_bytes (rl_options s)
        then
          (let (s, r) = (case before faults Compaction of Err e \<Rightarrow> (s, Err e) | Ok _ \<Rightarrow> compact env s)
           in case r of Err e \<Rightarrow> s\<lparr> rl_maintenance_error := Some e \<rparr> | Ok _ \<Rightarrow> s)
        else s)"

definition write_with_faults :: "os \<Rightarrow> (WritePhase \<Rightarrow> IoError option) \<Rightarrow> WriteBatch \<Rightarrow> RustLog \<Rightarrow>
    RustLog \<times> (unit, StorageError) result" where
  "write_with_faults env faults batch s =
     (case ensure_usable s of
        Err e \<Rightarrow> (s, Err e)
      | Ok _ \<Rightarrow>
        if batch = [] then (s, Ok ())
        else case and_then (encode_batch batch (rl_options s)) (\<lambda>payload.
                  and_then (encode_frame payload) (\<lambda>frame.
                  and_then (io env WalSeekEnd) (\<lambda>_. Ok frame))) of
          Err e \<Rightarrow> (s, Err e)
        | Ok frame \<Rightarrow>
          let wal_offset = length (rl_wal s);
              (s, append_result) = append_frame env faults frame s in
          (case append_result of
             Err error \<Rightarrow>
               let (s, r) = rollback_wal env faults wal_offset s in
               (case r of
                  Err _ \<Rightarrow> (s\<lparr> rl_poisoned := True \<rparr>, Err Poisoned)
                | Ok _ \<Rightarrow> (s, Err error))
           | Ok _ \<Rightarrow>
               let s = s\<lparr> rl_market_entries := apply_market_batch (rl_market_entries s) batch,
                         rl_entries := apply_batch (rl_entries s) batch \<rparr> in
               (write_maintenance env faults s, Ok ())))"

definition log_write :: "os \<Rightarrow> WriteBatch \<Rightarrow> RustLog \<Rightarrow> RustLog \<times> (unit, StorageError) result" where
  "log_write env batch s = write_with_faults env no_faults batch s"

definition put :: "os \<Rightarrow> bytes \<Rightarrow> bytes \<Rightarrow> RustLog \<Rightarrow> RustLog \<times> (unit, StorageError) result" where
  "put env key v s = log_write env (batch_put key v []) s"

definition delete :: "os \<Rightarrow> bytes \<Rightarrow> RustLog \<Rightarrow> RustLog \<times> (unit, StorageError) result" where
  "delete env key s = log_write env (batch_delete key []) s"

definition take_maintenance_error :: "RustLog \<Rightarrow> RustLog \<times> StorageError option" where
  "take_maintenance_error s = (s\<lparr> rl_maintenance_error := None \<rparr>, rl_maintenance_error s)"

definition flush :: "os \<Rightarrow> RustLog \<Rightarrow> (unit, StorageError) result" where
  "flush env s = and_then (ensure_usable s) (\<lambda>_. io_all env [FlushFile, FlushSyncAll, FlushDirSync])"

definition wal_len :: "os \<Rightarrow> RustLog \<Rightarrow> (nat, StorageError) result" where
  "wal_len env s = and_then (ensure_usable s) (\<lambda>_. and_then (io env WalMetadata) (\<lambda>_. Ok (length (rl_wal s))))"

section \<open>Shutdown\<close>

definition sync_for_shutdown :: "os \<Rightarrow> (ShutdownPhase \<Rightarrow> IoError option) \<Rightarrow> RustLog \<Rightarrow> (unit, StorageError) result" where
  "sync_for_shutdown env faults s =
     and_then (io env CloseFlush) (\<lambda>_.
     and_then (before faults WalSync) (\<lambda>_.
     and_then (io env CloseWalSync) (\<lambda>_.
     and_then
       (case (fails env CloseOpenSnapshot, rl_snapshot s) of
          (Some e, _) \<Rightarrow> if io_kind e = NotFound then Ok () else Err (storage_error_of_io e)
        | (None, None) \<Rightarrow> Ok ()
        | (None, Some _) \<Rightarrow> and_then (before faults SnapshotSync) (\<lambda>_. io env CloseSnapshotSync)) (\<lambda>_.
     and_then (before faults GenerationSync) (\<lambda>_. io env CloseDirSync)))))"

definition close_in_place_with_faults :: "os \<Rightarrow> (ShutdownPhase \<Rightarrow> IoError option) \<Rightarrow> RustLog \<Rightarrow>
    RustLog \<times> (unit, StorageError) result" where
  "close_in_place_with_faults env faults s =
     (if rl_closed s then (s, Ok ())
      else let result = and_then (ensure_usable s) (\<lambda>_. sync_for_shutdown env faults s)
        in (s\<lparr> rl_closed := True, rl_lock := False \<rparr>, result))"

definition close_in_place :: "os \<Rightarrow> RustLog \<Rightarrow> RustLog \<times> (unit, StorageError) result" where
  "close_in_place env s = close_in_place_with_faults env no_faults s"

text \<open>\<open>Drop\<close>: a poisoned handle forgets its lock, which stays held for the process.\<close>

definition drop_handle :: "RustLog \<Rightarrow> RustLog" where
  "drop_handle s = (if rl_poisoned s then s else s\<lparr> rl_lock := False \<rparr>)"

section \<open>Queries\<close>

definition log_get :: "RustLog \<Rightarrow> bytes \<Rightarrow> bytes option" where
  "log_get s key = bt_get (rl_entries s) key"

definition contains_key :: "RustLog \<Rightarrow> bytes \<Rightarrow> bool" where
  "contains_key s key = (bt_get (rl_entries s) key \<noteq> None)"

definition seek :: "RustLog \<Rightarrow> bytes \<Rightarrow> nat \<Rightarrow> entries" where
  "seek s target limit = (if limit = 0 then [] else take limit (bt_range_from cmp_bytes target (rl_entries s)))"

datatype bound = Included bytes | Excluded bytes | Unbounded

fun above :: "bound \<Rightarrow> bytes \<Rightarrow> bool" where
  "above (Included lo) k \<longleftrightarrow> cmp_bytes k lo \<noteq> Less"
| "above (Excluded lo) k \<longleftrightarrow> cmp_bytes k lo = Greater"
| "above Unbounded k \<longleftrightarrow> True"

fun below :: "bound \<Rightarrow> bytes \<Rightarrow> bool" where
  "below (Included hi) k \<longleftrightarrow> cmp_bytes k hi \<noteq> Greater"
| "below (Excluded hi) k \<longleftrightarrow> cmp_bytes k hi = Less"
| "below Unbounded k \<longleftrightarrow> True"

text \<open>\<open>BTreeMap::range\<close> panics on an inverted range, and on an empty one excluded on both sides.\<close>

fun range_panics :: "bound \<Rightarrow> bound \<Rightarrow> bool" where
  "range_panics (Excluded lo) (Excluded hi) \<longleftrightarrow> cmp_bytes lo hi \<noteq> Less"
| "range_panics (Included lo) (Included hi) \<longleftrightarrow> cmp_bytes lo hi = Greater"
| "range_panics (Included lo) (Excluded hi) \<longleftrightarrow> cmp_bytes lo hi = Greater"
| "range_panics (Excluded lo) (Included hi) \<longleftrightarrow> cmp_bytes lo hi = Greater"
| "range_panics _ _ \<longleftrightarrow> False"

definition range_bytes :: "RustLog \<Rightarrow> bound \<Rightarrow> bound \<Rightarrow> nat \<Rightarrow> entries option" where
  "range_bytes s lo hi limit =
     (if limit = 0 then Some []
      else if range_panics lo hi then None
      else Some (take limit (filter (\<lambda>e. above lo (fst e) \<and> below hi (fst e)) (rl_entries s))))"

definition prefix_scan :: "RustLog \<Rightarrow> bytes \<Rightarrow> nat \<Rightarrow> entries" where
  "prefix_scan s p limit =
     (if limit = 0 then []
      else take limit (takeWhile (\<lambda>e. prefix p (fst e)) (bt_range_from cmp_bytes p (rl_entries s))))"

fun visit_entries :: "(bytes \<Rightarrow> bytes \<Rightarrow> 'st \<Rightarrow> 'st \<times> (unit, 'e) result) \<Rightarrow> entries \<Rightarrow> 'st \<Rightarrow> 'st \<times> (unit, 'e) result" where
  "visit_entries visitor [] st = (st, Ok ())"
| "visit_entries visitor ((key, v) # es) st =
     (case visitor key v st of (st, Err e) \<Rightarrow> (st, Err e) | (st, Ok _) \<Rightarrow> visit_entries visitor es st)"

section \<open>Replaying operations\<close>

text \<open>The last operation on a key decides its value: \<open>Some (Some v)\<close> after a put,
  \<open>Some None\<close> after a delete, \<open>None\<close> when the key is not touched.\<close>

fun op_effect :: "BatchOperation \<Rightarrow> bytes option" where
  "op_effect (Put _ v) = Some v"
| "op_effect (Delete _) = None"

fun last_effect :: "BatchOperation list \<Rightarrow> bytes \<Rightarrow> bytes option option" where
  "last_effect [] k = None"
| "last_effect (operation # ops) k =
     (case last_effect ops k of
        Some v \<Rightarrow> Some v
      | None \<Rightarrow> if op_key operation = k then Some (op_effect operation) else None)"

lemma get_apply_batch:
  "bt_get (apply_batch es ops) k = (case last_effect ops k of None \<Rightarrow> bt_get es k | Some v \<Rightarrow> v)"
  by (induction es ops rule: apply_batch.induct) (auto split: option.splits)

lemma wf_apply_batch [simp]: "bt_wf cmp_bytes es \<Longrightarrow> bt_wf cmp_bytes (apply_batch es ops)"
  by (induction es ops rule: apply_batch.induct) auto

lemma apply_batch_append: "apply_batch es (xs @ ys) = apply_batch (apply_batch es xs) ys"
  by (induction es xs rule: apply_batch.induct) auto

definition replay :: "entries \<Rightarrow> WriteBatch list \<Rightarrow> entries" where
  "replay es batches = apply_batch es (concat batches)"

lemma replay_simps [simp]:
  "replay es [] = es" "replay es (b # bs) = replay (apply_batch es b) bs"
  "replay es (bs @ cs) = replay (replay es bs) cs"
  by (simp_all add: replay_def apply_batch_append)

lemma wf_replay [simp]: "bt_wf cmp_bytes es \<Longrightarrow> bt_wf cmp_bytes (replay es batches)"
  by (simp add: replay_def)

text \<open>Replaying a log over its own result changes nothing.\<close>

lemma replay_idem:
  assumes "bt_wf cmp_bytes es"
  shows "replay (replay es batches) batches = replay es batches"
proof (rule bytes.wf_ext)
  show "bt_get (replay (replay es batches) batches) = bt_get (replay es batches)"
    by (rule ext) (simp add: replay_def get_apply_batch split: option.splits)
qed (use assms in auto)

section \<open>Reading a log back\<close>

definition quiet :: "os \<Rightarrow> bool" where
  "quiet env \<longleftrightarrow> fails env = (\<lambda>_. None)"

lemma quiet_io [simp]: "quiet env \<Longrightarrow> io env c = Ok ()"
  by (simp add: quiet_def io_def)

lemma quiet_io_all [simp]: "quiet env \<Longrightarrow> io_all env cs = Ok ()"
  by (induction cs) (auto simp: io_all.simps)

lemma quiet_write_all [simp]: "quiet env \<Longrightarrow> write_all env c content buffer = (content @ buffer, Ok ())"
  by (simp add: quiet_def write_all_def)

text \<open>Short reads do not matter: the loop reads what the file holds.\<close>

lemma read_complete_quiet:
  "quiet env \<Longrightarrow> got = 0 \<or> start + got \<le> length content \<Longrightarrow>
    read_complete env content start wanted got =
    Ok (if wanted \<le> got \<or> start + wanted \<le> length content then Complete
        else if got = 0 \<and> length content \<le> start then Eof else Incomplete)"
proof (induction env content start wanted got rule: read_complete.induct)
  case (1 env content start wanted got)
  let ?c = "read_count env (start + got) (wanted - got) (length content - (start + got))"
  have q: "io env (RecoverRead (start + got)) = Ok ()" using 1(2) by simp
  note unf = read_complete.simps [of env content start wanted got]
  consider "wanted \<le> got" | (stop) "got < wanted" "?c = 0" | (go) "got < wanted" "?c \<noteq> 0" by linarith
  then show ?case
  proof cases
    case stop
    then have "length content \<le> start + got" by (auto simp: read_count_def split: if_splits)
    with stop 1(3) q show ?thesis by (auto simp: unf Let_def)
  next
    case go
    then have le: "start + (got + ?c) \<le> length content" by (auto simp: read_count_def)
    have "read_complete env content start wanted got = read_complete env content start wanted (got + ?c)"
      using go q by (simp add: unf Let_def)
    also have "\<dots> = Ok (if wanted \<le> got + ?c \<or> start + wanted \<le> length content then Complete
        else if got + ?c = 0 \<and> length content \<le> start then Eof else Incomplete)"
      using 1(1) [OF go(1) q refl go(2)] 1(2) le by blast
    finally show ?thesis using go le by auto
  qed (simp add: unf)
qed

lemmas read_quiet = read_complete_quiet [where got = 0, simplified]

definition frame_image :: "bytes \<Rightarrow> bytes" where
  "frame_image payload = le_bytes 4 (int (length payload)) @ le_bytes 4 (uint (crc32 payload)) @ payload"

definition loggable :: "RustLogOptions \<Rightarrow> WriteBatch \<Rightarrow> bool" where
  "loggable opts batch \<longleftrightarrow> batch \<noteq> [] \<and>
     (case encode_batch batch opts of Err _ \<Rightarrow> False | Ok payload \<Rightarrow> length payload \<le> u32_max)"

definition batch_frame :: "RustLogOptions \<Rightarrow> WriteBatch \<Rightarrow> bytes" where
  "batch_frame opts batch = (case encode_batch batch opts of Err _ \<Rightarrow> [] | Ok payload \<Rightarrow> frame_image payload)"

lemma encode_frame_Ok: "encode_frame payload = Ok frame \<longleftrightarrow> length payload \<le> u32_max \<and> frame = frame_image payload"
  by (auto simp: encode_frame_def frame_image_def)

lemma loggableE:
  assumes "loggable opts batch"
  obtains payload where "encode_batch batch opts = Ok payload" "batch_frame opts batch = frame_image payload"
    "length payload \<le> u32_max" "length payload \<le> max_frame_bytes opts" "decode_batch payload opts = Ok batch"
    "0 < length payload"
proof -
  from assms obtain payload where e: "encode_batch batch opts = Ok payload" "length payload \<le> u32_max" "batch \<noteq> []"
    by (auto simp: loggable_def split: sum.splits)
  from e batch_codec [of payload batch opts] encode_batch_Ok(4) [OF e(1)] show ?thesis
    by (intro that [of payload]) (auto simp: batch_frame_def)
qed

lemma le_value_u32 [simp]: "n \<le> u32_max \<Longrightarrow> nat (le_value (le_bytes 4 (int n))) = n"
  by (simp add: le_value_le_bytes)

lemma le_value_crc [simp]: "le_value (le_bytes 4 (uint (c :: 32 word))) = uint c"
  using uint_lt2p [of c] by (simp add: le_value_le_bytes)

lemma frame_image_parts:
  "take 4 (frame_image payload) = le_bytes 4 (int (length payload))"
  "take 4 (drop 4 (frame_image payload)) = le_bytes 4 (uint (crc32 payload))"
  "drop 8 (frame_image payload) = payload" "length (frame_image payload) = 8 + length payload"
  by (simp_all add: frame_image_def)

text \<open>One complete frame is applied, and recovery continues behind it.\<close>

lemma recover_frame_step:
  assumes "quiet env" and "loggable opts batch" and "wal = pre @ batch_frame opts batch @ rest"
  shows "recover_frames env opts wal (length pre) es =
    recover_frames env opts wal (length pre + length (batch_frame opts batch)) (apply_batch es batch)"
proof -
  from assms(2) obtain payload where p: "batch_frame opts batch = frame_image payload"
    "length payload \<le> u32_max" "length payload \<le> max_frame_bytes opts" "decode_batch payload opts = Ok batch"
    by (rule loggableE)
  have len: "length wal = length pre + 8 + length payload + length rest"
    using assms(3) p(1) by (simp add: frame_image_parts)
  have hd: "take 8 (drop (length pre) wal) = le_bytes 4 (int (length payload)) @ le_bytes 4 (uint (crc32 payload))"
    using assms(3) p(1) by (simp add: frame_image_def)
  have pl: "take (length payload) (drop (length pre + 8) wal) = payload"
    using assms(3) p(1) by (simp add: frame_image_def)
  show ?thesis
    using assms(1) len hd pl p
    by (subst recover_frames.simps)
      (simp add: read_quiet FRAME_HEADER_LEN_def frame_image_parts Let_def add.assoc)
qed

text \<open>A torn last frame is cut off.\<close>

lemma recover_frame_torn:
  assumes "quiet env" and "loggable opts batch" and "strict_prefix tail (batch_frame opts batch)" and "wal = pre @ tail"
  shows "recover_frames env opts wal (length pre) es = (pre, Ok es)"
proof -
  from assms(2) obtain payload where p: "batch_frame opts batch = frame_image payload"
    "length payload \<le> u32_max" "length payload \<le> max_frame_bytes opts"
    by (rule loggableE)
  from assms(3) p(1) obtain rest where rest: "frame_image payload = tail @ rest" "rest \<noteq> []"
    by (auto simp: strict_prefix_def prefix_def)
  have short: "length tail < 8 + length payload"
    using arg_cong [OF rest(1), of length] rest(2) by (simp add: frame_image_parts)
  show ?thesis
  proof (cases "length tail < 8")
    case True
    with assms(1,4) show ?thesis
      by (subst recover_frames.simps) (auto simp: read_quiet FRAME_HEADER_LEN_def truncate_tail_def)
  next
    case False
    have "take 4 tail = take 4 (frame_image payload)" using False rest(1) by simp
    then have "take 4 tail = le_bytes 4 (int (length payload))" by (simp add: frame_image_parts)
    with False short assms(1,4) p show ?thesis
      by (subst recover_frames.simps)
        (auto simp: read_quiet FRAME_HEADER_LEN_def truncate_tail_def Let_def min_def)
  qed
qed

text \<open>What a crash while appending can leave behind the complete frames.\<close>

definition torn_tail :: "RustLogOptions \<Rightarrow> bytes \<Rightarrow> bool" where
  "torn_tail opts tail \<longleftrightarrow> tail = [] \<or> (\<exists>batch. loggable opts batch \<and> strict_prefix tail (batch_frame opts batch))"

abbreviation frames :: "RustLogOptions \<Rightarrow> WriteBatch list \<Rightarrow> bytes" where
  "frames opts batches \<equiv> concat (map (batch_frame opts) batches)"

lemma recover_frames_log:
  assumes "quiet env" and "torn_tail opts tail"
  shows "list_all (loggable opts) batches \<Longrightarrow> wal = pre @ frames opts batches @ tail \<Longrightarrow>
    recover_frames env opts wal (length pre) es = (pre @ frames opts batches, Ok (replay es batches))"
proof (induction batches arbitrary: pre es)
  case Nil
  have "recover_frames env opts wal (length pre) es = (pre, Ok es)" if "tail = []"
    using Nil that assms(1) by (subst recover_frames.simps) (simp add: read_quiet FRAME_HEADER_LEN_def)
  then show ?case
    using Nil assms recover_frame_torn [OF assms(1), of opts _ tail wal pre es] by (auto simp: torn_tail_def)
next
  case (Cons batch batches)
  have "recover_frames env opts wal (length pre) es =
      recover_frames env opts wal (length (pre @ batch_frame opts batch)) (apply_batch es batch)"
    using recover_frame_step [OF assms(1), of opts batch wal pre "frames opts batches @ tail" es] Cons.prems by simp
  then show ?case
    using Cons.IH [of "pre @ batch_frame opts batch" "apply_batch es batch"] Cons.prems by simp
qed

lemma length_WAL_MAGIC [simp]: "length WAL_MAGIC = 8"
  by (simp add: WAL_MAGIC_def)

lemma recover_wal_log:
  assumes "quiet env" and "torn_tail opts tail" and "list_all (loggable opts) batches"
  shows "recover_wal env opts (WAL_MAGIC @ frames opts batches @ tail) es =
    (WAL_MAGIC @ frames opts batches, Ok (replay es batches))"
  using recover_frames_log [OF assms(1,2,3) refl, of WAL_MAGIC es] assms(1) by (simp add: recover_wal_def)

text \<open>A log file that lost even its header holds no batches.\<close>

lemma recover_wal_short:
  "quiet env \<Longrightarrow> length wal < 8 \<Longrightarrow> recover_wal env opts wal es = (WAL_MAGIC, Ok es)"
  by (simp add: recover_wal_def write_magic_def)

section \<open>Loading what was installed\<close>

definition options_ok :: "RustLogOptions \<Rightarrow> bool" where
  "options_ok opts \<longleftrightarrow> is_ok (validate_options opts) \<and> 4 \<le> max_snapshot_bytes opts \<and> max_snapshot_bytes opts \<le> usize_max"

lemma le_bytes_8_value [simp]: "n \<le> usize_max \<Longrightarrow> nat (le_value (le_bytes 8 (int n))) = n"
  by (simp add: le_value_le_bytes)

lemma load_snapshot_installed:
  assumes "quiet env" and "encode_snapshot es opts = Ok payload" and "bt_wf cmp_bytes es" and "options_ok opts"
  shows "load_snapshot env (Some (snapshot_image payload)) opts = Ok es"
proof -
  note e = encode_snapshot_Ok [OF assms(2)]
  have len: "length payload \<le> max_snapshot_bytes opts"
    using e(4,5) assms(4) by (cases "es = []") (auto simp: options_ok_def)
  then have "decode_snapshot payload opts = Ok es"
    using snapshot_codec [OF assms(2,3)] assms(4) by (simp add: options_ok_def)
  with len assms(1,4) show ?thesis
    by (simp add: load_snapshot_def quiet_def io_def snapshot_image_def SNAPSHOT_MAGIC_def SNAPSHOT_HEADER_LEN_def
        options_ok_def Let_def)
qed

lemma load_snapshot_quiet: "quiet env \<Longrightarrow> quiet env' \<Longrightarrow> load_snapshot env snapshot opts = load_snapshot env' snapshot opts"
proof -
  assume q: "quiet env" "quiet env'"
  then have "io env = io env'" "fails env = fails env'" by (simp_all add: fun_eq_iff quiet_def)
  then show ?thesis unfolding load_snapshot_def by metis
qed

section \<open>Reopening\<close>

text \<open>The files recover to \<open>es\<close>: any later open without I/O failures succeeds and holds \<open>es\<close>.\<close>

definition recovers_to :: "RustLogOptions \<Rightarrow> bytes option \<Rightarrow> bytes \<Rightarrow> entries \<Rightarrow> bool" where
  "recovers_to opts snapshot wal es \<longleftrightarrow>
     (\<forall>env. quiet env \<longrightarrow>
       (\<exists>s. snd (open_generation env snapshot wal opts) = Ok s \<and> rl_entries s = es \<and> rl_options s = opts))"

definition snapshot_holds :: "RustLogOptions \<Rightarrow> bytes option \<Rightarrow> entries \<Rightarrow> bool" where
  "snapshot_holds opts snapshot es \<longleftrightarrow>
     bt_wf cmp_bytes es \<and> (\<forall>env. quiet env \<longrightarrow> load_snapshot env snapshot opts = Ok es)"

definition log_inv :: "RustLog \<Rightarrow> bool" where
  "log_inv s \<longleftrightarrow>
     (\<exists>base batches. snapshot_holds (rl_options s) (rl_snapshot s) base \<and>
        list_all (loggable (rl_options s)) batches \<and>
        rl_wal s = WAL_MAGIC @ frames (rl_options s) batches \<and>
        rl_entries s = replay base batches)"

lemma log_inv_wf: "log_inv s \<Longrightarrow> bt_wf cmp_bytes (rl_entries s)"
  by (auto simp: log_inv_def snapshot_holds_def)

lemma recovers_to_log:
  assumes "options_ok opts" "snapshot_holds opts snapshot base" "list_all (loggable opts) batches" "torn_tail opts tail"
  shows "recovers_to opts snapshot (WAL_MAGIC @ frames opts batches @ tail) (replay base batches)"
  using assms unfolding recovers_to_def
  by (auto simp: open_generation_def options_ok_def snapshot_holds_def recover_wal_log is_ok_def split: sum.splits)

lemma recovers_to_short:
  assumes "options_ok opts" "snapshot_holds opts snapshot base" "length wal < 8"
  shows "recovers_to opts snapshot wal base"
  using assms unfolding recovers_to_def
  by (auto simp: open_generation_def options_ok_def snapshot_holds_def recover_wal_short is_ok_def split: sum.splits)

lemma log_inv_recovers:
  assumes "log_inv s" and "options_ok (rl_options s)"
  shows "recovers_to (rl_options s) (rl_snapshot s) (rl_wal s) (rl_entries s)"
proof -
  from assms(1) obtain base batches where "snapshot_holds (rl_options s) (rl_snapshot s) base"
    "list_all (loggable (rl_options s)) batches" "rl_wal s = WAL_MAGIC @ frames (rl_options s) batches"
    "rl_entries s = replay base batches" by (auto simp: log_inv_def)
  with recovers_to_log [OF assms(2), of "rl_snapshot s" base batches "[]"] show ?thesis
    by (simp add: torn_tail_def)
qed

text \<open>Installing a snapshot of the entries keeps the log replayable over it.\<close>

lemma snapshot_holds_installed:
  "options_ok opts \<Longrightarrow> bt_wf cmp_bytes es \<Longrightarrow> encode_snapshot es opts = Ok payload \<Longrightarrow>
   snapshot_holds opts (Some (snapshot_image payload)) es"
  by (simp add: snapshot_holds_def load_snapshot_installed)

lemma install_snapshot_cases:
  assumes "install_snapshot env snapshot es opts = (snapshot', r)"
  obtains (kept) e where "snapshot' = snapshot" "r = Err e"
  | (installed) payload where "encode_snapshot es opts = Ok payload" "snapshot' = Some (snapshot_image payload)"
proof (cases "encode_snapshot es opts")
  case (Inl e)
  with assms have "snapshot' = snapshot" "r = Err e" by (auto simp: install_snapshot_def)
  then show ?thesis by (rule kept)
next
  case (Inr payload)
  let ?io = "io_all env [SnapTempFile, SnapWriteMagic, SnapWriteLength, SnapWriteCrc, SnapWritePayload, SnapSyncAll, SnapRename]"
  show ?thesis
  proof (cases ?io)
    case io: (Inl e)
    with assms Inr have "snapshot' = snapshot" "r = Err e" by (simp_all add: install_snapshot_def)
    then show ?thesis by (rule kept)
  next
    case io: (Inr u)
    with assms Inr have "snapshot' = Some (snapshot_image payload)" by (simp add: install_snapshot_def)
    with Inr show ?thesis by (rule installed)
  qed
qed

lemma log_inv_new_snapshot:
  assumes "log_inv s" and "options_ok (rl_options s)" and "encode_snapshot (rl_entries s) (rl_options s) = Ok payload"
  shows "log_inv (s\<lparr> rl_snapshot := Some (snapshot_image payload) \<rparr>)"
proof -
  from assms(1) obtain base batches where b: "bt_wf cmp_bytes base" "list_all (loggable (rl_options s)) batches"
    "rl_wal s = WAL_MAGIC @ frames (rl_options s) batches" "rl_entries s = replay base batches"
    by (auto simp: log_inv_def snapshot_holds_def)
  then have "replay (rl_entries s) batches = rl_entries s" by (simp add: replay_idem)
  with b snapshot_holds_installed [OF assms(2) log_inv_wf [OF assms(1)] assms(3)] show ?thesis
    unfolding log_inv_def by (intro exI [of _ "rl_entries s"] exI [of _ batches]) simp
qed

section \<open>Compaction\<close>

lemma compact_fields:
  assumes "compact env s = (s', r)"
  shows "rl_entries s' = rl_entries s" "rl_options s' = rl_options s" "rl_market_entries s' = rl_market_entries s"
    "rl_poisoned s' = rl_poisoned s" "rl_closed s' = rl_closed s"
    "rl_maintenance_error s' = rl_maintenance_error s"
  using assms by (auto simp: compact_def Let_def split: sum.splits prod.splits)

text \<open>The states a compaction can end in.\<close>

lemma compact_cases:
  assumes "compact env s = (s', r)"
  obtains (kept) e where "s' = s" "r = Err e"
  | (installed) payload e where "encode_snapshot (rl_entries s) (rl_options s) = Ok payload"
      "s' = s\<lparr> rl_snapshot := Some (snapshot_image payload) \<rparr>" "r = Err e"
  | (cleared) payload wal e where "encode_snapshot (rl_entries s) (rl_options s) = Ok payload"
      "s' = s\<lparr> rl_snapshot := Some (snapshot_image payload), rl_wal := wal \<rparr>" "prefix wal WAL_MAGIC" "r = Err e"
  | (finished) payload where "encode_snapshot (rl_entries s) (rl_options s) = Ok payload"
      "s' = s\<lparr> rl_snapshot := Some (snapshot_image payload), rl_wal := WAL_MAGIC \<rparr>" "r = Ok ()"
proof (cases "ensure_usable s")
  case (Inl e)
  with assms have "s' = s" "r = Err e" by (simp_all add: compact_def)
  then show ?thesis by (rule kept)
next
  case (Inr u)
  obtain snapshot r1 where inst: "install_snapshot env (rl_snapshot s) (rl_entries s) (rl_options s) = (snapshot, r1)"
    by (cases "install_snapshot env (rl_snapshot s) (rl_entries s) (rl_options s)")
  from inst show ?thesis
  proof (cases rule: install_snapshot_cases)
    case kept1: (kept e)
    with assms Inr inst have "s' = s" "r = Err e" by (simp_all add: compact_def)
    then show ?thesis by (rule kept)
  next
    case inst1: (installed payload)
    let ?s = "s\<lparr> rl_snapshot := Some (snapshot_image payload) \<rparr>"
    show ?thesis
    proof (cases "and_then r1 (\<lambda>_. io env CompactSetLen)")
      case (Inl e)
      then consider "r1 = Err e" | "r1 = Ok ()" "io env CompactSetLen = Err e" by (cases r1) auto
      then have "s' = ?s \<and> r = Err e"
        using assms Inr inst inst1 by cases (auto simp: compact_def)
      with installed inst1 show ?thesis by blast
    next
      case clear: (Inr u')
      then have io: "r1 = Ok ()" "io env CompactSetLen = Ok ()" by (auto simp: and_then_Ok)
      have "\<exists>wal. s' = ?s\<lparr> rl_wal := wal \<rparr> \<and> prefix wal WAL_MAGIC \<and> (r = Ok () \<longrightarrow> wal = WAL_MAGIC)"
      proof (cases "io env CompactSeek")
        case (Inl e)
        with assms Inr inst inst1 io show ?thesis by (intro exI [of _ "[]"]) (auto simp: compact_def)
      next
        case (Inr u'')
        with assms \<open>ensure_usable s = Ok u\<close> inst inst1 io show ?thesis
          by (intro exI [of _ "fst (write_all env CompactWriteMagic [] WAL_MAGIC)"])
            (auto simp: compact_def write_all_def take_is_prefix split: option.splits)
      qed
      with cleared finished inst1 show ?thesis by (cases r) auto
    qed
  qed
qed

lemma compact_safe:
  assumes "log_inv s" and "options_ok (rl_options s)" and "compact env s = (s', r)"
  shows "recovers_to (rl_options s) (rl_snapshot s') (rl_wal s') (rl_entries s)" and "r = Ok () \<Longrightarrow> log_inv s'"
proof -
  note snap = snapshot_holds_installed [OF assms(2) log_inv_wf [OF assms(1)]]
  have short: "recovers_to (rl_options s) (Some (snapshot_image payload)) wal (rl_entries s)"
    if "encode_snapshot (rl_entries s) (rl_options s) = Ok payload" "prefix wal WAL_MAGIC" for payload wal
  proof (cases "length wal < 8")
    case True
    then show ?thesis by (rule recovers_to_short [OF assms(2) snap [OF that(1)]])
  next
    case False
    from that(2) obtain zs where zs: "WAL_MAGIC = wal @ zs" by (auto simp: prefix_def)
    then have "8 = length wal + length zs" by (metis length_WAL_MAGIC length_append)
    with False have "zs = []" by simp
    with zs have "wal = WAL_MAGIC" by simp
    then show ?thesis
      using recovers_to_log [OF assms(2) snap [OF that(1)], of "[]" "[]"] by (simp add: torn_tail_def)
  qed
  have "recovers_to (rl_options s) (rl_snapshot s') (rl_wal s') (rl_entries s) \<and> (r = Ok () \<longrightarrow> log_inv s')"
    using assms(3)
  proof (cases rule: compact_cases)
    case (kept e)
    then show ?thesis using log_inv_recovers [OF assms(1,2)] by simp
  next
    case (installed payload e)
    then show ?thesis
      using log_inv_recovers [OF log_inv_new_snapshot [OF assms(1,2) installed(1)]] assms(2) by simp
  next
    case (cleared payload wal e)
    then show ?thesis using short by simp
  next
    case (finished payload)
    then have "log_inv s'"
      unfolding log_inv_def using snap [OF finished(1)] by (intro exI [of _ "rl_entries s"] exI [of _ "[]"]) simp
    with finished short [OF finished(1)] show ?thesis by simp
  qed
  then show "recovers_to (rl_options s) (rl_snapshot s') (rl_wal s') (rl_entries s)" and "r = Ok () \<Longrightarrow> log_inv s'"
    by simp_all
qed

section \<open>Writing\<close>

lemma write_maintenance_safe:
  assumes "log_inv s" and "options_ok (rl_options s)" and "s' = write_maintenance env faults s"
  shows "rl_entries s' = rl_entries s" and "rl_options s' = rl_options s"
    and "recovers_to (rl_options s) (rl_snapshot s') (rl_wal s') (rl_entries s)"
    and "rl_maintenance_error s' = None \<Longrightarrow> log_inv s'"
proof -
  note rec = log_inv_recovers [OF assms(1,2)]
  have upd: "log_inv (s\<lparr> rl_maintenance_error := x \<rparr>)" for x
    using assms(1) by (simp add: log_inv_def)
  consider (same) x where "s' = s\<lparr> rl_maintenance_error := x \<rparr>"
    | (finished) c where "compact env s = (c, Ok ())" "s' = c"
    | (failed) c e where "compact env s = (c, Err e)" "s' = c\<lparr> rl_maintenance_error := Some e \<rparr>"
  proof -
    have same': ?thesis if "s' = s" using that same [of "rl_maintenance_error s"] by simp
    let ?meta = "and_then (before faults Metadata) (\<lambda>_. io env WalMetadata)"
    let ?due = "compact_after_bytes (rl_options s) > 0 \<and> length (rl_wal s) \<ge> compact_after_bytes (rl_options s)"
    note unf = assms(3) [unfolded write_maintenance_def]
    consider e where "?meta = Err e" | "?meta = Ok ()" "\<not> ?due"
      | e where "?meta = Ok ()" ?due "before faults Compaction = Err e"
      | "?meta = Ok ()" ?due "before faults Compaction = Ok ()"
      by (cases ?meta; cases "before faults Compaction"; cases ?due) auto
    then show ?thesis
    proof cases
      case (1 e)
      then show ?thesis using unf same by simp
    next
      case 2
      then have "s' = s" using unf by auto
      then show ?thesis by (rule same')
    next
      case (3 e)
      then show ?thesis using unf same by simp
    next
      case 4
      obtain c r where c: "compact env s = (c, r)" by (cases "compact env s")
      with 4 unf finished failed show ?thesis by (cases r) simp_all
    qed
  qed
  then have "rl_entries s' = rl_entries s \<and> rl_options s' = rl_options s \<and>
    recovers_to (rl_options s) (rl_snapshot s') (rl_wal s') (rl_entries s) \<and>
    (rl_maintenance_error s' = None \<longrightarrow> log_inv s')"
  proof cases
    case (same x)
    with rec upd show ?thesis by simp
  next
    case (finished c)
    with compact_safe [OF assms(1,2)] compact_fields show ?thesis by blast
  next
    case (failed c e)
    with compact_safe(1) [OF assms(1,2)] compact_fields [of env s c] show ?thesis by simp
  qed
  then show "rl_entries s' = rl_entries s" and "rl_options s' = rl_options s"
    and "recovers_to (rl_options s) (rl_snapshot s') (rl_wal s') (rl_entries s)"
    and "rl_maintenance_error s' = None \<Longrightarrow> log_inv s'" by simp_all
qed

text \<open>What is in the log when the append has failed: part of the frame, or all of it.\<close>

lemma append_frame_wal:
  assumes "append_frame env faults frame s = (s', r)"
  shows "\<exists>n. s' = s\<lparr> rl_wal := rl_wal s @ take n frame \<rparr>" and "r = Ok () \<Longrightarrow> s' = s\<lparr> rl_wal := rl_wal s @ frame \<rparr>"
proof -
  have "(\<exists>n. s' = s\<lparr> rl_wal := rl_wal s @ take n frame \<rparr>) \<and> (r = Ok () \<longrightarrow> s' = s\<lparr> rl_wal := rl_wal s @ frame \<rparr>)"
  proof (cases "before faults Append")
    case (Inl e)
    with assms show ?thesis by (auto simp: append_frame_def intro!: exI [of _ 0])
  next
    case (Inr u)
    show ?thesis
    proof (cases "fails env WalWrite")
      case None
      with assms Inr show ?thesis
        by (auto simp: append_frame_def write_all_def intro!: exI [of _ "length frame"])
    next
      case (Some e)
      with assms Inr show ?thesis by (auto simp: append_frame_def write_all_def)
    qed
  qed
  then show "\<exists>n. s' = s\<lparr> rl_wal := rl_wal s @ take n frame \<rparr>"
    and "r = Ok () \<Longrightarrow> s' = s\<lparr> rl_wal := rl_wal s @ frame \<rparr>" by simp_all
qed

lemma rollback_wal_cases:
  assumes "rollback_wal env faults n s = (s', r)"
  shows "s' = s \<and> (\<exists>e. r = Err e) \<or> s' = s\<lparr> rl_wal := take n (rl_wal s) \<rparr>"
proof (cases "and_then (before faults Truncate) (\<lambda>_. io env RollbackSetLen)")
  case (Inl e)
  with assms have "s' = s" "r = Err e" by (simp_all add: rollback_wal_def)
  then show ?thesis by simp
next
  case (Inr u)
  with assms show ?thesis by (simp add: rollback_wal_def)
qed

text \<open>The outcomes of a write.\<close>

lemma write_cases:
  assumes "write_with_faults env faults batch s = (s', r)"
  obtains (refused) e where "s' = s" "r = Err e"
  | (empty) "batch = []" "s' = s" "r = Ok ()"
  | (poisoned) n where "loggable (rl_options s) batch" "r = Err Poisoned"
      "s' = s\<lparr> rl_wal := rl_wal s @ take n (batch_frame (rl_options s) batch), rl_poisoned := True \<rparr>"
  | (finished) "loggable (rl_options s) batch" "r = Ok ()"
      "s' = write_maintenance env faults (s\<lparr> rl_wal := rl_wal s @ batch_frame (rl_options s) batch,
          rl_market_entries := apply_market_batch (rl_market_entries s) batch,
          rl_entries := apply_batch (rl_entries s) batch \<rparr>)"
proof (cases "and_then (ensure_usable s) (\<lambda>_. if batch = [] then Ok [] else
    and_then (encode_batch batch (rl_options s)) (\<lambda>payload. and_then (encode_frame payload) (\<lambda>frame.
      and_then (io env WalSeekEnd) (\<lambda>_. Ok frame))))")
  case (Inl e)
  then have "s' = s \<and> r = Err e"
    using assms by (cases "ensure_usable s") (auto simp: write_with_faults_def split: if_splits)
  with refused show ?thesis by blast
next
  case (Inr frame)
  then have us: "ensure_usable s = Ok ()" by (auto simp: and_then_Ok)
  show ?thesis
  proof (cases "batch = []")
    case True
    with us assms empty show ?thesis by (simp add: write_with_faults_def)
  next
    case False
    with Inr obtain payload where p: "encode_batch batch (rl_options s) = Ok payload" "length payload \<le> u32_max"
      "frame = frame_image payload" "io env WalSeekEnd = Ok ()"
      by (auto simp: and_then_Ok encode_frame_Ok)
    then have lg: "loggable (rl_options s) batch" and fr: "frame = batch_frame (rl_options s) batch"
      using False by (simp_all add: loggable_def batch_frame_def)
    obtain s1 r1 where ap: "append_frame env faults frame s = (s1, r1)" by (cases "append_frame env faults frame s")
    from append_frame_wal(1) [OF ap] obtain n where s1: "s1 = s\<lparr> rl_wal := rl_wal s @ take n frame \<rparr>" ..
    note unf = write_with_faults_def [of env faults batch s]
    have enc: "encode_frame payload = Ok frame" using p by (simp add: encode_frame_Ok)
    show ?thesis
    proof (cases r1)
      case (Inr u)
      have "s1 = s\<lparr> rl_wal := rl_wal s @ frame \<rparr>" using append_frame_wal(2) [OF ap] Inr by simp
      with assms us False p enc ap Inr lg fr finished show ?thesis by (simp add: unf)
    next
      case (Inl e)
      obtain s2 r2 where rb: "rollback_wal env faults (length (rl_wal s)) s1 = (s2, r2)"
        by (cases "rollback_wal env faults (length (rl_wal s)) s1")
      have full: "s\<lparr> rl_wal := take (length (rl_wal s)) (rl_wal s1) \<rparr> = s" using s1 by simp
      from rollback_wal_cases [OF rb] s1 full have s2: "s2 = s1 \<and> (\<exists>e. r2 = Err e) \<or> s2 = s" by auto
      show ?thesis
      proof (cases r2)
        case err: (Inl e')
        have res: "s' = s2\<lparr> rl_poisoned := True \<rparr>" "r = Err Poisoned"
          using assms us False p enc ap Inl rb err by (simp_all add: unf)
        have "\<exists>m. s' = s\<lparr> rl_wal := rl_wal s @ take m frame, rl_poisoned := True \<rparr>"
          using s2 res(1) s1 by (auto intro: exI [of _ 0])
        with poisoned lg fr res(2) show ?thesis by blast
      next
        case ok: (Inr u)
        have "s' = s2" "r = Err e"
          using assms us False p enc ap Inl rb ok by (simp_all add: unf)
        with s2 ok refused show ?thesis by auto
      qed
    qed
  qed
qed

lemma torn_or_whole: "loggable opts batch \<Longrightarrow> torn_tail opts (take n (batch_frame opts batch)) \<or> take n (batch_frame opts batch) = batch_frame opts batch"
  by (cases "take n (batch_frame opts batch) = batch_frame opts batch")
    (auto simp: torn_tail_def strict_prefix_def take_is_prefix)

lemma log_inv_append:
  assumes "log_inv s" and "loggable (rl_options s) batch"
  shows "log_inv (s\<lparr> rl_wal := rl_wal s @ batch_frame (rl_options s) batch, rl_market_entries := index,
    rl_entries := apply_batch (rl_entries s) batch \<rparr>)"
proof -
  from assms(1) obtain base batches where "snapshot_holds (rl_options s) (rl_snapshot s) base"
    "list_all (loggable (rl_options s)) batches" "rl_wal s = WAL_MAGIC @ frames (rl_options s) batches"
    "rl_entries s = replay base batches" by (auto simp: log_inv_def)
  with assms(2) show ?thesis
    unfolding log_inv_def by (intro exI [of _ base] exI [of _ "batches @ [batch]"]) simp
qed

lemma poisoned_recovers:
  assumes "log_inv s" and "options_ok (rl_options s)" and "loggable (rl_options s) batch"
  shows "\<exists>es\<in>{rl_entries s, apply_batch (rl_entries s) batch}.
    recovers_to (rl_options s) (rl_snapshot s) (rl_wal s @ take n (batch_frame (rl_options s) batch)) es"
proof -
  from assms(1) obtain base batches where b: "snapshot_holds (rl_options s) (rl_snapshot s) base"
    "list_all (loggable (rl_options s)) batches" "rl_wal s = WAL_MAGIC @ frames (rl_options s) batches"
    "rl_entries s = replay base batches" by (auto simp: log_inv_def)
  from torn_or_whole [OF assms(3), of n] show ?thesis
  proof
    assume "torn_tail (rl_options s) (take n (batch_frame (rl_options s) batch))"
    with b recovers_to_log [OF assms(2) b(1,2)] show ?thesis by simp
  next
    assume "take n (batch_frame (rl_options s) batch) = batch_frame (rl_options s) batch"
    with log_inv_recovers [OF log_inv_append [OF assms(1,3)]] assms(2) show ?thesis by simp
  qed
qed

text \<open>The entries in memory after a write, whatever the files do.\<close>

lemma write_maintenance_entries: "rl_entries (write_maintenance env faults s) = rl_entries s"
proof -
  obtain c r where c: "compact env s = (c, r)" by (cases "compact env s")
  note f = compact_fields [OF c]
  show ?thesis
    by (cases "and_then (before faults Metadata) (\<lambda>_. io env WalMetadata)"; cases "before faults Compaction"; cases r)
      (simp_all add: write_maintenance_def c f)
qed

lemma write_maintenance_usable: "ensure_usable (write_maintenance env faults s) = ensure_usable s"
proof -
  obtain c r where c: "compact env s = (c, r)" by (cases "compact env s")
  note f = compact_fields [OF c]
  show ?thesis
    by (cases "and_then (before faults Metadata) (\<lambda>_. io env WalMetadata)"; cases "before faults Compaction"; cases r)
      (simp_all add: write_maintenance_def c f ensure_usable_def)
qed

lemma write_entries:
  assumes "write_with_faults env faults batch s = (s', r)"
  shows "rl_entries s' = (if is_ok r then apply_batch (rl_entries s) batch else rl_entries s)"
  using assms by (cases rule: write_cases) (simp_all add: write_maintenance_entries)

section \<open>Properties\<close>

text \<open>C9: crash recovery of the log. Whatever complete frames the log holds, and whatever
  proper part of one more frame a crash left at its end, recovery replays exactly the
  complete frames in order, cuts the torn part off and returns without error; short reads
  of the operating system make no difference.\<close>

theorem recover_wal_crash:
  assumes "quiet env" and "list_all (loggable opts) batches"
    and "tail = [] \<or> loggable opts batch \<and> strict_prefix tail (batch_frame opts batch)"
  shows "recover_wal env opts (WAL_MAGIC @ concat (map (batch_frame opts) batches) @ tail) es =
    (WAL_MAGIC @ concat (map (batch_frame opts) batches), Ok (apply_batch es (concat batches)))"
  using recover_wal_log [OF assms(1) _ assms(2), of tail es] assms(3)
  by (auto simp: torn_tail_def replay_def)

text \<open>C8: one write is atomic and durable on a handle whose options are valid and whose files replay
  to its entries (\<open>log_inv\<close>: true of a fresh store, kept by every write that leaves neither a maintenance
  error nor poison), whatever I/O calls and injected faults fail during this write, its own
  compaction included. If it returns \<open>Ok\<close>, the handle holds the batch and
  reopening the files gives exactly these entries. If it fails, the handle still holds the
  old entries, it is unchanged unless it was poisoned, and reopening gives the entries
  before or after the whole batch, never a part of it. Nothing is claimed of a second write after
  a failed compaction, where \<open>log_inv\<close> no longer holds.\<close>

theorem write_atomic_durable:
  assumes "log_inv s" and "options_ok (rl_options s)" and "write_with_faults env faults batch s = (s', r)"
  shows "case r of
      Ok _ \<Rightarrow> rl_entries s' = apply_batch (rl_entries s) batch \<and>
        recovers_to (rl_options s) (rl_snapshot s') (rl_wal s') (rl_entries s')
    | Err _ \<Rightarrow> rl_entries s' = rl_entries s \<and> (s' = s \<or> rl_poisoned s') \<and>
        (recovers_to (rl_options s) (rl_snapshot s') (rl_wal s') (rl_entries s) \<or>
         recovers_to (rl_options s) (rl_snapshot s') (rl_wal s') (apply_batch (rl_entries s) batch))"
  using assms(3)
proof (cases rule: write_cases)
  case (refused e)
  with log_inv_recovers [OF assms(1,2)] show ?thesis by simp
next
  case empty
  with log_inv_recovers [OF assms(1,2)] show ?thesis by simp
next
  case (poisoned n)
  with poisoned_recovers [OF assms(1,2) poisoned(1), of n] show ?thesis by auto
next
  case finished
  let ?s1 = "s\<lparr> rl_wal := rl_wal s @ batch_frame (rl_options s) batch,
      rl_market_entries := apply_market_batch (rl_market_entries s) batch,
      rl_entries := apply_batch (rl_entries s) batch \<rparr>"
  note inv = log_inv_append [OF assms(1) finished(1), of "apply_market_batch (rl_market_entries s) batch"]
  have "options_ok (rl_options ?s1)" using assms(2) by simp
  from write_maintenance_safe [OF inv this finished(3)] finished(2) show ?thesis by simp
qed

text \<open>C10: the handle invariant, that the files replay to the entries in memory, survives every
  write that reports no pending maintenance error and does not poison the handle.\<close>

theorem write_preserves_inv:
  assumes "log_inv s" and "options_ok (rl_options s)" and "write_with_faults env faults batch s = (s', r)"
    and "rl_maintenance_error s' = None" and "\<not> rl_poisoned s'"
  shows "log_inv s'"
  using assms(3)
proof (cases rule: write_cases)
  case finished
  note inv = log_inv_append [OF assms(1) finished(1), of "apply_market_batch (rl_market_entries s) batch"]
  show ?thesis by (rule write_maintenance_safe(4) [OF inv _ finished(3) assms(4)]) (use assms(2) in simp)
qed (use assms in auto)

section \<open>Concrete runs\<close>

definition calm_os :: os where
  "calm_os = \<lparr> fails = (\<lambda>_. None), torn = (\<lambda>_. 0), chunk = (\<lambda>_. 0) \<rparr>"

definition failing_os :: "IoCall set \<Rightarrow> nat \<Rightarrow> os" where
  "failing_os calls n =
     \<lparr> fails = (\<lambda>c. if c \<in> calls then Some (IoError OtherKind None) else None), torn = (\<lambda>_. n), chunk = (\<lambda>_. 0) \<rparr>"

definition fresh_log :: "RustLogOptions \<Rightarrow> RustLog" where
  "fresh_log opts =
     \<lparr> rl_snapshot = None, rl_options = opts, rl_entries = [], rl_market_entries = [], rl_wal = WAL_MAGIC,
       rl_lock = True, rl_closed = False, rl_poisoned = False, rl_maintenance_error = None \<rparr>"

lemma quiet_calm [simp]: "quiet calm_os"
  by (simp add: quiet_def calm_os_def)

lemma log_inv_fresh: "log_inv (fresh_log opts)"
  unfolding log_inv_def
  by (intro exI [of _ "[]"] exI [of _ "[]"])
    (simp add: fresh_log_def snapshot_holds_def load_snapshot_def quiet_def)

lemma demo_options_ok: "options_ok demo_options"
  by (simp add: options_ok_def demo_options_def validate_options_def)

lemmas encode_eval = encode_batch_def encode_snapshot_def check_limit_def push_u32_def encode_bytes_def le_bytes_4

lemma recover_wal_crash_witness:
  "recover_wal calm_os demo_options
     (WAL_MAGIC @ concat (map (batch_frame demo_options) [[Put [7] [8, 9]]]) @ take 3 (batch_frame demo_options [Delete [7]])) [] =
   (WAL_MAGIC @ concat (map (batch_frame demo_options) [[Put [7] [8, 9]]]), Ok [([7], [8, 9])])"
proof -
  have l: "loggable demo_options [Put [7] [8, 9]]" "loggable demo_options [Delete [7]]"
    by (simp_all add: loggable_def encode_eval demo_options_def)
  have "strict_prefix (take 3 (batch_frame demo_options [Delete [7]])) (batch_frame demo_options [Delete [7]])"
    by (simp add: batch_frame_def encode_eval demo_options_def frame_image_def)
  then show ?thesis
    using recover_wal_crash [of calm_os demo_options "[[Put [7] [8, 9]]]" _ "[Delete [7]]" "[]"] l by simp
qed

lemma write_atomic_durable_witness:
  "recovers_to demo_options
     (rl_snapshot (fst (write_with_faults calm_os no_faults [Put [7] [8, 9]] (fresh_log demo_options))))
     (rl_wal (fst (write_with_faults calm_os no_faults [Put [7] [8, 9]] (fresh_log demo_options)))) [([7], [8, 9])]"
proof -
  let ?w = "write_with_faults calm_os no_faults [Put [7] [8, 9]] (fresh_log demo_options)"
  have o: "rl_options (fresh_log demo_options) = demo_options" "rl_entries (fresh_log demo_options) = []"
    by (simp_all add: fresh_log_def)
  have "snd ?w = Ok ()"
    by (simp add: write_with_faults_def ensure_usable_def fresh_log_def encode_eval demo_options_def
        encode_frame_def append_frame_def before_def no_faults_def)
  then show ?thesis
    using write_atomic_durable [OF log_inv_fresh, of demo_options calm_os no_faults "[Put [7] [8, 9]]" "fst ?w" "snd ?w"]
    by (auto simp: o demo_options_ok prod_eq_iff)
qed

lemma write_preserves_inv_witness:
  "log_inv (fst (write_with_faults calm_os no_faults [Put [7] [8, 9]] (fresh_log demo_options)))"
proof -
  let ?w = "write_with_faults calm_os no_faults [Put [7] [8, 9]] (fresh_log demo_options)"
  have "rl_maintenance_error (fst ?w) = None" "\<not> rl_poisoned (fst ?w)"
    by (simp_all add: write_with_faults_def ensure_usable_def fresh_log_def encode_eval demo_options_def
        encode_frame_def append_frame_def before_def no_faults_def write_maintenance_def)
  then show ?thesis
    using write_preserves_inv [OF log_inv_fresh, of demo_options calm_os no_faults "[Put [7] [8, 9]]" "fst ?w" "snd ?w"]
    by (simp add: fresh_log_def demo_options_ok)
qed

lemma io_failing [simp]:
  "io (failing_os calls n) c = (if c \<in> calls then Err (Io (IoError OtherKind None)) else Ok ())"
  by (simp add: io_def failing_os_def storage_error_of_io_def)

lemma write_all_failing [simp]:
  "write_all (failing_os calls n) c content buffer =
     (if c \<in> calls then (content @ take n buffer, Err (Io (IoError OtherKind None))) else (content @ buffer, Ok ()))"
  by (simp add: write_all_def failing_os_def storage_error_of_io_def)

lemma before_no_faults [simp]: "before no_faults phase = Ok ()"
  by (simp add: before_def no_faults_def)

definition demo_compacting :: RustLogOptions where
  "demo_compacting = demo_options\<lparr> compact_after_bytes := 32 \<rparr>"

definition demo_snapshot :: bytes where
  "demo_snapshot = [1, 0, 0, 0, 1, 0, 0, 0, 7, 2, 0, 0, 0, 8, 9]"

lemma demo_encode_snapshot: "encode_snapshot [([7], [8, 9])] demo_compacting = Ok demo_snapshot"
  by (simp add: demo_compacting_def demo_options_def demo_snapshot_def encode_eval)

definition demo_stuck :: RustLog where
  "demo_stuck = (fresh_log demo_compacting)\<lparr> rl_snapshot := Some (snapshot_image demo_snapshot),
     rl_entries := [([7], [8, 9])], rl_wal := [], rl_maintenance_error := Some (Io (IoError OtherKind None)) \<rparr>"

lemma demo_first_write:
  "write_with_faults (failing_os {CompactWriteMagic} 0) no_faults [Put [7] [8, 9]] (fresh_log demo_compacting) =
     (demo_stuck, Ok ())"
proof -
  let ?p = "[1, 0, 0, 0, 0, 1, 0, 0, 0, 7, 2, 0, 0, 0, 8, 9] :: bytes"
  have enc: "encode_batch [Put [7] [8, 9]] demo_compacting = Ok ?p"
    by (simp add: demo_compacting_def demo_options_def encode_eval)
  have frame: "encode_frame ?p = Ok (frame_image ?p)" by (simp add: encode_frame_Ok)
  have len: "length (frame_image ?p) = 24" by (simp add: frame_image_parts)
  have idx: "apply_market_batch [] [Put [7] [8, 9]] = []"
    by (simp add: apply_market_batch_def apply_market_operation_def split_market_physical_key_def)
  have opts: "compact_after_bytes demo_compacting = 32" "sync_on_write demo_compacting"
    by (simp_all add: demo_compacting_def demo_options_def)
  show ?thesis
    by (simp add: write_with_faults_def fresh_log_def ensure_usable_def enc frame append_frame_def
        write_maintenance_def len idx opts compact_def install_snapshot_def demo_encode_snapshot io_all.simps demo_stuck_def)
qed

lemma wal_magic_head: "take 4 WAL_MAGIC = le_bytes 4 1196379218"
  by (simp add: WAL_MAGIC_def str_bytes_def le_bytes_4)

lemma frame_not_magic:
  assumes "loggable opts batch" "length (batch_frame opts batch) < 2 ^ 30"
  shows "take 8 (batch_frame opts batch) \<noteq> WAL_MAGIC"
proof
  assume eq: "take 8 (batch_frame opts batch) = WAL_MAGIC"
  from assms(1) obtain payload where p: "batch_frame opts batch = frame_image payload" "length payload \<le> u32_max" by (rule loggableE)
  have "take 4 (take 8 (batch_frame opts batch)) = le_bytes 4 (int (length payload))" by (simp add: p(1) frame_image_def)
  then have "le_bytes 4 (int (length payload)) = le_bytes 4 (int 1196379218)" using wal_magic_head eq by simp
  then have "nat (le_value (le_bytes 4 (int (length payload)))) = nat (le_value (le_bytes 4 (int 1196379218)))" by (simp only:)
  then have "length payload = 1196379218" using le_value_u32 [OF p(2)] le_value_u32 [of 1196379218] by simp
  then show False using assms(2) by (simp add: p(1) frame_image_parts)
qed

text \<open>A write without failures that leaves the log below the compaction threshold.\<close>

lemma write_undisturbed:
  assumes "quiet env" "ensure_usable s = Ok ()" "loggable (rl_options s) batch"
    and "compact_after_bytes (rl_options s) = 0 \<or> length (rl_wal s @ batch_frame (rl_options s) batch) < compact_after_bytes (rl_options s)"
  shows "\<exists>s'. write_with_faults env no_faults batch s = (s', Ok ()) \<and> rl_entries s' = apply_batch (rl_entries s) batch \<and>
    rl_snapshot s' = rl_snapshot s \<and> rl_wal s' = rl_wal s @ batch_frame (rl_options s) batch"
proof -
  from assms(3) obtain payload where p: "encode_batch batch (rl_options s) = Ok payload" "batch_frame (rl_options s) batch = frame_image payload" "length payload \<le> u32_max"
    by (rule loggableE)
  have "encode_frame payload = Ok (frame_image payload)" "batch \<noteq> []" using p(3) assms(3) by (simp_all add: encode_frame_Ok loggable_def)
  then show ?thesis using assms p
    by (auto simp: write_with_faults_def append_frame_def write_maintenance_def Let_def)
qed

lemma empty_log_after_write:
  assumes "log_inv s" "options_ok (rl_options s)" "write_with_faults env faults batch s = (s1, Ok ())" "rl_wal s1 = []"
  shows "rl_options s1 = rl_options s \<and> ensure_usable s1 = Ok () \<and> recovers_to (rl_options s) (rl_snapshot s1) [] (rl_entries s1)"
  using assms(3)
proof (cases rule: write_cases)
  case empty
  then show ?thesis using assms(1,4) by (auto simp: log_inv_def WAL_MAGIC_def str_bytes_def)
next
  case finished
  let ?s = "s\<lparr> rl_wal := rl_wal s @ batch_frame (rl_options s) batch, rl_market_entries := apply_market_batch (rl_market_entries s) batch,
      rl_entries := apply_batch (rl_entries s) batch \<rparr>"
  have "ensure_usable s = Ok ()" using assms(3) by (cases "ensure_usable s") (auto simp: write_with_faults_def)
  then have "ensure_usable ?s = Ok ()" by (simp add: ensure_usable_def split: if_splits)
  then have us: "ensure_usable s1 = Ok ()" using finished(3) write_maintenance_usable by metis
  note inv = log_inv_append [OF assms(1) finished(1), of "apply_market_batch (rl_market_entries s) batch"]
  have "options_ok (rl_options ?s)" using assms(2) by simp
  from write_maintenance_safe [OF inv this finished(3)] us assms(4) show ?thesis by simp
qed simp_all

lemma headerless_open:
  assumes "quiet env" "recovers_to opts snapshot [] es" "take 8 wal \<noteq> WAL_MAGIC" "8 \<le> length wal"
  shows "snd (open_generation env snapshot wal opts) = Err (Corruption InvalidWalHeader)"
proof -
  obtain s where "snd (open_generation env snapshot [] opts) = Ok s" using assms(1,2) unfolding recovers_to_def by blast
  then obtain es' where "validate_options opts = Ok ()" "load_snapshot env snapshot opts = Ok es'"
    by (auto simp: open_generation_def and_then_Ok split: sum.splits)
  then show ?thesis using assms(1,3,4) by (auto simp: open_generation_def recover_wal_def)
qed

lemma frame_length_8: "loggable opts batch \<Longrightarrow> 8 \<le> length (batch_frame opts batch)"
  by (elim loggableE) (simp add: frame_image_parts)

text \<open>C37: a compaction that fails after it truncated the log and before it rewrote any byte of the log header
  loses the next write. Let a write on a handle in good order (\<open>log_inv\<close>, valid options) return \<open>Ok\<close> and leave
  the log empty, which only such a compaction does. Then every next write that can be logged, meets no I/O failure and
  whose frame, shorter than a gibibyte, does not itself reach the compaction threshold returns \<open>Ok\<close> and holds the
  batch in memory, but every later open of the files fails with \<open>InvalidWalHeader\<close>.\<close>

theorem compaction_failure_loses_log:
  assumes "log_inv s" "options_ok (rl_options s)" "write_with_faults env faults batch s = (s1, Ok ())" "rl_wal s1 = []"
    and "quiet env2" "loggable (rl_options s) batch2" "length (batch_frame (rl_options s) batch2) < compact_after_bytes (rl_options s)"
    and "length (batch_frame (rl_options s) batch2) < 2 ^ 30"
  shows "\<exists>s2. write_with_faults env2 no_faults batch2 s1 = (s2, Ok ()) \<and> rl_entries s2 = apply_batch (rl_entries s1) batch2 \<and>
    (\<forall>env3. quiet env3 \<longrightarrow> snd (open_generation env3 (rl_snapshot s2) (rl_wal s2) (rl_options s)) = Err (Corruption InvalidWalHeader))"
proof -
  have s1: "rl_options s1 = rl_options s \<and> ensure_usable s1 = Ok () \<and> recovers_to (rl_options s) (rl_snapshot s1) [] (rl_entries s1)"
    by (rule empty_log_after_write [OF assms(1-4)])
  then obtain s2 where s2: "write_with_faults env2 no_faults batch2 s1 = (s2, Ok ())" "rl_entries s2 = apply_batch (rl_entries s1) batch2"
      "rl_snapshot s2 = rl_snapshot s1" "rl_wal s2 = batch_frame (rl_options s) batch2"
    using write_undisturbed [OF assms(5), of s1 batch2] assms(4,6,7) by auto
  have "snd (open_generation env3 (rl_snapshot s2) (rl_wal s2) (rl_options s)) = Err (Corruption InvalidWalHeader)" if "quiet env3" for env3
    using headerless_open [OF that conjunct2 [OF conjunct2 [OF s1]] frame_not_magic [OF assms(6,8)] frame_length_8 [OF assms(6)]] by (simp add: s2(3,4))
  with s2 show ?thesis by blast
qed

lemma compaction_failure_loses_log_witness:
  "\<exists>s2. write_with_faults calm_os no_faults [Delete [7]] demo_stuck = (s2, Ok ()) \<and> rl_entries s2 = [] \<and>
    snd (open_generation calm_os (rl_snapshot s2) (rl_wal s2) demo_compacting) = Err (Corruption InvalidWalHeader)"
proof -
  have o: "rl_options (fresh_log demo_compacting) = demo_compacting" by (simp add: fresh_log_def)
  have ok: "options_ok demo_compacting"
    by (simp add: options_ok_def demo_compacting_def demo_options_def validate_options_def)
  have lg: "loggable demo_compacting [Delete [7]]" "length (batch_frame demo_compacting [Delete [7]]) = 18" "compact_after_bytes demo_compacting = 32"
    by (simp_all add: loggable_def batch_frame_def encode_eval demo_compacting_def demo_options_def frame_image_parts)
  have wal: "rl_wal demo_stuck = []" by (simp add: demo_stuck_def)
  show ?thesis
    using compaction_failure_loses_log [OF log_inv_fresh, of demo_compacting "failing_os {CompactWriteMagic} 0" no_faults "[Put [7] [8, 9]]" demo_stuck calm_os "[Delete [7]]"]
      demo_first_write ok lg wal by (auto simp: o demo_stuck_def bt_remove_def)
qed

end
