(* ===== verification/Rust_Log_Queries.thy ===== *)
theory Rust_Log_Queries
  imports Rust_Log
begin

text \<open>
  Reading side of \<open>tron-storage/src/lib.rs\<close>: the bidirectional \<open>OrderedIterator\<close>, the prefix
  and range scans of the open handle, its shutdown, and the price-sorted reference query.
\<close>

section \<open>OrderedIterator\<close>

record OrderedIterator =
  it_entries :: entries
  it_position :: "nat option"
  it_exhausted :: bool

type_synonym iter_step = "OrderedIterator \<Rightarrow> OrderedIterator \<times> (bytes \<times> bytes) option"

definition iterator_new :: "entries \<Rightarrow> OrderedIterator" where
  "iterator_new es = \<lparr> it_entries = es, it_position = None, it_exhausted = False \<rparr>"

definition iterator :: "RustLog \<Rightarrow> OrderedIterator" where
  "iterator s = iterator_new (rl_entries s)"

definition current :: "OrderedIterator \<Rightarrow> (bytes \<times> bytes) option" where
  "current it =
     (case it_position it of
        None \<Rightarrow> None
      | Some index \<Rightarrow> if index < length (it_entries it) then Some (it_entries it ! index) else None)"

definition reposition :: "nat option \<Rightarrow> iter_step" where
  "reposition p it =
     (let it = it\<lparr> it_position := p, it_exhausted := (p = None) \<rparr> in (it, current it))"

definition first_entry :: iter_step where
  "first_entry it = reposition (if it_entries it \<noteq> [] then Some 0 else None) it"

definition checked_sub1 :: "nat \<Rightarrow> nat option" where
  "checked_sub1 n = (if 1 \<le> n then Some (n - 1) else None)"

definition last_entry :: iter_step where
  "last_entry it = reposition (checked_sub1 (length (it_entries it))) it"

definition partition_point :: "('a \<Rightarrow> bool) \<Rightarrow> 'a list \<Rightarrow> nat" where
  "partition_point P xs = length (takeWhile P xs)"

definition seek_entry :: "bytes \<Rightarrow> iter_step" where
  "seek_entry target it =
     (let index = partition_point (\<lambda>e. cmp_bytes (fst e) target = Less) (it_entries it)
      in reposition (if index < length (it_entries it) then Some index else None) it)"

definition next_entry :: iter_step where
  "next_entry it =
     (if it_exhausted it then (it, None)
      else let it =
        (case it_position it of
           Some index \<Rightarrow>
             if index + 1 < length (it_entries it) then it\<lparr> it_position := Some (index + 1) \<rparr>
             else it\<lparr> it_exhausted := True, it_position := None \<rparr>
         | None \<Rightarrow>
             if it_entries it \<noteq> [] then it\<lparr> it_position := Some 0 \<rparr>
             else it\<lparr> it_exhausted := True, it_position := None \<rparr>)
      in (it, current it))"

definition previous_entry :: iter_step where
  "previous_entry it =
     (if it_exhausted it then (it, None)
      else let it =
        (case it_position it of
           Some index \<Rightarrow>
             if index > 0 then it\<lparr> it_position := Some (index - 1) \<rparr>
             else it\<lparr> it_exhausted := True, it_position := None \<rparr>
         | None \<Rightarrow>
             if it_entries it \<noteq> [] then it\<lparr> it_position := checked_sub1 (length (it_entries it)) \<rparr>
             else it\<lparr> it_exhausted := True, it_position := None \<rparr>)
      in (it, current it))"

text \<open>The items a caller sees in \<open>n\<close> steps.\<close>

fun steps :: "iter_step \<Rightarrow> nat \<Rightarrow> OrderedIterator \<Rightarrow> (bytes \<times> bytes) option list" where
  "steps f 0 it = []"
| "steps f (Suc n) it = (case f it of (it, item) \<Rightarrow> item # steps f n it)"

abbreviation at_index :: "entries \<Rightarrow> nat \<Rightarrow> OrderedIterator" where
  "at_index es i \<equiv> \<lparr> it_entries = es, it_position = Some i, it_exhausted = False \<rparr>"

abbreviation at_end :: "entries \<Rightarrow> OrderedIterator" where
  "at_end es \<equiv> \<lparr> it_entries = es, it_position = None, it_exhausted = True \<rparr>"

lemma next_simps:
  "next_entry (at_end es) = (at_end es, None)"
  "next_entry (iterator_new es) = (if es \<noteq> [] then (at_index es 0, Some (es ! 0)) else (at_end es, None))"
  "i < length es \<Longrightarrow> next_entry (at_index es i) =
     (if i + 1 < length es then (at_index es (i + 1), Some (es ! (i + 1))) else (at_end es, None))"
  by (simp_all add: next_entry_def current_def iterator_new_def)

lemma previous_simps:
  "previous_entry (at_end es) = (at_end es, None)"
  "previous_entry (iterator_new es) =
     (if es \<noteq> [] then (at_index es (length es - 1), Some (last es)) else (at_end es, None))"
  "i < length es \<Longrightarrow> previous_entry (at_index es i) =
     (if i > 0 then (at_index es (i - 1), Some (es ! (i - 1))) else (at_end es, None))"
  by (auto simp: previous_entry_def current_def iterator_new_def checked_sub1_def last_conv_nth Suc_le_eq Let_def)


lemma steps_exhausted:
  "steps next_entry n (at_end es) = replicate n None" "steps previous_entry n (at_end es) = replicate n None"
  by (induction n) (simp_all add: next_simps previous_simps)

lemma steps_next_at:
  "i < length es \<Longrightarrow>
   steps next_entry (length es - i + n) (at_index es i) = map Some (drop (Suc i) es) @ replicate (Suc n) None"
proof (induction "length es - i" arbitrary: i)
  case (Suc d)
  show ?case
  proof (cases "Suc i < length es")
    case True
    with Suc have "steps next_entry (length es - Suc i + n) (at_index es (Suc i)) =
        map Some (drop (Suc (Suc i)) es) @ replicate (Suc n) None" by (intro Suc.hyps(1)) auto
    moreover have "length es - i + n = Suc (length es - Suc i + n)" using Suc.prems by simp
    ultimately show ?thesis
      using True by (simp add: next_simps Cons_nth_drop_Suc [symmetric])
  next
    case False
    with Suc.prems have "length es - i + n = Suc n" "drop (Suc i) es = []" by auto
    then show ?thesis
      using False Suc.prems by (simp add: next_simps steps_exhausted)
  qed
qed simp

lemma steps_previous_at:
  "i < length es \<Longrightarrow>
   steps previous_entry (Suc i + n) (at_index es i) = map Some (rev (take i es)) @ replicate (Suc n) None"
proof (induction i)
  case 0
  then show ?case by (simp add: previous_simps steps_exhausted)
next
  case (Suc i)
  then show ?case
    by (simp add: previous_simps take_Suc_conv_app_nth)
qed

section \<open>Properties\<close>

text \<open>walking the iterator visits every entry once, forwards in key order and backwards in
  reverse key order, and then reports the end for ever.\<close>

theorem ordered_iterator_traversal:
  "steps next_entry (length es + Suc n) (iterator_new es) = map Some es @ replicate (Suc n) None \<and>
   steps previous_entry (length es + Suc n) (iterator_new es) = map Some (rev es) @ replicate (Suc n) None"
proof (cases "es = []")
  case True
  then show ?thesis by (simp add: next_simps previous_simps steps_exhausted)
next
  case False
  then have rev: "last es # rev (take (length es - 1) es) = rev es"
    by (metis append_butlast_last_id butlast_conv_take rev.simps(2) rev_append rev_rev_ident rev_singleton_conv append_Cons append_Nil)
  have "steps next_entry (length es + Suc n) (iterator_new es) = Some (hd es) # steps next_entry (length es - 0 + n) (at_index es 0)"
    using False by (simp add: next_simps hd_conv_nth)
  also have "\<dots> = Some (hd es) # map Some (tl es) @ replicate (Suc n) None"
    using False steps_next_at [of 0 es n] by (simp add: drop_Suc)
  finally have fwd: "steps next_entry (length es + Suc n) (iterator_new es) = map Some es @ replicate (Suc n) None"
    using False by (metis append_Cons list.collapse list.simps(9))
  have "steps previous_entry (length es + Suc n) (iterator_new es) =
      Some (last es) # steps previous_entry (Suc (length es - 1) + n) (at_index es (length es - 1))"
    using False by (simp add: previous_simps)
  also have "\<dots> = Some (last es) # map Some (rev (take (length es - 1) es)) @ replicate (Suc n) None"
    using False steps_previous_at [of "length es - 1" es n] by simp
  finally have "steps previous_entry (length es + Suc n) (iterator_new es) = map Some (rev es) @ replicate (Suc n) None"
    using rev by (metis append_Cons list.simps(9))
  with fwd show ?thesis by simp
qed

text \<open>A prefix scan, which stops at the first key without the prefix, returns the first
  entries of all stored entries with that prefix, in key order.\<close>

theorem prefix_scan_exact:
  assumes "bt_wf cmp_bytes (rl_entries s)"
  shows "prefix_scan s p limit = take limit (filter (\<lambda>e. prefix p (fst e)) (rl_entries s))"
  using takeWhile_filter_range [OF assms, of p] by (simp add: prefix_scan_def)

lemma prefix_scan_exact_witness:
  "prefix_scan ((fresh_log demo_options)\<lparr> rl_entries := [([1], [5]), ([1, 2], [6]), ([3], [7])] \<rparr>) [1] 9 = [([1], [5]), ([1, 2], [6])]"
  using prefix_scan_exact [of "(fresh_log demo_options)\<lparr> rl_entries := [([1], [5]), ([1, 2], [6]), ([3], [7])] \<rparr>" "[1]" 9]
  by (simp add: bt_wf_def cmp_bytes_def cmp_lin_def)

text \<open>closing always marks the handle closed and releases its lock, keeps the data, reports
  a failed final sync, is idempotent, and every later write or flush is refused with
  \<open>Closed\<close>. A handle poisoned before it is closed reports \<open>Poisoned\<close>.\<close>

theorem close_in_place_effect:
  assumes "close_in_place_with_faults env faults s = (s', r)" and "\<not> rl_closed s"
  shows "s' = s\<lparr> rl_closed := True, rl_lock := False \<rparr> \<and>
    (rl_poisoned s \<longrightarrow> r = Err Poisoned) \<and>
    (\<not> rl_poisoned s \<longrightarrow> r = sync_for_shutdown env faults s) \<and>
    close_in_place_with_faults env2 faults2 s' = (s', Ok ()) \<and>
    write_with_faults env2 faults3 batch s' = (s', Err Closed) \<and> flush env2 s' = Err Closed"
  using assms
  by (auto simp: close_in_place_with_faults_def ensure_usable_def write_with_faults_def flush_def Let_def)

lemma close_in_place_effect_witness:
  "close_in_place_with_faults calm_os no_faults (fresh_log demo_options) =
     ((fresh_log demo_options)\<lparr> rl_closed := True, rl_lock := False \<rparr>, Ok ())"
proof -
  let ?c = "close_in_place_with_faults calm_os no_faults (fresh_log demo_options)"
  have "sync_for_shutdown calm_os no_faults (fresh_log demo_options) = Ok ()"
    by (simp add: sync_for_shutdown_def fresh_log_def calm_os_def io_def)
  then show ?thesis
    using close_in_place_effect [of calm_os no_faults "fresh_log demo_options" "fst ?c" "snd ?c"]
    by (simp add: fresh_log_def prod_eq_iff)
qed

end
