(* ===== verification/State_Store.thy ===== *)
theory State_Store
  imports Rust_Log_Queries
begin

text \<open>
  The logical stores of \<open>tron-state/src/store.rs\<close>: the store kinds with their database names,
  the collision-free physical key, the typed store operations over the shared log handle, the
  internal namespace and the write batch. A store name is the byte string of its \<open>String\<close>.
\<close>

section \<open>Store kinds and names\<close>

datatype StoreKind =
    KAccount | KAccountIdIndex | KAccountIndex | KAccountAsset | KAssetIssue
  | KAssetIssueV2 | KBlock | KBlockIndex | KTransaction | KTransactionCache
  | KTransactionRet | KTransactionHistory | KRecentBlock | KRecentTransaction | KContract
  | KAbi | KCode | KContractState | KStorageRow | KWitness
  | KWitnessSchedule | KVotes | KProposal | KExchange | KExchangeV2
  | KMarketAccount | KMarketOrder | KMarketPairToPrice | KMarketPairPriceToOrder | KDelegatedResource
  | KDelegatedResourceAccountIndex | KDynamicProperties | KIncrementalMerkleTree | KNullifier | KZkProof
  | KTreeBlockIndex | KSectionBloom | KAccountTrace | KBalanceTrace | KDelegation
  | KPbft | KRewardVi | KCommon | KCheckpoint | KTemporary

definition StoreKind_ALL :: "StoreKind list" where
  "StoreKind_ALL =
     [KAccount, KAccountIdIndex, KAccountIndex, KAccountAsset, KAssetIssue, 
      KAssetIssueV2, KBlock, KBlockIndex, KTransaction, KTransactionCache, 
      KTransactionRet, KTransactionHistory, KRecentBlock, KRecentTransaction, KContract, 
      KAbi, KCode, KContractState, KStorageRow, KWitness, 
      KWitnessSchedule, KVotes, KProposal, KExchange, KExchangeV2, 
      KMarketAccount, KMarketOrder, KMarketPairToPrice, KMarketPairPriceToOrder, KDelegatedResource, 
      KDelegatedResourceAccountIndex, KDynamicProperties, KIncrementalMerkleTree, KNullifier, KZkProof, 
      KTreeBlockIndex, KSectionBloom, KAccountTrace, KBalanceTrace, KDelegation, 
      KPbft, KRewardVi, KCommon, KCheckpoint, KTemporary]"

fun db_name :: "StoreKind \<Rightarrow> string" where
  "db_name KAccount = ''account''"
| "db_name KAccountIdIndex = ''accountid-index''"
| "db_name KAccountIndex = ''account-index''"
| "db_name KAccountAsset = ''account-asset''"
| "db_name KAssetIssue = ''asset-issue''"
| "db_name KAssetIssueV2 = ''asset-issue-v2''"
| "db_name KBlock = ''block''"
| "db_name KBlockIndex = ''block-index''"
| "db_name KTransaction = ''trans''"
| "db_name KTransactionCache = ''trans-cache''"
| "db_name KTransactionRet = ''transactionRetStore''"
| "db_name KTransactionHistory = ''transactionHistoryStore''"
| "db_name KRecentBlock = ''recent-block''"
| "db_name KRecentTransaction = ''recent-transaction''"
| "db_name KContract = ''contract''"
| "db_name KAbi = ''abi''"
| "db_name KCode = ''code''"
| "db_name KContractState = ''contract-state''"
| "db_name KStorageRow = ''storage-row''"
| "db_name KWitness = ''witness''"
| "db_name KWitnessSchedule = ''witness_schedule''"
| "db_name KVotes = ''votes''"
| "db_name KProposal = ''proposal''"
| "db_name KExchange = ''exchange''"
| "db_name KExchangeV2 = ''exchange-v2''"
| "db_name KMarketAccount = ''market_account''"
| "db_name KMarketOrder = ''market_order''"
| "db_name KMarketPairToPrice = ''market_pair_to_price''"
| "db_name KMarketPairPriceToOrder = ''market_pair_price_to_order''"
| "db_name KDelegatedResource = ''DelegatedResource''"
| "db_name KDelegatedResourceAccountIndex = ''DelegatedResourceAccountIndex''"
| "db_name KDynamicProperties = ''properties''"
| "db_name KIncrementalMerkleTree = ''IncrementalMerkleTree''"
| "db_name KNullifier = ''nullifier''"
| "db_name KZkProof = ''zkProof''"
| "db_name KTreeBlockIndex = ''tree-block-index''"
| "db_name KSectionBloom = ''section-bloom''"
| "db_name KAccountTrace = ''account-trace''"
| "db_name KBalanceTrace = ''balance-trace''"
| "db_name KDelegation = ''delegation''"
| "db_name KPbft = ''pbft-sign-data''"
| "db_name KRewardVi = ''reward-vi''"
| "db_name KCommon = ''common''"
| "db_name KCheckpoint = ''checkpoint''"
| "db_name KTemporary = ''tmp''"

type_synonym StoreName = bytes

definition kind_name :: "StoreKind \<Rightarrow> StoreName" where
  "kind_name kind = str_bytes (db_name kind)"

datatype StoreNameError = EmptyName | TooLong nat

definition store_name_new :: "bytes \<Rightarrow> (StoreName, StoreNameError) result" where
  "store_name_new name =
     (if name = [] then Err EmptyName
      else if length name > u32_max then Err (TooLong (length name))
      else Ok name)"

section \<open>Physical keys\<close>

definition NAMESPACE_VERSION :: u8 where "NAMESPACE_VERSION = 1"
definition INTERNAL_NAMESPACE_VERSION :: u8 where "INTERNAL_NAMESPACE_VERSION = 2"
definition CHECKPOINT_INTERNAL_NAMESPACE :: u8 where "CHECKPOINT_INTERNAL_NAMESPACE = 1"

definition physical_key :: "StoreName \<Rightarrow> bytes \<Rightarrow> bytes" where
  "physical_key name logical_key =
     [NAMESPACE_VERSION] @ be_bytes 4 (int (length name) mod 4294967296) @ name @ logical_key"

definition internal_physical_key :: "u8 \<Rightarrow> bytes \<Rightarrow> bytes" where
  "internal_physical_key namespace key = [INTERNAL_NAMESPACE_VERSION, namespace] @ key"

section \<open>Typed stores\<close>

text \<open>A \<open>TypedStore\<close> is the shared log with a name; its methods take both.\<close>

definition typed_get :: "RustLog \<Rightarrow> StoreName \<Rightarrow> bytes \<Rightarrow> bytes option" where
  "typed_get s name key = log_get s (physical_key name key)"

definition typed_contains_key :: "RustLog \<Rightarrow> StoreName \<Rightarrow> bytes \<Rightarrow> bool" where
  "typed_contains_key s name key = contains_key s (physical_key name key)"

definition typed_put :: "os \<Rightarrow> StoreName \<Rightarrow> bytes \<Rightarrow> bytes \<Rightarrow> RustLog \<Rightarrow> RustLog \<times> (unit, StorageError) result" where
  "typed_put env name key v s = put env (physical_key name key) v s"

definition typed_delete :: "os \<Rightarrow> StoreName \<Rightarrow> bytes \<Rightarrow> RustLog \<Rightarrow> RustLog \<times> (unit, StorageError) result" where
  "typed_delete env name key s = delete env (physical_key name key) s"

definition typed_put_if_absent :: "os \<Rightarrow> StoreName \<Rightarrow> bytes \<Rightarrow> bytes \<Rightarrow> RustLog \<Rightarrow> RustLog \<times> (bool, StorageError) result" where
  "typed_put_if_absent env name key v s =
     (let physical = physical_key name key in
      if contains_key s physical then (s, Ok False)
      else case put env physical v s of (s, r) \<Rightarrow> (s, and_then r (\<lambda>_. Ok True)))"

definition typed_delete_present :: "os \<Rightarrow> StoreName \<Rightarrow> bytes \<Rightarrow> RustLog \<Rightarrow> RustLog \<times> (bool, StorageError) result" where
  "typed_delete_present env name key s =
     (if \<not> typed_contains_key s name key then (s, Ok False)
      else case typed_delete env name key s of (s, r) \<Rightarrow> (s, and_then r (\<lambda>_. Ok True)))"

datatype StoreEntry = Absent | Present bytes

definition typed_entry :: "RustLog \<Rightarrow> StoreName \<Rightarrow> bytes \<Rightarrow> StoreEntry" where
  "typed_entry s name key = (case typed_get s name key of None \<Rightarrow> Absent | Some v \<Rightarrow> Present v)"

definition typed_prefix :: "RustLog \<Rightarrow> StoreName \<Rightarrow> bytes \<Rightarrow> entries" where
  "typed_prefix s name logical_prefix =
     (let physical_prefix = physical_key name logical_prefix;
          namespace_length = length (physical_key name [])
      in map (\<lambda>(key, v). (drop namespace_length key, v)) (prefix_scan s physical_prefix usize_max))"

definition typed_market_ordered :: "RustLog \<Rightarrow> StoreName \<Rightarrow> bytes \<Rightarrow> bytes \<Rightarrow> nat \<Rightarrow> (MarketQueryResult, StorageError) result" where
  "typed_market_ordered s name pair excluded limit =
     market_ordered_namespace (rl_entries s) (rl_market_entries s) (physical_key name []) pair excluded limit"

definition typed_market_ordered_after ::
    "RustLog \<Rightarrow> StoreName \<Rightarrow> bytes \<Rightarrow> bytes option \<Rightarrow> bytes \<Rightarrow> nat \<Rightarrow> (MarketQueryResult, StorageError) result" where
  "typed_market_ordered_after s name pair after excluded limit =
     market_ordered_namespace_from (rl_entries s) (rl_market_entries s) (physical_key name []) pair after excluded limit"

definition snapshot_rows :: "RustLog \<Rightarrow> StoreName \<Rightarrow> entries" where
  "snapshot_rows s name =
     bt_extend cmp_bytes
       (map (\<lambda>(key, v). (drop (length (physical_key name [])) key, v))
         (prefix_scan s (physical_key name []) usize_max)) []"

definition snapshot_names :: "RustLog \<Rightarrow> StoreName list \<Rightarrow> (StoreName, entries) bt_map" where
  "snapshot_names s names = bt_extend cmp_bytes (map (\<lambda>name. (name, snapshot_rows s name)) names) []"

section \<open>Batches over several stores\<close>

definition state_batch_put :: "StoreName \<Rightarrow> bytes \<Rightarrow> bytes \<Rightarrow> WriteBatch \<Rightarrow> WriteBatch" where
  "state_batch_put name key v batch = batch_put (physical_key name key) v batch"

definition state_batch_delete :: "StoreName \<Rightarrow> bytes \<Rightarrow> WriteBatch \<Rightarrow> WriteBatch" where
  "state_batch_delete name key batch = batch_delete (physical_key name key) batch"

definition state_batch_commit :: "os \<Rightarrow> WriteBatch \<Rightarrow> RustLog \<Rightarrow> RustLog \<times> (unit, StorageError) result" where
  "state_batch_commit env batch s = log_write env batch s"

definition internal_get :: "RustLog \<Rightarrow> u8 \<Rightarrow> bytes \<Rightarrow> bytes option" where
  "internal_get s namespace key = log_get s (internal_physical_key namespace key)"

definition internal_batch_put :: "u8 \<Rightarrow> bytes \<Rightarrow> bytes \<Rightarrow> WriteBatch \<Rightarrow> WriteBatch" where
  "internal_batch_put namespace key v batch = batch_put (internal_physical_key namespace key) v batch"

definition internal_batch_delete :: "u8 \<Rightarrow> bytes \<Rightarrow> WriteBatch \<Rightarrow> WriteBatch" where
  "internal_batch_delete namespace key batch = batch_delete (internal_physical_key namespace key) batch"

section \<open>No collisions\<close>

abbreviation name_ok :: "StoreName \<Rightarrow> bool" where
  "name_ok name \<equiv> length name \<le> u32_max"

lemma physical_key_append: "physical_key name p @ z = physical_key name (p @ z)"
  by (simp add: physical_key_def)

lemma physical_key_drop [simp]: "drop (length (physical_key name [])) (physical_key name key) = key"
  by (metis physical_key_append append_Nil append_eq_conv_conj)

lemma physical_key_inj:
  assumes "name_ok name" "name_ok name'"
  shows "physical_key name key = physical_key name' key' \<longleftrightarrow> name = name' \<and> key = key'"
proof
  assume eq: "physical_key name key = physical_key name' key'"
  then have "be_bytes 4 (int (length name) mod 4294967296) = be_bytes 4 (int (length name') mod 4294967296)"
    and rest: "name @ key = name' @ key'"
    by (auto simp: physical_key_def)
  then have "int (length name) mod 4294967296 mod 256 ^ 4 = int (length name') mod 4294967296 mod 256 ^ 4"
    using be_value_be_bytes by metis
  then have "length name = length name'" using assms by simp
  with rest show "name = name' \<and> key = key'" by simp
qed simp

lemma prefix_physical_key:
  assumes "name_ok name" "name_ok name'"
  shows "prefix (physical_key name p) (physical_key name' key) \<longleftrightarrow> name = name' \<and> prefix p key"
proof
  assume "prefix (physical_key name p) (physical_key name' key)"
  then obtain z where z: "physical_key name' key = physical_key name (p @ z)"
    by (auto simp: prefix_def physical_key_append)
  then show "name = name' \<and> prefix p key" using physical_key_inj assms by auto
qed (auto simp: prefix_def physical_key_append)

lemma internal_not_physical: "internal_physical_key namespace key \<noteq> physical_key name key'"
  by (simp add: internal_physical_key_def physical_key_def NAMESPACE_VERSION_def INTERNAL_NAMESPACE_VERSION_def)

lemma kind_name_ok [simp]: "name_ok (kind_name kind)"
  by (cases kind) (simp_all add: kind_name_def)

lemma rows_physical:
  "prefix (physical_key name p) k \<Longrightarrow> physical_key name (drop (length (physical_key name [])) k) = k"
  by (auto simp: prefix_def physical_key_append)

text \<open>The rows of one store are in key order, and a row is there exactly when a lookup finds it.\<close>

lemma cmp_bytes_physical: "cmp_bytes (physical_key name a) (physical_key name b) = cmp_bytes a b"
  using cmp_bytes_append [of "physical_key name []" a b] by (simp add: physical_key_append)

lemma typed_prefix_wf:
  assumes wf: "bt_wf cmp_bytes (rl_entries s)" and ok: "name_ok name" and len: "length (rl_entries s) \<le> usize_max"
  shows "bt_wf cmp_bytes (typed_prefix s name p)"
    and "bt_get (typed_prefix s name p) key = (if prefix p key then typed_get s name key else None)"
proof -
  let ?n = "length (physical_key name [])"
  let ?sel = "filter (\<lambda>e. prefix (physical_key name p) (fst e)) (rl_entries s)"
  have "length ?sel \<le> usize_max" using len length_filter_le le_trans by blast
  then have scan: "prefix_scan s (physical_key name p) usize_max = ?sel"
    using takeWhile_filter_range [OF wf, of "physical_key name p"] by (simp add: prefix_scan_def)
  then have rows: "typed_prefix s name p = map (\<lambda>(key, v). (drop ?n key, v)) ?sel"
    by (simp add: typed_prefix_def)
  have phys: "physical_key name (drop ?n (fst e)) = fst e" if "e \<in> set ?sel" for e
    using rows_physical [of name p "fst e"] that by simp
  have "sorted_wrt (\<lambda>a b. cmp_bytes (fst a) (fst b) = Less) ?sel"
    using wf by (simp add: bt_wf_def sorted_wrt_map sorted_wrt_filter)
  then have "sorted_wrt (\<lambda>a b. cmp_bytes (drop ?n (fst a)) (drop ?n (fst b)) = Less) ?sel"
    by (rule sorted_wrt_mono_rel [rotated]) (metis cmp_bytes_physical phys)
  then show wf': "bt_wf cmp_bytes (typed_prefix s name p)"
    by (simp add: rows bt_wf_def sorted_wrt_map case_prod_beta)
  have d: "distinct (map fst (rl_entries s))" "distinct (map fst (typed_prefix s name p))"
    using bytes.wf_distinct [of "rl_entries s"] bytes.wf_distinct [of "typed_prefix s name p"] wf wf' by simp_all
  have "(key, v) \<in> set (typed_prefix s name p) \<longleftrightarrow> prefix p key \<and> (physical_key name key, v) \<in> set (rl_entries s)" for v
  proof
    assume "(key, v) \<in> set (typed_prefix s name p)"
    then obtain k where k: "(k, v) \<in> set ?sel" "key = drop ?n k" by (auto simp: rows)
    have "physical_key name key = k" unfolding k(2) using phys [OF k(1)] by simp
    moreover have "(k, v) \<in> set (rl_entries s)" "prefix (physical_key name p) k" using k(1) by simp_all
    ultimately show "prefix p key \<and> (physical_key name key, v) \<in> set (rl_entries s)"
      using prefix_physical_key [OF ok ok, of p key] by metis
  next
    assume "prefix p key \<and> (physical_key name key, v) \<in> set (rl_entries s)"
    then have "(physical_key name key, v) \<in> set ?sel" by (simp add: prefix_physical_key [OF ok ok])
    then have "(drop ?n (physical_key name key), v) \<in> set (typed_prefix s name p)"
      unfolding rows by force
    then show "(key, v) \<in> set (typed_prefix s name p)" by simp
  qed
  then have "bt_get (typed_prefix s name p) key = Some v \<longleftrightarrow> (if prefix p key then typed_get s name key else None) = Some v" for v
    using map_of_eq_Some_iff [OF d(2), of key v] map_of_eq_Some_iff [OF d(1), of "physical_key name key" v]
    by (simp add: typed_get_def log_get_def)
  then show "bt_get (typed_prefix s name p) key = (if prefix p key then typed_get s name key else None)"
    by (metis not_Some_eq)
qed

lemma bt_extend_sorted: "bt_wf cmp_bytes es \<Longrightarrow> bt_extend cmp_bytes es [] = es"
  by (rule bytes.wf_ext)
    (use bytes.wf_distinct [of es] in \<open>auto simp: bytes.wf_extend bytes.get_extend\<close>)

lemma snapshot_rows_prefix:
  assumes "bt_wf cmp_bytes (rl_entries s)" "name_ok name" "length (rl_entries s) \<le> usize_max"
  shows "snapshot_rows s name = typed_prefix s name []"
  using bt_extend_sorted [OF typed_prefix_wf(1) [OF assms, of "[]"]]
  by (simp add: snapshot_rows_def typed_prefix_def Let_def)

lemma get_snapshot_names:
  "bt_get (snapshot_names s names) name = (if name \<in> set names then Some (snapshot_rows s name) else None)"
proof (induction names rule: rev_induct)
  case Nil
  then show ?case by (simp add: snapshot_names_def bt_extend_def)
next
  case (snoc x names)
  then show ?case by (auto simp: snapshot_names_def bt_extend_def)
qed

lemma put_entries:
  "put env key v s = (s', r) \<Longrightarrow>
   rl_entries s' = (if is_ok r then bt_insert cmp_bytes key v (rl_entries s) else rl_entries s)"
  using write_entries [of env no_faults "[Put key v]" s s' r]
  by (simp add: put_def log_write_def batch_put_def)

lemma delete_entries:
  "delete env key s = (s', r) \<Longrightarrow>
   rl_entries s' = (if is_ok r then bt_remove key (rl_entries s) else rl_entries s)"
  using write_entries [of env no_faults "[Delete key]" s s' r]
  by (simp add: delete_def log_write_def batch_delete_def)

section \<open>Properties\<close>

text \<open>Stores do not interfere. A put or a delete through one logical store changes exactly
  the one key of that store, when it succeeds, and no other key of any store or of the
  internal namespace; when it fails it changes nothing.\<close>

theorem typed_store_isolation:
  assumes "length name \<le> u32_max" and "length name' \<le> u32_max"
  shows "(case typed_put env name key v s of (s1, r) \<Rightarrow>
      typed_get s1 name' key' = (if is_ok r \<and> name' = name \<and> key' = key then Some v else typed_get s name' key') \<and>
      internal_get s1 namespace ikey = internal_get s namespace ikey) \<and>
    (case typed_delete env name key s of (s1, r) \<Rightarrow>
      typed_get s1 name' key' = (if is_ok r \<and> name' = name \<and> key' = key then None else typed_get s name' key') \<and>
      internal_get s1 namespace ikey = internal_get s namespace ikey)"
proof -
  note inj = physical_key_inj [OF assms(2,1), of key' key]
  obtain s1 r where p: "put env (physical_key name key) v s = (s1, r)" by (cases "put env (physical_key name key) v s")
  obtain s2 r2 where d: "delete env (physical_key name key) s = (s2, r2)" by (cases "delete env (physical_key name key) s")
  show ?thesis
    using inj by (simp add: typed_put_def p put_entries [OF p] typed_delete_def d delete_entries [OF d]
        typed_get_def internal_get_def log_get_def internal_not_physical)
qed

lemma typed_store_isolation_witness:
  "case typed_put calm_os (kind_name KAccount) [7] [8] (fresh_log demo_options) of (s1, r) \<Rightarrow>
     typed_get s1 (kind_name KBlock) [7] = typed_get (fresh_log demo_options) (kind_name KBlock) [7]"
proof -
  have "kind_name KAccount \<noteq> kind_name KBlock" by (simp add: kind_name_def str_bytes_def)
  then show ?thesis
    using typed_store_isolation [where name = "kind_name KAccount" and name' = "kind_name KBlock" and env = calm_os
        and key = "[7]" and key' = "[7]" and v = "[8]" and s = "fresh_log demo_options"]
    by (auto split: prod.splits)
qed

end
