(* ===== verification/Session_Manager.thy ===== *)
theory Session_Manager
  imports State_Store
begin

text \<open>
  The overlay stack of \<open>tron-state/src/session.rs\<close> and the pending session of
  \<open>tron-state/src/pending.rs\<close>: layers of uncommitted and committed changes above the durable
  root, the session capabilities that own them, commit, merge and revoke, committed
  checkpoints, the flush into the root, immutable read views and the overlay stores. The
  state behind the mutex is a record; a method returns the new state, the new session handle
  where it has one, and its result. An error carries the storage error itself where the code
  keeps its text.
\<close>

section \<open>State\<close>

datatype OverlayValue = OvPut bytes | OvDelete

type_synonym overlay_rows = "(bytes, OverlayValue) bt_map"

record OverlayLayer =
  ol_values :: "(StoreName, overlay_rows) bt_map"
  ol_market_values :: "(StoreName, overlay_rows) bt_map"
  ol_committed :: bool
  ol_abandoned :: bool
  ol_disable_on_exit :: bool
  ol_id :: nat

datatype SessionError =
    Disabled
  | NoActiveSession
  | ActiveSessions nat
  | InvalidDepth nat nat
  | InvalidSession
  | AlreadyFinalized
  | SessionStorage StorageError
  | ConcurrentPending

record CursorPoint =
  cp_block :: nat
  cp_identity :: bytes

datatype CursorError =
    NegativePbftOffset int
  | IdentityMismatch
  | UnrelatedCheckpoint
  | UncommittedState
  | MissingCheckpoint
  | BeyondHead nat nat

type_synonym image = "(StoreName, entries) bt_map"

record ReadView =
  rv_image :: image
  rv_market_image :: image

record CommittedCheckpoint =
  cc_point :: CursorPoint
  cc_parent :: "bytes option"
  cc_view :: ReadView

record ManagerState =
  ms_root :: RustLog
  ms_layers :: "OverlayLayer list"
  ms_checkpoints :: "CommittedCheckpoint list"
  ms_enabled :: bool
  ms_active :: nat
  ms_next_id :: nat
  ms_pending_outer :: "nat option"
  ms_shutdown_complete :: bool

record Session =
  se_id :: "nat option"
  se_finalized :: bool

definition manager_new :: "RustLog \<Rightarrow> ManagerState" where
  "manager_new root =
     \<lparr> ms_root = root, ms_layers = [], ms_checkpoints = [], ms_enabled = True, ms_active = 0,
       ms_next_id = 1, ms_pending_outer = None, ms_shutdown_complete = False \<rparr>"

definition empty_layer :: "nat \<Rightarrow> bool \<Rightarrow> OverlayLayer" where
  "empty_layer i disable_on_exit =
     \<lparr> ol_values = [], ol_market_values = [], ol_committed = False, ol_abandoned = False,
       ol_disable_on_exit = disable_on_exit, ol_id = i \<rparr>"

definition live :: "OverlayLayer \<Rightarrow> bool" where
  "live layer \<longleftrightarrow> \<not> ol_committed layer \<and> \<not> ol_abandoned layer"

definition live_count :: "OverlayLayer list \<Rightarrow> nat" where
  "live_count layers = length (filter live layers)"

text \<open>\<open>next_id.wrapping_add(1).max(1)\<close> on \<open>u64\<close>, and \<open>checked_sub\<close> on the session count.\<close>

definition next_session_id :: "nat \<Rightarrow> nat" where
  "next_session_id n = max ((n + 1) mod 18446744073709551616) 1"

definition active_sub :: "ManagerState \<Rightarrow> nat \<Rightarrow> (ManagerState, SessionError) result" where
  "active_sub st n =
     (if n \<le> ms_active st then Ok (st\<lparr> ms_active := ms_active st - n \<rparr>) else Err NoActiveSession)"

section \<open>Read views\<close>

definition entry_or_default :: "StoreName \<Rightarrow> (StoreName, 'a list) bt_map \<Rightarrow> 'a list" where
  "entry_or_default name m = (case bt_get m name of None \<Rightarrow> [] | Some rows \<Rightarrow> rows)"

definition collect_market_values :: "(bytes \<times> 'v) list \<Rightarrow> (bytes \<times> 'v) list" where
  "collect_market_values rows = bt_extend market_total_cmp (filter (\<lambda>e. 54 \<le> length (fst e)) rows) []"

definition from_image :: "image \<Rightarrow> ReadView" where
  "from_image im =
     \<lparr> rv_image = im,
       rv_market_image = bt_extend cmp_bytes (map (\<lambda>(name, rows). (name, collect_market_values rows)) im) [] \<rparr>"

fun apply_overlay :: "bytes \<times> OverlayValue \<Rightarrow> entries \<Rightarrow> entries" where
  "apply_overlay (key, OvPut v) rows = bt_insert cmp_bytes key v rows"
| "apply_overlay (key, OvDelete) rows = bt_remove key rows"

definition apply_store :: "StoreName \<times> overlay_rows \<Rightarrow> image \<Rightarrow> image" where
  "apply_store p im =
     (case p of (name, values) \<Rightarrow>
        bt_insert cmp_bytes name (fold apply_overlay values (entry_or_default name im)) im)"

definition capture_names :: "OverlayLayer list \<Rightarrow> StoreName list" where
  "capture_names layers =
     fold (\<lambda>layer names. fold (\<lambda>name names. if name \<in> set names then names else names @ [name])
             (map fst (ol_values layer)) names)
       layers (map kind_name StoreKind_ALL)"

definition capture_where :: "RustLog \<Rightarrow> OverlayLayer list \<Rightarrow> (OverlayLayer \<Rightarrow> bool) \<Rightarrow> ReadView" where
  "capture_where root layers include =
     (let included = filter include layers;
          im = snapshot_names root (capture_names included)
      in from_image (fold (\<lambda>layer. fold apply_store (ol_values layer)) included im))"

definition capture :: "RustLog \<Rightarrow> OverlayLayer list \<Rightarrow> ReadView" where
  "capture root layers = capture_where root layers (\<lambda>layer. \<not> ol_abandoned layer)"

definition capture_committed :: "RustLog \<Rightarrow> OverlayLayer list \<Rightarrow> ReadView" where
  "capture_committed root layers = capture_where root layers (\<lambda>layer. ol_committed layer \<and> \<not> ol_abandoned layer)"

definition read_view :: "ManagerState \<Rightarrow> ReadView" where
  "read_view st = capture_committed (ms_root st) (ms_layers st)"

definition committed_view :: "ManagerState \<Rightarrow> ReadView" where
  "committed_view st = capture (ms_root st) []"

definition view_get :: "ReadView \<Rightarrow> StoreName \<Rightarrow> bytes \<Rightarrow> bytes option" where
  "view_get view name key = (case bt_get (rv_image view) name of None \<Rightarrow> None | Some rows \<Rightarrow> bt_get rows key)"

definition view_prefix :: "ReadView \<Rightarrow> StoreName \<Rightarrow> bytes \<Rightarrow> entries" where
  "view_prefix view name p =
     (case bt_get (rv_image view) name of
        None \<Rightarrow> []
      | Some rows \<Rightarrow> takeWhile (\<lambda>e. prefix p (fst e)) (bt_range_from cmp_bytes p rows))"

definition view_prefix_window :: "ReadView \<Rightarrow> StoreName \<Rightarrow> bytes \<Rightarrow> nat \<Rightarrow> nat \<Rightarrow> entries" where
  "view_prefix_window view name p offset limit =
     (if limit = 0 then []
      else case bt_get (rv_image view) name of
        None \<Rightarrow> []
      | Some rows \<Rightarrow> take limit (drop offset (takeWhile (\<lambda>e. prefix p (fst e)) (bt_range_from cmp_bytes p rows))))"

definition market_pair_start :: "bytes \<Rightarrow> bytes" where
  "market_pair_start pair = pair @ replicate 16 0"

fun view_market_scan :: "bytes \<Rightarrow> bytes \<Rightarrow> nat \<Rightarrow> entries \<Rightarrow> nat \<Rightarrow> entries \<Rightarrow> MarketQueryResult" where
  "view_market_scan pair excluded limit rows visited [] = \<lparr> mq_rows = rows, mq_visited = visited \<rparr>"
| "view_market_scan pair excluded limit rows visited ((key, v) # rest) =
     (if length rows = limit \<or> \<not> prefix pair key then \<lparr> mq_rows = rows, mq_visited = visited \<rparr>
      else view_market_scan pair excluded limit (if key = excluded then rows else rows @ [(key, v)]) (visited + 1) rest)"

definition view_market_ordered :: "ReadView \<Rightarrow> StoreName \<Rightarrow> bytes \<Rightarrow> bytes \<Rightarrow> nat \<Rightarrow> (MarketQueryResult, StorageError) result" where
  "view_market_ordered view name pair excluded limit =
     (if length pair \<noteq> MARKET_PAIR_LENGTH then Err (MarketKeyError (length pair))
      else if limit = 0 then Ok \<lparr> mq_rows = [], mq_visited = 0 \<rparr>
      else case bt_get (rv_market_image view) name of
        None \<Rightarrow> Ok \<lparr> mq_rows = [], mq_visited = 0 \<rparr>
      | Some rows \<Rightarrow>
          Ok (view_market_scan pair excluded limit [] 0 (bt_range_from market_total_cmp (market_pair_start pair) rows)))"

section \<open>Building sessions\<close>

definition disable :: "ManagerState \<Rightarrow> ManagerState \<times> (unit, SessionError) result" where
  "disable st =
     (if ms_active st \<noteq> 0 then (st, Err (ActiveSessions (ms_active st))) else (st\<lparr> ms_enabled := False \<rparr>, Ok ()))"

definition enable :: "ManagerState \<Rightarrow> ManagerState" where
  "enable st = st\<lparr> ms_enabled := True \<rparr>"

definition push_layer :: "bool \<Rightarrow> ManagerState \<Rightarrow> ManagerState \<times> Session" where
  "push_layer temporarily_enable st =
     (let disable_on_exit = (temporarily_enable \<and> \<not> ms_enabled st);
          i = ms_next_id st
      in (st\<lparr> ms_enabled := ms_enabled st \<or> disable_on_exit,
             ms_next_id := next_session_id i,
             ms_layers := ms_layers st @ [empty_layer i disable_on_exit],
             ms_active := ms_active st + 1 \<rparr>,
          \<lparr> se_id = Some i, se_finalized = False \<rparr>))"

definition session_noop :: Session where
  "session_noop = \<lparr> se_id = None, se_finalized = False \<rparr>"

definition build_root :: "bool \<Rightarrow> ManagerState \<Rightarrow> ManagerState \<times> (Session, SessionError) result" where
  "build_root temporarily_enable st =
     (if ms_active st \<noteq> 0 then (st, Err (ActiveSessions (ms_active st)))
      else if \<not> ms_enabled st \<and> \<not> temporarily_enable then (st, Ok session_noop)
      else case push_layer temporarily_enable st of (st, se) \<Rightarrow> (st, Ok se))"

definition build_session :: "ManagerState \<Rightarrow> ManagerState \<times> (Session, SessionError) result" where
  "build_session st = build_root False st"

definition build_session_enabled :: "ManagerState \<Rightarrow> ManagerState \<times> (Session, SessionError) result" where
  "build_session_enabled st = build_root True st"

definition build_child :: "nat \<Rightarrow> ManagerState \<Rightarrow> ManagerState \<times> (Session, SessionError) result" where
  "build_child parent_id st =
     (if ms_layers st = [] then (st, Err InvalidSession)
      else let parent = last (ms_layers st) in
        if ol_id parent \<noteq> parent_id \<or> ol_committed parent \<or> ol_abandoned parent then (st, Err InvalidSession)
        else case push_layer True st of (st, se) \<Rightarrow> (st, Ok se))"

definition child :: "Session \<Rightarrow> ManagerState \<Rightarrow> ManagerState \<times> (Session, SessionError) result" where
  "child se st =
     (if se_finalized se then (st, Err InvalidSession)
      else case se_id se of None \<Rightarrow> (st, Err InvalidSession) | Some i \<Rightarrow> build_child i st)"

definition build_pending_outer :: "ManagerState \<Rightarrow> ManagerState \<times> (Session, SessionError) result" where
  "build_pending_outer st =
     (if ms_pending_outer st \<noteq> None then (st, Err ConcurrentPending)
      else if ms_active st \<noteq> 0 then (st, Err (ActiveSessions (ms_active st)))
      else case push_layer True st of (st, se) \<Rightarrow> (st\<lparr> ms_pending_outer := se_id se \<rparr>, Ok se))"

definition layer_index :: "nat \<Rightarrow> ManagerState \<Rightarrow> nat option" where
  "layer_index i st = position (\<lambda>layer. ol_id layer = i) (ms_layers st)"

section \<open>Finishing sessions\<close>

datatype Finish = Commit | Merge | Revoke

definition merge_values :: "(bytes \<Rightarrow> bytes \<Rightarrow> ordering) \<Rightarrow> (StoreName, overlay_rows) bt_map \<Rightarrow>
    (StoreName, overlay_rows) bt_map \<Rightarrow> (StoreName, overlay_rows) bt_map" where
  "merge_values cmp source target =
     fold (\<lambda>(name, rows) m. bt_insert cmp_bytes name (bt_extend cmp rows (entry_or_default name m)) m) source target"

definition merge_layer :: "OverlayLayer \<Rightarrow> OverlayLayer \<Rightarrow> OverlayLayer" where
  "merge_layer layer predecessor =
     predecessor\<lparr> ol_values := merge_values cmp_bytes (ol_values layer) (ol_values predecessor),
                  ol_market_values := merge_values market_total_cmp (ol_market_values layer) (ol_market_values predecessor) \<rparr>"

definition finish_action :: "Finish \<Rightarrow> nat \<Rightarrow> ManagerState \<Rightarrow> ManagerState \<times> bool \<times> (unit, SessionError) result" where
  "finish_action fin index st =
     (let layers = ms_layers st;
          disable_on_exit = ol_disable_on_exit (layers ! index) in
      case fin of
        Commit \<Rightarrow> (st\<lparr> ms_layers := layers[index := (layers ! index)\<lparr> ol_committed := True \<rparr>] \<rparr>, disable_on_exit, Ok ())
      | Merge \<Rightarrow>
          if index = 0 then (st, disable_on_exit, Err (InvalidDepth 2 (length layers)))
          else let descendants = drop index layers;
                   kept = take index layers in
            (st\<lparr> ms_layers := butlast kept @ [fold merge_layer descendants (last kept)] \<rparr>,
             disable_on_exit \<or> list_ex ol_disable_on_exit descendants, Ok ())
      | Revoke \<Rightarrow>
          let discarded = drop index layers;
              st = st\<lparr> ms_layers := take index layers \<rparr>;
              disable_on_exit = (disable_on_exit \<or> list_ex ol_disable_on_exit discarded) in
          (case active_sub st (live_count discarded) of
             Err e \<Rightarrow> (st, disable_on_exit, Err e)
           | Ok st \<Rightarrow> (st, disable_on_exit, Ok ())))"

definition drop_abandoned :: "ManagerState \<Rightarrow> ManagerState \<times> bool \<times> (unit, SessionError) result" where
  "drop_abandoned st =
     (case position ol_abandoned (ms_layers st) of
        None \<Rightarrow> (st, False, Ok ())
      | Some index \<Rightarrow>
          let abandoned = drop index (ms_layers st);
              st = st\<lparr> ms_layers := take index (ms_layers st) \<rparr> in
          (case active_sub st (live_count abandoned) of
             Err e \<Rightarrow> (st, False, Err e)
           | Ok st \<Rightarrow> (st, list_ex ol_disable_on_exit abandoned, Ok ())))"

definition finish :: "Finish \<Rightarrow> Session \<Rightarrow> ManagerState \<Rightarrow> ManagerState \<times> Session \<times> (unit, SessionError) result" where
  "finish fin se st =
     (if se_finalized se then (st, se, Ok ())
      else case se_id se of None \<Rightarrow> (st, se\<lparr> se_finalized := True \<rparr>, Ok ())
      | Some i \<Rightarrow>
        (case layer_index i st of None \<Rightarrow> (st, se\<lparr> se_finalized := True \<rparr>, Err InvalidSession)
         | Some index \<Rightarrow>
           let layer = ms_layers st ! index in
           if ol_committed layer \<or> ol_abandoned layer then (st, se, Err InvalidSession)
           else if fin \<noteq> Revoke \<and> \<not> list_all (\<lambda>l. ol_committed l \<and> \<not> ol_abandoned l) (drop (index + 1) (ms_layers st))
           then (st, se, Err InvalidSession)
           else case finish_action fin index st of
             (st, _, Err e) \<Rightarrow> (st, se, Err e)
           | (st, disable1, Ok _) \<Rightarrow>
             (case (if fin \<noteq> Revoke then active_sub st 1 else Ok st) of
                Err e \<Rightarrow> (st, se, Err e)
              | Ok st \<Rightarrow>
                (case drop_abandoned st of
                   (st, _, Err e) \<Rightarrow> (st, se, Err e)
                 | (st, disable2, Ok _) \<Rightarrow>
                   (st\<lparr> ms_enabled := ms_enabled st \<and> \<not> (disable1 \<or> disable2) \<rparr>, se\<lparr> se_finalized := True \<rparr>, Ok ())))))"

definition commit :: "Session \<Rightarrow> ManagerState \<Rightarrow> ManagerState \<times> Session \<times> (unit, SessionError) result" where
  "commit = finish Commit"
definition merge_session :: "Session \<Rightarrow> ManagerState \<Rightarrow> ManagerState \<times> Session \<times> (unit, SessionError) result" where
  "merge_session = finish Merge"
definition revoke :: "Session \<Rightarrow> ManagerState \<Rightarrow> ManagerState \<times> Session \<times> (unit, SessionError) result" where
  "revoke = finish Revoke"

definition close :: "Session \<Rightarrow> ManagerState \<Rightarrow> ManagerState \<times> Session \<times> (unit, SessionError) result" where
  "close se st =
     (if se_finalized se then (st, se, Ok ())
      else case se_id se of None \<Rightarrow> (st, se\<lparr> se_finalized := True \<rparr>, Ok ())
      | Some i \<Rightarrow>
        (case layer_index i st of None \<Rightarrow> (st, se\<lparr> se_finalized := True \<rparr>, Err InvalidSession)
         | Some index \<Rightarrow>
           if list_ex live (drop (index + 1) (ms_layers st)) then
             (let st = st\<lparr> ms_layers := (ms_layers st)[index := (ms_layers st ! index)\<lparr> ol_abandoned := True \<rparr>] \<rparr> in
              case active_sub st 1 of
                Err e \<Rightarrow> (st, se, Err e)
              | Ok st \<Rightarrow> (st, se\<lparr> se_finalized := True \<rparr>, Err InvalidSession))
           else finish Revoke se st))"

section \<open>Checkpoints\<close>

definition head_identity :: "ManagerState \<Rightarrow> bytes option" where
  "head_identity st =
     (if ms_checkpoints st = [] then None else Some (cp_identity (cc_point (last (ms_checkpoints st)))))"

definition not_above_head :: "CursorPoint \<Rightarrow> ManagerState \<Rightarrow> bool" where
  "not_above_head point st \<longleftrightarrow>
     ms_checkpoints st \<noteq> [] \<and> cp_block point \<le> cp_block (cc_point (last (ms_checkpoints st)))"

definition identity_recorded :: "CursorPoint \<Rightarrow> ManagerState \<Rightarrow> bool" where
  "identity_recorded point st \<longleftrightarrow> list_ex (\<lambda>c. cp_identity (cc_point c) = cp_identity point) (ms_checkpoints st)"

definition new_checkpoint :: "CursorPoint \<Rightarrow> ManagerState \<Rightarrow> CommittedCheckpoint" where
  "new_checkpoint point st =
     \<lparr> cc_point = point, cc_parent = head_identity st, cc_view = capture (ms_root st) (ms_layers st) \<rparr>"

definition record_checkpoint :: "CursorPoint \<Rightarrow> ManagerState \<Rightarrow> ManagerState \<times> (unit, CursorError) result" where
  "record_checkpoint point st =
     (if ms_active st \<noteq> 0 \<or> list_ex (\<lambda>l. \<not> ol_committed l \<or> ol_abandoned l) (ms_layers st)
      then (st, Err UncommittedState)
      else if identity_recorded point st then (st, Err IdentityMismatch)
      else if not_above_head point st then (st, Err UnrelatedCheckpoint)
      else (st\<lparr> ms_checkpoints := ms_checkpoints st @ [new_checkpoint point st] \<rparr>, Ok ()))"

definition commit_with_checkpoint :: "CursorPoint \<Rightarrow> Session \<Rightarrow> ManagerState \<Rightarrow>
    ManagerState \<times> Session \<times> (unit, SessionError) result" where
  "commit_with_checkpoint point se st =
     (if se_finalized se then (st, se, Ok ())
      else case se_id se of None \<Rightarrow> (st, se\<lparr> se_finalized := True \<rparr>, Ok ())
      | Some i \<Rightarrow>
        (case layer_index i st of None \<Rightarrow> (st, se\<lparr> se_finalized := True \<rparr>, Err InvalidSession)
         | Some index \<Rightarrow>
           let layer = ms_layers st ! index in
           if ol_committed layer \<or> ol_abandoned layer
             \<or> list_ex (\<lambda>l. \<not> ol_committed l \<or> ol_abandoned l) (drop (index + 1) (ms_layers st))
             \<or> identity_recorded point st \<or> not_above_head point st
           then (st, se, Err InvalidSession)
           else let checkpoint = new_checkpoint point st;
                    st = st\<lparr> ms_layers := (ms_layers st)[index := layer\<lparr> ol_committed := True \<rparr>] \<rparr> in
             (case active_sub st 1 of
                Err e \<Rightarrow> (st, se, Err e)
              | Ok st \<Rightarrow>
                (st\<lparr> ms_checkpoints := ms_checkpoints st @ [checkpoint],
                    ms_enabled := ms_enabled st \<and> \<not> ol_disable_on_exit layer \<rparr>,
                 se\<lparr> se_finalized := True \<rparr>, Ok ()))))"

definition rewind_checkpoint :: "bytes \<Rightarrow> ManagerState \<Rightarrow> ManagerState \<times> (bool, SessionError) result" where
  "rewind_checkpoint expected st =
     (if ms_active st \<noteq> 0 then (st, Err (ActiveSessions (ms_active st)))
      else if ms_layers st = [] then
        (st, if ms_checkpoints st = [] then Ok False else Err InvalidSession)
      else if ms_checkpoints st = [] then (st, Err InvalidSession)
      else let layer = last (ms_layers st); checkpoint = last (ms_checkpoints st) in
        if \<not> ol_committed layer \<or> ol_abandoned layer \<or> cp_identity (cc_point checkpoint) \<noteq> expected
        then (st, Err InvalidSession)
        else (st\<lparr> ms_layers := butlast (ms_layers st), ms_checkpoints := butlast (ms_checkpoints st) \<rparr>, Ok True))"

record CheckpointLayer =
  cl_id :: nat
  cl_committed :: bool
  cl_values :: "(StoreName, overlay_rows) bt_map"

record CheckpointHistory =
  ch_point :: CursorPoint
  ch_parent :: "bytes option"
  ch_image :: image

record CheckpointState =
  cs_layers :: "CheckpointLayer list"
  cs_history :: "CheckpointHistory list"

definition checkpoint_state :: "ManagerState \<Rightarrow> (CheckpointState, SessionError) result" where
  "checkpoint_state st =
     (if ms_active st \<noteq> 0 then Err (ActiveSessions (ms_active st))
      else if list_ex (\<lambda>l. \<not> ol_committed l \<or> ol_abandoned l) (ms_layers st) then Err InvalidSession
      else Ok \<lparr> cs_layers = map (\<lambda>l. \<lparr> cl_id = ol_id l, cl_committed = True, cl_values = ol_values l \<rparr>) (ms_layers st),
                cs_history = map (\<lambda>c. \<lparr> ch_point = cc_point c, ch_parent = cc_parent c, ch_image = rv_image (cc_view c) \<rparr>)
                  (ms_checkpoints st) \<rparr>)"

definition materialize_history :: "CheckpointHistory list \<Rightarrow> CommittedCheckpoint list" where
  "materialize_history history =
     map (\<lambda>h. \<lparr> cc_point = ch_point h, cc_parent = ch_parent h, cc_view = from_image (ch_image h) \<rparr>) history"

definition restore_layer :: "CheckpointLayer \<Rightarrow> OverlayLayer" where
  "restore_layer l =
     \<lparr> ol_values = cl_values l,
       ol_market_values = bt_extend cmp_bytes (map (\<lambda>(name, rows). (name, collect_market_values rows)) (cl_values l)) [],
       ol_committed = True, ol_abandoned = False, ol_disable_on_exit = False, ol_id = cl_id l \<rparr>"

text \<open>\<open>load\<close> is the caller's closure over the root: it returns the stored stack or an error.\<close>

definition replace_checkpoint_state_from :: "(RustLog \<Rightarrow> (CheckpointState, SessionError) result) \<Rightarrow> ManagerState \<Rightarrow>
    ManagerState \<times> (nat, SessionError) result" where
  "replace_checkpoint_state_from load st =
     (if ms_active st \<noteq> 0 then (st, Err (ActiveSessions (ms_active st)))
      else case load (ms_root st) of
        Err e \<Rightarrow> (st, Err e)
      | Ok checkpoint \<Rightarrow>
        if list_ex (\<lambda>l. \<not> cl_committed l) (cs_layers checkpoint) then (st, Err InvalidSession)
        else (st\<lparr> ms_next_id := next_session_id (fold max (map cl_id (cs_layers checkpoint)) 0),
                  ms_layers := map restore_layer (cs_layers checkpoint),
                  ms_checkpoints := materialize_history (cs_history checkpoint) \<rparr>,
              Ok (length (cs_layers checkpoint))))"

definition retreat_checkpoint_with :: "nat \<Rightarrow> (CheckpointState \<Rightarrow> RustLog \<Rightarrow> RustLog \<times> ('t, SessionError) result) \<Rightarrow>
    ManagerState \<Rightarrow> ManagerState \<times> ('t, SessionError) result" where
  "retreat_checkpoint_with n operation st =
     (case checkpoint_state st of
        Err e \<Rightarrow> (st, Err e)
      | Ok stack \<Rightarrow>
        let retained = length (cs_layers stack) - n;
            history_retained = length (cs_history stack) - n;
            checkpoint = \<lparr> cs_layers = take retained (cs_layers stack), cs_history = take history_retained (cs_history stack) \<rparr>;
            (root, r) = operation checkpoint (ms_root st);
            st = st\<lparr> ms_root := root \<rparr> in
        (case r of
           Err e \<Rightarrow> (st, Err e)
         | Ok v \<Rightarrow>
           (st\<lparr> ms_layers := take retained (ms_layers st),
               ms_checkpoints := take (length (cs_history checkpoint)) (ms_checkpoints st) \<rparr>, Ok v)))"

section \<open>The pending layer\<close>

definition reset_pending_outer :: "bool \<Rightarrow> Session \<Rightarrow> ManagerState \<Rightarrow> ManagerState \<times> Session \<times> (unit, SessionError) result" where
  "reset_pending_outer same_manager outer st =
     (if \<not> same_manager then (st, outer, Err InvalidSession)
      else case se_id outer of None \<Rightarrow> (st, outer, Err InvalidSession)
      | Some i \<Rightarrow>
        if se_finalized outer \<or> ms_pending_outer st \<noteq> Some i then (st, outer, Err InvalidSession)
        else case layer_index i st of None \<Rightarrow> (st, outer, Err InvalidSession)
        | Some index \<Rightarrow>
          let layer = ms_layers st ! index in
          if ol_committed layer \<or> ol_abandoned layer then (st, outer, Err InvalidSession)
          else if list_ex live (drop (index + 1) (ms_layers st)) then (st, outer, Err (ActiveSessions (ms_active st)))
          else let discarded = drop index (ms_layers st);
                   st = st\<lparr> ms_layers := take index (ms_layers st) \<rparr> in
            (case active_sub st (live_count discarded) of
               Err e \<Rightarrow> (st, outer, Err e)
             | Ok st \<Rightarrow>
               let replacement_id = ms_next_id st in
               (st\<lparr> ms_next_id := next_session_id replacement_id,
                   ms_layers := ms_layers st @ [empty_layer replacement_id (list_ex ol_disable_on_exit discarded)],
                   ms_active := ms_active st + 1,
                   ms_pending_outer := Some replacement_id \<rparr>,
                outer\<lparr> se_id := Some replacement_id \<rparr>, Ok ())))"

definition release_pending_outer :: "nat \<Rightarrow> ManagerState \<Rightarrow> ManagerState" where
  "release_pending_outer i st = (if ms_pending_outer st = Some i then st\<lparr> ms_pending_outer := None \<rparr> else st)"

definition inject_committed_pending_outer :: "ManagerState \<Rightarrow> ManagerState \<times> (unit, SessionError) result" where
  "inject_committed_pending_outer st =
     (case ms_pending_outer st of None \<Rightarrow> (st, Err InvalidSession)
      | Some i \<Rightarrow>
        (case layer_index i st of None \<Rightarrow> (st, Err InvalidSession)
         | Some index \<Rightarrow>
           let layer = ms_layers st ! index in
           if ol_committed layer \<or> ol_abandoned layer then (st, Err InvalidSession)
           else let st = st\<lparr> ms_layers := (ms_layers st)[index := layer\<lparr> ol_committed := True \<rparr>] \<rparr> in
             (case active_sub st 1 of Err e \<Rightarrow> (st, Err e) | Ok st \<Rightarrow> (st, Ok ()))))"

definition force_reset_pending_outer :: "ManagerState \<Rightarrow> ManagerState" where
  "force_reset_pending_outer st =
     (case ms_pending_outer st of None \<Rightarrow> st
      | Some i \<Rightarrow>
        let st = st\<lparr> ms_pending_outer := None \<rparr> in
        (case layer_index i st of None \<Rightarrow> st
         | Some index \<Rightarrow>
           let discarded = drop index (ms_layers st) in
           st\<lparr> ms_layers := take index (ms_layers st),
               ms_active := ms_active st - live_count discarded,
               ms_enabled := ms_enabled st \<and> \<not> list_ex ol_disable_on_exit discarded \<rparr>))"

text \<open>\<open>PendingSession\<close> holds its outer session until it is committed or closed.\<close>

definition pending_new :: "ManagerState \<Rightarrow> ManagerState \<times> (Session option, SessionError) result" where
  "pending_new st = (case build_pending_outer st of (st, r) \<Rightarrow> (st, and_then r (\<lambda>outer. Ok (Some outer))))"

definition pending_finish :: "Finish \<Rightarrow> Session option \<Rightarrow> ManagerState \<Rightarrow>
    ManagerState \<times> Session option \<times> (unit, SessionError) result" where
  "pending_finish fin outer st =
     (case outer of
        None \<Rightarrow> (st, None, if fin = Revoke then Ok () else Err InvalidSession)
      | Some outer \<Rightarrow>
        (case se_id outer of None \<Rightarrow> (st, Some outer, Err InvalidSession)
         | Some i \<Rightarrow>
           (case finish fin outer st of
              (st, outer, Err e) \<Rightarrow> (st, Some outer, Err e)
            | (st, outer, Ok _) \<Rightarrow> (release_pending_outer i st, None, Ok ()))))"

definition pending_commit :: "Session option \<Rightarrow> ManagerState \<Rightarrow> ManagerState \<times> Session option \<times> (unit, SessionError) result" where
  "pending_commit = pending_finish Commit"

definition pending_close :: "Session option \<Rightarrow> ManagerState \<Rightarrow> ManagerState \<times> Session option \<times> (unit, SessionError) result" where
  "pending_close = pending_finish Revoke"

definition pending_reset :: "Session option \<Rightarrow> ManagerState \<Rightarrow> ManagerState \<times> Session option \<times> (unit, SessionError) result" where
  "pending_reset outer st =
     (case outer of
        None \<Rightarrow> (st, None, Err InvalidSession)
      | Some outer \<Rightarrow> (case reset_pending_outer True outer st of (st, outer, r) \<Rightarrow> (st, Some outer, r)))"

section \<open>Flushing and shutdown\<close>

definition pop :: "ManagerState \<Rightarrow> ManagerState \<times> (bool, SessionError) result" where
  "pop st =
     (if ms_active st \<noteq> 0 then (st, Err (ActiveSessions (ms_active st)))
      else if ms_layers st = [] then (st, Ok False)
      else if ol_committed (last (ms_layers st)) then (st\<lparr> ms_layers := butlast (ms_layers st) \<rparr>, Ok True)
      else (st, Err InvalidSession))"

definition merged_values :: "OverlayLayer list \<Rightarrow> (StoreName, overlay_rows) bt_map" where
  "merged_values layers = fold (\<lambda>layer. merge_values cmp_bytes (ol_values layer)) layers []"

fun overlay_batch_op :: "StoreName \<Rightarrow> bytes \<times> OverlayValue \<Rightarrow> WriteBatch \<Rightarrow> WriteBatch" where
  "overlay_batch_op name (key, OvPut v) batch = state_batch_put name key v batch"
| "overlay_batch_op name (key, OvDelete) batch = state_batch_delete name key batch"

definition overlay_batch :: "(StoreName, overlay_rows) bt_map \<Rightarrow> WriteBatch" where
  "overlay_batch m = fold (\<lambda>(name, rows). fold (overlay_batch_op name) rows) m []"

definition flush_committed_locked :: "os \<Rightarrow> ManagerState \<Rightarrow> ManagerState \<times> (nat, SessionError) result" where
  "flush_committed_locked env st =
     (if ms_active st \<noteq> 0 then (st, Err (ActiveSessions (ms_active st)))
      else if list_ex (\<lambda>l. \<not> ol_committed l) (ms_layers st) then (st, Err InvalidSession)
      else let merged = merged_values (ms_layers st);
               n = length (ms_layers st) in
        if merged \<noteq> [] then
          (case state_batch_commit env (overlay_batch merged) (ms_root st) of
             (root, Err e) \<Rightarrow> (st\<lparr> ms_root := root \<rparr>, Err (SessionStorage e))
           | (root, Ok _) \<Rightarrow> (st\<lparr> ms_root := root, ms_layers := [] \<rparr>, Ok n))
        else (st\<lparr> ms_layers := [] \<rparr>, Ok n))"

definition destroy :: "ManagerState \<Rightarrow> ManagerState \<times> (unit, SessionError) result" where
  "destroy st =
     (if ms_active st \<noteq> 0 then (st, Err (ActiveSessions (ms_active st))) else (st\<lparr> ms_layers := [] \<rparr>, Ok ()))"

definition shutdown_aggregated :: "os \<Rightarrow> bool \<Rightarrow> ManagerState \<Rightarrow> ManagerState \<times> (unit, SessionError list) result" where
  "shutdown_aggregated env flush_committed st =
     (if ms_shutdown_complete st then (st, Ok ())
      else case (if flush_committed then
                   (case flush_committed_locked env st of (st, r) \<Rightarrow> (st, and_then r (\<lambda>_. Ok ())))
                 else destroy st) of
        (st, Err e) \<Rightarrow> (st, Err [e])
      | (st, Ok _) \<Rightarrow>
        let flush_errors = (case flush env (ms_root st) of Err e \<Rightarrow> [SessionStorage e] | Ok _ \<Rightarrow> []);
            (root, r) = close_in_place env (ms_root st);
            errors = flush_errors @ (case r of Err e \<Rightarrow> [SessionStorage e] | Ok _ \<Rightarrow> []) in
        (st\<lparr> ms_root := root, ms_shutdown_complete := True \<rparr>, if errors = [] then Ok () else Err errors))"

section \<open>Durable stores\<close>

definition durable_get :: "ManagerState \<Rightarrow> StoreName \<Rightarrow> bytes \<Rightarrow> bytes option" where
  "durable_get st name key = typed_get (ms_root st) name key"

definition durable_guard :: "ManagerState \<Rightarrow> RustLog \<times> ('a, StorageError) result \<Rightarrow> ManagerState \<times> ('a, SessionError) result" where
  "durable_guard st outcome =
     (if ms_active st \<noteq> 0 then (st, Err (ActiveSessions (ms_active st)))
      else case outcome of
        (root, Err e) \<Rightarrow> (st\<lparr> ms_root := root \<rparr>, Err (SessionStorage e))
      | (root, Ok v) \<Rightarrow> (st\<lparr> ms_root := root \<rparr>, Ok v))"

definition durable_put :: "os \<Rightarrow> StoreName \<Rightarrow> bytes \<Rightarrow> bytes \<Rightarrow> ManagerState \<Rightarrow> ManagerState \<times> (unit, SessionError) result" where
  "durable_put env name key v st = durable_guard st (typed_put env name key v (ms_root st))"

definition durable_delete :: "os \<Rightarrow> StoreName \<Rightarrow> bytes \<Rightarrow> ManagerState \<Rightarrow> ManagerState \<times> (unit, SessionError) result" where
  "durable_delete env name key st = durable_guard st (typed_delete env name key (ms_root st))"

definition durable_put_if_absent :: "os \<Rightarrow> StoreName \<Rightarrow> bytes \<Rightarrow> bytes \<Rightarrow> ManagerState \<Rightarrow> ManagerState \<times> (bool, SessionError) result" where
  "durable_put_if_absent env name key v st = durable_guard st (typed_put_if_absent env name key v (ms_root st))"

definition durable_delete_present :: "os \<Rightarrow> StoreName \<Rightarrow> bytes \<Rightarrow> ManagerState \<Rightarrow> ManagerState \<times> (bool, SessionError) result" where
  "durable_delete_present env name key st = durable_guard st (typed_delete_present env name key (ms_root st))"

definition publish_committed_metadata :: "os \<Rightarrow> StoreKind \<Rightarrow> bytes \<Rightarrow> bytes \<Rightarrow> ManagerState \<Rightarrow> ManagerState \<times> (unit, SessionError) result" where
  "publish_committed_metadata env kind key v st =
     (case typed_put env (kind_name kind) key v (ms_root st) of
        (root, Err e) \<Rightarrow> (st\<lparr> ms_root := root \<rparr>, Err (SessionStorage e))
      | (root, Ok _) \<Rightarrow> (st\<lparr> ms_root := root \<rparr>, Ok ()))"

section \<open>Overlay stores\<close>

definition valid_index :: "nat option \<Rightarrow> ManagerState \<Rightarrow> nat option" where
  "valid_index session_id st =
     (case session_id of None \<Rightarrow> None
      | Some i \<Rightarrow>
        (case layer_index i st of None \<Rightarrow> None
         | Some index \<Rightarrow>
           let layer = ms_layers st ! index in
           if index + 1 = length (ms_layers st) \<and> \<not> ol_committed layer \<and> \<not> ol_abandoned layer then Some index else None))"

text \<open>The newest layer that mentions the key decides.\<close>

fun overlay_lookup :: "OverlayLayer list \<Rightarrow> StoreName \<Rightarrow> bytes \<Rightarrow> OverlayValue option" where
  "overlay_lookup [] name key = None"
| "overlay_lookup (layer # older) name key =
     (case bt_get (entry_or_default name (ol_values layer)) key of
        Some v \<Rightarrow> Some v
      | None \<Rightarrow> overlay_lookup older name key)"

definition overlay_get :: "nat option \<Rightarrow> StoreName \<Rightarrow> bytes \<Rightarrow> ManagerState \<Rightarrow> bytes option" where
  "overlay_get session_id name key st =
     (case valid_index session_id st of None \<Rightarrow> None
      | Some index \<Rightarrow>
        (case overlay_lookup (rev (take (index + 1) (ms_layers st))) name key of
           Some (OvPut v) \<Rightarrow> Some v
         | Some OvDelete \<Rightarrow> None
         | None \<Rightarrow> typed_get (ms_root st) name key))"

definition overlay_get_from_root :: "nat option \<Rightarrow> StoreName \<Rightarrow> bytes \<Rightarrow> ManagerState \<Rightarrow> bytes option" where
  "overlay_get_from_root session_id name key st =
     (case valid_index session_id st of None \<Rightarrow> None | Some _ \<Rightarrow> typed_get (ms_root st) name key)"

definition layer_insert :: "StoreName \<Rightarrow> bytes \<Rightarrow> OverlayValue \<Rightarrow> OverlayLayer \<Rightarrow> OverlayLayer" where
  "layer_insert name key v layer =
     layer\<lparr> ol_values := bt_insert cmp_bytes name
                (bt_insert cmp_bytes key v (entry_or_default name (ol_values layer))) (ol_values layer),
            ol_market_values :=
              (if 54 \<le> length key then bt_insert cmp_bytes name
                 (bt_insert market_total_cmp key v (entry_or_default name (ol_market_values layer))) (ol_market_values layer)
               else ol_market_values layer) \<rparr>"

definition mutate :: "nat option \<Rightarrow> StoreName \<Rightarrow> bytes \<Rightarrow> OverlayValue \<Rightarrow> ManagerState \<Rightarrow> ManagerState \<times> (unit, SessionError) result" where
  "mutate session_id name key v st =
     (case valid_index session_id st of None \<Rightarrow> (st, Err InvalidSession)
      | Some index \<Rightarrow>
        (st\<lparr> ms_layers := (ms_layers st)[index := layer_insert name key v (ms_layers st ! index)] \<rparr>, Ok ()))"

definition overlay_put :: "nat option \<Rightarrow> StoreName \<Rightarrow> bytes \<Rightarrow> bytes \<Rightarrow> ManagerState \<Rightarrow> ManagerState \<times> (unit, SessionError) result" where
  "overlay_put session_id name key v st = mutate session_id name key (OvPut v) st"

definition overlay_delete :: "nat option \<Rightarrow> StoreName \<Rightarrow> bytes \<Rightarrow> ManagerState \<Rightarrow> ManagerState \<times> (unit, SessionError) result" where
  "overlay_delete session_id name key st = mutate session_id name key OvDelete st"

definition overlay_prefix :: "nat option \<Rightarrow> StoreName \<Rightarrow> bytes \<Rightarrow> ManagerState \<Rightarrow> entries" where
  "overlay_prefix session_id name p st =
     (case valid_index session_id st of None \<Rightarrow> []
      | Some index \<Rightarrow>
        fold (\<lambda>layer. fold apply_overlay
                (takeWhile (\<lambda>e. prefix p (fst e)) (bt_range_from cmp_bytes p (entry_or_default name (ol_values layer)))))
          (take (index + 1) (ms_layers st))
          (bt_extend cmp_bytes (typed_prefix (ms_root st) name p) []))"

definition overlay_get_next :: "nat option \<Rightarrow> StoreName \<Rightarrow> bytes \<Rightarrow> nat \<Rightarrow> ManagerState \<Rightarrow> entries" where
  "overlay_get_next session_id name start limit st =
     take limit (filter (\<lambda>e. cmp_bytes (fst e) start \<noteq> Less) (overlay_prefix session_id name [] st))"

definition session_view :: "Session \<Rightarrow> ManagerState \<Rightarrow> ReadView" where
  "session_view se st =
     capture (ms_root st)
       (case se_id se of None \<Rightarrow> []
        | Some i \<Rightarrow> (case layer_index i st of None \<Rightarrow> [] | Some index \<Rightarrow> take (index + 1) (ms_layers st)))"

end
