(* ===== verification/Session_Views.thy ===== *)
theory Session_Views
  imports Session_Manager
begin

text \<open>
  What the overlay stack shows: the values seen through read views, through overlay stores and,
  after a flush, in the durable root are all the same function of the layers, the newest
  mention of a key above the root value.
\<close>

section \<open>The meaning of a layer stack\<close>

definition overlay_update :: "OverlayValue option \<Rightarrow> bytes option \<Rightarrow> bytes option" where
  "overlay_update change base = (case change of None \<Rightarrow> base | Some (OvPut v) \<Rightarrow> Some v | Some OvDelete \<Rightarrow> None)"

definition visible :: "RustLog \<Rightarrow> OverlayLayer list \<Rightarrow> StoreName \<Rightarrow> bytes \<Rightarrow> bytes option" where
  "visible root layers name key = overlay_update (overlay_lookup (rev layers) name key) (typed_get root name key)"

definition values_wf :: "(StoreName, overlay_rows) bt_map \<Rightarrow> bool" where
  "values_wf m \<longleftrightarrow> bt_wf cmp_bytes m \<and> list_all (\<lambda>(name, rows). length name \<le> u32_max \<and> bt_wf cmp_bytes rows) m"

definition layers_wf :: "OverlayLayer list \<Rightarrow> bool" where
  "layers_wf layers \<longleftrightarrow> list_all (\<lambda>layer. values_wf (ol_values layer)) layers"

definition root_wf :: "RustLog \<Rightarrow> bool" where
  "root_wf root \<longleftrightarrow> bt_wf cmp_bytes (rl_entries root) \<and> length (rl_entries root) \<le> usize_max"

lemma overlay_update_simps [simp]:
  "overlay_update None b = b" "overlay_update (Some (OvPut v)) b = Some v" "overlay_update (Some OvDelete) b = None"
  by (simp_all add: overlay_update_def)

lemma overlay_update_comp:
  "overlay_update (case a of Some v \<Rightarrow> Some v | None \<Rightarrow> b) x = overlay_update a (overlay_update b x)"
  by (cases a) (auto simp: overlay_update_def split: OverlayValue.splits)

lemma overlay_lookup_append:
  "overlay_lookup (newer @ older) name key =
     (case overlay_lookup newer name key of Some v \<Rightarrow> Some v | None \<Rightarrow> overlay_lookup older name key)"
  by (induction newer) (auto split: option.splits)

lemma entry_or_default_insert [simp]:
  "entry_or_default name (bt_insert cmp_bytes name' rows m) = (if name = name' then rows else entry_or_default name m)"
  by (simp add: entry_or_default_def)

lemma entry_or_default_Nil [simp]: "entry_or_default name [] = []"
  by (simp add: entry_or_default_def)

lemma entry_or_default_Cons [simp]:
  "entry_or_default name ((name', rows) # m) = (if name = name' then rows else entry_or_default name m)"
  by (simp add: entry_or_default_def)

lemma bytes_wf_distinct: "bt_wf cmp_bytes m \<Longrightarrow> distinct (map fst m)"
  using bytes.wf_distinct [of m] by simp

lemma values_wf_Cons:
  assumes "values_wf ((name, rows) # m)"
  shows "name \<notin> fst ` set m" "length name \<le> u32_max" "distinct (map fst rows)" "bt_wf cmp_bytes rows" "values_wf m"
  using assms bytes_wf_distinct [of "(name, rows) # m"] bytes_wf_distinct [of rows]
  by (auto simp: values_wf_def bt_wf_def)

lemma values_wf_Nil [simp]: "values_wf []"
  by (simp add: values_wf_def)

lemma values_wf_rows: "values_wf m \<Longrightarrow> bt_wf cmp_bytes (entry_or_default name m)"
proof (induction m)
  case (Cons p m)
  obtain n rows where p: "p = (n, rows)" by (cases p)
  from Cons values_wf_Cons [OF Cons.prems [unfolded p]] show ?case by (simp add: p)
qed simp

lemma set_bt_insert: "(x, y) \<in> set (bt_insert cmp_bytes k v m) \<Longrightarrow> x = k \<and> y = v \<or> (x, y) \<in> set m"
proof (induction m)
  case (Cons p m)
  obtain k' v' where p: "p = (k', v')" by (cases p)
  with Cons show ?case by (cases "cmp_bytes k k'") (auto simp: bytes.cmp_eq)
qed simp

lemma values_wf_insert:
  assumes "values_wf m" "length name \<le> u32_max" "bt_wf cmp_bytes rows"
  shows "values_wf (bt_insert cmp_bytes name rows m)"
  using assms by (auto simp: values_wf_def list_all_iff dest!: set_bt_insert)

lemma entry_absent: "name \<notin> fst ` set m \<Longrightarrow> entry_or_default name m = []"
  by (simp add: entry_or_default_def map_of_eq_None_iff [THEN iffD2])

section \<open>Images\<close>

abbreviation image_get :: "image \<Rightarrow> StoreName \<Rightarrow> bytes \<Rightarrow> bytes option" where
  "image_get im name key \<equiv> bt_get (entry_or_default name im) key"

lemma view_get_image: "view_get view name key = image_get (rv_image view) name key"
  by (simp add: view_get_def entry_or_default_def split: option.splits)

lemma get_apply_overlays:
  "distinct (map fst rows) \<Longrightarrow> bt_get (fold apply_overlay rows es) key = overlay_update (bt_get rows key) (bt_get es key)"
proof (induction rows arbitrary: es)
  case (Cons r rows)
  obtain k v where r: "r = (k, v)" by (cases r)
  with Cons.prems have "bt_get rows k = None" by (simp add: map_of_eq_None_iff)
  with Cons r show ?case by (cases v) auto
qed simp

lemma get_apply_store:
  "image_get (apply_store (name', rows) im) name key =
     (if name = name' then bt_get (fold apply_overlay rows (entry_or_default name im)) key else image_get im name key)"
  by (simp add: apply_store_def)

lemma get_apply_stores:
  "values_wf m \<Longrightarrow>
   image_get (fold apply_store m im) name key = overlay_update (bt_get (entry_or_default name m) key) (image_get im name key)"
proof (induction m arbitrary: im)
  case (Cons p m)
  obtain n rows where p: "p = (n, rows)" by (cases p)
  note n = values_wf_Cons(1) [OF Cons.prems [unfolded p]]
    and d = values_wf_Cons(3) [OF Cons.prems [unfolded p]] and wf = values_wf_Cons(5) [OF Cons.prems [unfolded p]]
  have ih: "image_get (fold apply_store m (apply_store (n, rows) im)) name key =
      overlay_update (bt_get (entry_or_default name m) key) (image_get (apply_store (n, rows) im) name key)"
    by (rule Cons.IH [OF wf])
  show ?case
  proof (cases "name = n")
    case True
    with ih show ?thesis by (simp add: p get_apply_store get_apply_overlays [OF d] entry_absent [OF n])
  next
    case False
    with ih show ?thesis by (simp add: p get_apply_store)
  qed
qed simp

lemma get_apply_layers:
  "layers_wf layers \<Longrightarrow>
   image_get (fold (\<lambda>layer. fold apply_store (ol_values layer)) layers im) name key =
     overlay_update (overlay_lookup (rev layers) name key) (image_get im name key)"
proof (induction layers rule: rev_induct)
  case (snoc layer layers)
  then show ?case by (simp add: layers_wf_def get_apply_stores overlay_update_comp)
qed simp

lemma layers_wf_filter [simp]: "layers_wf layers \<Longrightarrow> layers_wf (filter P layers)"
  by (auto simp: layers_wf_def list_all_iff)

lemma layers_wf_take [simp]: "layers_wf layers \<Longrightarrow> layers_wf (take n layers)"
  by (auto simp: layers_wf_def list_all_iff dest: in_set_takeD)

lemma overlay_lookup_in_names: "overlay_lookup layers name key = Some v \<Longrightarrow> \<exists>l\<in>set layers. name \<in> fst ` set (ol_values l)"
proof (induction layers)
  case (Cons l layers)
  then show ?case using entry_absent [of name "ol_values l"] by (fastforce split: option.splits)
qed simp

lemma capture_names_step:
  "set (fold (\<lambda>name names. if name \<in> set names then names else names @ [name]) xs names) = set names \<union> set xs"
  by (induction xs arbitrary: names) auto

lemma set_capture_names:
  "set (capture_names layers) = set (map kind_name StoreKind_ALL) \<union> (\<Union>l\<in>set layers. fst ` set (ol_values l))"
proof -
  have "set (fold (\<lambda>layer names. fold (\<lambda>name names. if name \<in> set names then names else names @ [name])
             (map fst (ol_values layer)) names) layers names) = set names \<union> (\<Union>l\<in>set layers. fst ` set (ol_values l))" for names
    by (induction layers arbitrary: names) (auto simp: capture_names_step)
  then show ?thesis by (simp add: capture_names_def)
qed

lemma kind_in_ALL: "kind \<in> set StoreKind_ALL"
  by (cases kind) (simp_all add: StoreKind_ALL_def)

lemma image_snapshot_names:
  assumes "root_wf root" "length name \<le> u32_max"
  shows "image_get (snapshot_names root names) name key = (if name \<in> set names then typed_get root name key else None)"
  using assms typed_prefix_wf(2) [of root name "[]" key] snapshot_rows_prefix [of root name]
  by (simp add: entry_or_default_def get_snapshot_names root_wf_def)

lemma view_get_capture:
  assumes "root_wf root" "layers_wf layers" "length name \<le> u32_max"
  shows "view_get (capture_where root layers P) name key =
    overlay_update (overlay_lookup (rev (filter P layers)) name key)
      (if name \<in> set (capture_names (filter P layers)) then typed_get root name key else None)"
  using assms by (simp add: view_get_image capture_where_def from_image_def get_apply_layers image_snapshot_names Let_def)

lemma view_get_capture_kind:
  assumes "root_wf root" "layers_wf layers"
  shows "view_get (capture_where root layers P) (kind_name kind) key = visible root (filter P layers) (kind_name kind) key"
  using view_get_capture [OF assms kind_name_ok] kind_in_ALL by (simp add: visible_def set_capture_names)

section \<open>Overlay stores\<close>

lemma layer_index_append:
  "ms_layers st = init @ [l] \<Longrightarrow>
   layer_index i st = Some (length init) \<longleftrightarrow> ol_id l = i \<and> i \<notin> ol_id ` set init"
proof (cases "position (\<lambda>layer. ol_id layer = i) init")
  case None
  assume "ms_layers st = init @ [l]"
  with None show ?thesis using None [unfolded position_None]
    by (auto simp: layer_index_def position_append simp del: position_None)
next
  case (Some j)
  assume "ms_layers st = init @ [l]"
  with Some show ?thesis using position_Some [OF Some]
    by (auto simp: layer_index_def position_append)
qed

lemma valid_index_iff:
  "valid_index sid st = Some index \<longleftrightarrow>
     (\<exists>init l. ms_layers st = init @ [l] \<and> index = length init \<and> live l \<and> sid = Some (ol_id l) \<and> ol_id l \<notin> ol_id ` set init)"
  (is "?L \<longleftrightarrow> ?R")
proof
  assume ?L
  then obtain i where i: "sid = Some i" "layer_index i st = Some index" "index + 1 = length (ms_layers st)"
    "live (ms_layers st ! index)"
    by (auto simp: valid_index_def live_def Let_def split: option.splits if_splits)
  then obtain init l where l: "ms_layers st = init @ [l]" "index = length init"
    by (metis Suc_eq_plus1 append_butlast_last_id length_append_singleton nat.inject length_0_conv nat.distinct(1))
  with i layer_index_append [OF l(1), of i] show ?R by auto
next
  assume ?R
  then obtain init l where "ms_layers st = init @ [l]" "index = length init" "live l" "sid = Some (ol_id l)"
    "ol_id l \<notin> ol_id ` set init" by blast
  with layer_index_append [of st init l "ol_id l"] show ?L
    by (simp add: valid_index_def live_def)
qed

lemma overlay_get_visible:
  "valid_index sid st = Some index \<Longrightarrow> overlay_get sid name key st = visible (ms_root st) (ms_layers st) name key"
proof -
  assume v: "valid_index sid st = Some index"
  then have "take (index + 1) (ms_layers st) = ms_layers st" by (auto simp: valid_index_iff)
  with v show ?thesis by (simp add: overlay_get_def visible_def overlay_update_def)
qed

lemma layer_insert_fields [simp]:
  "ol_id (layer_insert name key v layer) = ol_id layer" "ol_committed (layer_insert name key v layer) = ol_committed layer"
  "ol_abandoned (layer_insert name key v layer) = ol_abandoned layer"
  "ol_disable_on_exit (layer_insert name key v layer) = ol_disable_on_exit layer"
  "live (layer_insert name key v layer) = live layer"
  by (simp_all add: layer_insert_def live_def)

lemma layer_insert_lookup:
  "bt_get (entry_or_default name' (ol_values (layer_insert name key v layer))) key' =
     (if name' = name \<and> key' = key then Some v else bt_get (entry_or_default name' (ol_values layer)) key')"
  by (simp add: layer_insert_def)

lemma mutate_top:
  assumes "valid_index sid st = Some index" "ms_layers st = init @ [l]"
  shows "mutate sid name key v st = (st\<lparr> ms_layers := init @ [layer_insert name key v l] \<rparr>, Ok ())"
proof -
  have "index = length init" using assms by (auto simp: valid_index_iff)
  with assms show ?thesis by (simp add: mutate_def)
qed

lemma valid_index_replace:
  assumes "valid_index sid st = Some index" "ms_layers st = init @ [l]" "ol_id l' = ol_id l" "live l'"
  shows "valid_index sid (st\<lparr> ms_layers := init @ [l'] \<rparr>) = Some index"
  using assms by (auto simp: valid_index_iff)

lemma visible_mutate:
  "visible root (init @ [layer_insert name key v l]) name' key' =
    (if name' = name \<and> key' = key then overlay_update (Some v) None else visible root (init @ [l]) name' key')"
  by (simp add: visible_def layer_insert_lookup) (simp add: overlay_update_def split: OverlayValue.splits)

section \<open>Merging\<close>

lemma merge_values_lookup:
  assumes "values_wf source"
  shows "bt_get (entry_or_default name (merge_values cmp_bytes source target)) key =
    (case bt_get (entry_or_default name source) key of Some v \<Rightarrow> Some v | None \<Rightarrow> bt_get (entry_or_default name target) key)"
  using assms
proof (induction source arbitrary: target)
  case Nil
  then show ?case by (simp add: merge_values_def)
next
  case (Cons p source)
  obtain n rows where p: "p = (n, rows)" by (cases p)
  let ?t = "bt_insert cmp_bytes n (bt_extend cmp_bytes rows (entry_or_default n target)) target"
  note n = values_wf_Cons(1) [OF Cons.prems [unfolded p]]
    and d = values_wf_Cons(3) [OF Cons.prems [unfolded p]] and wf = values_wf_Cons(5) [OF Cons.prems [unfolded p]]
  have "merge_values cmp_bytes (p # source) target = merge_values cmp_bytes source ?t"
    by (simp add: merge_values_def p)
  moreover have "bt_get (bt_extend cmp_bytes rows (entry_or_default n target)) = bt_get (entry_or_default n target) ++ bt_get rows"
    by (rule bytes.get_extend) (use d in auto)
  ultimately show ?case
    using Cons.IH [OF wf, of ?t] entry_absent [OF n]
    by (auto simp: p map_add_def split: option.splits)
qed

lemma merge_layer_fields [simp]:
  "ol_id (merge_layer l p) = ol_id p" "ol_committed (merge_layer l p) = ol_committed p"
  "ol_abandoned (merge_layer l p) = ol_abandoned p" "ol_disable_on_exit (merge_layer l p) = ol_disable_on_exit p"
  "live (merge_layer l p) = live p"
  by (simp_all add: merge_layer_def live_def)

lemma merge_layers_fields [simp]:
  "ol_id (fold merge_layer ls p) = ol_id p" "ol_committed (fold merge_layer ls p) = ol_committed p"
  "ol_abandoned (fold merge_layer ls p) = ol_abandoned p" "ol_disable_on_exit (fold merge_layer ls p) = ol_disable_on_exit p"
  "live (fold merge_layer ls p) = live p"
  by (induction ls arbitrary: p) simp_all

lemma merge_layers_lookup:
  "layers_wf ls \<Longrightarrow>
   overlay_lookup [fold merge_layer ls p] name key = overlay_lookup (rev ls @ [p]) name key"
proof (induction ls arbitrary: p)
  case (Cons l ls)
  then have "overlay_lookup [fold merge_layer ls (merge_layer l p)] name key = overlay_lookup (rev ls @ [merge_layer l p]) name key"
    by (simp add: layers_wf_def)
  moreover have "overlay_lookup [merge_layer l p] name key = overlay_lookup [l, p] name key"
    using Cons.prems by (simp add: layers_wf_def merge_layer_def merge_values_lookup split: option.splits)
  ultimately show ?case
    by (cases "overlay_lookup (rev ls) name key") (simp_all add: overlay_lookup_append del: overlay_lookup.simps)
qed simp

lemma lookup_merged_stack:
  assumes "layers_wf layers" "0 < index" "index < length layers"
  shows "overlay_lookup (rev (butlast (take index layers) @ [fold merge_layer (drop index layers) (last (take index layers))])) name key =
    overlay_lookup (rev layers) name key"
proof -
  let ?kept = "take index layers"
  have ne: "?kept \<noteq> []" using assms by auto
  have wf: "layers_wf (drop index layers)"
    using assms(1) by (auto simp: layers_wf_def list_all_iff dest: in_set_dropD)
  have "rev layers = rev (drop index layers) @ [last ?kept] @ rev (butlast ?kept)"
    using ne by (metis append_butlast_last_id append_take_drop_id rev_append rev_singleton_conv append.assoc rev.simps(2))
  then show ?thesis
    using merge_layers_lookup [OF wf, of "last ?kept" name key]
    by (simp add: overlay_lookup_append split: option.splits)
qed

section \<open>Flushing\<close>

lemma fold_merge_lookup:
  "layers_wf layers \<Longrightarrow>
   bt_get (entry_or_default name (fold (\<lambda>layer. merge_values cmp_bytes (ol_values layer)) layers m)) key =
     (case overlay_lookup (rev layers) name key of Some v \<Rightarrow> Some v | None \<Rightarrow> bt_get (entry_or_default name m) key)"
proof (induction layers rule: rev_induct)
  case (snoc l layers)
  then show ?case by (auto simp: layers_wf_def merge_values_lookup split: option.splits)
qed simp

lemma merged_values_lookup:
  "layers_wf layers \<Longrightarrow> bt_get (entry_or_default name (merged_values layers)) key = overlay_lookup (rev layers) name key"
  by (simp add: merged_values_def fold_merge_lookup split: option.splits)

lemma values_wf_merge:
  "values_wf source \<Longrightarrow> values_wf target \<Longrightarrow> values_wf (merge_values cmp_bytes source target)"
proof (induction source arbitrary: target)
  case (Cons p source)
  obtain n rows where p: "p = (n, rows)" by (cases p)
  note c = values_wf_Cons [OF Cons.prems(1) [unfolded p]]
  have "bt_wf cmp_bytes (bt_extend cmp_bytes rows (entry_or_default n target))"
    using Cons.prems(2) by (intro bytes.wf_extend) (auto simp: values_wf_rows)
  then have "values_wf (bt_insert cmp_bytes n (bt_extend cmp_bytes rows (entry_or_default n target)) target)"
    using values_wf_insert Cons.prems(2) c(2) by blast
  with Cons.IH [OF c(5)] show ?case by (simp add: merge_values_def p)
qed (simp add: merge_values_def)

lemma values_wf_merged: "layers_wf layers \<Longrightarrow> values_wf (merged_values layers)"
proof (induction layers rule: rev_induct)
  case Nil
  then show ?case by (simp add: merged_values_def)
next
  case (snoc l layers)
  then show ?case by (simp add: merged_values_def layers_wf_def values_wf_merge)
qed

fun overlay_op :: "StoreName \<Rightarrow> bytes \<times> OverlayValue \<Rightarrow> BatchOperation" where
  "overlay_op name (key, OvPut v) = Put (physical_key name key) v"
| "overlay_op name (key, OvDelete) = Delete (physical_key name key)"

lemma overlay_batch_ops: "fold (overlay_batch_op name) rows batch = batch @ map (overlay_op name) rows"
proof (induction rows arbitrary: batch)
  case (Cons r rows)
  then show ?case
    by (cases r; cases "snd r") (auto simp: state_batch_put_def state_batch_delete_def batch_put_def batch_delete_def)
qed simp

lemma overlay_batch_concat: "overlay_batch m = concat (map (\<lambda>(name, rows). map (overlay_op name) rows) m)"
proof -
  have "fold (\<lambda>(name, rows). fold (overlay_batch_op name) rows) m batch =
      batch @ concat (map (\<lambda>(name, rows). map (overlay_op name) rows) m)" for batch
    by (induction m arbitrary: batch) (auto simp: overlay_batch_ops)
  then show ?thesis by (simp add: overlay_batch_def)
qed

lemma get_overlay_ops:
  assumes "distinct (map fst rows)" "length name \<le> u32_max" "length name' \<le> u32_max"
  shows "bt_get (apply_batch es (map (overlay_op name') rows)) (physical_key name key) =
    (if name = name' then overlay_update (bt_get rows key) (bt_get es (physical_key name key)) else bt_get es (physical_key name key))"
  using assms(1)
proof (induction rows arbitrary: es)
  case (Cons r rows)
  obtain k v where r: "r = (k, v)" by (cases r)
  with Cons.prems have "bt_get rows k = None" by (simp add: map_of_eq_None_iff)
  with Cons r physical_key_inj [OF assms(2,3), of key k] show ?case
    by (cases v) (auto split: if_splits)
qed simp

lemma get_overlay_batch:
  assumes "length name \<le> u32_max"
  shows "values_wf m \<Longrightarrow> bt_get (apply_batch es (overlay_batch m)) (physical_key name key) =
    overlay_update (bt_get (entry_or_default name m) key) (bt_get es (physical_key name key))"
proof (induction m arbitrary: es)
  case Nil
  then show ?case by (simp add: overlay_batch_concat)
next
  case (Cons p m)
  obtain n rows where p: "p = (n, rows)" by (cases p)
  note c = values_wf_Cons [OF Cons.prems [unfolded p]]
  have "apply_batch es (overlay_batch (p # m)) = apply_batch (apply_batch es (map (overlay_op n) rows)) (overlay_batch m)"
    by (simp add: overlay_batch_concat p apply_batch_append)
  with Cons.IH [OF c(5)] get_overlay_ops [OF c(3) assms c(2)] entry_absent [OF c(1)] show ?case
    by (simp add: p)
qed

section \<open>Finishing\<close>

definition no_abandoned :: "OverlayLayer list \<Rightarrow> bool" where
  "no_abandoned layers \<longleftrightarrow> list_all (\<lambda>l. \<not> ol_abandoned l) layers"

lemma drop_abandoned_none: "no_abandoned (ms_layers st) \<Longrightarrow> drop_abandoned st = (st, False, Ok ())"
proof -
  assume "no_abandoned (ms_layers st)"
  then have "position ol_abandoned (ms_layers st) = None" by (simp add: no_abandoned_def list_all_iff)
  then show ?thesis by (simp add: drop_abandoned_def del: position_None)
qed

lemma layer_index_mid:
  "ms_layers st = init @ l # rest \<Longrightarrow> ol_id l \<notin> ol_id ` set init \<Longrightarrow> layer_index (ol_id l) st = Some (length init)"
proof -
  assume a: "ms_layers st = init @ l # rest" "ol_id l \<notin> ol_id ` set init"
  then have "position (\<lambda>layer. ol_id layer = ol_id l) init = None" by (simp, metis imageI)
  with a show ?thesis by (simp add: layer_index_def position_append del: position_None)
qed

definition run_mutations :: "nat option \<Rightarrow> (StoreName \<times> bytes \<times> OverlayValue) list \<Rightarrow> ManagerState \<Rightarrow> ManagerState" where
  "run_mutations sid ms st = fold (\<lambda>(name, key, v) st. fst (mutate sid name key v st)) ms st"

lemma run_mutations_top:
  assumes "valid_index sid st = Some index" "ms_layers st = init @ [l]"
  shows "\<exists>l'. run_mutations sid ms st = st\<lparr> ms_layers := init @ [l'] \<rparr> \<and> ol_id l' = ol_id l \<and> live l' \<and>
    ol_disable_on_exit l' = ol_disable_on_exit l"
  using assms
proof (induction ms arbitrary: st l)
  case Nil
  have "live l" using Nil by (auto simp: valid_index_iff)
  with Nil show ?case by (intro exI [of _ l]) (auto simp: run_mutations_def)
next
  case (Cons m ms)
  obtain name key v where m: "m = (name, key, v)" by (cases m)
  let ?l = "layer_insert name key v l"
  let ?st = "st\<lparr> ms_layers := init @ [?l] \<rparr>"
  have "live l" using Cons.prems by (auto simp: valid_index_iff)
  then have "valid_index sid ?st = Some index" using Cons.prems by (intro valid_index_replace) auto
  from Cons.IH [OF this, of ?l] obtain l' where "run_mutations sid ms ?st = ?st\<lparr> ms_layers := init @ [l'] \<rparr>"
    "ol_id l' = ol_id l" "live l'" "ol_disable_on_exit l' = ol_disable_on_exit l" by auto
  moreover have "run_mutations sid (m # ms) st = run_mutations sid ms ?st"
    by (simp add: run_mutations_def m mutate_top [OF Cons.prems])
  ultimately show ?case by auto
qed

section \<open>A concrete stack\<close>

definition demo_stack :: ManagerState where
  "demo_stack = (manager_new (fresh_log demo_options))\<lparr>
     ms_layers := [empty_layer 1 False, layer_insert (kind_name KAccount) [7] (OvPut [8]) (empty_layer 2 False)],
     ms_active := 2, ms_next_id := 3 \<rparr>"

lemma demo_stack_facts:
  "root_wf (ms_root demo_stack)" "layers_wf (ms_layers demo_stack)" "no_abandoned (ms_layers demo_stack)"
  "valid_index (Some 2) demo_stack = Some 1"
proof -
  show "root_wf (ms_root demo_stack)" by (simp add: root_wf_def demo_stack_def manager_new_def fresh_log_def)
  have "length (kind_name KAccount) \<le> u32_max" by (rule kind_name_ok)
  then show "layers_wf (ms_layers demo_stack)"
    by (simp add: layers_wf_def demo_stack_def values_wf_def empty_layer_def layer_insert_def bt_wf_def)
  show "no_abandoned (ms_layers demo_stack)" by (simp add: no_abandoned_def demo_stack_def empty_layer_def layer_insert_def)
  show "valid_index (Some 2) demo_stack = Some 1"
    by (simp add: valid_index_def layer_index_def demo_stack_def empty_layer_def layer_insert_def)
qed

section \<open>Properties\<close>

text \<open>C25: reading through the overlay store of the session on top of a well-formed stack gives the same
  values as the read view captured from that session, for every store kind, as long as no layer of
  the stack is abandoned.\<close>

theorem overlay_get_matches_view:
  assumes "root_wf (ms_root st)" and "layers_wf (ms_layers st)" and "no_abandoned (ms_layers st)"
    and "valid_index (se_id se) st = Some index"
  shows "overlay_get (se_id se) (kind_name kind) key st = view_get (session_view se st) (kind_name kind) key"
proof -
  from assms(4) obtain init l where l: "ms_layers st = init @ [l]" "index = length init" "se_id se = Some (ol_id l)"
    "ol_id l \<notin> ol_id ` set init"
    by (auto simp: valid_index_iff)
  then have "layer_index (ol_id l) st = Some (length init)" by (simp add: layer_index_mid)
  then have "session_view se st = capture (ms_root st) (ms_layers st)"
    using l by (simp add: session_view_def)
  moreover have "filter (\<lambda>layer. \<not> ol_abandoned layer) (ms_layers st) = ms_layers st"
    using assms(3) by (simp add: no_abandoned_def list_all_iff filter_id_conv)
  ultimately show ?thesis
    using overlay_get_visible [OF assms(4)] view_get_capture_kind [OF assms(1,2), of "\<lambda>layer. \<not> ol_abandoned layer" kind key]
    by (simp add: capture_def)
qed

lemma overlay_get_matches_view_witness:
  "overlay_get (Some 2) (kind_name KAccount) [7] demo_stack =
     view_get (session_view \<lparr> se_id = Some 2, se_finalized = False \<rparr> demo_stack) (kind_name KAccount) [7]"
  using overlay_get_matches_view [OF demo_stack_facts(1-3), of "\<lparr> se_id = Some 2, se_finalized = False \<rparr>" 1]
  by (simp add: demo_stack_facts)

text \<open>a speculative write is read back by its session, changes no other key, and is
  invisible to the head view and to the durable stores.\<close>

theorem mutate_isolated:
  assumes "valid_index sid st = Some index"
  shows "case mutate sid name key v st of (st', r) \<Rightarrow>
    r = Ok () \<and>
    overlay_get sid name' key' st' =
      (if name' = name \<and> key' = key then (case v of OvPut b \<Rightarrow> Some b | OvDelete \<Rightarrow> None) else overlay_get sid name' key' st) \<and>
    read_view st' = read_view st \<and> durable_get st' name' key' = durable_get st name' key'"
proof -
  from assms obtain init l where l: "ms_layers st = init @ [l]" "live l" by (auto simp: valid_index_iff)
  let ?st = "st\<lparr> ms_layers := init @ [layer_insert name key v l] \<rparr>"
  have m: "mutate sid name key v st = (?st, Ok ())" by (rule mutate_top [OF assms l(1)])
  have "valid_index sid ?st = Some index" by (rule valid_index_replace [OF assms l(1)]) (use l in simp_all)
  from overlay_get_visible [OF this] overlay_get_visible [OF assms] l
  have "overlay_get sid name' key' ?st =
      (if name' = name \<and> key' = key then overlay_update (Some v) None else overlay_get sid name' key' st)"
    by (simp add: visible_mutate)
  moreover have "read_view ?st = read_view st"
    using l by (simp add: read_view_def capture_committed_def capture_where_def live_def)
  ultimately show ?thesis
    by (simp add: m durable_get_def) (simp add: overlay_update_def)
qed

lemma mutate_isolated_witness:
  "overlay_get (Some 2) (kind_name KAccount) [7] (fst (mutate (Some 2) (kind_name KAccount) [7] (OvPut [9]) demo_stack)) = Some [9]"
  using mutate_isolated [OF demo_stack_facts(4), where name = "kind_name KAccount" and key = "[7]" and v = "OvPut [9]"
      and name' = "kind_name KAccount" and key' = "[7]"]
  by (auto split: prod.splits)

text \<open>C15: merging a live session into the live layer directly below it, when only committed layers lie above and no
  layer below is abandoned, succeeds, and the parent then reads exactly what the whole stack showed
  before, committed descendants of the merged session included.\<close>

theorem merge_preserves_view:
  assumes "layers_wf (ms_layers st)" and "ms_layers st = init @ p # c # ds"
    and "distinct (map ol_id (ms_layers st))" and "live p" and "live c"
    and "list_all (\<lambda>l. ol_committed l \<and> \<not> ol_abandoned l) ds" and "no_abandoned init" and "1 \<le> ms_active st"
  shows "\<exists>st'. finish Merge \<lparr> se_id = Some (ol_id c), se_finalized = False \<rparr> st =
      (st', \<lparr> se_id = Some (ol_id c), se_finalized = True \<rparr>, Ok ()) \<and>
    ms_active st' = ms_active st - 1 \<and>
    (\<forall>name key. overlay_get (Some (ol_id p)) name key st' = visible (ms_root st) (ms_layers st) name key)"
proof -
  let ?idx = "length (init @ [p])"
  let ?m = "fold merge_layer (c # ds) p"
  let ?st1 = "st\<lparr> ms_layers := init @ [?m], ms_active := ms_active st - 1 \<rparr>"
  have split: "ms_layers st = (init @ [p]) @ c # ds" using assms(2) by simp
  have idx: "layer_index (ol_id c) st = Some ?idx"
    by (rule layer_index_mid [OF split]) (use assms(2,3) in auto)
  have parts: "take ?idx (ms_layers st) = init @ [p]" "drop ?idx (ms_layers st) = c # ds" "ms_layers st ! ?idx = c"
    "drop (?idx + 1) (ms_layers st) = ds"
    by (simp_all add: split nth_append)
  have act: "finish_action Merge ?idx st = (st\<lparr> ms_layers := init @ [?m] \<rparr>,
      ol_disable_on_exit c \<or> list_ex ol_disable_on_exit (c # ds), Ok ())"
    using parts by (simp add: finish_action_def)
  have "no_abandoned (ms_layers ?st1)"
    using assms(4,7) by (simp add: no_abandoned_def live_def)
  note da = drop_abandoned_none [OF this]
  let ?st2 = "?st1\<lparr> ms_enabled := ms_enabled st \<and> \<not> (ol_disable_on_exit c \<or> list_ex ol_disable_on_exit (c # ds)) \<rparr>"
  have fin: "finish Merge \<lparr> se_id = Some (ol_id c), se_finalized = False \<rparr> st =
      (?st2, \<lparr> se_id = Some (ol_id c), se_finalized = True \<rparr>, Ok ())"
    using assms(5,6,8) idx parts act da by (simp add: finish_def live_def active_sub_def)
  have "valid_index (Some (ol_id p)) ?st2 = Some (length init)"
    using assms(2,3,4) by (auto simp: valid_index_iff)
  moreover have "overlay_lookup (rev (init @ [?m])) name key = overlay_lookup (rev (ms_layers st)) name key" for name key
    using lookup_merged_stack [OF assms(1), of ?idx name key] parts split by simp
  ultimately have "overlay_get (Some (ol_id p)) name key ?st2 = visible (ms_root st) (ms_layers st) name key" for name key
    by (simp add: overlay_get_visible visible_def)
  with fin show ?thesis by (intro exI [of _ ?st2]) simp
qed

lemma merge_preserves_view_witness:
  "\<exists>st'. finish Merge \<lparr> se_id = Some 2, se_finalized = False \<rparr> demo_stack =
      (st', \<lparr> se_id = Some 2, se_finalized = True \<rparr>, Ok ()) \<and>
    overlay_get (Some 1) (kind_name KAccount) [7] st' = visible (fresh_log demo_options) (ms_layers demo_stack) (kind_name KAccount) [7]"
proof -
  let ?c = "layer_insert (kind_name KAccount) [7] (OvPut [8]) (empty_layer 2 False)"
  have "ms_layers demo_stack = [] @ empty_layer 1 False # ?c # []" "distinct (map ol_id (ms_layers demo_stack))"
    "live (empty_layer 1 False)" "live ?c" "ms_root demo_stack = fresh_log demo_options" "ol_id ?c = 2" "ol_id (empty_layer 1 False) = 1"
    "1 \<le> ms_active demo_stack"
    by (simp_all add: demo_stack_def empty_layer_def live_def layer_insert_def manager_new_def)
  with merge_preserves_view [OF demo_stack_facts(2), of "[]" "empty_layer 1 False" ?c "[]"] show ?thesis
    by (auto simp: no_abandoned_def)
qed

text \<open>Revoking a child session undoes it completely. Whatever was written through the child,
  revoking it gives back the state before the child was built, up to the used session
  number.\<close>

theorem revoke_restores:
  assumes "ms_layers st = init @ [p]" and "live p" and "no_abandoned (ms_layers st)"
    and "ms_next_id st \<notin> ol_id ` set (ms_layers st)"
  shows "\<exists>c st1. child \<lparr> se_id = Some (ol_id p), se_finalized = False \<rparr> st = (st1, Ok c) \<and>
    (case finish Revoke c (run_mutations (se_id c) ms st1) of
       (st', c', r) \<Rightarrow> r = Ok () \<and> se_finalized c' \<and> st' = st\<lparr> ms_next_id := next_session_id (ms_next_id st) \<rparr>)"
proof -
  let ?i = "ms_next_id st"
  let ?e = "empty_layer ?i (\<not> ms_enabled st)"
  let ?c = "\<lparr> se_id = Some ?i, se_finalized = False \<rparr>"
  let ?st1 = "st\<lparr> ms_enabled := True, ms_next_id := next_session_id ?i, ms_layers := ms_layers st @ [?e], ms_active := ms_active st + 1 \<rparr>"
  have ch: "child \<lparr> se_id = Some (ol_id p), se_finalized = False \<rparr> st = (?st1, Ok ?c)"
    using assms(1,2) by (simp add: child_def build_child_def push_layer_def live_def Let_def)
  have v: "valid_index (Some ?i) ?st1 = Some (length (ms_layers st))"
    using assms(4) by (auto simp: valid_index_iff empty_layer_def live_def)
  obtain l' where l': "run_mutations (Some ?i) ms ?st1 = ?st1\<lparr> ms_layers := ms_layers st @ [l'] \<rparr>"
    "ol_id l' = ?i" "live l'" "ol_disable_on_exit l' \<longleftrightarrow> \<not> ms_enabled st"
    using run_mutations_top [OF v, of "ms_layers st" ?e ms] by (auto simp: empty_layer_def)
  let ?st2 = "?st1\<lparr> ms_layers := ms_layers st @ [l'] \<rparr>"
  have idx: "layer_index ?i ?st2 = Some (length (ms_layers st))"
    using layer_index_mid [of ?st2 "ms_layers st" l' "[]"] assms(4) l'(2) by simp
  have act: "finish_action Revoke (length (ms_layers st)) ?st2 =
      (?st2\<lparr> ms_layers := ms_layers st, ms_active := ms_active st \<rparr>, \<not> ms_enabled st, Ok ())"
    using l'(3,4) by (simp add: finish_action_def active_sub_def live_count_def)
  have "no_abandoned (ms_layers (?st2\<lparr> ms_layers := ms_layers st, ms_active := ms_active st \<rparr>))" using assms(3) by simp
  note da = drop_abandoned_none [OF this]
  have "finish Revoke ?c ?st2 = (st\<lparr> ms_next_id := next_session_id ?i \<rparr>, ?c\<lparr> se_finalized := True \<rparr>, Ok ())"
    using l'(3) idx act da by (simp add: finish_def live_def)
  with ch l'(1) show ?thesis by (intro exI [of _ ?c] exI [of _ ?st1]) simp
qed

lemma revoke_restores_witness:
  "\<exists>c st1. child \<lparr> se_id = Some 2, se_finalized = False \<rparr> demo_stack = (st1, Ok c) \<and>
    (case finish Revoke c (run_mutations (se_id c) [(kind_name KAccount, [7], OvDelete)] st1) of
       (st', c', r) \<Rightarrow> r = Ok () \<and> se_finalized c' \<and> st' = demo_stack\<lparr> ms_next_id := next_session_id 3 \<rparr>)"
proof -
  let ?c = "layer_insert (kind_name KAccount) [7] (OvPut [8]) (empty_layer 2 False)"
  have "ms_layers demo_stack = [empty_layer 1 False] @ [?c]" "live ?c" "ol_id ?c = 2" "ms_next_id demo_stack = 3"
    "ms_next_id demo_stack \<notin> ol_id ` set (ms_layers demo_stack)"
    by (simp_all add: demo_stack_def empty_layer_def live_def layer_insert_def)
  with revoke_restores [OF _ _ demo_stack_facts(3), of "[empty_layer 1 False]" ?c "[(kind_name KAccount, [7], OvDelete)]"]
  show ?thesis by simp
qed

lemma flush_visible:
  assumes "layers_wf (ms_layers st)" and "length name \<le> u32_max" and "flush_committed_locked env st = (st', r)"
  shows "visible (ms_root st') (ms_layers st') name key = visible (ms_root st) (ms_layers st) name key"
    "is_ok r \<Longrightarrow> ms_layers st' = [] \<and> list_all ol_committed (ms_layers st)"
    "\<not> is_ok r \<Longrightarrow> ms_layers st' = ms_layers st \<and> rl_entries (ms_root st') = rl_entries (ms_root st)"
proof -
  let ?m = "merged_values (ms_layers st)"
  let ?batch = "overlay_batch ?m"
  obtain root r0 where w: "state_batch_commit env ?batch (ms_root st) = (root, r0)"
    by (cases "state_batch_commit env ?batch (ms_root st)")
  have es: "rl_entries root = (if is_ok r0 then apply_batch (rl_entries (ms_root st)) ?batch else rl_entries (ms_root st))"
    using w write_entries by (simp add: state_batch_commit_def log_write_def)
  have lookup: "overlay_lookup (rev (ms_layers st)) name key = bt_get (entry_or_default name ?m) key"
    by (simp add: merged_values_lookup [OF assms(1)])
  have flushed: "typed_get root name key = visible (ms_root st) (ms_layers st) name key" if "is_ok r0"
    using es that get_overlay_batch [OF assms(2) values_wf_merged [OF assms(1)]]
    by (simp add: typed_get_def log_get_def visible_def lookup)
  have kept: "visible root (ms_layers st) name key = visible (ms_root st) (ms_layers st) name key" if "\<not> is_ok r0"
    using es that by (simp add: visible_def typed_get_def log_get_def)
  have none: "visible (ms_root st) [] name key = visible (ms_root st) (ms_layers st) name key" if "?m = []"
    using that lookup by (simp add: visible_def)
  show "visible (ms_root st') (ms_layers st') name key = visible (ms_root st) (ms_layers st) name key"
    using assms(3) flushed kept none w
    by (cases r0) (auto simp: flush_committed_locked_def Let_def visible_def split: if_splits)
  show "is_ok r \<Longrightarrow> ms_layers st' = [] \<and> list_all ol_committed (ms_layers st)"
    using assms(3) w by (cases r0) (auto simp: flush_committed_locked_def Let_def list_all_iff list_ex_iff split: if_splits)
  show "\<not> is_ok r \<Longrightarrow> ms_layers st' = ms_layers st \<and> rl_entries (ms_root st') = rl_entries (ms_root st)"
    using assms(3) w es by (cases r0) (auto simp: flush_committed_locked_def Let_def split: if_splits)
qed

lemma flush_root_wf: "root_wf (ms_root st) \<Longrightarrow> flush_committed_locked env st = (st', r) \<Longrightarrow> bt_wf cmp_bytes (rl_entries (ms_root st'))"
  using write_entries [of env no_faults "overlay_batch (merged_values (ms_layers st))" "ms_root st"]
  by (auto simp: flush_committed_locked_def root_wf_def Let_def state_batch_commit_def log_write_def split: if_splits prod.splits sum.splits)

text \<open>C16: flushing the committed layers into the durable root does not change the read view of the manager.
  When no layer is both committed and abandoned and the root still has at most \<open>usize\<close> many entries, every key of every
  store kind reads the same through \<open>read_view\<close> before and after, whether the flush succeeds or fails; after a
  successful flush no layer is left and the durable root itself holds exactly what the read view showed.\<close>

theorem flush_preserves_view:
  assumes "root_wf (ms_root st)" and "layers_wf (ms_layers st)" and "list_all (\<lambda>l. \<not> (ol_committed l \<and> ol_abandoned l)) (ms_layers st)"
    and "flush_committed_locked env st = (st', r)" and "length (rl_entries (ms_root st')) \<le> usize_max"
  shows "view_get (read_view st') (kind_name kind) key = view_get (read_view st) (kind_name kind) key \<and>
    (is_ok r \<longrightarrow> ms_layers st' = [] \<and> durable_get st' (kind_name kind) key = view_get (read_view st) (kind_name kind) key)"
proof -
  let ?P = "\<lambda>l. ol_committed l \<and> \<not> ol_abandoned l" and ?n = "kind_name kind"
  note fl = flush_visible [OF assms(2) kind_name_ok [of kind] assms(4)]
  have root': "root_wf (ms_root st')" using flush_root_wf [OF assms(1,4)] assms(5) by (simp add: root_wf_def)
  have wf': "layers_wf (ms_layers st')" using fl(2,3) assms(2) by (cases "is_ok r") (auto simp: layers_wf_def)
  note old = view_get_capture_kind [OF assms(1,2), of ?P kind key] and new = view_get_capture_kind [OF root' wf', of ?P kind key]
  show ?thesis
  proof (cases "is_ok r")
    case True
    then have "filter ?P (ms_layers st) = ms_layers st" using fl(2) assms(3) by (auto simp: list_all_iff filter_id_conv)
    then show ?thesis using True fl(1) [of key] fl(2) old new
      by (simp add: read_view_def capture_committed_def durable_get_def visible_def)
  next
    case False
    then show ?thesis using fl(3) old new by (simp add: read_view_def capture_committed_def visible_def typed_get_def log_get_def)
  qed
qed

definition wide_options :: RustLogOptions where
  "wide_options = demo_options\<lparr> max_key_bytes := 64, max_frame_bytes := 256, compact_after_bytes := 0 \<rparr>"

definition demo_committed :: ManagerState where
  "demo_committed = (manager_new (fresh_log wide_options))\<lparr>
     ms_layers := [(layer_insert (kind_name KAccount) [7] (OvPut [8]) (empty_layer 1 False))\<lparr> ol_committed := True \<rparr>] \<rparr>"

lemma demo_committed_flush:
  "is_ok (snd (flush_committed_locked calm_os demo_committed)) \<and> length (rl_entries (ms_root (fst (flush_committed_locked calm_os demo_committed)))) = 1"
proof -
  let ?k = "physical_key (kind_name KAccount) [7]"
  have m: "merged_values (ms_layers demo_committed) = [(kind_name KAccount, [([7], OvPut [8])])]"
    by (simp add: merged_values_def demo_committed_def merge_values_def layer_insert_def empty_layer_def bt_extend_def)
  have b: "overlay_batch [(kind_name KAccount, [([7], OvPut [8])])] = [Put ?k [8]]"
    by (simp add: overlay_batch_concat)
  have opts: "rl_options (fresh_log wide_options) = wide_options" "compact_after_bytes wide_options = 0" "ensure_usable (fresh_log wide_options) = Ok ()"
    by (simp_all add: fresh_log_def wide_options_def demo_options_def ensure_usable_def)
  have "loggable wide_options [Put ?k [8]]"
    by (simp add: loggable_def encode_eval wide_options_def demo_options_def physical_key_def kind_name_def)
  then obtain s' where "write_with_faults calm_os no_faults [Put ?k [8]] (fresh_log wide_options) = (s', Ok ())" "rl_entries s' = [(?k, [8])]"
    using write_undisturbed [OF quiet_calm, of "fresh_log wide_options" "[Put ?k [8]]"] opts by (auto simp: fresh_log_def)
  moreover have "ms_root demo_committed = fresh_log wide_options" "ms_active demo_committed = 0" "list_all ol_committed (ms_layers demo_committed)"
    by (simp_all add: demo_committed_def manager_new_def)
  ultimately show ?thesis
    using m b by (auto simp: flush_committed_locked_def state_batch_commit_def log_write_def list_all_iff list_ex_iff is_ok_def)
qed

lemma flush_preserves_view_witness:
  "case flush_committed_locked calm_os demo_committed of (st', r) \<Rightarrow> is_ok r \<and>
     view_get (read_view st') (kind_name KAccount) [7] = view_get (read_view demo_committed) (kind_name KAccount) [7] \<and>
     durable_get st' (kind_name KAccount) [7] = view_get (read_view demo_committed) (kind_name KAccount) [7]"
proof -
  let ?f = "flush_committed_locked calm_os demo_committed"
  have wf: "layers_wf (ms_layers demo_committed)" "root_wf (ms_root demo_committed)"
    using kind_name_ok [of KAccount]
    by (simp_all add: layers_wf_def root_wf_def demo_committed_def values_wf_def empty_layer_def layer_insert_def bt_wf_def manager_new_def fresh_log_def)
  have one: "list_all (\<lambda>l. \<not> (ol_committed l \<and> ol_abandoned l)) (ms_layers demo_committed)"
    by (simp add: demo_committed_def layer_insert_def empty_layer_def)
  have ok: "is_ok (snd ?f) \<and> length (rl_entries (ms_root (fst ?f))) = 1" by (rule demo_committed_flush)
  then show ?thesis
    using flush_preserves_view [OF wf(2,1) one, of calm_os "fst ?f" "snd ?f" KAccount "[7]"] by (auto split: prod.splits)
qed

text \<open>C38: the two read paths of a session disagree about abandoned parents. Let a session be open on top of the
  stack and let a parent layer \<open>p\<close> below it be the newest one that mentions a key. Closing the handle of
  the parent then only marks its layer as abandoned; the overlay store of the child still reads the value of the abandoned
  layer, while the view of the same child reads what lies below it.\<close>

theorem abandoned_parent_divergence:
  assumes "root_wf (ms_root st)" and "layers_wf (ms_layers st)" and "ms_layers st = init @ p # mid @ [c]"
    and "distinct (map ol_id (ms_layers st))" and "no_abandoned (ms_layers st)" and "live c" and "1 \<le> ms_active st"
    and "overlay_lookup [p] (kind_name kind) key = Some v" and "overlay_lookup (rev (mid @ [c])) (kind_name kind) key = None"
  shows "\<exists>st'. close \<lparr> se_id = Some (ol_id p), se_finalized = False \<rparr> st = (st', \<lparr> se_id = Some (ol_id p), se_finalized = True \<rparr>, Err InvalidSession) \<and>
    overlay_get (Some (ol_id c)) (kind_name kind) key st' = (case v of OvPut b \<Rightarrow> Some b | OvDelete \<Rightarrow> None) \<and>
    view_get (session_view \<lparr> se_id = Some (ol_id c), se_finalized = False \<rparr> st') (kind_name kind) key = visible (ms_root st) init (kind_name kind) key"
proof -
  let ?n = "kind_name kind" and ?p = "p\<lparr> ol_abandoned := True \<rparr>"
  let ?st = "st\<lparr> ms_layers := init @ ?p # mid @ [c], ms_active := ms_active st - 1 \<rparr>"
  have ids: "ol_id p \<notin> ol_id ` set init" "ol_id c \<notin> ol_id ` set (init @ ?p # mid)" using assms(3,4) by auto
  have "layer_index (ol_id p) st = Some (length init)" by (rule layer_index_mid [OF assms(3) ids(1)])
  then have cl: "close \<lparr> se_id = Some (ol_id p), se_finalized = False \<rparr> st = (?st, \<lparr> se_id = Some (ol_id p), se_finalized = True \<rparr>, Err InvalidSession)"
    using assms(3,6,7) by (simp add: close_def active_sub_def)
  have v: "valid_index (Some (ol_id c)) ?st = Some (length (init @ ?p # mid))"
    unfolding valid_index_iff using assms(6) ids(2) by (intro exI [of _ "init @ ?p # mid"] exI [of _ c]) simp
  have p: "overlay_lookup (?p # ls) ?n key = Some v" for ls using assms(8) by (simp split: option.splits)
  have "overlay_lookup (rev (init @ ?p # mid @ [c])) ?n key = Some v"
    using p [of "rev init"] assms(9) overlay_lookup_append [of "rev (mid @ [c])" "?p # rev init" ?n key] by simp
  then have get: "overlay_get (Some (ol_id c)) ?n key ?st = (case v of OvPut b \<Rightarrow> Some b | OvDelete \<Rightarrow> None)"
    unfolding overlay_get_visible [OF v] by (simp add: visible_def overlay_update_def)
  have wf: "layers_wf (ms_layers ?st)" using assms(2,3) by (simp add: layers_wf_def)
  have keep: "filter (\<lambda>l. \<not> ol_abandoned l) (init @ ?p # mid @ [c]) = init @ mid @ [c]"
    using assms(3,5) by (auto simp: no_abandoned_def list_all_iff filter_id_conv)
  have "layer_index (ol_id c) ?st = Some (length (init @ ?p # mid))" using layer_index_mid [of ?st "init @ ?p # mid" c "[]"] ids(2) by simp
  then have "session_view \<lparr> se_id = Some (ol_id c), se_finalized = False \<rparr> ?st = capture (ms_root ?st) (ms_layers ?st)"
    by (simp add: session_view_def)
  then have "view_get (session_view \<lparr> se_id = Some (ol_id c), se_finalized = False \<rparr> ?st) ?n key = visible (ms_root st) (init @ mid @ [c]) ?n key"
    using view_get_capture_kind [OF _ wf, of "ms_root st" "\<lambda>l. \<not> ol_abandoned l" kind key] assms(1) by (simp add: capture_def keep del: filter.simps filter_append)
  also have "\<dots> = visible (ms_root st) init ?n key" using assms(9) overlay_lookup_append [of "rev (mid @ [c])" "rev init" ?n key] by (simp add: visible_def)
  finally show ?thesis using cl get by blast
qed

definition demo_parent_write :: ManagerState where
  "demo_parent_write = (manager_new (fresh_log demo_options))\<lparr>
     ms_layers := [layer_insert (kind_name KAccount) [7] (OvPut [8]) (empty_layer 1 False), empty_layer 2 False],
     ms_active := 2, ms_next_id := 3 \<rparr>"

theorem abandoned_parent_divergence_witness:
  "\<exists>st'. close \<lparr> se_id = Some 1, se_finalized = False \<rparr> demo_parent_write = (st', \<lparr> se_id = Some 1, se_finalized = True \<rparr>, Err InvalidSession) \<and>
     overlay_get (Some 2) (kind_name KAccount) [7] st' = Some [8] \<and>
     view_get (session_view \<lparr> se_id = Some 2, se_finalized = False \<rparr> st') (kind_name KAccount) [7] = None"
proof -
  let ?p = "layer_insert (kind_name KAccount) [7] (OvPut [8]) (empty_layer 1 False)"
  have facts: "root_wf (ms_root demo_parent_write)" "layers_wf (ms_layers demo_parent_write)" "ms_layers demo_parent_write = [] @ ?p # [] @ [empty_layer 2 False]"
    "distinct (map ol_id (ms_layers demo_parent_write))" "no_abandoned (ms_layers demo_parent_write)" "live (empty_layer 2 False)" "1 \<le> ms_active demo_parent_write"
    "overlay_lookup [?p] (kind_name KAccount) [7] = Some (OvPut [8])" "overlay_lookup (rev ([] @ [empty_layer 2 False])) (kind_name KAccount) [7] = None"
    using kind_name_ok [of KAccount]
    by (simp_all add: root_wf_def demo_parent_write_def manager_new_def fresh_log_def layers_wf_def values_wf_def empty_layer_def layer_insert_def bt_wf_def
        no_abandoned_def live_def)
  have "visible (ms_root demo_parent_write) [] (kind_name KAccount) [7] = None"
    by (simp add: visible_def demo_parent_write_def manager_new_def fresh_log_def typed_get_def log_get_def)
  then show ?thesis using abandoned_parent_divergence [OF facts] by (simp add: empty_layer_def layer_insert_def)
qed

end
