(* ===== verification/Session_Invariant.thy ===== *)
theory Session_Invariant
  imports Session_Views
begin

text \<open>
  The session protocol as a state machine: a manager with the session handles that were handed
  out, and every public operation as a step. In every reachable state the session counter is
  the number of live layers, layer numbers are unique, an open handle never owns a committed
  or abandoned layer, and the checkpoint history is a chain. Session numbers are taken not to
  wrap around: a build step requires a next number below the largest \<open>u64\<close>. The test hook
  \<open>inject_committed_pending_outer\<close> and the replacement of the whole stack from disk are not
  steps.
\<close>

section \<open>The invariant\<close>

definition open_id :: "Session \<Rightarrow> nat option" where
  "open_id se = (if se_finalized se then None else se_id se)"

definition sys_inv :: "ManagerState \<Rightarrow> Session list \<Rightarrow> bool" where
  "sys_inv st ss \<longleftrightarrow>
     ms_active st = live_count (ms_layers st) \<and>
     distinct (map ol_id (ms_layers st)) \<and>
     (\<forall>l\<in>set (ms_layers st). ol_id l < ms_next_id st) \<and>
     (\<forall>se\<in>set ss. \<forall>i. open_id se = Some i \<longrightarrow>
        i < ms_next_id st \<and> (\<forall>l\<in>set (ms_layers st). ol_id l = i \<longrightarrow> live l)) \<and>
     (\<forall>j<length ss. \<forall>k<length ss. \<forall>i. open_id (ss ! j) = Some i \<longrightarrow> open_id (ss ! k) = Some i \<longrightarrow> j = k)"

lemma sys_invD:
  assumes "sys_inv st ss"
  shows "ms_active st = live_count (ms_layers st)" "distinct (map ol_id (ms_layers st))"
    "l \<in> set (ms_layers st) \<Longrightarrow> ol_id l < ms_next_id st"
    "j < length ss \<Longrightarrow> open_id (ss ! j) = Some i \<Longrightarrow> i < ms_next_id st"
    "j < length ss \<Longrightarrow> open_id (ss ! j) = Some i \<Longrightarrow> l \<in> set (ms_layers st) \<Longrightarrow> ol_id l = i \<Longrightarrow> live l"
    "j < length ss \<Longrightarrow> k < length ss \<Longrightarrow> open_id (ss ! j) = Some i \<Longrightarrow> open_id (ss ! k) = Some i \<Longrightarrow> j = k"
  using assms unfolding sys_inv_def by (blast, blast, blast, metis nth_mem, metis nth_mem, blast)

lemma sys_inv_same:
  "sys_inv st ss \<Longrightarrow> ms_layers st' = ms_layers st \<Longrightarrow> ms_active st' = ms_active st \<Longrightarrow> ms_next_id st' = ms_next_id st \<Longrightarrow>
   sys_inv st' ss"
  by (simp add: sys_inv_def)

text \<open>The layer list only loses a tail, and only layers numbered \<open>i\<close> change their flags.\<close>

definition evolves :: "nat option \<Rightarrow> OverlayLayer list \<Rightarrow> OverlayLayer list \<Rightarrow> bool" where
  "evolves own layers layers' \<longleftrightarrow>
     length layers' \<le> length layers \<and>
     (\<forall>m<length layers'. ol_id (layers' ! m) = ol_id (layers ! m) \<and>
        (own \<noteq> Some (ol_id (layers ! m)) \<longrightarrow> live (layers' ! m) = live (layers ! m)))"

lemma evolves_refl: "evolves own layers layers"
  by (simp add: evolves_def)

lemma evolves_take: "evolves own layers layers' \<Longrightarrow> evolves own layers (take n layers')"
  by (auto simp: evolves_def)

lemma evolves_ids: "evolves own layers layers' \<Longrightarrow> map ol_id layers' = take (length layers') (map ol_id layers)"
  by (rule nth_equalityI) (auto simp: evolves_def)

lemma evolves_set:
  assumes "evolves own layers layers'" "l' \<in> set layers'"
  obtains l where "l \<in> set layers" "ol_id l = ol_id l'" "own \<noteq> Some (ol_id l) \<Longrightarrow> live l' = live l"
proof -
  from assms(2) obtain m where "m < length layers'" "l' = layers' ! m" by (auto simp: in_set_conv_nth)
  with assms(1) show ?thesis by (intro that [of "layers ! m"]) (auto simp: evolves_def)
qed

lemma sys_inv_evolves:
  assumes inv: "sys_inv st ss" and ev: "evolves own (ms_layers st) (ms_layers st')"
    and act: "ms_active st' = live_count (ms_layers st')" and nid: "ms_next_id st' = ms_next_id st"
    and ss': "ss' = (if own = None then ss else ss[j := se'])" and fin: "se_finalized se'"
    and own: "own \<noteq> None \<Longrightarrow> j < length ss \<and> open_id (ss ! j) = own"
  shows "sys_inv st' ss'"
proof -
  have id': "open_id se' = None" using fin by (simp add: open_id_def)
  have len: "length ss' = length ss" using ss' by simp
  have sub: "open_id (ss' ! k) = Some i \<Longrightarrow> open_id (ss ! k) = Some i \<and> own \<noteq> Some i" if k: "k < length ss" for k i
  proof (cases "own = None")
    case False
    assume o: "open_id (ss' ! k) = Some i"
    with False ss' id' k have "k \<noteq> j" by (auto simp: nth_list_update)
    with False ss' o have ok: "open_id (ss ! k) = Some i" by (auto split: if_splits)
    have "own \<noteq> Some i"
    proof
      assume "own = Some i"
      with own ok k sys_invD(6) [OF inv, of j k i] have "j = k" by auto
      with \<open>k \<noteq> j\<close> show False by simp
    qed
    with ok show ?thesis by simp
  qed (use ss' in simp)
  have "distinct (map ol_id (ms_layers st'))"
    using evolves_ids [OF ev] sys_invD(2) [OF inv] by simp
  moreover have "ol_id l' < ms_next_id st'" if "l' \<in> set (ms_layers st')" for l'
    using evolves_set [OF ev that] sys_invD(3) [OF inv] nid by metis
  moreover have "i < ms_next_id st' \<and> (\<forall>l'\<in>set (ms_layers st'). ol_id l' = i \<longrightarrow> live l')"
    if "se \<in> set ss'" "open_id se = Some i" for se i
  proof -
    from that obtain k where k: "k < length ss" "ss' ! k = se" using len by (metis in_set_conv_nth)
    with sub that have s: "open_id (ss ! k) = Some i" "own \<noteq> Some i" by auto
    have "live l'" if "l' \<in> set (ms_layers st')" "ol_id l' = i" for l'
      using evolves_set [OF ev that(1)] sys_invD(5) [OF inv k(1) s(1)] s(2) that(2) by metis
    with sys_invD(4) [OF inv k(1) s(1)] nid show ?thesis by simp
  qed
  moreover have "j = k" if "j < length ss'" "k < length ss'" "open_id (ss' ! j) = Some i" "open_id (ss' ! k) = Some i" for j k i
    using that sub len sys_invD(6) [OF inv, of j k i] by metis
  ultimately show ?thesis using act unfolding sys_inv_def by blast
qed

lemmas sys_inv_prefix = sys_inv_evolves [where own = None and se' = "\<lparr> se_id = None, se_finalized = True \<rparr>", simplified]

lemma sys_inv_finalize:
  assumes "sys_inv st ss" "se_finalized se'"
  shows "sys_inv st (ss[j := se'])"
proof (cases "j < length ss")
  case True
  have id': "open_id se' = None" using assms(2) by (simp add: open_id_def)
  have sub: "open_id (ss[j := se'] ! k) = Some i \<Longrightarrow> k < length ss \<Longrightarrow> open_id (ss ! k) = Some i" for k i
    using id' by (cases "k = j") auto
  have mem: "\<exists>se0\<in>set ss. open_id se0 = Some i" if "se \<in> set (ss[j := se'])" "open_id se = Some i" for se i
    using that sub by (metis in_set_conv_nth length_list_update)
  show ?thesis
    using assms(1) sub mem unfolding sys_inv_def
    by (intro conjI) (blast, blast, blast, metis, metis length_list_update)
qed (use assms in \<open>simp add: list_update_beyond\<close>)

section \<open>Finishing\<close>

lemma live_count_append [simp]: "live_count (xs @ ys) = live_count xs + live_count ys"
  by (simp add: live_count_def)

lemma live_count_simps [simp]:
  "live_count [] = 0" "live_count (x # xs) = (if live x then 1 else 0) + live_count xs"
  by (simp_all add: live_count_def)

lemma live_count_committed: "list_all (\<lambda>l. ol_committed l \<and> \<not> ol_abandoned l) ls \<Longrightarrow> live_count ls = 0"
  by (induction ls) (auto simp: live_def)

lemma layer_index_split:
  assumes "layer_index i st = Some index"
  obtains pre l post where "ms_layers st = pre @ l # post" "length pre = index" "ol_id l = i"
    "take index (ms_layers st) = pre" "drop index (ms_layers st) = l # post"
    "drop (index + 1) (ms_layers st) = post" "ms_layers st ! index = l"
proof -
  from assms have "index < length (ms_layers st)" "ol_id (ms_layers st ! index) = i"
    by (auto simp: layer_index_def dest: position_Some)
  then show ?thesis
    by (intro that [of "take index (ms_layers st)" "ms_layers st ! index" "drop (index + 1) (ms_layers st)"])
      (simp_all add: Cons_nth_drop_Suc id_take_nth_drop [symmetric])
qed

lemma evolves_update:
  "ms_layers st = pre @ l # post \<Longrightarrow> ol_id l' = ol_id l \<Longrightarrow> evolves (Some (ol_id l)) (ms_layers st) (pre @ l' # post)"
  by (auto simp: evolves_def nth_append nth_Cons split: nat.splits)

text \<open>What the chosen action leaves: enough for the counter never to underflow.\<close>

lemma finish_action_evolves:
  assumes "ms_layers st = pre @ l # post" "live l" "ms_active st = live_count (ms_layers st)"
    and "fin \<noteq> Revoke \<Longrightarrow> list_all (\<lambda>l. ol_committed l \<and> \<not> ol_abandoned l) post"
    and "finish_action fin (length pre) st = (st1, d, r)"
  shows "case r of Err e \<Rightarrow> fin = Merge \<and> st1 = st \<and> e = InvalidDepth 2 (length (ms_layers st))
    | Ok _ \<Rightarrow> \<exists>layers. st1 = st\<lparr> ms_layers := layers, ms_active := live_count layers + (if fin = Revoke then 0 else 1) \<rparr> \<and>
        evolves (Some (ol_id l)) (ms_layers st) layers"
proof (cases fin)
  case Commit
  let ?l = "l\<lparr> ol_committed := True \<rparr>"
  have "st1 = st\<lparr> ms_layers := pre @ ?l # post \<rparr>" "r = Ok ()"
    using assms(1,5) Commit by (auto simp: finish_action_def)
  moreover have "ms_active st = live_count (pre @ ?l # post) + 1" using assms(1-3) by (simp add: live_def)
  ultimately show ?thesis
    using evolves_update [OF assms(1), of ?l] Commit by (auto intro!: exI [of _ "pre @ ?l # post"])
next
  case Revoke
  have "st1 = st\<lparr> ms_layers := pre, ms_active := live_count pre \<rparr>" "r = Ok ()"
    using assms(1,3,5) Revoke by (auto simp: finish_action_def active_sub_def)
  moreover have "evolves (Some (ol_id l)) (ms_layers st) pre" using assms(1) by (auto simp: evolves_def nth_append)
  ultimately show ?thesis using Revoke by auto
next
  case Merge
  show ?thesis
  proof (cases "pre = []")
    case True
    with assms(1,5) Merge show ?thesis by (auto simp: finish_action_def)
  next
    case False
    let ?m = "fold merge_layer (l # post) (last pre)"
    let ?layers = "butlast pre @ [?m]"
    have st1: "st1 = st\<lparr> ms_layers := ?layers \<rparr>" "r = Ok ()"
      using assms(1,5) Merge False by (auto simp: finish_action_def)
    have "live_count ?layers = live_count (butlast pre @ [last pre])" by simp
    then have lc: "live_count ?layers = live_count pre" using False by simp
    have "ms_active st = live_count ?layers + 1"
      using assms(1-4) Merge lc live_count_committed [of post] by simp
    moreover have "evolves (Some (ol_id l)) (ms_layers st) ?layers"
    proof -
      obtain b q where "pre = b @ [q]" using False by (metis append_butlast_last_id)
      then show ?thesis unfolding assms(1) by (auto simp: evolves_def nth_append less_Suc_eq)
    qed
    ultimately show ?thesis using st1 Merge by (auto intro!: exI [of _ ?layers])
  qed
qed

lemma drop_abandoned_evolves:
  assumes "ms_active st = live_count (ms_layers st)" "drop_abandoned st = (st1, d, r)"
  shows "r = Ok () \<and> (\<exists>n. st1 = st\<lparr> ms_layers := take n (ms_layers st), ms_active := live_count (take n (ms_layers st)) \<rparr>)"
proof (cases "position ol_abandoned (ms_layers st)")
  case None
  with assms show ?thesis
    by (auto simp: drop_abandoned_def simp del: position_None intro!: exI [of _ "length (ms_layers st)"])
next
  case (Some index)
  have "live_count (ms_layers st) = live_count (take index (ms_layers st)) + live_count (drop index (ms_layers st))"
    by (metis append_take_drop_id live_count_append)
  with Some assms show ?thesis by (auto simp: drop_abandoned_def active_sub_def)
qed

lemma finish_outcome:
  assumes inv: "ms_active st = live_count (ms_layers st)" and fin: "finish fin se st = (st', se', r)"
  shows "(st' = st \<and> (se' = se \<or> se_finalized se') \<and> r \<noteq> Err NoActiveSession) \<or>
    (\<exists>i layers b. open_id se = Some i \<and> se_finalized se' \<and> r = Ok () \<and> evolves (Some i) (ms_layers st) layers \<and>
       st' = st\<lparr> ms_layers := layers, ms_active := live_count layers, ms_enabled := b \<rparr>)"
proof -
  let ?triv = "st' = st \<and> (se' = se \<or> se_finalized se') \<and> r \<noteq> Err NoActiveSession"
  consider "se_finalized se \<or> se_id se = None" | i where "\<not> se_finalized se" "se_id se = Some i" "layer_index i st = None"
    | i index where "\<not> se_finalized se" "se_id se = Some i" "layer_index i st = Some index"
    by (cases "se_id se"; cases "layer_index (the (se_id se)) st") auto
  then show ?thesis
  proof cases
    case 1
    with fin show ?thesis by (auto simp: finish_def split: if_splits option.splits)
  next
    case (2 i)
    with fin show ?thesis by (auto simp: finish_def)
  next
    case (3 i index)
    from layer_index_split [OF 3(3)] obtain pre l post where l: "ms_layers st = pre @ l # post" "length pre = index"
      "ol_id l = i" "drop (index + 1) (ms_layers st) = post" "ms_layers st ! index = l" by metis
    let ?bad = "ol_committed l \<or> ol_abandoned l \<or> fin \<noteq> Revoke \<and> \<not> list_all (\<lambda>l. ol_committed l \<and> \<not> ol_abandoned l) post"
    show ?thesis
    proof (cases ?bad)
      case True
      then have "finish fin se st = (st, se, Err InvalidSession)"
        using 3 l(4,5) by (simp add: finish_def Let_def) blast
      with fin show ?thesis by auto
    next
      case False
      obtain st1 d r1 where act: "finish_action fin index st = (st1, d, r1)" by (cases "finish_action fin index st")
      note out = finish_action_evolves [OF l(1) _ inv _ act [folded l(2)]]
      show ?thesis
      proof (cases r1)
        case (Inl e)
        with out False fin 3 l act show ?thesis by (auto simp: finish_def live_def)
      next
        case (Inr u)
        from out False Inr obtain layers where s1: "st1 = st\<lparr> ms_layers := layers,
            ms_active := live_count layers + (if fin = Revoke then 0 else 1) \<rparr>"
          and ev: "evolves (Some i) (ms_layers st) layers" using l(3) by (auto simp: live_def)
        let ?st2 = "st\<lparr> ms_layers := layers, ms_active := live_count layers \<rparr>"
        have st2: "(if fin \<noteq> Revoke then active_sub st1 1 else Ok st1) = Ok ?st2"
          using s1 by (simp add: active_sub_def)
        obtain st3 d3 r3 where da: "drop_abandoned ?st2 = (st3, d3, r3)" by (cases "drop_abandoned ?st2")
        from drop_abandoned_evolves [OF _ da] obtain n where st3: "r3 = Ok ()"
          "st3 = st\<lparr> ms_layers := take n layers, ms_active := live_count (take n layers) \<rparr>" by auto
        have live: "\<not> (ol_committed l \<or> ol_abandoned l)"
          "\<not> (fin \<noteq> Revoke \<and> \<not> list_all (\<lambda>l. ol_committed l \<and> \<not> ol_abandoned l) post)" using False by blast+
        have "finish fin se st = (st3\<lparr> ms_enabled := ms_enabled st3 \<and> \<not> (d \<or> d3) \<rparr>, se\<lparr> se_finalized := True \<rparr>, Ok ())"
          unfolding finish_def using 3 by (simp only: l(4,5) Let_def live if_False option.case act Inr prod.case sum.case st2 da st3(1))
        then have res: "st' = st3\<lparr> ms_enabled := ms_enabled st3 \<and> \<not> (d \<or> d3) \<rparr>" "se' = se\<lparr> se_finalized := True \<rparr>" "r = Ok ()"
          using fin by simp_all
        show ?thesis
          using res st3(2) evolves_take [OF ev, of n] 3 by (auto simp: open_id_def intro!: exI [of _ "take n layers"])
      qed
    qed
  qed
qed

lemma sys_inv_finish:
  assumes "sys_inv st ss" "j < length ss" "finish fin (ss ! j) st = (st', se', r)"
  shows "sys_inv st' (ss[j := se'])"
  using finish_outcome [OF sys_invD(1) [OF assms(1)] assms(3)]
proof
  assume "st' = st \<and> (se' = ss ! j \<or> se_finalized se') \<and> r \<noteq> Err NoActiveSession"
  with assms(1) sys_inv_finalize [OF assms(1), of se' j] show ?thesis by auto
next
  assume "\<exists>i layers b. open_id (ss ! j) = Some i \<and> se_finalized se' \<and> r = Ok () \<and> evolves (Some i) (ms_layers st) layers \<and>
       st' = st\<lparr> ms_layers := layers, ms_active := live_count layers, ms_enabled := b \<rparr>"
  then obtain i layers b where "open_id (ss ! j) = Some i" "se_finalized se'" "evolves (Some i) (ms_layers st) layers"
    "st' = st\<lparr> ms_layers := layers, ms_active := live_count layers, ms_enabled := b \<rparr>" by blast
  with sys_inv_evolves [OF assms(1), of "Some i" st' "ss[j := se']" j se'] assms(2) show ?thesis by simp
qed

section \<open>New layers and the other operations\<close>

lemma sys_inv_new_handle: "sys_inv st ss \<Longrightarrow> open_id se = None \<Longrightarrow> sys_inv st (ss @ [se])"
  unfolding sys_inv_def by (auto simp: nth_append less_Suc_eq)

lemma sys_inv_fresh:
  assumes inv: "sys_inv st ss" and j: "j < length ss" "open_id (ss ! j) = None"
    and se: "se = \<lparr> se_id = Some (ms_next_id st), se_finalized = False \<rparr>"
    and st': "ms_layers st' = ms_layers st @ [empty_layer (ms_next_id st) b]" "ms_active st' = ms_active st + 1"
      "ms_next_id st' = ms_next_id st + 1"
  shows "sys_inv st' (ss[j := se])"
proof -
  have new: "open_id se = Some (ms_next_id st)" "live (empty_layer (ms_next_id st) b)" "ol_id (empty_layer (ms_next_id st) b) = ms_next_id st"
    by (simp_all add: se open_id_def live_def empty_layer_def)
  have old: "open_id (ss ! k) = Some i \<Longrightarrow> k < length ss \<Longrightarrow> i \<noteq> ms_next_id st" for k i
    using sys_invD(4) [OF inv] by blast
  have "i < ms_next_id st' \<and> (\<forall>l\<in>set (ms_layers st'). ol_id l = i \<longrightarrow> live l)"
    if "k < length ss" "open_id (ss[j := se] ! k) = Some i" for k i
  proof (cases "k = j")
    case True
    with that new j have "i = ms_next_id st" by simp
    with st' new sys_invD(3) [OF inv] show ?thesis by fastforce
  next
    case False
    with that have "open_id (ss ! k) = Some i" by simp
    with sys_invD(4,5) [OF inv that(1)] st' new old [OF _ that(1)] show ?thesis by (auto intro: less_SucI)
  qed
  then have "\<forall>s\<in>set (ss[j := se]). \<forall>i. open_id s = Some i \<longrightarrow>
      i < ms_next_id st' \<and> (\<forall>l\<in>set (ms_layers st'). ol_id l = i \<longrightarrow> live l)"
    by (metis in_set_conv_nth length_list_update)
  moreover have "ka = kb" if "ka < length ss" "kb < length ss" "open_id (ss[j := se] ! ka) = Some i"
      "open_id (ss[j := se] ! kb) = Some i" for ka kb i
    using that new(1) old sys_invD(6) [OF inv, of ka kb i] by (cases "ka = j"; cases "kb = j") auto
  moreover have "distinct (map ol_id (ms_layers st'))"
    using sys_invD(2,3) [OF inv] st'(1) new(3) by force
  moreover have "\<forall>l\<in>set (ms_layers st'). ol_id l < ms_next_id st'"
    using sys_invD(3) [OF inv] st' new(3) by (auto intro: less_SucI)
  moreover have "ms_active st' = live_count (ms_layers st')"
    using sys_invD(1) [OF inv] st' new(2) by simp
  ultimately show ?thesis unfolding sys_inv_def by (simp only: length_list_update) blast
qed

lemma next_session_id_small: "n + 1 < 18446744073709551616 \<Longrightarrow> next_session_id n = n + 1"
  by (simp add: next_session_id_def)

lemma sys_inv_push:
  assumes "sys_inv st ss" "ms_next_id st + 1 < 18446744073709551616" "push_layer b st = (st', se)"
  shows "sys_inv st' (ss @ [se])"
proof -
  let ?dead = "\<lparr> se_id = None, se_finalized = True \<rparr> :: Session"
  have "sys_inv st (ss @ [?dead])" by (rule sys_inv_new_handle [OF assms(1)]) (simp add: open_id_def)
  then have "sys_inv st' ((ss @ [?dead])[length ss := se])"
    by (rule sys_inv_fresh) (use assms(2,3) in \<open>auto simp: open_id_def push_layer_def Let_def next_session_id_small\<close>)
  then show ?thesis by simp
qed

lemma live_count_take: "live_count ls = 0 \<Longrightarrow> live_count (take n ls) = 0"
  by (metis add_eq_0_iff_both_eq_0 append_take_drop_id live_count_append)

lemma sys_inv_truncate:
  assumes "sys_inv st ss" "ms_layers st' = take n (ms_layers st)" "ms_next_id st' = ms_next_id st"
    "ms_active st' = ms_active st - live_count (drop n (ms_layers st))"
  shows "sys_inv st' ss"
proof (rule sys_inv_prefix [OF assms(1)])
  have "live_count (ms_layers st) = live_count (take n (ms_layers st)) + live_count (drop n (ms_layers st))"
    by (metis append_take_drop_id live_count_append)
  then show "ms_active st' = live_count (ms_layers st')" using assms sys_invD(1) [OF assms(1)] by simp
qed (use assms evolves_take [OF evolves_refl] in auto)

lemma sys_inv_idle_truncate:
  assumes "sys_inv st ss" "ms_active st = 0" "ms_layers st' = take n (ms_layers st)" "ms_next_id st' = ms_next_id st" "ms_active st' = 0"
  shows "sys_inv st' ss"
  by (rule sys_inv_truncate [OF assms(1,3,4)]) (simp add: assms(2,5))

text \<open>A live layer that is flagged committed or abandoned gives up its place in the counter.\<close>

lemma sys_inv_flag:
  assumes inv: "sys_inv st ss" and j: "j < length ss" "open_id (ss ! j) = Some i" "se_finalized se'"
    and idx: "layer_index i st = Some index" and l': "ol_id l' = i" "\<not> live l'"
    and st': "ms_layers st' = (ms_layers st)[index := l']" "ms_active st' = ms_active st - 1" "ms_next_id st' = ms_next_id st"
  shows "sys_inv st' (ss[j := se'])"
proof (rule sys_inv_evolves [OF inv, of "Some i" _ _ j se'])
  from layer_index_split [OF idx] obtain pre l post where l: "ms_layers st = pre @ l # post" "length pre = index" "ol_id l = i" by metis
  then have new: "ms_layers st' = pre @ l' # post" using st'(1) by auto
  have "live l" using sys_invD(5) [OF inv j(1,2)] l by auto
  then show "ms_active st' = live_count (ms_layers st')"
    using sys_invD(1) [OF inv] st'(2) new l l'(2) by simp
  show "evolves (Some i) (ms_layers st) (ms_layers st')" using evolves_update [OF l(1)] l l'(1) new by simp
qed (use assms in auto)

lemma sys_inv_close:
  assumes inv: "sys_inv st ss" and j: "j < length ss" and cl: "close (ss ! j) st = (st', se', r)"
  shows "sys_inv st' (ss[j := se'])"
proof -
  let ?se = "ss ! j"
  consider (closed) "se_finalized ?se \<or> se_id ?se = None \<or> (\<exists>i. se_id ?se = Some i \<and> layer_index i st = None)"
    | (here) i index where "\<not> se_finalized ?se" "se_id ?se = Some i" "layer_index i st = Some index"
    by (cases "se_id ?se"; cases "layer_index (the (se_id ?se)) st") auto
  then show ?thesis
  proof cases
    case closed
    then have "st' = st \<and> (se' = ?se \<or> se_finalized se')"
      using cl by (auto simp: close_def split: if_splits option.splits)
    then show ?thesis using inv sys_inv_finalize [OF inv, of se' j] by auto
  next
    case (here i index)
    show ?thesis
    proof (cases "list_ex live (drop (index + 1) (ms_layers st))")
      case True
      then have "0 < live_count (drop (index + 1) (ms_layers st))" by (induction "drop (index + 1) (ms_layers st)") (auto simp: live_count_def filter_empty_conv list_ex_iff)
      moreover have "live_count (ms_layers st) = live_count (take (index + 1) (ms_layers st)) + live_count (drop (index + 1) (ms_layers st))"
        by (metis append_take_drop_id live_count_append)
      ultimately have "1 \<le> ms_active st" using sys_invD(1) [OF inv] by simp
      with cl here True have out: "se_finalized se'"
        "st' = st\<lparr> ms_layers := (ms_layers st)[index := (ms_layers st ! index)\<lparr> ol_abandoned := True \<rparr>], ms_active := ms_active st - 1 \<rparr>"
        by (auto simp: close_def active_sub_def)
      have "ol_id (ms_layers st ! index) = i" using layer_index_split [OF here(3)] by metis
      with here out show ?thesis
        by (intro sys_inv_flag [OF inv j _ _ here(3), where l' = "(ms_layers st ! index)\<lparr> ol_abandoned := True \<rparr>"])
          (auto simp: open_id_def live_def)
    next
      case False
      with cl here have "finish Revoke ?se st = (st', se', r)" by (simp add: close_def)
      then show ?thesis by (rule sys_inv_finish [OF inv j])
    qed
  qed
qed

lemma live_layer_counts:
  assumes "ms_active st = live_count (ms_layers st)" "layer_index i st = Some index" "live (ms_layers st ! index)"
  shows "1 \<le> ms_active st"
proof -
  from layer_index_split [OF assms(2)] obtain pre l post where "ms_layers st = pre @ l # post" "ms_layers st ! index = l" by metis
  with assms(1,3) show ?thesis by simp
qed

lemma commit_with_checkpoint_outcome:
  assumes act: "ms_active st = live_count (ms_layers st)" and cl: "commit_with_checkpoint point se st = (st', se', r)"
  obtains (closed) "st' = st" "se' = se \<or> se_finalized se'" "r \<noteq> Err NoActiveSession"
    | (here) i index b where "open_id se = Some i" "layer_index i st = Some index" "se_finalized se'" "r = Ok ()"
      "\<not> identity_recorded point st" "\<not> not_above_head point st"
      "st' = st\<lparr> ms_layers := (ms_layers st)[index := (ms_layers st ! index)\<lparr> ol_committed := True \<rparr>],
         ms_active := ms_active st - 1, ms_checkpoints := ms_checkpoints st @ [new_checkpoint point st], ms_enabled := b \<rparr>"
proof (cases "se_finalized se \<or> se_id se = None \<or> (\<exists>i. se_id se = Some i \<and> layer_index i st = None)")
  case True
  with cl have "st' = st" "se' = se \<or> se_finalized se'" "r \<noteq> Err NoActiveSession"
    by (auto simp: commit_with_checkpoint_def split: if_splits option.splits)
  then show ?thesis by (rule closed)
next
  case False
  then obtain i index where i: "\<not> se_finalized se" "se_id se = Some i" "layer_index i st = Some index" by auto
  let ?l = "ms_layers st ! index"
  let ?bad = "ol_committed ?l \<or> ol_abandoned ?l \<or> list_ex (\<lambda>l. \<not> ol_committed l \<or> ol_abandoned l) (drop (index + 1) (ms_layers st))
    \<or> identity_recorded point st \<or> not_above_head point st"
  show ?thesis
  proof (cases ?bad)
    case True
    with cl i have "st' = st" "se' = se" "r = Err InvalidSession" by (auto simp: commit_with_checkpoint_def Let_def)
    then show ?thesis by (intro closed) auto
  next
    case False
    then have "1 \<le> ms_active st" by (intro live_layer_counts [OF act i(3)]) (simp add: live_def)
    with False cl i show ?thesis
      by (intro here [of i index]) (auto simp: commit_with_checkpoint_def active_sub_def Let_def open_id_def new_checkpoint_def)
  qed
qed

lemma sys_inv_commit_with_checkpoint:
  assumes inv: "sys_inv st ss" and j: "j < length ss" and cl: "commit_with_checkpoint point (ss ! j) st = (st', se', r)"
  shows "sys_inv st' (ss[j := se'])"
  using sys_invD(1) [OF inv] cl
proof (cases rule: commit_with_checkpoint_outcome)
  case closed
  then show ?thesis using inv sys_inv_finalize [OF inv, of se' j] by auto
next
  case (here i index b)
  have "ol_id (ms_layers st ! index) = i" using layer_index_split [OF here(2)] by metis
  with here show ?thesis
    by (intro sys_inv_flag [OF inv j here(1,3,2), where l' = "(ms_layers st ! index)\<lparr> ol_committed := True \<rparr>"])
      (auto simp: live_def)
qed

lemma sys_inv_reset_pending_outer:
  assumes inv: "sys_inv st ss" and j: "j < length ss" and small: "ms_next_id st + 1 < 18446744073709551616"
    and rs: "reset_pending_outer same (ss ! j) st = (st', se', r)"
  shows "sys_inv st' (ss[j := se'])"
proof (cases "r = Ok ()")
  case True
  let ?dead = "\<lparr> se_id = None, se_finalized = True \<rparr> :: Session"
  from rs True obtain i index where i: "open_id (ss ! j) = Some i" "layer_index i st = Some index"
    "live_count (drop index (ms_layers st)) \<le> ms_active st"
    and out: "st' = st\<lparr> ms_layers := take index (ms_layers st) @ [empty_layer (ms_next_id st) (list_ex ol_disable_on_exit (drop index (ms_layers st)))],
        ms_active := ms_active st - live_count (drop index (ms_layers st)) + 1, ms_next_id := next_session_id (ms_next_id st),
        ms_pending_outer := Some (ms_next_id st) \<rparr>"
      "se' = (ss ! j)\<lparr> se_id := Some (ms_next_id st) \<rparr>"
    by (auto simp: reset_pending_outer_def active_sub_def Let_def open_id_def split: if_splits option.splits)
  let ?st1 = "st\<lparr> ms_layers := take index (ms_layers st), ms_active := ms_active st - live_count (drop index (ms_layers st)) \<rparr>"
  have "sys_inv ?st1 ss" by (rule sys_inv_truncate [OF inv]) auto
  then have "sys_inv ?st1 (ss[j := ?dead])" by (rule sys_inv_finalize) simp
  then have "sys_inv st' ((ss[j := ?dead])[j := se'])"
    by (rule sys_inv_fresh) (use j i(1) out small in \<open>auto simp: open_id_def next_session_id_small split: if_splits\<close>)
  then show ?thesis by simp
next
  case False
  have "live_count (drop n (ms_layers st)) \<le> ms_active st" for n
    by (metis append_take_drop_id le_add2 live_count_append sys_invD(1) [OF inv])
  with rs False have "st' = st" "se' = ss ! j"
    by (auto simp: reset_pending_outer_def active_sub_def Let_def split: if_splits option.splits)
  with inv show ?thesis by simp
qed

section \<open>The state machine\<close>

text \<open>
  One operation on the manager alone; the handles that were handed out do not change. The
  closure of \<open>retreat_checkpoint_with\<close> and the operating system are arbitrary.
\<close>

inductive manager_op :: "ManagerState \<Rightarrow> ManagerState \<Rightarrow> bool" where
  op_disable: "disable st = (st', r) \<Longrightarrow> manager_op st st'"
| op_enable: "manager_op st (enable st)"
| op_mutate: "mutate session_id name key v st = (st', r) \<Longrightarrow> manager_op st st'"
| op_record: "record_checkpoint point st = (st', r) \<Longrightarrow> manager_op st st'"
| op_rewind: "rewind_checkpoint expected st = (st', r) \<Longrightarrow> manager_op st st'"
| op_retreat: "retreat_checkpoint_with n operation st = (st', r :: (unit, SessionError) result) \<Longrightarrow> manager_op st st'"
| op_release: "manager_op st (release_pending_outer i st)"
| op_force_reset: "manager_op st (force_reset_pending_outer st)"
| op_pop: "pop st = (st', r) \<Longrightarrow> manager_op st st'"
| op_flush: "flush_committed_locked env st = (st', r) \<Longrightarrow> manager_op st st'"
| op_destroy: "destroy st = (st', r) \<Longrightarrow> manager_op st st'"
| op_shutdown: "shutdown_aggregated env b st = (st', r) \<Longrightarrow> manager_op st st'"
| op_durable: "durable_guard st outcome = (st', r :: (unit, SessionError) result) \<Longrightarrow> manager_op st st'"
| op_durable_test: "durable_guard st outcome = (st', r :: (bool, SessionError) result) \<Longrightarrow> manager_op st st'"
| op_metadata: "publish_committed_metadata env kind key v st = (st', r) \<Longrightarrow> manager_op st st'"

inductive session_step :: "ManagerState \<times> Session list \<Rightarrow> ManagerState \<times> Session list \<Rightarrow> bool" where
  step_build: "ms_next_id st + 1 < 18446744073709551616 \<Longrightarrow> build_root b st = (st', Ok se) \<Longrightarrow>
    session_step (st, ss) (st', ss @ [se])"
| step_child: "ms_next_id st + 1 < 18446744073709551616 \<Longrightarrow> j < length ss \<Longrightarrow> child (ss ! j) st = (st', Ok se) \<Longrightarrow>
    session_step (st, ss) (st', ss @ [se])"
| step_pending: "ms_next_id st + 1 < 18446744073709551616 \<Longrightarrow> build_pending_outer st = (st', Ok se) \<Longrightarrow>
    session_step (st, ss) (st', ss @ [se])"
| step_reset: "ms_next_id st + 1 < 18446744073709551616 \<Longrightarrow> j < length ss \<Longrightarrow> reset_pending_outer same (ss ! j) st = (st', se', r) \<Longrightarrow>
    session_step (st, ss) (st', ss[j := se'])"
| step_finish: "j < length ss \<Longrightarrow> finish fin (ss ! j) st = (st', se', r) \<Longrightarrow> session_step (st, ss) (st', ss[j := se'])"
| step_close: "j < length ss \<Longrightarrow> close (ss ! j) st = (st', se', r) \<Longrightarrow> session_step (st, ss) (st', ss[j := se'])"
| step_checkpoint: "j < length ss \<Longrightarrow> commit_with_checkpoint point (ss ! j) st = (st', se', r) \<Longrightarrow>
    session_step (st, ss) (st', ss[j := se'])"
| step_manager: "manager_op st st' \<Longrightarrow> session_step (st, ss) (st', ss)"

definition reachable :: "RustLog \<Rightarrow> ManagerState \<times> Session list \<Rightarrow> bool" where
  "reachable root sys \<longleftrightarrow> session_step\<^sup>*\<^sup>* (manager_new root, []) sys"

lemma mutate_keeps:
  "sys_inv st ss \<Longrightarrow> mutate session_id name key v st = (st', r) \<Longrightarrow> sys_inv st' ss"
proof -
  assume inv: "sys_inv st ss" and mu: "mutate session_id name key v st = (st', r)"
  show ?thesis
  proof (cases "valid_index session_id st")
    case None
    with inv mu show ?thesis by (simp add: mutate_def)
  next
    case (Some index)
    then have idx: "index < length (ms_layers st)"
      by (auto simp: valid_index_def Let_def split: option.splits if_splits)
    let ?l = "ms_layers st ! index" and ?l' = "layer_insert name key v (ms_layers st ! index)"
    have st': "st' = st\<lparr> ms_layers := (ms_layers st)[index := ?l'] \<rparr>" using Some mu by (simp add: mutate_def)
    have same: "ol_id ?l' = ol_id ?l" "live ?l' = live ?l" by (simp_all add: layer_insert_def live_def)
    have ls: "ms_layers st = take index (ms_layers st) @ ?l # drop (Suc index) (ms_layers st)" by (rule id_take_nth_drop [OF idx])
    have ls': "ms_layers st' = take index (ms_layers st) @ ?l' # drop (Suc index) (ms_layers st)"
      using idx st' by (simp add: upd_conv_take_nth_drop)
    have "live_count (ms_layers st') = live_count (ms_layers st)" by (subst ls, subst ls') (simp add: same)
    moreover have "evolves None (ms_layers st) (ms_layers st')"
      using same st' idx by (auto simp: evolves_def nth_list_update)
    ultimately show ?thesis using sys_invD(1) [OF inv] st' by (intro sys_inv_prefix [OF inv]) auto
  qed
qed

lemma checkpoint_state_idle:
  "checkpoint_state st = Ok stack \<Longrightarrow> ms_active st = 0 \<and> length (cs_layers stack) = length (ms_layers st)
     \<and> length (cs_history stack) = length (ms_checkpoints st)"
  by (auto simp: checkpoint_state_def split: if_splits)

lemma retreat_outcome:
  assumes "retreat_checkpoint_with n operation st = (st', r)"
  obtains (same) root where "st' = st\<lparr> ms_root := root \<rparr>"
    | (rewound) root a b where "ms_active st = 0"
      "st' = st\<lparr> ms_root := root, ms_layers := take a (ms_layers st), ms_checkpoints := take b (ms_checkpoints st) \<rparr>"
proof (cases "checkpoint_state st")
  case (Inl e)
  with assms have "st' = st\<lparr> ms_root := ms_root st \<rparr>" by (auto simp: retreat_checkpoint_with_def)
  then show ?thesis by (rule same)
next
  case (Inr stack)
  let ?c = "\<lparr> cs_layers = take (length (cs_layers stack) - n) (cs_layers stack),
              cs_history = take (length (cs_history stack) - n) (cs_history stack) \<rparr>"
  obtain root v where op: "operation ?c (ms_root st) = (root, v)" by (cases "operation ?c (ms_root st)")
  show ?thesis
  proof (cases v)
    case (Inl e)
    with assms Inr op show ?thesis by (intro same [of root]) (simp add: retreat_checkpoint_with_def Let_def)
  next
    case okv: (Inr x)
    with assms Inr op checkpoint_state_idle [OF Inr] show ?thesis
      by (intro rewound [of "length (cs_history ?c)" "length (cs_layers stack) - n" root]) (simp_all add: retreat_checkpoint_with_def Let_def)
  qed
qed

lemma sys_inv_flush:
  assumes "flush_committed_locked env st = (st', r)" "sys_inv st ss"
  shows "sys_inv st' ss"
proof (cases "ms_active st = 0")
  case True
  have "(ms_layers st' = ms_layers st \<or> ms_layers st' = []) \<and> ms_active st' = ms_active st \<and> ms_next_id st' = ms_next_id st"
    using assms(1) True
    by (auto simp: flush_committed_locked_def Let_def split: if_splits prod.splits sum.splits)
  then show ?thesis
    using True sys_inv_same [OF assms(2), of st'] sys_inv_idle_truncate [OF assms(2) True, of st' 0] by auto
qed (use assms in \<open>simp add: flush_committed_locked_def\<close>)

lemma sys_inv_destroy: "destroy st = (st', r) \<Longrightarrow> sys_inv st ss \<Longrightarrow> sys_inv st' ss"
  by (cases "ms_active st = 0") (auto simp: destroy_def intro: sys_inv_idle_truncate [where n = 0])

lemma sys_inv_shutdown:
  assumes "shutdown_aggregated env b st = (st', r)" "sys_inv st ss"
  shows "sys_inv st' ss"
proof (cases "ms_shutdown_complete st")
  case False
  obtain st1 r1 where fl: "flush_committed_locked env st = (st1, r1)" by (cases "flush_committed_locked env st")
  obtain st2 r2 where de: "destroy st = (st2, r2)" by (cases "destroy st")
  let ?mid = "if b then st1 else st2"
  have "sys_inv ?mid ss" using sys_inv_flush [OF fl assms(2)] sys_inv_destroy [OF de assms(2)] by simp
  moreover have "ms_layers st' = ms_layers ?mid \<and> ms_active st' = ms_active ?mid \<and> ms_next_id st' = ms_next_id ?mid"
    using assms(1) False fl de
    by (cases r1; cases r2; cases b) (auto simp: shutdown_aggregated_def and_then_def Let_def split: prod.splits sum.splits if_splits)
  ultimately show ?thesis using sys_inv_same by blast
qed (use assms in \<open>simp add: shutdown_aggregated_def\<close>)

definition same_stack :: "ManagerState \<Rightarrow> ManagerState \<Rightarrow> bool" where
  "same_stack st st' \<longleftrightarrow> ms_layers st' = ms_layers st \<and> ms_active st' = ms_active st \<and> ms_next_id st' = ms_next_id st"

lemma same_stackD: "same_stack st st' \<Longrightarrow> sys_inv st ss \<Longrightarrow> sys_inv st' ss"
  by (simp add: same_stack_def sys_inv_def)

lemma same_stack_ops:
  "disable st = (st', r1) \<Longrightarrow> same_stack st st'"
  "same_stack st (enable st)"
  "record_checkpoint point st = (st', r2) \<Longrightarrow> same_stack st st'"
  "same_stack st (release_pending_outer i st)"
  "durable_guard st outcome = (st', r3) \<Longrightarrow> same_stack st st'"
  "publish_committed_metadata env kind key v st = (st', r4) \<Longrightarrow> same_stack st st'"
  by (auto simp: same_stack_def disable_def enable_def record_checkpoint_def release_pending_outer_def durable_guard_def
      publish_committed_metadata_def split: if_splits sum.splits prod.splits)

definition drops_top :: "ManagerState \<Rightarrow> ManagerState \<Rightarrow> bool" where
  "drops_top st st' \<longleftrightarrow> same_stack st st' \<or>
     ms_active st = 0 \<and> ms_active st' = 0 \<and> ms_next_id st' = ms_next_id st \<and>
     ms_layers st' = take (length (ms_layers st) - 1) (ms_layers st)"

lemma drops_top_ops:
  "rewind_checkpoint expected st = (st', r) \<Longrightarrow> drops_top st st'"
  "pop st = (st', r) \<Longrightarrow> drops_top st st'"
  by (auto simp: drops_top_def same_stack_def rewind_checkpoint_def pop_def Let_def butlast_conv_take split: if_splits)

lemma drops_topD: "drops_top st st' \<Longrightarrow> sys_inv st ss \<Longrightarrow> sys_inv st' ss"
  unfolding drops_top_def using same_stackD sys_inv_idle_truncate by blast

lemma sys_inv_force_reset:
  assumes "sys_inv st ss"
  shows "sys_inv (force_reset_pending_outer st) ss"
proof (cases "ms_pending_outer st")
  case (Some i)
  show ?thesis
  proof (cases "layer_index i st")
    case (Some index)
    with \<open>ms_pending_outer st = Some i\<close> show ?thesis
      by (intro sys_inv_truncate [OF assms, where n = index]) (simp_all add: force_reset_pending_outer_def layer_index_def Let_def)
  next
    case None
    with Some have "same_stack st (force_reset_pending_outer st)"
      by (simp add: force_reset_pending_outer_def layer_index_def same_stack_def del: position_None)
    then show ?thesis using assms by (rule same_stackD)
  qed
qed (use assms in \<open>simp add: force_reset_pending_outer_def\<close>)

lemma sys_inv_retreat:
  assumes "retreat_checkpoint_with n operation st = (st', r)" "sys_inv st ss"
  shows "sys_inv st' ss"
  using assms(1)
proof (cases rule: retreat_outcome)
  case (same root)
  with assms(2) show ?thesis by (simp add: sys_inv_def)
next
  case (rewound root a b)
  then show ?thesis by (intro sys_inv_idle_truncate [OF assms(2), where n = a]) simp_all
qed

lemma sys_inv_manager_op: "manager_op st st' \<Longrightarrow> sys_inv st ss \<Longrightarrow> sys_inv st' ss"
  by (induction rule: manager_op.induct)
    (blast intro: same_stackD [OF same_stack_ops(1)] same_stackD [OF same_stack_ops(2)] same_stackD [OF same_stack_ops(3)]
      same_stackD [OF same_stack_ops(4)] same_stackD [OF same_stack_ops(5)] same_stackD [OF same_stack_ops(6)]
      drops_topD [OF drops_top_ops(1)] drops_topD [OF drops_top_ops(2)] mutate_keeps sys_inv_retreat sys_inv_force_reset
      sys_inv_flush sys_inv_destroy sys_inv_shutdown)+

lemma sys_inv_step: "session_step sys sys' \<Longrightarrow> sys_inv (fst sys) (snd sys) \<Longrightarrow> sys_inv (fst sys') (snd sys')"
proof (induction rule: session_step.induct)
  case (step_build st b st' se ss)
  then show ?case
    by (auto simp: build_root_def session_noop_def open_id_def split: if_splits prod.splits
        intro: sys_inv_push sys_inv_new_handle)
next
  case (step_child st j ss st' se)
  then show ?case
    by (auto simp: child_def build_child_def Let_def split: if_splits option.splits prod.splits intro: sys_inv_push)
next
  case (step_pending st st' se ss)
  then obtain st1 where "push_layer True st = (st1, se)" "same_stack st1 st'"
    by (auto simp: build_pending_outer_def same_stack_def split: if_splits prod.splits)
  with step_pending show ?case using same_stackD sys_inv_push by fastforce
qed (auto intro: sys_inv_finish sys_inv_close sys_inv_commit_with_checkpoint sys_inv_reset_pending_outer sys_inv_manager_op)

lemma sys_inv_init: "sys_inv (manager_new root) []"
  by (simp add: sys_inv_def manager_new_def)

lemma reachable_sys_inv: "reachable root sys \<Longrightarrow> sys_inv (fst sys) (snd sys)"
  unfolding reachable_def
  by (induction rule: rtranclp_induct) (auto simp: sys_inv_init sys_inv_step)

section \<open>The checkpoint history\<close>

definition checkpoint_identity :: "CommittedCheckpoint \<Rightarrow> bytes" where
  "checkpoint_identity c = cp_identity (cc_point c)"

definition checkpoint_block :: "CommittedCheckpoint \<Rightarrow> nat" where
  "checkpoint_block c = cp_block (cc_point c)"

text \<open>Blocks rise, no identity repeats, and each checkpoint names its predecessor as its parent.\<close>

definition history_chain :: "CommittedCheckpoint list \<Rightarrow> bool" where
  "history_chain cs \<longleftrightarrow> sorted_wrt (<) (map checkpoint_block cs) \<and> distinct (map checkpoint_identity cs) \<and>
     (\<forall>k<length cs. cc_parent (cs ! k) = (if k = 0 then None else Some (checkpoint_identity (cs ! (k - 1)))))"

lemma history_chain_take:
  assumes "history_chain cs"
  shows "history_chain (take n cs)"
proof -
  have "sorted_wrt (<) (take n (map checkpoint_block cs))" "distinct (take n (map checkpoint_identity cs))"
    using assms sorted_wrt_take by (auto simp: history_chain_def)
  then show ?thesis using assms by (auto simp: history_chain_def take_map)
qed

lemma history_chain_butlast: "history_chain cs \<Longrightarrow> history_chain (butlast cs)"
  by (simp add: butlast_conv_take history_chain_take)

lemma history_chain_new:
  assumes ch: "history_chain (ms_checkpoints st)" and fresh: "\<not> identity_recorded point st" and above: "\<not> not_above_head point st"
  shows "history_chain (ms_checkpoints st @ [new_checkpoint point st])"
proof -
  let ?cs = "ms_checkpoints st" and ?c = "new_checkpoint point st"
  have "checkpoint_block c < checkpoint_block ?c" if "c \<in> set ?cs" for c
  proof -
    have ne: "?cs \<noteq> []" using that by auto
    from that obtain k where k: "k < length ?cs" "c = ?cs ! k" by (auto simp: in_set_conv_nth)
    have "checkpoint_block c \<le> checkpoint_block (last ?cs)"
    proof (cases "k = length ?cs - 1")
      case False
      with k ne ch have "map checkpoint_block ?cs ! k < map checkpoint_block ?cs ! (length ?cs - 1)"
        unfolding history_chain_def by (intro sorted_wrt_nth_less [where P = "(<)"]) auto
      with k ne show ?thesis by (simp add: last_conv_nth)
    qed (use k ne in \<open>simp add: last_conv_nth\<close>)
    also have "\<dots> < checkpoint_block ?c" using above ne by (simp add: not_above_head_def checkpoint_block_def new_checkpoint_def)
    finally show ?thesis .
  qed
  moreover have "checkpoint_identity ?c \<notin> checkpoint_identity ` set ?cs"
    using fresh by (auto simp: identity_recorded_def checkpoint_identity_def new_checkpoint_def list_ex_iff)
  moreover have "cc_parent ?c = (if ?cs = [] then None else Some (checkpoint_identity (?cs ! (length ?cs - 1))))"
    by (simp add: new_checkpoint_def head_identity_def checkpoint_identity_def last_conv_nth)
  ultimately show ?thesis
    using ch by (auto simp: history_chain_def sorted_wrt_append nth_append less_Suc_eq)
qed

lemma chain_manager_op:
  assumes "manager_op st st'" "history_chain (ms_checkpoints st)"
  shows "history_chain (ms_checkpoints st')"
  using assms
proof (induction rule: manager_op.induct)
  case (op_record point st st' r)
  then show ?case by (auto simp: record_checkpoint_def split: if_splits intro: history_chain_new)
next
  case (op_rewind expected st st' r)
  then show ?case by (auto simp: rewind_checkpoint_def Let_def split: if_splits intro: history_chain_butlast)
next
  case (op_retreat n operation st st' r)
  then show ?case by (cases rule: retreat_outcome) (auto intro: history_chain_take)
next
  case (op_shutdown env b st st' r)
  then show ?case
    by (auto simp: shutdown_aggregated_def flush_committed_locked_def destroy_def Let_def and_then_def split: if_splits prod.splits sum.splits)
qed (auto simp: disable_def enable_def mutate_def release_pending_outer_def force_reset_pending_outer_def pop_def
    flush_committed_locked_def destroy_def durable_guard_def publish_committed_metadata_def Let_def
    split: if_splits option.splits prod.splits sum.splits)

lemma finish_checkpoints:
  assumes "ms_active st = live_count (ms_layers st)" "finish fin se st = (st', se', r)"
  shows "ms_checkpoints st' = ms_checkpoints st"
  using finish_outcome [OF assms] by auto

lemma close_checkpoints:
  assumes "ms_active st = live_count (ms_layers st)" "close se st = (st', se', r)"
  shows "ms_checkpoints st' = ms_checkpoints st"
  using assms finish_checkpoints [OF assms(1), of Revoke se]
  by (auto simp: close_def active_sub_def Let_def split: if_splits option.splits)

lemma chain_step:
  "session_step sys sys' \<Longrightarrow> sys_inv (fst sys) (snd sys) \<Longrightarrow> history_chain (ms_checkpoints (fst sys)) \<Longrightarrow>
   history_chain (ms_checkpoints (fst sys'))"
proof (induction rule: session_step.induct)
  case (step_checkpoint j ss point st st' se' r)
  from sys_invD(1) [OF step_checkpoint(3)] have "ms_active st = live_count (ms_layers st)" by simp
  from this step_checkpoint(2) show ?case
  proof (cases rule: commit_with_checkpoint_outcome)
    case (here i index b)
    with step_checkpoint(4) history_chain_new show ?thesis by simp
  qed (use step_checkpoint(4) in simp)
next
  case (step_finish j ss fin st st' se' r)
  then show ?case using finish_checkpoints [OF sys_invD(1)] by fastforce
next
  case (step_close j ss st st' se' r)
  then show ?case using close_checkpoints [OF sys_invD(1)] by fastforce
next
  case (step_manager st st' ss)
  then show ?case using chain_manager_op by simp
qed (auto simp: build_root_def child_def build_child_def build_pending_outer_def push_layer_def reset_pending_outer_def active_sub_def
    Let_def split: if_splits option.splits)

lemma reachable_chain:
  assumes "reachable root sys"
  shows "history_chain (ms_checkpoints (fst sys))"
  using assms unfolding reachable_def
proof (induction rule: rtranclp_induct)
  case base
  then show ?case by (simp add: history_chain_def manager_new_def)
next
  case (step sys sys')
  then have "sys_inv (fst sys) (snd sys)" using reachable_sys_inv by (simp add: reachable_def)
  with step show ?case using chain_step by blast
qed

lemma revoke_outcome:
  assumes inv: "sys_inv st ss" and j: "j < length ss" "open_id (ss ! j) = Some i" and idx: "layer_index i st = Some index"
  shows "\<exists>st' se'. finish Revoke (ss ! j) st = (st', se', Ok ()) \<and> se_finalized se' \<and> layer_index i st' = None"
proof -
  let ?se = "ss ! j"
  have se: "\<not> se_finalized ?se" "se_id ?se = Some i" using j(2) by (auto simp: open_id_def split: if_splits)
  from layer_index_split [OF idx] obtain pre l post where l: "ms_layers st = pre @ l # post" "length pre = index" "ol_id l = i"
    "ms_layers st ! index = l" by metis
  have lv: "live l" using sys_invD(5) [OF inv j] l by auto
  have act: "ms_active st = live_count pre + live_count (l # post)" using sys_invD(1) [OF inv] l by simp
  obtain st1 d r1 where fa: "finish_action Revoke index st = (st1, d, r1)" by (cases "finish_action Revoke index st")
  have st1: "st1 = st\<lparr> ms_layers := pre, ms_active := live_count pre \<rparr>" "r1 = Ok ()"
    using fa act l by (auto simp: finish_action_def active_sub_def)
  obtain st2 d2 r2 where da: "drop_abandoned st1 = (st2, d2, r2)" by (cases "drop_abandoned st1")
  from drop_abandoned_evolves [OF _ da] st1 obtain n where st2: "r2 = Ok ()" "ms_layers st2 = take n pre" by auto
  have fin: "finish Revoke ?se st = (st2\<lparr> ms_enabled := ms_enabled st2 \<and> \<not> (d \<or> d2) \<rparr>, ?se\<lparr> se_finalized := True \<rparr>, Ok ())"
    unfolding finish_def using se idx l(4) lv fa st1(2) da st2(1) by (simp add: live_def)
  have "i \<notin> ol_id ` set (take n pre)" using sys_invD(2) [OF inv] l set_take_subset [of n pre] by auto
  then have "position (\<lambda>layer. ol_id layer = i) (take n pre) = None" by (auto simp: list_all_iff)
  with fin st2(2) show ?thesis by (auto simp: layer_index_def simp del: position_None)
qed

section \<open>The properties\<close>

text \<open>
  A concrete run: a root session is built, then committed with a checkpoint.
\<close>

definition demo_point :: CursorPoint where
  "demo_point = \<lparr> cp_block = 1, cp_identity = [7] \<rparr>"

definition demo_open :: "ManagerState \<times> Session list" where
  "demo_open = (manager_new (fresh_log demo_options)\<lparr> ms_layers := [empty_layer 1 False], ms_active := 1, ms_next_id := 2 \<rparr>,
     [\<lparr> se_id = Some 1, se_finalized = False \<rparr>])"

lemma demo_open_reachable: "reachable (fresh_log demo_options) demo_open"
proof -
  let ?m = "manager_new (fresh_log demo_options)"
  have "build_root False ?m = (fst demo_open, Ok \<lparr> se_id = Some 1, se_finalized = False \<rparr>)"
    by (simp add: build_root_def push_layer_def manager_new_def next_session_id_def demo_open_def)
  then have "session_step (?m, []) (fst demo_open, [] @ [\<lparr> se_id = Some 1, se_finalized = False \<rparr>])"
    by (rule step_build [rotated]) (simp add: manager_new_def)
  then show ?thesis by (simp add: reachable_def demo_open_def)
qed

definition demo_committed :: "ManagerState \<times> Session list" where
  "demo_committed =
     (case commit_with_checkpoint demo_point (snd demo_open ! 0) (fst demo_open) of (st, se, r) \<Rightarrow> (st, [se]))"

lemma demo_committed_reachable: "reachable (fresh_log demo_options) demo_committed"
proof -
  obtain st se r where c: "commit_with_checkpoint demo_point (snd demo_open ! 0) (fst demo_open) = (st, se, r)"
    by (metis prod_cases3)
  then have "session_step (fst demo_open, snd demo_open) (st, (snd demo_open)[0 := se])"
    by (intro step_checkpoint) (simp_all add: demo_open_def)
  moreover have "(snd demo_open)[0 := se] = [se]" by (simp add: demo_open_def)
  ultimately have "session_step demo_open demo_committed" using c by (simp add: demo_committed_def)
  with demo_open_reachable show ?thesis by (auto simp: reachable_def intro: rtranclp.rtrancl_into_rtrancl)
qed



text \<open>In every reachable state, committing, merging or revoking a handle that fails leaves
  the manager exactly as it was, and the failure is never the counter underflow the code guards
  against with \<open>NoActiveSession\<close>.\<close>

theorem finish_failure_atomic:
  assumes "reachable root (st, ss)" "finish fin se st = (st', se', Err e)"
  shows "st' = st \<and> e \<noteq> NoActiveSession"
  using finish_outcome [OF _ assms(2)] sys_invD(1) reachable_sys_inv [OF assms(1)] by fastforce

theorem finish_failure_atomic_witness:
  "finish Merge (snd demo_open ! 0) (fst demo_open) = (fst demo_open, snd demo_open ! 0, Err (InvalidDepth 2 1)) \<and>
   InvalidDepth 2 1 \<noteq> NoActiveSession"
proof -
  have f: "finish Merge (snd demo_open ! 0) (fst demo_open) = (fst demo_open, snd demo_open ! 0, Err (InvalidDepth 2 1))"
    by (simp add: demo_open_def finish_def finish_action_def layer_index_def empty_layer_def manager_new_def)
  then show ?thesis
    using finish_failure_atomic [of "fresh_log demo_options" "fst demo_open" "snd demo_open", OF _ f] demo_open_reachable by simp
qed

text \<open>An open handle whose layer is still on the stack can always be revoked: the call
  succeeds, closes the handle and removes the layer, whatever was built above it.\<close>

theorem revoke_always_succeeds:
  assumes "reachable root (st, ss)" "j < length ss" "open_id (ss ! j) = Some i" "layer_index i st \<noteq> None"
  shows "\<exists>st' se'. revoke (ss ! j) st = (st', se', Ok ()) \<and> se_finalized se' \<and> layer_index i st' = None"
proof -
  have inv: "sys_inv st ss" using reachable_sys_inv [OF assms(1)] by simp
  from assms(4) obtain index where idx: "layer_index i st = Some index" by auto
  from revoke_outcome [OF inv assms(2,3) idx] show ?thesis by (metis revoke_def)
qed

theorem revoke_always_succeeds_witness:
  "\<exists>st' se'. revoke (snd demo_open ! 0) (fst demo_open) = (st', se', Ok ()) \<and> se_finalized se' \<and> layer_index 1 st' = None"
  using revoke_always_succeeds [of "fresh_log demo_options" "fst demo_open" "snd demo_open" 0 1] demo_open_reachable
  by (simp add: demo_open_def open_id_def layer_index_def empty_layer_def)

text \<open>C34: in every reachable state the checkpoint history is a chain: block numbers rise
  strictly, no identity occurs twice, and every checkpoint's parent is the identity of the
  checkpoint before it, the first one having none.\<close>

theorem checkpoint_history_chain:
  assumes "reachable root (st, ss)"
  shows "sorted_wrt (<) (map checkpoint_block (ms_checkpoints st)) \<and> distinct (map checkpoint_identity (ms_checkpoints st)) \<and>
    (\<forall>k<length (ms_checkpoints st). cc_parent (ms_checkpoints st ! k) =
       (if k = 0 then None else Some (checkpoint_identity (ms_checkpoints st ! (k - 1)))))"
  using reachable_chain [OF assms] by (simp add: history_chain_def)

theorem checkpoint_history_chain_witness:
  "map checkpoint_block (ms_checkpoints (fst demo_committed)) = [1] \<and> cc_parent (ms_checkpoints (fst demo_committed) ! 0) = None"
proof -
  have b: "map checkpoint_block (ms_checkpoints (fst demo_committed)) = [1]"
    by (simp add: demo_committed_def demo_open_def commit_with_checkpoint_def layer_index_def empty_layer_def manager_new_def
        identity_recorded_def not_above_head_def active_sub_def checkpoint_block_def new_checkpoint_def demo_point_def Let_def)
  then have "0 < length (ms_checkpoints (fst demo_committed))" by (cases "ms_checkpoints (fst demo_committed)") simp_all
  with b checkpoint_history_chain [of "fresh_log demo_options" "fst demo_committed" "snd demo_committed"] demo_committed_reachable
  show ?thesis by auto
qed

end
