(* ===== verification/Cursor.thy ===== *)
theory Cursor
  imports Session_Invariant
begin

text \<open>
  The read cursors of \<open>tron-state/src/cursor.rs\<close>: \<open>HEAD\<close>, \<open>SOLIDITY\<close> and \<open>PBFT\<close> are pinned to
  checkpoints of the committed history, found by identity and by walking parent links. The
  ancestor search is a loop over parent links with no bound of its own; on an arbitrary history
  it may run for ever, which is the value \<open>None\<close> here, and the history a session manager
  reaches is a chain on which it ends.
\<close>

section \<open>Definitions\<close>

definition find_checkpoint :: "CommittedCheckpoint list \<Rightarrow> bytes \<Rightarrow> CommittedCheckpoint option" where
  "find_checkpoint history identity = List.find (\<lambda>c. checkpoint_identity c = identity) history"

partial_function (option) is_ancestor :: "CommittedCheckpoint list \<Rightarrow> bytes \<Rightarrow> bytes \<Rightarrow> bool option" where
  [code]: "is_ancestor history ancestor descendant =
     (if ancestor = descendant then Some True
      else case find_checkpoint history descendant of
        None \<Rightarrow> Some False
      | Some checkpoint \<Rightarrow>
        (case cc_parent checkpoint of
           None \<Rightarrow> Some False
         | Some parent \<Rightarrow> is_ancestor history ancestor parent))"

fun ancestor_walk :: "CommittedCheckpoint list \<Rightarrow> nat \<Rightarrow> CommittedCheckpoint \<Rightarrow> (CommittedCheckpoint, CursorError) result" where
  "ancestor_walk history 0 cur = Ok cur"
| "ancestor_walk history (Suc n) cur =
     (case cc_parent cur of
        None \<Rightarrow> Ok cur
      | Some parent \<Rightarrow>
        (case find_checkpoint history parent of
           None \<Rightarrow> Err UnrelatedCheckpoint
         | Some c \<Rightarrow> ancestor_walk history n c))"

definition ancestor_at :: "CommittedCheckpoint list \<Rightarrow> bytes \<Rightarrow> nat \<Rightarrow> (CommittedCheckpoint, CursorError) result" where
  "ancestor_at history identity offset =
     (case find_checkpoint history identity of
        None \<Rightarrow> Err UnrelatedCheckpoint
      | Some c \<Rightarrow> ancestor_walk history offset c)"

definition resolve :: "CommittedCheckpoint list \<Rightarrow> CursorPoint \<Rightarrow> bytes \<Rightarrow> (CommittedCheckpoint, CursorError) result option" where
  "resolve history point head =
     (case find_checkpoint history (cp_identity point) of
        None \<Rightarrow> Some (Err UnrelatedCheckpoint)
      | Some checkpoint \<Rightarrow>
        if cc_point checkpoint \<noteq> point then Some (Err IdentityMismatch)
        else (case is_ancestor history (checkpoint_identity checkpoint) head of
                None \<Rightarrow> None
              | Some False \<Rightarrow> Some (Err UnrelatedCheckpoint)
              | Some True \<Rightarrow> Some (Ok checkpoint)))"

record PointCursor =
  pc_point :: CursorPoint
  pc_view :: ReadView

record CursorSet =
  cu_head :: PointCursor
  cu_solidity :: PointCursor
  cu_pbft :: PointCursor
  cu_pbft_offset :: nat

definition cursor_at :: "CommittedCheckpoint \<Rightarrow> PointCursor" where
  "cursor_at c = \<lparr> pc_point = cc_point c, pc_view = cc_view c \<rparr>"

definition cursor_set_new :: "ManagerState \<Rightarrow> CursorPoint \<Rightarrow> CursorPoint option \<Rightarrow> CursorPoint option \<Rightarrow> i64 \<Rightarrow>
    (CursorSet, CursorError) result option" where
  "cursor_set_new st head solidity pbft pbft_offset =
     (let history = ms_checkpoints st in
      if history = [] then Some (Err MissingCheckpoint)
      else let committed_head = last history in
        if cc_point committed_head \<noteq> head then Some (Err IdentityMismatch)
        else (case resolve history (case solidity of None \<Rightarrow> head | Some s \<Rightarrow> s) (checkpoint_identity committed_head) of
          None \<Rightarrow> None
        | Some (Err e) \<Rightarrow> Some (Err e)
        | Some (Ok solidity) \<Rightarrow>
          if pbft_offset < 0 then Some (Err (NegativePbftOffset pbft_offset))
          else (case (case pbft of
                   None \<Rightarrow> Ok (solidity, 0)
                 | Some expected \<Rightarrow>
                   (case ancestor_at history (checkpoint_identity committed_head) (nat pbft_offset) of
                      Err e \<Rightarrow> Err e
                    | Ok resolved \<Rightarrow>
                      if cc_point resolved \<noteq> expected then Err IdentityMismatch else Ok (resolved, nat pbft_offset))) of
              Err e \<Rightarrow> Some (Err e)
            | Ok (pbft, effective_offset) \<Rightarrow>
              Some (Ok \<lparr> cu_head = cursor_at committed_head, cu_solidity = cursor_at solidity,
                         cu_pbft = cursor_at pbft, cu_pbft_offset = effective_offset \<rparr>))))"

definition with_live_solidity :: "ManagerState \<Rightarrow> CursorPoint \<Rightarrow> (CursorSet, CursorError) result option" where
  "with_live_solidity st point =
     (case cursor_set_new st point (Some point) None 0 of
        None \<Rightarrow> None
      | Some (Err e) \<Rightarrow> Some (Err e)
      | Some (Ok cursors) \<Rightarrow> Some (Ok (cursors\<lparr> cu_solidity := \<lparr> pc_point = point, pc_view = read_view st \<rparr> \<rparr>)))"

definition validate_identity :: "CursorSet \<Rightarrow> bytes \<Rightarrow> (unit, CursorError) result" where
  "validate_identity cursors identity =
     (if cp_identity (pc_point (cu_head cursors)) \<noteq> identity then Err IdentityMismatch else Ok ())"

text \<open>
  \<open>reconstruct\<close> reads the durable markers. The keys are the bytes the dynamic property table
  gives for \<open>LATEST_BLOCK_HEADER_NUMBER\<close>, \<open>LATEST_BLOCK_HEADER_HASH\<close> and
  \<open>LATEST_SOLIDIFIED_BLOCK_NUM\<close>.
\<close>

definition marker_i64 :: "bytes option \<Rightarrow> (i64, CursorError) result" where
  "marker_i64 v =
     (case v of
        None \<Rightarrow> Err MissingCheckpoint
      | Some bs \<Rightarrow> if length bs \<noteq> 8 then Err IdentityMismatch else Ok (i64_from_be_bytes bs))"

definition marker_block :: "bytes option \<Rightarrow> (nat, CursorError) result" where
  "marker_block v = and_then (marker_i64 v) (\<lambda>n. if n < 0 then Err IdentityMismatch else Ok (nat n))"

definition unique_point :: "CursorPoint list \<Rightarrow> nat \<Rightarrow> (CursorPoint option, CursorError) result" where
  "unique_point history block =
     (case filter (\<lambda>p. cp_block p = block) history of
        [] \<Rightarrow> Ok None
      | [p] \<Rightarrow> Ok (Some p)
      | _ \<Rightarrow> Err IdentityMismatch)"

definition point_at :: "CursorPoint list \<Rightarrow> nat \<Rightarrow> (CursorPoint, CursorError) result" where
  "point_at history block = and_then (unique_point history block) (\<lambda>p. ok_or p MissingCheckpoint)"

definition checkpoint_points :: "ManagerState \<Rightarrow> CursorPoint list" where
  "checkpoint_points st = map cc_point (ms_checkpoints st)"

definition latest_checkpoint :: "ManagerState \<Rightarrow> CursorPoint option" where
  "latest_checkpoint st = (if ms_checkpoints st = [] then None else Some (cc_point (last (ms_checkpoints st))))"

definition pbft_distance :: "CursorPoint list \<Rightarrow> CursorPoint \<Rightarrow> CursorPoint option \<Rightarrow> int" where
  "pbft_distance history head pbft =
     (case pbft of
        None \<Rightarrow> 0
      | Some point \<Rightarrow>
        int (the (position (\<lambda>p. p = head) history) - the (position (\<lambda>p. p = point) history)))"

definition reconstruct_markers :: "ManagerState \<Rightarrow>
    (CursorPoint \<times> CursorPoint \<times> CursorPoint option \<times> int, CursorError) result" where
  "reconstruct_markers st =
     (let dynamic = durable_get st (kind_name KDynamicProperties);
          common = durable_get st (kind_name KCommon);
          history = checkpoint_points st in
      and_then (marker_block (dynamic (str_bytes ''latest_block_header_number''))) (\<lambda>head_block.
      and_then (ok_or (dynamic (str_bytes ''latest_block_header_hash'')) MissingCheckpoint) (\<lambda>head_hash.
      if length head_hash \<noteq> 32 then Err IdentityMismatch
      else and_then (point_at history head_block) (\<lambda>head.
      if cp_identity head \<noteq> head_hash then Err IdentityMismatch
      else and_then (marker_block (dynamic (str_bytes ''LATEST_SOLIDIFIED_BLOCK_NUM''))) (\<lambda>solidity_block.
      and_then (point_at history solidity_block) (\<lambda>solidity.
      and_then (case common (str_bytes ''LATEST_PBFT_BLOCK_NUM'') of
                  None \<Rightarrow> Ok None
                | Some bs \<Rightarrow> and_then (marker_block (Some bs)) (\<lambda>block. and_then (point_at history block) (\<lambda>p. Ok (Some p)))) (\<lambda>pbft.
      Ok (head, solidity, pbft, pbft_distance history head pbft))))))))"

definition reconstruct :: "ManagerState \<Rightarrow> (CursorSet, CursorError) result option" where
  "reconstruct st =
     (case reconstruct_markers st of
        Err e \<Rightarrow> Some (Err e)
      | Ok (head, solidity, pbft, pbft_offset) \<Rightarrow> cursor_set_new st head (Some solidity) pbft pbft_offset)"

section \<open>Walking a chain\<close>

lemma find_checkpoint_chain:
  assumes "history_chain h" "k < length h"
  shows "find_checkpoint h (checkpoint_identity (h ! k)) = Some (h ! k)"
proof -
  have "distinct (map checkpoint_identity h)" using assms by (simp add: history_chain_def)
  then show ?thesis using assms(2)
    by (auto simp: find_checkpoint_def find_Some_iff distinct_conv_nth intro!: exI [of _ k])
qed

lemma find_checkpoint_None: "find_checkpoint h i = None \<longleftrightarrow> i \<notin> checkpoint_identity ` set h"
  by (auto simp: find_checkpoint_def find_None_iff)

lemma is_ancestor_chain:
  assumes ch: "history_chain h" and "k < length h"
  shows "is_ancestor h a (checkpoint_identity (h ! k)) = Some (\<exists>j\<le>k. a = checkpoint_identity (h ! j))"
  using assms(2)
proof (induction k)
  case 0
  have "cc_parent (h ! 0) = None" using ch 0 by (simp add: history_chain_def)
  with 0 find_checkpoint_chain [OF ch 0] show ?case by (subst is_ancestor.simps) simp
next
  case (Suc k)
  have par: "cc_parent (h ! Suc k) = Some (checkpoint_identity (h ! k))" using ch Suc.prems by (simp add: history_chain_def)
  have ih: "is_ancestor h a (checkpoint_identity (h ! k)) = Some (\<exists>j\<le>k. a = checkpoint_identity (h ! j))" using Suc by simp
  show ?case
    by (subst is_ancestor.simps) (simp add: find_checkpoint_chain [OF ch Suc.prems] par ih le_Suc_eq, blast)
qed

lemma ancestor_walk_chain:
  assumes ch: "history_chain h" and "k < length h"
  shows "ancestor_walk h n (h ! k) = Ok (h ! (k - n))"
  using assms(2)
proof (induction n arbitrary: k)
  case (Suc n)
  show ?case
  proof (cases k)
    case 0
    with ch Suc.prems show ?thesis by (simp add: history_chain_def)
  next
    case (Suc j)
    with ch Suc.prems have "cc_parent (h ! k) = Some (checkpoint_identity (h ! j))" by (simp add: history_chain_def)
    with Suc Suc.prems find_checkpoint_chain [OF ch, of j] Suc.IH [of j] show ?thesis by simp
  qed
qed simp

lemma resolve_chain:
  assumes ch: "history_chain h" and "h \<noteq> []"
  shows "resolve h p (checkpoint_identity (last h)) = Some (Ok c) \<longleftrightarrow> c \<in> set h \<and> cc_point c = p"
    "resolve h p (checkpoint_identity (last h)) \<noteq> None"
proof -
  have lst: "last h = h ! (length h - 1)" "length h - 1 < length h" using assms(2) by (auto simp: last_conv_nth)
  have anc: "is_ancestor h (checkpoint_identity (h ! k)) (checkpoint_identity (last h)) = Some True" if "k < length h" for k
    using is_ancestor_chain [OF ch lst(2)] that lst by (auto intro!: exI [of _ k])
  have res: "resolve h p (checkpoint_identity (last h)) = Some (if cc_point (h ! k) = p then Ok (h ! k) else Err IdentityMismatch)"
    if "k < length h" "cp_identity p = checkpoint_identity (h ! k)" for k
    using find_checkpoint_chain [OF ch that(1)] anc [OF that(1)] that(2) by (simp add: resolve_def)
  have none: "resolve h p (checkpoint_identity (last h)) = Some (Err UnrelatedCheckpoint)"
    if "cp_identity p \<notin> checkpoint_identity ` set h"
    using that by (simp add: resolve_def find_checkpoint_None [symmetric])
  show "resolve h p (checkpoint_identity (last h)) \<noteq> None"
    using res none by (cases "cp_identity p \<in> checkpoint_identity ` set h") (auto simp: in_set_conv_nth)
  show "resolve h p (checkpoint_identity (last h)) = Some (Ok c) \<longleftrightarrow> c \<in> set h \<and> cc_point c = p"
  proof
    assume ok: "resolve h p (checkpoint_identity (last h)) = Some (Ok c)"
    with none have "cp_identity p \<in> checkpoint_identity ` set h" by (cases "cp_identity p \<in> checkpoint_identity ` set h") auto
    then obtain k where "k < length h" "cp_identity p = checkpoint_identity (h ! k)" by (auto simp: in_set_conv_nth)
    with ok res show "c \<in> set h \<and> cc_point c = p" by (auto split: if_splits)
  next
    assume c: "c \<in> set h \<and> cc_point c = p"
    then obtain k where "k < length h" "c = h ! k" by (auto simp: in_set_conv_nth)
    with c res [of k] show "resolve h p (checkpoint_identity (last h)) = Some (Ok c)" by (simp add: checkpoint_identity_def)
  qed
qed

lemma ancestor_at_chain:
  assumes "history_chain h" "h \<noteq> []"
  shows "ancestor_at h (checkpoint_identity (last h)) n = Ok (h ! (length h - 1 - n))"
proof -
  have "last h = h ! (length h - 1)" "length h - 1 < length h" using assms(2) by (auto simp: last_conv_nth)
  then show ?thesis
    using find_checkpoint_chain [OF assms(1), of "length h - 1"] ancestor_walk_chain [OF assms(1), of "length h - 1" n]
    by (simp add: ancestor_at_def)
qed

section \<open>Properties\<close>

text \<open>C35: in every reachable state the ancestor search over the checkpoint history ends, for
  every pair of identities, and from a recorded checkpoint it answers whether the ancestor is
  that checkpoint or an earlier one.\<close>

theorem is_ancestor_terminates:
  assumes "reachable root (st, ss)"
  shows "(\<exists>b. is_ancestor (ms_checkpoints st) ancestor descendant = Some b) \<and>
    (\<forall>k<length (ms_checkpoints st). is_ancestor (ms_checkpoints st) ancestor (checkpoint_identity (ms_checkpoints st ! k)) =
       Some (\<exists>j\<le>k. ancestor = checkpoint_identity (ms_checkpoints st ! j)))"
proof -
  have ch: "history_chain (ms_checkpoints st)" using reachable_chain [OF assms] by simp
  have "\<exists>b. is_ancestor (ms_checkpoints st) ancestor descendant = Some b"
  proof (cases "descendant \<in> checkpoint_identity ` set (ms_checkpoints st)")
    case True
    then show ?thesis using is_ancestor_chain [OF ch] by (auto simp: in_set_conv_nth)
  next
    case False
    then show ?thesis by (subst is_ancestor.simps) (auto simp: find_checkpoint_None [symmetric])
  qed
  with is_ancestor_chain [OF ch] show ?thesis by simp
qed

theorem is_ancestor_terminates_witness:
  "ms_checkpoints (fst demo_committed) \<noteq> [] \<and> is_ancestor (ms_checkpoints (fst demo_committed)) [9] [7] = Some False"
proof -
  have b: "map checkpoint_identity (ms_checkpoints (fst demo_committed)) = [[7]]"
    by (simp add: demo_committed_def demo_open_def commit_with_checkpoint_def layer_index_def empty_layer_def manager_new_def
        identity_recorded_def not_above_head_def active_sub_def checkpoint_identity_def new_checkpoint_def demo_point_def Let_def)
  have "is_ancestor (ms_checkpoints (fst demo_committed)) [9] (checkpoint_identity (ms_checkpoints (fst demo_committed) ! 0)) =
      Some (\<exists>j\<le>0. [9] = checkpoint_identity (ms_checkpoints (fst demo_committed) ! j))"
    using is_ancestor_terminates [of "fresh_log demo_options" "fst demo_committed" "snd demo_committed" "[9]"] demo_committed_reachable b
    by (cases "ms_checkpoints (fst demo_committed)") auto
  with b show ?thesis by (cases "ms_checkpoints (fst demo_committed)") auto
qed

text \<open>In every reachable state the cursor set is built exactly when the requested head is
  the newest checkpoint, the requested solid point is a recorded checkpoint and the requested
  PBFT point is the checkpoint the offset counts back to, stopping at the oldest one; the
  cursors then show those checkpoints.\<close>

theorem cursor_set_exact:
  assumes "reachable root (st, ss)" "h = ms_checkpoints st"
  shows "cursor_set_new st head solidity pbft pbft_offset = Some (Ok cursors) \<longleftrightarrow>
    h \<noteq> [] \<and> head = cc_point (last h) \<and> 0 \<le> pbft_offset \<and>
    (\<exists>c\<in>set h. cc_point c = (case solidity of None \<Rightarrow> head | Some s \<Rightarrow> s) \<and>
       (case pbft of
          None \<Rightarrow> cursors = \<lparr> cu_head = cursor_at (last h), cu_solidity = cursor_at c, cu_pbft = cursor_at c, cu_pbft_offset = 0 \<rparr>
        | Some p \<Rightarrow> cc_point (h ! (length h - 1 - nat pbft_offset)) = p \<and>
            cursors = \<lparr> cu_head = cursor_at (last h), cu_solidity = cursor_at c,
              cu_pbft = cursor_at (h ! (length h - 1 - nat pbft_offset)), cu_pbft_offset = nat pbft_offset \<rparr>))"
proof (cases "h = []")
  case False
  have ch: "history_chain h" using reachable_chain [OF assms(1)] assms(2) by simp
  let ?s = "case solidity of None \<Rightarrow> head | Some s \<Rightarrow> s"
  obtain r where r: "resolve h ?s (checkpoint_identity (last h)) = Some r" using resolve_chain(2) [OF ch False] by auto
  note ra = resolve_chain(1) [OF ch False, of ?s] ancestor_at_chain [OF ch False, of "nat pbft_offset"]
  show ?thesis
  proof (cases r)
    case (Inl e)
    then have "\<not> (\<exists>c\<in>set h. cc_point c = ?s)" using ra(1) r by auto
    then show ?thesis using False Inl r assms(2) by (auto simp: cursor_set_new_def Let_def)
  next
    case (Inr c)
    then have c: "c \<in> set h" "cc_point c = ?s" using ra(1) r by auto
    have uniq: "c' = c" if "c' \<in> set h" "cc_point c' = ?s" for c' using ra(1) [of c'] that Inr r by simp
    have ex: "(\<exists>c'\<in>set h. cc_point c' = ?s \<and> Q c') \<longleftrightarrow> Q c" for Q using c uniq by blast
    have "cursor_set_new st head solidity pbft pbft_offset =
      (if cc_point (last h) \<noteq> head then Some (Err IdentityMismatch)
       else if pbft_offset < 0 then Some (Err (NegativePbftOffset pbft_offset))
       else case pbft of
         None \<Rightarrow> Some (Ok \<lparr> cu_head = cursor_at (last h), cu_solidity = cursor_at c, cu_pbft = cursor_at c, cu_pbft_offset = 0 \<rparr>)
       | Some p \<Rightarrow> if cc_point (h ! (length h - 1 - nat pbft_offset)) \<noteq> p then Some (Err IdentityMismatch)
           else Some (Ok \<lparr> cu_head = cursor_at (last h), cu_solidity = cursor_at c,
              cu_pbft = cursor_at (h ! (length h - 1 - nat pbft_offset)), cu_pbft_offset = nat pbft_offset \<rparr>))"
      unfolding cursor_set_new_def Let_def assms(2) [symmetric] r Inr ra(2) using False by (simp split: option.split)
    then show ?thesis unfolding ex using False by (cases pbft) auto
  qed
qed (use assms(2) in \<open>simp add: cursor_set_new_def\<close>)

theorem cursor_set_exact_witness:
  "cursor_set_new (fst demo_committed) demo_point None None 0 =
     Some (Ok \<lparr> cu_head = cursor_at (last (ms_checkpoints (fst demo_committed))), cu_solidity = cursor_at (last (ms_checkpoints (fst demo_committed))),
       cu_pbft = cursor_at (last (ms_checkpoints (fst demo_committed))), cu_pbft_offset = 0 \<rparr>)"
proof -
  have b: "map cc_point (ms_checkpoints (fst demo_committed)) = [demo_point]"
    by (simp add: demo_committed_def demo_open_def commit_with_checkpoint_def layer_index_def empty_layer_def manager_new_def
        identity_recorded_def not_above_head_def active_sub_def new_checkpoint_def Let_def)
  then have l: "ms_checkpoints (fst demo_committed) \<noteq> []" "cc_point (last (ms_checkpoints (fst demo_committed))) = demo_point"
    by (cases "ms_checkpoints (fst demo_committed)"; simp)+
  show ?thesis
    unfolding cursor_set_exact [of "fresh_log demo_options" "fst demo_committed" "snd demo_committed", OF _ refl, simplified, OF demo_committed_reachable]
    using l by (auto intro!: bexI [of _ "last (ms_checkpoints (fst demo_committed))"])
qed

end
