(* ===== verification/Dynamic.thy ===== *)
theory Dynamic
  imports Cursor
begin

text \<open>
  The dynamic properties of the chain, \<open>tron-state/src/dynamic.rs\<close> and
  \<open>tron-state/src/dynamic_properties.rs\<close>: the table of property keys, the defaults the Java
  constructor installs, the typed access with its fixed widths, the checked counters, the ring
  of filled block slots and the maintenance clock. A property lives in one typed store of the
  log; the operations take the operating system, the store name and the log.
\<close>

section \<open>Tables\<close>

definition KEYS :: "(string \<times> bytes) list" where
  "KEYS = [
     (''LATEST_BLOCK_HEADER_TIMESTAMP'', str_bytes ''latest_block_header_timestamp''),
     (''LATEST_BLOCK_HEADER_NUMBER'', str_bytes ''latest_block_header_number''),
     (''LATEST_BLOCK_HEADER_HASH'', str_bytes ''latest_block_header_hash''), (''STATE_FLAG'', str_bytes ''state_flag''),
     (''LATEST_SOLIDIFIED_BLOCK_NUM'', str_bytes ''LATEST_SOLIDIFIED_BLOCK_NUM''), (''LATEST_PROPOSAL_NUM'', str_bytes ''LATEST_PROPOSAL_NUM''),
     (''LATEST_EXCHANGE_NUM'', str_bytes ''LATEST_EXCHANGE_NUM''), (''BLOCK_FILLED_SLOTS'', str_bytes ''BLOCK_FILLED_SLOTS''),
     (''BLOCK_FILLED_SLOTS_INDEX'', str_bytes ''BLOCK_FILLED_SLOTS_INDEX''), (''NEXT_MAINTENANCE_TIME'', str_bytes ''NEXT_MAINTENANCE_TIME''),
     (''MAX_FROZEN_TIME'', str_bytes ''MAX_FROZEN_TIME''), (''MIN_FROZEN_TIME'', str_bytes ''MIN_FROZEN_TIME''),
     (''MAX_FROZEN_SUPPLY_NUMBER'', str_bytes ''MAX_FROZEN_SUPPLY_NUMBER''), (''MAX_FROZEN_SUPPLY_TIME'', str_bytes ''MAX_FROZEN_SUPPLY_TIME''),
     (''MIN_FROZEN_SUPPLY_TIME'', str_bytes ''MIN_FROZEN_SUPPLY_TIME''),
     (''WITNESS_ALLOWANCE_FROZEN_TIME'', str_bytes ''WITNESS_ALLOWANCE_FROZEN_TIME''),
     (''MAINTENANCE_TIME_INTERVAL'', str_bytes ''MAINTENANCE_TIME_INTERVAL''), (''ACCOUNT_UPGRADE_COST'', str_bytes ''ACCOUNT_UPGRADE_COST''),
     (''WITNESS_PAY_PER_BLOCK'', str_bytes ''WITNESS_PAY_PER_BLOCK''), (''WITNESS_127_PAY_PER_BLOCK'', str_bytes ''WITNESS_127_PAY_PER_BLOCK''),
     (''WITNESS_STANDBY_ALLOWANCE'', str_bytes ''WITNESS_STANDBY_ALLOWANCE''), (''ENERGY_FEE'', str_bytes ''ENERGY_FEE''),
     (''MAX_CPU_TIME_OF_ONE_TX'', str_bytes ''MAX_CPU_TIME_OF_ONE_TX''), (''CREATE_ACCOUNT_FEE'', str_bytes ''CREATE_ACCOUNT_FEE''),
     (''CREATE_NEW_ACCOUNT_FEE_IN_SYSTEM_CONTRACT'', str_bytes ''CREATE_NEW_ACCOUNT_FEE_IN_SYSTEM_CONTRACT''),
     (''CREATE_NEW_ACCOUNT_BANDWIDTH_RATE'', str_bytes ''CREATE_NEW_ACCOUNT_BANDWIDTH_RATE''), (''TRANSACTION_FEE'', str_bytes ''TRANSACTION_FEE''),
     (''ASSET_ISSUE_FEE'', str_bytes ''ASSET_ISSUE_FEE''), (''UPDATE_ACCOUNT_PERMISSION_FEE'', str_bytes ''UPDATE_ACCOUNT_PERMISSION_FEE''),
     (''MULTI_SIGN_FEE'', str_bytes ''MULTI_SIGN_FEE''), (''SHIELDED_TRANSACTION_FEE'', str_bytes ''SHIELDED_TRANSACTION_FEE''),
     (''SHIELDED_TRANSACTION_CREATE_ACCOUNT_FEE'', str_bytes ''SHIELDED_TRANSACTION_CREATE_ACCOUNT_FEE''),
     (''TOTAL_SHIELDED_POOL_VALUE'', str_bytes ''TOTAL_SHIELDED_POOL_VALUE''), (''EXCHANGE_CREATE_FEE'', str_bytes ''EXCHANGE_CREATE_FEE''),
     (''EXCHANGE_BALANCE_LIMIT'', str_bytes ''EXCHANGE_BALANCE_LIMIT''), (''TOTAL_TRANSACTION_COST'', str_bytes ''TOTAL_TRANSACTION_COST''),
     (''TOTAL_CREATE_ACCOUNT_COST'', str_bytes ''TOTAL_CREATE_ACCOUNT_COST''),
     (''TOTAL_CREATE_WITNESS_COST'', str_bytes ''TOTAL_CREATE_WITNESS_FEE''), (''TOTAL_STORAGE_POOL'', str_bytes ''TOTAL_STORAGE_POOL''),
     (''TOTAL_STORAGE_TAX'', str_bytes ''TOTAL_STORAGE_TAX''), (''TOTAL_STORAGE_RESERVED'', str_bytes ''TOTAL_STORAGE_RESERVED''),
     (''STORAGE_EXCHANGE_TAX_RATE'', str_bytes ''STORAGE_EXCHANGE_TAX_RATE''), (''VERSION_NUMBER'', str_bytes ''VERSION_NUMBER''),
     (''REMOVE_THE_POWER_OF_THE_GR'', str_bytes ''REMOVE_THE_POWER_OF_THE_GR''),
     (''ALLOW_DELEGATE_RESOURCE'', str_bytes ''ALLOW_DELEGATE_RESOURCE''), (''ALLOW_ADAPTIVE_ENERGY'', str_bytes ''ALLOW_ADAPTIVE_ENERGY''),
     (''ALLOW_UPDATE_ACCOUNT_NAME'', str_bytes ''ALLOW_UPDATE_ACCOUNT_NAME''), (''ALLOW_SAME_TOKEN_NAME'', str_bytes '' ALLOW_SAME_TOKEN_NAME''),
     (''ALLOW_CREATION_OF_CONTRACTS'', str_bytes ''ALLOW_CREATION_OF_CONTRACTS''), (''TOTAL_SIGN_NUM'', str_bytes ''TOTAL_SIGN_NUM''),
     (''ALLOW_MULTI_SIGN'', str_bytes ''ALLOW_MULTI_SIGN''), (''TOKEN_ID_NUM'', str_bytes ''TOKEN_ID_NUM''),
     (''TOKEN_UPDATE_DONE'', str_bytes ''TOKEN_UPDATE_DONE''), (''ABI_MOVE_DONE'', str_bytes ''ABI_MOVE_DONE''),
     (''ALLOW_TVM_TRANSFER_TRC10'', str_bytes ''ALLOW_TVM_TRANSFER_TRC10''),
     (''ALLOW_SHIELDED_TRANSACTION'', str_bytes ''ALLOW_SHIELDED_TRANSACTION''),
     (''ALLOW_SHIELDED_TRC20_TRANSACTION'', str_bytes ''ALLOW_SHIELDED_TRC20_TRANSACTION''),
     (''ALLOW_TVM_ISTANBUL'', str_bytes ''ALLOW_TVM_ISTANBUL''), (''ALLOW_TVM_CONSTANTINOPLE'', str_bytes ''ALLOW_TVM_CONSTANTINOPLE''),
     (''ALLOW_TVM_SOLIDITY_059'', str_bytes ''ALLOW_TVM_SOLIDITY_059''),
     (''FORBID_TRANSFER_TO_CONTRACT'', str_bytes ''FORBID_TRANSFER_TO_CONTRACT''),
     (''ALLOW_PROTO_FILTER_NUM'', str_bytes ''ALLOW_PROTO_FILTER_NUM''), (''AVAILABLE_CONTRACT_TYPE'', str_bytes ''AVAILABLE_CONTRACT_TYPE''),
     (''ACTIVE_DEFAULT_OPERATIONS'', str_bytes ''ACTIVE_DEFAULT_OPERATIONS''),
     (''ALLOW_ACCOUNT_STATE_ROOT'', str_bytes ''ALLOW_ACCOUNT_STATE_ROOT''), (''CURRENT_CYCLE_NUMBER'', str_bytes ''CURRENT_CYCLE_NUMBER''),
     (''CHANGE_DELEGATION'', str_bytes ''CHANGE_DELEGATION''), (''ALLOW_PBFT'', str_bytes ''ALLOW_PBFT''),
     (''ALLOW_MARKET_TRANSACTION'', str_bytes ''ALLOW_MARKET_TRANSACTION''), (''MARKET_SELL_FEE'', str_bytes ''MARKET_SELL_FEE''),
     (''MARKET_CANCEL_FEE'', str_bytes ''MARKET_CANCEL_FEE''), (''MARKET_QUANTITY_LIMIT'', str_bytes ''MARKET_QUANTITY_LIMIT''),
     (''ALLOW_TRANSACTION_FEE_POOL'', str_bytes ''ALLOW_TRANSACTION_FEE_POOL''), (''TRANSACTION_FEE_POOL'', str_bytes ''TRANSACTION_FEE_POOL''),
     (''MAX_FEE_LIMIT'', str_bytes ''MAX_FEE_LIMIT''), (''BURN_TRX_AMOUNT'', str_bytes ''BURN_TRX_AMOUNT''),
     (''ALLOW_BLACKHOLE_OPTIMIZATION'', str_bytes ''ALLOW_BLACKHOLE_OPTIMIZATION''),
     (''ALLOW_NEW_RESOURCE_MODEL'', str_bytes ''ALLOW_NEW_RESOURCE_MODEL''), (''ALLOW_TVM_FREEZE'', str_bytes ''ALLOW_TVM_FREEZE''),
     (''ALLOW_TVM_VOTE'', str_bytes ''ALLOW_TVM_VOTE''), (''ALLOW_TVM_LONDON'', str_bytes ''ALLOW_TVM_LONDON''),
     (''ALLOW_TVM_COMPATIBLE_EVM'', str_bytes ''ALLOW_TVM_COMPATIBLE_EVM''),
     (''NEW_REWARD_ALGORITHM_EFFECTIVE_CYCLE'', str_bytes ''NEW_REWARD_ALGORITHM_EFFECTIVE_CYCLE''),
     (''ALLOW_ACCOUNT_ASSET_OPTIMIZATION'', str_bytes ''ALLOW_ACCOUNT_ASSET_OPTIMIZATION''),
     (''ALLOW_ASSET_OPTIMIZATION'', str_bytes ''ALLOW_ASSET_OPTIMIZATION''), (''ENERGY_PRICE_HISTORY'', str_bytes ''ENERGY_PRICE_HISTORY''),
     (''ENERGY_PRICE_HISTORY_DONE'', str_bytes ''ENERGY_PRICE_HISTORY_DONE''), (''BANDWIDTH_PRICE_HISTORY'', str_bytes ''BANDWIDTH_PRICE_HISTORY''),
     (''BANDWIDTH_PRICE_HISTORY_DONE'', str_bytes ''BANDWIDTH_PRICE_HISTORY_DONE''),
     (''SET_BLACKHOLE_ACCOUNT_PERMISSION'', str_bytes ''SET_BLACKHOLE_ACCOUNT_PERMISSION''),
     (''ALLOW_HIGHER_LIMIT_FOR_MAX_CPU_TIME_OF_ONE_TX'', str_bytes ''ALLOW_HIGHER_LIMIT_FOR_MAX_CPU_TIME_OF_ONE_TX''),
     (''ALLOW_NEW_REWARD'', str_bytes ''ALLOW_NEW_REWARD''), (''MEMO_FEE'', str_bytes ''MEMO_FEE''),
     (''MEMO_FEE_HISTORY'', str_bytes ''MEMO_FEE_HISTORY''), (''ALLOW_DELEGATE_OPTIMIZATION'', str_bytes ''ALLOW_DELEGATE_OPTIMIZATION''),
     (''ALLOW_DYNAMIC_ENERGY'', str_bytes ''ALLOW_DYNAMIC_ENERGY''), (''DYNAMIC_ENERGY_THRESHOLD'', str_bytes ''DYNAMIC_ENERGY_THRESHOLD''),
     (''DYNAMIC_ENERGY_INCREASE_FACTOR'', str_bytes ''DYNAMIC_ENERGY_INCREASE_FACTOR''),
     (''DYNAMIC_ENERGY_MAX_FACTOR'', str_bytes ''DYNAMIC_ENERGY_MAX_FACTOR''), (''UNFREEZE_DELAY_DAYS'', str_bytes ''UNFREEZE_DELAY_DAYS''),
     (''ALLOW_OPTIMIZED_RETURN_VALUE_OF_CHAIN_ID'', str_bytes ''ALLOW_OPTIMIZED_RETURN_VALUE_OF_CHAIN_ID''),
     (''ALLOW_TVM_SHANGHAI'', str_bytes ''ALLOW_TVM_SHANGHAI''), (''ALLOW_CANCEL_ALL_UNFREEZE_V2'', str_bytes ''ALLOW_CANCEL_ALL_UNFREEZE_V2''),
     (''MAX_DELEGATE_LOCK_PERIOD'', str_bytes ''MAX_DELEGATE_LOCK_PERIOD''), (''ALLOW_OLD_REWARD_OPT'', str_bytes ''ALLOW_OLD_REWARD_OPT''),
     (''ALLOW_ENERGY_ADJUSTMENT'', str_bytes ''ALLOW_ENERGY_ADJUSTMENT''),
     (''MAX_CREATE_ACCOUNT_TX_SIZE'', str_bytes ''MAX_CREATE_ACCOUNT_TX_SIZE''), (''ALLOW_STRICT_MATH'', str_bytes ''ALLOW_STRICT_MATH''),
     (''CONSENSUS_LOGIC_OPTIMIZATION'', str_bytes ''CONSENSUS_LOGIC_OPTIMIZATION''), (''ALLOW_TVM_CANCUN'', str_bytes ''ALLOW_TVM_CANCUN''),
     (''ALLOW_TVM_BLOB'', str_bytes ''ALLOW_TVM_BLOB''), (''PROPOSAL_EXPIRE_TIME'', str_bytes ''PROPOSAL_EXPIRE_TIME''),
     (''ALLOW_TVM_SELFDESTRUCT_RESTRICTION'', str_bytes ''ALLOW_TVM_SELFDESTRUCT_RESTRICTION''),
     (''ALLOW_TVM_OSAKA'', str_bytes ''ALLOW_TVM_OSAKA''), (''ALLOW_TVM_PRAGUE'', str_bytes ''ALLOW_TVM_PRAGUE''),
     (''BLOCK_HASH_HISTORY_INSTALLED'', str_bytes ''BLOCK_HASH_HISTORY_INSTALLED''),
     (''ALLOW_HARDEN_RESOURCE_CALCULATION'', str_bytes ''ALLOW_HARDEN_RESOURCE_CALCULATION''),
     (''ALLOW_HARDEN_EXCHANGE_CALCULATION'', str_bytes ''ALLOW_HARDEN_EXCHANGE_CALCULATION''),
     (''TURKISH_KEY_MIGRATION_DONE'', str_bytes ''TURKISH_KEY_MIGRATION_DONE''), (''ONE_DAY_NET_LIMIT'', str_bytes ''ONE_DAY_NET_LIMIT''),
     (''PUBLIC_NET_USAGE'', str_bytes ''PUBLIC_NET_USAGE''), (''PUBLIC_NET_LIMIT'', str_bytes ''PUBLIC_NET_LIMIT''),
     (''PUBLIC_NET_TIME'', str_bytes ''PUBLIC_NET_TIME''), (''FREE_NET_LIMIT'', str_bytes ''FREE_NET_LIMIT''),
     (''TOTAL_NET_WEIGHT'', str_bytes ''TOTAL_NET_WEIGHT''), (''TOTAL_NET_LIMIT'', str_bytes ''TOTAL_NET_LIMIT''),
     (''TOTAL_ENERGY_TARGET_LIMIT'', str_bytes ''TOTAL_ENERGY_TARGET_LIMIT''),
     (''TOTAL_ENERGY_CURRENT_LIMIT'', str_bytes ''TOTAL_ENERGY_CURRENT_LIMIT''),
     (''TOTAL_ENERGY_AVERAGE_USAGE'', str_bytes ''TOTAL_ENERGY_AVERAGE_USAGE''),
     (''TOTAL_ENERGY_AVERAGE_TIME'', str_bytes ''TOTAL_ENERGY_AVERAGE_TIME''), (''TOTAL_ENERGY_WEIGHT'', str_bytes ''TOTAL_ENERGY_WEIGHT''),
     (''TOTAL_TRON_POWER_WEIGHT'', str_bytes ''TOTAL_TRON_POWER_WEIGHT''), (''TOTAL_ENERGY_LIMIT'', str_bytes ''TOTAL_ENERGY_LIMIT''),
     (''BLOCK_ENERGY_USAGE'', str_bytes ''BLOCK_ENERGY_USAGE''),
     (''ADAPTIVE_RESOURCE_LIMIT_MULTIPLIER'', str_bytes ''ADAPTIVE_RESOURCE_LIMIT_MULTIPLIER''),
     (''ADAPTIVE_RESOURCE_LIMIT_TARGET_RATIO'', str_bytes ''ADAPTIVE_RESOURCE_LIMIT_TARGET_RATIO'')]"

definition DEFAULTS :: "(string \<times> string \<times> string) list" where
  "DEFAULTS = [
     (''getTotalSignNum'', ''saveTotalSignNum'', ''5''),
     (''getAllowMultiSign'', ''saveAllowMultiSign'', ''CommonParameter.getInstance() .getAllowMultiSign()''),
     (''getLatestBlockHeaderTimestamp'', ''saveLatestBlockHeaderTimestamp'', ''0''),
     (''getLatestBlockHeaderNumber'', ''saveLatestBlockHeaderNumber'', ''0''),
     (''getLatestBlockHeaderHash'', ''saveLatestBlockHeaderHash'', ''ByteString.copyFrom(ByteArray.fromHexString(\"00\"))''),
     (''getStateFlag'', ''saveStateFlag'', ''0''), (''getLatestSolidifiedBlockNum'', ''saveLatestSolidifiedBlockNum'', ''0''),
     (''getLatestProposalNum'', ''saveLatestProposalNum'', ''0''), (''getLatestExchangeNum'', ''saveLatestExchangeNum'', ''0''),
     (''getBlockFilledSlotsIndex'', ''saveBlockFilledSlotsIndex'', ''0''), (''getTokenIdNum'', ''saveTokenIdNum'', ''1000000L''),
     (''getTokenUpdateDone'', ''saveTokenUpdateDone'', ''0''), (''getAbiMoveDone'', ''saveAbiMoveDone'', ''0''),
     (''getMaxFrozenTime'', ''saveMaxFrozenTime'', ''3''), (''getMinFrozenTime'', ''saveMinFrozenTime'', ''3''),
     (''getMaxFrozenSupplyNumber'', ''saveMaxFrozenSupplyNumber'', ''10''), (''getMaxFrozenSupplyTime'', ''saveMaxFrozenSupplyTime'', ''3652''),
     (''getMinFrozenSupplyTime'', ''saveMinFrozenSupplyTime'', ''1''),
     (''getWitnessAllowanceFrozenTime'', ''saveWitnessAllowanceFrozenTime'', ''1''),
     (''getWitnessPayPerBlock'', ''saveWitnessPayPerBlock'', ''32000000L''),
     (''getWitnessStandbyAllowance'', ''saveWitnessStandbyAllowance'', ''115_200_000_000L''),
     (''getMaintenanceTimeInterval'', ''saveMaintenanceTimeInterval'', ''CommonParameter.getInstance() .getMaintenanceTimeInterval()''),
     (''getAccountUpgradeCost'', ''saveAccountUpgradeCost'', ''9_999_000_000L''), (''getPublicNetUsage'', ''savePublicNetUsage'', ''0L''),
     (''getOneDayNetLimit'', ''saveOneDayNetLimit'', ''57_600_000_000L''), (''getPublicNetLimit'', ''savePublicNetLimit'', ''14_400_000_000L''),
     (''getPublicNetTime'', ''savePublicNetTime'', ''0L''), (''getFreeNetLimit'', ''saveFreeNetLimit'', ''5000L''),
     (''getTotalNetWeight'', ''saveTotalNetWeight'', ''0L''), (''getTotalNetLimit'', ''saveTotalNetLimit'', ''43_200_000_000L''),
     (''getTotalEnergyWeight'', ''saveTotalEnergyWeight'', ''0L''), (''getTotalTronPowerWeight'', ''saveTotalTronPowerWeight'', ''0L''),
     (''getAllowAdaptiveEnergy'', ''saveAllowAdaptiveEnergy'', ''CommonParameter.getInstance() .getAllowAdaptiveEnergy()''),
     (''getAdaptiveResourceLimitTargetRatio'', ''saveAdaptiveResourceLimitTargetRatio'', ''14400''),
     (''getTotalEnergyLimit'', ''saveTotalEnergyLimit'', ''50_000_000_000L''), (''getEnergyFee'', ''saveEnergyFee'', ''DEFAULT_ENERGY_FEE''),
     (''getMaxCpuTimeOfOneTx'', ''saveMaxCpuTimeOfOneTx'', ''50L''), (''getCreateAccountFee'', ''saveCreateAccountFee'', ''100_000L''),
     (''getShieldedTransactionFee'', ''saveShieldedTransactionFee'', ''100_000L''),
     (''getShieldedTransactionCreateAccountFee'', ''saveShieldedTransactionCreateAccountFee'', ''1_000_000L''),
     (''getTotalShieldedPoolValue'', ''saveTotalShieldedPoolValue'', ''0L''),
     (''getCreateNewAccountFeeInSystemContract'', ''saveCreateNewAccountFeeInSystemContract'', ''0L''),
     (''getCreateNewAccountBandwidthRate'', ''saveCreateNewAccountBandwidthRate'', ''1L''),
     (''getTransactionFee'', ''saveTransactionFee'', ''DEFAULT_TRANSACTION_FEE''), (''getAssetIssueFee'', ''saveAssetIssueFee'', ''1024000000L''),
     (''getUpdateAccountPermissionFee'', ''saveUpdateAccountPermissionFee'', ''100000000L''),
     (''getMultiSignFee'', ''saveMultiSignFee'', ''1000000L''), (''getExchangeCreateFee'', ''saveExchangeCreateFee'', ''1024000000L''),
     (''getExchangeBalanceLimit'', ''saveExchangeBalanceLimit'', ''1_000_000_000_000_000L''),
     (''getAllowMarketTransaction'', ''saveAllowMarketTransaction'', ''CommonParameter.getInstance().getAllowMarketTransaction()''),
     (''getMarketSellFee'', ''saveMarketSellFee'', ''0L''), (''getMarketCancelFee'', ''saveMarketCancelFee'', ''0L''),
     (''getMarketQuantityLimit'', ''saveMarketQuantityLimit'', ''1_000_000_000_000_000L''),
     (''getAllowTransactionFeePool'', ''saveAllowTransactionFeePool'', ''CommonParameter.getInstance().getAllowTransactionFeePool()''),
     (''getTransactionFeePool'', ''saveTransactionFeePool'', ''0L''), (''getTotalTransactionCost'', ''saveTotalTransactionCost'', ''0L''),
     (''getTotalCreateWitnessCost'', ''saveTotalCreateWitnessFee'', ''0L''), (''getTotalCreateAccountCost'', ''saveTotalCreateAccountFee'', ''0L''),
     (''getTotalStoragePool'', ''saveTotalStoragePool'', ''100_000_000_000_000L''), (''getTotalStorageTax'', ''saveTotalStorageTax'', ''0''),
     (''getTotalStorageReserved'', ''saveTotalStorageReserved'', ''128L * 1024 * 1024 * 1024''),
     (''getStorageExchangeTaxRate'', ''saveStorageExchangeTaxRate'', ''10''), (''getRemoveThePowerOfTheGr'', ''saveRemoveThePowerOfTheGr'', ''0''),
     (''getAllowDelegateResource'', ''saveAllowDelegateResource'', ''CommonParameter.getInstance() .getAllowDelegateResource()''),
     (''getAllowTvmTransferTrc10'', ''saveAllowTvmTransferTrc10'', ''CommonParameter.getInstance() .getAllowTvmTransferTrc10()''),
     (''getAllowTvmConstantinople'', ''saveAllowTvmConstantinople'', ''CommonParameter.getInstance() .getAllowTvmConstantinople()''),
     (''getAllowTvmSolidity059'', ''saveAllowTvmSolidity059'', ''CommonParameter.getInstance() .getAllowTvmSolidity059()''),
     (''getForbidTransferToContract'', ''saveForbidTransferToContract'', ''CommonParameter.getInstance() .getForbidTransferToContract()''),
     (''getAvailableContractType'', ''saveAvailableContractType'', ''bytes''),
     (''getActiveDefaultOperations'', ''saveActiveDefaultOperations'', ''bytes''),
     (''getAllowSameTokenName'', ''saveAllowSameTokenName'', ''CommonParameter.getInstance() .getAllowSameTokenName()''),
     (''getAllowUpdateAccountName'', ''saveAllowUpdateAccountName'', ''0''),
     (''getAllowCreationOfContracts'', ''saveAllowCreationOfContracts'', ''CommonParameter.getInstance() .getAllowCreationOfContracts()''),
     (''getAllowShieldedTransaction'', ''saveAllowShieldedTransaction'', ''0L''),
     (''getAllowShieldedTRC20Transaction'', ''saveAllowShieldedTRC20Transaction'', ''CommonParameter.getInstance().getAllowShieldedTRC20Transaction()''),
     (''getAllowTvmIstanbul'', ''saveAllowTvmIstanbul'', ''CommonParameter.getInstance().getAllowTvmIstanbul()''),
     (''getBlockFilledSlots'', ''saveBlockFilledSlots'', ''blockFilledSlots''),
     (''getNextMaintenanceTime'', ''saveNextMaintenanceTime'', ''Long.parseLong(CommonParameter.getInstance() .getGenesisBlock().getTimestamp())''),
     (''getTotalEnergyCurrentLimit'', ''saveTotalEnergyCurrentLimit'', ''getTotalEnergyLimit()''),
     (''getTotalEnergyTargetLimit'', ''saveTotalEnergyTargetLimit'', ''getTotalEnergyLimit() / 14400''),
     (''getTotalEnergyAverageUsage'', ''saveTotalEnergyAverageUsage'', ''0''),
     (''getAdaptiveResourceLimitMultiplier'', ''saveAdaptiveResourceLimitMultiplier'', ''1000''),
     (''getTotalEnergyAverageTime'', ''saveTotalEnergyAverageTime'', ''0''), (''getBlockEnergyUsage'', ''saveBlockEnergyUsage'', ''0''),
     (''getAllowAccountStateRoot'', ''saveAllowAccountStateRoot'', ''CommonParameter.getInstance() .getAllowAccountStateRoot()''),
     (''getAllowProtoFilterNum'', ''saveAllowProtoFilterNum'', ''CommonParameter.getInstance() .getAllowProtoFilterNum()''),
     (''getChangeDelegation'', ''saveChangeDelegation'', ''CommonParameter.getInstance() .getChangedDelegation()''),
     (''getAllowPBFT'', ''saveAllowPBFT'', ''CommonParameter.getInstance().getAllowPBFT()''),
     (''getMaxFeeLimit'', ''saveMaxFeeLimit'', ''1_000_000_000L''), (''getBurnTrxAmount'', ''saveBurnTrx'', ''0L''),
     (''getAllowBlackHoleOptimization'', ''saveAllowBlackHoleOptimization'', ''CommonParameter.getInstance().getAllowBlackHoleOptimization()''),
     (''getAllowNewResourceModel'', ''saveAllowNewResourceModel'', ''CommonParameter.getInstance().getAllowNewResourceModel()''),
     (''getAllowTvmFreeze'', ''saveAllowTvmFreeze'', ''CommonParameter.getInstance().getAllowTvmFreeze()''),
     (''getAllowTvmVote'', ''saveAllowTvmVote'', ''CommonParameter.getInstance().getAllowTvmVote()''),
     (''getAllowTvmLondon'', ''saveAllowTvmLondon'', ''CommonParameter.getInstance().getAllowTvmLondon()''),
     (''getAllowTvmCompatibleEvm'', ''saveAllowTvmCompatibleEvm'', ''CommonParameter.getInstance().getAllowTvmCompatibleEvm()''),
     (''getEnergyPriceHistoryDone'', ''saveEnergyPriceHistoryDone'', ''0''),
     (''getEnergyPriceHistory'', ''saveEnergyPriceHistory'', ''DEFAULT_ENERGY_PRICE_HISTORY''),
     (''getBandwidthPriceHistoryDone'', ''saveBandwidthPriceHistoryDone'', ''0''),
     (''getBandwidthPriceHistory'', ''saveBandwidthPriceHistory'', ''DEFAULT_BANDWIDTH_PRICE_HISTORY''),
     (''getSetBlackholeAccountPermission'', ''saveSetBlackholePermission'', ''0''),
     (''getAllowHigherLimitForMaxCpuTimeOfOneTx'', ''saveAllowHigherLimitForMaxCpuTimeOfOneTx'', ''CommonParameter.getInstance().getAllowHigherLimitForMaxCpuTimeOfOneTx()''),
     (''getAllowNewReward'', ''saveAllowNewReward'', ''CommonParameter.getInstance().getAllowNewReward()''),
     (''getMemoFee'', ''saveMemoFee'', ''memoFee''),
     (''getAllowDelegateOptimization'', ''saveAllowDelegateOptimization'', ''CommonParameter.getInstance().getAllowDelegateOptimization()''),
     (''getUnfreezeDelayDays'', ''saveUnfreezeDelayDays'', ''CommonParameter.getInstance().getUnfreezeDelayDays()''),
     (''getAllowOptimizedReturnValueOfChainId'', ''saveAllowOptimizedReturnValueOfChainId'', ''CommonParameter.getInstance().getAllowOptimizedReturnValueOfChainId()''),
     (''getAllowDynamicEnergy'', ''saveAllowDynamicEnergy'', ''CommonParameter.getInstance().getAllowDynamicEnergy()''),
     (''getDynamicEnergyThreshold'', ''saveDynamicEnergyThreshold'', ''CommonParameter.getInstance().getDynamicEnergyThreshold()''),
     (''getDynamicEnergyIncreaseFactor'', ''saveDynamicEnergyIncreaseFactor'', ''CommonParameter.getInstance().getDynamicEnergyIncreaseFactor()''),
     (''getDynamicEnergyMaxFactor'', ''saveDynamicEnergyMaxFactor'', ''CommonParameter.getInstance().getDynamicEnergyMaxFactor()'')]"

definition dynamic_key :: "string \<Rightarrow> bytes option" where
  "dynamic_key name = map_of KEYS name"

definition default_expression :: "string \<Rightarrow> string option" where
  "default_expression getter = map_of (map (\<lambda>(g, _, v). (g, v)) DEFAULTS) getter"

definition AVAILABLE_CONTRACT_TYPES :: bytes where
  "AVAILABLE_CONTRACT_TYPES = [0x7f, 0xff, 0x1f, 0xc0, 0x03, 0x7e] @ replicate 26 0"

definition ACTIVE_DEFAULT_OPERATIONS :: bytes where
  "ACTIVE_DEFAULT_OPERATIONS = [0x7f, 0xff, 0x1f, 0xc0, 0x03, 0x3e] @ replicate 26 0"

record DynamicPropertyConfig =
  dc_allow_multi_sign :: int
  dc_maintenance_time_interval :: int
  dc_allow_adaptive_energy :: int
  dc_allow_market_transaction :: int
  dc_allow_transaction_fee_pool :: int
  dc_allow_delegate_resource :: int
  dc_allow_tvm_transfer_trc10 :: int
  dc_allow_tvm_constantinople :: int
  dc_allow_tvm_solidity_059 :: int
  dc_forbid_transfer_to_contract :: int
  dc_allow_same_token_name :: int
  dc_allow_creation_of_contracts :: int
  dc_allow_shielded_trc20_transaction :: int
  dc_allow_tvm_istanbul :: int
  dc_allow_account_state_root :: int
  dc_allow_proto_filter_num :: int
  dc_changed_delegation :: int
  dc_allow_pbft :: int
  dc_allow_blackhole_optimization :: int
  dc_allow_new_resource_model :: int
  dc_allow_tvm_freeze :: int
  dc_allow_tvm_vote :: int
  dc_allow_tvm_london :: int
  dc_allow_tvm_compatible_evm :: int
  dc_allow_asset_optimization :: int
  dc_allow_account_asset_optimization :: int
  dc_allow_higher_limit_for_max_cpu_time_of_one_tx :: int
  dc_allow_new_reward_algorithm :: int
  dc_allow_new_reward :: int
  dc_memo_fee :: int
  dc_allow_delegate_optimization :: int
  dc_unfreeze_delay_days :: int
  dc_allow_optimized_return_value_of_chain_id :: int
  dc_allow_dynamic_energy :: int
  dc_dynamic_energy_threshold :: int
  dc_dynamic_energy_increase_factor :: int
  dc_dynamic_energy_max_factor :: int

text \<open>The part of \<open>tron_config::Config\<close> the conversion reads.\<close>

record CommitteeConfig =
  cm_allow_creation_of_contracts :: int
  cm_allow_multi_sign :: int
  cm_allow_adaptive_energy :: int
  cm_allow_delegate_resource :: int
  cm_allow_same_token_name :: int
  cm_allow_tvm_transfer_trc10 :: int
  cm_allow_tvm_constantinople :: int
  cm_allow_tvm_solidity059 :: int
  cm_forbid_transfer_to_contract :: int
  cm_allow_shielded_trc20_transaction :: int
  cm_allow_market_transaction :: int
  cm_allow_transaction_fee_pool :: int
  cm_allow_black_hole_optimization :: int
  cm_allow_new_resource_model :: int
  cm_allow_tvm_istanbul :: int
  cm_allow_proto_filter_num :: int
  cm_allow_account_state_root :: int
  cm_changed_delegation :: int
  cm_allow_pbft :: int
  cm_pbft_expire_num :: int
  cm_allow_receipts_merkle_root :: int
  cm_remaining :: "(string, int) bt_map"

definition config_from :: "CommitteeConfig \<Rightarrow> int \<Rightarrow> DynamicPropertyConfig" where
  "config_from committee maintenance_time_interval =
     (let late = (\<lambda>name. case bt_get (cm_remaining committee) name of None \<Rightarrow> 0 | Some v \<Rightarrow> v) in
      \<lparr>
        dc_allow_multi_sign = cm_allow_multi_sign committee, dc_maintenance_time_interval = maintenance_time_interval,
        dc_allow_adaptive_energy = cm_allow_adaptive_energy committee, dc_allow_market_transaction = cm_allow_market_transaction committee,
        dc_allow_transaction_fee_pool = cm_allow_transaction_fee_pool committee,
        dc_allow_delegate_resource = cm_allow_delegate_resource committee,
        dc_allow_tvm_transfer_trc10 = cm_allow_tvm_transfer_trc10 committee,
        dc_allow_tvm_constantinople = cm_allow_tvm_constantinople committee,
        dc_allow_tvm_solidity_059 = cm_allow_tvm_solidity059 committee,
        dc_forbid_transfer_to_contract = cm_forbid_transfer_to_contract committee,
        dc_allow_same_token_name = cm_allow_same_token_name committee,
        dc_allow_creation_of_contracts = cm_allow_creation_of_contracts committee,
        dc_allow_shielded_trc20_transaction = cm_allow_shielded_trc20_transaction committee,
        dc_allow_tvm_istanbul = cm_allow_tvm_istanbul committee, dc_allow_account_state_root = cm_allow_account_state_root committee,
        dc_allow_proto_filter_num = cm_allow_proto_filter_num committee, dc_changed_delegation = cm_changed_delegation committee,
        dc_allow_pbft = cm_allow_pbft committee, dc_allow_blackhole_optimization = cm_allow_black_hole_optimization committee,
        dc_allow_new_resource_model = cm_allow_new_resource_model committee, dc_allow_tvm_freeze = late ''allowTvmFreeze'',
        dc_allow_tvm_vote = late ''allowTvmVote'', dc_allow_tvm_london = late ''allowTvmLondon'',
        dc_allow_tvm_compatible_evm = late ''allowTvmCompatibleEvm'', dc_allow_asset_optimization = late ''allowAssetOptimization'',
        dc_allow_account_asset_optimization = late ''allowAccountAssetOptimization'',
        dc_allow_higher_limit_for_max_cpu_time_of_one_tx = late ''allowHigherLimitForMaxCpuTimeOfOneTx'',
        dc_allow_new_reward_algorithm = late ''allowNewRewardAlgorithm'', dc_allow_new_reward = late ''allowNewReward'',
        dc_memo_fee = late ''memoFee'', dc_allow_delegate_optimization = late ''allowDelegateOptimization'',
        dc_unfreeze_delay_days = late ''unfreezeDelayDays'',
        dc_allow_optimized_return_value_of_chain_id = late ''allowOptimizedReturnValueOfChainId'',
        dc_allow_dynamic_energy = late ''allowDynamicEnergy'', dc_dynamic_energy_threshold = late ''dynamicEnergyThreshold'',
        dc_dynamic_energy_increase_factor = late ''dynamicEnergyIncreaseFactor'',
        dc_dynamic_energy_max_factor = late ''dynamicEnergyMaxFactor'' \<rparr>)"

section \<open>Installing the defaults\<close>

definition reward_cycle :: "DynamicPropertyConfig \<Rightarrow> int" where
  "reward_cycle config =
     (if dc_allow_tvm_vote config = 1 \<or> dc_allow_new_reward_algorithm config = 1 \<or> dc_allow_new_reward config = 1
      then 0 else i64_max)"

text \<open>The constructor writes in this order: these, the paired memo fee, then the last ones.\<close>

definition constructor_defaults :: "DynamicPropertyConfig \<Rightarrow> i64 \<Rightarrow> bytes \<Rightarrow> (string \<times> bytes) list" where
  "constructor_defaults config genesis_timestamp active_default_operations = [
     (''TOTAL_SIGN_NUM'', i32_to_be_bytes 5), (''ALLOW_MULTI_SIGN'', i64_to_be_bytes (dc_allow_multi_sign config)),
     (''LATEST_BLOCK_HEADER_TIMESTAMP'', i64_to_be_bytes 0), (''LATEST_BLOCK_HEADER_NUMBER'', i64_to_be_bytes 0),
     (''LATEST_BLOCK_HEADER_HASH'', [0]), (''STATE_FLAG'', i32_to_be_bytes 0), (''LATEST_SOLIDIFIED_BLOCK_NUM'', i64_to_be_bytes 0),
     (''LATEST_PROPOSAL_NUM'', i64_to_be_bytes 0), (''LATEST_EXCHANGE_NUM'', i64_to_be_bytes 0), (''BLOCK_FILLED_SLOTS_INDEX'', i32_to_be_bytes 0),
     (''TOKEN_ID_NUM'', i64_to_be_bytes 1000000), (''TOKEN_UPDATE_DONE'', i64_to_be_bytes 0), (''ABI_MOVE_DONE'', i64_to_be_bytes 0),
     (''MAX_FROZEN_TIME'', i32_to_be_bytes 3), (''MIN_FROZEN_TIME'', i32_to_be_bytes 3), (''MAX_FROZEN_SUPPLY_NUMBER'', i32_to_be_bytes 10),
     (''MAX_FROZEN_SUPPLY_TIME'', i32_to_be_bytes 3652), (''MIN_FROZEN_SUPPLY_TIME'', i32_to_be_bytes 1),
     (''WITNESS_ALLOWANCE_FROZEN_TIME'', i32_to_be_bytes 1), (''WITNESS_PAY_PER_BLOCK'', i64_to_be_bytes 32000000),
     (''WITNESS_STANDBY_ALLOWANCE'', i64_to_be_bytes 115200000000),
     (''MAINTENANCE_TIME_INTERVAL'', i64_to_be_bytes (dc_maintenance_time_interval config)), (''ACCOUNT_UPGRADE_COST'', i64_to_be_bytes 9999000000),
     (''PUBLIC_NET_USAGE'', i64_to_be_bytes 0), (''ONE_DAY_NET_LIMIT'', i64_to_be_bytes 57600000000),
     (''PUBLIC_NET_LIMIT'', i64_to_be_bytes 14400000000), (''PUBLIC_NET_TIME'', i64_to_be_bytes 0), (''FREE_NET_LIMIT'', i64_to_be_bytes 5000),
     (''TOTAL_NET_WEIGHT'', i64_to_be_bytes 0), (''TOTAL_NET_LIMIT'', i64_to_be_bytes 43200000000), (''TOTAL_ENERGY_WEIGHT'', i64_to_be_bytes 0),
     (''TOTAL_TRON_POWER_WEIGHT'', i64_to_be_bytes 0), (''ALLOW_ADAPTIVE_ENERGY'', i64_to_be_bytes (dc_allow_adaptive_energy config)),
     (''ADAPTIVE_RESOURCE_LIMIT_TARGET_RATIO'', i64_to_be_bytes 14400), (''TOTAL_ENERGY_LIMIT'', i64_to_be_bytes 50000000000),
     (''ENERGY_FEE'', i64_to_be_bytes 100), (''MAX_CPU_TIME_OF_ONE_TX'', i64_to_be_bytes 50), (''CREATE_ACCOUNT_FEE'', i64_to_be_bytes 100000),
     (''SHIELDED_TRANSACTION_FEE'', i64_to_be_bytes 100000), (''SHIELDED_TRANSACTION_CREATE_ACCOUNT_FEE'', i64_to_be_bytes 1000000),
     (''TOTAL_SHIELDED_POOL_VALUE'', i64_to_be_bytes 0), (''CREATE_NEW_ACCOUNT_FEE_IN_SYSTEM_CONTRACT'', i64_to_be_bytes 0),
     (''CREATE_NEW_ACCOUNT_BANDWIDTH_RATE'', i64_to_be_bytes 1), (''TRANSACTION_FEE'', i64_to_be_bytes 10),
     (''ASSET_ISSUE_FEE'', i64_to_be_bytes 1024000000), (''UPDATE_ACCOUNT_PERMISSION_FEE'', i64_to_be_bytes 100000000),
     (''MULTI_SIGN_FEE'', i64_to_be_bytes 1000000), (''EXCHANGE_CREATE_FEE'', i64_to_be_bytes 1024000000),
     (''EXCHANGE_BALANCE_LIMIT'', i64_to_be_bytes 1000000000000000),
     (''ALLOW_MARKET_TRANSACTION'', i64_to_be_bytes (dc_allow_market_transaction config)), (''MARKET_SELL_FEE'', i64_to_be_bytes 0),
     (''MARKET_CANCEL_FEE'', i64_to_be_bytes 0), (''MARKET_QUANTITY_LIMIT'', i64_to_be_bytes 1000000000000000),
     (''ALLOW_TRANSACTION_FEE_POOL'', i64_to_be_bytes (dc_allow_transaction_fee_pool config)), (''TRANSACTION_FEE_POOL'', i64_to_be_bytes 0),
     (''TOTAL_TRANSACTION_COST'', i64_to_be_bytes 0), (''TOTAL_CREATE_WITNESS_COST'', i64_to_be_bytes 0),
     (''TOTAL_CREATE_ACCOUNT_COST'', i64_to_be_bytes 0), (''TOTAL_STORAGE_POOL'', i64_to_be_bytes 100000000000000),
     (''TOTAL_STORAGE_TAX'', i64_to_be_bytes 0), (''TOTAL_STORAGE_RESERVED'', i64_to_be_bytes 137438953472),
     (''STORAGE_EXCHANGE_TAX_RATE'', i64_to_be_bytes 10), (''REMOVE_THE_POWER_OF_THE_GR'', i64_to_be_bytes 0),
     (''ALLOW_DELEGATE_RESOURCE'', i64_to_be_bytes (dc_allow_delegate_resource config)),
     (''ALLOW_TVM_TRANSFER_TRC10'', i64_to_be_bytes (dc_allow_tvm_transfer_trc10 config)),
     (''ALLOW_TVM_CONSTANTINOPLE'', i64_to_be_bytes (dc_allow_tvm_constantinople config)),
     (''ALLOW_TVM_SOLIDITY_059'', i64_to_be_bytes (dc_allow_tvm_solidity_059 config)),
     (''FORBID_TRANSFER_TO_CONTRACT'', i64_to_be_bytes (dc_forbid_transfer_to_contract config)),
     (''AVAILABLE_CONTRACT_TYPE'', AVAILABLE_CONTRACT_TYPES), (''ACTIVE_DEFAULT_OPERATIONS'', active_default_operations),
     (''ALLOW_SAME_TOKEN_NAME'', i64_to_be_bytes (dc_allow_same_token_name config)), (''ALLOW_UPDATE_ACCOUNT_NAME'', i64_to_be_bytes 0),
     (''ALLOW_CREATION_OF_CONTRACTS'', i64_to_be_bytes (dc_allow_creation_of_contracts config)), (''ALLOW_SHIELDED_TRANSACTION'', i64_to_be_bytes 0),
     (''ALLOW_SHIELDED_TRC20_TRANSACTION'', i64_to_be_bytes (dc_allow_shielded_trc20_transaction config)),
     (''ALLOW_TVM_ISTANBUL'', i64_to_be_bytes (dc_allow_tvm_istanbul config)), (''BLOCK_FILLED_SLOTS'', replicate 128 0x31),
     (''NEXT_MAINTENANCE_TIME'', i64_to_be_bytes genesis_timestamp), (''TOTAL_ENERGY_CURRENT_LIMIT'', i64_to_be_bytes 50000000000),
     (''TOTAL_ENERGY_TARGET_LIMIT'', i64_to_be_bytes (50000000000 sdiv 14400)), (''TOTAL_ENERGY_AVERAGE_USAGE'', i64_to_be_bytes 0),
     (''ADAPTIVE_RESOURCE_LIMIT_MULTIPLIER'', i64_to_be_bytes 1000), (''TOTAL_ENERGY_AVERAGE_TIME'', i64_to_be_bytes 0),
     (''BLOCK_ENERGY_USAGE'', i64_to_be_bytes 0), (''ALLOW_ACCOUNT_STATE_ROOT'', i64_to_be_bytes (dc_allow_account_state_root config)),
     (''ALLOW_PROTO_FILTER_NUM'', i64_to_be_bytes (dc_allow_proto_filter_num config)),
     (''CHANGE_DELEGATION'', i64_to_be_bytes (dc_changed_delegation config)), (''ALLOW_PBFT'', i64_to_be_bytes (dc_allow_pbft config)),
     (''MAX_FEE_LIMIT'', i64_to_be_bytes 1000000000), (''BURN_TRX_AMOUNT'', i64_to_be_bytes 0),
     (''ALLOW_BLACKHOLE_OPTIMIZATION'', i64_to_be_bytes (dc_allow_blackhole_optimization config)),
     (''ALLOW_NEW_RESOURCE_MODEL'', i64_to_be_bytes (dc_allow_new_resource_model config)),
     (''ALLOW_TVM_FREEZE'', i64_to_be_bytes (dc_allow_tvm_freeze config)), (''ALLOW_TVM_VOTE'', i64_to_be_bytes (dc_allow_tvm_vote config)),
     (''ALLOW_TVM_LONDON'', i64_to_be_bytes (dc_allow_tvm_london config)),
     (''ALLOW_TVM_COMPATIBLE_EVM'', i64_to_be_bytes (dc_allow_tvm_compatible_evm config)),
     (''ALLOW_ASSET_OPTIMIZATION'', i64_to_be_bytes (dc_allow_asset_optimization config)),
     (''ALLOW_ACCOUNT_ASSET_OPTIMIZATION'', i64_to_be_bytes (dc_allow_account_asset_optimization config)),
     (''ENERGY_PRICE_HISTORY_DONE'', i64_to_be_bytes 0), (''ENERGY_PRICE_HISTORY'', str_bytes ''0:100''),
     (''BANDWIDTH_PRICE_HISTORY_DONE'', i64_to_be_bytes 0), (''BANDWIDTH_PRICE_HISTORY'', str_bytes ''0:10''),
     (''SET_BLACKHOLE_ACCOUNT_PERMISSION'', i64_to_be_bytes 0),
     (''ALLOW_HIGHER_LIMIT_FOR_MAX_CPU_TIME_OF_ONE_TX'', i64_to_be_bytes (dc_allow_higher_limit_for_max_cpu_time_of_one_tx config)),
     (''NEW_REWARD_ALGORITHM_EFFECTIVE_CYCLE'', i64_to_be_bytes (reward_cycle config)),
     (''ALLOW_NEW_REWARD'', i64_to_be_bytes (dc_allow_new_reward config))]"

definition late_defaults :: "DynamicPropertyConfig \<Rightarrow> (string \<times> bytes) list" where
  "late_defaults config = [
     (''ALLOW_DELEGATE_OPTIMIZATION'', i64_to_be_bytes (dc_allow_delegate_optimization config)),
     (''UNFREEZE_DELAY_DAYS'', i64_to_be_bytes (dc_unfreeze_delay_days config)),
     (''ALLOW_OPTIMIZED_RETURN_VALUE_OF_CHAIN_ID'', i64_to_be_bytes (dc_allow_optimized_return_value_of_chain_id config)),
     (''ALLOW_DYNAMIC_ENERGY'', i64_to_be_bytes (dc_allow_dynamic_energy config)),
     (''DYNAMIC_ENERGY_THRESHOLD'', i64_to_be_bytes (dc_dynamic_energy_threshold config)),
     (''DYNAMIC_ENERGY_INCREASE_FACTOR'', i64_to_be_bytes (dc_dynamic_energy_increase_factor config)),
     (''DYNAMIC_ENERGY_MAX_FACTOR'', i64_to_be_bytes (dc_dynamic_energy_max_factor config))]"

text \<open>A missing symbol panics in the code; a storage error ends the installation.\<close>

datatype InstallError = KeyPanic string | InstallStorage StorageError

definition property_key :: "string \<Rightarrow> (bytes, InstallError) result" where
  "property_key symbol = ok_or (dynamic_key symbol) (KeyPanic symbol)"

fun install :: "os \<Rightarrow> StoreName \<Rightarrow> (string \<times> bytes) list \<Rightarrow> nat \<Rightarrow> RustLog \<Rightarrow> RustLog \<times> (nat, InstallError) result" where
  "install env name [] inserted s = (s, Ok inserted)"
| "install env name ((symbol, v) # rest) inserted s =
     (case property_key symbol of
        Err e \<Rightarrow> (s, Err e)
      | Ok key \<Rightarrow>
        (case typed_put_if_absent env name key v s of
           (s, Err e) \<Rightarrow> (s, Err (InstallStorage e))
         | (s, Ok b) \<Rightarrow> install env name rest (inserted + (if b then 1 else 0)) s))"

definition digit_char :: "nat \<Rightarrow> char" where
  "digit_char d = char_of (48 + d)"

fun decimal_nat :: "nat \<Rightarrow> string" where
  "decimal_nat n = (if n < 10 then [digit_char n] else decimal_nat (n div 10) @ [digit_char (n mod 10)])"

declare decimal_nat.simps [simp del]

definition decimal :: "int \<Rightarrow> string" where
  "decimal n = (if n < 0 then ''-'' @ decimal_nat (nat (- n)) else decimal_nat (nat n))"

definition java_bytes_to_long :: "bytes \<Rightarrow> i64" where
  "java_bytes_to_long bs =
     (let suffix = drop (length bs - 8) bs in i64_from_be_bytes (replicate (8 - length suffix) 0 @ suffix))"

definition initialize_paired_default :: "os \<Rightarrow> StoreName \<Rightarrow> bytes \<Rightarrow> bytes \<Rightarrow> bytes \<Rightarrow> (bytes \<Rightarrow> bytes) \<Rightarrow> RustLog \<Rightarrow>
    RustLog \<times> (nat, StorageError) result" where
  "initialize_paired_default env name source_key source_default derived_key derive s =
     (let source = typed_get s name source_key in
      if typed_contains_key s name derived_key then
        (if source \<noteq> None then (s, Ok 0)
         else case typed_put_if_absent env name source_key source_default s of
           (s, r) \<Rightarrow> (s, and_then r (\<lambda>b. Ok (if b then 1 else 0))))
      else
        let source_value = (case source of None \<Rightarrow> source_default | Some v \<Rightarrow> v);
            derived_value = derive source_value;
            batch = (if source = None then state_batch_put name source_key source_default [] else []);
            batch = state_batch_put name derived_key derived_value batch in
        (case state_batch_commit env batch s of
           (s, Err e) \<Rightarrow> (s, Err e)
         | (s, Ok _) \<Rightarrow> (s, Ok ((if source = None then 1 else 0) + 1))))"

definition memo_history :: "bytes \<Rightarrow> bytes" where
  "memo_history fee = str_bytes (''0:'' @ decimal (java_bytes_to_long fee))"

definition initialize_missing :: "os \<Rightarrow> StoreName \<Rightarrow> DynamicPropertyConfig \<Rightarrow> i64 \<Rightarrow> bytes \<Rightarrow> RustLog \<Rightarrow>
    RustLog \<times> (nat, InstallError) result" where
  "initialize_missing env name config genesis_timestamp active_default_operations s =
     (case install env name (constructor_defaults config genesis_timestamp active_default_operations) 0 s of
        (s, Err e) \<Rightarrow> (s, Err e)
      | (s, Ok inserted) \<Rightarrow>
        (case (property_key ''MEMO_FEE'', property_key ''MEMO_FEE_HISTORY'') of
           (Ok fee_key, Ok history_key) \<Rightarrow>
             (case initialize_paired_default env name fee_key (i64_to_be_bytes (dc_memo_fee config)) history_key memo_history s of
                (s, Err e) \<Rightarrow> (s, Err (InstallStorage e))
              | (s, Ok n) \<Rightarrow> install env name (late_defaults config) (inserted + n) s)
         | (Err e, _) \<Rightarrow> (s, Err e)
         | (_, Err e) \<Rightarrow> (s, Err e)))"

section \<open>Typed access\<close>

datatype DynamicValue = IntValue i32 | LongValue i64 | RawValue bytes

datatype PropertyEncoding = EncInt | EncLong | EncRaw

text \<open>The mismatch of \<open>save\<close> is an \<open>UnknownProperty\<close> with a message; it is its own constructor here.\<close>

datatype DynamicError =
    UnknownProperty string
  | EncodingMismatch string PropertyEncoding DynamicValue
  | MissingProperty string
  | InvalidPropertyLength string nat nat
  | InvalidSlots nat
  | InvalidMaintenanceInterval
  | MaintenanceTimestampOverflow string
  | PropertyOverflow string i64 i64
  | InvalidAdaptiveRatio i64
  | DynamicStorage StorageError

definition map_err :: "('e \<Rightarrow> 'f) \<Rightarrow> ('a, 'e) result \<Rightarrow> ('a, 'f) result" where
  "map_err f r = (case r of Err e \<Rightarrow> Err (f e) | Ok x \<Rightarrow> Ok x)"

definition int_properties :: "string list" where
  "int_properties = [''TOTAL_SIGN_NUM'', ''STATE_FLAG'', ''BLOCK_FILLED_SLOTS_INDEX'', ''MAX_FROZEN_TIME'', ''MIN_FROZEN_TIME'',
     ''MAX_FROZEN_SUPPLY_NUMBER'', ''MAX_FROZEN_SUPPLY_TIME'', ''MIN_FROZEN_SUPPLY_TIME'', ''WITNESS_ALLOWANCE_FROZEN_TIME'',
     ''VERSION_NUMBER'']"

definition raw_properties :: "string list" where
  "raw_properties = [''LATEST_BLOCK_HEADER_HASH'', ''AVAILABLE_CONTRACT_TYPE'', ''ACTIVE_DEFAULT_OPERATIONS'', ''BLOCK_FILLED_SLOTS'',
     ''ENERGY_PRICE_HISTORY'', ''BANDWIDTH_PRICE_HISTORY'', ''MEMO_FEE_HISTORY'']"

definition dp_key :: "string \<Rightarrow> (bytes, DynamicError) result" where
  "dp_key symbol = ok_or (dynamic_key symbol) (UnknownProperty symbol)"

definition encoding_class :: "string \<Rightarrow> PropertyEncoding" where
  "encoding_class symbol =
     (if symbol \<in> set int_properties then EncInt else if symbol \<in> set raw_properties then EncRaw else EncLong)"

definition dp_encoding :: "string \<Rightarrow> (PropertyEncoding, DynamicError) result" where
  "dp_encoding symbol = and_then (dp_key symbol) (\<lambda>_. Ok (encoding_class symbol))"

definition dp_get_raw :: "StoreName \<Rightarrow> string \<Rightarrow> RustLog \<Rightarrow> (bytes, DynamicError) result" where
  "dp_get_raw name symbol s = and_then (dp_key symbol) (\<lambda>key. ok_or (typed_get s name key) (MissingProperty symbol))"

definition dp_get_optional_raw :: "StoreName \<Rightarrow> string \<Rightarrow> RustLog \<Rightarrow> (bytes option, DynamicError) result" where
  "dp_get_optional_raw name symbol s = and_then (dp_key symbol) (\<lambda>key. Ok (typed_get s name key))"

definition dp_save_raw :: "os \<Rightarrow> StoreName \<Rightarrow> string \<Rightarrow> bytes \<Rightarrow> RustLog \<Rightarrow> RustLog \<times> (unit, DynamicError) result" where
  "dp_save_raw env name symbol v s =
     (case dp_key symbol of
        Err e \<Rightarrow> (s, Err e)
      | Ok key \<Rightarrow> (case typed_put env name key v s of (s, r) \<Rightarrow> (s, map_err DynamicStorage r)))"

definition dp_get_int :: "StoreName \<Rightarrow> string \<Rightarrow> RustLog \<Rightarrow> (i32, DynamicError) result" where
  "dp_get_int name symbol s =
     and_then (dp_get_raw name symbol s) (\<lambda>v.
       if length v \<noteq> 4 then Err (InvalidPropertyLength symbol 4 (length v)) else Ok (i32_from_be_bytes v))"

definition dp_get_long :: "StoreName \<Rightarrow> string \<Rightarrow> RustLog \<Rightarrow> (i64, DynamicError) result" where
  "dp_get_long name symbol s =
     and_then (dp_get_raw name symbol s) (\<lambda>v.
       if length v \<noteq> 8 then Err (InvalidPropertyLength symbol 8 (length v)) else Ok (i64_from_be_bytes v))"

definition dp_save_int :: "os \<Rightarrow> StoreName \<Rightarrow> string \<Rightarrow> i32 \<Rightarrow> RustLog \<Rightarrow> RustLog \<times> (unit, DynamicError) result" where
  "dp_save_int env name symbol v s = dp_save_raw env name symbol (i32_to_be_bytes v) s"

definition dp_save_long :: "os \<Rightarrow> StoreName \<Rightarrow> string \<Rightarrow> i64 \<Rightarrow> RustLog \<Rightarrow> RustLog \<times> (unit, DynamicError) result" where
  "dp_save_long env name symbol v s = dp_save_raw env name symbol (i64_to_be_bytes v) s"

definition dp_get :: "StoreName \<Rightarrow> string \<Rightarrow> RustLog \<Rightarrow> (DynamicValue, DynamicError) result" where
  "dp_get name symbol s =
     and_then (dp_encoding symbol) (\<lambda>enc.
       case enc of
         EncInt \<Rightarrow> and_then (dp_get_int name symbol s) (\<lambda>v. Ok (IntValue v))
       | EncLong \<Rightarrow> and_then (dp_get_long name symbol s) (\<lambda>v. Ok (LongValue v))
       | EncRaw \<Rightarrow> and_then (dp_get_raw name symbol s) (\<lambda>v. Ok (RawValue v)))"

definition dp_save :: "os \<Rightarrow> StoreName \<Rightarrow> string \<Rightarrow> DynamicValue \<Rightarrow> RustLog \<Rightarrow> RustLog \<times> (unit, DynamicError) result" where
  "dp_save env name symbol v s =
     (case dp_encoding symbol of
        Err e \<Rightarrow> (s, Err e)
      | Ok enc \<Rightarrow>
        (case (enc, v) of
           (EncInt, IntValue n) \<Rightarrow> dp_save_int env name symbol n s
         | (EncLong, LongValue n) \<Rightarrow> dp_save_long env name symbol n s
         | (EncRaw, RawValue bs) \<Rightarrow> dp_save_raw env name symbol bs s
         | _ \<Rightarrow> (s, Err (EncodingMismatch symbol enc v))))"

fun value_bytes :: "DynamicValue \<Rightarrow> bytes" where
  "value_bytes (IntValue v) = i32_to_be_bytes v"
| "value_bytes (LongValue v) = i64_to_be_bytes v"
| "value_bytes (RawValue v) = v"

fun initialize_migration_missing :: "os \<Rightarrow> StoreName \<Rightarrow> (string \<times> DynamicValue) list \<Rightarrow> nat \<Rightarrow> RustLog \<Rightarrow>
    RustLog \<times> (nat, DynamicError) result" where
  "initialize_migration_missing env name [] inserted s = (s, Ok inserted)"
| "initialize_migration_missing env name ((symbol, v) # rest) inserted s =
     (case dp_key symbol of
        Err e \<Rightarrow> (s, Err e)
      | Ok key \<Rightarrow>
        if typed_contains_key s name key then initialize_migration_missing env name rest inserted s
        else (case typed_put_if_absent env name key (value_bytes v) s of
           (s, Err e) \<Rightarrow> (s, Err (DynamicStorage e))
         | (s, Ok b) \<Rightarrow> initialize_migration_missing env name rest (inserted + (if b then 1 else 0)) s))"

definition is_enabled :: "StoreName \<Rightarrow> string \<Rightarrow> RustLog \<Rightarrow> (bool, DynamicError) result" where
  "is_enabled name symbol s = and_then (dp_get_long name symbol s) (\<lambda>v. Ok (v = 1))"

definition is_unfreeze_delay_enabled :: "StoreName \<Rightarrow> RustLog \<Rightarrow> (bool, DynamicError) result" where
  "is_unfreeze_delay_enabled name s = and_then (dp_get_long name ''UNFREEZE_DELAY_DAYS'' s) (\<lambda>v. Ok (0 < v))"

section \<open>Counters, limits and clocks\<close>

definition add_long_checked :: "os \<Rightarrow> StoreName \<Rightarrow> string \<Rightarrow> i64 \<Rightarrow> bool \<Rightarrow> bool \<Rightarrow> RustLog \<Rightarrow> RustLog \<times> (i64, DynamicError) result" where
  "add_long_checked env name symbol amount ignore_zero clamp_for_new_reward s =
     (if ignore_zero \<and> amount = 0 then (s, dp_get_long name symbol s)
      else case dp_get_long name symbol s of
        Err e \<Rightarrow> (s, Err e)
      | Ok cur \<Rightarrow>
        (case checked_i64 (cur + amount) of
           None \<Rightarrow> (s, Err (PropertyOverflow symbol cur amount))
         | Some added \<Rightarrow>
           (case (if clamp_for_new_reward then is_enabled name ''ALLOW_NEW_REWARD'' s else Ok False) of
              Err e \<Rightarrow> (s, Err e)
            | Ok reward \<Rightarrow>
              let total_limit = (if reward \<and> added < 0 then 0 else added) in
              (case dp_save_long env name symbol total_limit s of
                 (s, Err e) \<Rightarrow> (s, Err e)
               | (s, Ok _) \<Rightarrow> (s, Ok total_limit)))))"

definition add_total_net_weight :: "os \<Rightarrow> StoreName \<Rightarrow> i64 \<Rightarrow> RustLog \<Rightarrow> RustLog \<times> (i64, DynamicError) result" where
  "add_total_net_weight env name amount s = add_long_checked env name ''TOTAL_NET_WEIGHT'' amount True True s"

definition add_total_energy_weight :: "os \<Rightarrow> StoreName \<Rightarrow> i64 \<Rightarrow> RustLog \<Rightarrow> RustLog \<times> (i64, DynamicError) result" where
  "add_total_energy_weight env name amount s = add_long_checked env name ''TOTAL_ENERGY_WEIGHT'' amount True True s"

definition add_total_tron_power_weight :: "os \<Rightarrow> StoreName \<Rightarrow> i64 \<Rightarrow> RustLog \<Rightarrow> RustLog \<times> (i64, DynamicError) result" where
  "add_total_tron_power_weight env name amount s = add_long_checked env name ''TOTAL_TRON_POWER_WEIGHT'' amount True True s"

definition add_transaction_fee_pool :: "os \<Rightarrow> StoreName \<Rightarrow> i64 \<Rightarrow> RustLog \<Rightarrow> RustLog \<times> (i64, DynamicError) result" where
  "add_transaction_fee_pool env name amount s =
     (if amount \<le> 0 then (s, dp_get_long name ''TRANSACTION_FEE_POOL'' s)
      else add_long_checked env name ''TRANSACTION_FEE_POOL'' amount False False s)"

definition add_burned_trx :: "os \<Rightarrow> StoreName \<Rightarrow> i64 \<Rightarrow> RustLog \<Rightarrow> RustLog \<times> (i64, DynamicError) result" where
  "add_burned_trx env name amount s =
     (if amount \<le> 0 then (s, dp_get_long name ''BURN_TRX_AMOUNT'' s)
      else add_long_checked env name ''BURN_TRX_AMOUNT'' amount False False s)"

definition add_total_transaction_cost :: "os \<Rightarrow> StoreName \<Rightarrow> i64 \<Rightarrow> RustLog \<Rightarrow> RustLog \<times> (i64, DynamicError) result" where
  "add_total_transaction_cost env name amount s = add_long_checked env name ''TOTAL_TRANSACTION_COST'' amount False False s"

definition add_total_create_account_cost :: "os \<Rightarrow> StoreName \<Rightarrow> i64 \<Rightarrow> RustLog \<Rightarrow> RustLog \<times> (i64, DynamicError) result" where
  "add_total_create_account_cost env name amount s = add_long_checked env name ''TOTAL_CREATE_ACCOUNT_COST'' amount False False s"

definition add_total_create_witness_cost :: "os \<Rightarrow> StoreName \<Rightarrow> i64 \<Rightarrow> RustLog \<Rightarrow> RustLog \<times> (i64, DynamicError) result" where
  "add_total_create_witness_cost env name amount s = add_long_checked env name ''TOTAL_CREATE_WITNESS_COST'' amount False False s"

text \<open>The symbols below are in the table, so the lookups of the code cannot fail; \<open>known_key\<close> is their value.\<close>

definition known_key :: "string \<Rightarrow> bytes" where
  "known_key symbol = (case dynamic_key symbol of None \<Rightarrow> [] | Some k \<Rightarrow> k)"

definition commit_mapped :: "os \<Rightarrow> (WritePhase \<Rightarrow> IoError option) \<Rightarrow> WriteBatch \<Rightarrow> RustLog \<Rightarrow> RustLog \<times> (unit, DynamicError) result" where
  "commit_mapped env faults batch s = (case write_with_faults env faults batch s of (s, r) \<Rightarrow> (s, map_err DynamicStorage r))"

definition save_total_energy_limit :: "os \<Rightarrow> StoreName \<Rightarrow> i64 \<Rightarrow> RustLog \<Rightarrow> RustLog \<times> (unit, DynamicError) result" where
  "save_total_energy_limit env name total_limit s =
     (case dp_get_long name ''ADAPTIVE_RESOURCE_LIMIT_TARGET_RATIO'' s of
        Err e \<Rightarrow> (s, Err e)
      | Ok ratio \<Rightarrow>
        if ratio \<le> 0 then (s, Err (InvalidAdaptiveRatio ratio))
        else let target = total_limit sdiv ratio in
          commit_mapped env no_faults
            (state_batch_put name (known_key ''TOTAL_ENERGY_TARGET_LIMIT'') (i64_to_be_bytes target)
              (state_batch_put name (known_key ''TOTAL_ENERGY_LIMIT'') (i64_to_be_bytes total_limit) [])) s)"

definition save_total_energy_limit2 :: "os \<Rightarrow> StoreName \<Rightarrow> i64 \<Rightarrow> RustLog \<Rightarrow> RustLog \<times> (unit, DynamicError) result" where
  "save_total_energy_limit2 env name total_limit s =
     (case dp_get_long name ''ADAPTIVE_RESOURCE_LIMIT_TARGET_RATIO'' s of
        Err e \<Rightarrow> (s, Err e)
      | Ok ratio \<Rightarrow>
        if ratio \<le> 0 then (s, Err (InvalidAdaptiveRatio ratio))
        else case is_enabled name ''ALLOW_ADAPTIVE_ENERGY'' s of
          Err e \<Rightarrow> (s, Err e)
        | Ok adaptive \<Rightarrow>
          let target = total_limit sdiv ratio;
              batch = state_batch_put name (known_key ''TOTAL_ENERGY_TARGET_LIMIT'') (i64_to_be_bytes target)
                (state_batch_put name (known_key ''TOTAL_ENERGY_LIMIT'') (i64_to_be_bytes total_limit) []);
              batch = (if \<not> adaptive then state_batch_put name (known_key ''TOTAL_ENERGY_CURRENT_LIMIT'') (i64_to_be_bytes total_limit) batch
                       else batch) in
          commit_mapped env no_faults batch s)"

definition apply_block_with_faults :: "os \<Rightarrow> (WritePhase \<Rightarrow> IoError option) \<Rightarrow> StoreName \<Rightarrow> bool \<Rightarrow> RustLog \<Rightarrow>
    RustLog \<times> (unit, DynamicError) result" where
  "apply_block_with_faults env faults name filled s =
     (case dp_get_raw name ''BLOCK_FILLED_SLOTS'' s of
        Err e \<Rightarrow> (s, Err e)
      | Ok slots \<Rightarrow>
        if length slots \<noteq> 128 then (s, Err (InvalidSlots (length slots)))
        else case dp_get_int name ''BLOCK_FILLED_SLOTS_INDEX'' s of
          Err e \<Rightarrow> (s, Err e)
        | Ok stored \<Rightarrow>
          let index = nat (stored mod 128);
              slots = slots[index := (if filled then 0x31 else 0x30)];
              next_index = int ((index + 1) mod 128) in
          commit_mapped env faults
            (state_batch_put name (known_key ''BLOCK_FILLED_SLOTS_INDEX'') (i32_to_be_bytes next_index)
              (state_batch_put name (known_key ''BLOCK_FILLED_SLOTS'') slots [])) s)"

definition apply_block :: "os \<Rightarrow> StoreName \<Rightarrow> bool \<Rightarrow> RustLog \<Rightarrow> RustLog \<times> (unit, DynamicError) result" where
  "apply_block env name filled s = apply_block_with_faults env no_faults name filled s"

definition calculate_filled_slots_count :: "StoreName \<Rightarrow> RustLog \<Rightarrow> (i32, DynamicError) result" where
  "calculate_filled_slots_count name s =
     and_then (dp_get_raw name ''BLOCK_FILLED_SLOTS'' s) (\<lambda>slots.
       if length slots \<noteq> 128 then Err (InvalidSlots (length slots))
       else if list_ex (\<lambda>slot. slot \<noteq> 0x30 \<and> slot \<noteq> 0x31) slots then Err (InvalidSlots (length slots))
       else Ok (int (100 * length (filter (\<lambda>slot. slot = 0x31) slots) div 128)))"

definition exact_i64 :: "string \<Rightarrow> int \<Rightarrow> (i64, DynamicError) result" where
  "exact_i64 operation v =
     (if in_i128 v \<and> in_i64 v then Ok v else Err (MaintenanceTimestampOverflow operation))"

definition update_next_maintenance_time :: "os \<Rightarrow> StoreName \<Rightarrow> i64 \<Rightarrow> RustLog \<Rightarrow> RustLog \<times> (i64, DynamicError) result" where
  "update_next_maintenance_time env name block_time s =
     (case and_then (dp_get_long name ''NEXT_MAINTENANCE_TIME'' s) (\<lambda>cur.
           and_then (dp_get_long name ''MAINTENANCE_TIME_INTERVAL'' s) (\<lambda>interval.
           if interval \<le> 0 then Err InvalidMaintenanceInterval
           else and_then (exact_i64 ''subtract'' (block_time - cur)) (\<lambda>difference.
           and_then (exact_i64 ''divide'' (difference sdiv interval)) (\<lambda>quotient.
           and_then (exact_i64 ''round'' (quotient + 1)) (\<lambda>periods.
           and_then (exact_i64 ''multiply'' (periods * interval)) (\<lambda>offset.
           exact_i64 ''add'' (cur + offset))))))) of
        Err e \<Rightarrow> (s, Err e)
      | Ok time \<Rightarrow>
        (case dp_save_long env name ''NEXT_MAINTENANCE_TIME'' time s of
           (s, Err e) \<Rightarrow> (s, Err e)
         | (s, Ok _) \<Rightarrow> (s, Ok time)))"

definition proposal_expire_time :: "StoreName \<Rightarrow> i64 \<Rightarrow> i64 \<Rightarrow> RustLog \<Rightarrow> (i64 option, DynamicError) result" where
  "proposal_expire_time name minimum maximum s =
     and_then (dp_get_long name ''PROPOSAL_EXPIRE_TIME'' s) (\<lambda>v. Ok (if minimum < v \<and> v < maximum then Some v else None))"

definition supports_max_delegate_lock_period :: "StoreName \<Rightarrow> RustLog \<Rightarrow> (bool, DynamicError) result" where
  "supports_max_delegate_lock_period name s =
     and_then (dp_key ''MAX_DELEGATE_LOCK_PERIOD'') (\<lambda>key.
       if typed_contains_key s name key then is_unfreeze_delay_enabled name s else Ok False)"

definition fork_stats_key :: "i32 \<Rightarrow> bytes" where
  "fork_stats_key version = str_bytes (''FORK_VERSION_'' @ decimal version)"

definition fork_controller_key :: "i32 \<Rightarrow> bytes" where
  "fork_controller_key version = str_bytes (''FORK_CONTROLLER'' @ decimal version)"

definition fork_stats :: "StoreName \<Rightarrow> i32 \<Rightarrow> RustLog \<Rightarrow> bytes option" where
  "fork_stats name version s = typed_get s name (fork_stats_key version)"

definition save_fork_stats :: "os \<Rightarrow> StoreName \<Rightarrow> i32 \<Rightarrow> bytes \<Rightarrow> RustLog \<Rightarrow> RustLog \<times> (unit, DynamicError) result" where
  "save_fork_stats env name version stats s =
     (case typed_put env name (fork_stats_key version) stats s of (s, r) \<Rightarrow> (s, map_err DynamicStorage r))"

definition forked :: "StoreName \<Rightarrow> i32 \<Rightarrow> RustLog \<Rightarrow> bool" where
  "forked name version s \<longleftrightarrow> typed_get s name (fork_controller_key version) = Some (str_bytes ''true'')"

definition save_forked :: "os \<Rightarrow> StoreName \<Rightarrow> i32 \<Rightarrow> bool \<Rightarrow> RustLog \<Rightarrow> RustLog \<times> (unit, DynamicError) result" where
  "save_forked env name version v s =
     (case typed_put env name (fork_controller_key version) (str_bytes (if v then ''true'' else ''false'')) s of
        (s, r) \<Rightarrow> (s, map_err DynamicStorage r))"

end
