(* ===== verification/Dynamic_Keys.thy ===== *)
theory Dynamic_Keys
  imports Dynamic
begin

text \<open>
  Facts about the tables of dynamic properties that need every row: no two properties share
  their key bytes, every symbol the constructor uses is in the table, and every constructor
  default has the width its encoding reads.
\<close>

section \<open>The key table\<close>

lemma str_bytes_inj [simp]: "str_bytes a = str_bytes b \<longleftrightarrow> a = b"
proof
  assume "str_bytes a = str_bytes b"
  moreover have "inj (\<lambda>c :: char. word_of_nat (of_char c) :: 8 word)"
  proof (rule injI)
    fix x y :: char
    assume "word_of_nat (of_char x) = (word_of_nat (of_char y) :: 8 word)"
    then have "unat (word_of_nat (of_char x) :: 8 word) = unat (word_of_nat (of_char y) :: 8 word)" by simp
    then have "(of_char x :: nat) mod 256 = of_char y mod 256" by (simp add: unat_of_nat)
    then show "x = y" by (simp add: of_char_eq_iff)
  qed
  ultimately show "a = b" unfolding str_bytes_def by (simp add: inj_map_eq_map)
qed simp

text \<open>Comparing literals character by character, stopping at the first difference.\<close>

fun literal_eq :: "string \<Rightarrow> string \<Rightarrow> bool" where
  "literal_eq [] [] = True"
| "literal_eq (a # as) (b # bs) = (if a = b then literal_eq as bs else False)"
| "literal_eq [] (b # bs) = False"
| "literal_eq (a # as) [] = False"

lemma literal_eq: "literal_eq a b \<longleftrightarrow> a = b"
  by (induction a b rule: literal_eq.induct) auto

lemma str_bytes_literal: "str_bytes a = str_bytes b \<longleftrightarrow> literal_eq a b"
  by (simp add: literal_eq)

lemma keys_distinct_1: "distinct (map snd (take 46 KEYS))"
  unfolding KEYS_def by (simp add: str_bytes_literal del: str_bytes_inj)

lemma keys_distinct_2: "distinct (map snd (take 45 (drop 46 KEYS)))"
  unfolding KEYS_def by (simp add: str_bytes_literal del: str_bytes_inj)

lemma keys_distinct_3: "distinct (map snd (drop 91 KEYS))"
  unfolding KEYS_def by (simp add: str_bytes_literal del: str_bytes_inj)

lemma keys_disjoint_12: "\<forall>k\<in>set (map snd (take 46 KEYS)). k \<notin> set (map snd (take 45 (drop 46 KEYS)))"
  unfolding KEYS_def by (simp add: str_bytes_literal del: str_bytes_inj)

lemma keys_disjoint_13: "\<forall>k\<in>set (map snd (take 46 KEYS)). k \<notin> set (map snd (drop 91 KEYS))"
  unfolding KEYS_def by (simp add: str_bytes_literal del: str_bytes_inj)

lemma keys_disjoint_23: "\<forall>k\<in>set (map snd (take 45 (drop 46 KEYS))). k \<notin> set (map snd (drop 91 KEYS))"
  unfolding KEYS_def by (simp add: str_bytes_literal del: str_bytes_inj)

lemma split_in_three: "xs = take m xs @ take n (drop m xs) @ drop (n + m) xs"
  by (metis append_take_drop_id drop_drop)

lemma keys_split: "KEYS = take 46 KEYS @ take 45 (drop 46 KEYS) @ drop 91 KEYS"
proof -
  have "(45 :: nat) + 46 = 91" by simp
  then show ?thesis by (metis split_in_three)
qed

lemma distinct_keys: "distinct (map snd KEYS)"
  by (subst keys_split)
    (use keys_distinct_1 keys_distinct_2 keys_distinct_3 keys_disjoint_12 keys_disjoint_13 keys_disjoint_23 in
      \<open>simp only: map_append distinct_append set_append Int_Un_distrib simp_thms Un_empty disjoint_iff Ball_def\<close>)

lemma take_str_bytes: "take n (str_bytes s) = str_bytes (take n s)"
  by (simp add: str_bytes_def take_map)

lemma fork_keys_fresh: "list_all (\<lambda>k. take 5 k \<noteq> str_bytes ''FORK_'') (map snd KEYS)"
  unfolding KEYS_def by (simp add: str_bytes_literal take_str_bytes del: str_bytes_inj)

definition known_symbols :: "string set" where
  "known_symbols = fst ` set KEYS"

lemma constructor_known: "list_all (\<lambda>e. fst e \<in> known_symbols) (constructor_defaults config ts ops)"
  unfolding constructor_defaults_def KEYS_def known_symbols_def
  by (simp only: list.set image_insert fst_conv list.pred_inject insert_iff simp_thms)

lemma late_known: "list_all (\<lambda>e. fst e \<in> known_symbols) (late_defaults config)"
  unfolding late_defaults_def KEYS_def known_symbols_def
  by (simp only: list.set image_insert fst_conv list.pred_inject insert_iff simp_thms)

definition width_ok :: "PropertyEncoding \<Rightarrow> bytes \<Rightarrow> bool" where
  "width_ok enc v \<longleftrightarrow> (case enc of EncInt \<Rightarrow> length v = 4 | EncLong \<Rightarrow> length v = 8 | EncRaw \<Rightarrow> True)"

lemma length_i32_to_be_bytes [simp]: "length (i32_to_be_bytes v) = 4"
  by (simp add: i32_to_be_bytes_def)

lemma constructor_widths: "list_all (\<lambda>e. width_ok (encoding_class (fst e)) (snd e)) (constructor_defaults config ts ops)"
  unfolding constructor_defaults_def
  by (simp add: width_ok_def encoding_class_def int_properties_def raw_properties_def literal_eq [symmetric])

lemma late_widths: "list_all (\<lambda>e. width_ok (encoding_class (fst e)) (snd e)) (late_defaults config)"
  unfolding late_defaults_def
  by (simp add: width_ok_def encoding_class_def int_properties_def raw_properties_def literal_eq [symmetric])

lemma known_key_dynamic: "symbol \<in> known_symbols \<Longrightarrow> dynamic_key symbol = Some (known_key symbol)"
  using map_of_eq_None_iff [of KEYS symbol] by (auto simp: known_symbols_def known_key_def dynamic_key_def split: option.split)

lemma known_key_in: "symbol \<in> known_symbols \<Longrightarrow> (symbol, known_key symbol) \<in> set KEYS"
  using known_key_dynamic by (auto simp: dynamic_key_def dest: map_of_SomeD)

lemma known_key_inj: "a \<in> known_symbols \<Longrightarrow> b \<in> known_symbols \<Longrightarrow> known_key a = known_key b \<longleftrightarrow> a = b"
  using known_key_in [of a] known_key_in [of b] distinct_keys by (auto simp: distinct_map) (metis inj_onD prod.inject snd_conv)

end
