(* ===== verification/Dynamic_Types.thy ===== *)
theory Dynamic_Types
  imports Dynamic_Keys
begin

text \<open>
  What the dynamic property store guarantees: installing defaults never replaces a persisted
  value, never panics and is idempotent; every checked operation keeps each property at the
  width its encoding reads; the maintenance clock moves strictly past the block.
\<close>

section \<open>Stores that are only written when absent\<close>

locale absent_store =
  fixes get :: "'s \<Rightarrow> 'k \<Rightarrow> 'v option"
    and put_absent :: "'k \<Rightarrow> 'v \<Rightarrow> 's \<Rightarrow> 's \<times> (bool, 'e) result"
  assumes present: "get s k \<noteq> None \<Longrightarrow> put_absent k v s = (s, Ok False)"
    and absent: "get s k = None \<Longrightarrow> put_absent k v s = (s', r) \<Longrightarrow>
      r \<noteq> Ok False \<and> get s' k' = (if r = Ok True \<and> k' = k then Some v else get s k')"
begin

lemma get_put_absent:
  assumes "put_absent k v s = (s', Ok b)"
  shows "get s' k' = (case get s k' of Some w \<Rightarrow> Some w | None \<Rightarrow> if k' = k then Some v else None)"
    and "b \<longleftrightarrow> get s k = None"
proof -
  have "get s' k' = (case get s k' of Some w \<Rightarrow> Some w | None \<Rightarrow> if k' = k then Some v else None) \<and> (b \<longleftrightarrow> get s k = None)"
  proof (cases "get s k")
    case None
    with absent [OF None assms, of k'] show ?thesis by (cases b) (auto split: option.split)
  next
    case (Some w)
    with present [of s k v] assms show ?thesis by (auto split: option.split)
  qed
  then show "get s' k' = (case get s k' of Some w \<Rightarrow> Some w | None \<Rightarrow> if k' = k then Some v else None)"
    "b \<longleftrightarrow> get s k = None" by simp_all
qed

lemma get_put_absent_Err: "put_absent k v s = (s', Err e) \<Longrightarrow> get s' k' = get s k'"
  using present [of s k v] absent [of s k v s' "Err e" k'] by (cases "get s k") auto

end

lemma typed_get_put:
  assumes "typed_put env (kind_name kind) key v s = (s', r)"
  shows "typed_get s' (kind_name kind) key' = (if is_ok r \<and> key' = key then Some v else typed_get s (kind_name kind) key')"
  using assms put_entries [of env _ v s s' r]
  by (simp add: typed_put_def typed_get_def log_get_def physical_key_inj)

interpretation props: absent_store "\<lambda>s. typed_get s (kind_name kind)" "typed_put_if_absent env (kind_name kind)" for env kind
proof
  fix s key v
  assume "typed_get s (kind_name kind) key \<noteq> None"
  then show "typed_put_if_absent env (kind_name kind) key v s = (s, Ok False)"
    by (simp add: typed_put_if_absent_def contains_key_def typed_get_def log_get_def)
next
  fix s key v s' r key'
  assume none: "typed_get s (kind_name kind) key = None" and p: "typed_put_if_absent env (kind_name kind) key v s = (s', r)"
  obtain r0 where r0: "typed_put env (kind_name kind) key v s = (s', r0)" "r = and_then r0 (\<lambda>_. Ok True)"
    using none p
    by (auto simp: typed_put_if_absent_def typed_put_def contains_key_def typed_get_def log_get_def split: prod.splits)
  then show "r \<noteq> Ok False \<and> typed_get s' (kind_name kind) key' =
      (if r = Ok True \<and> key' = key then Some v else typed_get s (kind_name kind) key')"
    using typed_get_put [OF r0(1), of key'] by (cases r0) (auto simp: is_ok_def)
qed

section \<open>Installing\<close>

abbreviation prop_store :: "StoreKind \<Rightarrow> RustLog \<Rightarrow> bytes \<Rightarrow> bytes option" where
  "prop_store kind s \<equiv> typed_get s (kind_name kind)"

lemma contains_get: "typed_contains_key s name key \<longleftrightarrow> typed_get s name key \<noteq> None"
  by (simp add: typed_contains_key_def typed_get_def contains_key_def log_get_def)

text \<open>The value of a key after an installation: what was there, or else the first default.\<close>

definition with_defaults :: "(bytes \<Rightarrow> bytes option) \<Rightarrow> (string \<times> bytes) list \<Rightarrow> bytes \<Rightarrow> bytes option" where
  "with_defaults m ds k = (case m k of Some v \<Rightarrow> Some v | None \<Rightarrow> map_of (map (\<lambda>(symbol, v). (known_key symbol, v)) ds) k)"

lemma with_defaults_present:
  assumes "symbol \<in> fst ` set ds"
  shows "with_defaults m ds (known_key symbol) \<noteq> None"
proof -
  from assms obtain v where "(symbol, v) \<in> set ds" by auto
  then have "(known_key symbol, v) \<in> set (map (\<lambda>(symbol, v). (known_key symbol, v)) ds)" by force
  then show ?thesis using weak_map_of_SomeI by (fastforce simp: with_defaults_def split: option.splits)
qed

lemma property_key_known: "symbol \<in> known_symbols \<Longrightarrow> property_key symbol = Ok (known_key symbol)"
  by (simp add: property_key_def known_key_dynamic ok_or_def)

lemma install_cons:
  "symbol \<in> known_symbols \<Longrightarrow> install env name ((symbol, v) # rest) n s =
     (case typed_put_if_absent env name (known_key symbol) v s of
        (s1, Err e) \<Rightarrow> (s1, Err (InstallStorage e))
      | (s1, Ok b) \<Rightarrow> install env name rest (n + (if b then 1 else 0)) s1)"
  by (simp add: property_key_known)

lemma install_get:
  assumes "list_all (\<lambda>e. fst e \<in> known_symbols) ds" "install env (kind_name kind) ds n s = (s', Ok m)"
  shows "prop_store kind s' k = with_defaults (prop_store kind s) ds k"
  using assms
proof (induction ds arbitrary: n s)
  case Nil
  then show ?case by (simp add: with_defaults_def split: option.split)
next
  case (Cons d ds)
  obtain symbol v where d: "d = (symbol, v)" by fastforce
  have known: "symbol \<in> known_symbols" using Cons.prems d by simp
  obtain s1 r where put: "typed_put_if_absent env (kind_name kind) (known_key symbol) v s = (s1, r)" by fastforce
  from Cons.prems(2) put d install_cons [OF known] obtain b where r: "r = Ok b"
    and rest: "install env (kind_name kind) ds (n + (if b then 1 else 0)) s1 = (s', Ok m)"
    by (cases r) (auto simp del: install.simps)
  have "prop_store kind s' k = with_defaults (prop_store kind s1) ds k" using Cons.IH [OF _ rest] Cons.prems by simp
  with props.get_put_absent(1) [OF put [unfolded r], of k] show ?case
    by (auto simp: with_defaults_def d split: option.splits)
qed

lemma install_kept:
  assumes "list_all (\<lambda>e. fst e \<in> known_symbols) ds" "install env (kind_name kind) ds n s = (s', r)" "prop_store kind s k = Some v"
  shows "prop_store kind s' k = Some v \<and> (\<forall>symbol. r \<noteq> Err (KeyPanic symbol))"
  using assms
proof (induction ds arbitrary: n s)
  case (Cons d ds)
  obtain symbol w where d: "d = (symbol, w)" by fastforce
  have known: "symbol \<in> known_symbols" using Cons.prems d by simp
  obtain s1 r1 where put: "typed_put_if_absent env (kind_name kind) (known_key symbol) w s = (s1, r1)" by fastforce
  show ?case
  proof (cases r1)
    case (Inl e)
    with Cons.prems(2,3) put d install_cons [OF known] props.get_put_absent_Err [OF put [unfolded Inl]] show ?thesis
      by (auto simp del: install.simps)
  next
    case (Inr b)
    with Cons.prems(2) put d install_cons [OF known]
    have "install env (kind_name kind) ds (n + (if b then 1 else 0)) s1 = (s', r)" by (simp del: install.simps)
    moreover have "prop_store kind s1 k = Some v" using props.get_put_absent(1) [OF put [unfolded Inr], of k] Cons.prems(3) by simp
    ultimately show ?thesis using Cons.IH Cons.prems(1) by simp
  qed
qed auto

lemma install_no_panic:
  assumes "list_all (\<lambda>e. fst e \<in> known_symbols) ds"
  shows "snd (install env name ds n s) \<noteq> Err (KeyPanic symbol)"
  using assms
proof (induction ds arbitrary: n s)
  case (Cons d ds)
  obtain sym w where d: "d = (sym, w)" by fastforce
  obtain s1 r1 where put: "typed_put_if_absent env name (known_key sym) w s = (s1, r1)" by fastforce
  show ?case
    using Cons d put install_cons [of sym env name w ds n s] by (cases r1) (auto simp del: install.simps)
qed simp

lemma install_full:
  assumes "list_all (\<lambda>e. fst e \<in> known_symbols) ds" "\<forall>d\<in>set ds. prop_store kind s (known_key (fst d)) \<noteq> None"
  shows "install env (kind_name kind) ds n s = (s, Ok n)"
  using assms
proof (induction ds)
  case (Cons d ds)
  then show ?case
    by (cases d) (simp add: property_key_known props.present)
qed simp

lemma batch_get:
  assumes "write_with_faults env faults batch s = (s', r)"
  shows "prop_store kind s' k = (if is_ok r then bt_get (apply_batch (rl_entries s) batch) (physical_key (kind_name kind) k) else prop_store kind s k)"
  using write_entries [OF assms] by (simp add: typed_get_def log_get_def)

lemma paired_full:
  "prop_store kind s sk \<noteq> None \<Longrightarrow> prop_store kind s dk \<noteq> None \<Longrightarrow>
   initialize_paired_default env (kind_name kind) sk sd dk derive s = (s, Ok 0)"
  by (simp add: initialize_paired_default_def contains_get)

lemma paired_get:
  assumes "initialize_paired_default env (kind_name kind) sk sd dk derive s = (s', Ok m)" "sk \<noteq> dk"
  shows "prop_store kind s' k =
    (case prop_store kind s k of Some v \<Rightarrow> Some v
     | None \<Rightarrow> if k = sk then Some sd
         else if k = dk then Some (derive (case prop_store kind s sk of Some v \<Rightarrow> v | None \<Rightarrow> sd)) else None)"
proof (cases "prop_store kind s dk")
  case (Some w)
  show ?thesis
  proof (cases "prop_store kind s sk")
    case None
    with assms(1) Some obtain r where put: "typed_put_if_absent env (kind_name kind) sk sd s = (s', r)"
      "and_then r (\<lambda>b. Ok (if b then 1 else 0)) = Ok m"
      by (auto simp: initialize_paired_default_def contains_get split: prod.splits)
    then obtain b where "r = Ok b" by (cases r) auto
    with props.get_put_absent(1) [of env kind sk sd s s' b k] put None Some show ?thesis
      by (auto split: option.splits)
  qed (use assms(1) Some in \<open>auto simp: initialize_paired_default_def contains_get split: option.splits\<close>)
next
  case None
  let ?dv = "derive (case prop_store kind s sk of Some v \<Rightarrow> v | None \<Rightarrow> sd)"
  let ?batch = "state_batch_put (kind_name kind) dk ?dv (if prop_store kind s sk = None then state_batch_put (kind_name kind) sk sd [] else [])"
  from assms(1) None have "state_batch_commit env ?batch s = (s', Ok ())"
    by (auto simp: initialize_paired_default_def contains_get Let_def split: prod.splits sum.splits option.splits)
  then have w: "write_with_faults env no_faults ?batch s = (s', Ok ())" by (simp add: state_batch_commit_def log_write_def)
  show ?thesis
    using batch_get [OF w, of kind k] None assms(2)
    by (auto simp: state_batch_put_def batch_put_def physical_key_inj typed_get_def log_get_def split: option.splits)
qed

lemma paired_Err:
  assumes "initialize_paired_default env (kind_name kind) sk sd dk derive s = (s', Err e)"
  shows "prop_store kind s' k = prop_store kind s k"
proof (cases "prop_store kind s dk")
  case (Some w)
  with assms obtain r where "typed_put_if_absent env (kind_name kind) sk sd s = (s', r)" "and_then r (\<lambda>b. Ok (if b then 1 else 0 :: nat)) = Err e"
    by (auto simp: initialize_paired_default_def contains_get split: prod.splits if_splits)
  then show ?thesis using props.get_put_absent_Err by (cases r) auto
next
  case None
  with assms obtain batch where "state_batch_commit env batch s = (s', Err e)"
    by (auto simp: initialize_paired_default_def contains_get Let_def split: prod.splits sum.splits option.splits)
  then have "write_with_faults env no_faults batch s = (s', Err e)" by (simp add: state_batch_commit_def log_write_def)
  then show ?thesis using batch_get [of env no_faults batch s s' "Err e" kind k] by (simp add: is_ok_def)
qed

lemma memo_known: "''MEMO_FEE'' \<in> known_symbols" "''MEMO_FEE_HISTORY'' \<in> known_symbols"
  unfolding KEYS_def known_symbols_def
  by (simp_all only: list.set image_insert fst_conv insert_iff simp_thms)

lemma memo_distinct: "known_key ''MEMO_FEE'' \<noteq> known_key ''MEMO_FEE_HISTORY''"
  by (simp add: known_key_inj memo_known)

text \<open>The symbols the constructor writes; they do not depend on the configuration.\<close>

definition constructor_symbols :: "DynamicPropertyConfig \<Rightarrow> string list" where
  "constructor_symbols config =
     map fst (constructor_defaults config 0 []) @ [''MEMO_FEE'', ''MEMO_FEE_HISTORY''] @ map fst (late_defaults config)"

lemma default_symbols: "map fst (constructor_defaults config ts ops) = map fst (constructor_defaults config' ts' ops')"
    "map fst (late_defaults config) = map fst (late_defaults config')"
  unfolding constructor_defaults_def late_defaults_def by (simp_all only: list.map fst_conv)

lemma constructor_symbols_same: "constructor_symbols config = constructor_symbols config'"
  using default_symbols [of config] by (metis constructor_symbols_def)

lemma constructor_symbols_alt:
  "constructor_symbols config =
     map fst (constructor_defaults config ts ops) @ [''MEMO_FEE'', ''MEMO_FEE_HISTORY''] @ map fst (late_defaults config)"
  using default_symbols(1) by (metis constructor_symbols_def)

lemma constructor_symbols_known: "symbol \<in> set (constructor_symbols config) \<Longrightarrow> symbol \<in> known_symbols"
  using constructor_known [of config 0 "[]"] late_known [of config] memo_known by (auto simp: constructor_symbols_def list_all_iff)

lemma initialize_cases:
  assumes "initialize_missing env (kind_name kind) config ts ops s = (s', r)"
  obtains (first) e where "install env (kind_name kind) (constructor_defaults config ts ops) 0 s = (s', Err e)" "r = Err e"
    | (pair) s1 n e where "install env (kind_name kind) (constructor_defaults config ts ops) 0 s = (s1, Ok n)"
        "initialize_paired_default env (kind_name kind) (known_key ''MEMO_FEE'') (i64_to_be_bytes (dc_memo_fee config))
           (known_key ''MEMO_FEE_HISTORY'') memo_history s1 = (s', Err e)" "r = Err (InstallStorage e)"
    | (rest) s1 s2 n m where "install env (kind_name kind) (constructor_defaults config ts ops) 0 s = (s1, Ok n)"
        "initialize_paired_default env (kind_name kind) (known_key ''MEMO_FEE'') (i64_to_be_bytes (dc_memo_fee config))
           (known_key ''MEMO_FEE_HISTORY'') memo_history s1 = (s2, Ok m)"
        "install env (kind_name kind) (late_defaults config) (n + m) s2 = (s', r)"
  using assms unfolding initialize_missing_def property_key_known [OF memo_known(1)] property_key_known [OF memo_known(2)]
  by (auto split: prod.splits sum.splits)

lemma initialize_keeps:
  assumes "initialize_missing env (kind_name kind) config ts ops s = (s', r)" "prop_store kind s k = Some v"
  shows "prop_store kind s' k = Some v"
  using assms(1)
proof (cases rule: initialize_cases)
  case (first e)
  then show ?thesis using install_kept [OF constructor_known _ assms(2)] by blast
next
  case (pair s1 n e)
  then show ?thesis using install_kept [OF constructor_known pair(1) assms(2)] paired_Err [OF pair(2)] by simp
next
  case (rest s1 s2 n m)
  have "prop_store kind s2 k = Some v"
    using install_kept [OF constructor_known rest(1) assms(2)] paired_get [OF rest(2) memo_distinct, of k] by simp
  then show ?thesis using install_kept [OF late_known rest(3)] by blast
qed

lemma initialize_no_panic: "snd (initialize_missing env (kind_name kind) config ts ops s) \<noteq> Err (KeyPanic symbol)"
proof -
  obtain s' r where i: "initialize_missing env (kind_name kind) config ts ops s = (s', r)" by fastforce
  then have "r \<noteq> Err (KeyPanic symbol)"
    by (cases rule: initialize_cases) (use install_no_panic [OF constructor_known] install_no_panic [OF late_known] in \<open>metis snd_conv\<close>, simp,
      metis install_no_panic late_known snd_conv)
  with i show ?thesis by simp
qed

lemma initialize_present:
  assumes "initialize_missing env (kind_name kind) config ts ops s = (s', Ok n)" "symbol \<in> set (constructor_symbols config)"
  shows "prop_store kind s' (known_key symbol) \<noteq> None"
  using assms(1)
proof (cases rule: initialize_cases)
  case (rest s1 s2 m m')
  have late: "prop_store kind s' k = with_defaults (prop_store kind s2) (late_defaults config) k" for k
    by (rule install_get [OF late_known rest(3)])
  have kept: "prop_store kind s2 k \<noteq> None \<Longrightarrow> prop_store kind s' k \<noteq> None" for k
    using late [of k] by (auto simp: with_defaults_def)
  note pres = with_defaults_present
  from assms(2) consider "symbol \<in> fst ` set (constructor_defaults config ts ops)" | "symbol = ''MEMO_FEE'' \<or> symbol = ''MEMO_FEE_HISTORY''"
    | "symbol \<in> fst ` set (late_defaults config)" unfolding constructor_symbols_alt [of config ts ops] by auto
  then show ?thesis
  proof cases
    case 1
    with pres install_get [OF constructor_known rest(1)] have "prop_store kind s1 (known_key symbol) \<noteq> None" by metis
    with paired_get [OF rest(2) memo_distinct, of "known_key symbol"] show ?thesis by (intro kept) auto
  next
    case 2
    with paired_get [OF rest(2) memo_distinct, of "known_key symbol"] show ?thesis
      by (intro kept) (auto split: option.splits)
  next
    case 3
    with pres late show ?thesis by metis
  qed
qed simp_all

lemma initialize_full:
  assumes "\<forall>symbol\<in>set (constructor_symbols config). prop_store kind s (known_key symbol) \<noteq> None"
  shows "initialize_missing env (kind_name kind) config ts ops s = (s, Ok 0)"
proof -
  have "install env (kind_name kind) (constructor_defaults config ts ops) 0 s = (s, Ok 0)"
    using assms by (intro install_full [OF constructor_known]) (auto simp: constructor_symbols_alt [of config ts ops])
  moreover have "initialize_paired_default env (kind_name kind) (known_key ''MEMO_FEE'') d (known_key ''MEMO_FEE_HISTORY'') memo_history s = (s, Ok 0)" for d
    using assms by (intro paired_full) (auto simp: constructor_symbols_def)
  moreover have "install env (kind_name kind) (late_defaults config) 0 s = (s, Ok 0)"
    using assms by (intro install_full [OF late_known]) (auto simp: constructor_symbols_def)
  ultimately show ?thesis
    by (simp add: initialize_missing_def property_key_known memo_known)
qed

section \<open>Widths\<close>

definition typed_entries :: "StoreKind \<Rightarrow> entries \<Rightarrow> bool" where
  "typed_entries kind es \<longleftrightarrow> (\<forall>symbol\<in>known_symbols. \<forall>v.
     bt_get es (physical_key (kind_name kind) (known_key symbol)) = Some v \<longrightarrow> width_ok (encoding_class symbol) v)"

definition well_typed :: "StoreKind \<Rightarrow> RustLog \<Rightarrow> bool" where
  "well_typed kind s \<longleftrightarrow> typed_entries kind (rl_entries s)"

lemma well_typed_alt:
  "well_typed kind s \<longleftrightarrow> (\<forall>symbol\<in>known_symbols. \<forall>v. prop_store kind s (known_key symbol) = Some v \<longrightarrow> width_ok (encoding_class symbol) v)"
  by (simp add: well_typed_def typed_entries_def typed_get_def log_get_def)

text \<open>A batch that writes properties at their widths, or keys that are no property, keeps the widths.\<close>

fun typed_op :: "StoreKind \<Rightarrow> BatchOperation \<Rightarrow> bool" where
  "typed_op kind (Put key v) \<longleftrightarrow>
     (\<forall>symbol\<in>known_symbols. key = physical_key (kind_name kind) (known_key symbol) \<longrightarrow> width_ok (encoding_class symbol) v)"
| "typed_op kind (Delete key) \<longleftrightarrow> True"

lemma typed_entries_op: "typed_entries kind es \<Longrightarrow> typed_op kind operation \<Longrightarrow> typed_entries kind (apply_batch es [operation])"
  by (cases operation) (simp_all add: typed_entries_def)

lemma typed_entries_batch: "typed_entries kind es \<Longrightarrow> list_all (typed_op kind) ops \<Longrightarrow> typed_entries kind (apply_batch es ops)"
proof (induction ops arbitrary: es)
  case (Cons operation ops)
  then show ?case using typed_entries_op [of kind es operation] apply_batch_append [of es "[operation]" ops] by simp
qed simp

lemma well_typed_write:
  "write_with_faults env faults batch s = (s', r) \<Longrightarrow> list_all (typed_op kind) batch \<Longrightarrow> well_typed kind s \<Longrightarrow> well_typed kind s'"
  using write_entries typed_entries_batch by (auto simp: well_typed_def)

lemma typed_op_property:
  "symbol \<in> known_symbols \<Longrightarrow> width_ok (encoding_class symbol) v \<Longrightarrow> typed_op kind (Put (physical_key (kind_name kind) (known_key symbol)) v)"
  by (auto simp: physical_key_inj known_key_inj)

lemma save_raw_typed:
  assumes "dp_save_raw env (kind_name kind) symbol v s = (s', r)" "width_ok (encoding_class symbol) v" "well_typed kind s"
  shows "well_typed kind s'"
proof (cases "symbol \<in> known_symbols")
  case True
  with assms(1) obtain r0 where "write_with_faults env no_faults [Put (physical_key (kind_name kind) (known_key symbol)) v] s = (s', r0)"
    by (auto simp: dp_save_raw_def dp_key_def known_key_dynamic ok_or_def typed_put_def put_def log_write_def batch_put_def split: prod.splits)
  then show ?thesis using well_typed_write typed_op_property [OF True assms(2)] assms(3) by fastforce
next
  case False
  then have "dynamic_key symbol = None" by (simp add: dynamic_key_def known_symbols_def map_of_eq_None_iff)
  with assms(1,3) show ?thesis by (simp add: dp_save_raw_def dp_key_def ok_or_def)
qed

lemma save_long_typed:
  "dp_save_long env (kind_name kind) symbol v s = (s', r) \<Longrightarrow> encoding_class symbol = EncLong \<Longrightarrow> well_typed kind s \<Longrightarrow> well_typed kind s'"
  unfolding dp_save_long_def by (erule save_raw_typed) (simp_all add: width_ok_def)

lemma save_typed:
  assumes "dp_save env (kind_name kind) symbol v s = (s', r)" "well_typed kind s"
  shows "well_typed kind s'"
proof (cases "dp_key symbol")
  case (Inl e)
  with assms show ?thesis by (simp add: dp_save_def dp_encoding_def)
next
  case (Inr k)
  with assms show ?thesis
    by (cases v; cases "encoding_class symbol")
      (auto simp: dp_save_def dp_encoding_def dp_save_int_def dp_save_long_def width_ok_def dest!: save_raw_typed)
qed

lemma add_long_typed:
  assumes "add_long_checked env (kind_name kind) symbol amount z c s = (s', r)" "encoding_class symbol = EncLong" "well_typed kind s"
  shows "well_typed kind s'"
  using assms
  by (auto simp: add_long_checked_def Let_def split: if_splits sum.splits option.splits prod.splits dest: save_long_typed)

lemma long_symbols:
  "encoding_class ''TOTAL_NET_WEIGHT'' = EncLong" "encoding_class ''TOTAL_ENERGY_WEIGHT'' = EncLong"
  "encoding_class ''TOTAL_TRON_POWER_WEIGHT'' = EncLong" "encoding_class ''TRANSACTION_FEE_POOL'' = EncLong"
  "encoding_class ''BURN_TRX_AMOUNT'' = EncLong" "encoding_class ''TOTAL_TRANSACTION_COST'' = EncLong"
  "encoding_class ''TOTAL_CREATE_ACCOUNT_COST'' = EncLong" "encoding_class ''TOTAL_CREATE_WITNESS_COST'' = EncLong"
  "encoding_class ''TOTAL_ENERGY_LIMIT'' = EncLong" "encoding_class ''TOTAL_ENERGY_TARGET_LIMIT'' = EncLong"
  "encoding_class ''TOTAL_ENERGY_CURRENT_LIMIT'' = EncLong" "encoding_class ''NEXT_MAINTENANCE_TIME'' = EncLong"
  by (simp_all add: encoding_class_def int_properties_def raw_properties_def)

lemma ring_symbols: "encoding_class ''BLOCK_FILLED_SLOTS'' = EncRaw" "encoding_class ''BLOCK_FILLED_SLOTS_INDEX'' = EncInt"
  by (simp_all add: encoding_class_def int_properties_def raw_properties_def)

lemma batch_symbols:
  "''TOTAL_ENERGY_LIMIT'' \<in> known_symbols" "''TOTAL_ENERGY_TARGET_LIMIT'' \<in> known_symbols"
  "''TOTAL_ENERGY_CURRENT_LIMIT'' \<in> known_symbols" "''BLOCK_FILLED_SLOTS'' \<in> known_symbols"
  "''BLOCK_FILLED_SLOTS_INDEX'' \<in> known_symbols"
  unfolding KEYS_def known_symbols_def by (simp_all only: list.set image_insert fst_conv insert_iff simp_thms)

lemma commit_mapped_typed:
  "commit_mapped env faults batch s = (s', r) \<Longrightarrow> list_all (typed_op kind) batch \<Longrightarrow> well_typed kind s \<Longrightarrow> well_typed kind s'"
  by (auto simp: commit_mapped_def split: prod.splits dest: well_typed_write)

lemmas typed_puts = typed_op_property [OF batch_symbols(1)] typed_op_property [OF batch_symbols(2)] typed_op_property [OF batch_symbols(3)]
  typed_op_property [OF batch_symbols(4)] typed_op_property [OF batch_symbols(5)]

lemma energy_limit_typed:
  "save_total_energy_limit env (kind_name kind) v s = (s', r) \<Longrightarrow> well_typed kind s \<Longrightarrow> well_typed kind s'"
  "save_total_energy_limit2 env (kind_name kind) v s = (s', r) \<Longrightarrow> well_typed kind s \<Longrightarrow> well_typed kind s'"
  by (auto simp: save_total_energy_limit_def save_total_energy_limit2_def Let_def state_batch_put_def batch_put_def long_symbols width_ok_def
      split: if_splits sum.splits intro!: typed_puts simp del: typed_op.simps elim!: commit_mapped_typed)

lemma apply_block_typed:
  "apply_block_with_faults env faults (kind_name kind) filled s = (s', r) \<Longrightarrow> well_typed kind s \<Longrightarrow> well_typed kind s'"
  by (auto simp: apply_block_with_faults_def Let_def state_batch_put_def batch_put_def ring_symbols width_ok_def
      split: if_splits sum.splits intro!: typed_puts simp del: typed_op.simps elim!: commit_mapped_typed)

lemma maintenance_typed:
  "update_next_maintenance_time env (kind_name kind) block_time s = (s', r) \<Longrightarrow> well_typed kind s \<Longrightarrow> well_typed kind s'"
  by (auto simp: update_next_maintenance_time_def long_symbols split: sum.splits prod.splits dest: save_long_typed)

lemma fork_key_fresh:
  assumes "symbol \<in> known_symbols"
  shows "fork_stats_key version \<noteq> known_key symbol" "fork_controller_key version \<noteq> known_key symbol"
proof -
  have "take 5 (known_key symbol) \<noteq> str_bytes ''FORK_''"
    using fork_keys_fresh known_key_in [OF assms] by (auto simp: list_all_iff)
  moreover have "take 5 (fork_stats_key version) = str_bytes ''FORK_''" "take 5 (fork_controller_key version) = str_bytes ''FORK_''"
    by (simp_all add: fork_stats_key_def fork_controller_key_def take_str_bytes)
  ultimately show "fork_stats_key version \<noteq> known_key symbol" "fork_controller_key version \<noteq> known_key symbol" by metis+
qed

lemma other_key_typed:
  assumes "typed_put env (kind_name kind) key v s = (s', r)" "\<forall>symbol\<in>known_symbols. key \<noteq> known_key symbol" "well_typed kind s"
  shows "well_typed kind s'"
  using assms typed_get_put [OF assms(1)] by (auto simp: well_typed_alt)

lemma put_absent_typed:
  assumes "typed_put_if_absent env (kind_name kind) (known_key symbol) v s = (s', r)" "symbol \<in> known_symbols"
    "width_ok (encoding_class symbol) v" "well_typed kind s"
  shows "well_typed kind s'"
proof (cases r)
  case (Inl e)
  then show ?thesis using props.get_put_absent_Err assms(1,4) by (metis well_typed_alt)
next
  case (Inr b)
  show ?thesis
    using props.get_put_absent(1) [OF assms(1) [unfolded Inr]] assms(2-4)
    by (auto simp: well_typed_alt known_key_inj split: option.splits if_splits)
qed

lemma install_typed:
  assumes "list_all (\<lambda>e. fst e \<in> known_symbols) ds" "list_all (\<lambda>e. width_ok (encoding_class (fst e)) (snd e)) ds"
    "install env (kind_name kind) ds n s = (s', r)" "well_typed kind s"
  shows "well_typed kind s'"
  using assms
proof (induction ds arbitrary: n s)
  case (Cons d ds)
  obtain symbol v where d: "d = (symbol, v)" by fastforce
  have known: "symbol \<in> known_symbols" using Cons.prems d by simp
  obtain s1 r1 where put: "typed_put_if_absent env (kind_name kind) (known_key symbol) v s = (s1, r1)" by fastforce
  have t1: "well_typed kind s1" using put_absent_typed [OF put known] Cons.prems d by simp
  show ?case
    using Cons.prems t1 put d install_cons [OF known] Cons.IH [of _ s1] by (cases r1) (auto simp del: install.simps)
qed simp

lemma memo_symbols: "encoding_class ''MEMO_FEE'' = EncLong" "encoding_class ''MEMO_FEE_HISTORY'' = EncRaw"
  by (simp_all add: encoding_class_def int_properties_def raw_properties_def)

lemma paired_typed:
  assumes "initialize_paired_default env (kind_name kind) (known_key ''MEMO_FEE'') (i64_to_be_bytes fee)
      (known_key ''MEMO_FEE_HISTORY'') memo_history s = (s', r)" "well_typed kind s"
  shows "well_typed kind s'"
proof (cases r)
  case (Inl e)
  show ?thesis using paired_Err [OF assms(1) [unfolded Inl]] assms(2) by (simp add: well_typed_alt)
next
  case (Inr n)
  show ?thesis
    using paired_get [OF assms(1) [unfolded Inr] memo_distinct] assms(2)
    by (auto simp: well_typed_alt known_key_inj memo_known memo_symbols width_ok_def split: option.splits if_splits)
qed

lemma initialize_typed:
  assumes "initialize_missing env (kind_name kind) config ts ops s = (s', r)" "well_typed kind s"
  shows "well_typed kind s'"
  using assms(1)
proof (cases rule: initialize_cases)
  case (first e)
  with install_typed [OF constructor_known constructor_widths] assms(2) show ?thesis by blast
next
  case (pair s1 n e)
  have "well_typed kind s1" by (rule install_typed [OF constructor_known constructor_widths pair(1) assms(2)])
  then show ?thesis by (rule paired_typed [OF pair(2)])
next
  case (rest s1 s2 n m)
  have "well_typed kind s1" by (rule install_typed [OF constructor_known constructor_widths rest(1) assms(2)])
  then have "well_typed kind s2" by (rule paired_typed [OF rest(2)])
  then show ?thesis by (rule install_typed [OF late_known late_widths rest(3)])
qed

inductive dynamic_step :: "StoreKind \<Rightarrow> RustLog \<Rightarrow> RustLog \<Rightarrow> bool" for kind where
  "initialize_missing env (kind_name kind) config ts ops s = (s', r0) \<Longrightarrow> dynamic_step kind s s'"
| "dp_save env (kind_name kind) symbol v s = (s', r) \<Longrightarrow> dynamic_step kind s s'"
| "add_total_net_weight env (kind_name kind) amount s = (s', r1) \<Longrightarrow> dynamic_step kind s s'"
| "add_total_energy_weight env (kind_name kind) amount s = (s', r1) \<Longrightarrow> dynamic_step kind s s'"
| "add_total_tron_power_weight env (kind_name kind) amount s = (s', r1) \<Longrightarrow> dynamic_step kind s s'"
| "add_transaction_fee_pool env (kind_name kind) amount s = (s', r1) \<Longrightarrow> dynamic_step kind s s'"
| "add_burned_trx env (kind_name kind) amount s = (s', r1) \<Longrightarrow> dynamic_step kind s s'"
| "add_total_transaction_cost env (kind_name kind) amount s = (s', r1) \<Longrightarrow> dynamic_step kind s s'"
| "add_total_create_account_cost env (kind_name kind) amount s = (s', r1) \<Longrightarrow> dynamic_step kind s s'"
| "add_total_create_witness_cost env (kind_name kind) amount s = (s', r1) \<Longrightarrow> dynamic_step kind s s'"
| "save_total_energy_limit env (kind_name kind) amount s = (s', r) \<Longrightarrow> dynamic_step kind s s'"
| "save_total_energy_limit2 env (kind_name kind) amount s = (s', r) \<Longrightarrow> dynamic_step kind s s'"
| "apply_block_with_faults env faults (kind_name kind) filled s = (s', r) \<Longrightarrow> dynamic_step kind s s'"
| "update_next_maintenance_time env (kind_name kind) block_time s = (s', r1) \<Longrightarrow> dynamic_step kind s s'"
| "save_fork_stats env (kind_name kind) version stats s = (s', r) \<Longrightarrow> dynamic_step kind s s'"
| "save_forked env (kind_name kind) version b s = (s', r) \<Longrightarrow> dynamic_step kind s s'"

lemma dynamic_step_typed: "dynamic_step kind s s' \<Longrightarrow> well_typed kind s \<Longrightarrow> well_typed kind s'"
proof (induction rule: dynamic_step.induct)
  case (15 env version stats s s' r)
  then show ?case using other_key_typed fork_key_fresh(1) by (fastforce simp: save_fork_stats_def split: prod.splits)
next
  case (16 env version b s s' r)
  then show ?case using other_key_typed fork_key_fresh(2) by (fastforce simp: save_forked_def split: prod.splits)
qed (auto simp: add_total_net_weight_def add_total_energy_weight_def add_total_tron_power_weight_def add_transaction_fee_pool_def
    add_burned_trx_def add_total_transaction_cost_def add_total_create_account_cost_def add_total_create_witness_cost_def
    long_symbols split: if_splits
    dest: initialize_typed save_typed add_long_typed energy_limit_typed apply_block_typed maintenance_typed)

lemma typed_reads:
  assumes "well_typed kind s" "symbol \<in> known_symbols" "prop_store kind s (known_key symbol) \<noteq> None"
  shows "\<exists>v. dp_get (kind_name kind) symbol s = Ok v"
proof -
  from assms obtain v where v: "prop_store kind s (known_key symbol) = Some v" "width_ok (encoding_class symbol) v"
    by (auto simp: well_typed_alt)
  have key: "dp_key symbol = Ok (known_key symbol)" using assms(2) by (simp add: dp_key_def known_key_dynamic ok_or_def)
  with v show ?thesis
    by (cases "encoding_class symbol")
      (simp_all add: dp_get_def dp_encoding_def dp_get_int_def dp_get_long_def dp_get_raw_def ok_or_def width_ok_def)
qed

section \<open>The maintenance clock\<close>

lemma sdiv_step:
  fixes d i :: int
  assumes "0 < i"
  shows "d < (d sdiv i + 1) * i" "(d sdiv i + 1) * i < d + 2 * i" "0 \<le> d \<Longrightarrow> (d sdiv i + 1) * i \<le> d + i"
proof -
  have "d < (d sdiv i + 1) * i \<and> (d sdiv i + 1) * i < d + 2 * i \<and> (0 \<le> d \<longrightarrow> (d sdiv i + 1) * i \<le> d + i)"
  proof (cases "0 \<le> d")
    case True
    have "d = (d div i) * i + d mod i" "0 \<le> d mod i" "d mod i < i" using assms by simp_all
    moreover have "d sdiv i = d div i" using True assms by (simp add: pos_sdiv)
    ultimately show ?thesis using True by (simp only: distrib_right mult_1) linarith
  next
    case False
    define q r where "q = (- d) div i" and "r = (- d) mod i"
    then have "- d = q * i + r" "0 \<le> r" "r < i" using assms by simp_all
    moreover have "d sdiv i = - q" using False assms by (simp add: q_def signed_divide_int_def sgn_if)
    ultimately show ?thesis using False by (simp add: algebra_simps)
  qed
  then show "d < (d sdiv i + 1) * i" "(d sdiv i + 1) * i < d + 2 * i" "0 \<le> d \<Longrightarrow> (d sdiv i + 1) * i \<le> d + i" by simp_all
qed

lemma maintenance_cases:
  assumes "update_next_maintenance_time env (kind_name kind) block_time s = (s', Ok time)"
    "dp_get_long (kind_name kind) ''NEXT_MAINTENANCE_TIME'' s = Ok cur" "dp_get_long (kind_name kind) ''MAINTENANCE_TIME_INTERVAL'' s = Ok interval"
  shows "0 < interval" "time = cur + ((block_time - cur) sdiv interval + 1) * interval" "in_i64 time"
    "dp_save_long env (kind_name kind) ''NEXT_MAINTENANCE_TIME'' time s = (s', Ok ())"
proof -
  have "0 < interval \<and> time = cur + ((block_time - cur) sdiv interval + 1) * interval \<and> in_i64 time \<and>
      dp_save_long env (kind_name kind) ''NEXT_MAINTENANCE_TIME'' time s = (s', Ok ())"
    using assms(1) unfolding update_next_maintenance_time_def assms(2,3)
    by (auto simp: exact_i64_def split: if_splits prod.splits sum.splits)
  then show "0 < interval" "time = cur + ((block_time - cur) sdiv interval + 1) * interval" "in_i64 time"
    "dp_save_long env (kind_name kind) ''NEXT_MAINTENANCE_TIME'' time s = (s', Ok ())" by blast+
qed

lemma clock_known: "''NEXT_MAINTENANCE_TIME'' \<in> known_symbols" "''MAINTENANCE_TIME_INTERVAL'' \<in> known_symbols"
  unfolding KEYS_def known_symbols_def by (simp_all only: list.set image_insert fst_conv insert_iff simp_thms)

lemma get_long_known:
  "symbol \<in> known_symbols \<Longrightarrow> dp_get_long (kind_name kind) symbol s =
     (case prop_store kind s (known_key symbol) of
        None \<Rightarrow> Err (MissingProperty symbol)
      | Some v \<Rightarrow> if length v \<noteq> 8 then Err (InvalidPropertyLength symbol 8 (length v)) else Ok (i64_from_be_bytes v))"
  by (simp add: dp_get_long_def dp_get_raw_def dp_key_def known_key_dynamic ok_or_def split: option.split)

lemma get_saved_long:
  assumes "dp_save_long env (kind_name kind) symbol v s = (s', Ok ())" "symbol \<in> known_symbols" "in_i64 v"
  shows "dp_get_long (kind_name kind) symbol s' = Ok v"
proof -
  from assms(1,2) obtain r where "typed_put env (kind_name kind) (known_key symbol) (i64_to_be_bytes v) s = (s', r)" "map_err DynamicStorage r = Ok ()"
    by (auto simp: dp_save_long_def dp_save_raw_def dp_key_def known_key_dynamic ok_or_def split: prod.splits)
  then have "prop_store kind s' (known_key symbol) = Some (i64_to_be_bytes v)"
    by (cases r) (auto simp: typed_get_put map_err_def is_ok_def)
  then show ?thesis using assms by (simp add: get_long_known)
qed

section \<open>Properties\<close>

text \<open>Installing the constructor defaults never panics on an unknown symbol and never replaces
  a persisted property, even when it stops at a storage error; when it succeeds, every property
  of the constructor is present and a second installation, under any configuration, changes
  nothing and reports nothing inserted.\<close>

theorem initialize_missing_installs:
  "case initialize_missing env (kind_name kind) config ts ops s of
     (s', Err (KeyPanic symbol)) \<Rightarrow> False
   | (s', Err (InstallStorage e)) \<Rightarrow> typed_get s (kind_name kind) \<subseteq>\<^sub>m typed_get s' (kind_name kind)
   | (s', Ok n) \<Rightarrow>
       typed_get s (kind_name kind) \<subseteq>\<^sub>m typed_get s' (kind_name kind) \<and>
       list_all (\<lambda>symbol. case dynamic_key symbol of None \<Rightarrow> False | Some k \<Rightarrow> typed_get s' (kind_name kind) k \<noteq> None)
         (constructor_symbols config) \<and>
       initialize_missing env' (kind_name kind) config' ts' ops' s' = (s', Ok 0)"
proof -
  obtain s' r where i: "initialize_missing env (kind_name kind) config ts ops s = (s', r)" by fastforce
  have kept: "typed_get s (kind_name kind) \<subseteq>\<^sub>m typed_get s' (kind_name kind)"
    using initialize_keeps [OF i] by (auto simp: map_le_def)
  show ?thesis
  proof (cases r)
    case (Inl e)
    then show ?thesis using i kept initialize_no_panic [of env kind config ts ops s] by (cases e) auto
  next
    case (Inr n)
    note pres = initialize_present [OF i [unfolded Inr]]
    have "list_all (\<lambda>symbol. case dynamic_key symbol of None \<Rightarrow> False | Some k \<Rightarrow> typed_get s' (kind_name kind) k \<noteq> None) (constructor_symbols config)"
      using pres constructor_symbols_known by (fastforce simp: list_all_iff known_key_dynamic)
    moreover have "initialize_missing env' (kind_name kind) config' ts' ops' s' = (s', Ok 0)"
      by (rule initialize_full) (use pres constructor_symbols_same [of config' config] in simp)
    ultimately show ?thesis using i Inr kept by simp
  qed
qed

text \<open>C26: type safety of the dynamic properties. Every checked operation, whether it succeeds or
  fails, keeps each stored property at the width its encoding reads; so in the resulting store
  reading a stored property by its encoding always succeeds.\<close>

theorem dynamic_type_safety:
  assumes "well_typed kind s" "(dynamic_step kind)\<^sup>*\<^sup>* s s'" "symbol \<in> known_symbols"
    "typed_get s' (kind_name kind) (known_key symbol) \<noteq> None"
  shows "well_typed kind s' \<and> (\<exists>v. dp_get (kind_name kind) symbol s' = Ok v)"
proof -
  from assms(2,1) have "well_typed kind s'"
    by (induction rule: rtranclp_induct) (auto intro: dynamic_step_typed)
  with typed_reads assms(3,4) show ?thesis by blast
qed

text \<open>When the maintenance clock is advanced, the next maintenance time lies strictly after the
  block, at most one interval after it if the clock was not ahead of the block and less than two
  otherwise, it stays on the grid of intervals, and it is what the property reads afterwards.\<close>

theorem maintenance_clock_bounds:
  assumes "update_next_maintenance_time env (kind_name kind) block_time s = (s', Ok time)"
    "dp_get_long (kind_name kind) ''NEXT_MAINTENANCE_TIME'' s = Ok cur" "dp_get_long (kind_name kind) ''MAINTENANCE_TIME_INTERVAL'' s = Ok interval"
  shows "block_time < time \<and> time < block_time + 2 * interval \<and> (cur \<le> block_time \<longrightarrow> time \<le> block_time + interval) \<and>
    interval dvd (time - cur) \<and> dp_get_long (kind_name kind) ''NEXT_MAINTENANCE_TIME'' s' = Ok time"
proof -
  note m = maintenance_cases [OF assms]
  show ?thesis
    using sdiv_step [OF m(1), of "block_time - cur"] get_saved_long [OF m(4) clock_known(1) m(3)] m(2) by auto
qed

section \<open>Concrete stores\<close>

definition roomy_options :: RustLogOptions where
  "roomy_options =
     \<lparr> sync_on_write = True, compact_after_bytes = 0, max_snapshot_bytes = 10000, max_snapshot_entries = 1000,
       max_frame_bytes = 10000, max_key_bytes = 1000, max_value_bytes = 1000, max_batch_operations = 100 \<rparr>"

text \<open>A small batch is written when the operating system does not fail.\<close>

definition small_put :: "BatchOperation \<Rightarrow> bool" where
  "small_put operation = (case operation of Put key v \<Rightarrow> length key \<le> 100 \<and> length v \<le> 100 | Delete key \<Rightarrow> length key \<le> 100)"

lemma encode_small:
  "list_all small_put ops \<Longrightarrow> length payload + 209 * length ops \<le> 10000 \<Longrightarrow>
   \<exists>p. encode_operations roomy_options payload ops = Ok p \<and> length p \<le> 10000"
proof (induction ops arbitrary: payload)
  case (Cons operation ops)
  let ?next = "case operation of Put key v \<Rightarrow> payload @ 0 # le_bytes 4 (int (length key)) @ key @ le_bytes 4 (int (length v)) @ v
    | Delete key \<Rightarrow> payload @ 1 # le_bytes 4 (int (length key)) @ key"
  show ?case
    using Cons.prems Cons.IH [OF _ _, of ?next]
    by (cases operation) (auto simp: small_put_def encode_bytes_def push_u32_def roomy_options_def)
qed simp

lemma roomy_write:
  assumes "ensure_usable s = Ok ()" "rl_options s = roomy_options" "list_all small_put batch" "batch \<noteq> []" "length batch \<le> 40"
  shows "\<exists>s'. write_with_faults calm_os no_faults batch s = (s', Ok ())"
proof -
  obtain p where "encode_operations roomy_options (le_bytes 4 (int (length batch))) batch = Ok p" "length p \<le> 10000"
    using encode_small [OF assms(3), of "le_bytes 4 (int (length batch))"] assms(5) by auto
  then show ?thesis using assms
    by (simp add: write_with_faults_def encode_batch_def check_limit_def push_u32_def encode_frame_def append_frame_def before_def no_faults_def)
      (simp add: roomy_options_def)
qed

definition clock_store :: RustLog where
  "clock_store = (fresh_log roomy_options)\<lparr> rl_entries :=
     [(physical_key (kind_name KDynamicProperties) (known_key ''NEXT_MAINTENANCE_TIME''), i64_to_be_bytes 100),
      (physical_key (kind_name KDynamicProperties) (known_key ''MAINTENANCE_TIME_INTERVAL''), i64_to_be_bytes 60)] \<rparr>"

lemma clock_store_get:
  "typed_get clock_store (kind_name KDynamicProperties) (known_key ''NEXT_MAINTENANCE_TIME'') = Some (i64_to_be_bytes 100)"
  "typed_get clock_store (kind_name KDynamicProperties) (known_key ''MAINTENANCE_TIME_INTERVAL'') = Some (i64_to_be_bytes 60)"
  using known_key_inj [OF clock_known] by (auto simp: clock_store_def typed_get_def log_get_def physical_key_inj)

lemma clock_store_long:
  "dp_get_long (kind_name KDynamicProperties) ''NEXT_MAINTENANCE_TIME'' clock_store = Ok 100"
  "dp_get_long (kind_name KDynamicProperties) ''MAINTENANCE_TIME_INTERVAL'' clock_store = Ok 60"
  by (simp_all add: get_long_known clock_known clock_store_get in_i64_def)

lemma clock_key: "known_key ''NEXT_MAINTENANCE_TIME'' = str_bytes ''NEXT_MAINTENANCE_TIME''"
  unfolding known_key_def dynamic_key_def KEYS_def by simp

lemma kind_name_length: "length (kind_name KDynamicProperties) = 10"
  by (simp add: kind_name_def)

lemma clock_advances:
  "\<exists>s'. update_next_maintenance_time calm_os (kind_name KDynamicProperties) 250 clock_store = (s', Ok 280)"
proof -
  have d: "(150 :: int) sdiv 60 = 2" by (simp add: signed_divide_int_def)
  let ?w = "write_with_faults calm_os no_faults
      [Put (physical_key (kind_name KDynamicProperties) (known_key ''NEXT_MAINTENANCE_TIME'')) (i64_to_be_bytes 280)] clock_store"
  have "snd ?w = Ok ()"
    by (simp add: write_with_faults_def ensure_usable_def clock_store_def fresh_log_def encode_batch_def check_limit_def push_u32_def
        encode_bytes_def roomy_options_def encode_frame_def append_frame_def before_def no_faults_def clock_key
        physical_key_def kind_name_length)
  then have "?w = (fst ?w, Ok ())" by (metis prod.collapse)
  then have "dp_save_long calm_os (kind_name KDynamicProperties) ''NEXT_MAINTENANCE_TIME'' 280 clock_store = (fst ?w, Ok ())"
    by (auto simp: dp_save_long_def dp_save_raw_def dp_key_def known_key_dynamic [OF clock_known(1)] ok_or_def typed_put_def put_def log_write_def
        batch_put_def map_err_def split: prod.splits)
  then show ?thesis
    by (simp add: update_next_maintenance_time_def clock_store_long exact_i64_def in_i64_def in_i128_def d)
qed

theorem maintenance_clock_bounds_witness: "(250 :: int) < 280 \<and> (280 :: int) \<le> 250 + 60 \<and> (60 :: int) dvd 280 - 100 \<and>
    dp_get_long (kind_name KDynamicProperties) ''NEXT_MAINTENANCE_TIME''
      (fst (update_next_maintenance_time calm_os (kind_name KDynamicProperties) 250 clock_store)) = Ok 280"
proof -
  from clock_advances obtain s' where "update_next_maintenance_time calm_os (kind_name KDynamicProperties) 250 clock_store = (s', Ok 280)" by blast
  with maintenance_clock_bounds [OF this clock_store_long] show ?thesis by simp
qed

lemma clock_store_typed: "well_typed KDynamicProperties clock_store"
proof -
  have "encoding_class ''NEXT_MAINTENANCE_TIME'' = EncLong" "encoding_class ''MAINTENANCE_TIME_INTERVAL'' = EncLong"
    by (simp_all add: encoding_class_def int_properties_def raw_properties_def)
  then show ?thesis
    by (auto simp: well_typed_def typed_entries_def clock_store_def physical_key_inj known_key_inj clock_known width_ok_def split: if_splits)
qed

theorem dynamic_type_safety_witness:
  "\<exists>v. dp_get (kind_name KDynamicProperties) ''NEXT_MAINTENANCE_TIME''
     (fst (update_next_maintenance_time calm_os (kind_name KDynamicProperties) 250 clock_store)) = Ok v"
proof -
  from clock_advances obtain s' where s': "update_next_maintenance_time calm_os (kind_name KDynamicProperties) 250 clock_store = (s', Ok 280)" by blast
  then have "(dynamic_step KDynamicProperties)\<^sup>*\<^sup>* clock_store s'" by (intro r_into_rtranclp dynamic_step.intros)
  moreover have "typed_get s' (kind_name KDynamicProperties) (known_key ''NEXT_MAINTENANCE_TIME'') \<noteq> None"
    using get_saved_long [OF maintenance_cases(4) [OF s' clock_store_long] clock_known(1)]
    by (auto simp: get_long_known clock_known in_i64_def split: option.splits)
  ultimately show ?thesis using dynamic_type_safety [OF clock_store_typed _ clock_known(1)] s' by simp
qed

end
