(* ===== verification/Khaos.thy ===== *)
theory Khaos
  imports Primitives_Bytes "HOL-Library.AList"
begin

text \<open>
  The fork database of \<open>tron-state/src/khaos.rs\<close>: two bounded stores of recent blocks, linked
  and unlinked, indexed by identifier and by height, with eviction by height and by resource
  limits, a head, and the walk from two blocks to their common ancestor. A reference-counted
  node is its block with the number of its allocation, so that pointer equality is equality of
  numbers; parent links are kept beside the nodes, and a weak link is alive exactly while a
  store or the head still holds its target (callers keep no references of their own). The
  retained size of a block's value is the function \<open>rs\<close>. Hash maps are association lists: the
  code never depends on their order.
\<close>

section \<open>Sizes and limits\<close>

definition DEFAULT_KHAOS_CAPACITY :: i64 where "DEFAULT_KHAOS_CAPACITY = 1024"
definition DEFAULT_MAX_BLOCK_BYTES :: usize where "DEFAULT_MAX_BLOCK_BYTES = 2000000"
definition KHAOS_BLOCK_OVERHEAD :: usize where "KHAOS_BLOCK_OVERHEAD = 32 + 32 + 8"

text \<open>The retained size of a slice: the checked sum of its elements' sizes.\<close>

fun try_sum :: "('a \<Rightarrow> usize) \<Rightarrow> usize \<Rightarrow> 'a list \<Rightarrow> usize option" where
  "try_sum size_of acc [] = Some acc"
| "try_sum size_of acc (x # xs) =
     (case usize_checked_add acc (size_of x) of None \<Rightarrow> None | Some n \<Rightarrow> try_sum size_of n xs)"

definition slice_retained_size :: "('a \<Rightarrow> usize) \<Rightarrow> 'a list \<Rightarrow> usize" where
  "slice_retained_size size_of xs = (case try_sum size_of 0 xs of None \<Rightarrow> usize_max | Some n \<Rightarrow> n)"

record KhaosLimits =
  kl_max_list_entries :: usize
  kl_max_total_bytes :: usize
  kl_max_orphan_entries :: usize
  kl_max_orphan_bytes :: usize

definition for_block_policy :: "usize \<Rightarrow> i64 \<Rightarrow> usize \<Rightarrow> KhaosLimits" where
  "for_block_policy max_block_bytes fork_depth branch_width =
     (let depth = nat (max fork_depth 1);
          branches = max branch_width 1;
          n = usize_saturating_mul depth branches;
          per_block = usize_saturating_add max_block_bytes KHAOS_BLOCK_OVERHEAD
      in \<lparr> kl_max_list_entries = n, kl_max_total_bytes = usize_saturating_mul n per_block,
           kl_max_orphan_entries = depth, kl_max_orphan_bytes = usize_saturating_mul depth per_block \<rparr>)"

definition from_capacity :: "i64 \<Rightarrow> KhaosLimits" where
  "from_capacity capacity = for_block_policy DEFAULT_MAX_BLOCK_BYTES capacity 1"

section \<open>Nodes and stores\<close>

record 'v KhaosBlockData =
  kb_id :: bytes
  kb_parent_id :: bytes
  kb_number :: i64
  kb_value :: 'v

record 'v KhaosNode =
  kn_ptr :: nat
  kn_block :: "'v KhaosBlockData"

abbreviation node_id :: "'v KhaosNode \<Rightarrow> bytes" where "node_id n \<equiv> kb_id (kn_block n)"
abbreviation node_number :: "'v KhaosNode \<Rightarrow> int" where "node_number n \<equiv> kb_number (kn_block n)"
abbreviation node_parent_id :: "'v KhaosNode \<Rightarrow> bytes" where "node_parent_id n \<equiv> kb_parent_id (kn_block n)"

definition node_eq :: "'v KhaosNode \<Rightarrow> 'v KhaosNode \<Rightarrow> bool" where
  "node_eq a b \<longleftrightarrow> node_id a = node_id b"

definition ptr_eq :: "'v KhaosNode \<Rightarrow> 'v KhaosNode \<Rightarrow> bool" where
  "ptr_eq a b \<longleftrightarrow> kn_ptr a = kn_ptr b"

datatype StoreMutationKind = Inserted | Replaced | Removed | Evicted

record StoreMutation =
  sm_kind :: StoreMutationKind
  sm_id :: bytes
  sm_number :: i64

datatype KhaosError =
    UnlinkedBlock bytes bytes
  | BadNumber i64 i64
  | NonCommonBlock
  | HeadWouldBeNull
  | DeprecatedMissingAncestor
  | ResourceLimit usize
  | MalformedChain i64 i64
  | CycleDetected bytes
  | TraversalLimit usize
  | UnsupportedOperation

text \<open>\<open>ks_events\<close> is what an installed callback has been given, in order.\<close>

record 'v KhaosStore =
  ks_by_hash :: "(bytes \<times> 'v KhaosNode) list"
  ks_by_number :: "(i64 \<times> 'v KhaosNode list) list"
  ks_number_order :: "i64 list"
  ks_insertion_order :: "'v KhaosNode list"
  ks_list_entries :: usize
  ks_total_bytes :: usize
  ks_max_capacity :: i64
  ks_max_entries :: usize
  ks_max_bytes :: usize
  ks_callback :: bool
  ks_events :: "StoreMutation list"

definition khaos_store_new :: "'v KhaosStore" where
  "khaos_store_new =
     (let limits = from_capacity DEFAULT_KHAOS_CAPACITY in
      \<lparr> ks_by_hash = [], ks_by_number = [], ks_number_order = [], ks_insertion_order = [], ks_list_entries = 0,
        ks_total_bytes = 0, ks_max_capacity = DEFAULT_KHAOS_CAPACITY, ks_max_entries = kl_max_list_entries limits,
        ks_max_bytes = kl_max_total_bytes limits, ks_callback = False, ks_events = [] \<rparr>)"

definition with_callback :: "'v KhaosStore" where
  "with_callback = khaos_store_new\<lparr> ks_callback := True \<rparr>"

definition set_callback :: "bool \<Rightarrow> 'v KhaosStore \<Rightarrow> 'v KhaosStore" where
  "set_callback installed st = st\<lparr> ks_callback := installed, ks_events := [] \<rparr>"

definition set_resource_limits :: "usize \<Rightarrow> usize \<Rightarrow> 'v KhaosStore \<Rightarrow> 'v KhaosStore" where
  "set_resource_limits max_entries max_bytes st = st\<lparr> ks_max_entries := max_entries, ks_max_bytes := max_bytes \<rparr>"

definition set_max_capacity :: "i64 \<Rightarrow> 'v KhaosStore \<Rightarrow> 'v KhaosStore" where
  "set_max_capacity max_capacity st =
     (let limits = from_capacity max_capacity in
      st\<lparr> ks_max_capacity := max_capacity, ks_max_entries := kl_max_list_entries limits, ks_max_bytes := kl_max_total_bytes limits \<rparr>)"

definition store_size :: "'v KhaosStore \<Rightarrow> usize" where
  "store_size st = length (ks_by_hash st)"

definition store_is_empty :: "'v KhaosStore \<Rightarrow> bool" where
  "store_is_empty st \<longleftrightarrow> ks_by_hash st = []"

definition is_not_empty :: "'v KhaosStore \<Rightarrow> (bool, KhaosError) result" where
  "is_not_empty st = Err UnsupportedOperation"

definition get_by_hash :: "'v KhaosStore \<Rightarrow> bytes \<Rightarrow> 'v KhaosNode option" where
  "get_by_hash st i = map_of (ks_by_hash st) i"

definition get_block_by_num :: "'v KhaosStore \<Rightarrow> i64 \<Rightarrow> 'v KhaosNode list option" where
  "get_block_by_num st number = map_of (ks_by_number st) number"

definition notify :: "StoreMutationKind \<Rightarrow> bytes \<Rightarrow> i64 \<Rightarrow> 'v KhaosStore \<Rightarrow> 'v KhaosStore" where
  "notify kind i number st =
     (if ks_callback st then st\<lparr> ks_events := ks_events st @ [\<lparr> sm_kind = kind, sm_id = i, sm_number = number \<rparr>] \<rparr> else st)"

definition accounted_bytes :: "('v \<Rightarrow> usize) \<Rightarrow> 'v KhaosNode \<Rightarrow> usize option" where
  "accounted_bytes rs n = usize_checked_add KHAOS_BLOCK_OVERHEAD (rs (kb_value (kn_block n)))"

definition accounted_or_max :: "('v \<Rightarrow> usize) \<Rightarrow> 'v KhaosNode \<Rightarrow> usize" where
  "accounted_or_max rs n = (case accounted_bytes rs n of None \<Rightarrow> usize_max | Some b \<Rightarrow> b)"

section \<open>Eviction\<close>

definition drop_number :: "i64 \<Rightarrow> 'v KhaosStore \<Rightarrow> 'v KhaosStore" where
  "drop_number number st =
     st\<lparr> ks_by_number := AList.delete number (ks_by_number st), ks_number_order := filter (\<lambda>n. n \<noteq> number) (ks_number_order st) \<rparr>"

fun evict_blocks :: "('v \<Rightarrow> usize) \<Rightarrow> i64 \<Rightarrow> 'v KhaosNode list \<Rightarrow> 'v KhaosStore \<Rightarrow> 'v KhaosStore" where
  "evict_blocks rs number [] st = st"
| "evict_blocks rs number (b # bs) st =
     evict_blocks rs number bs (notify Evicted (node_id b) number
       (st\<lparr> ks_list_entries := ks_list_entries st - 1,
           ks_total_bytes := ks_total_bytes st - accounted_or_max rs b,
           ks_insertion_order := filter (\<lambda>c. \<not> ptr_eq c b) (ks_insertion_order st),
           ks_by_hash := AList.delete (node_id b) (ks_by_hash st) \<rparr>))"

definition evict_number_bucket :: "('v \<Rightarrow> usize) \<Rightarrow> i64 \<Rightarrow> 'v KhaosStore \<Rightarrow> 'v KhaosStore" where
  "evict_number_bucket rs number st =
     (case map_of (ks_by_number st) number of
        None \<Rightarrow> st\<lparr> ks_number_order := filter (\<lambda>n. n \<noteq> number) (ks_number_order st) \<rparr>
      | Some blocks \<Rightarrow> evict_blocks rs number blocks (drop_number number st))"

definition i64_saturating_sub :: "i64 \<Rightarrow> i64 \<Rightarrow> i64" where
  "i64_saturating_sub a b = max i64_min (min i64_max (a - b))"

definition evict :: "('v \<Rightarrow> usize) \<Rightarrow> i64 \<Rightarrow> 'v KhaosStore \<Rightarrow> 'v KhaosStore" where
  "evict rs head_number st =
     (let cutoff = max 0 (i64_saturating_sub head_number (ks_max_capacity st)) in
      fold (evict_number_bucket rs) (filter (\<lambda>n. n < cutoff) (ks_number_order st)) st)"

definition evict_entry :: "('v \<Rightarrow> usize) \<Rightarrow> 'v KhaosNode \<Rightarrow> 'v KhaosStore \<Rightarrow> 'v KhaosStore" where
  "evict_entry rs victim st =
     (let number = node_number victim; i = node_id victim in
      case map_of (ks_by_number st) number of
        None \<Rightarrow> st
      | Some blocks \<Rightarrow>
        (case position (\<lambda>c. ptr_eq c victim) blocks of
           None \<Rightarrow> if blocks = [] then drop_number number st else st
         | Some index \<Rightarrow>
           let blocks' = take index blocks @ drop (index + 1) blocks;
               st = st\<lparr> ks_list_entries := ks_list_entries st - 1,
                        ks_total_bytes := ks_total_bytes st - accounted_or_max rs (blocks ! index),
                        ks_by_number := AList.update number blocks' (ks_by_number st) \<rparr>;
               st = (if blocks' = [] then drop_number number st else st);
               st = st\<lparr> ks_insertion_order := filter (\<lambda>c. \<not> ptr_eq c victim) (ks_insertion_order st),
                        ks_by_hash := (case map_of (ks_by_hash st) i of
                            Some indexed \<Rightarrow> if ptr_eq indexed victim then AList.delete i (ks_by_hash st) else ks_by_hash st
                          | None \<Rightarrow> ks_by_hash st) \<rparr>
           in notify Evicted i number st))"

definition fits :: "'v KhaosStore \<Rightarrow> usize \<Rightarrow> usize \<Rightarrow> usize \<Rightarrow> bool" where
  "fits st incoming remaining_entries remaining_bytes \<longleftrightarrow>
     remaining_entries < ks_max_entries st \<and>
     (case usize_checked_add remaining_bytes incoming of None \<Rightarrow> False | Some n \<Rightarrow> n \<le> ks_max_bytes st)"

definition is_pinned :: "'v KhaosNode option \<Rightarrow> 'v KhaosNode \<Rightarrow> bool" where
  "is_pinned pinned c \<longleftrightarrow> (case pinned of None \<Rightarrow> False | Some parent \<Rightarrow> ptr_eq c parent)"

fun limit_scan :: "('v \<Rightarrow> usize) \<Rightarrow> 'v KhaosStore \<Rightarrow> usize \<Rightarrow> 'v KhaosNode option \<Rightarrow> 'v KhaosNode list \<Rightarrow> usize \<Rightarrow> usize \<Rightarrow> bool" where
  "limit_scan rs st incoming pinned [] n b = fits st incoming n b"
| "limit_scan rs st incoming pinned (c # cs) n b =
     (if fits st incoming n b then True
      else if is_pinned pinned c then limit_scan rs st incoming pinned cs n b
      else limit_scan rs st incoming pinned cs (n - 1) (b - accounted_or_max rs c))"

definition check_resource_limit :: "('v \<Rightarrow> usize) \<Rightarrow> usize \<Rightarrow> 'v KhaosNode option \<Rightarrow> 'v KhaosStore \<Rightarrow> (unit, KhaosError) result" where
  "check_resource_limit rs incoming pinned st =
     (if ks_max_entries st = 0 \<or> incoming > ks_max_bytes st then Err (ResourceLimit (ks_max_bytes st))
      else if limit_scan rs st incoming pinned (ks_insertion_order st) (ks_list_entries st) (ks_total_bytes st) then Ok ()
      else Err (ResourceLimit (ks_max_bytes st)))"

fun select_victims :: "('v \<Rightarrow> usize) \<Rightarrow> 'v KhaosStore \<Rightarrow> usize \<Rightarrow> 'v KhaosNode option \<Rightarrow> 'v KhaosNode list \<Rightarrow> usize \<Rightarrow> usize \<Rightarrow>
    'v KhaosNode list" where
  "select_victims rs st incoming pinned [] n b = []"
| "select_victims rs st incoming pinned (c # cs) n b =
     (if fits st incoming n b then []
      else if is_pinned pinned c then select_victims rs st incoming pinned cs n b
      else c # select_victims rs st incoming pinned cs (n - 1) (b - accounted_or_max rs c))"

definition evict_for_resource_limit :: "('v \<Rightarrow> usize) \<Rightarrow> usize \<Rightarrow> 'v KhaosNode option \<Rightarrow> 'v KhaosStore \<Rightarrow>
    'v KhaosStore \<times> (unit, KhaosError) result" where
  "evict_for_resource_limit rs incoming pinned st =
     (case check_resource_limit rs incoming pinned st of
        Err e \<Rightarrow> (st, Err e)
      | Ok _ \<Rightarrow>
        (fold (evict_entry rs)
          (select_victims rs st incoming pinned (ks_insertion_order st) (ks_list_entries st) (ks_total_bytes st)) st, Ok ()))"

section \<open>Inserting and removing\<close>

definition insert_pinning :: "('v \<Rightarrow> usize) \<Rightarrow> 'v KhaosNode \<Rightarrow> i64 option \<Rightarrow> 'v KhaosNode option \<Rightarrow> 'v KhaosStore \<Rightarrow>
    'v KhaosStore \<times> (unit, KhaosError) result" where
  "insert_pinning rs block head_number pinned st =
     (case accounted_bytes rs block of
        None \<Rightarrow> (st, Err (ResourceLimit (ks_max_bytes st)))
      | Some block_bytes \<Rightarrow>
        (case evict_for_resource_limit rs block_bytes pinned st of
           (st, Err e) \<Rightarrow> (st, Err e)
         | (st, Ok _) \<Rightarrow>
           if (case pinned of None \<Rightarrow> False
               | Some parent \<Rightarrow>
                 \<not> (case map_of (ks_by_hash st) (node_id parent) of None \<Rightarrow> False | Some retained \<Rightarrow> ptr_eq retained parent))
           then (st, Err (ResourceLimit (ks_max_bytes st)))
           else
             let i = node_id block; number = node_number block;
                 kind = (if map_of (ks_by_hash st) i \<noteq> None then Replaced else Inserted);
                 st = st\<lparr> ks_by_hash := AList.update i block (ks_by_hash st),
                          ks_number_order := (if map_of (ks_by_number st) number = None then ks_number_order st @ [number]
                                              else ks_number_order st),
                          ks_by_number := AList.update number
                            ((case map_of (ks_by_number st) number of None \<Rightarrow> [] | Some bs \<Rightarrow> bs) @ [block]) (ks_by_number st),
                          ks_insertion_order := ks_insertion_order st @ [block],
                          ks_list_entries := ks_list_entries st + 1,
                          ks_total_bytes := ks_total_bytes st + block_bytes \<rparr>;
                 st = notify kind i number st
             in (case head_number of None \<Rightarrow> st | Some h \<Rightarrow> evict rs h st, Ok ())))"

definition store_insert :: "('v \<Rightarrow> usize) \<Rightarrow> 'v KhaosNode \<Rightarrow> i64 option \<Rightarrow> 'v KhaosStore \<Rightarrow> 'v KhaosStore \<times> (unit, KhaosError) result" where
  "store_insert rs block head_number st = insert_pinning rs block head_number None st"

definition store_remove :: "('v \<Rightarrow> usize) \<Rightarrow> bytes \<Rightarrow> 'v KhaosStore \<Rightarrow> 'v KhaosStore \<times> bool" where
  "store_remove rs i st =
     (case map_of (ks_by_hash st) i of
        None \<Rightarrow> (st, False)
      | Some block \<Rightarrow>
        let number = node_number block;
            blocks = (case map_of (ks_by_number st) number of None \<Rightarrow> [] | Some bs \<Rightarrow> bs);
            gone = filter (\<lambda>c. node_id c = i) blocks;
            kept = filter (\<lambda>c. node_id c \<noteq> i) blocks;
            removed_bytes = fold (\<lambda>c n. usize_saturating_add n (accounted_or_max rs c)) gone 0;
            st = (if map_of (ks_by_number st) number = None then st
                  else if kept = [] then drop_number number st
                  else st\<lparr> ks_by_number := AList.update number kept (ks_by_number st) \<rparr>);
            st = st\<lparr> ks_insertion_order := filter (\<lambda>c. node_id c \<noteq> i \<or> node_number c \<noteq> number) (ks_insertion_order st),
                     ks_list_entries := ks_list_entries st - length gone,
                     ks_total_bytes := ks_total_bytes st - removed_bytes,
                     ks_by_hash := AList.delete i (ks_by_hash st) \<rparr>
        in (notify Removed i number st, True))"

definition highest_first :: "'v KhaosStore \<Rightarrow> 'v KhaosNode option" where
  "highest_first st =
     (if ks_by_number st = [] then None
      else case map_of (ks_by_number st) (Max (set (map fst (ks_by_number st)))) of
        None \<Rightarrow> None
      | Some blocks \<Rightarrow> if blocks = [] then None else Some (hd blocks))"

section \<open>The database\<close>

record 'v KhaosDatabase =
  kd_head :: "'v KhaosNode option"
  kd_mini_store :: "'v KhaosStore"
  kd_mini_unlinked_store :: "'v KhaosStore"
  kd_parents :: "(nat \<times> nat) list"
  kd_next :: nat

definition khaos_new :: "'v KhaosDatabase" where
  "khaos_new = \<lparr> kd_head = None, kd_mini_store = khaos_store_new, kd_mini_unlinked_store = khaos_store_new,
                 kd_parents = [], kd_next = 0 \<rparr>"

definition stores_with_callbacks :: "'v KhaosDatabase" where
  "stores_with_callbacks = khaos_new\<lparr> kd_mini_store := with_callback, kd_mini_unlinked_store := with_callback \<rparr>"

definition node_new :: "'v KhaosBlockData \<Rightarrow> 'v KhaosDatabase \<Rightarrow> 'v KhaosDatabase \<times> 'v KhaosNode" where
  "node_new block db = (db\<lparr> kd_next := kd_next db + 1 \<rparr>, \<lparr> kn_ptr = kd_next db, kn_block = block \<rparr>)"

definition store_nodes :: "'v KhaosStore \<Rightarrow> 'v KhaosNode list" where
  "store_nodes st = map snd (ks_by_hash st) @ concat (map snd (ks_by_number st)) @ ks_insertion_order st"

definition held_nodes :: "'v KhaosDatabase \<Rightarrow> 'v KhaosNode list" where
  "held_nodes db =
     store_nodes (kd_mini_store db) @ store_nodes (kd_mini_unlinked_store db) @
     (case kd_head db of None \<Rightarrow> [] | Some h \<Rightarrow> [h])"

definition node_parent :: "'v KhaosDatabase \<Rightarrow> 'v KhaosNode \<Rightarrow> 'v KhaosNode option" where
  "node_parent db n =
     (case map_of (kd_parents db) (kn_ptr n) of
        None \<Rightarrow> None
      | Some p \<Rightarrow> List.find (\<lambda>m. kn_ptr m = p) (held_nodes db))"

definition set_parent :: "'v KhaosNode \<Rightarrow> 'v KhaosNode \<Rightarrow> 'v KhaosDatabase \<Rightarrow> 'v KhaosDatabase" where
  "set_parent n parent db = db\<lparr> kd_parents := AList.update (kn_ptr n) (kn_ptr parent) (kd_parents db) \<rparr>"

definition start :: "('v \<Rightarrow> usize) \<Rightarrow> 'v KhaosBlockData \<Rightarrow> 'v KhaosDatabase \<Rightarrow> 'v KhaosDatabase \<times> (unit, KhaosError) result" where
  "start rs block db =
     (case node_new block db of (db, n) \<Rightarrow>
        (case store_insert rs n (Some (node_number n)) (kd_mini_store db) of
           (st, Err e) \<Rightarrow> (db\<lparr> kd_mini_store := st \<rparr>, Err e)
         | (st, Ok _) \<Rightarrow> (db\<lparr> kd_mini_store := st, kd_head := Some n \<rparr>, Ok ())))"

definition link_push :: "('v \<Rightarrow> usize) \<Rightarrow> 'v KhaosNode \<Rightarrow> 'v KhaosNode option \<Rightarrow> 'v KhaosDatabase \<Rightarrow>
    'v KhaosDatabase \<times> ('v KhaosBlockData, KhaosError) result" where
  "link_push rs n resolved_parent db =
     (case insert_pinning rs n (map_option node_number (kd_head db)) resolved_parent (kd_mini_store db) of
        (st, Err e) \<Rightarrow> (db\<lparr> kd_mini_store := st \<rparr>, Err e)
      | (st, Ok _) \<Rightarrow>
        let db = db\<lparr> kd_mini_store := st \<rparr>;
            db = (case resolved_parent of None \<Rightarrow> db | Some parent \<Rightarrow> set_parent n parent db);
            head = (case kd_head db of None \<Rightarrow> n | Some h \<Rightarrow> if node_number n > node_number h then n else h)
        in (db\<lparr> kd_head := Some head \<rparr>, Ok (kn_block head)))"

definition push :: "('v \<Rightarrow> usize) \<Rightarrow> 'v KhaosBlockData \<Rightarrow> 'v KhaosDatabase \<Rightarrow>
    'v KhaosDatabase \<times> ('v KhaosBlockData, KhaosError) result" where
  "push rs block db =
     (case node_new block db of (db, n) \<Rightarrow>
        if kd_head db \<noteq> None \<and> node_parent_id n \<noteq> Hash32_ZERO then
          (case get_by_hash (kd_mini_store db) (from_overlaid_hash (node_parent_id n)) of
             Some parent \<Rightarrow>
               if node_number n \<noteq> wrap_i64 (node_number parent + 1)
               then (db, Err (BadNumber (node_number parent) (node_number n)))
               else link_push rs n (Some parent) db
           | None \<Rightarrow>
               (case store_insert rs n (map_option node_number (kd_head db)) (kd_mini_unlinked_store db) of
                  (st, Err e) \<Rightarrow> (db\<lparr> kd_mini_unlinked_store := st \<rparr>, Err e)
                | (st, Ok _) \<Rightarrow> (db\<lparr> kd_mini_unlinked_store := st \<rparr>, Err (UnlinkedBlock (node_id n) (node_parent_id n)))))
        else link_push rs n None db)"

definition check_linked_resource :: "('v \<Rightarrow> usize) \<Rightarrow> bytes \<Rightarrow> usize \<Rightarrow> 'v KhaosDatabase \<Rightarrow> (unit, KhaosError) result" where
  "check_linked_resource rs parent_id retained_size db =
     (case get_by_hash (kd_mini_store db) parent_id of
        None \<Rightarrow> Err NonCommonBlock
      | Some parent \<Rightarrow>
        (case usize_checked_add KHAOS_BLOCK_OVERHEAD retained_size of
           None \<Rightarrow> Err (ResourceLimit (ks_max_bytes (kd_mini_store db)))
         | Some incoming \<Rightarrow> check_resource_limit rs incoming (Some parent) (kd_mini_store db)))"

definition remove_blk :: "('v \<Rightarrow> usize) \<Rightarrow> bytes \<Rightarrow> 'v KhaosDatabase \<Rightarrow> 'v KhaosDatabase \<times> (unit, KhaosError) result" where
  "remove_blk rs i db =
     (case store_remove rs i (kd_mini_store db) of (linked, removed) \<Rightarrow>
        let db = db\<lparr> kd_mini_store := linked \<rparr>;
            db = (if removed then db else db\<lparr> kd_mini_unlinked_store := fst (store_remove rs i (kd_mini_unlinked_store db)) \<rparr>) in
        (case highest_first (kd_mini_store db) of
           None \<Rightarrow> (db, Err HeadWouldBeNull)
         | Some head \<Rightarrow> (db\<lparr> kd_head := Some head \<rparr>, Ok ())))"

definition contain_block :: "'v KhaosDatabase \<Rightarrow> bytes \<Rightarrow> bool" where
  "contain_block db i \<longleftrightarrow> get_by_hash (kd_mini_store db) i \<noteq> None \<or> get_by_hash (kd_mini_unlinked_store db) i \<noteq> None"

definition contain_block_in_mini_store :: "'v KhaosDatabase \<Rightarrow> bytes \<Rightarrow> bool" where
  "contain_block_in_mini_store db i \<longleftrightarrow> get_by_hash (kd_mini_store db) i \<noteq> None"

definition retained_node :: "'v KhaosDatabase \<Rightarrow> bytes \<Rightarrow> 'v KhaosNode option" where
  "retained_node db i =
     (case get_by_hash (kd_mini_store db) i of Some n \<Rightarrow> Some n | None \<Rightarrow> get_by_hash (kd_mini_unlinked_store db) i)"

definition get_block :: "'v KhaosDatabase \<Rightarrow> bytes \<Rightarrow> 'v KhaosBlockData option" where
  "get_block db i = map_option kn_block (retained_node db i)"

definition get_head :: "'v KhaosDatabase \<Rightarrow> 'v KhaosBlockData option" where
  "get_head db = map_option kn_block (kd_head db)"

definition set_head :: "bytes \<Rightarrow> 'v KhaosDatabase \<Rightarrow> 'v KhaosDatabase \<times> (unit, KhaosError) result" where
  "set_head i db =
     (case get_by_hash (kd_mini_store db) i of
        None \<Rightarrow> (db, Err NonCommonBlock)
      | Some head \<Rightarrow> (db\<lparr> kd_head := Some head \<rparr>, Ok ()))"

definition has_data :: "'v KhaosDatabase \<Rightarrow> bool" where
  "has_data db \<longleftrightarrow> \<not> store_is_empty (kd_mini_store db)"

definition khaos_pop :: "'v KhaosDatabase \<Rightarrow> 'v KhaosDatabase \<times> bool" where
  "khaos_pop db =
     (case kd_head db of
        None \<Rightarrow> (db, False)
      | Some head \<Rightarrow>
        (case node_parent db head of
           None \<Rightarrow> (db, False)
         | Some parent \<Rightarrow> (db\<lparr> kd_head := Some parent \<rparr>, True)))"

definition set_limits :: "KhaosLimits \<Rightarrow> 'v KhaosDatabase \<Rightarrow> 'v KhaosDatabase" where
  "set_limits limits db =
     db\<lparr> kd_mini_store := set_resource_limits (kl_max_list_entries limits) (kl_max_total_bytes limits) (kd_mini_store db),
         kd_mini_unlinked_store :=
           set_resource_limits (kl_max_orphan_entries limits) (kl_max_orphan_bytes limits) (kd_mini_unlinked_store db) \<rparr>"

definition set_max_size :: "i64 \<Rightarrow> 'v KhaosDatabase \<Rightarrow> 'v KhaosDatabase" where
  "set_max_size max_size db =
     set_limits (from_capacity max_size)
       (db\<lparr> kd_mini_store := set_max_capacity max_size (kd_mini_store db),
            kd_mini_unlinked_store := set_max_capacity max_size (kd_mini_unlinked_store db) \<rparr>)"

definition get_parent_block :: "'v KhaosDatabase \<Rightarrow> bytes \<Rightarrow> 'v KhaosNode option" where
  "get_parent_block db i =
     (case retained_node db i of
        None \<Rightarrow> None
      | Some n \<Rightarrow>
        (case node_parent db n of
           None \<Rightarrow> None
         | Some parent \<Rightarrow> if contain_block db (node_id parent) then Some parent else None))"

section \<open>Branches\<close>

text \<open>A step to the parent: the new node, the identifiers seen, the steps taken.\<close>

type_synonym 'v walk = "'v KhaosNode \<times> bytes list \<times> usize"

definition checked_parent :: "'v KhaosDatabase \<Rightarrow> usize \<Rightarrow> 'v KhaosNode \<Rightarrow> bytes list \<Rightarrow> usize \<Rightarrow> ('v walk, KhaosError) result" where
  "checked_parent db maximum block visited steps =
     (let steps = usize_saturating_add steps 1 in
      if steps > maximum then Err (TraversalLimit maximum)
      else case node_parent db block of
        None \<Rightarrow> Err NonCommonBlock
      | Some parent \<Rightarrow>
        if node_number parent \<ge> node_number block then Err (MalformedChain (node_number block) (node_number parent))
        else if node_id parent \<in> set visited then Err (CycleDetected (node_id parent))
        else case get_by_hash (kd_mini_store db) (node_id parent) of
          None \<Rightarrow> Err NonCommonBlock
        | Some resolved \<Rightarrow>
          if node_number resolved \<ge> node_number block then Err (MalformedChain (node_number block) (node_number resolved))
          else Ok (resolved, node_id parent # visited, steps))"

definition checked_parent_deprecated :: "'v KhaosDatabase \<Rightarrow> usize \<Rightarrow> 'v KhaosNode \<Rightarrow> bytes list \<Rightarrow> usize \<Rightarrow> ('v walk, KhaosError) result" where
  "checked_parent_deprecated db maximum block visited steps =
     (case usize_checked_add steps 1 of
        None \<Rightarrow> Err (TraversalLimit maximum)
      | Some steps \<Rightarrow>
        if steps > maximum then Err (TraversalLimit maximum)
        else case node_parent db block of
          None \<Rightarrow> Err DeprecatedMissingAncestor
        | Some parent \<Rightarrow>
          if node_id parent \<in> set visited then Err (CycleDetected (node_id parent))
          else if node_number parent \<ge> node_number block then Err (MalformedChain (node_number block) (node_number parent))
          else case get_by_hash (kd_mini_store db) (node_id parent) of
            None \<Rightarrow> Err DeprecatedMissingAncestor
          | Some resolved \<Rightarrow>
            if node_number resolved \<ge> node_number block then Err (MalformedChain (node_number block) (node_number resolved))
            else Ok (resolved, node_id parent # visited, steps))"

text \<open>The retained blocks below a node: every step goes to one of them, so the walks end.\<close>

definition below :: "'v KhaosDatabase \<Rightarrow> 'v KhaosNode \<Rightarrow> nat" where
  "below db n = length (filter (\<lambda>e. node_number (snd e) < node_number n) (ks_by_hash (kd_mini_store db)))"

lemma below_resolved:
  assumes "get_by_hash (kd_mini_store db) i = Some m" "node_number m < node_number n"
  shows "below db m < below db n"
proof -
  have "(i, m) \<in> set (ks_by_hash (kd_mini_store db))" using assms(1) by (auto simp: get_by_hash_def dest: map_of_SomeD)
  moreover have "length (filter (\<lambda>e. node_number (snd e) < node_number m) xs) < length (filter (\<lambda>e. node_number (snd e) < node_number n) xs)"
    if "(i, m) \<in> set xs" for xs :: "(bytes \<times> 'a KhaosNode) list"
    using that
  proof (induction xs)
    case (Cons x xs)
    have le: "length (filter (\<lambda>e. node_number (snd e) < node_number m) xs) \<le> length (filter (\<lambda>e. node_number (snd e) < node_number n) xs)"
      using assms(2) by (induction xs) auto
    show ?case
    proof (cases "x = (i, m)")
      case True
      with assms(2) le show ?thesis by simp
    qed (use Cons assms(2) in auto)
  qed simp
  ultimately show ?thesis by (simp add: below_def)
qed

lemma checked_parent_below: "checked_parent db maximum n seen steps = Ok (m, seen', steps') \<Longrightarrow> below db m < below db n"
  by (auto simp: checked_parent_def Let_def split: if_splits option.splits intro: below_resolved)

lemma checked_parent_deprecated_below:
  "checked_parent_deprecated db maximum n seen steps = Ok (m, seen', steps') \<Longrightarrow> below db m < below db n"
  by (auto simp: checked_parent_deprecated_def Let_def split: if_splits option.splits intro: below_resolved)

function raise_to :: "'v KhaosDatabase \<Rightarrow> usize \<Rightarrow> i64 \<Rightarrow> 'v walk \<Rightarrow> 'v KhaosNode list \<Rightarrow> ('v walk \<times> 'v KhaosNode list, KhaosError) result" where
  "raise_to db maximum number (n, seen, steps) branch =
     (if node_number n > number then
        (case checked_parent db maximum n seen steps of
           Err e \<Rightarrow> Err e
         | Ok w \<Rightarrow> raise_to db maximum number w (branch @ [n]))
      else Ok ((n, seen, steps), branch))"
  by pat_completeness auto
termination
  by (relation "measure (\<lambda>(db, _, _, w, _). below db (fst w))") (auto dest: checked_parent_below)

declare raise_to.simps [simp del]

function common_walk :: "'v KhaosDatabase \<Rightarrow> usize \<Rightarrow> 'v KhaosNode \<Rightarrow> bytes list \<Rightarrow> 'v KhaosNode list \<Rightarrow>
    'v KhaosNode \<Rightarrow> bytes list \<Rightarrow> 'v KhaosNode list \<Rightarrow> usize \<Rightarrow> ('v KhaosNode list \<times> 'v KhaosNode list, KhaosError) result" where
  "common_walk db maximum a seen_a branch_a b seen_b branch_b steps =
     (if node_id a \<noteq> node_id b then
        (case checked_parent db maximum a seen_a steps of
           Err e \<Rightarrow> Err e
         | Ok (a', seen_a', steps) \<Rightarrow>
           (case checked_parent db maximum b seen_b steps of
              Err e \<Rightarrow> Err e
            | Ok (b', seen_b', steps) \<Rightarrow>
              common_walk db maximum a' seen_a' (branch_a @ [a]) b' seen_b' (branch_b @ [b]) steps))
      else Ok (branch_a, branch_b))"
  by pat_completeness auto
termination
  by (relation "measure (\<lambda>(db, _, a, _, _, b, _, _, _). below db a)") (auto dest: checked_parent_below)

declare common_walk.simps [simp del]

definition get_branch :: "'v KhaosDatabase \<Rightarrow> bytes \<Rightarrow> bytes \<Rightarrow> ('v KhaosNode list \<times> 'v KhaosNode list, KhaosError) result" where
  "get_branch db first second =
     (case (get_by_hash (kd_mini_store db) first, get_by_hash (kd_mini_store db) second) of
        (Some a, Some b) \<Rightarrow>
          let maximum = usize_saturating_add (usize_saturating_mul (ks_list_entries (kd_mini_store db)) 2) 2 in
          and_then (raise_to db maximum (node_number b) (a, [node_id a], 0) []) (\<lambda>((a, seen_a, steps), branch_a).
          and_then (raise_to db maximum (node_number a) (b, [node_id b], steps) []) (\<lambda>((b, seen_b, steps), branch_b).
          common_walk db maximum a seen_a branch_a b seen_b branch_b steps))
      | _ \<Rightarrow> Err NonCommonBlock)"

function deprecated_walk :: "'v KhaosDatabase \<Rightarrow> usize \<Rightarrow> 'v KhaosNode \<Rightarrow> bytes list \<Rightarrow> 'v KhaosNode list \<Rightarrow>
    'v KhaosNode \<Rightarrow> bytes list \<Rightarrow> 'v KhaosNode list \<Rightarrow> usize \<Rightarrow> ('v KhaosNode list \<times> 'v KhaosNode list, KhaosError) result" where
  "deprecated_walk db maximum a seen_a branch_a b seen_b branch_b steps =
     (if node_id a = node_id b then Ok (branch_a, branch_b)
      else if node_number a > node_number b then
        (case checked_parent_deprecated db maximum a seen_a steps of
           Err e \<Rightarrow> Err e
         | Ok (a', seen_a', steps) \<Rightarrow> deprecated_walk db maximum a' seen_a' (branch_a @ [a]) b seen_b branch_b steps)
      else if node_number a < node_number b then
        (case checked_parent_deprecated db maximum b seen_b steps of
           Err e \<Rightarrow> Err e
         | Ok (b', seen_b', steps) \<Rightarrow> deprecated_walk db maximum a seen_a branch_a b' seen_b' (branch_b @ [b]) steps)
      else
        (case checked_parent_deprecated db maximum a seen_a steps of
           Err e \<Rightarrow> Err e
         | Ok (a', seen_a', steps) \<Rightarrow>
           (case checked_parent_deprecated db maximum b seen_b steps of
              Err e \<Rightarrow> Err e
            | Ok (b', seen_b', steps) \<Rightarrow>
              deprecated_walk db maximum a' seen_a' (branch_a @ [a]) b' seen_b' (branch_b @ [b]) steps)))"
  by pat_completeness auto
termination
  by (relation "measure (\<lambda>(db, _, a, _, _, b, _, _, _). below db a + below db b)")
    (auto dest!: checked_parent_deprecated_below)

declare deprecated_walk.simps [simp del]

definition get_branch_deprecated :: "'v KhaosDatabase \<Rightarrow> bytes \<Rightarrow> bytes \<Rightarrow> ('v KhaosNode list \<times> 'v KhaosNode list, KhaosError) result" where
  "get_branch_deprecated db first second =
     (case (get_by_hash (kd_mini_store db) first, get_by_hash (kd_mini_store db) second) of
        (Some a, Some b) \<Rightarrow>
          deprecated_walk db (ks_list_entries (kd_mini_store db)) a [node_id a] [] b [node_id b] [] 0
      | _ \<Rightarrow> Ok ([], []))"

end
