(* ===== verification/Khaos_Store.thy ===== *)
theory Khaos_Store
  imports Khaos
begin

text \<open>
  The bookkeeping of a block store: its height index is the insertion list split by height, the
  counters are the length and the byte sum of that list, and the identifier index points into
  it. Every operation keeps this, and a successful insertion ends within the limits.
\<close>

section \<open>The invariant\<close>

definition at_height :: "i64 \<Rightarrow> 'v KhaosNode list \<Rightarrow> 'v KhaosNode list" where
  "at_height number ns = filter (\<lambda>n. node_number n = number) ns"

definition byte_sum :: "('v \<Rightarrow> usize) \<Rightarrow> 'v KhaosNode list \<Rightarrow> nat" where
  "byte_sum rs ns = sum_list (map (accounted_or_max rs) ns)"

definition height_index :: "'v KhaosStore \<Rightarrow> bool" where
  "height_index st \<longleftrightarrow>
     (\<forall>number. map_of (ks_by_number st) number =
        (if at_height number (ks_insertion_order st) = [] then None else Some (at_height number (ks_insertion_order st)))) \<and>
     distinct (map fst (ks_by_number st)) \<and> distinct (ks_number_order st) \<and> set (ks_number_order st) = fst ` set (ks_by_number st)"

definition hash_index :: "'v KhaosStore \<Rightarrow> bool" where
  "hash_index st \<longleftrightarrow> distinct (map fst (ks_by_hash st)) \<and>
     (\<forall>i n. map_of (ks_by_hash st) i = Some n \<longrightarrow> node_id n = i \<and> n \<in> set (ks_insertion_order st))"

definition store_inv :: "('v \<Rightarrow> usize) \<Rightarrow> 'v KhaosStore \<Rightarrow> bool" where
  "store_inv rs st \<longleftrightarrow>
     distinct (map kn_ptr (ks_insertion_order st)) \<and>
     height_index st \<and> hash_index st \<and>
     ks_list_entries st = length (ks_insertion_order st) \<and>
     ks_total_bytes st = byte_sum rs (ks_insertion_order st) \<and>
     ks_total_bytes st \<le> usize_max"

lemma store_inv_new: "store_inv rs khaos_store_new"
  by (simp add: store_inv_def height_index_def hash_index_def khaos_store_new_def at_height_def byte_sum_def Let_def)

lemma store_inv_notify [simp]: "store_inv rs (notify kind i number st) = store_inv rs st"
  by (simp add: notify_def store_inv_def height_index_def hash_index_def)

lemma notify_fields [simp]:
  "ks_insertion_order (notify k i n st) = ks_insertion_order st" "ks_by_hash (notify k i n st) = ks_by_hash st"
  "ks_by_number (notify k i n st) = ks_by_number st" "ks_number_order (notify k i n st) = ks_number_order st"
  "ks_list_entries (notify k i n st) = ks_list_entries st" "ks_total_bytes (notify k i n st) = ks_total_bytes st"
  "ks_max_entries (notify k i n st) = ks_max_entries st" "ks_max_bytes (notify k i n st) = ks_max_bytes st"
  "ks_max_capacity (notify k i n st) = ks_max_capacity st"
  by (simp_all add: notify_def)

lemma byte_sum_simps [simp]:
  "byte_sum rs [] = 0" "byte_sum rs (n # ns) = accounted_or_max rs n + byte_sum rs ns"
  "byte_sum rs (ns @ ms) = byte_sum rs ns + byte_sum rs ms"
  by (simp_all add: byte_sum_def)

lemma byte_sum_split: "byte_sum rs ns = byte_sum rs (filter P ns) + byte_sum rs (filter (\<lambda>n. \<not> P n) ns)"
  by (induction ns) auto

lemma length_split: "length ns = length (filter P ns) + length (filter (\<lambda>n. \<not> P n) ns)"
  by (induction ns) auto

lemma at_height_simps [simp]:
  "at_height number [] = []" "at_height number (ns @ ms) = at_height number ns @ at_height number ms"
  "at_height number [n] = (if node_number n = number then [n] else [])"
  by (simp_all add: at_height_def)

text \<open>
  Dropping nodes from the insertion list: the height index has to lose the same nodes, the
  identifier index at least those.
\<close>

lemma height_index_filter:
  assumes inv: "height_index st" and ord: "ks_insertion_order st' = filter P (ks_insertion_order st)"
    and idx: "\<And>number. map_of (ks_by_number st') number =
       (case map_of (ks_by_number st) number of None \<Rightarrow> None | Some bs \<Rightarrow> if filter P bs = [] then None else Some (filter P bs))"
    and keys: "distinct (map fst (ks_by_number st'))" "distinct (ks_number_order st')" "set (ks_number_order st') = fst ` set (ks_by_number st')"
  shows "height_index st'"
proof -
  have "at_height number (filter P ns) = filter P (at_height number ns)" for number ns
    by (simp add: at_height_def conj_commute)
  with assms show ?thesis by (simp add: height_index_def)
qed

lemma hash_index_filter:
  assumes "hash_index st" "ks_insertion_order st' = filter P (ks_insertion_order st)" "distinct (map fst (ks_by_hash st'))"
    "\<And>i n. map_of (ks_by_hash st') i = Some n \<Longrightarrow> map_of (ks_by_hash st) i = Some n \<and> P n"
  shows "hash_index st'"
  unfolding hash_index_def
proof (intro conjI allI impI)
  fix i n
  assume "map_of (ks_by_hash st') i = Some n"
  then have "map_of (ks_by_hash st) i = Some n" "P n" using assms(4) by blast+
  with assms(1,2) show "node_id n = i" "n \<in> set (ks_insertion_order st')" unfolding hash_index_def by auto
qed (rule assms(3))

lemma dom_keys: "map_of xs k \<noteq> None \<longleftrightarrow> k \<in> fst ` set xs"
  by (auto simp: map_of_eq_None_iff)

lemma number_order_dom: "height_index st \<Longrightarrow> number \<in> set (ks_number_order st) \<longleftrightarrow> at_height number (ks_insertion_order st) \<noteq> []"
  unfolding height_index_def by (metis dom_keys option.distinct(1))

lemma drop_number_keys:
  assumes "distinct (map fst (ks_by_number st))" "distinct (ks_number_order st)" "set (ks_number_order st) = fst ` set (ks_by_number st)"
  shows "distinct (map fst (ks_by_number (drop_number number st)))" "distinct (ks_number_order (drop_number number st))"
    "set (ks_number_order (drop_number number st)) = fst ` set (ks_by_number (drop_number number st))"
  using assms by (auto simp: drop_number_def AList.delete_keys distinct_removeAll simp flip: set_map)

section \<open>Evicting one entry\<close>

lemma remove_position:
  assumes "distinct (map kn_ptr ns)" "position (\<lambda>c. ptr_eq c v) ns = Some index"
  shows "take index ns @ drop (index + 1) ns = filter (\<lambda>c. \<not> ptr_eq c v) ns" "ptr_eq (ns ! index) v" "index < length ns"
proof -
  have i: "index < length ns" "ptr_eq (ns ! index) v" using assms(2) by (auto dest: position_Some)
  have ns: "ns = take index ns @ ns ! index # drop (index + 1) ns" using i(1) by (simp add: id_take_nth_drop)
  have "kn_ptr (ns ! index) \<notin> kn_ptr ` set (take index ns)" "kn_ptr (ns ! index) \<notin> kn_ptr ` set (drop (index + 1) ns)"
    using assms(1) by (subst (asm) ns; auto)+
  then have "filter (\<lambda>c. \<not> ptr_eq c v) (take index ns) = take index ns"
    "filter (\<lambda>c. \<not> ptr_eq c v) (drop (index + 1) ns) = drop (index + 1) ns"
    using i(2) by (auto simp: filter_id_conv ptr_eq_def rev_image_eqI)
  moreover have "filter (\<lambda>c. \<not> ptr_eq c v) ns = filter (\<lambda>c. \<not> ptr_eq c v) (take index ns) @ filter (\<lambda>c. \<not> ptr_eq c v) (drop (index + 1) ns)"
    using i(2) by (subst ns) simp
  ultimately show "take index ns @ drop (index + 1) ns = filter (\<lambda>c. \<not> ptr_eq c v) ns" by simp
  show "ptr_eq (ns ! index) v" "index < length ns" by (rule i(2), rule i(1))
qed

lemma filter_one:
  assumes "distinct (map kn_ptr ns)" "v \<in> set ns"
  shows "filter (\<lambda>c. ptr_eq c v) ns = [v]"
  using assms
proof (induction ns)
  case (Cons n ns)
  show ?case
  proof (cases "n = v")
    case True
    with Cons.prems have "filter (\<lambda>c. ptr_eq c v) ns = []" by (auto simp: filter_empty_conv ptr_eq_def image_iff)
    with True show ?thesis by (simp add: ptr_eq_def)
  next
    case False
    with Cons show ?thesis by (auto simp: ptr_eq_def)
  qed
qed simp

lemma distinct_at_height: "distinct (map kn_ptr ns) \<Longrightarrow> distinct (map kn_ptr (at_height number ns))"
  by (simp add: at_height_def distinct_map_filter)

lemma ptr_unique: "distinct (map kn_ptr ns) \<Longrightarrow> a \<in> set ns \<Longrightarrow> b \<in> set ns \<Longrightarrow> ptr_eq a b \<Longrightarrow> a = b"
  by (auto simp: ptr_eq_def distinct_map dest: inj_onD)

lemma position_exists: "v \<in> set ns \<Longrightarrow> \<exists>index. position (\<lambda>c. ptr_eq c v) ns = Some index"
  using position_None [of "\<lambda>c. ptr_eq c v" ns] by (cases "position (\<lambda>c. ptr_eq c v) ns") (auto simp: list_all_iff ptr_eq_def simp del: position_None)

lemma evict_entry_fields:
  assumes inv: "store_inv rs st" and v: "v \<in> set (ks_insertion_order st)"
  defines "st' \<equiv> evict_entry rs v st" and "bs \<equiv> filter (\<lambda>c. \<not> ptr_eq c v) (at_height (node_number v) (ks_insertion_order st))"
  shows "ks_insertion_order st' = filter (\<lambda>c. \<not> ptr_eq c v) (ks_insertion_order st)"
    "ks_list_entries st' = ks_list_entries st - 1" "ks_total_bytes st' = ks_total_bytes st - accounted_or_max rs v"
    "ks_by_number st' = (if bs = [] then AList.delete (node_number v) (AList.update (node_number v) bs (ks_by_number st))
       else AList.update (node_number v) bs (ks_by_number st))"
    "ks_number_order st' = (if bs = [] then filter (\<lambda>n. n \<noteq> node_number v) (ks_number_order st) else ks_number_order st)"
    "ks_by_hash st' = (case map_of (ks_by_hash st) (node_id v) of
        Some indexed \<Rightarrow> if ptr_eq indexed v then AList.delete (node_id v) (ks_by_hash st) else ks_by_hash st | None \<Rightarrow> ks_by_hash st)"
    "ks_max_entries st' = ks_max_entries st" "ks_max_bytes st' = ks_max_bytes st" "ks_max_capacity st' = ks_max_capacity st"
    "map_of (ks_by_number st) (node_number v) = Some (at_height (node_number v) (ks_insertion_order st))"
proof -
  let ?ord = "ks_insertion_order st" and ?num = "node_number v"
  let ?blocks = "at_height ?num ?ord"
  have d: "distinct (map kn_ptr ?ord)" using inv by (simp add: store_inv_def)
  have vb: "v \<in> set ?blocks" using v by (simp add: at_height_def)
  have mb: "map_of (ks_by_number st) ?num = Some ?blocks"
    using inv vb by (auto simp: store_inv_def height_index_def)
  obtain index where idx: "position (\<lambda>c. ptr_eq c v) ?blocks = Some index" using position_exists [OF vb] by blast
  note rp = remove_position [OF distinct_at_height [OF d] idx]
  have nth: "?blocks ! index = v" using rp(2,3) ptr_unique [OF distinct_at_height [OF d]] vb nth_mem by metis
  have eq: "evict_entry rs v st = notify Evicted (node_id v) ?num
     (let st1 = st\<lparr> ks_list_entries := ks_list_entries st - 1, ks_total_bytes := ks_total_bytes st - accounted_or_max rs v,
                     ks_by_number := AList.update ?num bs (ks_by_number st) \<rparr>;
          st2 = (if bs = [] then drop_number ?num st1 else st1)
      in st2\<lparr> ks_insertion_order := filter (\<lambda>c. \<not> ptr_eq c v) (ks_insertion_order st2),
              ks_by_hash := (case map_of (ks_by_hash st2) (node_id v) of
                  Some indexed \<Rightarrow> if ptr_eq indexed v then AList.delete (node_id v) (ks_by_hash st2) else ks_by_hash st2
                | None \<Rightarrow> ks_by_hash st2) \<rparr>)"
    unfolding evict_entry_def Let_def mb option.case idx rp(1) nth bs_def [symmetric] by (rule refl)
  show "ks_insertion_order st' = filter (\<lambda>c. \<not> ptr_eq c v) (ks_insertion_order st)"
    "ks_list_entries st' = ks_list_entries st - 1" "ks_total_bytes st' = ks_total_bytes st - accounted_or_max rs v"
    "ks_by_number st' = (if bs = [] then AList.delete (node_number v) (AList.update (node_number v) bs (ks_by_number st))
       else AList.update (node_number v) bs (ks_by_number st))"
    "ks_number_order st' = (if bs = [] then filter (\<lambda>n. n \<noteq> node_number v) (ks_number_order st) else ks_number_order st)"
    "ks_by_hash st' = (case map_of (ks_by_hash st) (node_id v) of
        Some indexed \<Rightarrow> if ptr_eq indexed v then AList.delete (node_id v) (ks_by_hash st) else ks_by_hash st | None \<Rightarrow> ks_by_hash st)"
    "ks_max_entries st' = ks_max_entries st" "ks_max_bytes st' = ks_max_bytes st" "ks_max_capacity st' = ks_max_capacity st"
    unfolding st'_def eq by (simp_all add: Let_def drop_number_def split: option.split)
  show "map_of (ks_by_number st) ?num = Some ?blocks" by (rule mb)
qed

lemma evict_entry_inv:
  assumes inv: "store_inv rs st" and v: "v \<in> set (ks_insertion_order st)"
  shows "store_inv rs (evict_entry rs v st)"
proof -
  let ?st' = "evict_entry rs v st" and ?ord = "ks_insertion_order st" and ?P = "\<lambda>c. \<not> ptr_eq c v"
  note f = evict_entry_fields [OF inv v]
  have d: "distinct (map kn_ptr ?ord)" and hi: "height_index st" and ha: "hash_index st" using inv by (simp_all add: store_inv_def)
  have one: "filter (\<lambda>c. ptr_eq c v) ?ord = [v]" by (rule filter_one [OF d v])
  have height: "height_index ?st'"
  proof (rule height_index_filter [OF hi f(1)])
    fix number
    have other: "filter ?P bs = bs" if "map_of (ks_by_number st) number = Some bs" "number \<noteq> node_number v" for bs
    proof -
      have "bs = at_height number ?ord" using that(1) hi by (auto simp: height_index_def split: if_splits)
      moreover have "?P c" if "c \<in> set (at_height number ?ord)" for c
        using that ptr_unique [OF d _ v] \<open>number \<noteq> node_number v\<close> by (auto simp: at_height_def)
      ultimately show ?thesis by (simp add: filter_id_conv)
    qed
    have ne: "bs \<noteq> []" if "map_of (ks_by_number st) number = Some bs" for bs
      using that hi by (auto simp: height_index_def split: if_splits)
    show "map_of (ks_by_number ?st') number =
       (case map_of (ks_by_number st) number of None \<Rightarrow> None | Some bs \<Rightarrow> if filter ?P bs = [] then None else Some (filter ?P bs))"
    proof (cases "number = node_number v")
      case True
      then show ?thesis unfolding f(4) True f(10) option.case by (simp add: AList.delete_conv' AList.update_conv')
    next
      case False
      then have "map_of (ks_by_number ?st') number = map_of (ks_by_number st) number"
        unfolding f(4) by (simp add: AList.delete_conv' AList.update_conv')
      then show ?thesis using other [OF _ False] ne by (cases "map_of (ks_by_number st) number") auto
    qed
  next
    have k: "node_number v \<in> fst ` set (ks_by_number st)" using f(10) by (metis dom_keys option.distinct(1))
    have up: "fst ` set (AList.update (node_number v) bs (ks_by_number st)) = fst ` set (ks_by_number st)" for bs
      using k by (auto simp: AList.dom_update insert_absorb)
    show "distinct (map fst (ks_by_number ?st'))" "distinct (ks_number_order ?st')"
      using hi unfolding f(4,5) by (simp_all add: height_index_def AList.distinct_update AList.distinct_delete)
    show "set (ks_number_order ?st') = fst ` set (ks_by_number ?st')"
      using hi up unfolding f(4,5) by (auto simp: height_index_def AList.delete_keys simp flip: set_map)
  qed
  moreover have "hash_index ?st'"
  proof (rule hash_index_filter [OF ha f(1)])
    show "distinct (map fst (ks_by_hash ?st'))"
      using ha unfolding f(6) by (auto simp: hash_index_def AList.distinct_delete split: option.split)
    fix i n
    assume m: "map_of (ks_by_hash ?st') i = Some n"
    have old: "map_of (ks_by_hash st) i = Some n"
      using m unfolding f(6) by (auto simp: AList.delete_conv' fun_upd_def simp del: map_of_eq_Some_iff split: option.splits if_splits)
    moreover have "\<not> ptr_eq n v"
    proof
      assume p: "ptr_eq n v"
      have "node_id n = i" "n \<in> set ?ord" using ha old by (auto simp: hash_index_def simp del: map_of_eq_Some_iff)
      then have "n = v" "i = node_id v" using ptr_unique [OF d _ v p] by simp_all
      with m old p show False unfolding f(6) by (simp add: AList.delete_conv' del: map_of_eq_Some_iff)
    qed
    ultimately show "map_of (ks_by_hash st) i = Some n \<and> \<not> ptr_eq n v" by blast
  qed
  moreover have "distinct (map kn_ptr (ks_insertion_order ?st'))" using d unfolding f(1) by (rule distinct_map_filter)
  moreover have "ks_list_entries ?st' = length (ks_insertion_order ?st')"
    using inv length_split [of ?ord "\<lambda>c. ptr_eq c v"] one unfolding f(1,2) by (simp add: store_inv_def)
  moreover have "ks_total_bytes ?st' = byte_sum rs (ks_insertion_order ?st')"
    using inv byte_sum_split [of rs ?ord "\<lambda>c. ptr_eq c v"] one unfolding f(1,3) by (simp add: store_inv_def)
  moreover have "ks_total_bytes ?st' \<le> usize_max" using inv unfolding f(3) by (auto simp: store_inv_def)
  ultimately show ?thesis by (simp add: store_inv_def)
qed

section \<open>Evicting several entries\<close>

definition same_limits :: "'v KhaosStore \<Rightarrow> 'v KhaosStore \<Rightarrow> bool" where
  "same_limits st st' \<longleftrightarrow> ks_max_entries st' = ks_max_entries st \<and> ks_max_bytes st' = ks_max_bytes st \<and> ks_max_capacity st' = ks_max_capacity st"

lemma evict_entries_inv:
  assumes "store_inv rs st" "set vs \<subseteq> set (ks_insertion_order st)" "distinct (map kn_ptr vs)"
  shows "store_inv rs (fold (evict_entry rs) vs st) \<and> same_limits st (fold (evict_entry rs) vs st) \<and>
    ks_list_entries (fold (evict_entry rs) vs st) = ks_list_entries st - length vs \<and>
    ks_total_bytes (fold (evict_entry rs) vs st) = ks_total_bytes st - byte_sum rs vs \<and>
    set (ks_insertion_order (fold (evict_entry rs) vs st)) \<subseteq> set (ks_insertion_order st)"
  using assms
proof (induction vs arbitrary: st)
  case (Cons v vs)
  let ?st = "evict_entry rs v st"
  have v: "v \<in> set (ks_insertion_order st)" using Cons.prems by simp
  note f = evict_entry_fields [OF Cons.prems(1) v]
  have "set vs \<subseteq> set (ks_insertion_order ?st)"
    using Cons.prems(2,3) unfolding f(1) by (auto simp: ptr_eq_def rev_image_eqI)
  with Cons.IH [OF evict_entry_inv [OF Cons.prems(1) v]] Cons.prems(3) f(1-3,7-9) show ?case
    by (auto simp: same_limits_def diff_diff_add)
qed (simp add: same_limits_def)

lemma evict_blocks_fields:
  "ks_insertion_order (evict_blocks rs number bs st) = filter (\<lambda>c. \<forall>b\<in>set bs. \<not> ptr_eq c b) (ks_insertion_order st)"
  "ks_list_entries (evict_blocks rs number bs st) = ks_list_entries st - length bs"
  "ks_total_bytes (evict_blocks rs number bs st) = ks_total_bytes st - byte_sum rs bs"
  "map_of (ks_by_hash (evict_blocks rs number bs st)) i = (if i \<in> node_id ` set bs then None else map_of (ks_by_hash st) i)"
  "distinct (map fst (ks_by_hash st)) \<Longrightarrow> distinct (map fst (ks_by_hash (evict_blocks rs number bs st)))"
  "ks_by_number (evict_blocks rs number bs st) = ks_by_number st"
  "ks_number_order (evict_blocks rs number bs st) = ks_number_order st"
  "same_limits st (evict_blocks rs number bs st)"
  by (induction bs arbitrary: st)
    (auto simp: conj_commute AList.delete_conv' AList.distinct_delete diff_diff_add same_limits_def intro: filter_cong)

lemma evict_number_bucket_inv:
  assumes inv: "store_inv rs st"
  shows "store_inv rs (evict_number_bucket rs number st) \<and> same_limits st (evict_number_bucket rs number st) \<and>
    ks_insertion_order (evict_number_bucket rs number st) = filter (\<lambda>c. node_number c \<noteq> number) (ks_insertion_order st)"
proof (cases "at_height number (ks_insertion_order st) = []")
  case True
  have hi: "height_index st" using inv by (simp add: store_inv_def)
  have none: "map_of (ks_by_number st) number = None" using hi True by (simp add: height_index_def)
  have "filter (\<lambda>n. n \<noteq> number) (ks_number_order st) = ks_number_order st"
    using number_order_dom [OF hi, of number] True by (auto simp: filter_id_conv)
  moreover have "filter (\<lambda>c. node_number c \<noteq> number) (ks_insertion_order st) = ks_insertion_order st"
    using True by (auto simp: at_height_def filter_empty_conv filter_id_conv)
  ultimately show ?thesis using inv by (simp add: evict_number_bucket_def none same_limits_def)
next
  case False
  let ?ord = "ks_insertion_order st" and ?bs = "at_height number (ks_insertion_order st)"
  let ?st' = "evict_blocks rs number ?bs (drop_number number st)"
  have d: "distinct (map kn_ptr ?ord)" and hi: "height_index st" and ha: "hash_index st" using inv by (simp_all add: store_inv_def)
  have eq: "evict_number_bucket rs number st = ?st'"
    using hi False by (simp add: evict_number_bucket_def height_index_def)
  have dn: "ks_insertion_order (drop_number number st) = ?ord" "ks_by_hash (drop_number number st) = ks_by_hash st"
    "ks_list_entries (drop_number number st) = ks_list_entries st" "ks_total_bytes (drop_number number st) = ks_total_bytes st"
    "same_limits st (drop_number number st)" by (simp_all add: drop_number_def same_limits_def)
  have ord: "ks_insertion_order ?st' = filter (\<lambda>c. node_number c \<noteq> number) ?ord"
    unfolding evict_blocks_fields(1) dn(1)
  proof (rule filter_cong [OF refl])
    fix c
    assume c: "c \<in> set ?ord"
    show "(\<forall>b\<in>set ?bs. \<not> ptr_eq c b) = (node_number c \<noteq> number)"
      using c ptr_unique [OF d c] by (auto simp: at_height_def ptr_eq_def)
  qed
  have "height_index ?st'"
  proof (rule height_index_filter [OF hi ord])
    fix n
    show "map_of (ks_by_number ?st') n = (case map_of (ks_by_number st) n of None \<Rightarrow> None
      | Some bs \<Rightarrow> if filter (\<lambda>c. node_number c \<noteq> number) bs = [] then None else Some (filter (\<lambda>c. node_number c \<noteq> number) bs))"
      using hi by (auto simp: evict_blocks_fields(6) drop_number_def AList.delete_conv' height_index_def at_height_def filter_empty_conv
          intro!: filter_cong)
  next
    show "distinct (map fst (ks_by_number ?st'))" "distinct (ks_number_order ?st')" "set (ks_number_order ?st') = fst ` set (ks_by_number ?st')"
      using drop_number_keys [of st number] hi by (simp_all add: evict_blocks_fields(6,7) height_index_def)
  qed
  moreover have "hash_index ?st'"
  proof (rule hash_index_filter [OF ha ord])
    show "distinct (map fst (ks_by_hash ?st'))" using evict_blocks_fields(5) ha dn(2) by (metis hash_index_def)
    fix i n
    assume m: "map_of (ks_by_hash ?st') i = Some n"
    then have old: "map_of (ks_by_hash st) i = Some n" "i \<notin> node_id ` set ?bs"
      by (auto simp: evict_blocks_fields(4) dn(2) simp del: map_of_eq_Some_iff split: if_splits)
    then have "node_id n = i" "n \<in> set ?ord" using ha by (auto simp: hash_index_def simp del: map_of_eq_Some_iff)
    with old show "map_of (ks_by_hash st) i = Some n \<and> node_number n \<noteq> number" by (auto simp: at_height_def simp del: map_of_eq_Some_iff)
  qed
  moreover have "ks_list_entries ?st' = length (ks_insertion_order ?st')" "ks_total_bytes ?st' = byte_sum rs (ks_insertion_order ?st')"
    using inv length_split [of ?ord "\<lambda>c. node_number c = number"] byte_sum_split [of rs ?ord "\<lambda>c. node_number c = number"] unfolding ord
    by (simp_all add: evict_blocks_fields(2,3) dn store_inv_def at_height_def)
  moreover have "ks_total_bytes ?st' \<le> usize_max" using inv by (auto simp: evict_blocks_fields(3) dn store_inv_def)
  moreover have "distinct (map kn_ptr (ks_insertion_order ?st'))" unfolding ord using d by (rule distinct_map_filter)
  moreover have "same_limits st ?st'" using dn(5) evict_blocks_fields(8) [of "drop_number number st" rs number ?bs] by (simp add: same_limits_def)
  ultimately show ?thesis unfolding eq using ord by (simp add: store_inv_def)
qed

lemma evict_inv:
  assumes "store_inv rs st"
  shows "store_inv rs (evict rs head_number st) \<and> same_limits st (evict rs head_number st) \<and>
    ks_list_entries (evict rs head_number st) \<le> ks_list_entries st \<and> ks_total_bytes (evict rs head_number st) \<le> ks_total_bytes st \<and>
    set (ks_insertion_order (evict rs head_number st)) \<subseteq> set (ks_insertion_order st)"
proof -
  have "store_inv rs (fold (evict_number_bucket rs) ns st) \<and> same_limits st (fold (evict_number_bucket rs) ns st) \<and>
    ks_list_entries (fold (evict_number_bucket rs) ns st) \<le> ks_list_entries st \<and>
    ks_total_bytes (fold (evict_number_bucket rs) ns st) \<le> ks_total_bytes st \<and>
    set (ks_insertion_order (fold (evict_number_bucket rs) ns st)) \<subseteq> set (ks_insertion_order st)" if "store_inv rs st" for ns st
    using that
  proof (induction ns arbitrary: st)
    case (Cons n ns)
    note e = evict_number_bucket_inv [OF Cons.prems, of n]
    have "ks_list_entries (evict_number_bucket rs n st) \<le> ks_list_entries st" "ks_total_bytes (evict_number_bucket rs n st) \<le> ks_total_bytes st"
      using e Cons.prems byte_sum_split [of rs "ks_insertion_order st" "\<lambda>c. node_number c \<noteq> n"] by (simp_all add: store_inv_def)
    with e Cons.IH [of "evict_number_bucket rs n st"] show ?case by (auto simp: same_limits_def)
  qed (simp add: same_limits_def)
  then show ?thesis unfolding evict_def Let_def using assms by blast
qed

section \<open>Inserting\<close>

lemma select_victims_sub: "set (select_victims rs st incoming pinned cs n b) \<subseteq> set cs"
  by (induction cs arbitrary: n b) auto

lemma select_victims_distinct: "distinct (map kn_ptr cs) \<Longrightarrow> distinct (map kn_ptr (select_victims rs st incoming pinned cs n b))"
proof (induction cs arbitrary: n b)
  case (Cons c cs)
  then show ?case using select_victims_sub [of rs st incoming pinned cs] by (auto simp: image_iff) blast
qed simp

lemma limit_scan_fits:
  "limit_scan rs st incoming pinned cs n b \<Longrightarrow>
   fits st incoming (n - length (select_victims rs st incoming pinned cs n b)) (b - byte_sum rs (select_victims rs st incoming pinned cs n b))"
proof (induction cs arbitrary: n b)
  case (Cons c cs)
  show ?case
  proof (cases "fits st incoming n b \<or> is_pinned pinned c")
    case False
    then have "limit_scan rs st incoming pinned cs (n - 1) (b - accounted_or_max rs c)" using Cons.prems by simp
    from Cons.IH [OF this] False show ?thesis by simp
  qed (use Cons in auto)
qed simp

lemma fitsD: "fits st incoming n b \<Longrightarrow> n < ks_max_entries st \<and> b + incoming \<le> ks_max_bytes st \<and> b + incoming \<le> usize_max"
  by (auto simp: fits_def usize_checked_add_def split: option.splits if_splits)

lemma evict_for_resource_limit_inv:
  assumes inv: "store_inv rs st" and e: "evict_for_resource_limit rs incoming pinned st = (st', r)"
  shows "store_inv rs st' \<and> same_limits st st' \<and> set (ks_insertion_order st') \<subseteq> set (ks_insertion_order st) \<and>
    (r = Ok () \<longrightarrow> ks_list_entries st' < ks_max_entries st \<and> ks_total_bytes st' + incoming \<le> ks_max_bytes st \<and>
       ks_total_bytes st' + incoming \<le> usize_max)"
proof (cases "check_resource_limit rs incoming pinned st")
  case (Inl x)
  with e inv show ?thesis by (auto simp: evict_for_resource_limit_def same_limits_def)
next
  case (Inr u)
  let ?vs = "select_victims rs st incoming pinned (ks_insertion_order st) (ks_list_entries st) (ks_total_bytes st)"
  have d: "distinct (map kn_ptr (ks_insertion_order st))" using inv by (simp add: store_inv_def)
  have st': "st' = fold (evict_entry rs) ?vs st" "r = Ok ()" using e Inr by (simp_all add: evict_for_resource_limit_def)
  have "fits st incoming (ks_list_entries st - length ?vs) (ks_total_bytes st - byte_sum rs ?vs)"
    using Inr by (intro limit_scan_fits) (auto simp: check_resource_limit_def split: if_splits)
  then show ?thesis
    using evict_entries_inv [OF inv select_victims_sub select_victims_distinct [OF d], of rs st incoming pinned "ks_list_entries st" "ks_total_bytes st"] st'
    by (auto dest: fitsD)
qed

lemma insert_inv:
  assumes inv: "store_inv rs st" and fresh: "kn_ptr block \<notin> kn_ptr ` set (ks_insertion_order st)"
    and ab: "accounted_bytes rs block = Some block_bytes" and room: "ks_total_bytes st + block_bytes \<le> usize_max"
  shows "store_inv rs (st\<lparr> ks_by_hash := AList.update (node_id block) block (ks_by_hash st),
      ks_number_order := (if map_of (ks_by_number st) (node_number block) = None then ks_number_order st @ [node_number block] else ks_number_order st),
      ks_by_number := AList.update (node_number block)
        ((case map_of (ks_by_number st) (node_number block) of None \<Rightarrow> [] | Some bs \<Rightarrow> bs) @ [block]) (ks_by_number st),
      ks_insertion_order := ks_insertion_order st @ [block], ks_list_entries := ks_list_entries st + 1,
      ks_total_bytes := ks_total_bytes st + block_bytes \<rparr>)" (is "store_inv rs ?st'")
proof -
  have hi: "height_index st" and ha: "hash_index st" using inv by (simp_all add: store_inv_def)
  have "height_index ?st'"
    using hi dom_keys [of "ks_by_number st" "node_number block"]
    by (auto simp: height_index_def AList.update_conv' AList.distinct_update AList.dom_update split: option.splits)
  moreover have "hash_index ?st'"
    using ha by (auto simp: hash_index_def AList.update_conv' AList.distinct_update simp del: map_of_eq_Some_iff split: if_splits)
  ultimately show ?thesis using inv fresh ab room by (simp add: store_inv_def accounted_or_max_def)
qed

lemma insert_pinning_inv:
  assumes inv: "store_inv rs st" and fresh: "kn_ptr block \<notin> kn_ptr ` set (ks_insertion_order st)"
    and ins: "insert_pinning rs block head_number pinned st = (st', r)"
  shows "store_inv rs st' \<and> same_limits st st' \<and> set (ks_insertion_order st') \<subseteq> insert block (set (ks_insertion_order st)) \<and>
    (r = Ok () \<longrightarrow> ks_list_entries st' \<le> ks_max_entries st' \<and> ks_total_bytes st' \<le> ks_max_bytes st')"
proof (cases "accounted_bytes rs block")
  case None
  with ins inv show ?thesis by (auto simp: insert_pinning_def same_limits_def)
next
  case (Some block_bytes)
  obtain st1 r1 where e: "evict_for_resource_limit rs block_bytes pinned st = (st1, r1)" by fastforce
  note e1 = evict_for_resource_limit_inv [OF inv e]
  show ?thesis
  proof (cases r1)
    case (Inl x)
    with ins e e1 Some show ?thesis by (auto simp: insert_pinning_def)
  next
    case (Inr u)
    let ?lost = "case pinned of None \<Rightarrow> False | Some parent \<Rightarrow>
       \<not> (case map_of (ks_by_hash st1) (node_id parent) of None \<Rightarrow> False | Some retained \<Rightarrow> ptr_eq retained parent)"
    show ?thesis
    proof (cases ?lost)
      case True
      with ins e e1 Some Inr show ?thesis by (auto simp: insert_pinning_def)
    next
      case False
      let ?st2 = "st1\<lparr> ks_by_hash := AList.update (node_id block) block (ks_by_hash st1),
        ks_number_order := (if map_of (ks_by_number st1) (node_number block) = None then ks_number_order st1 @ [node_number block] else ks_number_order st1),
        ks_by_number := AList.update (node_number block)
          ((case map_of (ks_by_number st1) (node_number block) of None \<Rightarrow> [] | Some bs \<Rightarrow> bs) @ [block]) (ks_by_number st1),
        ks_insertion_order := ks_insertion_order st1 @ [block], ks_list_entries := ks_list_entries st1 + 1,
        ks_total_bytes := ks_total_bytes st1 + block_bytes \<rparr>"
      let ?st3 = "notify (if map_of (ks_by_hash st1) (node_id block) \<noteq> None then Replaced else Inserted) (node_id block) (node_number block) ?st2"
      have out: "st' = (case head_number of None \<Rightarrow> ?st3 | Some h \<Rightarrow> evict rs h ?st3)"
        using ins e Some Inr False unfolding insert_pinning_def Let_def by (simp only: option.case prod.case sum.case if_False prod.inject)
      have "kn_ptr block \<notin> kn_ptr ` set (ks_insertion_order st1)" using fresh e1 by auto
      then have i3: "store_inv rs ?st3" using insert_inv [OF _ _ Some] e1 Inr by simp
      have b3: "ks_list_entries ?st3 \<le> ks_max_entries ?st3" "ks_total_bytes ?st3 \<le> ks_max_bytes ?st3" "same_limits st ?st3"
        "set (ks_insertion_order ?st3) \<subseteq> insert block (set (ks_insertion_order st))"
        using e1 Inr by (auto simp: same_limits_def)
      show ?thesis
      proof (cases head_number)
        case None
        with out i3 b3 show ?thesis by simp
      next
        case (Some h)
        with out i3 b3 evict_inv [OF i3, of h] show ?thesis by (auto simp: same_limits_def)
      qed
    qed
  qed
qed

section \<open>Removing\<close>

lemma saturating_bytes:
  "n + byte_sum rs cs \<le> usize_max \<Longrightarrow> fold (\<lambda>c n. usize_saturating_add n (accounted_or_max rs c)) cs n = n + byte_sum rs cs"
  by (induction cs arbitrary: n) (simp_all add: usize_saturating_add_def)

lemma store_remove_None: "map_of (ks_by_hash st) i = None \<Longrightarrow> store_remove rs i st = (st, False)"
  by (simp add: store_remove_def)

text \<open>A removal drops the blocks of the identifier at the height of the indexed block.\<close>

lemma store_remove_fields:
  fixes st :: "'v KhaosStore"
  assumes inv: "store_inv rs st" and some: "map_of (ks_by_hash st) i = Some block" and eq: "store_remove rs i st = (st', removed)"
  defines "gone \<equiv> \<lambda>c :: 'v KhaosNode. node_id c = i \<and> node_number c = node_number block"
    and "kept \<equiv> filter (\<lambda>c. node_id c \<noteq> i) (at_height (node_number block) (ks_insertion_order st))"
  shows "removed" "ks_insertion_order st' = filter (\<lambda>c. \<not> gone c) (ks_insertion_order st)"
    "ks_list_entries st' = ks_list_entries st - length (filter gone (ks_insertion_order st))"
    "ks_total_bytes st' = ks_total_bytes st - byte_sum rs (filter gone (ks_insertion_order st))"
    "ks_by_hash st' = AList.delete i (ks_by_hash st)"
    "ks_by_number st' = (if kept = [] then AList.delete (node_number block) (ks_by_number st)
       else AList.update (node_number block) kept (ks_by_number st))"
    "ks_number_order st' = (if kept = [] then filter (\<lambda>n. n \<noteq> node_number block) (ks_number_order st) else ks_number_order st)"
    "map_of (ks_by_number st) (node_number block) = Some (at_height (node_number block) (ks_insertion_order st))"
    "same_limits st st'"
proof -
  let ?ord = "ks_insertion_order st" and ?num = "node_number block"
  have "block \<in> set ?ord" using inv some by (auto simp: store_inv_def hash_index_def)
  then show mb: "map_of (ks_by_number st) ?num = Some (at_height ?num ?ord)"
    using inv by (auto simp: store_inv_def height_index_def at_height_def filter_empty_conv)
  have g: "filter (\<lambda>c. node_id c = i) (at_height ?num ?ord) = filter gone ?ord" by (auto simp: at_height_def gone_def intro: filter_cong)
  have ng: "(\<lambda>c. node_id c \<noteq> i \<or> node_number c \<noteq> ?num) = (\<lambda>c. \<not> gone c)" by (auto simp: gone_def)
  have le: "0 + byte_sum rs (filter gone ?ord) \<le> usize_max"
    using inv byte_sum_split [of rs ?ord gone] by (auto simp: store_inv_def)
  let ?st1 = "if kept = [] then drop_number ?num st else st\<lparr> ks_by_number := AList.update ?num kept (ks_by_number st) \<rparr>"
  have out: "store_remove rs i st = (notify Removed i ?num (?st1\<lparr> ks_insertion_order := filter (\<lambda>c. \<not> gone c) (ks_insertion_order ?st1),
      ks_list_entries := ks_list_entries ?st1 - length (filter gone ?ord),
      ks_total_bytes := ks_total_bytes ?st1 - (0 + byte_sum rs (filter gone ?ord)),
      ks_by_hash := AList.delete i (ks_by_hash ?st1) \<rparr>), True)"
    unfolding store_remove_def some option.case Let_def mb g saturating_bytes [OF le] ng kept_def [symmetric]
    by simp
  show "removed" "ks_insertion_order st' = filter (\<lambda>c. \<not> gone c) ?ord"
    "ks_list_entries st' = ks_list_entries st - length (filter gone ?ord)"
    "ks_total_bytes st' = ks_total_bytes st - byte_sum rs (filter gone ?ord)"
    "ks_by_hash st' = AList.delete i (ks_by_hash st)"
    "ks_by_number st' = (if kept = [] then AList.delete ?num (ks_by_number st) else AList.update ?num kept (ks_by_number st))"
    "ks_number_order st' = (if kept = [] then filter (\<lambda>n. n \<noteq> ?num) (ks_number_order st) else ks_number_order st)"
    "same_limits st st'"
    using eq unfolding out prod.inject by (auto simp: drop_number_def same_limits_def)
qed

lemma store_remove_inv:
  assumes inv: "store_inv rs st" and eq: "store_remove rs i st = (st', removed)"
  shows "store_inv rs st' \<and> same_limits st st' \<and> set (ks_insertion_order st') \<subseteq> set (ks_insertion_order st)"
proof (cases "map_of (ks_by_hash st) i")
  case None
  with eq inv show ?thesis by (simp add: store_remove_None same_limits_def)
next
  case (Some block)
  let ?ord = "ks_insertion_order st" and ?num = "node_number block"
  let ?P = "\<lambda>c. \<not> (node_id c = i \<and> node_number c = ?num)"
  note f = store_remove_fields [OF inv Some eq]
  have d: "distinct (map kn_ptr ?ord)" and hi: "height_index st" and ha: "hash_index st" using inv by (simp_all add: store_inv_def)
  have "height_index st'"
  proof (rule height_index_filter [OF hi f(2)])
    fix n
    show "map_of (ks_by_number st') n =
      (case map_of (ks_by_number st) n of None \<Rightarrow> None | Some bs \<Rightarrow> if filter ?P bs = [] then None else Some (filter ?P bs))"
    proof (cases "n = ?num")
      case True
      have "filter ?P (at_height ?num ?ord) = filter (\<lambda>c. node_id c \<noteq> i) (at_height ?num ?ord)" by (auto simp: at_height_def intro: filter_cong)
      with True f(8) show ?thesis unfolding f(6) by (simp add: AList.delete_conv' AList.update_conv')
    next
      case False
      then have "filter ?P (at_height n ?ord) = at_height n ?ord" by (auto simp: at_height_def intro: filter_cong)
      with False hi show ?thesis unfolding f(6) by (auto simp: AList.delete_conv' AList.update_conv' height_index_def)
    qed
  next
    have "?num \<in> fst ` set (ks_by_number st)" using f(8) by (metis dom_keys option.distinct(1))
    then have up: "fst ` set (AList.update ?num bs (ks_by_number st)) = fst ` set (ks_by_number st)" for bs
      by (auto simp: AList.dom_update insert_absorb)
    show "distinct (map fst (ks_by_number st'))" "distinct (ks_number_order st')"
      using hi unfolding f(6,7) by (simp_all add: height_index_def AList.distinct_update AList.distinct_delete)
    show "set (ks_number_order st') = fst ` set (ks_by_number st')"
      using hi up unfolding f(6,7) by (auto simp: height_index_def AList.delete_keys simp flip: set_map)
  qed
  moreover have "hash_index st'"
  proof (rule hash_index_filter [OF ha f(2)])
    show "distinct (map fst (ks_by_hash st'))" using ha unfolding f(5) by (simp add: hash_index_def AList.distinct_delete)
    fix j n
    assume "map_of (ks_by_hash st') j = Some n"
    then have "map_of (ks_by_hash st) j = Some n" "j \<noteq> i"
      unfolding f(5) by (auto simp: AList.delete_conv' simp del: map_of_eq_Some_iff split: if_splits)
    with ha show "map_of (ks_by_hash st) j = Some n \<and> ?P n" by (auto simp: hash_index_def simp del: map_of_eq_Some_iff)
  qed
  moreover have "ks_list_entries st' = length (ks_insertion_order st')" "ks_total_bytes st' = byte_sum rs (ks_insertion_order st')"
    using inv length_split [of ?ord ?P] byte_sum_split [of rs ?ord ?P] unfolding f(2-4) by (simp_all add: store_inv_def)
  moreover have "ks_total_bytes st' \<le> usize_max" using inv unfolding f(4) by (auto simp: store_inv_def)
  moreover have "distinct (map kn_ptr (ks_insertion_order st'))" unfolding f(2) using d by (rule distinct_map_filter)
  ultimately show ?thesis using f(2,9) by (simp add: store_inv_def)
qed

end
