(* ===== verification/Khaos_Index.thy ===== *)
theory Khaos_Index
  imports Khaos_Store
begin

text \<open>
  The identifier index of a block store that never holds one identifier twice: it is then exact, every
  stored block is found under its identifier and nothing else is. Eviction by height forgets an identifier
  whichever block it points to, so the converse does not hold once an identifier was stored twice.
\<close>

definition stored_ids :: "'v KhaosStore \<Rightarrow> bytes set" where
  "stored_ids st = node_id ` set (ks_insertion_order st)"

definition index_exact :: "'v KhaosStore \<Rightarrow> bool" where
  "index_exact st \<longleftrightarrow> distinct (map node_id (ks_insertion_order st)) \<and>
     (\<forall>n\<in>set (ks_insertion_order st). map_of (ks_by_hash st) (node_id n) = Some n)"

lemma index_exact_iff:
  assumes "store_inv rs st" "index_exact st"
  shows "map_of (ks_by_hash st) i = Some n \<longleftrightarrow> n \<in> set (ks_insertion_order st) \<and> node_id n = i"
  using assms by (auto simp: store_inv_def hash_index_def index_exact_def simp del: map_of_eq_Some_iff)

lemma index_exact_size:
  assumes "store_inv rs st" "index_exact st"
  shows "store_size st = ks_list_entries st"
proof -
  have "dom (map_of (ks_by_hash st)) = stored_ids st"
    using index_exact_iff [OF assms] by (auto simp: stored_ids_def dom_def simp del: map_of_eq_Some_iff)
  then have "fst ` set (ks_by_hash st) = set (map node_id (ks_insertion_order st))" by (simp add: dom_map_of_conv_image_fst stored_ids_def)
  moreover have "distinct (map fst (ks_by_hash st))" using assms(1) by (simp add: store_inv_def hash_index_def)
  moreover have "distinct (map node_id (ks_insertion_order st))" using assms(2) by (simp add: index_exact_def)
  ultimately have "length (ks_by_hash st) = length (ks_insertion_order st)"
    using distinct_card [of "map fst (ks_by_hash st)"] distinct_card [of "map node_id (ks_insertion_order st)"] by simp
  then show ?thesis using assms(1) by (simp add: store_size_def store_inv_def)
qed

text \<open>Blocks leave the store: the index may forget only what leaves with them.\<close>

lemma index_exact_filter:
  assumes "index_exact st" "ks_insertion_order st' = filter P (ks_insertion_order st)"
    and "\<And>n. n \<in> set (ks_insertion_order st) \<Longrightarrow> P n \<Longrightarrow> map_of (ks_by_hash st') (node_id n) = map_of (ks_by_hash st) (node_id n)"
  shows "index_exact st'"
  using assms by (auto simp: index_exact_def distinct_map_filter simp del: map_of_eq_Some_iff)

lemma same_id: "index_exact st \<Longrightarrow> a \<in> set (ks_insertion_order st) \<Longrightarrow> b \<in> set (ks_insertion_order st) \<Longrightarrow> node_id a = node_id b \<Longrightarrow> a = b"
  unfolding index_exact_def by (metis option.inject)

lemma evict_entry_exact:
  assumes inv: "store_inv rs st" and ex: "index_exact st" and v: "v \<in> set (ks_insertion_order st)"
  shows "index_exact (evict_entry rs v st)"
proof -
  note f = evict_entry_fields [OF inv v]
  show ?thesis
  proof (rule index_exact_filter [OF ex f(1)])
    fix n
    assume n: "n \<in> set (ks_insertion_order st)" "\<not> ptr_eq n v"
    then have "node_id n \<noteq> node_id v" using same_id [OF ex n(1) v] by (auto simp: ptr_eq_def)
    then show "map_of (ks_by_hash (evict_entry rs v st)) (node_id n) = map_of (ks_by_hash st) (node_id n)"
      unfolding f(6) by (auto simp: AList.delete_conv' split: option.split)
  qed
qed

lemma evict_entries_exact:
  assumes "store_inv rs st" "index_exact st" "set vs \<subseteq> set (ks_insertion_order st)" "distinct (map kn_ptr vs)"
  shows "index_exact (fold (evict_entry rs) vs st)"
  using assms
proof (induction vs arbitrary: st)
  case (Cons v vs)
  have v: "v \<in> set (ks_insertion_order st)" using Cons.prems by simp
  note f = evict_entry_fields [OF Cons.prems(1) v]
  have "set vs \<subseteq> set (ks_insertion_order (evict_entry rs v st))"
    using Cons.prems(3,4) unfolding f(1) by (auto simp: ptr_eq_def rev_image_eqI)
  with Cons.IH [OF evict_entry_inv [OF Cons.prems(1) v] evict_entry_exact [OF Cons.prems(1,2) v]] Cons.prems(4) show ?case by simp
qed simp

lemma evict_number_bucket_exact:
  assumes inv: "store_inv rs st" and ex: "index_exact st"
  shows "index_exact (evict_number_bucket rs number st)"
proof -
  let ?st' = "evict_number_bucket rs number st"
  have ord: "ks_insertion_order ?st' = filter (\<lambda>c. node_number c \<noteq> number) (ks_insertion_order st)" using evict_number_bucket_inv [OF inv] by blast
  show ?thesis
  proof (rule index_exact_filter [OF ex ord])
    fix n
    assume n: "n \<in> set (ks_insertion_order st)" "node_number n \<noteq> number"
    then have "node_id n \<notin> node_id ` set (at_height number (ks_insertion_order st))" using same_id [OF ex n(1)] by (auto simp: at_height_def)
    then show "map_of (ks_by_hash ?st') (node_id n) = map_of (ks_by_hash st) (node_id n)"
      using inv by (auto simp: evict_number_bucket_def evict_blocks_fields(4) drop_number_def store_inv_def height_index_def split: option.split)
  qed
qed

lemma evict_exact: "store_inv rs st \<Longrightarrow> index_exact st \<Longrightarrow> index_exact (evict rs head_number st)"
proof -
  have "index_exact (fold (evict_number_bucket rs) ns st)" if "store_inv rs st" "index_exact st" for ns st
    using that by (induction ns arbitrary: st) (auto simp: evict_number_bucket_exact evict_number_bucket_inv)
  then show "store_inv rs st \<Longrightarrow> index_exact st \<Longrightarrow> index_exact (evict rs head_number st)" by (simp add: evict_def Let_def)
qed

lemma evict_for_resource_limit_exact:
  assumes inv: "store_inv rs st" and ex: "index_exact st" and e: "evict_for_resource_limit rs incoming pinned st = (st', r)"
  shows "index_exact st'"
proof -
  have d: "distinct (map kn_ptr (ks_insertion_order st))" using inv by (simp add: store_inv_def)
  have "index_exact (fold (evict_entry rs) (select_victims rs st incoming pinned (ks_insertion_order st) (ks_list_entries st) (ks_total_bytes st)) st)"
    by (rule evict_entries_exact [OF inv ex select_victims_sub select_victims_distinct [OF d]])
  then show ?thesis using e ex by (auto simp: evict_for_resource_limit_def split: sum.splits)
qed

lemma insert_pinning_exact:
  assumes inv: "store_inv rs st" and ex: "index_exact st" and fresh: "kn_ptr block \<notin> kn_ptr ` set (ks_insertion_order st)"
    and new: "node_id block \<notin> stored_ids st" and ins: "insert_pinning rs block head_number pinned st = (st', r)"
  shows "index_exact st'"
proof (cases "accounted_bytes rs block")
  case None
  with ins ex show ?thesis by (auto simp: insert_pinning_def)
next
  case (Some block_bytes)
  obtain st1 r1 where e: "evict_for_resource_limit rs block_bytes pinned st = (st1, r1)" by fastforce
  note e1 = evict_for_resource_limit_inv [OF inv e] evict_for_resource_limit_exact [OF inv ex e]
  let ?lost = "case pinned of None \<Rightarrow> False | Some parent \<Rightarrow>
     \<not> (case map_of (ks_by_hash st1) (node_id parent) of None \<Rightarrow> False | Some retained \<Rightarrow> ptr_eq retained parent)"
  show ?thesis
  proof (cases "is_ok r1 \<and> \<not> ?lost")
    case False
    with ins e e1 Some show ?thesis by (cases r1) (auto simp: insert_pinning_def is_ok_def split: if_splits)
  next
    case True
    then have r1: "r1 = Ok ()" by (cases r1) (simp_all add: is_ok_def)
    let ?st2 = "st1\<lparr> ks_by_hash := AList.update (node_id block) block (ks_by_hash st1),
      ks_number_order := (if map_of (ks_by_number st1) (node_number block) = None then ks_number_order st1 @ [node_number block] else ks_number_order st1),
      ks_by_number := AList.update (node_number block)
        ((case map_of (ks_by_number st1) (node_number block) of None \<Rightarrow> [] | Some bs \<Rightarrow> bs) @ [block]) (ks_by_number st1),
      ks_insertion_order := ks_insertion_order st1 @ [block], ks_list_entries := ks_list_entries st1 + 1,
      ks_total_bytes := ks_total_bytes st1 + block_bytes \<rparr>"
    let ?st3 = "notify (if map_of (ks_by_hash st1) (node_id block) \<noteq> None then Replaced else Inserted) (node_id block) (node_number block) ?st2"
    have out: "st' = (case head_number of None \<Rightarrow> ?st3 | Some h \<Rightarrow> evict rs h ?st3)"
      using ins e Some r1 True unfolding insert_pinning_def Let_def by (auto simp only: option.case prod.case sum.case if_False prod.inject)
    have sub: "set (ks_insertion_order st1) \<subseteq> set (ks_insertion_order st)" using e1(1) by blast
    have "kn_ptr block \<notin> kn_ptr ` set (ks_insertion_order st1)" using fresh sub by blast
    then have i3: "store_inv rs ?st3" using insert_inv [OF _ _ Some, of st1] e1(1) r1 by simp
    have "node_id n \<noteq> node_id block" if "n \<in> set (ks_insertion_order st1)" for n
      using new sub that unfolding stored_ids_def by (metis image_eqI subsetD)
    then have "node_id block \<notin> node_id ` set (ks_insertion_order st1)" "\<forall>n\<in>set (ks_insertion_order st1). node_id n \<noteq> node_id block" by (metis image_iff)+
    then have x3: "index_exact ?st3" using e1(2) by (auto simp: index_exact_def AList.update_conv' simp del: map_of_eq_Some_iff)
    show ?thesis
    proof (cases head_number)
      case None
      then show ?thesis unfolding out using x3 by (simp only: option.case)
    next
      case (Some h)
      show ?thesis unfolding out Some option.case by (rule evict_exact [OF i3 x3])
    qed
  qed
qed

lemma store_remove_exact:
  assumes inv: "store_inv rs st" and ex: "index_exact st" and eq: "store_remove rs i st = (st', removed)"
  shows "index_exact st'"
proof (cases "map_of (ks_by_hash st) i")
  case None
  with eq ex show ?thesis by (simp add: store_remove_None)
next
  case (Some block)
  note f = store_remove_fields [OF inv Some eq]
  have b: "block \<in> set (ks_insertion_order st)" "node_id block = i" using index_exact_iff [OF inv ex] Some by blast+
  show ?thesis
  proof (rule index_exact_filter [OF ex f(2)])
    fix n
    assume n: "n \<in> set (ks_insertion_order st)" "\<not> (node_id n = i \<and> node_number n = node_number block)"
    then have "node_id n \<noteq> i" using same_id [OF ex n(1) b(1)] b(2) by auto
    then show "map_of (ks_by_hash st') (node_id n) = map_of (ks_by_hash st) (node_id n)" unfolding f(5) by (simp add: AList.delete_conv')
  qed
qed

end
