(* ===== verification/Khaos_Database.thy ===== *)
theory Khaos_Database
  imports Khaos_Index
begin

text \<open>
  The fork database as a whole: the bookkeeping of both stores in every reachable state, what a
  successful push leaves behind, and what \<open>get_branch\<close> returns.
\<close>

section \<open>Reachable states\<close>

definition khaos_inv :: "('v \<Rightarrow> usize) \<Rightarrow> 'v KhaosDatabase \<Rightarrow> bool" where
  "khaos_inv rs db \<longleftrightarrow>
     store_inv rs (kd_mini_store db) \<and> store_inv rs (kd_mini_unlinked_store db) \<and>
     (\<forall>n \<in> set (ks_insertion_order (kd_mini_store db)) \<union> set (ks_insertion_order (kd_mini_unlinked_store db)).
        kn_ptr n < kd_next db \<and> in_i64 (node_number n + 1))"

text \<open>
  The database's mutating methods, in any order and with any arguments; block heights are below
  the largest 64-bit integer, so that the height after a block's does not wrap.
\<close>

inductive khaos_reach :: "('v \<Rightarrow> usize) \<Rightarrow> 'v KhaosDatabase \<Rightarrow> bool" for rs where
  reach_new: "khaos_reach rs khaos_new"
| reach_callbacks: "khaos_reach rs stores_with_callbacks"
| reach_start: "khaos_reach rs db \<Longrightarrow> in_i64 (kb_number block + 1) \<Longrightarrow> khaos_reach rs (fst (start rs block db))"
| reach_push: "khaos_reach rs db \<Longrightarrow> in_i64 (kb_number block + 1) \<Longrightarrow> khaos_reach rs (fst (push rs block db))"
| reach_remove: "khaos_reach rs db \<Longrightarrow> khaos_reach rs (fst (remove_blk rs i db))"
| reach_set_head: "khaos_reach rs db \<Longrightarrow> khaos_reach rs (fst (set_head i db))"
| reach_pop: "khaos_reach rs db \<Longrightarrow> khaos_reach rs (fst (khaos_pop db))"
| reach_limits: "khaos_reach rs db \<Longrightarrow> khaos_reach rs (set_limits limits db)"
| reach_max_size: "khaos_reach rs db \<Longrightarrow> khaos_reach rs (set_max_size max_size db)"

lemma store_inv_updates [simp]:
  "store_inv rs (st\<lparr> ks_callback := c \<rparr>) = store_inv rs st"
  "store_inv rs (set_resource_limits n b st) = store_inv rs st"
  "store_inv rs (set_max_capacity k st) = store_inv rs st"
  by (simp_all add: store_inv_def height_index_def hash_index_def set_resource_limits_def set_max_capacity_def Let_def)

lemma limits_keep_order [simp]:
  "ks_insertion_order (set_resource_limits n b st) = ks_insertion_order st"
  "ks_insertion_order (set_max_capacity k st) = ks_insertion_order st"
  by (simp_all add: set_resource_limits_def set_max_capacity_def Let_def)

lemma khaos_inv_new: "khaos_inv rs khaos_new" "khaos_inv rs stores_with_callbacks"
  by (simp_all add: khaos_inv_def stores_with_callbacks_def with_callback_def khaos_new_def store_inv_new)
    (simp_all add: khaos_store_new_def Let_def)

lemma khaos_inv_ignores [simp]:
  "khaos_inv rs (db\<lparr> kd_head := h \<rparr>) = khaos_inv rs db"
  "khaos_inv rs (db\<lparr> kd_parents := ps \<rparr>) = khaos_inv rs db"
  by (simp_all add: khaos_inv_def)

text \<open>A fresh node, inserted into the linked or the unlinked store.\<close>

lemma khaos_inv_fresh:
  assumes "khaos_inv rs db" "node_new block db = (db1, n)"
  shows "khaos_inv rs db1" "kd_mini_store db1 = kd_mini_store db" "kd_mini_unlinked_store db1 = kd_mini_unlinked_store db"
    "kd_head db1 = kd_head db" "kn_block n = block" "kn_ptr n < kd_next db1"
    "kn_ptr n \<notin> kn_ptr ` set (ks_insertion_order (kd_mini_store db1))"
    "kn_ptr n \<notin> kn_ptr ` set (ks_insertion_order (kd_mini_unlinked_store db1))"
  using assms by (auto simp: node_new_def khaos_inv_def less_Suc_eq)

lemma khaos_inv_linked:
  assumes "khaos_inv rs db" "kn_ptr n < kd_next db" "in_i64 (node_number n + 1)" "kn_ptr n \<notin> kn_ptr ` set (ks_insertion_order (kd_mini_store db))"
    "insert_pinning rs n h pinned (kd_mini_store db) = (st, r)"
  shows "khaos_inv rs (db\<lparr> kd_mini_store := st \<rparr>)"
  using assms insert_pinning_inv [of rs "kd_mini_store db" n h pinned st r] by (auto simp: khaos_inv_def)

lemma khaos_inv_unlinked:
  assumes "khaos_inv rs db" "kn_ptr n < kd_next db" "in_i64 (node_number n + 1)" "kn_ptr n \<notin> kn_ptr ` set (ks_insertion_order (kd_mini_unlinked_store db))"
    "insert_pinning rs n h pinned (kd_mini_unlinked_store db) = (st, r)"
  shows "khaos_inv rs (db\<lparr> kd_mini_unlinked_store := st \<rparr>)"
  using assms insert_pinning_inv [of rs "kd_mini_unlinked_store db" n h pinned st r] by (auto simp: khaos_inv_def)

lemma khaos_inv_set_parent [simp]: "khaos_inv rs (set_parent n p db) = khaos_inv rs db"
  by (simp add: set_parent_def)

lemma link_push_inv:
  assumes "khaos_inv rs db" "kn_ptr n < kd_next db" "in_i64 (node_number n + 1)" "kn_ptr n \<notin> kn_ptr ` set (ks_insertion_order (kd_mini_store db))"
  shows "khaos_inv rs (fst (link_push rs n parent db))"
proof -
  obtain st r where i: "insert_pinning rs n (map_option node_number (kd_head db)) parent (kd_mini_store db) = (st, r)" by fastforce
  from khaos_inv_linked [OF assms i] i show ?thesis
    by (cases r) (auto simp: link_push_def Let_def split: option.split)
qed

lemma start_inv:
  assumes "khaos_inv rs db" "in_i64 (kb_number block + 1)"
  shows "khaos_inv rs (fst (start rs block db))"
proof -
  obtain db1 n where n: "node_new block db = (db1, n)" by fastforce
  note f = khaos_inv_fresh [OF assms(1) n]
  have h: "in_i64 (node_number n + 1)" using assms(2) f(5) by simp
  obtain st r where i: "insert_pinning rs n (Some (node_number n)) None (kd_mini_store db1) = (st, r)" by fastforce
  from khaos_inv_linked [OF f(1,6) h f(7) i] i n show ?thesis
    by (cases r) (auto simp: start_def store_insert_def)
qed

lemma push_inv:
  assumes "khaos_inv rs db" "in_i64 (kb_number block + 1)"
  shows "khaos_inv rs (fst (push rs block db))"
proof -
  obtain db1 n where n: "node_new block db = (db1, n)" by fastforce
  note f = khaos_inv_fresh [OF assms(1) n]
  have h: "in_i64 (node_number n + 1)" using assms(2) f(5) by simp
  obtain st r where i: "insert_pinning rs n (map_option node_number (kd_head db1)) None (kd_mini_unlinked_store db1) = (st, r)" by fastforce
  have "khaos_inv rs (fst (link_push rs n parent db1))" for parent by (rule link_push_inv [OF f(1,6) h f(7)])
  moreover have "khaos_inv rs (db1\<lparr> kd_mini_unlinked_store := st \<rparr>)" by (rule khaos_inv_unlinked [OF f(1,6) h f(8) i])
  ultimately show ?thesis using f(1) i n
    by (cases r) (auto simp: push_def store_insert_def split: option.split)
qed

lemma remove_blk_inv:
  assumes "khaos_inv rs db"
  shows "khaos_inv rs (fst (remove_blk rs i db))"
proof -
  obtain st r where l: "store_remove rs i (kd_mini_store db) = (st, r)" by fastforce
  obtain st' r' where u: "store_remove rs i (kd_mini_unlinked_store db) = (st', r')" by fastforce
  have "khaos_inv rs (db\<lparr> kd_mini_store := st \<rparr>)" "khaos_inv rs (db\<lparr> kd_mini_store := st, kd_mini_unlinked_store := st' \<rparr>)"
    using assms store_remove_inv [OF _ l] store_remove_inv [OF _ u] by (auto simp: khaos_inv_def)
  then show ?thesis using l u by (auto simp: remove_blk_def Let_def split: option.split)
qed

lemma khaos_reach_inv: "khaos_reach rs db \<Longrightarrow> khaos_inv rs db"
proof (induction rule: khaos_reach.induct)
  case (reach_set_head db i)
  then show ?case by (auto simp: set_head_def split: option.split)
next
  case (reach_pop db)
  then show ?case by (auto simp: khaos_pop_def split: option.split)
next
  case (reach_limits db limits)
  then show ?case by (auto simp: set_limits_def khaos_inv_def)
next
  case (reach_max_size db max_size)
  then show ?case by (auto simp: set_max_size_def set_limits_def khaos_inv_def)
qed (use khaos_inv_new start_inv push_inv remove_blk_inv in blast)+

text \<open>
  Runs in which no store is given an identifier it already holds: a block that is started, or pushed
  with its parent known or as a root, is new to the linked store, and a block without known parent is new to the
  unlinked one.
\<close>

definition unlinked_push :: "'v KhaosBlockData \<Rightarrow> 'v KhaosDatabase \<Rightarrow> bool" where
  "unlinked_push block db \<longleftrightarrow> kd_head db \<noteq> None \<and> kb_parent_id block \<noteq> Hash32_ZERO \<and> get_by_hash (kd_mini_store db) (kb_parent_id block) = None"

definition new_to_store :: "'v KhaosBlockData \<Rightarrow> 'v KhaosDatabase \<Rightarrow> bool" where
  "new_to_store block db \<longleftrightarrow> kb_id block \<notin> stored_ids (if unlinked_push block db then kd_mini_unlinked_store db else kd_mini_store db)"

inductive khaos_clean :: "('v \<Rightarrow> usize) \<Rightarrow> 'v KhaosDatabase \<Rightarrow> bool" for rs where
  clean_new: "khaos_clean rs khaos_new"
| clean_callbacks: "khaos_clean rs stores_with_callbacks"
| clean_start: "khaos_clean rs db \<Longrightarrow> in_i64 (kb_number block + 1) \<Longrightarrow> kb_id block \<notin> stored_ids (kd_mini_store db) \<Longrightarrow>
    khaos_clean rs (fst (start rs block db))"
| clean_push: "khaos_clean rs db \<Longrightarrow> in_i64 (kb_number block + 1) \<Longrightarrow> new_to_store block db \<Longrightarrow> khaos_clean rs (fst (push rs block db))"
| clean_remove: "khaos_clean rs db \<Longrightarrow> khaos_clean rs (fst (remove_blk rs i db))"
| clean_set_head: "khaos_clean rs db \<Longrightarrow> khaos_clean rs (fst (set_head i db))"
| clean_pop: "khaos_clean rs db \<Longrightarrow> khaos_clean rs (fst (khaos_pop db))"
| clean_limits: "khaos_clean rs db \<Longrightarrow> khaos_clean rs (set_limits limits db)"
| clean_max_size: "khaos_clean rs db \<Longrightarrow> khaos_clean rs (set_max_size max_size db)"

lemma clean_reach: "khaos_clean rs db \<Longrightarrow> khaos_reach rs db"
  by (induction rule: khaos_clean.induct) (auto intro: khaos_reach.intros)

definition both_exact :: "'v KhaosDatabase \<Rightarrow> bool" where
  "both_exact db \<longleftrightarrow> index_exact (kd_mini_store db) \<and> index_exact (kd_mini_unlinked_store db)"

lemma both_exact_ignores [simp]:
  "both_exact (db\<lparr> kd_head := h \<rparr>) = both_exact db" "both_exact (set_parent n p db) = both_exact db"
  by (simp_all add: both_exact_def set_parent_def)

lemma index_exact_updates [simp]:
  "index_exact (st\<lparr> ks_callback := c \<rparr>) = index_exact st" "index_exact (set_resource_limits n b st) = index_exact st"
  "index_exact (set_max_capacity k st) = index_exact st"
  by (simp_all add: index_exact_def set_resource_limits_def set_max_capacity_def Let_def)

lemma link_push_exact:
  assumes "khaos_inv rs db" "both_exact db" "kn_ptr n \<notin> kn_ptr ` set (ks_insertion_order (kd_mini_store db))" "node_id n \<notin> stored_ids (kd_mini_store db)"
  shows "both_exact (fst (link_push rs n parent db))"
proof -
  obtain st r where i: "insert_pinning rs n (map_option node_number (kd_head db)) parent (kd_mini_store db) = (st, r)" by fastforce
  have "index_exact st" using insert_pinning_exact [OF _ _ assms(3,4) i] assms(1,2) by (simp add: khaos_inv_def both_exact_def)
  then show ?thesis using i assms(2) by (cases r) (auto simp: link_push_def Let_def both_exact_def set_parent_def split: option.split)
qed

lemma start_exact:
  assumes "khaos_inv rs db" "both_exact db" "kb_id block \<notin> stored_ids (kd_mini_store db)"
  shows "both_exact (fst (start rs block db))"
proof -
  obtain db1 n where n: "node_new block db = (db1, n)" by fastforce
  note f = khaos_inv_fresh [OF assms(1) n]
  obtain st r where i: "insert_pinning rs n (Some (node_number n)) None (kd_mini_store db1) = (st, r)" by fastforce
  have "index_exact st" using insert_pinning_exact [OF _ _ f(7) _ i] f assms by (simp add: khaos_inv_def both_exact_def)
  then show ?thesis using i n f assms(2) by (cases r) (auto simp: start_def store_insert_def both_exact_def)
qed

lemma push_exact:
  assumes "khaos_inv rs db" "both_exact db" "new_to_store block db"
  shows "both_exact (fst (push rs block db))"
proof -
  obtain db1 n where n: "node_new block db = (db1, n)" by fastforce
  note f = khaos_inv_fresh [OF assms(1) n]
  have ex: "both_exact db1" using assms(2) f by (simp add: both_exact_def)
  obtain st r where i: "insert_pinning rs n (map_option node_number (kd_head db1)) None (kd_mini_unlinked_store db1) = (st, r)" by fastforce
  have link: "both_exact (fst (link_push rs n parent db1))" if "\<not> unlinked_push block db" for parent
    using link_push_exact [OF f(1) ex f(7)] that assms(3) f by (simp add: new_to_store_def)
  have "index_exact st" if "unlinked_push block db"
    using insert_pinning_exact [OF _ _ f(8) _ i] that f ex assms(3) by (simp add: khaos_inv_def both_exact_def new_to_store_def)
  then show ?thesis using link f i n ex
    by (cases r) (auto simp: push_def store_insert_def unlinked_push_def both_exact_def from_overlaid_hash_def split: option.split)
qed

lemma remove_blk_exact:
  assumes "khaos_inv rs db" "both_exact db"
  shows "both_exact (fst (remove_blk rs i db))"
proof -
  obtain st r where l: "store_remove rs i (kd_mini_store db) = (st, r)" by fastforce
  obtain st' r' where u: "store_remove rs i (kd_mini_unlinked_store db) = (st', r')" by fastforce
  have "index_exact st" "index_exact st'" using assms store_remove_exact [OF _ _ l] store_remove_exact [OF _ _ u] by (auto simp: khaos_inv_def both_exact_def)
  then show ?thesis using l u assms(2) by (auto simp: remove_blk_def Let_def both_exact_def split: option.split)
qed

lemma both_exact_new: "both_exact khaos_new" "both_exact stores_with_callbacks"
  by (simp_all add: both_exact_def stores_with_callbacks_def khaos_new_def with_callback_def)
    (simp_all add: khaos_store_new_def index_exact_def Let_def)

lemma clean_exact: "khaos_clean rs db \<Longrightarrow> both_exact db"
proof (induction rule: khaos_clean.induct)
  case (clean_set_head db i)
  then show ?case by (auto simp: set_head_def split: option.split)
next
  case (clean_pop db)
  then show ?case by (auto simp: khaos_pop_def split: option.split)
next
  case (clean_limits db limits)
  then show ?case by (auto simp: set_limits_def both_exact_def)
next
  case (clean_max_size db max_size)
  then show ?case by (auto simp: set_max_size_def set_limits_def both_exact_def)
qed (simp_all add: start_exact push_exact remove_blk_exact khaos_reach_inv clean_reach both_exact_new)

text \<open>
  C18: In every state the fork database can reach (heights below the largest 64-bit integer), the height index of each
  store is the insertion list split by height, the entry and byte counters are its exact length and
  byte sum (no saturation is ever hit), and the identifier index points only at blocks of that list with that
  identifier. When no store was ever given an identifier it already held, the identifier index is exact: it finds
  a block exactly when the list has it, and it has as many entries as the store counts.
\<close>

theorem khaos_bookkeeping:
  assumes "khaos_reach rs db" "st = kd_mini_store db \<or> st = kd_mini_unlinked_store db"
  shows "(\<forall>number. map_of (ks_by_number st) number =
      (if at_height number (ks_insertion_order st) = [] then None else Some (at_height number (ks_insertion_order st)))) \<and>
    distinct (ks_number_order st) \<and> set (ks_number_order st) = node_number ` set (ks_insertion_order st) \<and>
    ks_list_entries st = length (ks_insertion_order st) \<and> ks_total_bytes st = byte_sum rs (ks_insertion_order st) \<and> ks_total_bytes st \<le> usize_max \<and>
    (\<forall>i n. get_by_hash st i = Some n \<longrightarrow> n \<in> set (ks_insertion_order st) \<and> node_id n = i) \<and>
    (khaos_clean rs db \<longrightarrow>
      (\<forall>i n. get_by_hash st i = Some n \<longleftrightarrow> n \<in> set (ks_insertion_order st) \<and> node_id n = i) \<and> store_size st = ks_list_entries st)"
proof -
  have inv: "store_inv rs st" using khaos_reach_inv [OF assms(1)] assms(2) by (auto simp: khaos_inv_def)
  have ex: "index_exact st" if "khaos_clean rs db" using clean_exact [OF that] assms(2) by (auto simp: both_exact_def)
  have hi: "height_index st" using inv by (simp add: store_inv_def)
  have "set (ks_number_order st) = node_number ` set (ks_insertion_order st)"
    using number_order_dom [OF hi] by (auto simp: at_height_def filter_empty_conv)
  moreover have "(\<forall>i n. get_by_hash st i = Some n \<longleftrightarrow> n \<in> set (ks_insertion_order st) \<and> node_id n = i) \<and> store_size st = ks_list_entries st" if "khaos_clean rs db"
    using index_exact_iff [OF inv ex [OF that]] index_exact_size [OF inv ex [OF that]] by (simp add: get_by_hash_def del: map_of_eq_Some_iff)
  moreover have "\<forall>i n. get_by_hash st i = Some n \<longrightarrow> n \<in> set (ks_insertion_order st) \<and> node_id n = i"
    using inv by (auto simp: store_inv_def hash_index_def get_by_hash_def simp del: map_of_eq_Some_iff)
  ultimately show ?thesis using inv hi unfolding store_inv_def height_index_def by blast
qed

text \<open>Two blocks at one height, the second a fork of the first, under one parent.\<close>

definition sample_block :: "nat \<Rightarrow> nat \<Rightarrow> i64 \<Rightarrow> bytes KhaosBlockData" where
  "sample_block i p number = \<lparr> kb_id = replicate 32 (of_nat i), kb_parent_id = replicate 32 (of_nat p), kb_number = number, kb_value = [] \<rparr>"

definition sample_store :: "bytes KhaosNode list \<Rightarrow> bytes KhaosStore" where
  "sample_store ns = \<lparr> ks_by_hash = map (\<lambda>n. (node_id n, n)) ns, ks_by_number = [(1, [hd ns]), (2, tl ns)], ks_number_order = [1, 2],
     ks_insertion_order = ns, ks_list_entries = length ns, ks_total_bytes = 72 * length ns, ks_max_capacity = 1024,
     ks_max_entries = 1024, ks_max_bytes = 2048073728, ks_callback = False, ks_events = [] \<rparr>"

definition sample_started :: "bytes KhaosDatabase" where
  "sample_started = fst (start length (sample_block 1 0 1) khaos_new)"

definition sample_pushed :: "bytes KhaosDatabase" where
  "sample_pushed = fst (push length (sample_block 2 1 2) sample_started)"

definition sample_database :: "bytes KhaosDatabase" where
  "sample_database = fst (push length (sample_block 3 1 2) sample_pushed)"

lemma sample_reach: "khaos_reach length sample_database"
  by (simp add: sample_database_def sample_pushed_def sample_started_def reach_new reach_start reach_push sample_block_def in_i64_def)

lemmas sample_eval = start_def push_def link_push_def node_new_def store_insert_def insert_pinning_def
  evict_for_resource_limit_def check_resource_limit_def fits_def evict_def Let_def khaos_new_def accounted_bytes_def
  usize_checked_add_def i64_saturating_sub_def get_by_hash_def notify_def set_parent_def from_overlaid_hash_def ptr_eq_def

lemma sample_wrap [simp]: "wrap_i64 2 = 2"
  by (simp add: wrap_i64_def)

lemma sample_limits: "from_capacity DEFAULT_KHAOS_CAPACITY = \<lparr> kl_max_list_entries = 1024, kl_max_total_bytes = 2048073728,
    kl_max_orphan_entries = 1024, kl_max_orphan_bytes = 2048073728 \<rparr>"
  by (simp add: from_capacity_def for_block_policy_def usize_saturating_add_def usize_saturating_mul_def
      DEFAULT_KHAOS_CAPACITY_def DEFAULT_MAX_BLOCK_BYTES_def KHAOS_BLOCK_OVERHEAD_def Let_def)

definition sample_node :: "nat \<Rightarrow> bytes KhaosNode" where
  "sample_node k = \<lparr> kn_ptr = k, kn_block = sample_block (k + 1) (if k = 0 then 0 else 1) (if k = 0 then 1 else 2) \<rparr>"

lemma sample_ids [simp]: "node_id (sample_node k) = replicate 32 (of_nat (k + 1))"
  "node_number (sample_node k) = (if k = 0 then 1 else 2)" "kn_ptr (sample_node k) = k"
  by (simp_all add: sample_node_def sample_block_def)

lemma sample_started_eq: "sample_started = \<lparr> kd_head = Some (sample_node 0),
    kd_mini_store = (sample_store [sample_node 0])\<lparr> ks_by_number := [(1, [sample_node 0])], ks_number_order := [1] \<rparr>,
    kd_mini_unlinked_store = khaos_store_new, kd_parents = [], kd_next = 1 \<rparr>"
proof -
  let ?st = "\<lparr> ks_by_hash = [], ks_by_number = [], ks_number_order = [], ks_insertion_order = [], ks_list_entries = 0,
      ks_total_bytes = 0, ks_max_capacity = 1024, ks_max_entries = 1024, ks_max_bytes = 2048073728, ks_callback = False, ks_events = [] \<rparr> :: bytes KhaosStore"
  have st: "(khaos_store_new :: bytes KhaosStore) = ?st"
    unfolding khaos_store_new_def Let_def sample_limits by (simp add: DEFAULT_KHAOS_CAPACITY_def)
  have n: "node_new (sample_block 1 0 1) khaos_new = (khaos_new\<lparr> kd_next := 1 \<rparr>, sample_node 0)"
    by (simp add: node_new_def khaos_new_def sample_node_def)
  have "accounted_bytes length (sample_node 0) = Some 72"
    by (simp add: accounted_bytes_def KHAOS_BLOCK_OVERHEAD_def sample_node_def sample_block_def usize_checked_add_def)
  moreover have ev: "evict_for_resource_limit length 72 None ?st = (?st, Ok ())"
    by (simp add: evict_for_resource_limit_def check_resource_limit_def fits_def usize_checked_add_def)
  ultimately have "store_insert length (sample_node 0) (Some 1) ?st =
      ((sample_store [sample_node 0])\<lparr> ks_by_number := [(1, [sample_node 0])], ks_number_order := [1] \<rparr>, Ok ())"
    unfolding store_insert_def insert_pinning_def
    by (simp add: Let_def) (simp add: notify_def evict_def Let_def i64_saturating_sub_def sample_store_def)
  then show ?thesis
    unfolding sample_started_def start_def n by (simp add: khaos_new_def st)
qed

lemma sample_pushed_eq: "sample_pushed = \<lparr> kd_head = Some (sample_node 1), kd_mini_store = sample_store [sample_node 0, sample_node 1],
    kd_mini_unlinked_store = khaos_store_new, kd_parents = [(1, 0)], kd_next = 2 \<rparr>"
  unfolding sample_pushed_def sample_started_eq push_def
  by (simp add: Hash32_ZERO_def sample_eval sample_block_def sample_store_def KHAOS_BLOCK_OVERHEAD_def)
    (simp add: sample_node_def sample_block_def)

lemma sample_database_eq: "sample_database = \<lparr> kd_head = Some (sample_node 1),
    kd_mini_store = sample_store [sample_node 0, sample_node 1, sample_node 2],
    kd_mini_unlinked_store = khaos_store_new, kd_parents = [(1, 0), (2, 0)], kd_next = 3 \<rparr>"
  unfolding sample_database_def sample_pushed_eq push_def
  by (simp add: Hash32_ZERO_def sample_eval sample_block_def sample_store_def KHAOS_BLOCK_OVERHEAD_def)
    (simp add: sample_node_def sample_block_def)

lemma sample_numbers: "map node_number (ks_insertion_order (kd_mini_store sample_database)) = [1, 2, 2]"
  by (simp add: sample_database_eq sample_store_def)

lemma sample_clean: "khaos_clean length sample_database"
proof -
  have "khaos_clean length sample_started" unfolding sample_started_def
    by (rule clean_start [OF clean_new]) (simp_all add: sample_block_def in_i64_def stored_ids_def khaos_new_def khaos_store_new_def Let_def)
  then have "khaos_clean length sample_pushed" unfolding sample_pushed_def
    by (rule clean_push) (simp_all add: sample_started_eq sample_block_def in_i64_def new_to_store_def stored_ids_def sample_store_def unlinked_push_def get_by_hash_def Hash32_ZERO_def)
  then show ?thesis unfolding sample_database_def
    by (rule clean_push) (simp_all add: sample_pushed_eq sample_block_def in_i64_def new_to_store_def stored_ids_def sample_store_def unlinked_push_def get_by_hash_def Hash32_ZERO_def)
qed

theorem khaos_bookkeeping_witness:
  "store_size (kd_mini_store sample_database) = ks_list_entries (kd_mini_store sample_database) \<and>
   get_by_hash (kd_mini_store sample_database) (node_id (sample_node 2)) = Some (sample_node 2)"
proof -
  have "sample_node 2 \<in> set (ks_insertion_order (kd_mini_store sample_database))" by (simp add: sample_database_eq sample_store_def)
  then show ?thesis using khaos_bookkeeping [OF sample_reach, of "kd_mini_store sample_database"] sample_clean by blast
qed

section \<open>What an insertion keeps\<close>

text \<open>Neither kind of eviction loses the identifier of a block it spares.\<close>

lemma evict_entries_keep:
  assumes "store_inv rs st" "set vs \<subseteq> set (ks_insertion_order st)" "distinct (map kn_ptr vs)"
    "map_of (ks_by_hash st) (node_id p) = Some p" "\<forall>v \<in> set vs. \<not> ptr_eq v p"
  shows "map_of (ks_by_hash (fold (evict_entry rs) vs st)) (node_id p) = Some p"
  using assms
proof (induction vs arbitrary: st)
  case (Cons v vs)
  let ?st = "evict_entry rs v st"
  have v: "v \<in> set (ks_insertion_order st)" using Cons.prems by simp
  note f = evict_entry_fields [OF Cons.prems(1) v]
  have "set vs \<subseteq> set (ks_insertion_order ?st)"
    using Cons.prems(2,3) unfolding f(1) by (auto simp: ptr_eq_def rev_image_eqI)
  moreover have "map_of (ks_by_hash ?st) (node_id p) = Some p"
    using Cons.prems(4,5) unfolding f(6)
    by (cases "node_id v = node_id p") (auto simp: AList.delete_conv' ptr_eq_def simp del: map_of_eq_Some_iff split: option.split)
  ultimately show ?case using Cons.IH [OF evict_entry_inv [OF Cons.prems(1) v]] Cons.prems by simp
qed simp

lemma select_victims_spare: "v \<in> set (select_victims rs st incoming pinned cs n b) \<Longrightarrow> \<not> is_pinned pinned v"
  by (induction cs arbitrary: n b) (auto split: if_splits)

text \<open>So the parent pinned by an insertion survives it, and a refused insertion changes nothing.\<close>

lemma insert_pinning_Err:
  assumes inv: "store_inv rs st" and ins: "insert_pinning rs block h pinned st = (st', Err e)"
    and pin: "\<And>p. pinned = Some p \<Longrightarrow> map_of (ks_by_hash st) (node_id p) = Some p"
  shows "st' = st \<and> e = ResourceLimit (ks_max_bytes st)"
proof (cases "accounted_bytes rs block")
  case None
  with ins show ?thesis by (auto simp: insert_pinning_def)
next
  case (Some block_bytes)
  show ?thesis
  proof (cases "check_resource_limit rs block_bytes pinned st")
    case (Inl x)
    then have "x = ResourceLimit (ks_max_bytes st)" by (auto simp: check_resource_limit_def split: if_splits)
    with Inl Some ins show ?thesis by (auto simp: insert_pinning_def evict_for_resource_limit_def)
  next
    case (Inr u)
    let ?vs = "select_victims rs st block_bytes pinned (ks_insertion_order st) (ks_list_entries st) (ks_total_bytes st)"
    have d: "distinct (map kn_ptr (ks_insertion_order st))" using inv by (simp add: store_inv_def)
    have "map_of (ks_by_hash (fold (evict_entry rs) ?vs st)) (node_id p) = Some p" if "pinned = Some p" for p
      using evict_entries_keep [OF inv select_victims_sub select_victims_distinct [OF d] pin [OF that]] select_victims_spare that
      by (metis is_pinned_def option.simps(5))
    with Some Inr ins show ?thesis
      by (auto simp: insert_pinning_def evict_for_resource_limit_def Let_def ptr_eq_def split: option.splits if_splits)
  qed
qed

lemma evict_keeps:
  assumes "store_inv rs st" "map_of (ks_by_hash st) i = Some n"
    "\<forall>m \<in> set (ks_insertion_order st). node_id m = i \<longrightarrow> max 0 (i64_saturating_sub h (ks_max_capacity st)) \<le> node_number m"
  shows "map_of (ks_by_hash (evict rs h st)) i = Some n"
proof -
  have keep: "map_of (ks_by_hash (fold (evict_number_bucket rs) ns st)) i = Some n"
    if "store_inv rs st" "map_of (ks_by_hash st) i = Some n" "\<forall>m \<in> set (ks_insertion_order st). node_id m = i \<longrightarrow> node_number m \<notin> set ns"
    for ns and st :: "'a KhaosStore"
    using that
  proof (induction ns arbitrary: st)
    case (Cons number ns)
    note b = evict_number_bucket_inv [OF Cons.prems(1), of number]
    have "map_of (ks_by_hash (evict_number_bucket rs number st)) i = Some n"
    proof (cases "map_of (ks_by_number st) number")
      case None
      with Cons.prems(2) show ?thesis by (simp add: evict_number_bucket_def)
    next
      case (Some bs)
      then have "bs = at_height number (ks_insertion_order st)"
        using Cons.prems(1) by (auto simp: store_inv_def height_index_def split: if_splits)
      then have "i \<notin> node_id ` set bs" using Cons.prems(3) by (auto simp: at_height_def)
      with Some Cons.prems(2) show ?thesis by (simp add: evict_number_bucket_def evict_blocks_fields(4) drop_number_def)
    qed
    moreover have "\<forall>m \<in> set (ks_insertion_order (evict_number_bucket rs number st)). node_id m = i \<longrightarrow> node_number m \<notin> set ns"
      using b Cons.prems(3) by auto
    ultimately show ?case using Cons.IH b by simp
  qed simp
  show ?thesis unfolding evict_def Let_def by (rule keep) (use assms in \<open>fastforce+\<close>)
qed

lemma insert_pinning_keeps:
  assumes inv: "store_inv rs st" and fresh: "kn_ptr block \<notin> kn_ptr ` set (ks_insertion_order st)"
    and ins: "insert_pinning rs block h pinned st = (st', Ok u)"
    and unseen: "node_id block \<notin> node_id ` set (ks_insertion_order st)"
    and young: "\<And>head. h = Some head \<Longrightarrow> max 0 (i64_saturating_sub head (ks_max_capacity st)) \<le> node_number block"
  shows "map_of (ks_by_hash st') (node_id block) = Some block"
proof -
  obtain block_bytes where ab: "accounted_bytes rs block = Some block_bytes" using ins by (cases "accounted_bytes rs block") (auto simp: insert_pinning_def)
  obtain st1 r1 where e: "evict_for_resource_limit rs block_bytes pinned st = (st1, r1)" by fastforce
  note e1 = evict_for_resource_limit_inv [OF inv e]
  obtain v where r1: "r1 = Ok v" using ins ab e by (cases r1) (auto simp: insert_pinning_def)
  let ?st2 = "st1\<lparr> ks_by_hash := AList.update (node_id block) block (ks_by_hash st1),
    ks_number_order := (if map_of (ks_by_number st1) (node_number block) = None then ks_number_order st1 @ [node_number block] else ks_number_order st1),
    ks_by_number := AList.update (node_number block)
      ((case map_of (ks_by_number st1) (node_number block) of None \<Rightarrow> [] | Some bs \<Rightarrow> bs) @ [block]) (ks_by_number st1),
    ks_insertion_order := ks_insertion_order st1 @ [block], ks_list_entries := ks_list_entries st1 + 1,
    ks_total_bytes := ks_total_bytes st1 + block_bytes \<rparr>"
  let ?st3 = "notify (if map_of (ks_by_hash st1) (node_id block) \<noteq> None then Replaced else Inserted) (node_id block) (node_number block) ?st2"
  have out: "st' = (case h of None \<Rightarrow> ?st3 | Some h \<Rightarrow> evict rs h ?st3)"
    using ins unfolding insert_pinning_def ab option.case e r1 prod.case sum.case Let_def by (auto split: if_splits)
  have "store_inv rs ?st2"
    by (rule insert_inv [OF _ _ ab]) (use e1 r1 fresh in auto)
  then have i3: "store_inv rs ?st3" by simp
  have m3: "map_of (ks_by_hash ?st3) (node_id block) = Some block" by (simp add: AList.update_conv')
  show ?thesis
  proof (cases h)
    case None
    with out m3 show ?thesis by simp
  next
    case (Some head)
    have "node_id block \<notin> node_id ` set (ks_insertion_order st1)" using unseen e1 by blast
    then have "\<forall>m \<in> set (ks_insertion_order ?st3). node_id m = node_id block \<longrightarrow> m = block" by (auto simp: rev_image_eqI)
    moreover have "ks_max_capacity ?st3 = ks_max_capacity st" using e1 by (simp add: same_limits_def)
    ultimately have "map_of (ks_by_hash (evict rs head ?st3)) (node_id block) = Some block"
      using young [OF Some] by (intro evict_keeps [OF i3 m3]) metis
    with out Some show ?thesis by simp
  qed
qed

section \<open>Pushing\<close>

text \<open>A push that does not fail went through the linked store.\<close>

lemma hash_height: "khaos_inv rs db \<Longrightarrow> get_by_hash (kd_mini_store db) i = Some p \<Longrightarrow> in_i64 (node_number p + 1)"
  by (auto simp: khaos_inv_def store_inv_def hash_index_def get_by_hash_def simp del: map_of_eq_Some_iff)

lemma push_Ok_link:
  assumes "khaos_inv rs db" "push rs block db = (db', Ok head)" "node_new block db = (db1, n)"
  obtains parent where "link_push rs n parent db1 = (db', Ok head)"
    "parent = None \<and> (kd_head db = None \<or> kb_parent_id block = Hash32_ZERO) \<or>
     (\<exists>p. parent = Some p \<and> get_by_hash (kd_mini_store db) (kb_parent_id block) = Some p \<and> kb_number block = node_number p + 1)"
proof -
  have n: "kn_block n = block" "kd_head db1 = kd_head db" "kd_mini_store db1 = kd_mini_store db" using assms(3) by (auto simp: node_new_def)
  show thesis
  proof (cases "kd_head db \<noteq> None \<and> kb_parent_id block \<noteq> Hash32_ZERO")
    case False
    with assms(2,3) n have "link_push rs n None db1 = (db', Ok head)" by (auto simp: push_def)
    with False show thesis by (intro that [of None]) auto
  next
    case True
    with assms(2,3) n obtain p where p: "get_by_hash (kd_mini_store db) (kb_parent_id block) = Some p" "kb_number block = wrap_i64 (node_number p + 1)"
      "link_push rs n (Some p) db1 = (db', Ok head)"
      by (auto simp: push_def from_overlaid_hash_def split: option.splits if_splits sum.splits prod.splits)
    moreover have "kb_number block = node_number p + 1" using hash_height [OF assms(1) p(1)] p(2) by simp
    ultimately show thesis using that [of "Some p"] by blast
  qed
qed

lemma push_Err_cases:
  assumes "push rs block db = (db', Err e)" "node_new block db = (db1, n)"
    "store_insert rs n (map_option node_number (kd_head db1)) (kd_mini_unlinked_store db1) = (st, r)"
  obtains (root) "link_push rs n None db1 = (db', Err e)"
    | (child) p where "get_by_hash (kd_mini_store db) (kb_parent_id block) = Some p" "link_push rs n (Some p) db1 = (db', Err e)"
    | (bad) p where "get_by_hash (kd_mini_store db) (kb_parent_id block) = Some p" "db' = db1"
        "e = BadNumber (node_number p) (kb_number block)" "kb_number block \<noteq> wrap_i64 (node_number p + 1)"
    | (orphan) "get_by_hash (kd_mini_store db) (kb_parent_id block) = None" "db' = db1\<lparr> kd_mini_unlinked_store := st \<rparr>"
        "r = Err e \<or> (\<exists>v. r = Ok v) \<and> e = UnlinkedBlock (kb_id block) (kb_parent_id block)"
proof -
  have f: "kd_mini_store db1 = kd_mini_store db" "kd_head db1 = kd_head db" "kn_block n = block" using assms(2) by (auto simp: node_new_def)
  note n = assms(2) and u = assms(3)
  have eq: "push rs block db =
    (if kd_head db \<noteq> None \<and> kb_parent_id block \<noteq> Hash32_ZERO then
       (case get_by_hash (kd_mini_store db) (kb_parent_id block) of
          Some p \<Rightarrow> if kb_number block \<noteq> wrap_i64 (node_number p + 1) then (db1, Err (BadNumber (node_number p) (kb_number block)))
                    else link_push rs n (Some p) db1
        | None \<Rightarrow> (db1\<lparr> kd_mini_unlinked_store := st \<rparr>,
            case r of Err x \<Rightarrow> Err x | Ok _ \<Rightarrow> Err (UnlinkedBlock (kb_id block) (kb_parent_id block))))
     else link_push rs n None db1)"
    unfolding push_def n prod.case f(1,2,3) from_overlaid_hash_def using u f(2) by (cases r) (simp_all split: option.split)
  show thesis
  proof (cases "kd_head db \<noteq> None \<and> kb_parent_id block \<noteq> Hash32_ZERO")
    case True
    show thesis
    proof (cases "get_by_hash (kd_mini_store db) (kb_parent_id block)")
      case None
      then show thesis using assms(1) True orphan unfolding eq by (cases r) auto
    next
      case (Some p)
      then show thesis using assms(1) True bad [OF Some] child [OF Some] unfolding eq
        by (cases "kb_number block = wrap_i64 (node_number p + 1)") auto
    qed
  next
    case False
    then show thesis using assms(1) root unfolding eq if_not_P [OF False] by blast
  qed
qed

lemma sample_push_ok: "push length (sample_block 3 1 2) sample_pushed = (sample_database, Ok (sample_block 2 1 2))"
  unfolding sample_database_eq sample_pushed_eq push_def
  by (simp add: Hash32_ZERO_def sample_eval sample_block_def sample_store_def KHAOS_BLOCK_OVERHEAD_def)
    (simp add: sample_node_def sample_block_def)

lemma sample_push_bad: "push length (sample_block 9 1 5) sample_database = (sample_database\<lparr> kd_next := 4 \<rparr>, Err (BadNumber 1 5))"
  unfolding sample_database_eq push_def
  by (simp add: Hash32_ZERO_def node_new_def sample_block_def sample_store_def get_by_hash_def from_overlaid_hash_def)

text \<open>
  C24: A push that succeeds in a reachable state leaves the linked store within its entry and
  byte limits and moves the head to the pushed block exactly when that block is higher than the old
  head. Unless there was no head or the block names the zero parent, its parent was found in the linked store one height
  below. When moreover no block of the linked store has the new identifier and the block is not below
  the height cutoff of the old head, the block can be retrieved afterwards.
\<close>

theorem push_effect:
  assumes "khaos_reach rs db" "push rs block db = (db', Ok head)"
  shows "ks_list_entries (kd_mini_store db') \<le> ks_max_entries (kd_mini_store db') \<and>
    ks_total_bytes (kd_mini_store db') \<le> ks_max_bytes (kd_mini_store db') \<and>
    get_head db' = Some head \<and>
    head = (case get_head db of None \<Rightarrow> block | Some h \<Rightarrow> if kb_number block > kb_number h then block else h) \<and>
    (kd_head db = None \<or> kb_parent_id block = Hash32_ZERO \<or>
      (\<exists>p. get_by_hash (kd_mini_store db) (kb_parent_id block) = Some p \<and> kb_number block = node_number p + 1)) \<and>
    (kb_id block \<notin> node_id ` set (ks_insertion_order (kd_mini_store db)) \<and>
     (\<forall>h. get_head db = Some h \<longrightarrow> max 0 (i64_saturating_sub (kb_number h) (ks_max_capacity (kd_mini_store db))) \<le> kb_number block) \<longrightarrow>
     get_block db' (kb_id block) = Some block)"
proof -
  obtain db1 n where n: "node_new block db = (db1, n)" by fastforce
  have inv: "khaos_inv rs db" using assms(1) by (rule khaos_reach_inv)
  note f = khaos_inv_fresh [OF inv n]
  obtain parent where link: "link_push rs n parent db1 = (db', Ok head)"
    and par: "parent = None \<and> (kd_head db = None \<or> kb_parent_id block = Hash32_ZERO) \<or>
      (\<exists>p. parent = Some p \<and> get_by_hash (kd_mini_store db) (kb_parent_id block) = Some p \<and> kb_number block = node_number p + 1)"
    using push_Ok_link [OF inv assms(2) n] by metis
  obtain st r where i: "insert_pinning rs n (map_option node_number (kd_head db1)) parent (kd_mini_store db1) = (st, r)" by fastforce
  have r: "r = Ok ()" using link i by (cases r) (auto simp: link_push_def)
  have db': "kd_mini_store db' = st" "get_head db' = Some head"
    "head = (case get_head db of None \<Rightarrow> block | Some h \<Rightarrow> if kb_number block > kb_number h then block else h)"
    using link i r f by (auto simp: link_push_def Let_def get_head_def set_parent_def split: option.splits)
  have "store_inv rs (kd_mini_store db1)" using f(1) by (simp add: khaos_inv_def)
  note ins = insert_pinning_inv [OF this f(7) i] insert_pinning_keeps [OF this f(7) i [unfolded r]]
  have "ks_list_entries st \<le> ks_max_entries st \<and> ks_total_bytes st \<le> ks_max_bytes st" using ins(1) r by simp
  moreover have "get_block db' (kb_id block) = Some block"
    if "kb_id block \<notin> node_id ` set (ks_insertion_order (kd_mini_store db))"
      "\<forall>h. get_head db = Some h \<longrightarrow> max 0 (i64_saturating_sub (kb_number h) (ks_max_capacity (kd_mini_store db))) \<le> kb_number block"
  proof -
    have "map_of (ks_by_hash st) (kb_id block) = Some n" using ins(2) that f by (auto simp: get_head_def)
    then show ?thesis using db' f by (simp add: get_block_def retained_node_def get_by_hash_def)
  qed
  moreover have "kd_head db = None \<or> kb_parent_id block = Hash32_ZERO \<or>
      (\<exists>p. get_by_hash (kd_mini_store db) (kb_parent_id block) = Some p \<and> kb_number block = node_number p + 1)" using par by blast
  ultimately show ?thesis using db' by blast
qed

lemma sample_pushed_reach: "khaos_reach length sample_pushed"
  by (simp add: sample_pushed_def sample_started_def reach_new reach_start reach_push sample_block_def in_i64_def)

theorem push_effect_witness:
  "push length (sample_block 3 1 2) sample_pushed = (sample_database, Ok (sample_block 2 1 2)) \<and>
   ks_total_bytes (kd_mini_store sample_database) \<le> ks_max_bytes (kd_mini_store sample_database) \<and>
   get_head sample_database = Some (sample_block 2 1 2)"
  using push_effect [OF sample_pushed_reach sample_push_ok] sample_push_ok by blast

text \<open>
  A refused push is harmless: whatever the error, the head and the linked store are
  untouched; a block with a bad height leaves the unlinked store untouched too, and only a block
  whose parent is unknown is reported as unlinked.
\<close>

theorem push_failure_atomic:
  assumes "khaos_reach rs db" "push rs block db = (db', Err e)"
  shows "kd_head db' = kd_head db \<and> kd_mini_store db' = kd_mini_store db \<and>
    (kd_mini_unlinked_store db' = kd_mini_unlinked_store db \<or> e = UnlinkedBlock (kb_id block) (kb_parent_id block)) \<and>
    (case e of
       UnlinkedBlock _ _ \<Rightarrow> get_by_hash (kd_mini_store db) (kb_parent_id block) = None
     | BadNumber expected found \<Rightarrow> (\<exists>p. get_by_hash (kd_mini_store db) (kb_parent_id block) = Some p \<and>
         expected = node_number p \<and> found = kb_number block \<and> found \<noteq> expected + 1)
     | ResourceLimit m \<Rightarrow> m = ks_max_bytes (kd_mini_store db) \<or> m = ks_max_bytes (kd_mini_unlinked_store db)
     | _ \<Rightarrow> False)"
proof -
  obtain db1 n where n: "node_new block db = (db1, n)" by fastforce
  have inv: "khaos_inv rs db" using assms(1) by (rule khaos_reach_inv)
  note f = khaos_inv_fresh [OF inv n]
  have s: "store_inv rs (kd_mini_store db1)" "store_inv rs (kd_mini_unlinked_store db1)" using f(1) by (simp_all add: khaos_inv_def)
  have linked: "db' = db1 \<and> e = ResourceLimit (ks_max_bytes (kd_mini_store db))"
    if l: "link_push rs n parent db1 = (db', Err e)" and p: "\<And>p. parent = Some p \<Longrightarrow> map_of (ks_by_hash (kd_mini_store db1)) (node_id p) = Some p"
    for parent
  proof -
    obtain st r where i: "insert_pinning rs n (map_option node_number (kd_head db1)) parent (kd_mini_store db1) = (st, r)" by fastforce
    with l have r: "r = Err e" "db' = db1\<lparr> kd_mini_store := st \<rparr>" by (cases r; auto simp: link_push_def Let_def)+
    from insert_pinning_Err [OF s(1) i [unfolded r(1)] p] r(2) f(2) show ?thesis by simp
  qed
  have hi: "map_of (ks_by_hash (kd_mini_store db1)) (node_id p) = Some p" if "get_by_hash (kd_mini_store db1) i = Some p" for i p
    using that s(1) by (auto simp: get_by_hash_def store_inv_def hash_index_def simp del: map_of_eq_Some_iff)
  obtain st r where u: "store_insert rs n (map_option node_number (kd_head db1)) (kd_mini_unlinked_store db1) = (st, r)" by fastforce
  have ue: "st = kd_mini_unlinked_store db1 \<and> x = ResourceLimit (ks_max_bytes (kd_mini_unlinked_store db1))" if "r = Err x" for x
    using insert_pinning_Err [OF s(2) u [unfolded store_insert_def that]] by simp
  show ?thesis
  proof (cases rule: push_Err_cases [OF assms(2) n u])
    case 1
    from linked [OF this] f show ?thesis by simp
  next
    case child: (2 p)
    from linked [OF child(2)] hi [of "kb_parent_id block"] child(1) f show ?thesis by simp
  next
    case bad: (3 p)
    with f hash_height [OF inv bad(1)] show ?thesis by auto
  next
    case orphan: 4
    with ue [of e] f show ?thesis by auto
  qed
qed

theorem push_failure_atomic_witness:
  "\<exists>db'. push length (sample_block 9 1 5) sample_database = (db', Err (BadNumber 1 5)) \<and>
    kd_mini_store db' = kd_mini_store sample_database \<and> kd_mini_unlinked_store db' = kd_mini_unlinked_store sample_database"
  using push_failure_atomic [OF sample_reach sample_push_bad] sample_push_bad by auto

end
