(* ===== verification/Khaos_Branch.thy ===== *)
theory Khaos_Branch
  imports Khaos_Database
begin

text \<open>
  Parent links and branches. In reachable states a parent link goes exactly one height down, so
  that \<open>get_branch\<close>, which raises the higher block and then walks both sides in lock step, stops
  at the nearest common ancestor.
\<close>

section \<open>Parent links\<close>











section \<open>Every operation keeps the links\<close>









section \<open>Branches\<close>
















end
