(* ===== verification/Pbft.thy ===== *)
theory Pbft
  imports Dynamic
begin

text \<open>
  The PBFT sidecar of \<open>tron-consensus/src/pbft.rs\<close>: the message types, the rounds with their
  prepare and commit votes, the caches of early votes, the byte accounting, expiry, and the
  atomic persistence of a commit. Protocol-buffer encoding, the digest, signing and the recovery of
  a signer's address from a signature are the fields of the record \<open>crypto_ops\<close>; \<open>encoded_len\<close> is
  the length of the encoding. An \<open>expect\<close> that fails is the error \<open>Panicked\<close>.
\<close>

section \<open>Messages\<close>

definition DEFAULT_QUORUM :: usize where "DEFAULT_QUORUM = 19"
definition ROUND_TIMEOUT_MILLIS :: i64 where "ROUND_TIMEOUT_MILLIS = 60000"
definition VOTE_CACHE_TTL_MILLIS :: i64 where "VOTE_CACHE_TTL_MILLIS = 120000"
definition BLOCK_KEY_PREFIX :: bytes where "BLOCK_KEY_PREFIX = str_bytes ''BLOCK''"
definition SRL_KEY_PREFIX :: bytes where "SRL_KEY_PREFIX = str_bytes ''SRL''"
definition LATEST_PBFT_BLOCK_NUM_KEY :: bytes where "LATEST_PBFT_BLOCK_NUM_KEY = str_bytes ''LATEST_PBFT_BLOCK_NUM''"

datatype PbftError =
    Malformed | MissingRaw | MissingSignature | UnknownMsgType i32 | UnknownDataType i32 | Crypto | NonWitness
  | Equivocation | Capacity | LocalPreprepareOnly | WrongProposer | ProposalMismatch | PrepareCommitMismatch
  | Panicked

datatype MsgType = ViewChange | Request | Preprepare | Prepare | Commit

fun msg_wire :: "MsgType \<Rightarrow> i32" where
  "msg_wire ViewChange = 0" | "msg_wire Request = 1" | "msg_wire Preprepare = 2" | "msg_wire Prepare = 3" | "msg_wire Commit = 4"

definition msg_from_wire :: "i32 \<Rightarrow> (MsgType, PbftError) result" where
  "msg_from_wire value =
     (if value = 0 then Ok ViewChange else if value = 1 then Ok Request else if value = 2 then Ok Preprepare
      else if value = 3 then Ok Prepare else if value = 4 then Ok Commit else Err (UnknownMsgType value))"

datatype DataType = Block | Srl

fun data_wire :: "DataType \<Rightarrow> i32" where
  "data_wire Block = 0" | "data_wire Srl = 1"

definition data_from_wire :: "i32 \<Rightarrow> (DataType, PbftError) result" where
  "data_from_wire value = (if value = 0 then Ok Block else if value = 1 then Ok Srl else Err (UnknownDataType value))"

fun key_prefix :: "DataType \<Rightarrow> bytes" where
  "key_prefix Block = BLOCK_KEY_PREFIX" | "key_prefix Srl = SRL_KEY_PREFIX"

record Raw =
  rw_msg_type :: MsgType
  rw_data_type :: DataType
  rw_view_n :: i64
  rw_epoch :: i64
  rw_data :: bytes

text \<open>The generated message types, with their enumerations as 32-bit integers.\<close>

record RawProto =
  rp_msg_type :: i32
  rp_data_type :: i32
  rp_view_n :: i64
  rp_epoch :: i64
  rp_data :: bytes

record PbftMessage =
  pm_raw_data :: "RawProto option"
  pm_signature :: bytes

record SignedMessage =
  sg_raw :: Raw
  sg_signature :: bytes

record 'k crypto_ops =
  co_encode_raw :: "RawProto \<Rightarrow> bytes"
  co_encode_msg :: "PbftMessage \<Rightarrow> bytes"
  co_decode_msg :: "bytes \<Rightarrow> PbftMessage option"
  co_digest :: "bytes \<Rightarrow> bytes"
  co_sign :: "'k \<Rightarrow> bytes \<Rightarrow> bytes option"
  co_recover :: "bytes \<Rightarrow> bytes \<Rightarrow> bytes option"

definition raw_to_proto :: "Raw \<Rightarrow> RawProto" where
  "raw_to_proto raw = \<lparr> rp_msg_type = msg_wire (rw_msg_type raw), rp_data_type = data_wire (rw_data_type raw),
     rp_view_n = rw_view_n raw, rp_epoch = rw_epoch raw, rp_data = rw_data raw \<rparr>"

definition raw_bytes :: "'k crypto_ops \<Rightarrow> Raw \<Rightarrow> bytes" where
  "raw_bytes ops raw = co_encode_raw ops (raw_to_proto raw)"

definition raw_from_proto :: "RawProto \<Rightarrow> (Raw, PbftError) result" where
  "raw_from_proto p =
     and_then (msg_from_wire (rp_msg_type p)) (\<lambda>msg_type.
     and_then (data_from_wire (rp_data_type p)) (\<lambda>data_type.
     Ok \<lparr> rw_msg_type = msg_type, rw_data_type = data_type, rw_view_n = rp_view_n p, rw_epoch = rp_epoch p, rw_data = rp_data p \<rparr>))"

definition HEX_DIGITS :: bytes where "HEX_DIGITS = str_bytes ''0123456789abcdef''"

definition append_hex :: "bytes \<Rightarrow> bytes \<Rightarrow> bytes" where
  "append_hex output bs = output @ concat (map (\<lambda>b. [HEX_DIGITS ! unat (drop_bit 4 b), HEX_DIGITS ! unat (take_bit 4 b)]) bs)"

definition raw_no :: "Raw \<Rightarrow> bytes" where
  "raw_no raw = str_bytes (decimal (rw_view_n raw) @ ''_'' @ decimal (data_wire (rw_data_type raw)))"

definition data_key :: "Raw \<Rightarrow> bytes" where
  "data_key raw = append_hex (raw_no raw @ str_bytes ''_'') (rw_data raw)"

definition vote_key :: "Raw \<Rightarrow> bytes \<Rightarrow> bytes" where
  "vote_key raw witness = append_hex (raw_no raw @ str_bytes ''_'') witness"

definition unsigned :: "Raw \<Rightarrow> SignedMessage" where
  "unsigned raw = \<lparr> sg_raw = raw, sg_signature = [] \<rparr>"

definition msg_sign :: "'k crypto_ops \<Rightarrow> Raw \<Rightarrow> 'k \<Rightarrow> (SignedMessage, PbftError) result" where
  "msg_sign ops raw key =
     (case co_sign ops key (co_digest ops (raw_bytes ops raw)) of
        None \<Rightarrow> Err Crypto
      | Some signature \<Rightarrow> Ok \<lparr> sg_raw = raw, sg_signature = signature \<rparr>)"

definition msg_to_proto :: "SignedMessage \<Rightarrow> PbftMessage" where
  "msg_to_proto m = \<lparr> pm_raw_data = Some (raw_to_proto (sg_raw m)), pm_signature = sg_signature m \<rparr>"

definition msg_bytes :: "'k crypto_ops \<Rightarrow> SignedMessage \<Rightarrow> bytes" where
  "msg_bytes ops m = co_encode_msg ops (msg_to_proto m)"

definition encoded_len :: "'k crypto_ops \<Rightarrow> SignedMessage \<Rightarrow> usize" where
  "encoded_len ops m = length (co_encode_msg ops (msg_to_proto m))"

definition msg_decode :: "'k crypto_ops \<Rightarrow> bytes \<Rightarrow> (SignedMessage, PbftError) result" where
  "msg_decode ops bs =
     (case co_decode_msg ops bs of
        None \<Rightarrow> Err Malformed
      | Some p \<Rightarrow>
        and_then (case pm_raw_data p of None \<Rightarrow> Err MissingRaw | Some raw \<Rightarrow> Ok raw) (\<lambda>raw.
        and_then (raw_from_proto raw) (\<lambda>raw. Ok \<lparr> sg_raw = raw, sg_signature = pm_signature p \<rparr>)))"

definition recover_witness :: "'k crypto_ops \<Rightarrow> SignedMessage \<Rightarrow> (bytes, PbftError) result" where
  "recover_witness ops m =
     (if sg_signature m = [] then Err MissingSignature
      else case co_recover ops (co_digest ops (raw_bytes ops (sg_raw m))) (sg_signature m) of
        None \<Rightarrow> Err Crypto
      | Some address \<Rightarrow> Ok address)"

definition signed_as :: "'k crypto_ops \<Rightarrow> MsgType \<Rightarrow> 'k \<Rightarrow> SignedMessage \<Rightarrow> (SignedMessage, PbftError) result" where
  "signed_as ops msg_type key m = msg_sign ops ((sg_raw m)\<lparr> rw_msg_type := msg_type \<rparr>) key"

section \<open>Quorum, bounds and context\<close>

definition quorum_new :: "usize option \<Rightarrow> usize \<Rightarrow> usize" where
  "quorum_new configured committee_len =
     (let maximum = max committee_len 1;
          wanted = (case configured of None \<Rightarrow> DEFAULT_QUORUM | Some n \<Rightarrow> n)
      in min (max wanted 1) maximum)"

definition quorum_reached :: "usize \<Rightarrow> usize \<Rightarrow> bool" where
  "quorum_reached quorum votes \<longleftrightarrow> votes \<ge> quorum"

record 'k LocalSigner =
  ls_witness :: bytes
  ls_key :: 'k

record PbftBounds =
  pb_round_timeout_millis :: i64
  pb_vote_ttl_millis :: i64
  pb_max_rounds :: usize
  pb_max_votes :: usize
  pb_max_raw_data_bytes :: usize
  pb_max_encoded_message_bytes :: usize
  pb_max_round_bytes :: usize
  pb_max_retained_bytes :: usize

definition pbft_bounds_default :: PbftBounds where
  "pbft_bounds_default = \<lparr> pb_round_timeout_millis = ROUND_TIMEOUT_MILLIS, pb_vote_ttl_millis = VOTE_CACHE_TTL_MILLIS,
     pb_max_rounds = 1000, pb_max_votes = 10000, pb_max_raw_data_bytes = 1048576, pb_max_encoded_message_bytes = 1048704,
     pb_max_round_bytes = 4194304, pb_max_retained_bytes = 16777216 \<rparr>"

record ExpectedProposal =
  ep_data_type :: DataType
  ep_view_n :: i64
  ep_epoch :: i64
  ep_proposer :: bytes
  ep_data :: bytes

record 'k PbftContext =
  cx_now_millis :: i64
  cx_syncing :: bool
  cx_chain_switch :: bool
  cx_current_witnesses :: "bytes list"
  cx_before_witnesses :: "bytes list"
  cx_before_maintenance_time :: i64
  cx_local_signers :: "'k LocalSigner list"
  cx_expected_proposals :: "ExpectedProposal list"

definition committee :: "'k PbftContext \<Rightarrow> i64 \<Rightarrow> bytes list" where
  "committee ctx epoch = (if epoch > cx_before_maintenance_time ctx then cx_current_witnesses ctx else cx_before_witnesses ctx)"

definition signer_keys :: "'k PbftContext \<Rightarrow> i64 \<Rightarrow> 'k list" where
  "signer_keys ctx epoch = map ls_key (filter (\<lambda>signer. ls_witness signer \<in> set (committee ctx epoch)) (cx_local_signers ctx))"

definition expected_proposal :: "'k PbftContext \<Rightarrow> Raw \<Rightarrow> ExpectedProposal option" where
  "expected_proposal ctx raw = List.find (\<lambda>p. ep_data_type p = rw_data_type raw \<and> ep_view_n p = rw_view_n raw \<and> ep_epoch p = rw_epoch raw)
     (cx_expected_proposals ctx)"

section \<open>The sidecar\<close>

record CommitData =
  cd_raw :: bytes
  cd_data_type :: DataType
  cd_number :: i64
  cd_epoch :: i64
  cd_signatures :: "bytes list"

datatype Effect = Forward bytes | CommitEffect CommitData

record ProposalIdentity =
  pi_data_type :: DataType
  pi_view_n :: i64
  pi_epoch :: i64
  pi_data :: bytes

definition identity_of :: "Raw \<Rightarrow> ProposalIdentity" where
  "identity_of raw = \<lparr> pi_data_type = rw_data_type raw, pi_view_n = rw_view_n raw, pi_epoch = rw_epoch raw, pi_data = rw_data raw \<rparr>"

record Round =
  rd_started_at :: i64
  rd_identity :: "ProposalIdentity option"
  rd_prepare :: "(bytes, SignedMessage) bt_map"
  rd_commit :: "(bytes, SignedMessage) bt_map"
  rd_done :: bool
  rd_retained_bytes :: usize

type_synonym pending_votes = "(bytes, i64 \<times> SignedMessage) bt_map"

record PbftSidecar =
  ps_quorum :: "usize option"
  ps_bounds :: PbftBounds
  ps_rounds :: "(bytes, Round) bt_map"
  ps_completed :: "(bytes, i64) bt_map"
  ps_pending_prepare :: pending_votes
  ps_pending_commit :: pending_votes
  ps_retained_bytes :: usize

definition sidecar_new :: "usize option \<Rightarrow> PbftBounds \<Rightarrow> PbftSidecar" where
  "sidecar_new quorum bounds = \<lparr> ps_quorum = quorum, ps_bounds = bounds, ps_rounds = [], ps_completed = [],
     ps_pending_prepare = [], ps_pending_commit = [], ps_retained_bytes = 0 \<rparr>"

definition checked_size :: "'k crypto_ops \<Rightarrow> SignedMessage \<Rightarrow> PbftSidecar \<Rightarrow> (usize, PbftError) result" where
  "checked_size ops m s =
     (if length (rw_data (sg_raw m)) > pb_max_raw_data_bytes (ps_bounds s) then Err Capacity
      else let n = encoded_len ops m in
        if n > pb_max_encoded_message_bytes (ps_bounds s) then Err Capacity else Ok n)"

definition reserve :: "usize \<Rightarrow> usize \<Rightarrow> PbftSidecar \<Rightarrow> (unit, PbftError) result" where
  "reserve current_round added s =
     (if (case usize_checked_add current_round added of None \<Rightarrow> True | Some v \<Rightarrow> v > pb_max_round_bytes (ps_bounds s)) \<or>
         (case usize_checked_add (ps_retained_bytes s) added of None \<Rightarrow> True | Some v \<Rightarrow> v > pb_max_retained_bytes (ps_bounds s))
      then Err Capacity else Ok ())"

definition remove_round :: "bytes \<Rightarrow> PbftSidecar \<Rightarrow> PbftSidecar" where
  "remove_round no s =
     (case bt_get (ps_rounds s) no of
        None \<Rightarrow> s
      | Some round \<Rightarrow> s\<lparr> ps_rounds := bt_remove no (ps_rounds s), ps_retained_bytes := ps_retained_bytes s - rd_retained_bytes round \<rparr>)"

definition i64_saturating_diff :: "i64 \<Rightarrow> i64 \<Rightarrow> i64" where
  "i64_saturating_diff a b = max i64_min (min i64_max (a - b))"

definition expired_keys :: "i64 \<Rightarrow> i64 \<Rightarrow> pending_votes \<Rightarrow> bytes list" where
  "expired_keys now ttl m = map fst (filter (\<lambda>(_, (at, _)). i64_saturating_diff now at > ttl) m)"

definition expire_one :: "'k crypto_ops \<Rightarrow> bytes \<Rightarrow> pending_votes \<times> usize \<Rightarrow> pending_votes \<times> usize" where
  "expire_one ops key = (\<lambda>(m, retained).
     case bt_get m key of None \<Rightarrow> (m, retained) | Some (_, message) \<Rightarrow> (bt_remove key m, retained - encoded_len ops message))"

definition expire_pending :: "'k crypto_ops \<Rightarrow> i64 \<Rightarrow> i64 \<Rightarrow> pending_votes \<times> usize \<Rightarrow> pending_votes \<times> usize" where
  "expire_pending ops now ttl = (\<lambda>(m, retained). fold (expire_one ops) (expired_keys now ttl m) (m, retained))"

definition expire :: "'k crypto_ops \<Rightarrow> i64 \<Rightarrow> PbftSidecar \<Rightarrow> PbftSidecar" where
  "expire ops now s =
     (let timeout = pb_round_timeout_millis (ps_bounds s);
          expired = map fst (filter (\<lambda>(_, round). i64_saturating_diff now (rd_started_at round) > timeout) (ps_rounds s));
          s = fold remove_round expired s;
          ttl = pb_vote_ttl_millis (ps_bounds s);
          s = s\<lparr> ps_completed := filter (\<lambda>(_, at). i64_saturating_diff now at \<le> ttl) (ps_completed s) \<rparr>;
          (prepares, n) = expire_pending ops now ttl (ps_pending_prepare s, ps_retained_bytes s);
          (commits, n) = expire_pending ops now ttl (ps_pending_commit s, n)
      in s\<lparr> ps_pending_prepare := prepares, ps_pending_commit := commits, ps_retained_bytes := n \<rparr>)"

definition cache_pending :: "'k crypto_ops \<Rightarrow> bool \<Rightarrow> SignedMessage \<Rightarrow> bytes \<Rightarrow> i64 \<Rightarrow> PbftSidecar \<Rightarrow>
    PbftSidecar \<times> (unit, PbftError) result" where
  "cache_pending ops is_prepare message witness now s =
     (let key = vote_key (sg_raw message) witness;
          votes = (if is_prepare then ps_pending_prepare s else ps_pending_commit s) in
      case bt_get votes key of
        Some (_, previous) \<Rightarrow>
          if identity_of (sg_raw previous) \<noteq> identity_of (sg_raw message) then (s, Err Equivocation) else (s, Ok ())
      | None \<Rightarrow>
          if length votes \<ge> pb_max_votes (ps_bounds s) then (s, Err Capacity)
          else let n = encoded_len ops message in
            case reserve 0 n s of
              Err e \<Rightarrow> (s, Err e)
            | Ok _ \<Rightarrow>
              let votes = bt_insert cmp_bytes key (now, message) votes;
                  s = (if is_prepare then s\<lparr> ps_pending_prepare := votes \<rparr> else s\<lparr> ps_pending_commit := votes \<rparr>) in
              (s\<lparr> ps_retained_bytes := ps_retained_bytes s + n \<rparr>, Ok ()))"

definition cache_effects :: "'k crypto_ops \<Rightarrow> bool \<Rightarrow> SignedMessage \<Rightarrow> bytes \<Rightarrow> i64 \<Rightarrow> PbftSidecar \<Rightarrow>
    PbftSidecar \<times> (Effect list, PbftError) result" where
  "cache_effects ops is_prepare message witness now s =
     (case cache_pending ops is_prepare message witness now s of (s, Err e) \<Rightarrow> (s, Err e) | (s, Ok _) \<Rightarrow> (s, Ok []))"

definition add_commit :: "'k crypto_ops \<Rightarrow> SignedMessage \<Rightarrow> bytes \<Rightarrow> 'k PbftContext \<Rightarrow> Round \<Rightarrow> PbftSidecar \<Rightarrow>
    PbftSidecar \<times> (Effect list, PbftError) result" where
  "add_commit ops message witness ctx round s =
     (let no = raw_no (sg_raw message);
          n = encoded_len ops message;
          round = round\<lparr> rd_commit := bt_insert cmp_bytes witness message (rd_commit round), rd_retained_bytes := rd_retained_bytes round + n \<rparr>;
          s = s\<lparr> ps_rounds := bt_insert cmp_bytes no round (ps_rounds s), ps_retained_bytes := ps_retained_bytes s + n \<rparr>;
          reached = quorum_reached (quorum_new (ps_quorum s) (length (committee ctx (rw_epoch (sg_raw message))))) (length (rd_commit round));
          signatures = map (\<lambda>(_, vote). sg_signature vote) (rd_commit round) in
      if \<not> reached then (s, Ok [])
      else
        let data = \<lparr> cd_raw = raw_bytes ops (sg_raw message), cd_data_type = rw_data_type (sg_raw message),
                     cd_number = rw_view_n (sg_raw message), cd_epoch = rw_epoch (sg_raw message), cd_signatures = signatures \<rparr>;
            s = remove_round no s;
            s = s\<lparr> ps_completed := bt_insert cmp_bytes no (cx_now_millis ctx) (ps_completed s) \<rparr> in
        (s, Ok (if cx_syncing ctx then [] else [CommitEffect data])))"

definition pbft_commit :: "'k crypto_ops \<Rightarrow> SignedMessage \<Rightarrow> bytes \<Rightarrow> 'k PbftContext \<Rightarrow> PbftSidecar \<Rightarrow>
    PbftSidecar \<times> (Effect list, PbftError) result" where
  "pbft_commit ops message witness ctx s =
     (let no = raw_no (sg_raw message); identity = identity_of (sg_raw message) in
      case bt_get (ps_rounds s) no of
        None \<Rightarrow> cache_effects ops False message witness (cx_now_millis ctx) s
      | Some round \<Rightarrow>
        if rd_identity round \<noteq> Some identity then (s, Err ProposalMismatch)
        else case bt_get (rd_prepare round) witness of
          None \<Rightarrow> cache_effects ops False message witness (cx_now_millis ctx) s
        | Some prepare \<Rightarrow>
          if identity_of (sg_raw prepare) \<noteq> identity then (s, Err PrepareCommitMismatch)
          else case bt_get (rd_commit round) witness of
            Some previous \<Rightarrow> if identity_of (sg_raw previous) \<noteq> identity then (s, Err Equivocation) else (s, Ok [])
          | None \<Rightarrow>
            if length (rd_commit round) \<ge> pb_max_votes (ps_bounds s) then (s, Err Capacity)
            else case reserve (rd_retained_bytes round) (encoded_len ops message) s of
              Err e \<Rightarrow> (s, Err e)
            | Ok _ \<Rightarrow> add_commit ops message witness ctx round s)"

text \<open>
  The votes of the local signers, in the order of their keys: each is signed, forwarded and handed
  to the handler of its type. The loops for prepare and for commit votes are this one.
\<close>

fun local_votes :: "'k crypto_ops \<Rightarrow> MsgType \<Rightarrow>
    (SignedMessage \<Rightarrow> bytes \<Rightarrow> 'k PbftContext \<Rightarrow> PbftSidecar \<Rightarrow> PbftSidecar \<times> (Effect list, PbftError) result) \<Rightarrow>
    SignedMessage \<Rightarrow> 'k PbftContext \<Rightarrow> 'k list \<Rightarrow> Effect list \<Rightarrow> PbftSidecar \<Rightarrow> PbftSidecar \<times> (Effect list, PbftError) result" where
  "local_votes ops ty handler message ctx [] effects s = (s, Ok effects)"
| "local_votes ops ty handler message ctx (key # keys) effects s =
     (case signed_as ops ty key message of
        Err e \<Rightarrow> (s, Err e)
      | Ok vote \<Rightarrow>
        (case recover_witness ops vote of
           Err e \<Rightarrow> (s, Err e)
         | Ok witness \<Rightarrow>
           (case handler vote witness ctx s of
              (s, Err e) \<Rightarrow> (s, Err e)
            | (s, Ok new) \<Rightarrow> local_votes ops ty handler message ctx keys (effects @ Forward (msg_bytes ops vote) # new) s)))"

text \<open>A commit vote that arrived before its prepare vote is taken from the cache.\<close>

definition replay_commit :: "'k crypto_ops \<Rightarrow> bytes \<Rightarrow> 'k PbftContext \<Rightarrow> PbftSidecar \<Rightarrow> PbftSidecar \<times> (Effect list, PbftError) result" where
  "replay_commit ops cached_key ctx s =
     (case bt_get (ps_pending_commit s) cached_key of
        None \<Rightarrow> (s, Ok [])
      | Some (_, cached) \<Rightarrow>
        let s = s\<lparr> ps_pending_commit := bt_remove cached_key (ps_pending_commit s),
                  ps_retained_bytes := ps_retained_bytes s - encoded_len ops cached \<rparr> in
        (case recover_witness ops cached of
           Err e \<Rightarrow> (s, Err e)
         | Ok signer \<Rightarrow> pbft_commit ops cached signer ctx s))"

definition mark_done :: "bytes \<Rightarrow> PbftSidecar \<Rightarrow> PbftSidecar option" where
  "mark_done no s =
     (case bt_get (ps_rounds s) no of
        None \<Rightarrow> None
      | Some round \<Rightarrow> Some (s\<lparr> ps_rounds := bt_insert cmp_bytes no (round\<lparr> rd_done := True \<rparr>) (ps_rounds s) \<rparr>))"

definition add_prepare :: "'k crypto_ops \<Rightarrow> SignedMessage \<Rightarrow> bytes \<Rightarrow> 'k PbftContext \<Rightarrow> Round \<Rightarrow> PbftSidecar \<Rightarrow>
    PbftSidecar \<times> (Effect list, PbftError) result" where
  "add_prepare ops message witness ctx round s =
     (let no = raw_no (sg_raw message);
          cached_key = vote_key (sg_raw message) witness;
          n = encoded_len ops message;
          round = round\<lparr> rd_prepare := bt_insert cmp_bytes witness message (rd_prepare round), rd_retained_bytes := rd_retained_bytes round + n \<rparr>;
          s = s\<lparr> ps_rounds := bt_insert cmp_bytes no round (ps_rounds s), ps_retained_bytes := ps_retained_bytes s + n \<rparr>;
          votes = length (rd_prepare round);
          already_done = rd_done round in
      case replay_commit ops cached_key ctx s of
        (s, Err e) \<Rightarrow> (s, Err e)
      | (s, Ok effects) \<Rightarrow>
        if bt_get (ps_completed s) no \<noteq> None then (s, Ok effects)
        else
          let quorum = quorum_new (ps_quorum s) (length (committee ctx (rw_epoch (sg_raw message)))) in
          if already_done \<or> \<not> quorum_reached quorum votes \<or> cx_syncing ctx then (s, Ok effects)
          else case mark_done no s of
            None \<Rightarrow> (s, Err Panicked)
          | Some s \<Rightarrow> local_votes ops Commit (pbft_commit ops) message ctx (signer_keys ctx (rw_epoch (sg_raw message))) effects s)"

definition pbft_prepare :: "'k crypto_ops \<Rightarrow> SignedMessage \<Rightarrow> bytes \<Rightarrow> 'k PbftContext \<Rightarrow> PbftSidecar \<Rightarrow>
    PbftSidecar \<times> (Effect list, PbftError) result" where
  "pbft_prepare ops message witness ctx s =
     (let no = raw_no (sg_raw message); identity = identity_of (sg_raw message) in
      case bt_get (ps_rounds s) no of
        None \<Rightarrow> cache_effects ops True message witness (cx_now_millis ctx) s
      | Some round \<Rightarrow>
        (case rd_identity round of
           None \<Rightarrow> cache_effects ops True message witness (cx_now_millis ctx) s
         | Some round_identity \<Rightarrow>
           if round_identity \<noteq> identity then (s, Err ProposalMismatch)
           else case bt_get (rd_prepare round) witness of
             Some previous \<Rightarrow> if identity_of (sg_raw previous) \<noteq> identity then (s, Err Equivocation) else (s, Ok [])
           | None \<Rightarrow>
             if length (rd_prepare round) \<ge> pb_max_votes (ps_bounds s) then (s, Err Capacity)
             else case reserve (rd_retained_bytes round) (encoded_len ops message) s of
               Err e \<Rightarrow> (s, Err e)
             | Ok _ \<Rightarrow> add_prepare ops message witness ctx round s))"

text \<open>The cached prepare votes of a proposal.\<close>

fun replay_prepares :: "'k crypto_ops \<Rightarrow> 'k PbftContext \<Rightarrow> (bytes \<times> SignedMessage) list \<Rightarrow> Effect list \<Rightarrow> PbftSidecar \<Rightarrow>
    PbftSidecar \<times> (Effect list, PbftError) result" where
  "replay_prepares ops ctx [] effects s = (s, Ok effects)"
| "replay_prepares ops ctx ((key, item) # cached) effects s =
     (let s = (case bt_get (ps_pending_prepare s) key of
                 None \<Rightarrow> s
               | Some (_, removed) \<Rightarrow> s\<lparr> ps_pending_prepare := bt_remove key (ps_pending_prepare s),
                                        ps_retained_bytes := ps_retained_bytes s - encoded_len ops removed \<rparr>) in
      case recover_witness ops item of
        Err e \<Rightarrow> (s, Err e)
      | Ok signer \<Rightarrow>
        (case pbft_prepare ops item signer ctx s of
           (s, Err e) \<Rightarrow> (s, Err e)
         | (s, Ok new) \<Rightarrow> replay_prepares ops ctx cached (effects @ new) s))"

definition cached_prepares :: "ProposalIdentity \<Rightarrow> PbftSidecar \<Rightarrow> (bytes \<times> SignedMessage) list" where
  "cached_prepares identity s =
     map (\<lambda>(key, (_, item)). (key, item)) (filter (\<lambda>(_, (_, item)). identity_of (sg_raw item) = identity) (ps_pending_prepare s))"

definition open_round :: "'k crypto_ops \<Rightarrow> SignedMessage \<Rightarrow> 'k PbftContext \<Rightarrow> PbftSidecar \<Rightarrow> PbftSidecar" where
  "open_round ops message ctx s =
     (let n = encoded_len ops message;
          round = \<lparr> rd_started_at = cx_now_millis ctx, rd_identity = Some (identity_of (sg_raw message)), rd_prepare = [], rd_commit = [],
                    rd_done = False, rd_retained_bytes = n \<rparr> in
      s\<lparr> ps_rounds := bt_insert cmp_bytes (raw_no (sg_raw message)) round (ps_rounds s), ps_retained_bytes := ps_retained_bytes s + n \<rparr>)"

definition preprepare :: "'k crypto_ops \<Rightarrow> SignedMessage \<Rightarrow> bytes option \<Rightarrow> 'k PbftContext \<Rightarrow> PbftSidecar \<Rightarrow>
    PbftSidecar \<times> (Effect list, PbftError) result" where
  "preprepare ops message witness ctx s =
     (let no = raw_no (sg_raw message) in
      if cx_chain_switch ctx then (remove_round no s, Ok [])
      else case expected_proposal ctx (sg_raw message) of
        None \<Rightarrow> (s, Err ProposalMismatch)
      | Some expected \<Rightarrow>
        if ep_data expected \<noteq> rw_data (sg_raw message) then (s, Err ProposalMismatch)
        else if (case witness of None \<Rightarrow> False | Some signer \<Rightarrow> signer \<noteq> ep_proposer expected) then (s, Err WrongProposer)
        else
          let identity = identity_of (sg_raw message) in
          case bt_get (ps_rounds s) no of
            Some round \<Rightarrow> if rd_identity round = Some identity then (s, Ok []) else (s, Err ProposalMismatch)
          | None \<Rightarrow>
            if length (ps_rounds s) \<ge> pb_max_rounds (ps_bounds s) then (s, Err Capacity)
            else case reserve 0 (encoded_len ops message) s of
              Err e \<Rightarrow> (s, Err e)
            | Ok _ \<Rightarrow>
              (case (if \<not> cx_syncing ctx
                     then local_votes ops Prepare (pbft_prepare ops) message ctx (signer_keys ctx (rw_epoch (sg_raw message))) [] (open_round ops message ctx s)
                     else (open_round ops message ctx s, Ok [])) of
                 (s, Err e) \<Rightarrow> (s, Err e)
               | (s, Ok effects) \<Rightarrow> replay_prepares ops ctx (cached_prepares identity s) effects s))"

definition dispatch :: "'k crypto_ops \<Rightarrow> SignedMessage \<Rightarrow> bytes option \<Rightarrow> 'k PbftContext \<Rightarrow> PbftSidecar \<Rightarrow>
    PbftSidecar \<times> (Effect list, PbftError) result" where
  "dispatch ops message witness ctx s =
     (if bt_get (ps_completed s) (raw_no (sg_raw message)) \<noteq> None then (s, Ok [])
      else case rw_msg_type (sg_raw message) of
        Preprepare \<Rightarrow> preprepare ops message witness ctx s
      | Prepare \<Rightarrow> (case witness of None \<Rightarrow> (s, Err Panicked) | Some w \<Rightarrow> pbft_prepare ops message w ctx s)
      | Commit \<Rightarrow> (case witness of None \<Rightarrow> (s, Err Panicked) | Some w \<Rightarrow> pbft_commit ops message w ctx s)
      | Request \<Rightarrow> (s, Ok [])
      | ViewChange \<Rightarrow> (s, Ok []))"

definition handle :: "'k crypto_ops \<Rightarrow> SignedMessage \<Rightarrow> 'k PbftContext \<Rightarrow> PbftSidecar \<Rightarrow>
    PbftSidecar \<times> (Effect list, PbftError) result" where
  "handle ops message ctx s =
     (let s = expire ops (cx_now_millis ctx) s in
      case checked_size ops message s of
        Err e \<Rightarrow> (s, Err e)
      | Ok _ \<Rightarrow>
        (case recover_witness ops message of
           Err e \<Rightarrow> (s, Err e)
         | Ok witness \<Rightarrow>
           if witness \<notin> set (committee ctx (rw_epoch (sg_raw message))) then (s, Err NonWitness)
           else dispatch ops message (Some witness) ctx s))"

definition local_preprepare :: "'k crypto_ops \<Rightarrow> SignedMessage \<Rightarrow> 'k PbftContext \<Rightarrow> PbftSidecar \<Rightarrow>
    PbftSidecar \<times> (Effect list, PbftError) result" where
  "local_preprepare ops message ctx s =
     (let s = expire ops (cx_now_millis ctx) s in
      case checked_size ops message s of
        Err e \<Rightarrow> (s, Err e)
      | Ok _ \<Rightarrow>
        if rw_msg_type (sg_raw message) \<noteq> Preprepare then (s, Err LocalPreprepareOnly)
        else dispatch ops message None ctx s)"

section \<open>Persistence\<close>

definition latest_pbft :: "RustLog \<Rightarrow> i64" where
  "latest_pbft st =
     (case typed_get st (kind_name KCommon) LATEST_PBFT_BLOCK_NUM_KEY of
        None \<Rightarrow> 0
      | Some bs \<Rightarrow> if length bs = 8 then i64_from_be_bytes bs else 0)"

definition persist_atomic :: "os \<Rightarrow> bytes \<Rightarrow> bytes \<Rightarrow> i64 option \<Rightarrow> RustLog \<Rightarrow> RustLog \<times> (i64 option, StorageError) result" where
  "persist_atomic env key v candidate_cursor st =
     (let latest = latest_pbft st;
          advanced = (case candidate_cursor of None \<Rightarrow> None | Some candidate \<Rightarrow> if candidate > latest then Some candidate else None);
          batch = state_batch_put (kind_name KPbft) key v [];
          batch = (case advanced of
                     None \<Rightarrow> batch
                   | Some cursor \<Rightarrow> state_batch_put (kind_name KCommon) LATEST_PBFT_BLOCK_NUM_KEY (i64_to_be_bytes cursor) batch) in
      case state_batch_commit env batch st of
        (st, Err e) \<Rightarrow> (st, Err e)
      | (st, Ok _) \<Rightarrow> (st, Ok advanced))"

record PersistedCommit =
  pc_key :: bytes
  pc_value :: bytes
  pc_latest_pbft_block :: "i64 option"

definition commit_key :: "CommitData \<Rightarrow> bytes" where
  "commit_key data = key_prefix (cd_data_type data) @
     str_bytes (decimal (case cd_data_type data of Block \<Rightarrow> cd_number data | Srl \<Rightarrow> cd_epoch data))"

text \<open>\<open>encode_result\<close> is the generated encoding of \<open>PbftCommitResult\<close>.\<close>

definition persist_commit :: "(bytes \<Rightarrow> bytes list \<Rightarrow> bytes) \<Rightarrow> os \<Rightarrow> CommitData \<Rightarrow> RustLog \<Rightarrow>
    RustLog \<times> (PersistedCommit, StorageError) result" where
  "persist_commit encode_result env data st =
     (let key = commit_key data;
          v = encode_result (cd_raw data) (cd_signatures data) in
      case persist_atomic env key v (if cd_data_type data = Block then Some (cd_number data) else None) st of
        (st, Err e) \<Rightarrow> (st, Err e)
      | (st, Ok latest) \<Rightarrow> (st, Ok \<lparr> pc_key = key, pc_value = v, pc_latest_pbft_block = latest \<rparr>))"

definition build_preprepare :: "'k crypto_ops \<Rightarrow> DataType \<Rightarrow> bytes \<Rightarrow> i64 \<Rightarrow> i64 \<Rightarrow> 'k option \<Rightarrow> (SignedMessage, PbftError) result" where
  "build_preprepare ops data_type data view_n epoch key =
     (let raw = \<lparr> rw_msg_type = Preprepare, rw_data_type = data_type, rw_view_n = view_n, rw_epoch = epoch, rw_data = data \<rparr> in
      case key of Some key \<Rightarrow> msg_sign ops raw key | None \<Rightarrow> Ok (unsigned raw))"

definition preprepare_block :: "'k crypto_ops \<Rightarrow> bytes \<Rightarrow> i64 \<Rightarrow> i64 \<Rightarrow> 'k option \<Rightarrow> (SignedMessage, PbftError) result" where
  "preprepare_block ops id_bytes block_number epoch key = build_preprepare ops Block id_bytes block_number epoch key"

text \<open>\<open>encode_srl\<close> is the generated encoding of the list of representatives.\<close>

definition preprepare_srl :: "'k crypto_ops \<Rightarrow> (bytes list \<Rightarrow> bytes) \<Rightarrow> bytes list \<Rightarrow> i64 \<Rightarrow> 'k option \<Rightarrow> (SignedMessage, PbftError) result" where
  "preprepare_srl ops encode_srl addresses epoch key = build_preprepare ops Srl (encode_srl addresses) epoch epoch key"

end
