(* ===== verification/Pbft_Votes.thy ===== *)
theory Pbft_Votes
  imports Pbft
begin

text \<open>
  The invariant of the PBFT sidecar and its preservation by the vote handlers: every vote a round
  or a cache holds recovers to the witness it is filed under, a round's votes are for one proposal,
  and the retained bytes are accounted for exactly.
\<close>

section \<open>Sums over ordered maps\<close>

lemma wf_Cons: "bt_wf cmp_bytes ((k, v) # m) \<Longrightarrow> bt_wf cmp_bytes m \<and> (\<forall>k' \<in> fst ` set m. cmp_bytes k k' = Less)"
  by (auto simp: bt_wf_def)

lemma sum_bt_insert:
  fixes g :: "bytes \<times> 'v \<Rightarrow> nat"
  assumes "bt_wf cmp_bytes m"
  shows "sum_list (map g (bt_insert cmp_bytes k v m)) + (case bt_get m k of None \<Rightarrow> 0 | Some v' \<Rightarrow> g (k, v')) = g (k, v) + sum_list (map g m)"
  using assms
proof (induction m)
  case (Cons p m)
  obtain k' v' where p: "p = (k', v')" by (cases p)
  note wf = wf_Cons [OF Cons.prems [unfolded p]]
  show ?case
  proof (cases "cmp_bytes k k'")
    case Less
    have "k \<noteq> k''" if "k'' \<in> fst ` set (p # m)" for k''
      using that Less wf p bytes.cmp_trans [of k k' k''] bytes.cmp_refl [of k] by auto
    then have "bt_get (p # m) k = None" by (auto simp: map_of_eq_None_iff)
    with Less p show ?thesis by simp
  next
    case Equal
    then have "k = k'" using bytes.cmp_eq by simp
    with Equal p show ?thesis by simp
  next
    case Greater
    then have "k \<noteq> k'" using bytes.cmp_refl by auto
    with Greater p Cons.IH wf show ?thesis by (simp split: option.splits)
  qed
qed simp

lemma sum_bt_remove:
  fixes g :: "bytes \<times> 'v \<Rightarrow> nat"
  assumes "distinct (map fst m)"
  shows "sum_list (map g (bt_remove k m)) + (case bt_get m k of None \<Rightarrow> 0 | Some v \<Rightarrow> g (k, v)) = sum_list (map g m)"
  using assms
proof (induction m)
  case (Cons p m)
  obtain k' v' where p: "p = (k', v')" by (cases p)
  show ?case
  proof (cases "k = k'")
    case True
    with Cons.prems p have "bt_remove k m = m" by (auto simp: bt_remove_def filter_id_conv rev_image_eqI)
    with True p show ?thesis by (simp add: bt_remove_def)
  next
    case False
    with Cons p show ?thesis by (simp add: bt_remove_def split: option.splits)
  qed
qed (simp add: bt_remove_def)

lemma wf_distinct_keys: "bt_wf cmp_bytes m \<Longrightarrow> distinct (map fst m)"
  by (simp add: bytes.wf_distinct)

lemma set_bt_insert_sub: "set (bt_insert cmp_bytes k v m) \<subseteq> insert (k, v) (set m)"
proof (induction m)
  case (Cons p m)
  then show ?case by (cases p; cases "cmp_bytes k (fst p)") (auto dest: bytes.cmp_eq [THEN iffD1, rotated 2])
qed simp

lemma length_bt_insert: "length (bt_insert cmp_bytes k v m) = (if k \<in> fst ` set m then length m else Suc (length m))"
  if "bt_wf cmp_bytes m" for m :: "(bytes \<times> 'v) list"
proof -
  have "length (bt_insert cmp_bytes k v m) = card (fst ` set (bt_insert cmp_bytes k v m))"
    using wf_distinct_keys [of "bt_insert cmp_bytes k v m"] that by (simp add: distinct_card flip: set_map length_map)
  moreover have "length m = card (fst ` set m)" using wf_distinct_keys [OF that] by (simp add: distinct_card flip: set_map length_map)
  ultimately show ?thesis by (simp add: bytes.keys_insert insert_absorb)
qed

lemma set_bt_remove: "set (bt_remove k m) = {p \<in> set m. fst p \<noteq> k}"
  by (auto simp: bt_remove_def)

section \<open>The invariant\<close>

definition id_no :: "ProposalIdentity \<Rightarrow> bytes" where
  "id_no i = str_bytes (decimal (pi_view_n i) @ ''_'' @ decimal (data_wire (pi_data_type i)))"

lemma raw_no_id: "raw_no raw = id_no (identity_of raw)"
  by (simp add: raw_no_def id_no_def identity_of_def)

definition vote_ok :: "'k crypto_ops \<Rightarrow> bytes set \<Rightarrow> MsgType \<Rightarrow> bytes \<Rightarrow> SignedMessage \<Rightarrow> bool" where
  "vote_ok ops W ty w m \<longleftrightarrow> rw_msg_type (sg_raw m) = ty \<and> recover_witness ops m = Ok w \<and> w \<in> W"

definition votes_ok :: "'k crypto_ops \<Rightarrow> bytes set \<Rightarrow> MsgType \<Rightarrow> ProposalIdentity \<Rightarrow> (bytes, SignedMessage) bt_map \<Rightarrow> bool" where
  "votes_ok ops W ty i votes \<longleftrightarrow> bt_wf cmp_bytes votes \<and> (\<forall>(w, m) \<in> set votes. vote_ok ops W ty w m \<and> identity_of (sg_raw m) = i)"

text \<open>What a round is charged for: the proposal that opened it, of which it keeps only the identity, and
  every vote it holds.\<close>

definition votes_bytes :: "'k crypto_ops \<Rightarrow> (bytes, SignedMessage) bt_map \<Rightarrow> nat" where
  "votes_bytes ops votes = sum_list (map (\<lambda>(w, m). encoded_len ops m) votes)"

definition round_charged :: "'k crypto_ops \<Rightarrow> Round \<Rightarrow> bool" where
  "round_charged ops rd \<longleftrightarrow> (\<exists>proposal. rd_identity rd = Some (identity_of (sg_raw proposal)) \<and>
     rd_retained_bytes rd = encoded_len ops proposal + votes_bytes ops (rd_prepare rd) + votes_bytes ops (rd_commit rd))"

definition round_ok :: "'k crypto_ops \<Rightarrow> bytes set \<Rightarrow> PbftBounds \<Rightarrow> bytes \<Rightarrow> Round \<Rightarrow> bool" where
  "round_ok ops W b no rd \<longleftrightarrow>
     (\<exists>i. rd_identity rd = Some i \<and> no = id_no i \<and> votes_ok ops W Prepare i (rd_prepare rd) \<and> votes_ok ops W Commit i (rd_commit rd)) \<and>
     fst ` set (rd_commit rd) \<subseteq> fst ` set (rd_prepare rd) \<and> round_charged ops rd \<and>
     rd_retained_bytes rd \<le> pb_max_round_bytes b"

definition pending_ok :: "'k crypto_ops \<Rightarrow> bytes set \<Rightarrow> PbftBounds \<Rightarrow> MsgType \<Rightarrow> pending_votes \<Rightarrow> bool" where
  "pending_ok ops W b ty votes \<longleftrightarrow> bt_wf cmp_bytes votes \<and> length votes \<le> pb_max_votes b \<and>
     (\<forall>(key, (at, m)) \<in> set votes. \<exists>w. vote_ok ops W ty w m)"

definition pending_bytes :: "'k crypto_ops \<Rightarrow> pending_votes \<Rightarrow> nat" where
  "pending_bytes ops votes = sum_list (map (\<lambda>(key, (at, m)). encoded_len ops m) votes)"

definition rounds_bytes :: "(bytes, Round) bt_map \<Rightarrow> nat" where
  "rounds_bytes rounds = sum_list (map (\<lambda>(no, rd). rd_retained_bytes rd) rounds)"

definition rounds_ok :: "'k crypto_ops \<Rightarrow> bytes set \<Rightarrow> PbftBounds \<Rightarrow> (bytes, Round) bt_map \<Rightarrow> bool" where
  "rounds_ok ops W b rounds \<longleftrightarrow> bt_wf cmp_bytes rounds \<and> length rounds \<le> pb_max_rounds b \<and> (\<forall>(no, rd) \<in> set rounds. round_ok ops W b no rd)"

definition pbft_inv :: "'k crypto_ops \<Rightarrow> bytes set \<Rightarrow> PbftSidecar \<Rightarrow> bool" where
  "pbft_inv ops W s \<longleftrightarrow>
     rounds_ok ops W (ps_bounds s) (ps_rounds s) \<and>
     pending_ok ops W (ps_bounds s) Prepare (ps_pending_prepare s) \<and>
     pending_ok ops W (ps_bounds s) Commit (ps_pending_commit s) \<and>
     ps_retained_bytes s = rounds_bytes (ps_rounds s) + pending_bytes ops (ps_pending_prepare s) + pending_bytes ops (ps_pending_commit s) \<and>
     ps_retained_bytes s \<le> pb_max_retained_bytes (ps_bounds s)"

definition same_config :: "PbftSidecar \<Rightarrow> PbftSidecar \<Rightarrow> bool" where
  "same_config s s' \<longleftrightarrow> ps_quorum s' = ps_quorum s \<and> ps_bounds s' = ps_bounds s"

lemma same_config_refl [simp]: "same_config s s"
  by (simp add: same_config_def)

lemma same_config_trans: "same_config a b \<Longrightarrow> same_config b c \<Longrightarrow> same_config a c"
  by (simp add: same_config_def)

lemma pbft_inv_new: "pbft_inv ops W (sidecar_new q b)"
  by (simp add: pbft_inv_def sidecar_new_def rounds_ok_def pending_ok_def rounds_bytes_def pending_bytes_def)

section \<open>Updates of one map\<close>

lemma votes_ok_insert:
  assumes "votes_ok ops W ty i votes" "vote_ok ops W ty w m" "identity_of (sg_raw m) = i"
  shows "votes_ok ops W ty i (bt_insert cmp_bytes w m votes)"
  using assms set_bt_insert_sub [of w m votes] unfolding votes_ok_def by (simp add: subset_iff) blast

lemma votes_bytes_insert:
  "bt_wf cmp_bytes votes \<Longrightarrow> bt_get votes w = None \<Longrightarrow> votes_bytes ops (bt_insert cmp_bytes w m votes) = encoded_len ops m + votes_bytes ops votes"
  unfolding votes_bytes_def using sum_bt_insert [of votes "\<lambda>(w, m). encoded_len ops m" w m] by simp

lemma round_charged_vote:
  assumes "round_charged ops rd"
  shows "bt_wf cmp_bytes (rd_commit rd) \<Longrightarrow> bt_get (rd_commit rd) w = None \<Longrightarrow>
      round_charged ops (rd\<lparr> rd_commit := bt_insert cmp_bytes w m (rd_commit rd), rd_retained_bytes := rd_retained_bytes rd + encoded_len ops m \<rparr>)"
    "bt_wf cmp_bytes (rd_prepare rd) \<Longrightarrow> bt_get (rd_prepare rd) w = None \<Longrightarrow>
      round_charged ops (rd\<lparr> rd_prepare := bt_insert cmp_bytes w m (rd_prepare rd), rd_retained_bytes := rd_retained_bytes rd + encoded_len ops m \<rparr>)"
  using assms by (auto simp: round_charged_def votes_bytes_insert)

lemma rounds_ok_get: "rounds_ok ops W b rounds \<Longrightarrow> bt_get rounds no = Some rd \<Longrightarrow> round_ok ops W b no rd"
  by (auto simp: rounds_ok_def dest!: map_of_SomeD)

lemma rounds_ok_insert:
  assumes "rounds_ok ops W b rounds" "round_ok ops W b no rd" "no \<in> fst ` set rounds \<or> length rounds < pb_max_rounds b"
  shows "rounds_ok ops W b (bt_insert cmp_bytes no rd rounds)"
  using assms set_bt_insert_sub [of no rd rounds] unfolding rounds_ok_def by (auto simp: length_bt_insert subset_iff; blast)

lemma rounds_ok_remove: "rounds_ok ops W b rounds \<Longrightarrow> rounds_ok ops W b (bt_remove no rounds)"
  by (auto simp: rounds_ok_def set_bt_remove bt_remove_def bt_wf_filter intro: le_trans [OF length_filter_le])

lemma rounds_bytes_insert:
  "bt_wf cmp_bytes rounds \<Longrightarrow>
   rounds_bytes (bt_insert cmp_bytes no rd rounds) + (case bt_get rounds no of None \<Rightarrow> 0 | Some old \<Rightarrow> rd_retained_bytes old) =
   rd_retained_bytes rd + rounds_bytes rounds"
  unfolding rounds_bytes_def using sum_bt_insert [of rounds "\<lambda>(no, rd). rd_retained_bytes rd" no rd] by (simp cong: option.case_cong)

lemma rounds_bytes_remove:
  "bt_wf cmp_bytes rounds \<Longrightarrow> bt_get rounds no = Some rd \<Longrightarrow> rounds_bytes (bt_remove no rounds) + rd_retained_bytes rd = rounds_bytes rounds"
  unfolding rounds_bytes_def using sum_bt_remove [OF wf_distinct_keys, of rounds "\<lambda>(no, rd). rd_retained_bytes rd" no] by simp

lemma pending_insert:
  assumes "pending_ok ops W b ty votes" "vote_ok ops W ty w m" "bt_get votes key = None" "length votes < pb_max_votes b"
  shows "pending_ok ops W b ty (bt_insert cmp_bytes key (now, m) votes)"
    "pending_bytes ops (bt_insert cmp_bytes key (now, m) votes) = encoded_len ops m + pending_bytes ops votes"
proof -
  have wf: "bt_wf cmp_bytes votes" using assms(1) by (simp add: pending_ok_def)
  show "pending_bytes ops (bt_insert cmp_bytes key (now, m) votes) = encoded_len ops m + pending_bytes ops votes"
    unfolding pending_bytes_def using sum_bt_insert [OF wf, of "\<lambda>(key, (at, m)). encoded_len ops m" key "(now, m)"] assms(3) by simp
  show "pending_ok ops W b ty (bt_insert cmp_bytes key (now, m) votes)"
    using assms set_bt_insert_sub [of key "(now, m)" votes] wf unfolding pending_ok_def
    by (auto simp: length_bt_insert map_of_eq_None_iff subset_iff; blast)
qed

lemma pending_remove:
  assumes "pending_ok ops W b ty votes" "bt_get votes key = Some (at, m)"
  shows "pending_ok ops W b ty (bt_remove key votes)" "pending_bytes ops (bt_remove key votes) + encoded_len ops m = pending_bytes ops votes"
    "\<exists>w. vote_ok ops W ty w m"
proof -
  have wf: "bt_wf cmp_bytes votes" using assms(1) by (simp add: pending_ok_def)
  show "pending_bytes ops (bt_remove key votes) + encoded_len ops m = pending_bytes ops votes"
    unfolding pending_bytes_def using sum_bt_remove [OF wf_distinct_keys [OF wf], of "\<lambda>(key, (at, m)). encoded_len ops m" key] assms(2) by simp
  show "pending_ok ops W b ty (bt_remove key votes)"
    using assms(1) by (auto simp: pending_ok_def set_bt_remove bt_remove_def bt_wf_filter intro: le_trans [OF length_filter_le])
  show "\<exists>w. vote_ok ops W ty w m" using assms by (auto simp: pending_ok_def dest!: map_of_SomeD)
qed

section \<open>What a handler may return\<close>

text \<open>
  A commit certificate: the signatures recover, over the one encoded commit message, to distinct
  witnesses of \<open>W\<close>, at least \<open>q\<close> of them.
\<close>

definition certificate :: "'k crypto_ops \<Rightarrow> bytes set \<Rightarrow> nat \<Rightarrow> CommitData \<Rightarrow> bool" where
  "certificate ops W q cd \<longleftrightarrow>
     (\<exists>raw ws. rw_msg_type raw = Commit \<and> cd_raw cd = raw_bytes ops raw \<and> cd_data_type cd = rw_data_type raw \<and>
        cd_number cd = rw_view_n raw \<and> cd_epoch cd = rw_epoch raw \<and>
        distinct ws \<and> set ws \<subseteq> W \<and> q \<le> length ws \<and>
        list_all2 (\<lambda>w sig. recover_witness ops \<lparr> sg_raw = raw, sg_signature = sig \<rparr> = Ok w) ws (cd_signatures cd))"

definition effect_ok :: "'k crypto_ops \<Rightarrow> bytes set \<Rightarrow> 'k PbftContext \<Rightarrow> usize option \<Rightarrow> Effect \<Rightarrow> bool" where
  "effect_ok ops W ctx q e =
     (case e of Forward bs \<Rightarrow> True | CommitEffect cd \<Rightarrow> certificate ops W (quorum_new q (length (committee ctx (cd_epoch cd)))) cd)"

definition good :: "'k crypto_ops \<Rightarrow> bytes set \<Rightarrow> 'k PbftContext \<Rightarrow> PbftSidecar \<Rightarrow> PbftSidecar \<times> (Effect list, PbftError) result \<Rightarrow> bool" where
  "good ops W ctx s out \<longleftrightarrow>
     pbft_inv ops W (fst out) \<and> same_config s (fst out) \<and> snd out \<noteq> Err Panicked \<and>
     (\<forall>es. snd out = Ok es \<longrightarrow> (\<forall>e \<in> set es. effect_ok ops W ctx (ps_quorum s) e))"

lemma good_Err: "pbft_inv ops W s \<Longrightarrow> e \<noteq> Panicked \<Longrightarrow> good ops W ctx s (s, Err e)"
  by (simp add: good_def)

lemma good_Nil: "pbft_inv ops W s \<Longrightarrow> good ops W ctx s (s, Ok [])"
  by (simp add: good_def)

lemma good_from: "good ops W ctx s1 out \<Longrightarrow> same_config s s1 \<Longrightarrow> good ops W ctx s out"
  by (auto simp: good_def same_config_def)

text \<open>Sequencing: the effects of a step are appended to the effects so far.\<close>

lemma good_step:
  assumes "good ops W ctx s (s1, r)" "\<And>es. r = Ok es \<Longrightarrow> pbft_inv ops W s1 \<Longrightarrow> \<forall>e \<in> set es. effect_ok ops W ctx (ps_quorum s1) e \<Longrightarrow>
    good ops W ctx s1 (k es)"
  shows "good ops W ctx s (case r of Err e \<Rightarrow> (s1, Err e) | Ok es \<Rightarrow> k es)"
proof (cases r)
  case (Inl e)
  with assms(1) show ?thesis by (auto simp: good_def)
next
  case (Inr es)
  have sc: "same_config s s1" and inv: "pbft_inv ops W s1" using assms(1) by (simp_all add: good_def)
  have "\<forall>e \<in> set es. effect_ok ops W ctx (ps_quorum s1) e" using assms(1) Inr sc by (simp add: good_def same_config_def)
  then have "good ops W ctx s1 (k es)" by (rule assms(2) [OF Inr inv])
  then show ?thesis using Inr sc by (simp add: good_from)
qed

lemma reserve_Ok:
  assumes "reserve cur n s = Ok u"
  shows "cur + n \<le> pb_max_round_bytes (ps_bounds s)" "ps_retained_bytes s + n \<le> pb_max_retained_bytes (ps_bounds s)"
  using assms by (auto simp: reserve_def split: if_splits option.splits)

lemma reserve_Err: "reserve cur n s = Err e \<Longrightarrow> e = Capacity"
  by (auto simp: reserve_def split: if_splits)

lemma cache_good:
  assumes inv: "pbft_inv ops W s" and v: "vote_ok ops W (if p then Prepare else Commit) w m"
  shows "good ops W ctx s (cache_effects ops p m w now s)"
proof -
  let ?votes = "if p then ps_pending_prepare s else ps_pending_commit s" and ?key = "vote_key (sg_raw m) w"
  have ok: "pending_ok ops W (ps_bounds s) (if p then Prepare else Commit) ?votes" using inv by (simp add: pbft_inv_def)
  show ?thesis
  proof (cases "bt_get ?votes ?key")
    case (Some x)
    then show ?thesis
      by (cases x) (auto simp: cache_effects_def cache_pending_def Let_def intro!: good_Err good_Nil inv)
  next
    case None
    show ?thesis
    proof (cases "length ?votes \<ge> pb_max_votes (ps_bounds s)")
      case True
      with None show ?thesis by (auto simp: cache_effects_def cache_pending_def Let_def intro!: good_Err inv)
    next
      case False
      show ?thesis
      proof (cases "reserve 0 (encoded_len ops m) s")
        case (Inl e)
        with None False reserve_Err [OF Inl] show ?thesis
          by (auto simp: cache_effects_def cache_pending_def Let_def intro!: good_Err inv)
      next
        case (Inr u)
        note ins = pending_insert [OF ok v None, of now]
        have n: "ps_retained_bytes s + encoded_len ops m \<le> pb_max_retained_bytes (ps_bounds s)" by (rule reserve_Ok(2) [OF Inr])
        let ?s' = "(if p then s\<lparr> ps_pending_prepare := bt_insert cmp_bytes ?key (now, m) ?votes \<rparr>
          else s\<lparr> ps_pending_commit := bt_insert cmp_bytes ?key (now, m) ?votes \<rparr>)\<lparr> ps_retained_bytes := ps_retained_bytes s + encoded_len ops m \<rparr>"
        have "cache_effects ops p m w now s = (?s', Ok [])"
          using None False Inr by (cases p) (simp_all add: cache_effects_def cache_pending_def Let_def)
        moreover have "pbft_inv ops W ?s'" using inv ins n False by (cases p) (auto simp: pbft_inv_def)
        ultimately show ?thesis by (cases p) (auto simp: good_def same_config_def)
      qed
    qed
  qed
qed

lemma remove_round_inv: "pbft_inv ops W s \<Longrightarrow> pbft_inv ops W (remove_round no s) \<and> same_config s (remove_round no s)"
proof (cases "bt_get (ps_rounds s) no")
  case (Some rd)
  assume inv: "pbft_inv ops W s"
  then have "rounds_ok ops W (ps_bounds s) (ps_rounds s)" "bt_wf cmp_bytes (ps_rounds s)" by (simp_all add: pbft_inv_def rounds_ok_def)
  then show ?thesis using inv Some rounds_bytes_remove [of "ps_rounds s" no rd]
    by (auto simp: remove_round_def pbft_inv_def same_config_def rounds_ok_remove)
qed (simp add: remove_round_def)

lemma completed_inv [simp]: "pbft_inv ops W (s\<lparr> ps_completed := c \<rparr>) = pbft_inv ops W s"
  by (simp add: pbft_inv_def)

text \<open>Replacing a round that has grown by \<open>n\<close> reserved bytes.\<close>

lemma grow_round:
  assumes inv: "pbft_inv ops W s" and get: "bt_get (ps_rounds s) no = Some rd" and ok: "round_ok ops W (ps_bounds s) no rd'"
    and n: "rd_retained_bytes rd' = rd_retained_bytes rd + n" "ps_retained_bytes s + n \<le> pb_max_retained_bytes (ps_bounds s)"
  shows "pbft_inv ops W (s\<lparr> ps_rounds := bt_insert cmp_bytes no rd' (ps_rounds s), ps_retained_bytes := ps_retained_bytes s + n \<rparr>)"
proof -
  have r: "rounds_ok ops W (ps_bounds s) (ps_rounds s)" "bt_wf cmp_bytes (ps_rounds s)" using inv by (simp_all add: pbft_inv_def rounds_ok_def)
  have "no \<in> fst ` set (ps_rounds s)" using get by (metis domI dom_map_of_conv_image_fst)
  then have "rounds_ok ops W (ps_bounds s) (bt_insert cmp_bytes no rd' (ps_rounds s))" using rounds_ok_insert [OF r(1) ok] by blast
  with inv rounds_bytes_insert [OF r(2), of no rd'] get n show ?thesis by (simp add: pbft_inv_def)
qed

section \<open>Commit votes\<close>

lemma votes_certificate:
  assumes "votes_ok ops W Commit i votes" "identity_of raw = i" "rw_msg_type raw = Commit" "q \<le> length votes"
  shows "certificate ops W q \<lparr> cd_raw = raw_bytes ops raw, cd_data_type = rw_data_type raw, cd_number = rw_view_n raw, cd_epoch = rw_epoch raw,
    cd_signatures = map (\<lambda>(_, vote). sg_signature vote) votes \<rparr>"
proof -
  have same: "sg_raw m = raw \<and> recover_witness ops m = Ok w \<and> w \<in> W" if "(w, m) \<in> set votes" for w m
  proof -
    have "identity_of (sg_raw m) = identity_of raw" "rw_msg_type (sg_raw m) = rw_msg_type raw" "recover_witness ops m = Ok w" "w \<in> W"
      using assms(1-3) that by (auto simp: votes_ok_def vote_ok_def)
    then show ?thesis by (auto simp: identity_of_def intro: Raw.equality)
  qed
  have "recover_witness ops \<lparr> sg_raw = raw, sg_signature = sg_signature m \<rparr> = Ok w" if "(w, m) \<in> set votes" for w m
    using same [OF that] by (metis SignedMessage.surjective old.unit.exhaust)
  then have "list_all2 (\<lambda>w sig. recover_witness ops \<lparr> sg_raw = raw, sg_signature = sig \<rparr> = Ok w) (map fst votes) (map (\<lambda>(_, vote). sg_signature vote) votes)"
    by (auto simp: list_all2_conv_all_nth split: prod.split) (metis nth_mem)
  moreover have "distinct (map fst votes)" using assms(1) by (auto simp: votes_ok_def intro: wf_distinct_keys)
  moreover have "set (map fst votes) \<subseteq> W" using same by auto
  ultimately show ?thesis unfolding certificate_def using assms(3,4)
    by (intro exI [of _ raw] exI [of _ "map fst votes"]) simp
qed

lemma add_commit_good:
  assumes inv: "pbft_inv ops W s" and v: "vote_ok ops W Commit w m" and get: "bt_get (ps_rounds s) (raw_no (sg_raw m)) = Some rd"
    and i: "rd_identity rd = Some (identity_of (sg_raw m))" and p: "bt_get (rd_prepare rd) w \<noteq> None" and c: "bt_get (rd_commit rd) w = None"
    and res: "reserve (rd_retained_bytes rd) (encoded_len ops m) s = Ok u"
  shows "good ops W ctx s (add_commit ops m w ctx rd s)"
proof -
  let ?n = "encoded_len ops m" and ?no = "raw_no (sg_raw m)"
  let ?votes = "bt_insert cmp_bytes w m (rd_commit rd)"
  let ?rd = "rd\<lparr> rd_commit := ?votes, rd_retained_bytes := rd_retained_bytes rd + ?n \<rparr>"
  let ?s = "s\<lparr> ps_rounds := bt_insert cmp_bytes ?no ?rd (ps_rounds s), ps_retained_bytes := ps_retained_bytes s + ?n \<rparr>"
  have ro: "round_ok ops W (ps_bounds s) ?no rd" using inv get by (auto simp: pbft_inv_def intro: rounds_ok_get)
  then have vo: "votes_ok ops W Commit (identity_of (sg_raw m)) (rd_commit rd)" using i by (auto simp: round_ok_def)
  have vo': "votes_ok ops W Commit (identity_of (sg_raw m)) ?votes" by (rule votes_ok_insert [OF vo v refl])
  have "w \<in> fst ` set (rd_prepare rd)" using p by (simp add: map_of_eq_None_iff)
  then have "round_ok ops W (ps_bounds s) ?no ?rd"
    using ro i vo' reserve_Ok(1) [OF res] round_charged_vote(1) [of ops rd w m] c vo by (auto simp: round_ok_def votes_ok_def bytes.keys_insert)
  from grow_round [OF inv get this _ reserve_Ok(2) [OF res]] have inv': "pbft_inv ops W ?s" by simp
  let ?q = "quorum_new (ps_quorum s) (length (committee ctx (rw_epoch (sg_raw m))))"
  show ?thesis
  proof (cases "?q \<le> length ?votes")
    case False
    then have "add_commit ops m w ctx rd s = (?s, Ok [])" by (simp add: add_commit_def Let_def quorum_reached_def)
    then show ?thesis using inv' by (simp add: good_def same_config_def)
  next
    case True
    let ?cd = "\<lparr> cd_raw = raw_bytes ops (sg_raw m), cd_data_type = rw_data_type (sg_raw m), cd_number = rw_view_n (sg_raw m),
      cd_epoch = rw_epoch (sg_raw m), cd_signatures = map (\<lambda>(_, vote). sg_signature vote) ?votes \<rparr>"
    have "add_commit ops m w ctx rd s = ((remove_round ?no ?s)\<lparr> ps_completed := bt_insert cmp_bytes ?no (cx_now_millis ctx) (ps_completed (remove_round ?no ?s)) \<rparr>,
        Ok (if cx_syncing ctx then [] else [CommitEffect ?cd]))"
      using True by (simp add: add_commit_def Let_def quorum_reached_def)
    moreover have "certificate ops W ?q ?cd" by (rule votes_certificate [OF vo' refl _ True]) (use v in \<open>simp add: vote_ok_def\<close>)
    ultimately show ?thesis using remove_round_inv [OF inv', of ?no] by (simp add: good_def effect_ok_def same_config_def)
  qed
qed

lemma commit_good:
  assumes inv: "pbft_inv ops W s" and v: "vote_ok ops W Commit w m"
  shows "good ops W ctx s (pbft_commit ops m w ctx s)"
proof -
  have cache: "good ops W ctx s (cache_effects ops False m w now s)" for now by (rule cache_good [OF inv]) (use v in simp)
  show ?thesis
    using add_commit_good [OF inv v] cache
    by (auto simp: pbft_commit_def Let_def split: option.split sum.split dest: reserve_Err intro!: good_Err good_Nil inv)
qed

text \<open>A round never disappears in a commit without being completed.\<close>

definition rounds_kept :: "PbftSidecar \<Rightarrow> PbftSidecar \<Rightarrow> bool" where
  "rounds_kept s s' \<longleftrightarrow> (\<forall>no. bt_get (ps_rounds s) no \<noteq> None \<longrightarrow> bt_get (ps_rounds s') no \<noteq> None \<or> bt_get (ps_completed s') no \<noteq> None)"

lemma rounds_kept_refl [simp]: "rounds_kept s s"
  by (simp add: rounds_kept_def)

lemma cache_kept: "rounds_kept s (fst (cache_effects ops p m w now s))"
  by (auto simp: cache_effects_def cache_pending_def rounds_kept_def Let_def split: option.split sum.split prod.split)

lemma add_commit_kept: "rounds_kept s (fst (add_commit ops m w ctx rd s))"
  by (auto simp: add_commit_def rounds_kept_def Let_def remove_round_def split: option.split)

lemma commit_kept: "rounds_kept s (fst (pbft_commit ops m w ctx s))"
  by (auto simp: pbft_commit_def Let_def cache_kept add_commit_kept split: option.split sum.split)

text \<open>
  What is assumed of a call's context: its committees are within \<open>W\<close>, and a signature made with a
  local signer's key recovers to that signer's witness address.
\<close>

definition ctx_ok :: "'k crypto_ops \<Rightarrow> bytes set \<Rightarrow> 'k PbftContext \<Rightarrow> bool" where
  "ctx_ok ops W ctx \<longleftrightarrow>
     set (cx_current_witnesses ctx) \<union> set (cx_before_witnesses ctx) \<subseteq> W \<and>
     (\<forall>signer \<in> set (cx_local_signers ctx). \<forall>raw m w.
        msg_sign ops raw (ls_key signer) = Ok m \<longrightarrow> recover_witness ops m = Ok w \<longrightarrow> w = ls_witness signer)"

lemma committee_sub: "ctx_ok ops W ctx \<Longrightarrow> set (committee ctx epoch) \<subseteq> W"
  by (auto simp: ctx_ok_def committee_def)

lemma local_vote_ok:
  assumes "ctx_ok ops W ctx" "key \<in> set (signer_keys ctx epoch)" "signed_as ops ty key m = Ok vote" "recover_witness ops vote = Ok w"
  shows "vote_ok ops W ty w vote"
proof -
  obtain signer where "signer \<in> set (cx_local_signers ctx)" "key = ls_key signer" "ls_witness signer \<in> set (committee ctx epoch)"
    using assms(2) by (auto simp: signer_keys_def)
  then have "w \<in> W" using assms committee_sub [OF assms(1)] by (auto simp: ctx_ok_def signed_as_def)
  moreover have "rw_msg_type (sg_raw vote) = ty" using assms(3) by (auto simp: signed_as_def msg_sign_def split: option.splits)
  ultimately show ?thesis using assms(4) by (simp add: vote_ok_def)
qed

lemma signed_as_Err: "signed_as ops ty key m = Err e \<Longrightarrow> e = Crypto"
  by (auto simp: signed_as_def msg_sign_def split: option.splits)

lemma recover_Err: "recover_witness ops m = Err e \<Longrightarrow> e = MissingSignature \<or> e = Crypto"
  by (auto simp: recover_witness_def split: if_splits option.splits)

lemma local_votes_good:
  assumes h: "\<And>s vote w. pbft_inv ops W s \<Longrightarrow> vote_ok ops W ty w vote \<Longrightarrow> good ops W ctx s (handler vote w ctx s)"
  assumes "pbft_inv ops W s" "ctx_ok ops W ctx" "set keys \<subseteq> set (signer_keys ctx epoch)" "\<forall>e \<in> set effects. effect_ok ops W ctx (ps_quorum s) e"
  shows "good ops W ctx s (local_votes ops ty handler m ctx keys effects s)"
  using assms(2-)
proof (induction keys arbitrary: effects s)
  case Nil
  then show ?case by (simp add: good_def)
next
  case (Cons key keys)
  show ?case
  proof (cases "signed_as ops ty key m")
    case (Inl e)
    with signed_as_Err [OF Inl] show ?thesis using Cons.prems(1) by (simp add: good_Err)
  next
    case vote: (Inr vote)
    show ?thesis
    proof (cases "recover_witness ops vote")
      case (Inl e)
      with recover_Err [OF Inl] vote show ?thesis using Cons.prems(1) by (auto intro: good_Err)
    next
      case w: (Inr w)
      have "vote_ok ops W ty w vote" using local_vote_ok [OF Cons.prems(2) _ vote w, of epoch] Cons.prems(3) by simp
      from h [OF Cons.prems(1) this] obtain s1 r where g: "handler vote w ctx s = (s1, r)" "good ops W ctx s (s1, r)"
        by (cases "handler vote w ctx s") simp
      have "good ops W ctx s (case r of Err e \<Rightarrow> (s1, Err e)
        | Ok new \<Rightarrow> local_votes ops ty handler m ctx keys (effects @ Forward (msg_bytes ops vote) # new) s1)"
      proof (rule good_step [OF g(2)])
        fix es assume "pbft_inv ops W s1" "\<forall>e \<in> set es. effect_ok ops W ctx (ps_quorum s1) e"
        moreover have "ps_quorum s1 = ps_quorum s" using g(2) by (simp add: good_def same_config_def)
        ultimately show "good ops W ctx s1 (local_votes ops ty handler m ctx keys (effects @ Forward (msg_bytes ops vote) # es) s1)"
          using Cons.prems by (intro Cons.IH) (auto simp: effect_ok_def)
      qed
      then show ?thesis using vote w g(1) by simp
    qed
  qed
qed

section \<open>Prepare votes and proposals\<close>

lemma replay_commit_good:
  assumes inv: "pbft_inv ops W s"
  shows "good ops W ctx s (replay_commit ops key ctx s)" "rounds_kept s (fst (replay_commit ops key ctx s))"
proof -
  have "good ops W ctx s (replay_commit ops key ctx s) \<and> rounds_kept s (fst (replay_commit ops key ctx s))"
  proof (cases "bt_get (ps_pending_commit s) key")
    case None
    then show ?thesis using inv by (simp add: replay_commit_def good_Nil)
  next
    case (Some x)
    obtain at cached where x: "x = (at, cached)" by (cases x)
    let ?s = "s\<lparr> ps_pending_commit := bt_remove key (ps_pending_commit s), ps_retained_bytes := ps_retained_bytes s - encoded_len ops cached \<rparr>"
    have ok: "pending_ok ops W (ps_bounds s) Commit (ps_pending_commit s)" using inv by (simp add: pbft_inv_def)
    note rm = pending_remove [OF ok Some [unfolded x]]
    have inv': "pbft_inv ops W ?s" using inv rm by (auto simp: pbft_inv_def)
    obtain w where v: "vote_ok ops W Commit w cached" using rm(3) by blast
    then have rec: "recover_witness ops cached = Ok w" by (simp add: vote_ok_def)
    have sc: "same_config s ?s" by (simp add: same_config_def)
    have kept: "rounds_kept s s'" if "rounds_kept ?s s'" for s' using that by (simp add: rounds_kept_def)
    have "replay_commit ops key ctx s = pbft_commit ops cached w ctx ?s" using Some x rec by (simp add: replay_commit_def Let_def)
    then show ?thesis using good_from [OF commit_good [OF inv' v] sc] kept [OF commit_kept] by metis
  qed
  then show "good ops W ctx s (replay_commit ops key ctx s)" "rounds_kept s (fst (replay_commit ops key ctx s))" by simp_all
qed

lemma mark_done_inv:
  assumes inv: "pbft_inv ops W s" and m: "mark_done no s = Some s'"
  shows "pbft_inv ops W s' \<and> same_config s s'"
proof -
  obtain rd where rd: "bt_get (ps_rounds s) no = Some rd" "s' = s\<lparr> ps_rounds := bt_insert cmp_bytes no (rd\<lparr> rd_done := True \<rparr>) (ps_rounds s) \<rparr>"
    using m by (auto simp: mark_done_def split: option.splits)
  have "round_ok ops W (ps_bounds s) no rd" using inv rd(1) by (auto simp: pbft_inv_def intro: rounds_ok_get)
  then have "round_ok ops W (ps_bounds s) no (rd\<lparr> rd_done := True \<rparr>)" by (simp add: round_ok_def round_charged_def)
  from grow_round [OF inv rd(1) this, of 0] inv show ?thesis by (simp add: rd(2) same_config_def pbft_inv_def)
qed

lemma add_prepare_good:
  assumes inv: "pbft_inv ops W s" and ctx: "ctx_ok ops W ctx" and v: "vote_ok ops W Prepare w m"
    and get: "bt_get (ps_rounds s) (raw_no (sg_raw m)) = Some rd" and i: "rd_identity rd = Some (identity_of (sg_raw m))"
    and fresh: "bt_get (rd_prepare rd) w = None" and res: "reserve (rd_retained_bytes rd) (encoded_len ops m) s = Ok u"
  shows "good ops W ctx s (add_prepare ops m w ctx rd s)"
proof -
  let ?n = "encoded_len ops m" and ?no = "raw_no (sg_raw m)"
  let ?votes = "bt_insert cmp_bytes w m (rd_prepare rd)"
  let ?rd = "rd\<lparr> rd_prepare := ?votes, rd_retained_bytes := rd_retained_bytes rd + ?n \<rparr>"
  let ?s = "s\<lparr> ps_rounds := bt_insert cmp_bytes ?no ?rd (ps_rounds s), ps_retained_bytes := ps_retained_bytes s + ?n \<rparr>"
  have ro: "round_ok ops W (ps_bounds s) ?no rd" using inv get by (auto simp: pbft_inv_def intro: rounds_ok_get)
  then have vo: "votes_ok ops W Prepare (identity_of (sg_raw m)) (rd_prepare rd)" using i by (auto simp: round_ok_def)
  have "round_ok ops W (ps_bounds s) ?no ?rd"
    using ro i votes_ok_insert [OF vo v refl] reserve_Ok(1) [OF res] round_charged_vote(2) [of ops rd w m] fresh vo
    by (auto simp: round_ok_def votes_ok_def bytes.keys_insert)
  from grow_round [OF inv get this _ reserve_Ok(2) [OF res]] have inv': "pbft_inv ops W ?s" by simp
  have sc: "same_config s ?s" by (simp add: same_config_def)
  let ?key = "vote_key (sg_raw m) w"
  obtain s1 r where rc: "replay_commit ops ?key ctx ?s = (s1, r)" by fastforce
  have g: "good ops W ctx ?s (s1, r)" and kept: "rounds_kept ?s s1" using replay_commit_good [OF inv', where ctx = ctx and key = ?key] rc by simp_all
  let ?quiet = "rd_done rd \<or> \<not> quorum_reached (quorum_new (ps_quorum s1) (length (committee ctx (rw_epoch (sg_raw m))))) (length ?votes) \<or> cx_syncing ctx"
  let ?k = "\<lambda>effects. if bt_get (ps_completed s1) ?no \<noteq> None then (s1, Ok effects)
    else if ?quiet then (s1, Ok effects)
    else case mark_done ?no s1 of None \<Rightarrow> (s1, Err Panicked)
      | Some s2 \<Rightarrow> local_votes ops Commit (pbft_commit ops) m ctx (signer_keys ctx (rw_epoch (sg_raw m))) effects s2"
  have run: "good ops W ctx ?s (case r of Err e \<Rightarrow> (s1, Err e) | Ok effects \<Rightarrow> ?k effects)"
  proof (rule good_step [OF g])
    fix es assume inv1: "pbft_inv ops W s1" and es: "\<forall>e \<in> set es. effect_ok ops W ctx (ps_quorum s1) e"
    have stop: "good ops W ctx s1 (s1, Ok es)" using inv1 es by (simp add: good_def)
    show "good ops W ctx s1 (?k es)"
    proof (cases "bt_get (ps_completed s1) ?no \<noteq> None \<or> ?quiet")
      case True
      with stop show ?thesis by auto
    next
      case False
      have "bt_get (ps_rounds ?s) ?no \<noteq> None" by simp
      then have "bt_get (ps_rounds s1) ?no \<noteq> None" using kept False unfolding rounds_kept_def by blast
      then obtain s2 where s2: "mark_done ?no s1 = Some s2" by (auto simp: mark_done_def)
      have i2: "pbft_inv ops W s2" "same_config s1 s2" using mark_done_inv [OF inv1 s2] by simp_all
      then have "good ops W ctx s2 (local_votes ops Commit (pbft_commit ops) m ctx (signer_keys ctx (rw_epoch (sg_raw m))) es s2)"
        using es by (intro local_votes_good [where epoch = "rw_epoch (sg_raw m)"] commit_good ctx) (auto simp: same_config_def)
      then show ?thesis using False s2 good_from [OF _ i2(2)] by simp
    qed
  qed
  have eq: "add_prepare ops m w ctx rd s = (case r of Err e \<Rightarrow> (s1, Err e) | Ok effects \<Rightarrow> ?k effects)"
    unfolding add_prepare_def Let_def rc prod.case by (cases r) simp_all
  show ?thesis unfolding eq by (rule good_from [OF run sc])
qed

lemma prepare_good:
  assumes inv: "pbft_inv ops W s" and ctx: "ctx_ok ops W ctx" and v: "vote_ok ops W Prepare w m"
  shows "good ops W ctx s (pbft_prepare ops m w ctx s)"
proof -
  have cache: "good ops W ctx s (cache_effects ops True m w now s)" for now by (rule cache_good [OF inv]) (use v in simp)
  show ?thesis
    using add_prepare_good [OF inv ctx v] cache
    by (auto simp: pbft_prepare_def Let_def split: option.split sum.split dest: reserve_Err intro!: good_Err good_Nil inv)
qed

end
