(* ===== verification/Pbft_Safety.thy ===== *)
theory Pbft_Safety
  imports Pbft_Votes Dynamic_Types
begin

text \<open>
  The sidecar as a state machine: proposals, expiry and the two entry points keep the invariant, so
  in every reachable state commits are certificates of a quorum, the retained bytes stay within the
  bounds, and no \<open>expect\<close> fails. Last, the persistence of a commit on the typed stores.
\<close>

section \<open>Proposals\<close>

lemma take_prepare_inv:
  assumes inv: "pbft_inv ops W s"
  shows "pbft_inv ops W (case bt_get (ps_pending_prepare s) key of None \<Rightarrow> s
      | Some (_, removed) \<Rightarrow> s\<lparr> ps_pending_prepare := bt_remove key (ps_pending_prepare s),
                               ps_retained_bytes := ps_retained_bytes s - encoded_len ops removed \<rparr>) \<and>
    same_config s (case bt_get (ps_pending_prepare s) key of None \<Rightarrow> s
      | Some (_, removed) \<Rightarrow> s\<lparr> ps_pending_prepare := bt_remove key (ps_pending_prepare s),
                               ps_retained_bytes := ps_retained_bytes s - encoded_len ops removed \<rparr>)"
proof (cases "bt_get (ps_pending_prepare s) key")
  case (Some x)
  obtain at m where x: "x = (at, m)" by (cases x)
  have "pending_ok ops W (ps_bounds s) Prepare (ps_pending_prepare s)" using inv by (simp add: pbft_inv_def)
  note rm = pending_remove [OF this Some [unfolded x]]
  show ?thesis using inv rm Some x by (auto simp: pbft_inv_def same_config_def)
qed (use inv in simp)

lemma replay_prepares_good:
  assumes "pbft_inv ops W s" "ctx_ok ops W ctx" "\<forall>(key, m) \<in> set cached. \<exists>w. vote_ok ops W Prepare w m"
    "\<forall>e \<in> set effects. effect_ok ops W ctx (ps_quorum s) e"
  shows "good ops W ctx s (replay_prepares ops ctx cached effects s)"
  using assms
proof (induction cached arbitrary: effects s)
  case Nil
  then show ?case by (simp add: good_def)
next
  case (Cons c cached)
  obtain key m where c: "c = (key, m)" by (cases c)
  let ?s = "case bt_get (ps_pending_prepare s) key of None \<Rightarrow> s
      | Some (_, removed) \<Rightarrow> s\<lparr> ps_pending_prepare := bt_remove key (ps_pending_prepare s),
                               ps_retained_bytes := ps_retained_bytes s - encoded_len ops removed \<rparr>"
  have inv: "pbft_inv ops W ?s" and sc: "same_config s ?s" using take_prepare_inv [OF Cons.prems(1), of key] by simp_all
  obtain w where v: "vote_ok ops W Prepare w m" using Cons.prems(3) c by auto
  then have rec: "recover_witness ops m = Ok w" by (simp add: vote_ok_def)
  from prepare_good [OF inv Cons.prems(2) v] obtain s1 r where g: "pbft_prepare ops m w ctx ?s = (s1, r)" "good ops W ctx ?s (s1, r)"
    by (cases "pbft_prepare ops m w ctx ?s") simp
  have "good ops W ctx ?s (case r of Err e \<Rightarrow> (s1, Err e) | Ok new \<Rightarrow> replay_prepares ops ctx cached (effects @ new) s1)"
  proof (rule good_step [OF g(2)])
    fix es assume "pbft_inv ops W s1" "\<forall>e \<in> set es. effect_ok ops W ctx (ps_quorum s1) e"
    moreover have "ps_quorum s1 = ps_quorum s" using g(2) sc by (simp add: good_def same_config_def)
    ultimately show "good ops W ctx s1 (replay_prepares ops ctx cached (effects @ es) s1)"
      using Cons.prems by (intro Cons.IH) auto
  qed
  then have "good ops W ctx s (case r of Err e \<Rightarrow> (s1, Err e) | Ok new \<Rightarrow> replay_prepares ops ctx cached (effects @ new) s1)"
    by (rule good_from [OF _ sc])
  then show ?case unfolding c replay_prepares.simps Let_def rec sum.case g(1) prod.case .
qed

lemma cached_prepares_ok:
  "pbft_inv ops W s \<Longrightarrow> \<forall>(key, m) \<in> set (cached_prepares i s). \<exists>w. vote_ok ops W Prepare w m"
  by (auto simp: cached_prepares_def pbft_inv_def pending_ok_def)

lemma open_round_inv:
  assumes inv: "pbft_inv ops W s" and none: "bt_get (ps_rounds s) (raw_no (sg_raw m)) = None" and n: "length (ps_rounds s) < pb_max_rounds (ps_bounds s)"
    and res: "reserve 0 (encoded_len ops m) s = Ok u"
  shows "pbft_inv ops W (open_round ops m ctx s) \<and> same_config s (open_round ops m ctx s)"
proof -
  let ?rd = "\<lparr> rd_started_at = cx_now_millis ctx, rd_identity = Some (identity_of (sg_raw m)), rd_prepare = [], rd_commit = [],
    rd_done = False, rd_retained_bytes = encoded_len ops m \<rparr>"
  have r: "rounds_ok ops W (ps_bounds s) (ps_rounds s)" "bt_wf cmp_bytes (ps_rounds s)" using inv by (simp_all add: pbft_inv_def rounds_ok_def)
  have "round_ok ops W (ps_bounds s) (raw_no (sg_raw m)) ?rd"
    using reserve_Ok(1) [OF res] by (auto simp: round_ok_def raw_no_id votes_ok_def round_charged_def votes_bytes_def)
  from rounds_ok_insert [OF r(1) this] n rounds_bytes_insert [OF r(2), of "raw_no (sg_raw m)" ?rd] none inv reserve_Ok(2) [OF res]
  show ?thesis by (simp add: open_round_def Let_def pbft_inv_def same_config_def)
qed

lemma preprepare_good:
  assumes inv: "pbft_inv ops W s" and ctx: "ctx_ok ops W ctx"
  shows "good ops W ctx s (preprepare ops m witness ctx s)"
proof -
  let ?keys = "signer_keys ctx (rw_epoch (sg_raw m))" and ?s = "open_round ops m ctx s"
  let ?first = "if \<not> cx_syncing ctx then local_votes ops Prepare (pbft_prepare ops) m ctx ?keys [] ?s else (?s, Ok [])"
  let ?body = "case ?first of (s, Err e) \<Rightarrow> (s, Err e)
     | (s, Ok effects) \<Rightarrow> replay_prepares ops ctx (cached_prepares (identity_of (sg_raw m)) s) effects s"
  have body: "good ops W ctx s ?body"
    if "bt_get (ps_rounds s) (raw_no (sg_raw m)) = None" "\<not> pb_max_rounds (ps_bounds s) \<le> length (ps_rounds s)"
      "reserve 0 (encoded_len ops m) s = Ok u" for u
  proof -
    have inv': "pbft_inv ops W ?s" and sc: "same_config s ?s" using open_round_inv [OF inv that(1) _ that(3)] that(2) by auto
    obtain s1 r where f: "?first = (s1, r)" by fastforce
    have "good ops W ctx ?s (local_votes ops Prepare (pbft_prepare ops) m ctx ?keys [] ?s)"
      by (rule local_votes_good [where epoch = "rw_epoch (sg_raw m)"]) (use inv' ctx in \<open>auto intro: prepare_good\<close>)
    then have "good ops W ctx ?s ?first" using good_Nil [OF inv'] by simp
    then have g: "good ops W ctx ?s (s1, r)" unfolding f .
    have "good ops W ctx ?s (case r of Err e \<Rightarrow> (s1, Err e)
        | Ok effects \<Rightarrow> replay_prepares ops ctx (cached_prepares (identity_of (sg_raw m)) s1) effects s1)"
      by (rule good_step [OF g]) (rule replay_prepares_good [OF _ ctx cached_prepares_ok])
    then show ?thesis unfolding f prod.case by (rule good_from [OF _ sc])
  qed
  have rm: "good ops W ctx s (remove_round (raw_no (sg_raw m)) s, Ok [])"
    using remove_round_inv [OF inv] by (simp add: good_def)
  show ?thesis
    using body rm unfolding preprepare_def Let_def
    by (auto split: option.split sum.split dest: reserve_Err intro!: good_Err good_Nil inv)
qed

section \<open>Expiry and the entry points\<close>

lemma fold_expire_one:
  assumes "pending_ok ops W b ty votes"
  shows "\<exists>votes'. fold (expire_one ops) keys (votes, n + pending_bytes ops votes) = (votes', n + pending_bytes ops votes') \<and>
    pending_ok ops W b ty votes' \<and> pending_bytes ops votes' \<le> pending_bytes ops votes"
  using assms
proof (induction keys arbitrary: votes)
  case (Cons key keys)
  show ?case
  proof (cases "bt_get votes key")
    case None
    with Cons show ?thesis by (simp add: expire_one_def)
  next
    case (Some x)
    obtain at m where x: "x = (at, m)" by (cases x)
    note rm = pending_remove [OF Cons.prems Some [unfolded x]]
    have "expire_one ops key (votes, n + pending_bytes ops votes) = (bt_remove key votes, n + pending_bytes ops (bt_remove key votes))"
      using Some x rm(2) by (simp add: expire_one_def)
    with Cons.IH [OF rm(1)] rm(2) show ?thesis by fastforce
  qed
qed simp

lemma expire_inv:
  assumes inv: "pbft_inv ops W s"
  shows "pbft_inv ops W (expire ops now s) \<and> same_config s (expire ops now s)"
proof -
  have fr: "pbft_inv ops W (fold remove_round ks s) \<and> same_config s (fold remove_round ks s)" if "pbft_inv ops W s" for ks s
    using that
  proof (induction ks arbitrary: s)
    case (Cons k ks)
    from remove_round_inv [OF Cons.prems, of k] Cons.IH [of "remove_round k s"] show ?case by (auto intro: same_config_trans)
  qed simp
  let ?ks = "map fst (filter (\<lambda>(_, rd). i64_saturating_diff now (rd_started_at rd) > pb_round_timeout_millis (ps_bounds s)) (ps_rounds s))"
  let ?s1 = "fold remove_round ?ks s" and ?ttl = "pb_vote_ttl_millis (ps_bounds s)"
  have i1: "pbft_inv ops W ?s1" and sc: "same_config s ?s1" using fr [OF inv] by blast+
  have b: "ps_bounds ?s1 = ps_bounds s" using sc by (simp add: same_config_def)
  let ?pp = "ps_pending_prepare ?s1" and ?pc = "ps_pending_commit ?s1" and ?R = "rounds_bytes (ps_rounds ?s1)"
  have ok: "pending_ok ops W (ps_bounds ?s1) Prepare ?pp" "pending_ok ops W (ps_bounds ?s1) Commit ?pc" using i1 by (simp_all add: pbft_inv_def)
  obtain pp where pp: "fold (expire_one ops) (expired_keys now ?ttl ?pp) (?pp, (?R + pending_bytes ops ?pc) + pending_bytes ops ?pp) =
      (pp, (?R + pending_bytes ops ?pc) + pending_bytes ops pp)" "pending_ok ops W (ps_bounds ?s1) Prepare pp" "pending_bytes ops pp \<le> pending_bytes ops ?pp"
    using fold_expire_one [OF ok(1)] by blast
  obtain pc where pc: "fold (expire_one ops) (expired_keys now ?ttl ?pc) (?pc, (?R + pending_bytes ops pp) + pending_bytes ops ?pc) =
      (pc, (?R + pending_bytes ops pp) + pending_bytes ops pc)" "pending_ok ops W (ps_bounds ?s1) Commit pc" "pending_bytes ops pc \<le> pending_bytes ops ?pc"
    using fold_expire_one [OF ok(2)] by blast
  have n: "ps_retained_bytes ?s1 = (?R + pending_bytes ops ?pc) + pending_bytes ops ?pp" using i1 by (simp add: pbft_inv_def)
  have e1: "expire_pending ops now ?ttl (?pp, ps_retained_bytes ?s1) = (pp, (?R + pending_bytes ops pp) + pending_bytes ops ?pc)"
    unfolding expire_pending_def prod.case n pp(1) by simp
  have e2: "expire_pending ops now ?ttl (?pc, (?R + pending_bytes ops pp) + pending_bytes ops ?pc) = (pc, (?R + pending_bytes ops pp) + pending_bytes ops pc)"
    unfolding expire_pending_def prod.case pc(1) ..
  have eq: "expire ops now s = ?s1\<lparr> ps_completed := filter (\<lambda>(_, at). i64_saturating_diff now at \<le> ?ttl) (ps_completed ?s1),
      ps_pending_prepare := pp, ps_pending_commit := pc, ps_retained_bytes := (?R + pending_bytes ops pp) + pending_bytes ops pc \<rparr>"
    unfolding expire_def Let_def using e1 e2 b by simp
  show ?thesis unfolding eq using i1 sc pp(2,3) pc(2,3) by (auto simp: pbft_inv_def same_config_def)
qed

lemma dispatch_good:
  assumes inv: "pbft_inv ops W s" and ctx: "ctx_ok ops W ctx"
    and net: "case witness of None \<Rightarrow> rw_msg_type (sg_raw m) = Preprepare | Some w \<Rightarrow> recover_witness ops m = Ok w \<and> w \<in> W"
  shows "good ops W ctx s (dispatch ops m witness ctx s)"
proof -
  have v: "vote_ok ops W (rw_msg_type (sg_raw m)) w m" if "witness = Some w" for w using net that by (simp add: vote_ok_def)
  show ?thesis
    using net preprepare_good [OF inv ctx, of m witness] prepare_good [OF inv ctx] commit_good [OF inv, of _ m ctx] v
    by (auto simp: dispatch_def good_Nil [OF inv] split: MsgType.split option.splits)
qed

lemma entry_good:
  assumes inv: "pbft_inv ops W s" and ctx: "ctx_ok ops W ctx"
  shows "good ops W ctx s (handle ops m ctx s)" "good ops W ctx s (local_preprepare ops m ctx s)"
proof -
  let ?s = "expire ops (cx_now_millis ctx) s"
  have i: "pbft_inv ops W ?s" and sc: "same_config s ?s" using expire_inv [OF inv] by simp_all
  have cs: "e = Capacity" if "checked_size ops m ?s = Err e" for e using that by (auto simp: checked_size_def Let_def split: if_splits)
  have "good ops W ctx ?s (handle ops m ctx s)"
    using dispatch_good [OF i ctx, where witness = "Some w" and m = m for w] committee_sub [OF ctx]
    by (auto simp: handle_def Let_def split: sum.split dest!: cs recover_Err intro!: good_Err i)
  then show "good ops W ctx s (handle ops m ctx s)" by (rule good_from [OF _ sc])
  have "good ops W ctx ?s (local_preprepare ops m ctx s)"
    using dispatch_good [OF i ctx, where witness = None and m = m]
    by (auto simp: local_preprepare_def Let_def split: sum.split dest!: cs intro!: good_Err i)
  then show "good ops W ctx s (local_preprepare ops m ctx s)" by (rule good_from [OF _ sc])
qed

section \<open>Reachable states\<close>

inductive pbft_reach :: "'k crypto_ops \<Rightarrow> bytes set \<Rightarrow> usize option \<Rightarrow> PbftBounds \<Rightarrow> PbftSidecar \<Rightarrow> bool" for ops W q b where
  reach_init: "pbft_reach ops W q b (sidecar_new q b)"
| reach_handle: "pbft_reach ops W q b s \<Longrightarrow> ctx_ok ops W ctx \<Longrightarrow> pbft_reach ops W q b (fst (handle ops m ctx s))"
| reach_local: "pbft_reach ops W q b s \<Longrightarrow> ctx_ok ops W ctx \<Longrightarrow> pbft_reach ops W q b (fst (local_preprepare ops m ctx s))"
| reach_expire: "pbft_reach ops W q b s \<Longrightarrow> pbft_reach ops W q b (expire ops now s)"

lemma pbft_reach_inv: "pbft_reach ops W q b s \<Longrightarrow> pbft_inv ops W s \<and> ps_quorum s = q \<and> ps_bounds s = b"
proof (induction rule: pbft_reach.induct)
  case reach_init
  then show ?case by (simp add: pbft_inv_new) (simp add: sidecar_new_def)
next
  case (reach_handle s ctx m)
  then show ?case using entry_good(1) [of ops W s ctx m] by (simp add: good_def same_config_def)
next
  case (reach_local s ctx m)
  then show ?case using entry_good(2) [of ops W s ctx m] by (simp add: good_def same_config_def)
next
  case (reach_expire s now)
  then show ?case using expire_inv [of ops W s now] by (simp add: same_config_def)
qed

text \<open>A one-member committee with a toy signature scheme: a signature is the key before the digest.\<close>

definition toy_ops :: "u8 crypto_ops" where
  "toy_ops = \<lparr> co_encode_raw = (\<lambda>p. of_int (rp_msg_type p) # rp_data p), co_encode_msg = (\<lambda>m. pm_signature m), co_decode_msg = (\<lambda>_. None),
     co_digest = (\<lambda>bs. bs), co_sign = (\<lambda>k h. Some (k # h)), co_recover = (\<lambda>h sig. if tl sig = h then Some [hd sig] else None) \<rparr>"

definition toy_ctx :: "u8 PbftContext" where
  "toy_ctx = \<lparr> cx_now_millis = 0, cx_syncing = False, cx_chain_switch = False, cx_current_witnesses = [[7]], cx_before_witnesses = [],
     cx_before_maintenance_time = 0, cx_local_signers = [\<lparr> ls_witness = [7], ls_key = 7 \<rparr>],
     cx_expected_proposals = [\<lparr> ep_data_type = Block, ep_view_n = 5, ep_epoch = 1, ep_proposer = [7], ep_data = [42] \<rparr>] \<rparr>"

definition toy_raw :: "MsgType \<Rightarrow> Raw" where
  "toy_raw ty = \<lparr> rw_msg_type = ty, rw_data_type = Block, rw_view_n = 5, rw_epoch = 1, rw_data = [42] \<rparr>"

definition toy_commit :: CommitData where
  "toy_commit = \<lparr> cd_raw = [4, 42], cd_data_type = Block, cd_number = 5, cd_epoch = 1, cd_signatures = [[7, 4, 42]] \<rparr>"

lemma toy_ctx_ok: "ctx_ok toy_ops {[7]} toy_ctx"
  by (auto simp: ctx_ok_def toy_ctx_def toy_ops_def msg_sign_def recover_witness_def split: option.splits if_splits)

definition toy_msg :: "MsgType \<Rightarrow> SignedMessage" where
  "toy_msg ty = \<lparr> sg_raw = toy_raw ty, sg_signature = [7, of_int (msg_wire ty), 42] \<rparr>"

lemma toy_simps [simp]:
  "(toy_raw ty)\<lparr> rw_msg_type := ty' \<rparr> = toy_raw ty'" "rw_msg_type (toy_raw ty) = ty" "rw_data_type (toy_raw ty) = Block" "rw_view_n (toy_raw ty) = 5"
  "rw_epoch (toy_raw ty) = 1" "rw_data (toy_raw ty) = [42]" "sg_raw (toy_msg ty) = toy_raw ty" "sg_signature (toy_msg ty) = [7, of_int (msg_wire ty), 42]"
  "raw_bytes toy_ops (toy_raw ty) = [of_int (msg_wire ty), 42]" "recover_witness toy_ops (toy_msg ty) = Ok [7]"
  "encoded_len toy_ops (toy_msg ty) = 3" "encoded_len toy_ops (unsigned raw) = 0" "sg_raw (unsigned raw) = raw"
  "committee toy_ctx 1 = [[7]]" "signer_keys toy_ctx 1 = [7]" "cx_syncing toy_ctx = False" "cx_chain_switch toy_ctx = False" "cx_now_millis toy_ctx = 0"
  by (simp_all add: toy_raw_def toy_msg_def raw_bytes_def toy_ops_def raw_to_proto_def recover_witness_def encoded_len_def msg_to_proto_def
      unsigned_def committee_def signer_keys_def toy_ctx_def numeral_eq_Suc)

lemma toy_identity [simp]:
  "identity_of (toy_raw Prepare) = identity_of (toy_raw Commit)" "identity_of (toy_raw Preprepare) = identity_of (toy_raw Commit)"
  "raw_no (toy_raw Prepare) = raw_no (toy_raw Commit)" "raw_no (toy_raw Preprepare) = raw_no (toy_raw Commit)"
  by (simp_all add: identity_of_def raw_no_def)

lemma toy_signed [simp]: "sg_raw m = toy_raw ty \<Longrightarrow> signed_as toy_ops ty' 7 m = Ok (toy_msg ty')"
  by (simp add: signed_as_def msg_sign_def toy_msg_def) (simp add: toy_ops_def raw_bytes_def raw_to_proto_def toy_raw_def)

lemma toy_quorum [simp]: "quorum_new None (Suc 0) = Suc 0" "quorum_reached (Suc 0) (Suc 0)"
  by (simp_all add: quorum_new_def DEFAULT_QUORUM_def quorum_reached_def)

lemma toy_run: "\<exists>s' fs. local_preprepare toy_ops (unsigned (toy_raw Preprepare)) toy_ctx (sidecar_new None pbft_bounds_default) =
    (s', Ok (fs @ [CommitEffect toy_commit]))"
proof -
  let ?m = "unsigned (toy_raw Preprepare)" and ?s = "sidecar_new None pbft_bounds_default"
  let ?no = "raw_no (toy_raw Commit)" and ?i = "identity_of (toy_raw Commit)"
  have e: "expected_proposal toy_ctx (toy_raw Preprepare) = Some \<lparr> ep_data_type = Block, ep_view_n = 5, ep_epoch = 1, ep_proposer = [7], ep_data = [42] \<rparr>"
    by (simp add: expected_proposal_def toy_ctx_def)
  have r: "reserve n k s = Ok ()" if "ps_bounds s = pbft_bounds_default" "n < 1000" "k < 1000" "ps_retained_bytes s < 1000" for n k s
    using that by (simp add: reserve_def usize_checked_add_def pbft_bounds_default_def)
  let ?rd = "\<lambda>p c n d. \<lparr> rd_started_at = 0, rd_identity = Some ?i, rd_prepare = p, rd_commit = c, rd_done = d, rd_retained_bytes = n \<rparr>"
  let ?st = "\<lambda>rs n. ?s\<lparr> ps_rounds := rs, ps_retained_bytes := n \<rparr>"
  have commit: "\<exists>s'. pbft_commit toy_ops (toy_msg Commit) [7] toy_ctx (?st [(?no, ?rd [([7], toy_msg Prepare)] [] 3 True)] 3) = (s', Ok [CommitEffect toy_commit])"
    by (simp add: pbft_commit_def sidecar_new_def r Let_def add_commit_def toy_commit_def bytes.cmp_refl pbft_bounds_default_def)
  then obtain s1 where c: "pbft_commit toy_ops (toy_msg Commit) [7] toy_ctx (?st [(?no, ?rd [([7], toy_msg Prepare)] [] 3 True)] 3) =
    (s1, Ok [CommitEffect toy_commit])" by blast
  have prepare: "\<exists>fs. pbft_prepare toy_ops (toy_msg Prepare) [7] toy_ctx (?st [(?no, ?rd [] [] 0 False)] 0) = (s1, Ok (fs @ [CommitEffect toy_commit]))"
    using c by (simp add: pbft_prepare_def sidecar_new_def r Let_def add_prepare_def replay_commit_def mark_done_def bytes.cmp_refl pbft_bounds_default_def)
  then obtain fs where p: "pbft_prepare toy_ops (toy_msg Prepare) [7] toy_ctx (?st [(?no, ?rd [] [] 0 False)] 0) = (s1, Ok (fs @ [CommitEffect toy_commit]))"
    by blast
  have pend: "ps_pending_prepare s1 = []" using c
    by (auto simp: pbft_commit_def sidecar_new_def r Let_def add_commit_def bytes.cmp_refl pbft_bounds_default_def remove_round_def)
  have "preprepare toy_ops ?m None toy_ctx ?s = (s1, Ok ((Forward (msg_bytes toy_ops (toy_msg Prepare)) # fs) @ [CommitEffect toy_commit]))"
    using p pend by (simp add: preprepare_def Let_def e r open_round_def sidecar_new_def cached_prepares_def pbft_bounds_default_def)
  then show ?thesis
    by (auto simp: local_preprepare_def expire_def sidecar_new_def expire_pending_def expired_keys_def Let_def checked_size_def dispatch_def pbft_bounds_default_def)
qed

section \<open>Properties\<close>

text \<open>A call of one of the two entry points that announces a commit.\<close>

definition announces :: "'k crypto_ops \<Rightarrow> bytes set \<Rightarrow> usize option \<Rightarrow> PbftBounds \<Rightarrow> 'k PbftContext \<Rightarrow> CommitData \<Rightarrow> bool" where
  "announces ops W q b ctx cd \<longleftrightarrow> (\<exists>s m s' es. pbft_reach ops W q b s \<and> ctx_ok ops W ctx \<and>
     (handle ops m ctx s = (s', Ok es) \<or> local_preprepare ops m ctx s = (s', Ok es)) \<and> CommitEffect cd \<in> set es)"

lemma announced_certificate:
  assumes "announces ops W q b ctx cd"
  shows "certificate ops W (quorum_new q (length (committee ctx (cd_epoch cd)))) cd"
proof -
  obtain s m s' es where a: "pbft_reach ops W q b s" "ctx_ok ops W ctx" "CommitEffect cd \<in> set es"
    "handle ops m ctx s = (s', Ok es) \<or> local_preprepare ops m ctx s = (s', Ok es)"
    using assms unfolding announces_def by blast
  have "pbft_inv ops W s" "ps_quorum s = q" using pbft_reach_inv [OF a(1)] by simp_all
  moreover have "good ops W ctx s (s', Ok es)"
    using entry_good [OF \<open>pbft_inv ops W s\<close> a(2), of m] a(4) by auto
  ultimately show ?thesis using a(3) by (auto simp: good_def effect_ok_def)
qed

text \<open>
  C13: Every commit the sidecar announces carries a certificate anyone can check: its signatures
  recover, over the one encoded commit message of that height, to distinct authorised witnesses, and
  there are at least as many as the quorum of the committee.
\<close>

theorem commit_certificate:
  assumes "pbft_reach ops W q b s" "ctx_ok ops W ctx"
    and "handle ops m ctx s = (s', Ok es) \<or> local_preprepare ops m ctx s = (s', Ok es)" and "CommitEffect cd \<in> set es"
  shows "certificate ops W (quorum_new q (length (committee ctx (cd_epoch cd)))) cd"
  using assms by (intro announced_certificate [where b = b]) (auto simp: announces_def)

theorem commit_certificate_witness: "certificate toy_ops {[7]} 1 toy_commit"
proof -
  obtain s' fs where "local_preprepare toy_ops (unsigned (toy_raw Preprepare)) toy_ctx (sidecar_new None pbft_bounds_default) =
    (s', Ok (fs @ [CommitEffect toy_commit]))" using toy_run by blast
  then have "certificate toy_ops {[7]} (quorum_new None (length (committee toy_ctx (cd_epoch toy_commit)))) toy_commit"
    by (intro commit_certificate [OF reach_init toy_ctx_ok disjI2]) auto
  moreover have "cd_epoch toy_commit = 1" by (simp add: toy_commit_def)
  ultimately show ?thesis by simp
qed

lemma certificates_intersect:
  assumes "finite W" "certificate ops W q cd" "certificate ops W q' cd'"
  shows "\<exists>C \<subseteq> W. q + q' \<le> card C + card W \<and>
    (\<forall>w \<in> C. (\<exists>sig \<in> set (cd_signatures cd). co_recover ops (co_digest ops (cd_raw cd)) sig = Some w) \<and>
      (\<exists>sig \<in> set (cd_signatures cd'). co_recover ops (co_digest ops (cd_raw cd')) sig = Some w))"
proof -
  have signers: "\<exists>S \<subseteq> W. k \<le> card S \<and> (\<forall>w \<in> S. \<exists>sig \<in> set (cd_signatures d). co_recover ops (co_digest ops (cd_raw d)) sig = Some w)"
    if c: "certificate ops W k d" for k d
  proof -
    obtain raw ws where raw: "cd_raw d = raw_bytes ops raw" "distinct ws" "set ws \<subseteq> W" "k \<le> length ws"
      "list_all2 (\<lambda>w sig. recover_witness ops \<lparr> sg_raw = raw, sg_signature = sig \<rparr> = Ok w) ws (cd_signatures d)"
      using c unfolding certificate_def by blast
    have "\<exists>sig \<in> set (cd_signatures d). co_recover ops (co_digest ops (cd_raw d)) sig = Some w" if "w \<in> set ws" for w
    proof -
      obtain i where "i < length ws" "w = ws ! i" using \<open>w \<in> set ws\<close> by (auto simp: in_set_conv_nth)
      with raw(5) have "cd_signatures d ! i \<in> set (cd_signatures d)"
        "recover_witness ops \<lparr> sg_raw = raw, sg_signature = cd_signatures d ! i \<rparr> = Ok w" by (auto simp: list_all2_conv_all_nth)
      then show ?thesis using raw(1) by (auto simp: recover_witness_def split: if_splits option.splits)
    qed
    then show ?thesis using raw by (intro exI [of _ "set ws"]) (simp add: distinct_card)
  qed
  obtain S S' where S: "S \<subseteq> W" "q \<le> card S" "\<forall>w \<in> S. \<exists>sig \<in> set (cd_signatures cd). co_recover ops (co_digest ops (cd_raw cd)) sig = Some w"
    and S': "S' \<subseteq> W" "q' \<le> card S'" "\<forall>w \<in> S'. \<exists>sig \<in> set (cd_signatures cd'). co_recover ops (co_digest ops (cd_raw cd')) sig = Some w"
    using signers [OF assms(2)] signers [OF assms(3)] by blast
  have "card S + card S' = card (S \<union> S') + card (S \<inter> S')" using S(1) S'(1) assms(1) finite_subset card_Un_Int by metis
  moreover have "card (S \<union> S') \<le> card W" using S(1) S'(1) assms(1) by (simp add: card_mono)
  ultimately have "q + q' \<le> card (S \<inter> S') + card W" using S(2) S'(2) by simp
  then show ?thesis using S S' by (intro exI [of _ "S \<inter> S'"]) blast
qed

text \<open>
  C27: When two nodes, in any states they can reach, announce commits under quorums \<open>q\<close> and \<open>q'\<close> out
  of the witnesses \<open>W\<close>, at least \<open>q + q' - card W\<close> witnesses signed both commit messages: with the
  default quorum of 19 out of 27, two conflicting commits expose 11 witnesses.
\<close>

theorem conflicting_commits_accountable:
  assumes "finite W" "announces ops W q b ctx cd" "announces ops W q' b' ctx' cd'"
  shows "\<exists>C \<subseteq> W. quorum_new q (length (committee ctx (cd_epoch cd))) + quorum_new q' (length (committee ctx' (cd_epoch cd'))) \<le> card C + card W \<and>
    (\<forall>w \<in> C. (\<exists>sig \<in> set (cd_signatures cd). co_recover ops (co_digest ops (cd_raw cd)) sig = Some w) \<and>
      (\<exists>sig \<in> set (cd_signatures cd'). co_recover ops (co_digest ops (cd_raw cd')) sig = Some w))"
  by (rule certificates_intersect [OF assms(1) announced_certificate [OF assms(2)] announced_certificate [OF assms(3)]])

lemma toy_announces: "announces toy_ops {[7]} None pbft_bounds_default toy_ctx toy_commit"
proof -
  obtain s' fs where "local_preprepare toy_ops (unsigned (toy_raw Preprepare)) toy_ctx (sidecar_new None pbft_bounds_default) =
    (s', Ok (fs @ [CommitEffect toy_commit]))" using toy_run by blast
  then show ?thesis unfolding announces_def
    by (intro exI [of _ "sidecar_new None pbft_bounds_default"] exI [of _ "unsigned (toy_raw Preprepare)"] exI conjI reach_init toy_ctx_ok disjI2) auto
qed

theorem conflicting_commits_accountable_witness:
  "\<exists>C \<subseteq> {[7]}. 1 + 1 \<le> card C + card {[7 :: u8]} \<and> (\<forall>w \<in> C. \<exists>sig \<in> set (cd_signatures toy_commit). co_recover toy_ops (co_digest toy_ops (cd_raw toy_commit)) sig = Some w)"
proof -
  have "cd_epoch toy_commit = 1" by (simp add: toy_commit_def)
  then show ?thesis using conflicting_commits_accountable [OF _ toy_announces toy_announces] by fastforce
qed

text \<open>
  C14: In every reachable state the retained bytes are exactly what is held: the counter of every open
  round is the encoded length of a proposal with the round's identity plus the encoded lengths of all
  its prepare and commit votes, and the counter of the sidecar is the sum of these and of the encoded lengths of
  the cached votes. They stay within the configured bounds, as do the number of rounds and the number
  of cached votes; and no message makes the sidecar panic.
\<close>

theorem pbft_bounded:
  assumes "pbft_reach ops W q b s" "ctx_ok ops W ctx"
  shows "(\<forall>(no, rd) \<in> set (ps_rounds s). rd_retained_bytes rd \<le> pb_max_round_bytes b \<and>
      (\<exists>proposal. rd_identity rd = Some (identity_of (sg_raw proposal)) \<and>
        rd_retained_bytes rd = encoded_len ops proposal + votes_bytes ops (rd_prepare rd) + votes_bytes ops (rd_commit rd))) \<and>
    ps_retained_bytes s = rounds_bytes (ps_rounds s) + pending_bytes ops (ps_pending_prepare s) + pending_bytes ops (ps_pending_commit s) \<and>
    ps_retained_bytes s \<le> pb_max_retained_bytes b \<and> length (ps_rounds s) \<le> pb_max_rounds b \<and>
    length (ps_pending_prepare s) \<le> pb_max_votes b \<and> length (ps_pending_commit s) \<le> pb_max_votes b \<and>
    snd (handle ops m ctx s) \<noteq> Err Panicked \<and> snd (local_preprepare ops m ctx s) \<noteq> Err Panicked"
proof -
  have inv: "pbft_inv ops W s" "ps_bounds s = b" using pbft_reach_inv [OF assms(1)] by simp_all
  then have "snd (handle ops m ctx s) \<noteq> Err Panicked \<and> snd (local_preprepare ops m ctx s) \<noteq> Err Panicked"
    using entry_good [OF inv(1) assms(2), of m] by (simp add: good_def)
  with inv show ?thesis by (auto simp: pbft_inv_def rounds_ok_def pending_ok_def round_ok_def round_charged_def)
qed

theorem pbft_bounded_witness:
  "ps_retained_bytes (fst (local_preprepare toy_ops (unsigned (toy_raw Preprepare)) toy_ctx (sidecar_new None pbft_bounds_default)))
   \<le> pb_max_retained_bytes pbft_bounds_default"
  by (rule pbft_bounded [OF reach_local [OF reach_init toy_ctx_ok] toy_ctx_ok, THEN conjunct2, THEN conjunct2, THEN conjunct1])

section \<open>Persistence of a commit\<close>

text \<open>
  C28: Persisting a commit is atomic: when it fails nothing any store shows changes; when it succeeds
  the commit is stored under its key and the PBFT cursor is the maximum of its old value and the
  committed height, for a block commit, and unchanged otherwise.
\<close>

theorem persist_commit_cursor:
  assumes "in_i64 (cd_number data)" "persist_commit enc env data st = (st', r)"
  shows "(case r of
      Err e \<Rightarrow> \<forall>kind key. typed_get st' (kind_name kind) key = typed_get st (kind_name kind) key
    | Ok pc \<Rightarrow> typed_get st' (kind_name KPbft) (commit_key data) = Some (enc (cd_raw data) (cd_signatures data)) \<and>
        latest_pbft st' = (if cd_data_type data = Block then max (latest_pbft st) (cd_number data) else latest_pbft st) \<and>
        pc_latest_pbft_block pc = (if cd_data_type data = Block \<and> cd_number data > latest_pbft st then Some (cd_number data) else None))"
proof -
  let ?v = "enc (cd_raw data) (cd_signatures data)"
  let ?adv = "if cd_data_type data = Block \<and> cd_number data > latest_pbft st then Some (cd_number data) else None"
  let ?put = "Put (physical_key (kind_name KPbft) (commit_key data)) ?v"
  let ?batch = "case ?adv of None \<Rightarrow> [?put]
    | Some n \<Rightarrow> [?put, Put (physical_key (kind_name KCommon) LATEST_PBFT_BLOCK_NUM_KEY) (i64_to_be_bytes n)]"
  obtain st1 r1 where w: "write_with_faults env no_faults ?batch st = (st1, r1)" by fastforce
  have out: "persist_commit enc env data st =
      (st1, case r1 of Err e \<Rightarrow> Err e | Ok _ \<Rightarrow> Ok \<lparr> pc_key = commit_key data, pc_value = ?v, pc_latest_pbft_block = ?adv \<rparr>)"
    using w by (cases r1; cases "cd_data_type data"; cases "latest_pbft st < cd_number data")
      (simp_all add: persist_commit_def persist_atomic_def Let_def state_batch_put_def state_batch_commit_def batch_put_def log_write_def)
  note get = batch_get [OF w]
  have ne: "kind_name KPbft \<noteq> kind_name KCommon" by (simp add: kind_name_def)
  show ?thesis
  proof (cases r1)
    case (Inl e)
    with out assms(2) get show ?thesis by auto
  next
    case (Inr u)
    have "typed_get st1 (kind_name KPbft) (commit_key data) = Some ?v"
      using get [of KPbft "commit_key data"] Inr ne by (auto simp: physical_key_inj split: if_splits)
    moreover have "typed_get st1 (kind_name KCommon) LATEST_PBFT_BLOCK_NUM_KEY =
        (case ?adv of None \<Rightarrow> typed_get st (kind_name KCommon) LATEST_PBFT_BLOCK_NUM_KEY | Some n \<Rightarrow> Some (i64_to_be_bytes n))"
      using get [of KCommon LATEST_PBFT_BLOCK_NUM_KEY] Inr ne by (auto simp: physical_key_inj typed_get_def log_get_def split: if_splits)
    then have "latest_pbft st1 = (if cd_data_type data = Block then max (latest_pbft st) (cd_number data) else latest_pbft st)"
      using assms(1) by (auto simp: latest_pbft_def max_def split: if_splits)
    ultimately show ?thesis using out assms(2) Inr by auto
  qed
qed

lemma toy_persist: "\<exists>st' pc. persist_commit (\<lambda>raw sigs. raw) calm_os toy_commit (fresh_log roomy_options) = (st', Ok pc)"
proof -
  let ?batch = "[Put (physical_key (kind_name KPbft) (commit_key toy_commit)) [4, 42],
    Put (physical_key (kind_name KCommon) LATEST_PBFT_BLOCK_NUM_KEY) (i64_to_be_bytes 5)]"
  let ?w = "write_with_faults calm_os no_faults ?batch (fresh_log roomy_options)"
  have k: "length (commit_key toy_commit) = 6" "length LATEST_PBFT_BLOCK_NUM_KEY = 21" "length (kind_name KPbft) < 20" "length (kind_name KCommon) < 20"
    by (simp_all add: commit_key_def toy_commit_def BLOCK_KEY_PREFIX_def LATEST_PBFT_BLOCK_NUM_KEY_def decimal_def decimal_nat.simps kind_name_def)
  have "snd ?w = Ok ()"
    using k by (simp add: write_with_faults_def ensure_usable_def fresh_log_def encode_batch_def check_limit_def push_u32_def
        encode_bytes_def roomy_options_def encode_frame_def append_frame_def before_def no_faults_def physical_key_def)
  then have w: "?w = (fst ?w, Ok ())" by (metis prod.collapse)
  have "latest_pbft (fresh_log roomy_options) = 0" by (simp add: latest_pbft_def typed_get_def log_get_def fresh_log_def)
  then show ?thesis using w
    by (auto simp: persist_commit_def persist_atomic_def Let_def state_batch_put_def state_batch_commit_def batch_put_def log_write_def
        toy_commit_def split: prod.splits)
qed

theorem persist_commit_cursor_witness:
  "latest_pbft (fst (persist_commit (\<lambda>raw sigs. raw) calm_os toy_commit (fresh_log roomy_options))) = 5"
proof -
  obtain st' pc where p: "persist_commit (\<lambda>raw sigs. raw) calm_os toy_commit (fresh_log roomy_options) = (st', Ok pc)" using toy_persist by blast
  have "latest_pbft (fresh_log roomy_options) = 0" by (simp add: latest_pbft_def typed_get_def log_get_def fresh_log_def)
  moreover have "in_i64 (cd_number toy_commit)" by (simp add: toy_commit_def in_i64_def)
  ultimately show ?thesis using persist_commit_cursor [OF _ p] p by (simp add: toy_commit_def)
qed

end
