(* ===== verification/Fork.thy ===== *)
theory Fork
  imports Dynamic_Types
begin

text \<open>
  The fork controller of \<open>tron-state/src/fork.rs\<close>: witnesses announce the newest version they run, the
  announcements are kept per version as one byte per active witness, and the version number of the
  chain rises when a version passes. The traits \<open>ForkSchedule\<close>, \<open>ForkClock\<close> and \<open>ForkMath\<close> are records
  of their methods; \<open>java_fork_math\<close> is the implementation the node uses. The properties of this
  component are in \<open>Fork_Rules\<close>.
\<close>

section \<open>Schedule, clock and arithmetic\<close>

definition ENERGY_LIMIT_VERSION :: i32 where "ENERGY_LIMIT_VERSION = 5"

record ForkVersion =
  fv_version :: i32
  fv_hard_fork_time :: i64
  fv_hard_fork_rate :: i32

record ForkSchedule =
  fs_versions :: "ForkVersion list"
  fs_old_cutoff :: i32

definition default_old_cutoff :: i32 where "default_old_cutoff = 16"

record ForkClock =
  fc_latest_block_number :: i64
  fc_latest_block_timestamp :: i64

datatype ForkError =
    ForkDynamic DynamicError
  | UnknownVersion i32
  | InvalidInterval
  | TimestampOverflow string
  | InvalidWitnessMembership
  | InvalidForkStatsValue i32 usize u8
  | InvalidWitnessRoster i32
  | InvalidForkStatsSlot i32 usize usize

record ForkMath =
  fm_activation_time :: "i64 \<Rightarrow> i64 \<Rightarrow> (i64, ForkError) result"
  fm_required_witnesses :: "usize \<Rightarrow> i32 \<Rightarrow> usize"

definition checked_op :: "string \<Rightarrow> int \<Rightarrow> (i64, ForkError) result" where
  "checked_op operation x = (if in_i64 x then Ok x else Err (TimestampOverflow operation))"

definition activation_time :: "i64 \<Rightarrow> i64 \<Rightarrow> (i64, ForkError) result" where
  "activation_time time interval =
     (if interval \<le> 0 then Err InvalidInterval
      else and_then (checked_op ''subtract'' (time - 1)) (\<lambda>numerator.
        and_then (checked_op ''divide'' (numerator sdiv interval)) (\<lambda>quotient.
        and_then (checked_op ''add'' (quotient + 1)) (\<lambda>n.
        checked_op ''multiply'' (n * interval)))))"

definition u128_max :: nat where "u128_max = 340282366920938463463374607431768211455"

definition required_witnesses :: "usize \<Rightarrow> i32 \<Rightarrow> usize" where
  "required_witnesses roster rate =
     (min (min (roster * nat (max rate 0)) u128_max + 99) u128_max div 100) mod (usize_max + 1)"

definition java_fork_math :: ForkMath where
  "java_fork_math = \<lparr> fm_activation_time = activation_time, fm_required_witnesses = required_witnesses \<rparr>"

record ForkPassInput =
  fp_target :: ForkVersion
  fp_old_cutoff :: i32
  fp_latest_block_number :: i64
  fp_energy_limit_height :: i64
  fp_latest_block_timestamp :: i64
  fp_maintenance_interval :: i64
  fp_stats :: "bytes option"

definition upgrades :: "bytes \<Rightarrow> usize" where
  "upgrades stats = length (filter (\<lambda>v. v = 1) stats)"

definition evaluate_fork_pass :: "ForkPassInput \<Rightarrow> ForkMath \<Rightarrow> (bool, ForkError) result" where
  "evaluate_fork_pass input math =
     (if fv_version (fp_target input) = ENERGY_LIMIT_VERSION
      then Ok (fp_latest_block_number input \<ge> fp_energy_limit_height input)
      else case fp_stats input of
        None \<Rightarrow> Ok False
      | Some stats \<Rightarrow>
        if stats = [] then Ok False
        else if fv_version (fp_target input) \<le> fp_old_cutoff input then Ok (list_all (\<lambda>v. v = 1) stats)
        else and_then (fm_activation_time math (fv_hard_fork_time (fp_target input)) (fp_maintenance_interval input)) (\<lambda>time.
          if fp_latest_block_timestamp input < time then Ok False
          else Ok (upgrades stats \<ge> fm_required_witnesses math (length stats) (fv_hard_fork_rate (fp_target input)))))"

section \<open>The controller\<close>

text \<open>The store of the properties is the argument \<open>s\<close>; its name is a field.\<close>

record ForkController =
  fk_name :: StoreName
  fk_schedule :: ForkSchedule
  fk_clock :: ForkClock
  fk_math :: ForkMath
  fk_energy_limit_height :: i64

definition find_version :: "ForkController \<Rightarrow> i32 \<Rightarrow> ForkVersion option" where
  "find_version c version = List.find (\<lambda>item. fv_version item = version) (fs_versions (fk_schedule c))"

definition evaluate_stats :: "ForkController \<Rightarrow> ForkVersion \<Rightarrow> bytes option \<Rightarrow> RustLog \<Rightarrow> (bool, ForkError) result" where
  "evaluate_stats c target stats s =
     and_then (map_err ForkDynamic (dp_get_long (fk_name c) ''MAINTENANCE_TIME_INTERVAL'' s)) (\<lambda>interval.
       evaluate_fork_pass \<lparr> fp_target = target, fp_old_cutoff = fs_old_cutoff (fk_schedule c),
           fp_latest_block_number = fc_latest_block_number (fk_clock c), fp_energy_limit_height = fk_energy_limit_height c,
           fp_latest_block_timestamp = fc_latest_block_timestamp (fk_clock c), fp_maintenance_interval = interval,
           fp_stats = stats \<rparr> (fk_math c))"

definition fork_pass :: "ForkController \<Rightarrow> i32 \<Rightarrow> RustLog \<Rightarrow> (bool, ForkError) result" where
  "fork_pass c version s =
     (case find_version c version of
        None \<Rightarrow> Ok False
      | Some target \<Rightarrow> evaluate_stats c target (fork_stats (fk_name c) version s) s)"

type_synonym fork_writes = "(i32, bytes) bt_map"

definition stats_with_writes :: "ForkController \<Rightarrow> i32 \<Rightarrow> fork_writes \<Rightarrow> RustLog \<Rightarrow> bytes option" where
  "stats_with_writes c version writes s =
     (case bt_get writes version of Some stats \<Rightarrow> Some stats | None \<Rightarrow> fork_stats (fk_name c) version s)"

definition pass_with_writes :: "ForkController \<Rightarrow> i32 \<Rightarrow> fork_writes \<Rightarrow> RustLog \<Rightarrow> (bool, ForkError) result" where
  "pass_with_writes c version writes s =
     (case find_version c version of
        None \<Rightarrow> Ok False
      | Some target \<Rightarrow> evaluate_stats c target (stats_with_writes c version writes s) s)"

definition latest_version :: "ForkController \<Rightarrow> RustLog \<Rightarrow> (i32, ForkError) result" where
  "latest_version c s =
     and_then (map_err ForkDynamic (dp_get_optional_raw (fk_name c) ''VERSION_NUMBER'' s)) (\<lambda>v.
       case v of
         None \<Rightarrow> Ok 0
       | Some bs \<Rightarrow> if length bs = 4 then Ok (i32_from_be_bytes bs)
                    else Err (ForkDynamic (InvalidPropertyLength ''VERSION_NUMBER'' 4 (length bs))))"

fun put_writes :: "StoreName \<Rightarrow> fork_writes \<Rightarrow> WriteBatch \<Rightarrow> WriteBatch" where
  "put_writes name [] batch = batch"
| "put_writes name ((fork, stats) # writes) batch = put_writes name writes (state_batch_put name (fork_stats_key fork) stats batch)"

definition fork_commit :: "os \<Rightarrow> ForkController \<Rightarrow> fork_writes \<Rightarrow> i32 option \<Rightarrow> RustLog \<Rightarrow> RustLog \<times> (unit, ForkError) result" where
  "fork_commit env c writes version s =
     (if writes = [] \<and> version = None then (s, Ok ())
      else let batch = put_writes (fk_name c) writes [] in
        case (case version of
                None \<Rightarrow> Ok batch
              | Some v \<Rightarrow> and_then (map_err ForkDynamic (dp_key ''VERSION_NUMBER'')) (\<lambda>key. Ok (state_batch_put (fk_name c) key (i32_to_be_bytes v) batch))) of
          Err e \<Rightarrow> (s, Err e)
        | Ok batch \<Rightarrow> (case commit_mapped env no_faults batch s of (s, r) \<Rightarrow> (s, map_err ForkDynamic r)))"

fun init_scan :: "ForkController \<Rightarrow> ForkVersion list \<Rightarrow> i32 \<Rightarrow> RustLog \<Rightarrow> (i32, ForkError) result" where
  "init_scan c [] latest s = Ok latest"
| "init_scan c (item # items) latest s =
     and_then (fork_pass c (fv_version item) s) (\<lambda>passed.
       init_scan c items (if passed \<and> latest < fv_version item then fv_version item else latest) s)"

definition fork_init :: "os \<Rightarrow> ForkController \<Rightarrow> RustLog \<Rightarrow> RustLog \<times> (i32, ForkError) result" where
  "fork_init env c s =
     (case latest_version c s of
        Err e \<Rightarrow> (s, Err e)
      | Ok latest \<Rightarrow>
        if latest \<noteq> 0 then (s, Ok latest)
        else case init_scan c (fs_versions (fk_schedule c)) latest s of
          Err e \<Rightarrow> (s, Err e)
        | Ok latest \<Rightarrow>
          (case dp_save_int env (fk_name c) ''VERSION_NUMBER'' latest s of
             (s, Err e) \<Rightarrow> (s, Err (ForkDynamic e))
           | (s, Ok _) \<Rightarrow> (s, Ok latest)))"

text \<open>A vote for a version withdraws the witness's votes for every higher version that has not passed.\<close>

fun clear_higher :: "ForkController \<Rightarrow> usize \<Rightarrow> ForkVersion list \<Rightarrow> fork_writes \<Rightarrow> RustLog \<Rightarrow> (fork_writes, ForkError) result" where
  "clear_higher c slot [] writes s = Ok writes"
| "clear_higher c slot (item # items) writes s =
     (case pass_with_writes c (fv_version item) writes s of
        Err e \<Rightarrow> Err e
      | Ok True \<Rightarrow> clear_higher c slot items writes s
      | Ok False \<Rightarrow>
        (case stats_with_writes c (fv_version item) writes s of
           None \<Rightarrow> clear_higher c slot items writes s
         | Some stats \<Rightarrow>
           if slot \<ge> length stats then Err (InvalidForkStatsSlot (fv_version item) slot (length stats))
           else clear_higher c slot items (bt_insert cmp_lin (fv_version item) (stats[slot := 0]) writes) s))"

text \<open>A version that passes marks every lower version as adopted by all witnesses.\<close>

fun fill_lower :: "ForkController \<Rightarrow> usize \<Rightarrow> ForkVersion list \<Rightarrow> fork_writes \<Rightarrow> RustLog \<Rightarrow> (fork_writes, ForkError) result" where
  "fill_lower c roster [] writes s = Ok writes"
| "fill_lower c roster (item # items) writes s =
     (case pass_with_writes c (fv_version item) writes s of
        Err e \<Rightarrow> Err e
      | Ok True \<Rightarrow> fill_lower c roster items writes s
      | Ok False \<Rightarrow>
        let stats = (case stats_with_writes c (fv_version item) writes s of None \<Rightarrow> [] | Some stats \<Rightarrow> stats);
            stats = (if stats = [] then replicate roster 0 else stats) in
        fill_lower c roster items (bt_insert cmp_lin (fv_version item) (map (\<lambda>_. 1) stats) writes) s)"

text \<open>The statistics of the candidate, one byte per active witness.\<close>

definition candidate_stats :: "ForkController \<Rightarrow> bytes list \<Rightarrow> i32 \<Rightarrow> RustLog \<Rightarrow> bytes" where
  "candidate_stats c active candidate s =
     (let stats = (case fork_stats (fk_name c) candidate s of None \<Rightarrow> [] | Some stats \<Rightarrow> stats) in
      if length stats \<noteq> length active then replicate (length active) 0 else stats)"

definition fork_update :: "os \<Rightarrow> ForkController \<Rightarrow> bytes list \<Rightarrow> bytes \<Rightarrow> i32 \<Rightarrow> RustLog \<Rightarrow> RustLog \<times> (unit, ForkError) result" where
  "fork_update env c active witness candidate s =
     (case position (\<lambda>a. a = witness) active of
        None \<Rightarrow> (s, Ok ())
      | Some slot \<Rightarrow>
        (case (if candidate < ENERGY_LIMIT_VERSION then Ok True else and_then (latest_version c s) (\<lambda>latest. Ok (latest \<ge> candidate))) of
           Err e \<Rightarrow> (s, Err e)
         | Ok True \<Rightarrow> (s, Ok ())
         | Ok False \<Rightarrow>
           (case clear_higher c slot (filter (\<lambda>item. fv_version item > candidate) (fs_versions (fk_schedule c))) [] s of
              Err e \<Rightarrow> (s, Err e)
            | Ok writes \<Rightarrow>
              let stats = candidate_stats c active candidate s in
              (case pass_with_writes c candidate writes s of
                 Err e \<Rightarrow> (s, Err e)
               | Ok True \<Rightarrow>
                 (case fill_lower c (length stats) (filter (\<lambda>item. fv_version item < candidate) (fs_versions (fk_schedule c))) writes s of
                    Err e \<Rightarrow> (s, Err e)
                  | Ok writes \<Rightarrow> fork_commit env c writes (Some candidate) s)
               | Ok False \<Rightarrow> fork_commit env c (bt_insert cmp_lin candidate (stats[slot := 1]) writes) None s))))"

fun reset_scan :: "ForkController \<Rightarrow> usize \<Rightarrow> ForkVersion list \<Rightarrow> fork_writes \<Rightarrow> RustLog \<Rightarrow> (fork_writes, ForkError) result" where
  "reset_scan c roster [] writes s = Ok writes"
| "reset_scan c roster (item # items) writes s =
     (if fork_stats (fk_name c) (fv_version item) s = None then reset_scan c roster items writes s
      else and_then (fork_pass c (fv_version item) s) (\<lambda>passed.
        reset_scan c roster items (if passed then writes else bt_insert cmp_lin (fv_version item) (replicate roster 0) writes) s))"

definition fork_reset :: "os \<Rightarrow> ForkController \<Rightarrow> bytes list \<Rightarrow> RustLog \<Rightarrow> RustLog \<times> (unit, ForkError) result" where
  "fork_reset env c active s =
     (case reset_scan c (length active) (fs_versions (fk_schedule c)) [] s of
        Err e \<Rightarrow> (s, Err e)
      | Ok writes \<Rightarrow> fork_commit env c writes None s)"

end
