(* ===== verification/Fork_Rules.thy ===== *)
theory Fork_Rules
  imports Fork
begin

text \<open>
  Properties of the fork controller. The three loops over the schedule are instances of one scan
  that collects at most one write per version; a commit makes those writes, and the version number
  when there is one, visible at once.
\<close>

section \<open>Decimal keys\<close>

definition undigit :: "char \<Rightarrow> nat" where "undigit ch = of_char ch - 48"

definition undecimal :: "string \<Rightarrow> nat" where "undecimal = foldl (\<lambda>n ch. 10 * n + undigit ch) 0"

lemma undigit_digit [simp]: "d < 10 \<Longrightarrow> undigit (digit_char d) = d"
  by (simp add: undigit_def digit_char_def)

lemma undecimal_decimal_nat [simp]: "undecimal (decimal_nat n) = n"
proof (induction n rule: decimal_nat.induct)
  case (1 n)
  then show ?case by (subst decimal_nat.simps) (simp add: undecimal_def)
qed

lemma decimal_nat_inj: "decimal_nat m = decimal_nat n \<longleftrightarrow> m = n"
  by (metis undecimal_decimal_nat)

lemma decimal_nat_no_minus: "hd (decimal_nat n) \<noteq> CHR ''-'' \<and> decimal_nat n \<noteq> []"
proof (induction n rule: decimal_nat.induct)
  case (1 n)
  have "digit_char d \<noteq> CHR ''-''" if "d < 10" for d
  proof
    assume "digit_char d = CHR ''-''"
    then have "(of_char (digit_char d) :: nat) = of_char (CHR ''-'')" by simp
    with that show False by (simp add: digit_char_def)
  qed
  with 1 show ?case by (subst (1 2) decimal_nat.simps) auto
qed

lemma decimal_inj: "decimal a = decimal b \<longleftrightarrow> a = b"
proof -
  have "CHR ''-'' # xs \<noteq> decimal_nat n" for xs n using decimal_nat_no_minus [of n] by (metis list.sel(1))
  moreover from this have "decimal_nat n \<noteq> CHR ''-'' # xs" for xs n by metis
  ultimately show ?thesis by (auto simp: decimal_def decimal_nat_inj)
qed

lemma fork_stats_key_inj [simp]: "fork_stats_key a = fork_stats_key b \<longleftrightarrow> a = b"
  by (simp add: fork_stats_key_def decimal_inj)

section \<open>The commit\<close>

lemma put_writes_eq:
  "put_writes name writes batch = batch @ map (\<lambda>(fork, stats). Put (physical_key name (fork_stats_key fork)) stats) writes"
  by (induction name writes batch rule: put_writes.induct) (simp_all add: state_batch_put_def batch_put_def)

lemma get_puts:
  assumes "inj key" "distinct (map fst ws)"
  shows "bt_get (apply_batch es (map (\<lambda>(f, v). Put (key f) v) ws)) k =
    (if \<exists>f. k = key f \<and> bt_get ws f \<noteq> None then bt_get ws (the_inv key k) else bt_get es k)"
  using assms(2)
proof (induction ws arbitrary: es)
  case (Cons w ws)
  obtain f v where w: "w = (f, v)" by (cases w)
  have none: "bt_get ws f = None" using Cons.prems by (simp add: w map_of_eq_None_iff)
  show ?case using Cons none by (auto simp: w inj_eq [OF assms(1)] the_inv_f_f [OF assms(1)])
qed simp

lemma version_known: "''VERSION_NUMBER'' \<in> known_symbols" "''MAINTENANCE_TIME_INTERVAL'' \<in> known_symbols"
  unfolding KEYS_def known_symbols_def by (simp_all only: list.set image_insert fst_conv insert_iff simp_thms)

lemma dp_key_known: "symbol \<in> known_symbols \<Longrightarrow> dp_key symbol = Ok (known_key symbol)"
  by (simp add: dp_key_def known_key_dynamic ok_or_def)

lemma latest_version_alt:
  "latest_version c s = (case typed_get s (fk_name c) (known_key ''VERSION_NUMBER'') of
       None \<Rightarrow> Ok 0
     | Some bs \<Rightarrow> if length bs = 4 then Ok (i32_from_be_bytes bs)
                  else Err (ForkDynamic (InvalidPropertyLength ''VERSION_NUMBER'' 4 (length bs))))"
  by (simp add: latest_version_def dp_get_optional_raw_def dp_key_known version_known map_err_def)

lemma fork_commit_get:
  assumes "fork_commit env c writes version s = (s', r)" "fk_name c = kind_name kind" "distinct (map fst writes)"
  shows "fork_stats (fk_name c) v s' = (if is_ok r then (case bt_get writes v of Some st \<Rightarrow> Some st | None \<Rightarrow> fork_stats (fk_name c) v s)
      else fork_stats (fk_name c) v s)"
    and "symbol \<in> known_symbols \<Longrightarrow> typed_get s' (fk_name c) (known_key symbol) =
      (case version of Some n \<Rightarrow> if is_ok r \<and> symbol = ''VERSION_NUMBER'' then Some (i32_to_be_bytes n) else typed_get s (fk_name c) (known_key symbol)
       | None \<Rightarrow> typed_get s (fk_name c) (known_key symbol))"
proof -
  let ?key = "\<lambda>f. physical_key (kind_name kind) (fork_stats_key f)"
  let ?puts = "map (\<lambda>(f, st). Put (?key f) st) writes"
  let ?vkey = "physical_key (kind_name kind) (known_key ''VERSION_NUMBER'')"
  let ?batch = "?puts @ (case version of None \<Rightarrow> [] | Some n \<Rightarrow> [Put ?vkey (i32_to_be_bytes n)])"
  have inj: "inj ?key" by (auto simp: inj_def physical_key_inj)
  have "fork_stats (fk_name c) v s' = (if is_ok r then (case bt_get writes v of Some st \<Rightarrow> Some st | None \<Rightarrow> fork_stats (fk_name c) v s)
      else fork_stats (fk_name c) v s) \<and>
    (symbol \<in> known_symbols \<longrightarrow> typed_get s' (fk_name c) (known_key symbol) =
      (case version of Some n \<Rightarrow> if is_ok r \<and> symbol = ''VERSION_NUMBER'' then Some (i32_to_be_bytes n) else typed_get s (fk_name c) (known_key symbol)
       | None \<Rightarrow> typed_get s (fk_name c) (known_key symbol)))"
  proof (cases "writes = [] \<and> version = None")
    case True
    with assms(1) show ?thesis by (simp add: fork_commit_def)
  next
    case False
    obtain s1 r1 where w: "write_with_faults env no_faults ?batch s = (s1, r1)" by fastforce
    with False assms(1,2) have out: "s' = s1" "is_ok r = is_ok r1"
      by (auto simp: fork_commit_def commit_mapped_def put_writes_eq state_batch_put_def batch_put_def dp_key_known version_known map_err_def
          split: option.splits sum.splits)
    note get = batch_get [OF w, of kind]
    have puts: "bt_get (apply_batch (rl_entries s) ?puts) k =
        (if \<exists>f. k = ?key f \<and> bt_get writes f \<noteq> None then bt_get writes (the_inv ?key k) else bt_get (rl_entries s) k)" for k
      using get_puts [OF inj assms(3)] by simp
    have v: "fork_stats (fk_name c) v s = bt_get (rl_entries s) (?key v)"
      by (simp add: fork_stats_def assms(2) typed_get_def log_get_def)
    have 1: "bt_get (apply_batch (rl_entries s) ?batch) (?key v) = (case bt_get writes v of Some st \<Rightarrow> Some st | None \<Rightarrow> bt_get (rl_entries s) (?key v))"
      using version_known fork_key_fresh(1) [of "''VERSION_NUMBER''" v]
      by (auto simp: apply_batch_append puts physical_key_inj the_inv_f_f [OF inj] split: option.splits)
    have 2: "bt_get (apply_batch (rl_entries s) ?batch) (physical_key (kind_name kind) (known_key symbol)) =
        (case version of Some n \<Rightarrow> if symbol = ''VERSION_NUMBER'' then Some (i32_to_be_bytes n) else bt_get (rl_entries s) (physical_key (kind_name kind) (known_key symbol))
         | None \<Rightarrow> bt_get (rl_entries s) (physical_key (kind_name kind) (known_key symbol)))" if "symbol \<in> known_symbols"
      using version_known fork_key_fresh(1) [OF that] fork_key_fresh(1) [OF that, symmetric] that
      by (auto simp: apply_batch_append puts physical_key_inj known_key_inj split: option.splits)
    have old: "typed_get s (kind_name kind) k = bt_get (rl_entries s) (physical_key (kind_name kind) k)" for k
      by (simp add: typed_get_def log_get_def)
    show ?thesis
      using get [of "fork_stats_key v"] get [of "known_key symbol"] 1 2 out
      by (auto simp: fork_stats_def assms(2) old split: option.splits)
  qed
  then show "fork_stats (fk_name c) v s' = (if is_ok r then (case bt_get writes v of Some st \<Rightarrow> Some st | None \<Rightarrow> fork_stats (fk_name c) v s)
      else fork_stats (fk_name c) v s)"
    and "symbol \<in> known_symbols \<Longrightarrow> typed_get s' (fk_name c) (known_key symbol) =
      (case version of Some n \<Rightarrow> if is_ok r \<and> symbol = ''VERSION_NUMBER'' then Some (i32_to_be_bytes n) else typed_get s (fk_name c) (known_key symbol)
       | None \<Rightarrow> typed_get s (fk_name c) (known_key symbol))" by blast+
qed

section \<open>Scanning the schedule\<close>

text \<open>The write a loop makes for one version, from the stored statistics alone.\<close>

fun fork_scan :: "(i32 \<Rightarrow> (bytes option, ForkError) result) \<Rightarrow> i32 list \<Rightarrow> fork_writes \<Rightarrow> (fork_writes, ForkError) result" where
  "fork_scan f [] writes = Ok writes"
| "fork_scan f (v # vs) writes =
     and_then (f v) (\<lambda>w. fork_scan f vs (case w of None \<Rightarrow> writes | Some stats \<Rightarrow> bt_insert cmp_lin v stats writes))"

lemma fork_scan_get:
  assumes "fork_scan f vs writes = Ok writes'" "distinct vs" "bt_wf cmp_lin writes"
  shows "bt_wf cmp_lin writes'" "\<And>v. v \<in> set vs \<Longrightarrow> is_ok (f v)"
    and "\<And>v. bt_get writes' v = (if v \<in> set vs then (case f v of Ok (Some stats) \<Rightarrow> Some stats | _ \<Rightarrow> bt_get writes v) else bt_get writes v)"
proof -
  have "bt_wf cmp_lin writes' \<and> (\<forall>v \<in> set vs. is_ok (f v)) \<and>
    (\<forall>v. bt_get writes' v = (if v \<in> set vs then (case f v of Ok (Some stats) \<Rightarrow> Some stats | _ \<Rightarrow> bt_get writes v) else bt_get writes v))"
    using assms
  proof (induction f vs writes rule: fork_scan.induct)
    case (2 f v vs writes)
    from 2(2) obtain w where w: "f v = Ok w" "fork_scan f vs (case w of None \<Rightarrow> writes | Some stats \<Rightarrow> bt_insert cmp_lin v stats writes) = Ok writes'"
      by (cases "f v") auto
    have "bt_wf cmp_lin (case w of None \<Rightarrow> writes | Some stats \<Rightarrow> bt_insert cmp_lin v stats writes)"
      using 2(4) by (cases w) (simp_all add: lin.wf_insert)
    with 2(1) [OF w(1,2)] 2(3) w show ?case
      by (auto simp: lin.get_insert split: option.splits sum.splits)
  qed simp
  then show "bt_wf cmp_lin writes'" "\<And>v. v \<in> set vs \<Longrightarrow> is_ok (f v)"
    "\<And>v. bt_get writes' v = (if v \<in> set vs then (case f v of Ok (Some stats) \<Rightarrow> Some stats | _ \<Rightarrow> bt_get writes v) else bt_get writes v)"
    by blast+
qed

lemma pass_unwritten: "bt_get writes v = None \<Longrightarrow> pass_with_writes c v writes s = fork_pass c v s"
  by (cases "find_version c v") (simp_all add: pass_with_writes_def fork_pass_def stats_with_writes_def)

lemma stats_unwritten: "bt_get writes v = None \<Longrightarrow> stats_with_writes c v writes s = fork_stats (fk_name c) v s"
  by (simp add: stats_with_writes_def)

lemma insert_unwritten: "v \<noteq> v' \<Longrightarrow> bt_get writes v' = None \<Longrightarrow> bt_get (bt_insert cmp_lin v st writes) v' = None"
  by (simp add: lin.get_insert)

definition withdraw :: "ForkController \<Rightarrow> usize \<Rightarrow> RustLog \<Rightarrow> i32 \<Rightarrow> (bytes option, ForkError) result" where
  "withdraw c slot s v = and_then (fork_pass c v s) (\<lambda>passed.
     if passed then Ok None
     else case fork_stats (fk_name c) v s of
       None \<Rightarrow> Ok None
     | Some stats \<Rightarrow> if slot \<ge> length stats then Err (InvalidForkStatsSlot v slot (length stats)) else Ok (Some (stats[slot := 0])))"

definition adopt :: "ForkController \<Rightarrow> usize \<Rightarrow> RustLog \<Rightarrow> i32 \<Rightarrow> (bytes option, ForkError) result" where
  "adopt c n s v = and_then (fork_pass c v s) (\<lambda>passed.
     if passed then Ok None
     else Ok (Some (replicate (case fork_stats (fk_name c) v s of None \<Rightarrow> n | Some stats \<Rightarrow> if stats = [] then n else length stats) 1)))"

definition clear_stats :: "ForkController \<Rightarrow> usize \<Rightarrow> RustLog \<Rightarrow> i32 \<Rightarrow> (bytes option, ForkError) result" where
  "clear_stats c n s v =
     (if fork_stats (fk_name c) v s = None then Ok None
      else and_then (fork_pass c v s) (\<lambda>passed. Ok (if passed then None else Some (replicate n 0))))"

lemma clear_higher_scan:
  assumes "distinct (map fv_version items)" "\<And>item. item \<in> set items \<Longrightarrow> bt_get writes (fv_version item) = None" "bt_wf cmp_lin writes"
  shows "clear_higher c slot items writes s = fork_scan (withdraw c slot s) (map fv_version items) writes"
  using assms
proof (induction c slot items writes s rule: clear_higher.induct)
  case (2 c slot item items writes s)
  have [simp]: "bt_get writes (fv_version item) = None" using 2(5) by simp
  have ins: "bt_get (bt_insert cmp_lin (fv_version item) st writes) (fv_version i) = None" if "i \<in> set items" for i st
    using that 2(4) 2(5) [of i] by (intro insert_unwritten) (auto simp: image_iff)
  have keep: "bt_get writes (fv_version i) = None" if "i \<in> set items" for i using that 2(5) by simp
  have wf: "bt_wf cmp_lin (bt_insert cmp_lin (fv_version item) st writes)" for st using 2(6) by (simp add: lin.wf_insert)
  show ?case
    using 2(1-3) 2(4,6) ins keep wf
    by (auto simp: withdraw_def pass_unwritten stats_unwritten split: sum.splits bool.splits option.splits)
qed simp

lemma fill_lower_scan:
  assumes "distinct (map fv_version items)" "\<And>item. item \<in> set items \<Longrightarrow> bt_get writes (fv_version item) = None" "bt_wf cmp_lin writes"
  shows "fill_lower c n items writes s = fork_scan (adopt c n s) (map fv_version items) writes"
  using assms
proof (induction c n items writes s rule: fill_lower.induct)
  case (2 c n item items writes s)
  have [simp]: "bt_get writes (fv_version item) = None" using 2(4) by simp
  have ins: "bt_get (bt_insert cmp_lin (fv_version item) st writes) (fv_version i) = None" if "i \<in> set items" for i st
    using that 2(3) 2(4) [of i] by (intro insert_unwritten) (auto simp: image_iff)
  have keep: "bt_get writes (fv_version i) = None" if "i \<in> set items" for i using that 2(4) by simp
  have wf: "bt_wf cmp_lin (bt_insert cmp_lin (fv_version item) st writes)" for st using 2(5) by (simp add: lin.wf_insert)
  have ones: "map (\<lambda>_. 1) xs = replicate (length xs) (1 :: u8)" for xs :: bytes by (simp add: map_replicate_const)
  show ?case
    using 2(1,2) 2(3,5) ins keep wf
    by (auto simp: adopt_def pass_unwritten stats_unwritten Let_def ones split: sum.splits bool.splits option.splits)
qed simp

lemma reset_scan_scan: "reset_scan c n items writes s = fork_scan (clear_stats c n s) (map fv_version items) writes"
proof (induction c n items writes s rule: reset_scan.induct)
  case (2 c n item items writes s)
  then show ?case
    by (cases "fork_pass c (fv_version item) s"; cases "fork_stats (fk_name c) (fv_version item) s") (auto simp: clear_stats_def)
qed simp

section \<open>Updates\<close>

abbreviation versions :: "ForkController \<Rightarrow> i32 list" where
  "versions c \<equiv> map fv_version (fs_versions (fk_schedule c))"

lemma versions_filter: "map fv_version (filter (\<lambda>item. P (fv_version item)) items) = filter P (map fv_version items)"
  by (simp add: filter_map comp_def)

definition eligible :: "ForkController \<Rightarrow> bytes list \<Rightarrow> bytes \<Rightarrow> i32 \<Rightarrow> RustLog \<Rightarrow> bool" where
  "eligible c active witness candidate s \<longleftrightarrow> witness \<in> set active \<and> ENERGY_LIMIT_VERSION \<le> candidate \<and>
     (\<exists>latest. latest_version c s = Ok latest \<and> latest < candidate)"

lemma update_cases:
  assumes "fork_update env c active witness candidate s = (s', r)" "distinct (versions c)"
  obtains (idle) "s' = s" "is_ok r \<Longrightarrow> \<not> eligible c active witness candidate s"
    | (vote) slot latest writes where "position (\<lambda>a. a = witness) active = Some slot" "ENERGY_LIMIT_VERSION \<le> candidate"
        "latest_version c s = Ok latest" "latest < candidate" "fork_scan (withdraw c slot s) (filter (\<lambda>v. candidate < v) (versions c)) [] = Ok writes"
        "fork_pass c candidate s = Ok False"
        "fork_commit env c (bt_insert cmp_lin candidate ((candidate_stats c active candidate s)[slot := 1]) writes) None s = (s', r)"
    | (activate) slot latest writes writes' where "position (\<lambda>a. a = witness) active = Some slot" "ENERGY_LIMIT_VERSION \<le> candidate"
        "latest_version c s = Ok latest" "latest < candidate" "fork_scan (withdraw c slot s) (filter (\<lambda>v. candidate < v) (versions c)) [] = Ok writes"
        "fork_pass c candidate s = Ok True" "fork_scan (adopt c (length active) s) (filter (\<lambda>v. v < candidate) (versions c)) writes = Ok writes'"
        "fork_commit env c writes' (Some candidate) s = (s', r)"
proof -
  let ?items = "fs_versions (fk_schedule c)"
  let ?hi = "filter (\<lambda>item. candidate < fv_version item) ?items" and ?lo = "filter (\<lambda>item. fv_version item < candidate) ?items"
  have d: "distinct (map fv_version ?hi)" "distinct (map fv_version ?lo)" using assms(2) by (simp_all add: distinct_map_filter)
  have len: "length (candidate_stats c active candidate s) = length active" by (simp add: candidate_stats_def Let_def)
  consider (skip) "s' = s" "is_ok r \<Longrightarrow> \<not> eligible c active witness candidate s"
    | (go) slot latest writes where "position (\<lambda>a. a = witness) active = Some slot" "ENERGY_LIMIT_VERSION \<le> candidate" "latest_version c s = Ok latest"
        "latest < candidate" "clear_higher c slot ?hi [] s = Ok writes"
  proof (cases "position (\<lambda>a. a = witness) active")
    case None
    then have "witness \<notin> set active" by auto
    with None assms(1) show thesis by (intro skip) (auto simp: fork_update_def eligible_def simp del: position_None)
  next
    case (Some slot)
    show thesis
    proof (cases "eligible c active witness candidate s")
      case True
      then obtain latest where l: "latest_version c s = Ok latest" "latest < candidate" "ENERGY_LIMIT_VERSION \<le> candidate" by (auto simp: eligible_def)
      show thesis
      proof (cases "clear_higher c slot ?hi [] s")
        case (Inl e)
        with Some l assms(1) show thesis by (intro skip) (auto simp: fork_update_def split: bool.splits)
      next
        case (Inr writes)
        with Some l show thesis by (intro go) auto
      qed
    next
      case False
      have "witness \<in> set active" using position_Some [OF Some] by auto
      with False Some assms(1) show thesis
        by (intro skip; cases "candidate < ENERGY_LIMIT_VERSION"; cases "latest_version c s") (auto simp: fork_update_def eligible_def split: bool.splits)
    qed
  qed
  then show thesis
  proof cases
    case skip
    then show thesis by (rule idle)
  next
    case (go slot latest writes)
    have start: "fork_update env c active witness candidate s =
        (case pass_with_writes c candidate writes s of
           Err e \<Rightarrow> (s, Err e)
         | Ok True \<Rightarrow> (case fill_lower c (length active) ?lo writes s of Err e \<Rightarrow> (s, Err e) | Ok writes \<Rightarrow> fork_commit env c writes (Some candidate) s)
         | Ok False \<Rightarrow> fork_commit env c (bt_insert cmp_lin candidate ((candidate_stats c active candidate s)[slot := 1]) writes) None s)"
      using go by (cases "pass_with_writes c candidate writes s") (simp_all add: fork_update_def Let_def len split: bool.splits)
    have w: "fork_scan (withdraw c slot s) (map fv_version ?hi) [] = Ok writes" using go(5) clear_higher_scan [OF d(1), of "[]"] by simp
    have get: "bt_wf cmp_lin writes" "bt_get writes v = (if v \<in> set (map fv_version ?hi) then (case withdraw c slot s v of Ok (Some st) \<Rightarrow> Some st | _ \<Rightarrow> None) else None)" for v
      using fork_scan_get(1,3) [OF w d(1)] by (simp_all split: sum.splits option.splits)
    have cand: "pass_with_writes c candidate writes s = fork_pass c candidate s" by (rule pass_unwritten) (auto simp: get(2))
    have lo: "fill_lower c (length active) ?lo writes s = fork_scan (adopt c (length active) s) (map fv_version ?lo) writes"
      by (rule fill_lower_scan [OF d(2) _ get(1)]) (auto simp: get(2))
    note w = w [unfolded versions_filter] and lo = lo [unfolded versions_filter [of "\<lambda>v. v < candidate"]]
    show thesis
    proof (cases "fork_pass c candidate s")
      case (Inl e)
      with assms(1) start cand show thesis by (intro idle) auto
    next
      case (Inr passed)
      then show thesis
        using assms(1) start cand lo vote [OF go(1-4) w] activate [OF go(1-4) w] idle
        by (cases passed) (auto split: sum.splits)
    qed
  qed
qed

lemma i32_be_roundtrip [simp]: "in_i32 v \<Longrightarrow> i32_from_be_bytes (i32_to_be_bytes v) = v"
proof -
  assume v: "in_i32 v"
  have "wrap_i32 (v mod 4294967296) = wrap_i32 v" unfolding wrap_i32_def by (simp only: mod_add_left_eq)
  with v show ?thesis by (simp add: i32_from_be_bytes_def i32_to_be_bytes_def be_value_be_bytes)
qed

lemma fork_commit_version:
  assumes "fork_commit env c writes version s = (s', r)" "fk_name c = kind_name kind" "bt_wf cmp_lin writes"
  shows "latest_version c s' = (case version of Some n \<Rightarrow> if is_ok r then Ok (wrap_i32 n) else latest_version c s | None \<Rightarrow> latest_version c s)"
proof -
  have "distinct (map fst writes)" using lin.wf_distinct [OF _ assms(3)] by simp
  note get = fork_commit_get(2) [OF assms(1,2) this version_known(1)]
  have "i32_from_be_bytes (i32_to_be_bytes n) = wrap_i32 n" for n
    by (simp add: i32_from_be_bytes_def i32_to_be_bytes_def be_value_be_bytes wrap_i32_def mod_add_left_eq)
  with get show ?thesis by (auto simp: latest_version_alt split: option.splits)
qed

text \<open>
  C20: The version number of the chain never falls. An update raises it to the announced version exactly
  when it succeeds, an active witness announced a version above the current one (and at least the first
  of the scheme), and that version passes on the votes stored before the update; otherwise it stays.
\<close>

theorem fork_update_version:
  assumes "fork_update env c active witness candidate s = (s', r)" "fk_name c = kind_name kind" "distinct (versions c)"
    and "latest_version c s = Ok latest" "in_i32 candidate"
  shows "\<exists>latest' \<ge> latest. latest_version c s' = Ok latest' \<and>
    latest' = (if is_ok r \<and> eligible c active witness candidate s \<and> fork_pass c candidate s = Ok True then candidate else latest)"
  using assms(1,3)
proof (cases rule: update_cases)
  case idle
  with assms(4) show ?thesis by auto
next
  case (vote slot latest1 writes)
  have "bt_wf cmp_lin writes" using fork_scan_get(1) [OF vote(5)] assms(3) by simp
  then show ?thesis using fork_commit_version [OF vote(7) assms(2)] assms(4) vote(6) by (simp add: lin.wf_insert)
next
  case (activate slot latest1 writes writes')
  have "bt_wf cmp_lin writes" using fork_scan_get(1) [OF activate(5)] assms(3) by simp
  then have "bt_wf cmp_lin writes'" using fork_scan_get(1) [OF activate(7)] assms(3) by simp
  then have "latest_version c s' = (if is_ok r then Ok candidate else Ok latest)"
    using fork_commit_version [OF activate(8) assms(2)] assms(4,5) by simp
  moreover have "eligible c active witness candidate s"
    using activate(2-4) position_Some [OF activate(1)] by (auto simp: eligible_def in_set_conv_nth)
  ultimately show ?thesis using activate(3,4,6) assms(4) by auto
qed

text \<open>
  C21: The effect of an accepted announcement on the votes, for every version. The witness's own vote is
  withdrawn from each higher version that has not passed. When the announced version has not passed,
  the witness's vote is recorded for it, in a table with one entry per active witness; when it has,
  each lower version that has not passed is marked as adopted by everybody. No other vote changes.
\<close>

theorem fork_update_votes:
  assumes "fork_update env c active witness candidate s = (s', r)" "fk_name c = kind_name kind" "distinct (versions c)"
    and "position (\<lambda>a. a = witness) active = Some slot" "ENERGY_LIMIT_VERSION \<le> candidate" "latest_version c s = Ok latest" "latest < candidate"
    and "is_ok r"
  shows "fork_stats (fk_name c) v s' =
    (if v \<in> set (versions c) \<and> candidate < v \<and> fork_pass c v s = Ok False
       then map_option (\<lambda>stats. stats[slot := 0]) (fork_stats (fk_name c) v s)
     else if v = candidate \<and> fork_pass c candidate s = Ok False then Some ((candidate_stats c active candidate s)[slot := 1])
     else if v \<in> set (versions c) \<and> v < candidate \<and> fork_pass c candidate s = Ok True \<and> fork_pass c v s = Ok False
       then Some (replicate (case fork_stats (fk_name c) v s of None \<Rightarrow> length active | Some stats \<Rightarrow> if stats = [] then length active else length stats) 1)
     else fork_stats (fk_name c) v s)"
  using assms(1,3)
proof (cases rule: update_cases)
  case idle
  have "witness \<in> set active" using position_Some [OF assms(4)] by (auto simp: in_set_conv_nth)
  with idle assms(5-8) show ?thesis by (auto simp: eligible_def)
next
  case (vote slot1 latest1 writes)
  have d: "distinct (filter (\<lambda>v. candidate < v) (versions c))" using assms(3) by simp
  note w = fork_scan_get [OF vote(5) d, simplified]
  have "distinct (map fst (bt_insert cmp_lin candidate ((candidate_stats c active candidate s)[slot := 1]) writes))"
    using lin.wf_distinct [OF _ lin.wf_insert [OF _ _ w(1)]] by simp
  then have out: "fork_stats (fk_name c) v s' = (if v = candidate then Some ((candidate_stats c active candidate s)[slot := 1])
      else case bt_get writes v of Some st \<Rightarrow> Some st | None \<Rightarrow> fork_stats (fk_name c) v s)"
    using fork_commit_get(1) [OF vote(7) assms(2), of v] assms(4,8) vote(1) by (simp add: lin.get_insert)
  have slot: "slot1 = slot" using assms(4) vote(1) by simp
  show ?thesis
  proof (cases "candidate < v")
    case True
    with out w(2,3) [of v] slot show ?thesis
      by (cases "fork_pass c v s"; cases "fork_stats (fk_name c) v s") (auto simp: withdraw_def split: if_splits)
  next
    case False
    with out w(3) [of v] vote(6) show ?thesis by auto
  qed
next
  case (activate slot1 latest1 writes writes')
  have d: "distinct (filter (\<lambda>v. candidate < v) (versions c))" "distinct (filter (\<lambda>v. v < candidate) (versions c))" using assms(3) by simp_all
  note w = fork_scan_get [OF activate(5) d(1), simplified]
  note w' = fork_scan_get [OF activate(7) d(2) w(1), simplified]
  have "distinct (map fst writes')" using lin.wf_distinct [OF _ w'(1)] by simp
  then have out: "fork_stats (fk_name c) v s' = (case bt_get writes' v of Some st \<Rightarrow> Some st | None \<Rightarrow> fork_stats (fk_name c) v s)"
    using fork_commit_get(1) [OF activate(8) assms(2), of v] assms(8) by simp
  have slot: "slot1 = slot" using assms(4) activate(1) by simp
  consider "v < candidate" | "v = candidate" | "candidate < v" by linarith
  then show ?thesis
  proof cases
    case 1
    with out w(3) [of v] w'(2,3) [of v] activate(6) show ?thesis
      by (cases "fork_pass c v s") (auto simp: adopt_def)
  next
    case 2
    with out w(3) [of v] w'(3) [of v] activate(6) show ?thesis by simp
  next
    case 3
    with out w(2,3) [of v] w'(3) [of v] slot show ?thesis
      by (cases "fork_pass c v s"; cases "fork_stats (fk_name c) v s") (auto simp: withdraw_def split: if_splits)
  qed
qed

text \<open>
  A maintenance reset clears exactly the votes of the scheduled versions that have votes and have
  not passed, to one zero per active witness, keeps all others and the version number, and is atomic.
\<close>

theorem fork_reset_votes:
  assumes "fork_reset env c active s = (s', r)" "fk_name c = kind_name kind" "distinct (versions c)"
  shows "latest_version c s' = latest_version c s \<and> fork_stats (fk_name c) v s' =
    (if is_ok r \<and> v \<in> set (versions c) \<and> fork_stats (fk_name c) v s \<noteq> None \<and> fork_pass c v s = Ok False then Some (replicate (length active) 0)
     else fork_stats (fk_name c) v s)"
proof (cases "fork_scan (clear_stats c (length active) s) (versions c) []")
  case (Inl e)
  with assms(1) show ?thesis by (auto simp: fork_reset_def reset_scan_scan)
next
  case (Inr writes)
  with assms(1) have commit: "fork_commit env c writes None s = (s', r)" by (simp add: fork_reset_def reset_scan_scan)
  note w = fork_scan_get [OF Inr assms(3), simplified]
  have "distinct (map fst writes)" using lin.wf_distinct [OF _ w(1)] by simp
  from fork_commit_get(1) [OF commit assms(2) this, of v] fork_commit_version [OF commit assms(2) w(1)] w(2,3) [of v]
  show ?thesis
    by (cases "fork_pass c v s"; cases "fork_stats (fk_name c) v s") (auto simp: clear_stats_def split: if_splits)
qed

section \<open>When a version passes\<close>

lemma sdiv_pos: "0 \<le> a \<Longrightarrow> 0 < b \<Longrightarrow> a sdiv b = a div b" for a b :: int
  by (simp add: signed_divide_int_def sgn_if)

lemma activation_time_grid:
  assumes "activation_time time interval = Ok t" "0 < time"
  shows "interval dvd t \<and> time \<le> t \<and> t < time + interval"
proof -
  from assms(1) have i: "0 < interval" "t = ((time - 1) sdiv interval + 1) * interval"
    by (auto simp: activation_time_def checked_op_def split: if_splits)
  with assms(2) have t: "t = (time - 1) div interval * interval + interval" by (simp add: sdiv_pos algebra_simps)
  have "(time - 1) div interval * interval \<le> time - 1" "time - 1 < (time - 1) div interval * interval + interval"
    using pos_mod_sign [OF i(1), of "time - 1"] pos_mod_bound [OF i(1), of "time - 1"] div_mult_mod_eq [of "time - 1" interval] by linarith+
  with t i(2) show ?thesis by auto
qed

lemma required_witnesses_ceiling:
  assumes "n \<le> usize_max" "0 \<le> rate" "rate \<le> 100"
  shows "votes \<ge> required_witnesses n rate \<longleftrightarrow> 100 * int votes \<ge> rate * int n"
proof -
  have le: "n * nat rate \<le> usize_max * 100" using assms by (intro mult_mono) auto
  then have m: "min (min (n * nat rate) u128_max + 99) u128_max = n * nat rate + 99" by (simp add: u128_max_def)
  have "(n * nat rate + 99) div 100 \<le> (usize_max * 100 + 99) div 100" using le by (intro div_le_mono) simp
  then have "required_witnesses n rate = (n * nat rate + 99) div 100" using assms(2) m by (simp add: required_witnesses_def)
  moreover have "int (n * nat rate) = rate * int n" using assms(2) by simp
  ultimately show ?thesis by linarith
qed

text \<open>
  Under the node's arithmetic a version above the old cutoff passes exactly when the chain has reached
  the first point of the maintenance grid at or after the fork time and at least the scheduled
  percentage of the recorded witnesses has upgraded; no rounding or overflow changes the outcome.
\<close>

theorem fork_pass_threshold:
  assumes "fv_version (fp_target input) \<noteq> ENERGY_LIMIT_VERSION" "fp_old_cutoff input < fv_version (fp_target input)"
    and "0 < fv_hard_fork_time (fp_target input)" "0 \<le> fv_hard_fork_rate (fp_target input)" "fv_hard_fork_rate (fp_target input) \<le> 100"
    and "fp_stats input = Some stats" "length stats \<le> usize_max"
    and "evaluate_fork_pass input java_fork_math = Ok passed"
  shows "passed \<longleftrightarrow> stats \<noteq> [] \<and>
    (\<exists>k. fv_hard_fork_time (fp_target input) \<le> k * fp_maintenance_interval input \<and> k * fp_maintenance_interval input \<le> fp_latest_block_timestamp input) \<and>
    100 * int (upgrades stats) \<ge> fv_hard_fork_rate (fp_target input) * int (length stats)"
proof (cases "stats = []")
  case True
  with assms show ?thesis by (simp add: evaluate_fork_pass_def)
next
  case False
  let ?time = "fv_hard_fork_time (fp_target input)" and ?step = "fp_maintenance_interval input"
  from False assms obtain t where t: "activation_time ?time ?step = Ok t"
    by (cases "activation_time ?time ?step") (auto simp: evaluate_fork_pass_def java_fork_math_def)
  then have g: "?step dvd t" "?time \<le> t" "t < ?time + ?step" using activation_time_grid assms(3) by blast+
  have "0 < ?step" using t by (simp add: activation_time_def split: if_splits)
  have "t \<le> now \<longleftrightarrow> (\<exists>k. ?time \<le> k * ?step \<and> k * ?step \<le> now)" for now
  proof
    assume "t \<le> now"
    then show "\<exists>k. ?time \<le> k * ?step \<and> k * ?step \<le> now" using g by (metis dvd_def mult.commute)
  next
    assume "\<exists>k. ?time \<le> k * ?step \<and> k * ?step \<le> now"
    then obtain k where k: "?time \<le> k * ?step" "k * ?step \<le> now" by blast
    obtain j where j: "t = j * ?step" using g(1) by (metis dvd_def mult.commute)
    have "j * ?step < (k + 1) * ?step" using k(1) g(3) j by (simp add: algebra_simps)
    then have "j \<le> k" using \<open>0 < ?step\<close> by (simp add: mult_less_cancel_right)
    then have "j * ?step \<le> k * ?step" using \<open>0 < ?step\<close> by simp
    then show "t \<le> now" using k(2) j by simp
  qed
  moreover have "passed \<longleftrightarrow> t \<le> fp_latest_block_timestamp input \<and> upgrades stats \<ge> required_witnesses (length stats) (fv_hard_fork_rate (fp_target input))"
    using False assms t by (auto simp: evaluate_fork_pass_def java_fork_math_def split: if_splits)
  ultimately show ?thesis using False required_witnesses_ceiling [OF assms(7,4,5)] by simp
qed

section \<open>Concrete runs\<close>

text \<open>Versions 7 and 8 in the schedule; the votes for 7 are the parameter.\<close>

definition demo_fork :: ForkController where
  "demo_fork = \<lparr> fk_name = kind_name KDynamicProperties,
     fk_schedule = \<lparr> fs_versions = [\<lparr> fv_version = 7, fv_hard_fork_time = 0, fv_hard_fork_rate = 100 \<rparr>,
                                    \<lparr> fv_version = 8, fv_hard_fork_time = 0, fv_hard_fork_rate = 100 \<rparr>], fs_old_cutoff = default_old_cutoff \<rparr>,
     fk_clock = \<lparr> fc_latest_block_number = 1, fc_latest_block_timestamp = 1000 \<rparr>, fk_math = java_fork_math, fk_energy_limit_height = 100 \<rparr>"

definition demo_votes :: "bytes \<Rightarrow> RustLog" where
  "demo_votes votes = clock_store\<lparr> rl_entries := (physical_key (kind_name KDynamicProperties) (fork_stats_key 7), votes) # rl_entries clock_store \<rparr>"

lemma demo_fields [simp]:
  "fk_name demo_fork = kind_name KDynamicProperties" "versions demo_fork = [7, 8]" "ensure_usable (demo_votes votes) = Ok ()"
  "rl_options (demo_votes votes) = roomy_options" "dp_get_long (kind_name KDynamicProperties) ''MAINTENANCE_TIME_INTERVAL'' (demo_votes votes) = Ok 60"
  "latest_version demo_fork (demo_votes votes) = Ok 0"
  "fork_stats (kind_name KDynamicProperties) v (demo_votes votes) = (if v = 7 then Some votes else None)"
proof -
  have ne: "''VERSION_NUMBER'' \<noteq> ''NEXT_MAINTENANCE_TIME''" "''VERSION_NUMBER'' \<noteq> ''MAINTENANCE_TIME_INTERVAL''" by simp_all
  note fresh = fork_key_fresh(1) [OF clock_known(1)] fork_key_fresh(1) [OF clock_known(2)] fork_key_fresh(1) [OF version_known(1)]
  note fresh' = fresh [symmetric]
  note inj = known_key_inj [OF version_known(1) clock_known(1)] known_key_inj [OF version_known(1) clock_known(2)]
  have get: "typed_get (demo_votes votes) (kind_name KDynamicProperties) k =
      (if k = fork_stats_key 7 then Some votes else typed_get clock_store (kind_name KDynamicProperties) k)" for k
    by (simp add: demo_votes_def typed_get_def log_get_def physical_key_inj)
  have none: "typed_get clock_store (kind_name KDynamicProperties) (known_key ''VERSION_NUMBER'') = None"
    "typed_get clock_store (kind_name KDynamicProperties) (fork_stats_key v) = None" for v
    using inj ne fresh by (auto simp: clock_store_def typed_get_def log_get_def physical_key_inj)
  show "fk_name demo_fork = kind_name KDynamicProperties" "versions demo_fork = [7, 8]" by (simp_all add: demo_fork_def)
  show "ensure_usable (demo_votes votes) = Ok ()" "rl_options (demo_votes votes) = roomy_options"
    by (simp_all add: demo_votes_def clock_store_def fresh_log_def ensure_usable_def)
  show "dp_get_long (kind_name KDynamicProperties) ''MAINTENANCE_TIME_INTERVAL'' (demo_votes votes) = Ok 60"
    using fresh'(2) get [of "known_key ''MAINTENANCE_TIME_INTERVAL''"] clock_store_get(2) by (auto simp: get_long_known clock_known in_i64_def)
  show "latest_version demo_fork (demo_votes votes) = Ok 0"
    using fresh'(3) get [of "known_key ''VERSION_NUMBER''"] none(1) by (auto simp: latest_version_alt demo_fork_def)
  show "fork_stats (kind_name KDynamicProperties) v (demo_votes votes) = (if v = 7 then Some votes else None)"
    by (simp add: fork_stats_def get none)
qed

lemma demo_pass [simp]:
  "fork_pass demo_fork 7 (demo_votes votes) = Ok (votes \<noteq> [] \<and> list_all (\<lambda>v. v = 1) votes)" "fork_pass demo_fork 8 (demo_votes votes) = Ok False"
  using demo_fields(5,7)
  by (simp_all add: fork_pass_def find_version_def evaluate_stats_def evaluate_fork_pass_def demo_fork_def map_err_def ENERGY_LIMIT_VERSION_def
      default_old_cutoff_def)

lemma demo_commit:
  assumes "writes = [(7, stats)] \<and> version = None \<or> writes = [] \<and> version = Some 7" "length stats \<le> 100"
  shows "\<exists>s'. fork_commit calm_os demo_fork writes version (demo_votes votes) = (s', Ok ())"
proof -
  let ?kind = "kind_name KDynamicProperties"
  let ?batch = "map (\<lambda>(f, st). Put (physical_key ?kind (fork_stats_key f)) st) writes @
    (case version of None \<Rightarrow> [] | Some n \<Rightarrow> [Put (physical_key ?kind (known_key ''VERSION_NUMBER'')) (i32_to_be_bytes n)])"
  have "known_key ''VERSION_NUMBER'' = str_bytes ''VERSION_NUMBER''" unfolding known_key_def dynamic_key_def KEYS_def by simp
  moreover have "length (fork_stats_key 7) = 14" by (simp add: fork_stats_key_def decimal_def decimal_nat.simps)
  ultimately have "list_all small_put ?batch \<and> ?batch \<noteq> [] \<and> length ?batch \<le> 40"
    using assms by (auto simp: small_put_def physical_key_def kind_name_length)
  then obtain s' where "write_with_faults calm_os no_faults ?batch (demo_votes votes) = (s', Ok ())"
    using roomy_write [of "demo_votes votes" ?batch] by auto
  then show ?thesis using assms
    by (auto simp: fork_commit_def commit_mapped_def put_writes_eq state_batch_put_def batch_put_def dp_key_known version_known map_err_def)
qed

lemma demo_items:
  "fs_versions (fk_schedule demo_fork) = [\<lparr> fv_version = 7, fv_hard_fork_time = 0, fv_hard_fork_rate = 100 \<rparr>,
                                    \<lparr> fv_version = 8, fv_hard_fork_time = 0, fv_hard_fork_rate = 100 \<rparr>]"
  by (simp add: demo_fork_def)

lemma demo_update:
  "\<exists>s'. fork_update calm_os demo_fork [[1], [2]] [2] 7 (demo_votes [1, 0]) = (s', Ok ())"
  "\<exists>s'. fork_update calm_os demo_fork [[1], [2]] [2] 7 (demo_votes [1, 1]) = (s', Ok ())"
  using demo_commit [of "[(7, [1, 1])]" "[1, 1]" None "[1, 0]"] demo_commit [of "[]" "[]" "Some 7" "[1, 1]"]
  by (simp_all add: fork_update_def pass_unwritten stats_unwritten ENERGY_LIMIT_VERSION_def Let_def candidate_stats_def demo_items)

theorem fork_update_version_witness:
  "latest_version demo_fork (fst (fork_update calm_os demo_fork [[1], [2]] [2] 7 (demo_votes [1, 1]))) = Ok 7"
proof -
  obtain s' where "fork_update calm_os demo_fork [[1], [2]] [2] 7 (demo_votes [1, 1]) = (s', Ok ())" using demo_update(2) by blast
  from fork_update_version [OF this demo_fields(1) _ demo_fields(6)] this show ?thesis
    by (auto simp: in_i32_def eligible_def ENERGY_LIMIT_VERSION_def)
qed

theorem fork_update_votes_witness:
  "fork_stats (kind_name KDynamicProperties) 7 (fst (fork_update calm_os demo_fork [[1], [2]] [2] 7 (demo_votes [1, 0]))) = Some [1, 1]"
proof -
  obtain s' where u: "fork_update calm_os demo_fork [[1], [2]] [2] 7 (demo_votes [1, 0]) = (s', Ok ())" using demo_update(1) by blast
  from fork_update_votes [OF u demo_fields(1) _ _ _ demo_fields(6), of 1 7] u show ?thesis
    by (simp add: ENERGY_LIMIT_VERSION_def candidate_stats_def)
qed

lemma demo_reset: "\<exists>s'. fork_reset calm_os demo_fork [[1], [2], [3]] (demo_votes [1, 0]) = (s', Ok ())"
  using demo_commit [of "[(7, [0, 0, 0])]" "[0, 0, 0]" None "[1, 0]"]
  by (simp add: fork_reset_def reset_scan_scan clear_stats_def numeral_eq_Suc) 

theorem fork_reset_votes_witness:
  "fork_stats (kind_name KDynamicProperties) 7 (fst (fork_reset calm_os demo_fork [[1], [2], [3]] (demo_votes [1, 0]))) = Some [0, 0, 0]"
proof -
  obtain s' where u: "fork_reset calm_os demo_fork [[1], [2], [3]] (demo_votes [1, 0]) = (s', Ok ())" using demo_reset by blast
  from fork_reset_votes [OF u demo_fields(1), of 7] u show ?thesis by (simp add: numeral_eq_Suc)
qed

theorem fork_pass_threshold_witness:
  "\<exists>k :: int. 100 \<le> k * 60 \<and> k * 60 \<le> 130"
proof -
  let ?input = "\<lparr> fp_target = \<lparr> fv_version = 17, fv_hard_fork_time = 100, fv_hard_fork_rate = 80 \<rparr>, fp_old_cutoff = default_old_cutoff,
    fp_latest_block_number = 1, fp_energy_limit_height = 0, fp_latest_block_timestamp = 130, fp_maintenance_interval = 60, fp_stats = Some [1, 1, 0, 1, 1] \<rparr>"
  have "evaluate_fork_pass ?input java_fork_math = Ok True"
    by (simp add: evaluate_fork_pass_def java_fork_math_def activation_time_def checked_op_def in_i64_def sdiv_pos required_witnesses_def
        u128_max_def upgrades_def ENERGY_LIMIT_VERSION_def default_old_cutoff_def)
  from fork_pass_threshold [OF _ _ _ _ _ _ _ this, of "[1, 1, 0, 1, 1]"] show ?thesis
    by (auto simp: ENERGY_LIMIT_VERSION_def default_old_cutoff_def)
qed

end
