(* ===== verification/Schedule.thy ===== *)
theory Schedule
  imports BTree_Map
begin

text \<open>
  Block production: slots and their times, the rotation of the witnesses, the shuffle and the election of
  the active witnesses (\<open>tron-consensus/src/schedule.rs\<close>), and the guard against double production with the
  production counters (\<open>tron-consensus/src/production.rs\<close>). The clock is the argument \<open>now\<close>.
\<close>

section \<open>Slots\<close>

definition BLOCK_INTERVAL_MS :: i64 where "BLOCK_INTERVAL_MS = 3000"
definition MAX_ACTIVE_WITNESSES :: usize where "MAX_ACTIVE_WITNESSES = 27"
definition SINGLE_REPEAT :: i64 where "SINGLE_REPEAT = 1"
definition RANDOM_GENERATOR_NUMBER :: i64 where "RANDOM_GENERATOR_NUMBER = 2685821657736338717"

lemmas schedule_constants = BLOCK_INTERVAL_MS_def MAX_ACTIVE_WITNESSES_def SINGLE_REPEAT_def

record SlotContext =
  sc_genesis_time :: i64
  sc_head_number :: i64
  sc_head_time :: i64
  sc_head_is_maintenance :: bool
  sc_maintenance_skip_slots :: i64

datatype ScheduleError = ScheduleOverflow | NegativeCurrentSlot | NoActiveWitnesses

definition or_overflow :: "int \<Rightarrow> (i64, ScheduleError) result" where
  "or_overflow x = ok_or (checked_i64 x) ScheduleOverflow"

definition absolute_slot :: "SlotContext \<Rightarrow> i64 \<Rightarrow> i64" where
  "absolute_slot ctx time = wrap_i64 (time - sc_genesis_time ctx) sdiv BLOCK_INTERVAL_MS"

definition slot_time :: "i64 \<Rightarrow> SlotContext \<Rightarrow> i64 \<Rightarrow> (i64, ScheduleError) result" where
  "slot_time now ctx slot =
     (if slot = 0 then Ok now
      else if sc_head_number ctx = 0
      then and_then (or_overflow (slot * BLOCK_INTERVAL_MS)) (\<lambda>offset. or_overflow (sc_genesis_time ctx + offset))
      else and_then (if sc_head_is_maintenance ctx then or_overflow (slot + sc_maintenance_skip_slots ctx) else Ok slot) (\<lambda>slot.
        let delta = wrap_i64 (sc_head_time ctx - sc_genesis_time ctx);
            aligned = wrap_i64 (sc_head_time ctx - delta smod BLOCK_INTERVAL_MS) in
        and_then (or_overflow (slot * BLOCK_INTERVAL_MS)) (\<lambda>offset. or_overflow (aligned + offset))))"

definition slot_at :: "i64 \<Rightarrow> SlotContext \<Rightarrow> i64 \<Rightarrow> (i64, ScheduleError) result" where
  "slot_at now ctx time =
     and_then (slot_time now ctx 1) (\<lambda>first.
       Ok (if time < first then 0 else wrap_i64 (time - first) sdiv BLOCK_INTERVAL_MS + 1))"

definition scheduled_witness :: "SlotContext \<Rightarrow> i64 \<Rightarrow> bytes list \<Rightarrow> (bytes, ScheduleError) result" where
  "scheduled_witness ctx slot active =
     (if active = [] then Err NoActiveWitnesses
      else and_then (or_overflow (absolute_slot ctx (sc_head_time ctx) + slot)) (\<lambda>cur.
        if cur < 0 then Err NegativeCurrentSlot
        else and_then (or_overflow (int (length active))) (\<lambda>n.
          and_then (or_overflow (n * SINGLE_REPEAT)) (\<lambda>repeat_span.
          let index = (cur smod repeat_span) sdiv SINGLE_REPEAT in
          if index < 0 then Err ScheduleOverflow else Ok (active ! nat index)))))"

section \<open>Shuffle and election\<close>

unbundle bit_operations_syntax

definition scramble :: "i64 \<Rightarrow> i64" where
  "scramble v =
     (let v = v XOR drop_bit 12 v;
          v = v XOR wrap_i64 (push_bit 25 v);
          v = v XOR drop_bit 27 v
      in wrap_i64 (v * RANDOM_GENERATOR_NUMBER))"

definition swap :: "'a list \<Rightarrow> usize \<Rightarrow> usize \<Rightarrow> 'a list" where
  "swap items i j = items[i := items ! j, j := items ! i]"

definition shuffle_step :: "i64 \<Rightarrow> usize \<Rightarrow> 'a list \<Rightarrow> 'a list" where
  "shuffle_step head_time_hi i items =
     (let v = scramble (wrap_i64 (head_time_hi + wrap_i64 (int i * RANDOM_GENERATOR_NUMBER)));
          remaining = int (length items) - int i;
          index = wrap_i64 (int i + v smod remaining) in
      if 0 \<le> index \<and> nat index < length items then swap items i (nat index) else items)"

definition java_shuffle :: "'a list \<Rightarrow> i64 \<Rightarrow> 'a list" where
  "java_shuffle items time = fold (shuffle_step (wrap_i64 (push_bit 32 time))) [0..<length items] items"

text \<open>The fields of the generated message \<open>Witness\<close> that production uses.\<close>

record Witness =
  wi_address :: bytes
  wi_vote_count :: i64
  wi_total_produced :: i64
  wi_total_missed :: i64
  wi_latest_block_num :: i64
  wi_latest_slot_num :: i64

definition java_bytes_hash :: "bytes \<Rightarrow> i32" where
  "java_bytes_hash bs =
     (let h = fold (\<lambda>b h. wrap_i32 (wrap_i32 (h * 31) + sint b)) bs (wrap_i32 (int (length bs))) in if h = 0 then 1 else h)"

definition nibbles :: "bytes \<Rightarrow> nat list" where
  "nibbles bs = concat (map (\<lambda>b. [unat (drop_bit 4 b), unat (b AND 15)]) bs)"

definition hex_desc :: "bytes \<Rightarrow> bytes \<Rightarrow> ordering" where
  "hex_desc left right = cmp_lex cmp_lin (nibbles right) (nibbles left)"

definition witness_cmp :: "bool \<Rightarrow> Witness \<Rightarrow> Witness \<Rightarrow> ordering" where
  "witness_cmp optimized left right =
     then_with (cmp_lin (wi_vote_count right) (wi_vote_count left))
       (if optimized then hex_desc (wi_address left) (wi_address right)
        else cmp_lin (java_bytes_hash (wi_address right)) (java_bytes_hash (wi_address left)))"

definition sort_witnesses :: "bool \<Rightarrow> Witness list \<Rightarrow> Witness list" where
  "sort_witnesses optimized witnesses = sort_by (witness_cmp optimized) witnesses"

definition sort_and_truncate_active :: "Witness list \<Rightarrow> bool \<Rightarrow> bytes list" where
  "sort_and_truncate_active witnesses optimized = map wi_address (take MAX_ACTIVE_WITNESSES (sort_witnesses optimized witnesses))"

section \<open>The production guard\<close>

definition sat_i64 :: "int \<Rightarrow> i64" where
  "sat_i64 x = max i64_min (min i64_max x)"

datatype BackupRole = Master | Backup

datatype ProductionState =
    ProductionOk | NotSynced | DuplicateWitness | ClockError | NotMyTurn | NotTimeYet | PermissionError | LowParticipation
  | ProduceBlockFailed | BackupIsNotMaster | Equivocated

record ProductionPlan =
  pp_slot :: i64
  pp_timestamp :: i64
  pp_timeout :: i64
  pp_witness :: bytes

record ReceivedBlock =
  rb_number :: i64
  rb_id :: bytes
  rb_timestamp :: i64
  rb_witness :: bytes
  rb_generated_by_self :: bool

definition BLOCK_ID_LEN :: usize where "BLOCK_ID_LEN = 32"
definition WITNESS_ADDRESS_LEN :: usize where "WITNESS_ADDRESS_LEN = 21"
definition SEEN_HEIGHT_WINDOW :: i64 where "SEEN_HEIGHT_WINDOW = 200"
definition SEEN_SLOT_WINDOW :: i64 where "SEEN_SLOT_WINDOW = int MAX_ACTIVE_WITNESSES"
definition SEEN_CAPACITY :: usize where "SEEN_CAPACITY = 200"

record SeenBlock =
  sb_id :: bytes
  sb_height :: i64

type_synonym seen_key = "i64 \<times> bytes"

record ProductionGuard =
  pg_duplicate_until :: i64
  pg_local_block :: "bytes option"
  pg_latest_height :: i64
  pg_seen :: "(seen_key, SeenBlock) bt_map"

definition guard_new :: ProductionGuard where
  "guard_new = \<lparr> pg_duplicate_until = 0, pg_local_block = None, pg_latest_height = 0, pg_seen = [] \<rparr>"

definition guard_state :: "i64 \<Rightarrow> ProductionGuard \<Rightarrow> i64 \<Rightarrow> i32 \<Rightarrow> i32 \<Rightarrow> bool \<Rightarrow> BackupRole \<Rightarrow> ProductionState" where
  "guard_state now g head_time participation minimum synced role =
     (if now < head_time then ClockError
      else if \<not> synced then NotSynced
      else if role \<noteq> Master then BackupIsNotMaster
      else if now \<le> pg_duplicate_until g then DuplicateWitness
      else if participation < minimum then LowParticipation
      else ProductionOk)"

definition map_schedule :: "ScheduleError \<Rightarrow> ProductionState" where
  "map_schedule e = (case e of NoActiveWitnesses \<Rightarrow> ProduceBlockFailed | NegativeCurrentSlot \<Rightarrow> ProduceBlockFailed | ScheduleOverflow \<Rightarrow> ProduceBlockFailed)"

definition sched :: "('a, ScheduleError) result \<Rightarrow> ('a, ProductionState) result" where
  "sched r = (case r of Err e \<Rightarrow> Err (map_schedule e) | Ok x \<Rightarrow> Ok x)"

definition plan :: "i64 \<Rightarrow> SlotContext \<Rightarrow> bytes list \<Rightarrow> bytes set \<Rightarrow> i64 \<Rightarrow> (ProductionPlan, ProductionState) result" where
  "plan now ctx active local timeout_percent =
     and_then (sched (slot_at now ctx (sat_i64 (now + 50)))) (\<lambda>slot.
       if slot = 0 then Err NotTimeYet
       else and_then (sched (scheduled_witness ctx slot active)) (\<lambda>witness.
         if witness \<notin> local then Err NotMyTurn
         else and_then (sched (slot_time now ctx slot)) (\<lambda>timestamp.
           and_then (ok_or (checked_i64 (timestamp + sat_i64 ((BLOCK_INTERVAL_MS sdiv 2) * timeout_percent) sdiv 100)) ProduceBlockFailed) (\<lambda>timeout.
           Ok \<lparr> pp_slot = slot, pp_timestamp = timestamp, pp_timeout = timeout, pp_witness = witness \<rparr>))))"

definition valid_structure :: "ReceivedBlock \<Rightarrow> i64 \<Rightarrow> bool" where
  "valid_structure block now \<longleftrightarrow> rb_number block \<ge> 0 \<and> length (rb_id block) = BLOCK_ID_LEN \<and>
     length (rb_witness block) = WITNESS_ADDRESS_LEN \<and> rb_timestamp block \<ge> sat_i64 (now - BLOCK_INTERVAL_MS)"

definition arm_duplicate :: "i64 \<Rightarrow> ProductionGuard \<Rightarrow> ProductionGuard" where
  "arm_duplicate now g =
     (if now > pg_duplicate_until g
      then g\<lparr> pg_duplicate_until := sat_i64 (now + sat_i64 (BLOCK_INTERVAL_MS * int MAX_ACTIVE_WITNESSES)) \<rparr> else g)"

definition prune :: "i64 \<Rightarrow> i64 \<Rightarrow> ProductionGuard \<Rightarrow> ProductionGuard" where
  "prune height now g =
     (let latest = max (pg_latest_height g) height;
          oldest_height = sat_i64 (latest - SEEN_HEIGHT_WINDOW);
          oldest_time = sat_i64 (now - sat_i64 (BLOCK_INTERVAL_MS * SEEN_SLOT_WINDOW)) in
      g\<lparr> pg_latest_height := latest,
         pg_seen := filter (\<lambda>((timestamp, _), seen). timestamp \<ge> oldest_time \<and> sb_height seen \<ge> oldest_height) (pg_seen g) \<rparr>)"

definition seen_cmp :: "seen_key \<Rightarrow> seen_key \<Rightarrow> ordering" where
  "seen_cmp a b = then_with (cmp_lin (fst a) (fst b)) (cmp_bytes (snd a) (snd b))"

text \<open>\<open>min_by_key\<close> with the key \<open>(height, key)\<close>: the first of the least rows.\<close>

definition older :: "seen_key \<times> SeenBlock \<Rightarrow> seen_key \<times> SeenBlock \<Rightarrow> seen_key \<times> SeenBlock" where
  "older p q = (if then_with (cmp_lin (sb_height (snd p)) (sb_height (snd q))) (seen_cmp (fst p) (fst q)) = Less then p else q)"

fun oldest :: "(seen_key, SeenBlock) bt_map \<Rightarrow> seen_key option" where
  "oldest [] = None"
| "oldest (p # m) = Some (fst (fold older m p))"

lemma fold_choice: "(\<And>p q. f p q = p \<or> f p q = q) \<Longrightarrow> fold f m q \<in> insert q (set m)"
proof (induction m arbitrary: q)
  case (Cons p m)
  have "fold f m (f p q) \<in> insert (f p q) (set m)" using Cons by blast
  with Cons.prems [of p q] show ?case by (elim disjE) auto
qed simp

lemma oldest_in: "oldest m = Some k \<Longrightarrow> k \<in> fst ` set m"
proof (cases m)
  case (Cons p m')
  have "fold older m' p \<in> insert p (set m')" by (rule fold_choice) (simp add: older_def)
  moreover assume "oldest m = Some k"
  ultimately show ?thesis using Cons by auto
qed simp

lemma bt_remove_shorter: "k \<in> fst ` set m \<Longrightarrow> length (bt_remove k m) < length m"
  unfolding bt_remove_def by (auto intro: length_filter_less [where x = "(k, v)" for v])

function evict_seen :: "(seen_key, SeenBlock) bt_map \<Rightarrow> (seen_key, SeenBlock) bt_map" where
  "evict_seen m =
     (if length m > SEEN_CAPACITY then (case oldest m of Some key \<Rightarrow> evict_seen (bt_remove key m) | None \<Rightarrow> m) else m)"
  by pat_completeness auto
termination
  by (relation "measure length") (simp_all add: bt_remove_shorter oldest_in)

declare evict_seen.simps [simp del]

definition retain :: "ReceivedBlock \<Rightarrow> i64 \<Rightarrow> ProductionGuard \<Rightarrow> ProductionGuard" where
  "retain block now g =
     (let g = prune (rb_number block) now g in
      g\<lparr> pg_seen := evict_seen (bt_insert seen_cmp (rb_timestamp block, rb_witness block)
           \<lparr> sb_id = rb_id block, sb_height = rb_number block \<rparr> (pg_seen g)) \<rparr>)"

definition produced :: "i64 \<Rightarrow> ReceivedBlock \<Rightarrow> ProductionGuard \<Rightarrow> ProductionGuard" where
  "produced now block g =
     (if \<not> valid_structure block now then g else retain block now (g\<lparr> pg_local_block := Some (rb_id block) \<rparr>))"

definition receive :: "i64 \<Rightarrow> ReceivedBlock \<Rightarrow> bytes set \<Rightarrow> bool \<Rightarrow> bool \<Rightarrow> ProductionGuard \<Rightarrow> ProductionGuard \<times> ProductionState" where
  "receive now block local_witnesses syncing block_handle_ok g =
     (if \<not> valid_structure block now then (g, ProductionOk)
      else if rb_generated_by_self block then (produced now block g, ProductionOk)
      else if pg_local_block g = Some (rb_id block) \<or> syncing \<or> rb_witness block \<notin> local_witnesses then (g, ProductionOk)
      else if \<not> block_handle_ok then (arm_duplicate now g, DuplicateWitness)
      else if (case pg_local_block g of None \<Rightarrow> False | Some own \<Rightarrow> cmp_bytes own (rb_id block) = Greater) then (g, ProductionOk)
      else
        let g = prune (rb_number block) now g in
        if (case bt_get (pg_seen g) (rb_timestamp block, rb_witness block) of None \<Rightarrow> False | Some seen \<Rightarrow> sb_id seen \<noteq> rb_id block)
        then (arm_duplicate now g, Equivocated)
        else (arm_duplicate now (retain block now g), DuplicateWitness))"

section \<open>Production counters\<close>

definition bt_modify :: "bytes \<Rightarrow> ('a \<Rightarrow> 'a) \<Rightarrow> (bytes, 'a) bt_map \<Rightarrow> (bytes, 'a) bt_map" where
  "bt_modify key f m = (case bt_get m key of None \<Rightarrow> m | Some v \<Rightarrow> bt_insert cmp_bytes key (f v) m)"

definition record_missed :: "bytes list \<Rightarrow> int \<Rightarrow> (bytes, Witness) bt_map \<Rightarrow> (bytes, Witness) bt_map" where
  "record_missed active missed_slot witnesses =
     bt_modify (active ! nat (missed_slot mod int (length active)))
       (\<lambda>w. w\<lparr> wi_total_missed := sat_i64 (wi_total_missed w + 1), wi_latest_slot_num := missed_slot \<rparr>) witnesses"

definition account_production :: "bytes list \<Rightarrow> i64 \<Rightarrow> i64 \<Rightarrow> bytes \<Rightarrow> (bytes, Witness) bt_map \<Rightarrow> (bytes, Witness) bt_map" where
  "account_production active previous_slot current_slot block_witness witnesses =
     (let witnesses = (if current_slot > wrap_i64 (previous_slot + 1) \<and> active \<noteq> []
                       then fold (record_missed active) [wrap_i64 (previous_slot + 1)..current_slot - 1] witnesses else witnesses) in
      bt_modify block_witness
        (\<lambda>w. w\<lparr> wi_total_produced := sat_i64 (wi_total_produced w + 1), wi_latest_slot_num := current_slot \<rparr>) witnesses)"

definition account_block_production :: "bytes list \<Rightarrow> i64 \<Rightarrow> i64 \<Rightarrow> i64 \<Rightarrow> bytes \<Rightarrow> (bytes, Witness) bt_map \<Rightarrow> (bytes, Witness) bt_map" where
  "account_block_production active previous_slot current_slot block_number block_witness witnesses =
     bt_modify block_witness (\<lambda>w. w\<lparr> wi_latest_block_num := block_number \<rparr>)
       (account_production active previous_slot current_slot block_witness witnesses)"

text \<open>The ring of filled slots: an index outside of it panics.\<close>

definition apply_filled_slot :: "bytes \<Rightarrow> usize \<Rightarrow> bool \<Rightarrow> (bytes \<times> usize) option" where
  "apply_filled_slot slots index filled =
     (if index < length slots then Some (slots[index := (if filled then 49 else 48)], (index + 1) mod length slots) else None)"

definition participation :: "bytes \<Rightarrow> i32" where
  "participation slots = int (100 * length (filter (\<lambda>slot. slot = 49) slots) div length slots)"

end
