(* ===== verification/Schedule_Rules.thy ===== *)
theory Schedule_Rules
  imports Schedule
begin

text \<open>
  Properties of block production: slot numbers and times are inverse to each other, witnesses take
  turns, the election does not depend on the order of the candidates, accusations of equivocation
  are backed by two blocks, and missed slots are charged to the witness whose turn it was.
\<close>

section \<open>Slots and times\<close>

lemma or_overflow_Ok [simp]: "or_overflow x = Ok y \<longleftrightarrow> in_i64 x \<and> y = x"
  by (auto simp: or_overflow_def ok_or_def checked_i64_def)

text \<open>The time a context counts its slots from.\<close>

definition slot_base :: "SlotContext \<Rightarrow> i64" where
  "slot_base ctx =
     (if sc_head_number ctx = 0 then sc_genesis_time ctx
      else wrap_i64 (sc_head_time ctx - wrap_i64 (sc_head_time ctx - sc_genesis_time ctx) smod BLOCK_INTERVAL_MS) +
        (if sc_head_is_maintenance ctx then sc_maintenance_skip_slots ctx * BLOCK_INTERVAL_MS else 0))"

lemma slot_time_linear: "slot_time now ctx slot = Ok t \<Longrightarrow> slot \<noteq> 0 \<Longrightarrow> in_i64 t \<and> t = slot_base ctx + slot * BLOCK_INTERVAL_MS"
  by (auto simp: slot_time_def slot_base_def Let_def and_then_Ok algebra_simps split: if_splits)

lemma sdiv_nonneg: "0 \<le> a \<Longrightarrow> 0 < b \<Longrightarrow> a sdiv b = a div b" for a b :: int
  by (simp add: signed_divide_int_def sgn_if)

lemma smod_nonneg: "0 \<le> a \<Longrightarrow> 0 < b \<Longrightarrow> a smod b = a mod b" for a b :: int
  by (cases "a = 0") (simp_all add: signed_modulo_int_def)

text \<open>
  C31: Slot numbers and times are inverse: the slot of the time of a slot is that slot, and every time
  after the first slot lies in the interval that starts at the time of its slot.
\<close>

theorem dpos_slot_roundtrip:
  assumes "slot_time now ctx 1 = Ok first" "slot_time now ctx n = Ok t" "1 \<le> n" "in_i64 (t - first)"
    and "t \<le> time" "time < t + BLOCK_INTERVAL_MS" "in_i64 (time - first)"
  shows "slot_at now ctx t = Ok n \<and> slot_at now ctx time = Ok n"
proof -
  have f: "first = slot_base ctx + BLOCK_INTERVAL_MS" and t: "t = slot_base ctx + n * BLOCK_INTERVAL_MS"
    using slot_time_linear [OF assms(1)] slot_time_linear [OF assms(2)] assms(3) by simp_all
  have at: "slot_at now ctx x = Ok n" if "t \<le> x" "x < t + BLOCK_INTERVAL_MS" "in_i64 (x - first)" for x
  proof -
    have "\<not> x < first" using that f t assms(3) by (simp add: BLOCK_INTERVAL_MS_def)
    moreover have "(x - first) div BLOCK_INTERVAL_MS = n - 1" using that f t by (simp add: BLOCK_INTERVAL_MS_def)
    ultimately show ?thesis using that(3) by (simp add: slot_at_def assms(1) sdiv_nonneg BLOCK_INTERVAL_MS_def)
  qed
  show ?thesis using at [of t] at [of time] assms(4-7) by (simp add: BLOCK_INTERVAL_MS_def)
qed

section \<open>Rotation\<close>

lemma scheduled_witness_eq:
  assumes "active \<noteq> []" "0 \<le> absolute_slot ctx (sc_head_time ctx) + slot" "in_i64 (absolute_slot ctx (sc_head_time ctx) + slot)"
    and "in_i64 (int (length active))"
  shows "scheduled_witness ctx slot active =
    Ok (active ! nat ((absolute_slot ctx (sc_head_time ctx) + slot) mod int (length active)))"
proof -
  have n: "0 < int (length active)" using assms(1) by simp
  have m: "x smod int (length active) = x mod int (length active)" if "0 \<le> x" for x using smod_nonneg [OF that n] .
  have o: "or_overflow y = Ok y" if "in_i64 y" for y using that by simp
  show ?thesis
    using assms n m [OF assms(2)] pos_mod_sign [OF n, of "absolute_slot ctx (sc_head_time ctx) + slot"]
    by (simp add: scheduled_witness_def Let_def o SINGLE_REPEAT_def sdiv_nonneg not_less)
qed

text \<open>
  The witnesses take turns: over any stretch of as many consecutive slots as there are active
  witnesses, each position of the active list is scheduled exactly once.
\<close>

theorem scheduled_rotation:
  assumes "active \<noteq> []" "0 \<le> absolute_slot ctx (sc_head_time ctx) + slot"
    and "absolute_slot ctx (sc_head_time ctx) + slot + int (length active) \<le> i64_max"
  shows "mset (map (\<lambda>i. scheduled_witness ctx (slot + int i) active) [0..<length active]) = mset (map Ok active)"
proof -
  let ?n = "length active" and ?a = "absolute_slot ctx (sc_head_time ctx) + slot"
  let ?ok = "\<lambda>k. Ok (active ! k) :: (bytes, ScheduleError) result"
  let ?f = "\<lambda>i. nat ((?a + int i) mod int ?n)"
  have n: "0 < int ?n" using assms(1) by simp
  have w: "scheduled_witness ctx (slot + int i) active = Ok (active ! ?f i)" if "i < ?n" for i
    using that assms by (subst scheduled_witness_eq) (auto simp: in_i64_def algebra_simps)
  have inj: "inj_on ?f {0..<?n}"
  proof (rule inj_onI)
    fix i j assume ij: "i \<in> {0..<?n}" "j \<in> {0..<?n}" "?f i = ?f j"
    then have "(?a + int i) mod int ?n = (?a + int j) mod int ?n"
      using pos_mod_sign [OF n] by (metis nat_eq_iff2 nat_0_le)
    then have "(?a + int i - ?a) mod int ?n = (?a + int j - ?a) mod int ?n" by (metis mod_diff_left_eq)
    then show "i = j" using ij by simp
  qed
  have "?f i < ?n" for i using pos_mod_bound [OF n, of "?a + int i"] pos_mod_sign [OF n, of "?a + int i"] by (simp add: nat_less_iff)
  then have "?f ` {0..<?n} \<subseteq> {0..<?n}" by auto
  with inj have "?f ` {0..<?n} = {0..<?n}" by (simp add: endo_inj_surj)
  then have "mset (map ?f [0..<?n]) = mset [0..<?n]"
    using inj by (simp add: mset_map image_mset_mset_set flip: mset_set_upto_eq_mset_upto)
  then have "mset (map ?ok (map ?f [0..<?n])) = mset (map ?ok [0..<?n])"
    by (simp only: mset_map)
  moreover have "map (\<lambda>i. scheduled_witness ctx (slot + int i) active) [0..<?n] = map ?ok (map ?f [0..<?n])"
    using w by simp
  moreover have "map ?ok [0..<?n] = map Ok active"
    by (metis (no_types, lifting) list.map_comp comp_def map_nth map_eq_conv)
  ultimately show ?thesis by (simp only:)
qed

section \<open>Shuffle\<close>

lemma mset_swap: "i < length xs \<Longrightarrow> j < length xs \<Longrightarrow> mset (swap xs i j) = mset xs"
  by (simp add: swap_def mset_swap)

lemma shuffle_step_perm: "i < length xs \<Longrightarrow> mset (shuffle_step hi i xs) = mset xs \<and> length (shuffle_step hi i xs) = length xs"
  by (auto simp: shuffle_step_def Let_def mset_swap) (simp add: swap_def)

lemma java_shuffle_perm: "mset (java_shuffle xs time) = mset xs"
proof -
  have "mset (fold (shuffle_step hi) [0..<n] xs) = mset xs \<and> length (fold (shuffle_step hi) [0..<n] xs) = length xs"
    if "n \<le> length xs" for hi n
    using that
  proof (induction n)
    case (Suc n)
    then show ?case using shuffle_step_perm [of n "fold (shuffle_step hi) [0..<n] xs" hi] by simp
  qed simp
  then show ?thesis by (simp add: java_shuffle_def)
qed

section \<open>Election\<close>

context rust_preord
begin

lemma sorted_unique:
  assumes "mset xs = mset ys" "set xs \<subseteq> K" "sorted_wrt (\<lambda>a b. cmp a b \<noteq> Greater) xs" "sorted_wrt (\<lambda>a b. cmp a b \<noteq> Greater) ys"
    and "\<And>a b. a \<in> set xs \<Longrightarrow> b \<in> set xs \<Longrightarrow> cmp a b = Equal \<Longrightarrow> a = b"
  shows "xs = ys"
  using assms
proof (induction xs arbitrary: ys)
  case (Cons x xs)
  obtain y ys' where ys: "ys = y # ys'" using Cons.prems(1) by (cases ys) auto
  have sets: "set (x # xs) = set ys" using Cons.prems(1) mset_eq_setD by blast
  have "x = y"
  proof (rule ccontr)
    assume "x \<noteq> y"
    with sets ys have "y \<in> set xs" "x \<in> set ys'" by auto
    then have "cmp x y \<noteq> Greater" "cmp y x \<noteq> Greater" using Cons.prems(3,4) ys by auto
    moreover have "x \<in> K" "y \<in> K" using Cons.prems(2) \<open>y \<in> set xs\<close> by auto
    ultimately have "cmp x y = Equal" using pre_swap [of x y] pre_swap [of y x] by (cases "cmp x y") auto
    with Cons.prems(5) [of x y] \<open>y \<in> set xs\<close> \<open>x \<noteq> y\<close> show False by auto
  qed
  with Cons.prems ys show ?case using Cons.IH [of ys'] by auto
qed simp

end

lemma preord_flip:
  assumes "rust_preord cmp K"
  shows "rust_preord (\<lambda>a b. cmp b a) K"
proof
  note laws = rust_preord.pre_refl [OF assms] rust_preord.pre_swap [OF assms] rust_preord.pre_trans [OF assms]
  fix a b c
  show "cmp a a = Equal" if "a \<in> K" using that by (rule laws(1))
  show "cmp b a = Greater \<longleftrightarrow> cmp a b = Less" if "a \<in> K" "b \<in> K" using that by (simp add: laws(2))
  show "cmp c a = Less" if "a \<in> K" "b \<in> K" "c \<in> K" "cmp b a = Less" "cmp c b = Less" using that laws(3) by blast
  show "cmp c a = cmp c b" if K: "a \<in> K" "b \<in> K" "c \<in> K" and "cmp b a = Equal"
  proof -
    have "cmp b c = cmp a c" using rust_preord.pre_equal [OF assms K(2,1,3) \<open>cmp b a = Equal\<close>] .
    moreover have "cmp a c = Greater \<longleftrightarrow> cmp c a = Less" "cmp c a = Greater \<longleftrightarrow> cmp a c = Less"
      "cmp b c = Greater \<longleftrightarrow> cmp c b = Less" "cmp c b = Greater \<longleftrightarrow> cmp b c = Less"
      by (rule laws(2), fact, fact)+
    ultimately show ?thesis by (metis ordering.exhaust)
  qed
qed

interpretation election: rust_preord "witness_cmp optimized" UNIV for optimized
proof -
  have lin: "rust_preord (cmp_lin :: int \<Rightarrow> int \<Rightarrow> ordering) UNIV" by (rule lin.preord)
  have lex: "rust_preord (cmp_lex (cmp_lin :: nat \<Rightarrow> nat \<Rightarrow> ordering)) UNIV"
    using lin.lex_rust_ord by (metis (no_types, lifting) UNIV_eq_I mem_Collect_eq rust_ord.preord subset_UNIV)
  have 1: "rust_preord (\<lambda>l r. cmp_lin (wi_vote_count r) (wi_vote_count l)) UNIV"
    by (rule preord_vimage [OF preord_flip [OF lin]]) simp
  have 2: "rust_preord (\<lambda>l r. hex_desc (wi_address l) (wi_address r)) UNIV"
    unfolding hex_desc_def by (rule preord_vimage [OF preord_flip [OF lex]]) simp
  have 3: "rust_preord (\<lambda>l r. cmp_lin (java_bytes_hash (wi_address r)) (java_bytes_hash (wi_address l))) UNIV"
    by (rule preord_vimage [OF preord_flip [OF lin]]) simp
  show "rust_preord (witness_cmp optimized) UNIV"
    unfolding witness_cmp_def [abs_def]
    by (cases optimized) (use then_with_preord [OF 1 2] then_with_preord [OF 1 3] in simp_all)
qed

lemma nibbles_inj: "nibbles a = nibbles b \<longleftrightarrow> a = b"
proof (induction a arbitrary: b)
  case Nil
  then show ?case by (cases b) (auto simp: nibbles_def)
next
  case (Cons x a)
  have split: "x = y" if "drop_bit 4 x = drop_bit 4 y" "x AND 15 = y AND 15" for x y :: "8 word"
  proof -
    have "z AND 15 = take_bit 4 z" for z :: "8 word" by (simp add: take_bit_eq_mask mask_numeral)
    with that(2) have "take_bit 4 x = take_bit 4 y" by metis
    then show ?thesis using that(1) by (metis bits_ident)
  qed
  show ?case
  proof (cases b)
    case Nil
    then show ?thesis by (simp add: nibbles_def)
  next
    case (Cons y b')
    then show ?thesis using Cons.IH [of b'] split [of x y] by (auto simp: nibbles_def simp flip: word_unat_eq_iff)
  qed
qed

lemma witness_cmp_Equal: "witness_cmp True a b = Equal \<Longrightarrow> wi_address a = wi_address b"
proof -
  have "rust_ord (cmp_lex (cmp_lin :: nat \<Rightarrow> nat \<Rightarrow> ordering)) {xs. set xs \<subseteq> UNIV}" by (rule lin.lex_rust_ord)
  from rust_ord.cmp_eq [OF this] have "cmp_lex cmp_lin xs ys = Equal \<longleftrightarrow> xs = ys" for xs ys :: "nat list" by simp
  then show "witness_cmp True a b = Equal \<Longrightarrow> wi_address a = wi_address b"
    by (auto simp: witness_cmp_def then_with_def hex_desc_def nibbles_inj split: ordering.splits)
qed

lemma witness_cmp_votes: "witness_cmp optimized a b \<noteq> Greater \<Longrightarrow> wi_vote_count b \<le> wi_vote_count a"
  by (rule ccontr) (auto simp: witness_cmp_def then_with_def cmp_lin_def)

text \<open>
  C23: The election. Up to 27 candidates are elected, none of the others has more votes than any of them,
  and, under the optimized order, all nodes agree: the result does not depend on the order in which the
  candidates are listed.
\<close>

theorem active_election:
  assumes "distinct (map wi_address ws)"
  shows "length (sort_and_truncate_active ws optimized) = min 27 (length ws) \<and>
    (\<forall>w \<in> set ws. \<forall>w' \<in> set ws. wi_address w \<in> set (sort_and_truncate_active ws optimized) \<and>
       wi_address w' \<notin> set (sort_and_truncate_active ws optimized) \<longrightarrow> wi_vote_count w' \<le> wi_vote_count w) \<and>
    (\<forall>ws'. mset ws' = mset ws \<longrightarrow> sort_and_truncate_active ws' True = sort_and_truncate_active ws True)"
proof -
  let ?s = "sort_witnesses optimized ws"
  have s: "mset ?s = mset ws" "sorted_wrt (\<lambda>a b. witness_cmp optimized a b \<noteq> Greater) ?s"
    using election.sort_by_sorted [where f = id and xs = ws and optimized = optimized] by (simp_all add: sort_witnesses_def)
  have len: "length ?s = length ws" using s(1) by (metis size_mset)
  have inj: "inj_on wi_address (set ws)" using assms by (simp add: distinct_map)
  have votes: "wi_vote_count w' \<le> wi_vote_count w"
    if w: "w \<in> set ws" "w' \<in> set ws" "wi_address w \<in> set (sort_and_truncate_active ws optimized)" "wi_address w' \<notin> set (sort_and_truncate_active ws optimized)" for w w'
  proof -
    have sets: "set ?s = set ws" using s(1) mset_eq_setD by blast
    have "w \<in> set (take 27 ?s)"
    proof -
      obtain x where x: "x \<in> set (take 27 ?s)" "wi_address x = wi_address w"
        using w(3) by (auto simp: sort_and_truncate_active_def MAX_ACTIVE_WITNESSES_def)
      then have "x \<in> set ws" using sets set_take_subset [of 27 ?s] by blast
      with inj x(2) w(1) have "x = w" by (auto dest: inj_onD)
      with x(1) show ?thesis by simp
    qed
    moreover have "w' \<notin> set (take 27 ?s)" using w(4) by (auto simp: sort_and_truncate_active_def MAX_ACTIVE_WITNESSES_def)
    then have "w' \<in> set (drop 27 ?s)" using sets w(2) by (metis Un_iff append_take_drop_id set_append)
    moreover have "sorted_wrt (\<lambda>a b. witness_cmp optimized a b \<noteq> Greater) (take 27 ?s @ drop 27 ?s)" using s(2) by simp
    ultimately have "witness_cmp optimized w w' \<noteq> Greater" by (simp only: sorted_wrt_append) blast
    then show ?thesis by (rule witness_cmp_votes)
  qed
  have same: "sort_and_truncate_active ws' True = sort_and_truncate_active ws True" if "mset ws' = mset ws" for ws'
  proof -
    have a: "mset (sort_witnesses True xs) = mset xs" "sorted_wrt (\<lambda>a b. witness_cmp True a b \<noteq> Greater) (sort_witnesses True xs)" for xs
      using election.sort_by_sorted [where f = id and xs = xs and optimized = True] by (simp_all add: sort_witnesses_def)
    have "set (sort_witnesses True ws') = set ws" using a(1) [of ws'] that mset_eq_setD by metis
    then have "sort_witnesses True ws' = sort_witnesses True ws"
      using a [of ws'] a [of ws] that inj
      by (intro election.sorted_unique [of _ _ True]) (auto dest: witness_cmp_Equal inj_onD)
    then show ?thesis by (simp add: sort_and_truncate_active_def)
  qed
  show ?thesis
    by (intro conjI ballI allI impI; (elim conjE)?)
      (use len in \<open>simp add: sort_and_truncate_active_def MAX_ACTIVE_WITNESSES_def min.commute\<close>, erule (3) votes, erule same)
qed

section \<open>The production guard\<close>

interpretation seen: rust_ord seen_cmp UNIV
proof
  fix a b c :: seen_key
  show "seen_cmp a b = Equal \<longleftrightarrow> a = b"
    by (auto simp: seen_cmp_def then_with_def cmp_lin_def bytes.cmp_eq prod_eq_iff)
  show "seen_cmp a b = Greater \<longleftrightarrow> seen_cmp b a = Less"
    by (auto simp: seen_cmp_def then_with_def cmp_lin_def bytes.cmp_swap)
  show "seen_cmp a c = Less" if "seen_cmp a b = Less" "seen_cmp b c = Less"
    using that bytes.cmp_trans [of "snd a" "snd b" "snd c"] by (auto simp: seen_cmp_def then_with_def cmp_lin_def split: if_splits)
qed

lemma evict_seen_bound: "length (evict_seen m) \<le> SEEN_CAPACITY \<and> set (evict_seen m) \<subseteq> set m"
proof (induction m rule: evict_seen.induct)
  case (1 m)
  show ?case
  proof (cases "length m > SEEN_CAPACITY")
    case True
    then obtain k where "oldest m = Some k" by (cases m) auto
    with True 1 show ?thesis by (subst (1 2) evict_seen.simps) (auto simp: bt_remove_def)
  next
    case False
    then show ?thesis by (simp add: evict_seen.simps [of m])
  qed
qed

lemma seen_insert: "set (bt_insert seen_cmp k v m) \<subseteq> insert (k, v) (set m)"
  by (induction m) (auto simp: seen.cmp_eq split: ordering.splits)

text \<open>A row of the history stands for a block that was handled.\<close>

definition row_of :: "ReceivedBlock set \<Rightarrow> seen_key \<times> SeenBlock \<Rightarrow> bool" where
  "row_of H p \<longleftrightarrow> (\<exists>b \<in> H. fst p = (rb_timestamp b, rb_witness b) \<and> sb_id (snd p) = rb_id b \<and> sb_height (snd p) = rb_number b)"

definition guard_inv :: "ReceivedBlock set \<Rightarrow> ProductionGuard \<Rightarrow> bool" where
  "guard_inv H g \<longleftrightarrow> length (pg_seen g) \<le> SEEN_CAPACITY \<and> (\<forall>p \<in> set (pg_seen g). row_of H p)"

lemma guard_inv_mono: "guard_inv H g \<Longrightarrow> H \<subseteq> H' \<Longrightarrow> guard_inv H' g"
  unfolding guard_inv_def row_of_def by blast

lemma guard_inv_prune: "guard_inv H g \<Longrightarrow> guard_inv H (prune height now g)"
  unfolding guard_inv_def prune_def Let_def by (auto intro: le_trans [OF length_filter_le])

lemma guard_inv_arm: "guard_inv H (arm_duplicate now g) \<longleftrightarrow> guard_inv H g"
  by (simp add: guard_inv_def arm_duplicate_def)

lemma guard_inv_retain: "guard_inv H g \<Longrightarrow> guard_inv (insert b H) (retain b now g)"
proof -
  assume "guard_inv H g"
  then have p: "\<forall>p \<in> set (pg_seen (prune (rb_number b) now g)). row_of (insert b H) p"
    using guard_inv_mono [OF guard_inv_prune [of H g]] unfolding guard_inv_def by blast
  let ?m = "bt_insert seen_cmp (rb_timestamp b, rb_witness b) \<lparr> sb_id = rb_id b, sb_height = rb_number b \<rparr> (pg_seen (prune (rb_number b) now g))"
  have "row_of (insert b H) ((rb_timestamp b, rb_witness b), \<lparr> sb_id = rb_id b, sb_height = rb_number b \<rparr>)" by (auto simp: row_of_def)
  moreover have "q = ((rb_timestamp b, rb_witness b), \<lparr> sb_id = rb_id b, sb_height = rb_number b \<rparr>) \<or> q \<in> set (pg_seen (prune (rb_number b) now g))"
    if "q \<in> set ?m" for q using subsetD [OF seen_insert that] by simp
  ultimately have "\<forall>q \<in> set ?m. row_of (insert b H) q" using p by fast
  then have "\<forall>q \<in> set (evict_seen ?m). row_of (insert b H) q" using evict_seen_bound [of ?m] by (meson subsetD)
  then show "guard_inv (insert b H) (retain b now g)" using evict_seen_bound [of ?m] by (simp add: guard_inv_def retain_def Let_def)
qed

text \<open>The guard with the blocks it was told of: those produced here and those the node accepted.\<close>

inductive guard_reach :: "ReceivedBlock set \<Rightarrow> ProductionGuard \<Rightarrow> bool" where
  guard_init: "guard_reach {} guard_new"
| guard_produced: "guard_reach H g \<Longrightarrow> guard_reach (insert b H) (produced now b g)"
| guard_receive: "guard_reach H g \<Longrightarrow>
    guard_reach (if accepted \<or> rb_generated_by_self b then insert b H else H) (fst (receive now b local syncing accepted g))"

lemma guard_reach_inv: "guard_reach H g \<Longrightarrow> guard_inv H g"
proof (induction rule: guard_reach.induct)
  case guard_init
  then show ?case by (simp add: guard_inv_def guard_new_def)
next
  case (guard_produced H g b now)
  have "guard_inv H (g\<lparr> pg_local_block := Some (rb_id b) \<rparr>)" using guard_produced.IH by (simp add: guard_inv_def)
  then show ?case using guard_inv_mono [OF guard_produced.IH, of "insert b H"] guard_inv_retain by (auto simp: produced_def)
next
  case (guard_receive H g accepted b now local syncing)
  have "guard_inv H (g\<lparr> pg_local_block := Some (rb_id b) \<rparr>)" using guard_receive.IH by (simp add: guard_inv_def)
  then have prod: "guard_inv (insert b H) (produced now b g)"
    using guard_receive.IH guard_inv_retain guard_inv_mono [of H g "insert b H"] by (auto simp: produced_def)
  have ins: "guard_inv (insert b H) g'" if "guard_inv H g'" for g' using that guard_inv_mono by blast
  show ?case
    using guard_receive.IH prod ins guard_inv_prune [OF guard_receive.IH] guard_inv_retain [OF guard_inv_prune [OF guard_receive.IH]]
    by (auto simp: receive_def Let_def guard_inv_arm)
qed

text \<open>
  C22: In every reachable state the guard remembers at most 200 blocks, and it reports an equivocation only for a
  block of one of the node's own witnesses when it was earlier told of a different block with the same
  timestamp by the same witness.
\<close>

theorem production_guard_sound:
  assumes "guard_reach H g"
  shows "length (pg_seen g) \<le> 200 \<and>
    (snd (receive now b local syncing accepted g) = Equivocated \<longrightarrow> accepted \<and> rb_witness b \<in> local \<and>
       (\<exists>b' \<in> H. rb_timestamp b' = rb_timestamp b \<and> rb_witness b' = rb_witness b \<and> rb_id b' \<noteq> rb_id b))"
proof -
  have inv: "guard_inv H g" using guard_reach_inv [OF assms] .
  have rows: "row_of H (k, v)" if "bt_get (pg_seen (prune h now g)) k = Some v" for h k v
    using guard_inv_prune [OF inv, of h now] map_of_SomeD [OF that] by (auto simp: guard_inv_def)
  have "\<exists>b' \<in> H. rb_timestamp b' = rb_timestamp b \<and> rb_witness b' = rb_witness b \<and> rb_id b' \<noteq> rb_id b"
    if "snd (receive now b local syncing accepted g) = Equivocated"
    using that rows [of "rb_number b" "(rb_timestamp b, rb_witness b)"]
    by (auto simp: receive_def Let_def row_of_def split: if_splits option.splits)
  moreover have "accepted \<and> rb_witness b \<in> local" if "snd (receive now b local syncing accepted g) = Equivocated"
    using that by (auto simp: receive_def Let_def split: if_splits)
  ultimately show ?thesis using inv by (auto simp: guard_inv_def SEEN_CAPACITY_def)
qed

section \<open>Production counters\<close>

lemma bt_modify_get: "bt_get (bt_modify k f m) a = (if a = k then map_option f (bt_get m k) else bt_get m a)"
  by (auto simp: bt_modify_def bytes.get_insert split: option.splits)

lemma sat_i64_step: "i64_min \<le> x \<Longrightarrow> 0 \<le> n \<Longrightarrow> sat_i64 (sat_i64 (x + n) + 1) = sat_i64 (x + (n + 1))"
  by (auto simp: sat_i64_def)

text \<open>The slots of a range that were a witness's turn.\<close>

definition turns :: "bytes list \<Rightarrow> bytes \<Rightarrow> int list \<Rightarrow> int" where
  "turns active a slots = int (length (filter (\<lambda>s. active ! nat (s mod int (length active)) = a) slots))"

lemma record_missed_lookup:
  "bt_get (record_missed active s m) a = (if active ! nat (s mod int (length active)) = a
     then map_option (\<lambda>w. w\<lparr> wi_total_missed := sat_i64 (wi_total_missed w + 1), wi_latest_slot_num := s \<rparr>) (bt_get m a) else bt_get m a)"
  by (auto simp: record_missed_def bt_modify_get)

lemma record_missed_get:
  assumes "bt_get m a = Some w" "in_i64 (wi_total_missed w)"
  shows "\<exists>w'. bt_get (fold (record_missed active) slots m) a = Some w' \<and>
    wi_total_missed w' = sat_i64 (wi_total_missed w + turns active a slots) \<and> wi_total_produced w' = wi_total_produced w \<and>
    wi_vote_count w' = wi_vote_count w"
proof (induction slots rule: rev_induct)
  case Nil
  then show ?case using assms by (auto simp: turns_def sat_i64_def in_i64_def)
next
  case (snoc s slots)
  then obtain w' where w': "bt_get (fold (record_missed active) slots m) a = Some w'"
    "wi_total_missed w' = sat_i64 (wi_total_missed w + turns active a slots)" "wi_total_produced w' = wi_total_produced w"
    "wi_vote_count w' = wi_vote_count w" by blast
  have "i64_min \<le> wi_total_missed w" "0 \<le> turns active a slots" using assms(2) by (simp_all add: in_i64_def turns_def)
  from sat_i64_step [OF this] w' show ?case
    by (auto simp: record_missed_lookup turns_def)
qed

text \<open>
  C29: Between two blocks whose absolute slots are 64-bit integers, the earlier one not below -1 and below
  the largest, every skipped slot is charged exactly once, to the witness the schedule names for it, and
  the producer is credited with one block; the counters saturate and votes are untouched. (At the largest
  64-bit integer the successor of the earlier slot wraps around, and nothing is claimed.)
\<close>

theorem account_production_exact:
  assumes "bt_get witnesses a = Some w" "in_i64 (wi_total_missed w)" "active \<noteq> []" "in_i64 (int (length active))"
    and "-1 \<le> previous_slot" "previous_slot < i64_max" "current_slot \<le> i64_max"
  shows "\<exists>w'. bt_get (account_production active previous_slot current_slot producer witnesses) a = Some w' \<and>
    wi_total_missed w' = sat_i64 (wi_total_missed w + int (length (filter
      (\<lambda>s. scheduled_witness ctx (s - absolute_slot ctx (sc_head_time ctx)) active = Ok a) [previous_slot + 1..current_slot - 1]))) \<and>
    wi_total_produced w' = (if a = producer then sat_i64 (wi_total_produced w + 1) else wi_total_produced w) \<and>
    wi_vote_count w' = wi_vote_count w"
proof -
  let ?slots = "[previous_slot + 1..current_slot - 1]"
  have first: "wrap_i64 (previous_slot + 1) = previous_slot + 1" using assms(5,6) by (intro wrap_i64_id) (simp add: in_i64_def)
  have "scheduled_witness ctx (s - absolute_slot ctx (sc_head_time ctx)) active = Ok (active ! nat (s mod int (length active)))" if "s \<in> set ?slots" for s
    using that assms by (subst scheduled_witness_eq) (auto simp: in_i64_def)
  then have turns: "int (length (filter (\<lambda>s. scheduled_witness ctx (s - absolute_slot ctx (sc_head_time ctx)) active = Ok a) ?slots)) = turns active a ?slots"
    unfolding turns_def by (intro arg_cong [of _ _ int] arg_cong [of _ _ length] filter_cong) auto
  have empty: "?slots = []" if "\<not> previous_slot + 1 < current_slot" using that by simp
  obtain w' where w': "bt_get (fold (record_missed active) ?slots witnesses) a = Some w'"
    "wi_total_missed w' = sat_i64 (wi_total_missed w + turns active a ?slots)" "wi_total_produced w' = wi_total_produced w"
    "wi_vote_count w' = wi_vote_count w"
    using record_missed_get [OF assms(1,2)] by blast
  have "account_production active previous_slot current_slot producer witnesses =
      bt_modify producer (\<lambda>w. w\<lparr> wi_total_produced := sat_i64 (wi_total_produced w + 1), wi_latest_slot_num := current_slot \<rparr>)
        (fold (record_missed active) ?slots witnesses)"
    using assms(3) empty by (auto simp: account_production_def first Let_def)
  then show ?thesis using w' by (auto simp: bt_modify_get turns)
qed

section \<open>Concrete runs\<close>

definition demo_slots :: SlotContext where
  "demo_slots = \<lparr> sc_genesis_time = 0, sc_head_number = 5, sc_head_time = 30500, sc_head_is_maintenance = True, sc_maintenance_skip_slots = 2 \<rparr>"

lemma demo_slot_times: "slot_time 0 demo_slots 1 = Ok 39000" "slot_time 0 demo_slots 4 = Ok 48000"
  by (simp_all add: slot_time_def demo_slots_def or_overflow_def checked_i64_def in_i64_def ok_or_def Let_def BLOCK_INTERVAL_MS_def wrap_i64_def smod_nonneg)

theorem dpos_slot_roundtrip_witness: "slot_at 0 demo_slots 48000 = Ok 4 \<and> slot_at 0 demo_slots 50999 = Ok 4"
  using dpos_slot_roundtrip [OF demo_slot_times, of 50999] by (simp add: in_i64_def BLOCK_INTERVAL_MS_def)

theorem scheduled_rotation_witness:
  "mset [scheduled_witness demo_slots 1 [[1], [2], [3]], scheduled_witness demo_slots 2 [[1], [2], [3]],
     scheduled_witness demo_slots 3 [[1], [2], [3]]] = mset [Ok [1], Ok [2], Ok [3]]"
proof -
  have "absolute_slot demo_slots (sc_head_time demo_slots) = 10"
    by (simp add: absolute_slot_def demo_slots_def BLOCK_INTERVAL_MS_def wrap_i64_def sdiv_nonneg)
  then show ?thesis using scheduled_rotation [of "[[1], [2], [3]]" demo_slots 1] by simp
qed

definition demo_candidate :: "u8 \<Rightarrow> i64 \<Rightarrow> Witness" where
  "demo_candidate a votes = \<lparr> wi_address = [a], wi_vote_count = votes, wi_total_produced = 0, wi_total_missed = 0, wi_latest_block_num = 0, wi_latest_slot_num = 0 \<rparr>"

theorem active_election_witness:
  "sort_and_truncate_active [demo_candidate 2 7, demo_candidate 1 5] True = sort_and_truncate_active [demo_candidate 1 5, demo_candidate 2 7] True"
  by (rule active_election [of "[demo_candidate 1 5, demo_candidate 2 7]", THEN conjunct2, THEN conjunct2, rule_format])
    (simp_all add: demo_candidate_def)

definition demo_block :: "u8 \<Rightarrow> ReceivedBlock" where
  "demo_block n = \<lparr> rb_number = 10, rb_id = replicate 32 n, rb_timestamp = 9000, rb_witness = replicate 21 7, rb_generated_by_self = False \<rparr>"

lemma demo_equivocates:
  "snd (receive 9000 (demo_block 2) {replicate 21 7} False True (fst (receive 9000 (demo_block 1) {replicate 21 7} False True guard_new))) = Equivocated"
proof -
  have ne: "replicate 32 (1 :: u8) \<noteq> replicate 32 2" by simp
  show ?thesis using ne
    by (simp add: receive_def guard_new_def demo_block_def valid_structure_def prune_def retain_def arm_duplicate_def evict_seen.simps
        sat_i64_def schedule_constants BLOCK_ID_LEN_def WITNESS_ADDRESS_LEN_def SEEN_HEIGHT_WINDOW_def SEEN_SLOT_WINDOW_def SEEN_CAPACITY_def Let_def)
qed

theorem production_guard_sound_witness:
  "\<exists>b' \<in> {demo_block 1}. rb_timestamp b' = 9000 \<and> rb_id b' \<noteq> rb_id (demo_block 2)"
proof -
  have "guard_reach {demo_block 1} (fst (receive 9000 (demo_block 1) {replicate 21 7} False True guard_new))"
    using guard_receive [OF guard_init, of True "demo_block 1"] by simp
  from production_guard_sound [OF this] demo_equivocates have
    "\<exists>b' \<in> {demo_block 1}. rb_timestamp b' = rb_timestamp (demo_block 2) \<and> rb_witness b' = rb_witness (demo_block 2) \<and> rb_id b' \<noteq> rb_id (demo_block 2)"
    by blast
  then show ?thesis by (auto simp: demo_block_def)
qed

theorem account_production_exact_witness:
  "\<exists>w'. bt_get (account_production [[1], [2]] 3 6 [2] [([1], demo_candidate 1 5), ([2], demo_candidate 2 7)]) [1] = Some w' \<and> wi_total_missed w' = 1"
proof -
  let ?m = "[([1], demo_candidate 1 5), ([2], demo_candidate 2 7)]"
  have a: "absolute_slot demo_slots (sc_head_time demo_slots) = 10"
    by (simp add: absolute_slot_def demo_slots_def BLOCK_INTERVAL_MS_def wrap_i64_def sdiv_nonneg)
  have "scheduled_witness demo_slots (4 - 10) [[1], [2]] = Ok [1]" "scheduled_witness demo_slots (5 - 10) [[1], [2]] = Ok [2]"
    by (subst scheduled_witness_eq; simp add: a in_i64_def)+
  moreover have "[4..5] = [4, 5 :: int]" by (simp add: upto.simps)
  ultimately show ?thesis
    using account_production_exact [of ?m "[1]" "demo_candidate 1 5" "[[1], [2]]" 3 6 "[2]" demo_slots] a
    by (auto simp: demo_candidate_def in_i64_def sat_i64_def)
qed

end
