(* ===== verification/Resource.thy ===== *)
theory Resource
  imports Tron_Prelude
begin

text \<open>
  Resource accounting of \<open>tron-state/src/resource.rs\<close>: the sliding window in which used bandwidth or energy
  is recovered, the share of a global limit that a frozen balance grants, the adaptive energy limit
  and the booking of a fee. The code computes in \<open>i128\<close> and converts back to \<open>i64\<close> with a check;
  the definitions compute in \<open>int\<close>, with \<open>wrap_i128\<close> on the only sum of products that can leave the range
  of \<open>i128\<close>, in \<open>consume\<close> with a standard window beyond a million slots.
\<close>

section \<open>Definitions\<close>

definition TRX_PRECISION :: i64 where "TRX_PRECISION = 1000000"
definition RESOURCE_PRECISION :: i64 where "RESOURCE_PRECISION = 1000000"
definition WINDOW_SIZE_PRECISION :: i64 where "WINDOW_SIZE_PRECISION = 1000"

lemmas resource_constants = TRX_PRECISION_def RESOURCE_PRECISION_def WINDOW_SIZE_PRECISION_def

record ResourceWindow =
  rs_usage :: i64
  rs_latest_slot :: i64
  rs_window :: i64
  rs_precise :: bool
  rs_standard_window :: i64

record GlobalResource =
  gr_limit :: i64
  gr_weight :: i64

record AdaptiveEnergy =
  ae_base_limit :: i64
  ae_current_limit :: i64
  ae_target_limit :: i64
  ae_average_usage :: i64
  ae_multiplier :: i64

datatype FeeSink = Pool | Burn | BlackHole

record FeeDisposition =
  fd_payer_balance :: i64
  fd_pool :: i64
  fd_burned :: i64
  fd_black_hole :: i64

datatype ResourceError =
    NonPositiveWindow | InvalidRatio i64 i64 | TimeReversal i64 i64 | NegativeAmount i64 | InsufficientBalance
  | WeightOverflow i64 i64 | ResourceOverflow

definition i64_exact :: "int \<Rightarrow> (i64, ResourceError) result" where
  "i64_exact x = ok_or (checked_i64 x) ResourceOverflow"

definition wrap_i128 :: "int \<Rightarrow> int" where
  "wrap_i128 x = (x + 170141183460469231731687303715884105728) mod 340282366920938463463374607431768211456 - 170141183460469231731687303715884105728"

definition ceil_div :: "int \<Rightarrow> int \<Rightarrow> int" where
  "ceil_div v divisor = v sdiv divisor + (if v smod divisor > 0 then 1 else 0)"

text \<open>\<open>div_euclid\<close> and \<open>rem_euclid\<close> for a positive divisor are \<open>div\<close> and \<open>mod\<close>.\<close>

definition java_round_ratio :: "int \<Rightarrow> int \<Rightarrow> int \<Rightarrow> int" where
  "java_round_ratio v numerator denominator =
     (let scaled = v * numerator; q = scaled div denominator; r = scaled mod denominator in q + (if r * 2 \<ge> denominator then 1 else 0))"

definition window_slots :: "ResourceWindow \<Rightarrow> (i64, ResourceError) result" where
  "window_slots w =
     (if rs_standard_window w \<le> 0 then Err NonPositiveWindow
      else if rs_window w = 0 \<or> (rs_precise w \<and> rs_window w < WINDOW_SIZE_PRECISION) then Ok (rs_standard_window w)
      else if rs_window w < 0 then Err NonPositiveWindow
      else Ok (if rs_precise w then rs_window w sdiv WINDOW_SIZE_PRECISION else rs_window w))"

definition precise_window :: "ResourceWindow \<Rightarrow> (i64, ResourceError) result" where
  "precise_window w =
     (if rs_standard_window w \<le> 0 \<or> rs_window w < 0 then Err NonPositiveWindow
      else if rs_window w = 0 then i64_exact (rs_standard_window w * WINDOW_SIZE_PRECISION)
      else if rs_precise w then Ok (rs_window w) else i64_exact (rs_window w * WINDOW_SIZE_PRECISION))"

definition recover :: "ResourceWindow \<Rightarrow> i64 \<Rightarrow> (i64, ResourceError) result" where
  "recover w now =
     and_then (window_slots w) (\<lambda>window.
       if now < rs_latest_slot w then Err (TimeReversal (rs_latest_slot w) now)
       else let delta = wrap_i64 (now - rs_latest_slot w) in
         if delta \<ge> window then Ok 0
         else let average = ceil_div (rs_usage w * RESOURCE_PRECISION) window;
                  decayed = java_round_ratio average (window - delta) window in
           i64_exact ((decayed * window) sdiv RESOURCE_PRECISION))"

definition consume_precise :: "ResourceWindow \<Rightarrow> i64 \<Rightarrow> i64 \<Rightarrow> i64 \<Rightarrow> i64 \<Rightarrow> (ResourceWindow, ResourceError) result" where
  "consume_precise w amount now remaining usage =
     and_then (precise_window w) (\<lambda>old.
     and_then (i64_exact (max (old - wrap_i64 (now - rs_latest_slot w) * WINDOW_SIZE_PRECISION) 0)) (\<lambda>remaining_window.
       let full = rs_standard_window w * WINDOW_SIZE_PRECISION;
           window = (if usage = 0 then full
                     else min (ceil_div (wrap_i128 (remaining * remaining_window + amount * full)) usage) full) in
       and_then (i64_exact window) (\<lambda>window.
       Ok \<lparr> rs_usage = usage, rs_latest_slot = now, rs_window = window, rs_precise = True, rs_standard_window = rs_standard_window w \<rparr>)))"

definition consume_slots :: "ResourceWindow \<Rightarrow> i64 \<Rightarrow> i64 \<Rightarrow> i64 \<Rightarrow> i64 \<Rightarrow> (ResourceWindow, ResourceError) result" where
  "consume_slots w amount now remaining usage =
     and_then (window_slots w) (\<lambda>old.
       let remaining_window = max (wrap_i64 (old - wrap_i64 (now - rs_latest_slot w))) 0;
           window = (if usage = 0 then rs_standard_window w
                     else min (wrap_i128 (remaining * remaining_window + amount * rs_standard_window w) sdiv usage) (rs_standard_window w)) in
       and_then (i64_exact window) (\<lambda>window.
       Ok \<lparr> rs_usage = usage, rs_latest_slot = now, rs_window = window, rs_precise = False, rs_standard_window = rs_standard_window w \<rparr>))"

definition consume :: "ResourceWindow \<Rightarrow> i64 \<Rightarrow> i64 \<Rightarrow> (ResourceWindow, ResourceError) result" where
  "consume w amount now =
     (if amount < 0 then Err (NegativeAmount amount)
      else if now < rs_latest_slot w then Err (TimeReversal (rs_latest_slot w) now)
      else if rs_standard_window w \<le> 0 then Err NonPositiveWindow
      else and_then (recover w now) (\<lambda>remaining.
        and_then (i64_exact (remaining + amount)) (\<lambda>usage.
        if rs_precise w then consume_precise w amount now remaining usage else consume_slots w amount now remaining usage)))"

definition global_limit :: "i64 \<Rightarrow> GlobalResource \<Rightarrow> bool \<Rightarrow> (i64, ResourceError) result" where
  "global_limit frozen_balance global v2 =
     (if frozen_balance \<le> 0 \<or> gr_weight global \<le> 0 \<or> gr_limit global \<le> 0 then Ok 0
      else let numerator = (if v2 then frozen_balance * gr_limit global else (frozen_balance sdiv TRX_PRECISION) * gr_limit global);
               denominator = (if v2 then TRX_PRECISION * gr_weight global else gr_weight global) in
        i64_exact (numerator sdiv denominator))"

definition update_weight :: "i64 \<Rightarrow> i64 \<Rightarrow> bool \<Rightarrow> (i64, ResourceError) result" where
  "update_weight cur delta clamp_for_new_reward =
     and_then (ok_or (checked_i64 (cur + delta)) (WeightOverflow cur delta)) (\<lambda>new.
       Ok (if clamp_for_new_reward \<and> new < 0 then 0 else new))"

definition adaptive_energy_limit :: "AdaptiveEnergy \<Rightarrow> i64 \<times> i64 \<Rightarrow> i64 \<times> i64 \<Rightarrow> (i64, ResourceError) result" where
  "adaptive_energy_limit state contract_rate expand_rate =
     (let (n, d) = (if ae_average_usage state > ae_target_limit state then contract_rate else expand_rate) in
      if n \<le> 0 \<or> d \<le> 0 then Err (InvalidRatio n d)
      else if ae_multiplier state < 0 then Err (NegativeAmount (ae_multiplier state))
      else and_then (i64_exact ((ae_current_limit state * n) sdiv d)) (\<lambda>scaled.
        and_then (i64_exact (ae_base_limit state * ae_multiplier state)) (\<lambda>upper.
        Ok (min (max scaled (ae_base_limit state)) upper))))"

definition charge_fee :: "i64 \<Rightarrow> i64 \<Rightarrow> FeeSink \<Rightarrow> FeeDisposition \<Rightarrow> (FeeDisposition, ResourceError) result" where
  "charge_fee balance fee sink totals =
     (if fee < 0 then Err (NegativeAmount fee)
      else if balance < fee then Err InsufficientBalance
      else let totals = totals\<lparr> fd_payer_balance := wrap_i64 (balance - fee) \<rparr> in
        case sink of
          Pool \<Rightarrow> and_then (i64_exact (fd_pool totals + fee)) (\<lambda>v. Ok (totals\<lparr> fd_pool := v \<rparr>))
        | Burn \<Rightarrow> and_then (i64_exact (fd_burned totals + fee)) (\<lambda>v. Ok (totals\<lparr> fd_burned := v \<rparr>))
        | BlackHole \<Rightarrow> and_then (i64_exact (fd_black_hole totals + fee)) (\<lambda>v. Ok (totals\<lparr> fd_black_hole := v \<rparr>)))"

section \<open>Rounding\<close>

lemma i64_exact_Ok [simp]: "i64_exact x = Ok y \<longleftrightarrow> in_i64 x \<and> y = x"
  by (auto simp: i64_exact_def ok_or_def checked_i64_def)

lemma sdiv_eq_div: "0 \<le> a \<Longrightarrow> 0 < b \<Longrightarrow> a sdiv b = a div b" for a b :: int
  by (simp add: signed_divide_int_def sgn_if)

lemma smod_eq_mod: "0 \<le> a \<Longrightarrow> 0 < b \<Longrightarrow> a smod b = a mod b" for a b :: int
  by (cases "a = 0") (simp_all add: signed_modulo_int_def)

lemma ceil_div_bounds:
  assumes "0 \<le> v" "0 < d"
  shows "v \<le> ceil_div v d * d" "ceil_div v d * d < v + d" "0 \<le> ceil_div v d"
proof -
  define q r where "q = v div d" and "r = v mod d"
  have e: "v = q * d + r" "0 \<le> r" "r < d" "0 \<le> q" using assms by (simp_all add: q_def r_def pos_imp_zdiv_nonneg_iff)
  have c: "ceil_div v d = q + (if r > 0 then 1 else 0)" using assms by (simp add: ceil_div_def sdiv_eq_div smod_eq_mod q_def r_def)
  show "v \<le> ceil_div v d * d" "ceil_div v d * d < v + d" "0 \<le> ceil_div v d" using e(2-4) e(1) unfolding c by (auto simp: distrib_right)
qed

text \<open>Rounding half up is one division.\<close>

lemma java_round_ratio_eq:
  assumes "0 < d"
  shows "java_round_ratio v n d = (2 * (v * n) + d) div (2 * d)"
proof -
  define q r where "q = v * n div d" and "r = v * n mod d"
  have e: "v * n = q * d + r" "0 \<le> r" "r < d" using assms by (simp_all add: q_def r_def)
  have j: "java_round_ratio v n d = q + (if r * 2 \<ge> d then 1 else 0)" by (simp add: java_round_ratio_def Let_def q_def r_def)
  show ?thesis
  proof (cases "r * 2 \<ge> d")
    case True
    then have "(2 * (q * d + r) + d) div (2 * d) = q + 1" using e(2,3) by (intro int_div_pos_eq [where r = "2 * r - d"]) (auto simp: algebra_simps)
    with True j e(1) show ?thesis by simp
  next
    case False
    then have "(2 * (q * d + r) + d) div (2 * d) = q" using e(2,3) assms by (intro int_div_pos_eq [where r = "2 * r + d"]) (auto simp: algebra_simps)
    with False j e(1) show ?thesis by simp
  qed
qed

section \<open>Recovery\<close>

text \<open>The usage left after \<open>delta\<close> of \<open>n\<close> slots.\<close>

definition left_after :: "int \<Rightarrow> int \<Rightarrow> int \<Rightarrow> int" where
  "left_after u n delta = (java_round_ratio (ceil_div (u * RESOURCE_PRECISION) n) (n - delta) n * n) div RESOURCE_PRECISION"

lemma left_after_bounds:
  assumes "0 \<le> u" "0 < n" "n \<le> RESOURCE_PRECISION" "0 \<le> delta" "delta \<le> delta'" "delta' < n"
  shows "0 \<le> left_after u n delta'" "left_after u n delta' \<le> left_after u n delta" "left_after u n 0 = u"
proof -
  define a where "a = ceil_div (u * RESOURCE_PRECISION) n"
  have P: "0 < RESOURCE_PRECISION" by (simp add: resource_constants)
  have a: "0 \<le> a" "u * RESOURCE_PRECISION \<le> a * n" "a * n < u * RESOURCE_PRECISION + n"
    using ceil_div_bounds [of "u * RESOURCE_PRECISION" n] assms P by (simp_all add: a_def)
  have round: "0 \<le> java_round_ratio a (n - x) n" if "x \<le> n" for x
    using that a(1) assms(2) by (simp add: java_round_ratio_eq pos_imp_zdiv_nonneg_iff)
  show "0 \<le> left_after u n delta'"
    using round [of delta'] assms(2,6) P by (simp add: left_after_def pos_imp_zdiv_nonneg_iff flip: a_def)
  have "a * (n - delta') \<le> a * (n - delta)" using a(1) assms(5) by (intro mult_left_mono) auto
  then have "java_round_ratio a (n - delta') n \<le> java_round_ratio a (n - delta) n"
    using assms(2) by (simp add: java_round_ratio_eq zdiv_mono1)
  then have "java_round_ratio a (n - delta') n * n \<le> java_round_ratio a (n - delta) n * n" using assms(2) by simp
  then show "left_after u n delta' \<le> left_after u n delta" using P by (simp add: left_after_def zdiv_mono1 flip: a_def)
  have "java_round_ratio a n n = a" using assms(2) by (simp add: java_round_ratio_def)
  then have "left_after u n 0 = a * n div RESOURCE_PRECISION" by (simp add: left_after_def flip: a_def)
  also have "\<dots> = u" using a(2,3) assms(3) by (intro int_div_pos_eq [where r = "a * n - u * RESOURCE_PRECISION"]) (auto simp: algebra_simps)
  finally show "left_after u n 0 = u" .
qed

lemma window_slots_pos: "window_slots w = Ok n \<Longrightarrow> 0 < n"
proof -
  assume "window_slots w = Ok n"
  moreover have "0 < x sdiv WINDOW_SIZE_PRECISION" if "WINDOW_SIZE_PRECISION \<le> x" for x
    using that by (simp add: sdiv_eq_div resource_constants pos_imp_zdiv_pos_iff)
  ultimately show ?thesis by (auto simp: window_slots_def split: if_splits)
qed

lemma recover_eq:
  assumes "window_slots w = Ok n" "n \<le> RESOURCE_PRECISION" "0 \<le> rs_usage w" "in_i64 (rs_usage w)"
    and "rs_latest_slot w \<le> now" "in_i64 (now - rs_latest_slot w)"
  shows "recover w now = Ok (if now - rs_latest_slot w \<ge> n then 0 else left_after (rs_usage w) n (now - rs_latest_slot w))"
proof (cases "now - rs_latest_slot w \<ge> n")
  case True
  then show ?thesis using assms by (simp add: recover_def)
next
  case False
  let ?d = "now - rs_latest_slot w" and ?v = "left_after (rs_usage w) n (now - rs_latest_slot w)"
  have n: "0 < n" using window_slots_pos [OF assms(1)] .
  note b = left_after_bounds [OF assms(3) n assms(2) order_refl, of ?d] left_after_bounds [OF assms(3) n assms(2), of ?d ?d]
  have "0 \<le> ?v" "?v \<le> rs_usage w" using b False assms(5) by simp_all
  then have fits: "in_i64 ?v" using assms(4) by (simp add: in_i64_def)
  have "0 \<le> java_round_ratio (ceil_div (rs_usage w * RESOURCE_PRECISION) n) (n - ?d) n"
    using False n assms(3) ceil_div_bounds(3) [of "rs_usage w * RESOURCE_PRECISION" n]
    by (simp add: java_round_ratio_eq pos_imp_zdiv_nonneg_iff resource_constants)
  then have "(java_round_ratio (ceil_div (rs_usage w * RESOURCE_PRECISION) n) (n - ?d) n * n) sdiv RESOURCE_PRECISION = ?v"
    using n by (simp add: left_after_def sdiv_eq_div resource_constants)
  then show ?thesis using False assms fits i64_exact_Ok [of ?v ?v] by (simp add: recover_def Let_def)
qed

text \<open>
  C30: For a window of at most a million slots whose recorded usage is a non-negative 64-bit integer, and
  reads at times not before the last use (with a 64-bit distance from it), usage recovers: reading it
  does not fail, never shows more than was used, shows exactly what was used at the moment of the last
  use, never more later than earlier, and nothing once the window has passed. Longer windows are
  outside: there the scaled average rounds up by more than the usage itself.
\<close>

theorem recover_decays:
  assumes "window_slots w = Ok n" "n \<le> 1000000" "0 \<le> rs_usage w" "in_i64 (rs_usage w)"
    and "rs_latest_slot w \<le> t1" "t1 \<le> t2" "in_i64 (t2 - rs_latest_slot w)"
  shows "\<exists>r1 r2. recover w t1 = Ok r1 \<and> recover w t2 = Ok r2 \<and> 0 \<le> r2 \<and> r2 \<le> r1 \<and> r1 \<le> rs_usage w \<and>
    (t1 = rs_latest_slot w \<longrightarrow> r1 = rs_usage w) \<and> (n \<le> t2 - rs_latest_slot w \<longrightarrow> r2 = 0)"
proof -
  let ?d1 = "t1 - rs_latest_slot w" and ?d2 = "t2 - rs_latest_slot w"
  have n: "0 < n" "n \<le> RESOURCE_PRECISION" using window_slots_pos [OF assms(1)] assms(2) by (simp_all add: resource_constants)
  have "in_i64 ?d1" using assms(5-7) by (simp add: in_i64_def)
  note r = recover_eq [OF assms(1) n(2) assms(3,4,5) this] recover_eq [OF assms(1) n(2) assms(3,4) _ assms(7)]
  have a: "0 \<le> left_after (rs_usage w) n d" "left_after (rs_usage w) n d \<le> rs_usage w" if "0 \<le> d" "d < n" for d
    using left_after_bounds [OF assms(3) n order_refl, of d] that by simp_all
  have m: "left_after (rs_usage w) n ?d2 \<le> left_after (rs_usage w) n ?d1" if "?d2 < n"
    using left_after_bounds(2) [OF assms(3) n, of ?d1 ?d2] that assms(5,6) by simp
  have z: "left_after (rs_usage w) n 0 = rs_usage w" using left_after_bounds(3) [OF assms(3) n order_refl order_refl] n by simp
  show ?thesis
    using r assms(3,5,6) a [of ?d1] a [of ?d2] m z n by (cases "?d1 \<ge> n"; cases "?d2 \<ge> n") auto
qed

section \<open>Consumption\<close>

lemma consume_cases:
  assumes "consume w amount now = Ok w'"
  obtains r where "0 \<le> amount" "rs_latest_slot w \<le> now" "0 < rs_standard_window w" "recover w now = Ok r" "in_i64 (r + amount)"
    "(if rs_precise w then consume_precise w amount now r (r + amount) else consume_slots w amount now r (r + amount)) = Ok w'"
  using assms by (auto simp: consume_def and_then_Ok split: if_splits)

text \<open>With a standard window of at most a million slots the products formed in \<open>consume\<close> fit \<open>i128\<close>.\<close>

lemma wrap_i128_id: "in_i128 x \<Longrightarrow> wrap_i128 x = x"
  by (simp add: wrap_i128_def in_i128_def)

lemma consume_products_fit:
  assumes "0 \<le> r" "r \<le> i64_max" "0 \<le> x" "x \<le> i64_max" "0 \<le> amount" "amount \<le> i64_max" "0 \<le> f" "f \<le> 1000000000"
  shows "wrap_i128 (r * x + amount * f) = r * x + amount * f"
proof (rule wrap_i128_id)
  have "r * x \<le> i64_max * i64_max" "amount * f \<le> i64_max * 1000000000" using assms by (intro mult_mono; simp)+
  moreover have "0 \<le> r * x" "0 \<le> amount * f" using assms by simp_all
  ultimately show "in_i128 (r * x + amount * f)" by (simp add: in_i128_def)
qed

lemma consumed_window:
  assumes "(if rs_precise w then consume_precise w amount now r u else consume_slots w amount now r u) = Ok w'"
    and "0 \<le> r" "0 \<le> amount" "u = r + amount" "0 < rs_standard_window w" "rs_standard_window w \<le> 1000000" "in_i64 u"
  shows "rs_usage w' = u \<and> rs_latest_slot w' = now \<and> rs_precise w' = rs_precise w \<and> rs_standard_window w' = rs_standard_window w \<and>
    0 \<le> rs_window w' \<and> rs_window w' \<le> rs_standard_window w * (if rs_precise w then WINDOW_SIZE_PRECISION else 1)"
proof (cases "rs_precise w")
  case True
  have "0 \<le> ceil_div (wrap_i128 (r * x + amount * (rs_standard_window w * WINDOW_SIZE_PRECISION))) u" if "0 \<le> x" "x \<le> i64_max" "u \<noteq> 0" for x
    using that assms(2-7) by (subst consume_products_fit) (auto simp: resource_constants in_i64_def intro!: ceil_div_bounds(3))
  moreover let ?full = "rs_standard_window w * WINDOW_SIZE_PRECISION"
  let ?left = "\<lambda>old. max (old - wrap_i64 (now - rs_latest_slot w) * WINDOW_SIZE_PRECISION) 0"
  obtain old where "0 \<le> ?left old" "?left old \<le> i64_max" "w' = \<lparr> rs_usage = u, rs_latest_slot = now,
      rs_window = (if u = 0 then ?full else min (ceil_div (wrap_i128 (r * ?left old + amount * ?full)) u) ?full), rs_precise = True, rs_standard_window = rs_standard_window w \<rparr>"
    using True assms(1) by (auto simp: consume_precise_def and_then_Ok Let_def in_i64_def)
  moreover have "0 \<le> ?full" using assms(5) by (simp add: resource_constants)
  ultimately show ?thesis using True by auto
next
  case False
  have "0 \<le> wrap_i128 (r * x + amount * rs_standard_window w) sdiv u" if "0 \<le> x" "x \<le> i64_max" "u \<noteq> 0" for x
    using that assms(2-7) by (subst consume_products_fit) (auto simp: in_i64_def sdiv_eq_div pos_imp_zdiv_nonneg_iff)
  moreover let ?left = "\<lambda>old. max (wrap_i64 (old - wrap_i64 (now - rs_latest_slot w))) 0"
  have "?left old \<le> i64_max" for old using in_i64_wrap [of "old - wrap_i64 (now - rs_latest_slot w)"] by (simp add: in_i64_def)
  moreover obtain old where "0 \<le> ?left old" "w' = \<lparr> rs_usage = u, rs_latest_slot = now,
      rs_window = (if u = 0 then rs_standard_window w else min (wrap_i128 (r * ?left old + amount * rs_standard_window w) sdiv u) (rs_standard_window w)),
      rs_precise = False, rs_standard_window = rs_standard_window w \<rparr>"
    using False assms(1) by (auto simp: consume_slots_def and_then_Ok Let_def)
  ultimately show ?thesis using False assms(5) by auto
qed

text \<open>
  Consuming adds to what has not yet recovered, restarts the clock and leaves a window of at least one
  slot and at most the standard window, in which the new usage is read back exactly.
\<close>

theorem consume_restarts:
  assumes "consume w amount now = Ok w'" "window_slots w = Ok n" "n \<le> 1000000" "rs_standard_window w \<le> 1000000"
    and "0 \<le> rs_usage w" "in_i64 (rs_usage w)" "in_i64 (now - rs_latest_slot w)"
  shows "\<exists>r n'. recover w now = Ok r \<and> rs_usage w' = r + amount \<and> rs_latest_slot w' = now \<and> window_slots w' = Ok n' \<and>
    0 < n' \<and> n' \<le> rs_standard_window w \<and> recover w' now = Ok (rs_usage w')"
proof -
  obtain r where c: "0 \<le> amount" "rs_latest_slot w \<le> now" "0 < rs_standard_window w" "recover w now = Ok r" "in_i64 (r + amount)"
    "(if rs_precise w then consume_precise w amount now r (r + amount) else consume_slots w amount now r (r + amount)) = Ok w'"
    by (rule consume_cases [OF assms(1)])
  have n: "0 < n" "n \<le> RESOURCE_PRECISION" using window_slots_pos [OF assms(2)] assms(3) by (simp_all add: resource_constants)
  have "0 \<le> r"
    using recover_eq [OF assms(2) n(2) assms(5,6) c(2) assms(7)] c(2,4) n
      left_after_bounds(1) [OF assms(5) n order_refl, of "now - rs_latest_slot w"] by (auto split: if_splits)
  note w' = consumed_window [OF c(6) this c(1) refl c(3) assms(4) c(5)]
  have "rs_window w' sdiv WINDOW_SIZE_PRECISION \<le> rs_standard_window w" if "rs_precise w" "1000 \<le> rs_window w'"
    using that w' by (simp add: sdiv_eq_div resource_constants) linarith
  then obtain n' where n': "window_slots w' = Ok n'" "n' \<le> rs_standard_window w"
    using w' c(3) by (cases "rs_precise w"; cases "rs_window w' = 0 \<or> (rs_precise w \<and> rs_window w' < WINDOW_SIZE_PRECISION)")
      (auto simp: window_slots_def resource_constants)
  have p: "0 < n'" "n' \<le> RESOURCE_PRECISION" using window_slots_pos [OF n'(1)] n'(2) assms(4) by (simp_all add: resource_constants)
  have u: "0 \<le> rs_usage w'" "in_i64 (rs_usage w')" using w' \<open>0 \<le> r\<close> c(1,5) by simp_all
  have "recover w' now = Ok (rs_usage w')"
    using recover_eq [OF n'(1) p(2) u, of now] w' p left_after_bounds(3) [OF u(1) p order_refl order_refl] by (simp add: in_i64_def)
  then show ?thesis using c(4) w' n' p by blast
qed

section \<open>Limits and fees\<close>

lemma div_times_le: "0 < d \<Longrightarrow> a div d * d \<le> a" for a d :: int
  using pos_mod_sign [of d a] div_mult_mod_eq [of a d] by linarith

lemma global_share:
  assumes "global_limit f g v2 = Ok x" "0 \<le> f" "0 < gr_weight g" "0 < gr_limit g"
  shows "x * (if v2 then TRX_PRECISION * gr_weight g else gr_weight g) \<le> (if v2 then f else f div TRX_PRECISION) * gr_limit g"
proof (cases "f = 0")
  case True
  with assms show ?thesis by (auto simp: global_limit_def)
next
  case False
  let ?d = "if v2 then TRX_PRECISION * gr_weight g else gr_weight g" and ?n = "(if v2 then f else f div TRX_PRECISION) * gr_limit g"
  have d: "0 < ?d" "0 \<le> ?n" using assms by (auto simp: resource_constants pos_imp_zdiv_nonneg_iff)
  have f: "f sdiv TRX_PRECISION = f div TRX_PRECISION" using assms(2) by (simp add: sdiv_eq_div resource_constants)
  have "x = ?n div ?d" using False assms d f by (auto simp: global_limit_def Let_def sdiv_eq_div split: if_splits)
  then show ?thesis using div_times_le [OF d(1), of ?n] by simp
qed

text \<open>
  The shares of a global limit never add up to more than the limit, as long as the total weight covers
  the frozen balances of all accounts, in whole TRX for the first rule and exactly for the second.
\<close>

theorem global_limit_no_overallocation:
  assumes "list_all2 (\<lambda>f x. global_limit f g v2 = Ok x) balances shares" "\<forall>f \<in> set balances. 0 \<le> f"
    and "0 < gr_weight g" "0 < gr_limit g"
    and "(if v2 then sum_list balances else sum_list (map (\<lambda>f. f div TRX_PRECISION) balances)) \<le>
      (if v2 then TRX_PRECISION * gr_weight g else gr_weight g)"
  shows "sum_list shares \<le> gr_limit g"
proof -
  let ?d = "if v2 then TRX_PRECISION * gr_weight g else gr_weight g"
  have d: "0 < ?d" using assms(3) by (simp add: resource_constants)
  have "sum_list shares * ?d \<le> (if v2 then sum_list balances else sum_list (map (\<lambda>f. f div TRX_PRECISION) balances)) * gr_limit g"
    using assms(1,2)
  proof (induction rule: list_all2_induct)
    case (Cons f fs x xs)
    then show ?case using global_share [of f g v2 x] assms(3,4) by (auto simp: distrib_right split: if_splits)
  qed simp
  also have "\<dots> \<le> ?d * gr_limit g" using assms(4,5) by (intro mult_right_mono) auto
  finally have "sum_list shares * ?d \<le> gr_limit g * ?d" by (simp only: mult.commute)
  then show ?thesis using d by (simp only: mult_le_cancel_right)
qed

text \<open>
  A fee is booked exactly once: what leaves the payer arrives in the chosen sink and nowhere else, and the
  payer never goes below zero.
\<close>

theorem charge_fee_conserves:
  assumes "charge_fee balance fee sink totals = Ok totals'" "in_i64 balance"
  shows "fd_payer_balance totals' + fd_pool totals' + fd_burned totals' + fd_black_hole totals' =
      balance + fd_pool totals + fd_burned totals + fd_black_hole totals \<and>
    0 \<le> fd_payer_balance totals' \<and>
    fd_pool totals' = fd_pool totals + (if sink = Pool then fee else 0) \<and> fd_burned totals' = fd_burned totals + (if sink = Burn then fee else 0)"
proof -
  from assms have "0 \<le> fee" "fee \<le> balance" by (auto simp: charge_fee_def split: if_splits)
  then have "wrap_i64 (balance - fee) = balance - fee" using assms(2) by (intro wrap_i64_id) (auto simp: in_i64_def)
  with assms \<open>0 \<le> fee\<close> \<open>fee \<le> balance\<close> show ?thesis
    by (cases sink) (auto simp: charge_fee_def and_then_Ok Let_def split: if_splits)
qed

lemma adaptive_energy_bounds:
  assumes "adaptive_energy_limit st c e = Ok x" "0 \<le> ae_base_limit st" "1 \<le> ae_multiplier st"
  shows "ae_base_limit st \<le> x \<and> x \<le> ae_base_limit st * ae_multiplier st"
proof -
  have "ae_base_limit st * 1 \<le> ae_base_limit st * ae_multiplier st" using assms(2,3) by (intro mult_left_mono) auto
  with assms(1) show ?thesis by (auto simp: adaptive_energy_limit_def and_then_Ok Let_def split: if_splits prod.splits)
qed

section \<open>Concrete values\<close>

definition demo_window :: ResourceWindow where
  "demo_window = \<lparr> rs_usage = 1000, rs_latest_slot = 50, rs_window = 10, rs_precise = False, rs_standard_window = 10 \<rparr>"

lemma demo_window_slots: "window_slots demo_window = Ok 10"
  by (simp add: window_slots_def demo_window_def)

theorem recover_decays_witness: "\<exists>r1 r2. recover demo_window 50 = Ok r1 \<and> recover demo_window 60 = Ok r2 \<and> r1 = 1000 \<and> r2 = 0"
  using recover_decays [OF demo_window_slots, of 50 60] by (auto simp: demo_window_def in_i64_def)

lemma demo_recover: "recover demo_window 54 = Ok 600"
  by (simp add: recover_def demo_window_slots Let_def)
     (simp add: demo_window_def ceil_div_def java_round_ratio_def resource_constants sdiv_eq_div smod_eq_mod wrap_i64_def i64_exact_def checked_i64_def in_i64_def ok_or_def)

lemma demo_consume: "consume demo_window 400 54 = Ok \<lparr> rs_usage = 1000, rs_latest_slot = 54, rs_window = 7, rs_precise = False, rs_standard_window = 10 \<rparr>"
  by (simp add: consume_def demo_recover)
     (simp add: consume_slots_def demo_window_def window_slots_def Let_def sdiv_eq_div wrap_i64_def wrap_i128_def i64_exact_def checked_i64_def in_i64_def ok_or_def)

theorem consume_restarts_witness: "\<exists>r. recover demo_window 54 = Ok r \<and> 1000 = r + 400"
  using consume_restarts [OF demo_consume demo_window_slots] by (auto simp: demo_window_def in_i64_def)

theorem global_limit_no_overallocation_witness: "sum_list [333, 666] \<le> (1000 :: int)"
proof -
  let ?g = "\<lparr> gr_limit = 1000, gr_weight = 3 \<rparr>"
  have "list_all2 (\<lambda>f x. global_limit f ?g True = Ok x) [1000000, 2000000] [333, 666]"
    by (simp add: global_limit_def resource_constants sdiv_eq_div i64_exact_def checked_i64_def in_i64_def ok_or_def)
  from global_limit_no_overallocation [OF this] show ?thesis by (simp add: resource_constants)
qed

theorem charge_fee_conserves_witness:
  "\<exists>t. charge_fee 100 30 Burn \<lparr> fd_payer_balance = 0, fd_pool = 1, fd_burned = 2, fd_black_hole = 3 \<rparr> = Ok t \<and> fd_burned t = 2 + 30 \<and> 0 \<le> fd_payer_balance t"
proof -
  let ?t = "\<lparr> fd_payer_balance = 70, fd_pool = 1, fd_burned = 32, fd_black_hole = 3 \<rparr>"
  have "charge_fee 100 30 Burn \<lparr> fd_payer_balance = 0, fd_pool = 1, fd_burned = 2, fd_black_hole = 3 \<rparr> = Ok ?t"
    by (simp add: charge_fee_def wrap_i64_def i64_exact_def checked_i64_def in_i64_def ok_or_def)
  with charge_fee_conserves [OF this] show ?thesis by (auto simp: in_i64_def)
qed

end
