(* ===== verification/Order_Book.thy ===== *)
theory Order_Book
  imports Dynamic_Types Market_Keys
begin

text \<open>
  The order book of \<open>tron-state/src/market.rs\<close>: an order is a row of the order store, the orders of one
  price are a doubly linked list through their \<open>prev\<close> and \<open>next\<close> fields with head and tail under the
  price key, the prices of a pair are counted under the pair key, and each owner's row lists its
  orders. The messages are encoded by a protobuf library outside the sources: its functions are the
  record \<open>market_codec\<close>, an argument of the operations. The properties are in \<open>Order_Book_Rules\<close>.
\<close>

section \<open>Messages and codec\<close>

record MarketOrder =
  mo_order_id :: bytes
  mo_owner_address :: bytes
  mo_create_time :: i64
  mo_sell_token_id :: bytes
  mo_sell_token_quantity :: i64
  mo_buy_token_id :: bytes
  mo_buy_token_quantity :: i64
  mo_sell_token_quantity_remain :: i64
  mo_sell_token_quantity_return :: i64
  mo_state :: i32
  mo_prev :: bytes
  mo_next :: bytes

record MarketAccountOrder =
  ma_owner_address :: bytes
  ma_orders :: "bytes list"
  ma_count :: i64
  ma_total_count :: i64

record MarketOrderIdList =
  ml_head :: bytes
  ml_tail :: bytes

record MarketPriceList =
  mp_sell_token_id :: bytes
  mp_buy_token_id :: bytes
  mp_prices :: "MarketPrice list"

record market_codec =
  enc_order :: "MarketOrder \<Rightarrow> bytes"
  dec_order :: "bytes \<Rightarrow> MarketOrder option"
  enc_account :: "MarketAccountOrder \<Rightarrow> bytes"
  dec_account :: "bytes \<Rightarrow> MarketAccountOrder option"
  enc_ids :: "MarketOrderIdList \<Rightarrow> bytes"
  dec_ids :: "bytes \<Rightarrow> MarketOrderIdList option"

text \<open>A decoding error carries the library's own error value, which is left out.\<close>

datatype MarketStoreError =
    MCodec MarketCodecError
  | MInvalidOrder string
  | MMissing string bytes
  | MCorrupt string
  | MDetached bytes
  | MWrongNeighbor bytes bytes
  | MCycle bytes
  | MStorage StorageError

section \<open>Linked orders\<close>

record LinkedOrder =
  lo_id :: bytes
  lo_prev :: bytes
  lo_next :: bytes

text \<open>The arguments passed by mutable reference are returned.\<close>

definition append_order :: "bytes \<Rightarrow> bytes \<Rightarrow> LinkedOrder \<Rightarrow> LinkedOrder option \<Rightarrow> bytes \<times> bytes \<times> LinkedOrder \<times> LinkedOrder option" where
  "append_order head tail entry old_tail =
     (let entry = entry\<lparr> lo_prev := [], lo_next := [] \<rparr> in
      case old_tail of
        Some previous \<Rightarrow> (head, lo_id entry, entry\<lparr> lo_prev := lo_id previous \<rparr>, Some (previous\<lparr> lo_next := lo_id entry \<rparr>))
      | None \<Rightarrow> (lo_id entry, lo_id entry, entry, None))"

definition unlink_order :: "bytes \<Rightarrow> bytes \<Rightarrow> LinkedOrder \<Rightarrow> LinkedOrder option \<Rightarrow> LinkedOrder option \<Rightarrow>
    bytes \<times> bytes \<times> LinkedOrder \<times> LinkedOrder option \<times> LinkedOrder option" where
  "unlink_order head tail entry previous following =
     (let head = (case previous of Some _ \<Rightarrow> head | None \<Rightarrow> lo_next entry);
          tail = (case following of Some _ \<Rightarrow> tail | None \<Rightarrow> lo_prev entry)
      in (head, tail, entry\<lparr> lo_prev := [], lo_next := [] \<rparr>,
          map_option (\<lambda>p. p\<lparr> lo_next := lo_next entry \<rparr>) previous,
          map_option (\<lambda>n. n\<lparr> lo_prev := lo_prev entry \<rparr>) following))"

section \<open>Reading the book\<close>

definition mdecode :: "(bytes \<Rightarrow> 'a option) \<Rightarrow> bytes \<Rightarrow> string \<Rightarrow> ('a, MarketStoreError) result" where
  "mdecode dec bs store = ok_or (dec bs) (MCorrupt store)"

definition mrequired :: "RustLog \<Rightarrow> StoreKind \<Rightarrow> bytes \<Rightarrow> string \<Rightarrow> (bytes, MarketStoreError) result" where
  "mrequired s kind key name = ok_or (typed_get s (kind_name kind) key) (MMissing name key)"

definition load_order :: "market_codec \<Rightarrow> RustLog \<Rightarrow> bytes \<Rightarrow> (MarketOrder, MarketStoreError) result" where
  "load_order c s oid =
     and_then (mrequired s KMarketOrder oid ''market_order'') (\<lambda>bs.
     and_then (mdecode (dec_order c) bs ''market_order'') (\<lambda>order.
     if mo_order_id order \<noteq> oid then Err (MDetached oid) else Ok order))"

definition price_count :: "bytes \<Rightarrow> (i64, MarketStoreError) result" where
  "price_count bs =
     (if length bs = 8 then Ok (i64_from_be_bytes bs)
      else Err (MInvalidOrder ''market price count must be an 8-byte signed integer''))"

definition order_price_key :: "MarketOrder \<Rightarrow> (bytes, MarketCodecError) result" where
  "order_price_key order =
     pair_price_key (mo_sell_token_id order) (mo_buy_token_id order) (mo_sell_token_quantity order) (mo_buy_token_quantity order)"

definition validate_order_price :: "MarketOrder \<Rightarrow> bytes \<Rightarrow> (unit, MarketStoreError) result" where
  "validate_order_price order price_key =
     and_then (map_err MCodec (order_price_key order)) (\<lambda>key.
     if key \<noteq> price_key then Err (MDetached (mo_order_id order)) else Ok ())"

definition pair_count :: "RustLog \<Rightarrow> bytes \<Rightarrow> (i64, MarketStoreError) result" where
  "pair_count s pair = (case typed_get s (kind_name KMarketPairToPrice) pair of None \<Rightarrow> Ok 0 | Some bs \<Rightarrow> price_count bs)"

definition market_price_count :: "RustLog \<Rightarrow> bytes \<Rightarrow> bytes \<Rightarrow> (i64, MarketStoreError) result" where
  "market_price_count s sell buy = and_then (map_err MCodec (pair_key sell buy)) (pair_count s)"

definition market_price_keys :: "RustLog \<Rightarrow> bytes \<Rightarrow> bytes \<Rightarrow> nat \<Rightarrow> (bytes list, MarketStoreError) result" where
  "market_price_keys s sell buy n =
     (if n = 0 then Ok []
      else and_then (map_err MCodec (pair_key sell buy)) (\<lambda>pair.
        and_then (map_err MCodec (pair_price_head_key sell buy)) (\<lambda>head.
        if \<not> typed_contains_key s (kind_name KMarketPairPriceToOrder) head then Ok []
        else and_then (map_err MStorage (typed_market_ordered s (kind_name KMarketPairPriceToOrder) pair head n)) (\<lambda>q.
          Ok (map fst (mq_rows q))))))"

text \<open>The \<open>expect\<close> on a key of another length would panic: the outer \<open>None\<close>.\<close>

definition market_prices :: "RustLog \<Rightarrow> bytes \<Rightarrow> bytes \<Rightarrow> nat \<Rightarrow> (MarketPriceList, MarketStoreError) result option" where
  "market_prices s sell buy n =
     (case market_price_keys s sell buy n of
        Err e \<Rightarrow> Some (Err e)
      | Ok keys \<Rightarrow>
        if list_all (\<lambda>key. decode_price key \<noteq> None) keys
        then Some (Ok \<lparr> mp_sell_token_id = sell, mp_buy_token_id = buy,
          mp_prices = map (\<lambda>key. case decode_price key of Some (sq, bq) \<Rightarrow> \<lparr> sell_quantity = sq, buy_quantity = bq \<rparr>) keys \<rparr>)
        else None)"

fun audit_walk :: "market_codec \<Rightarrow> RustLog \<Rightarrow> bytes \<Rightarrow> nat \<Rightarrow> bytes \<Rightarrow> bytes \<Rightarrow> nat \<Rightarrow> (bytes \<times> bytes \<times> nat, MarketStoreError) result" where
  "audit_walk c s price_key 0 expected_prev oid visited = Ok (expected_prev, oid, visited)"
| "audit_walk c s price_key (Suc left) expected_prev oid visited =
     (if oid = [] then Ok (expected_prev, oid, visited)
      else and_then (load_order c s oid) (\<lambda>order.
        if mo_prev order \<noteq> expected_prev then Err (MWrongNeighbor oid (mo_prev order))
        else and_then (validate_order_price order price_key) (\<lambda>_.
          audit_walk c s price_key left (mo_order_id order) (mo_next order) (Suc visited))))"

definition audit_market_price_chain :: "market_codec \<Rightarrow> RustLog \<Rightarrow> bytes \<Rightarrow> nat \<Rightarrow> (nat, MarketStoreError) result" where
  "audit_market_price_chain c s price_key limit =
     and_then (mrequired s KMarketPairPriceToOrder price_key ''market_pair_price_to_order'') (\<lambda>bs.
     and_then (mdecode (dec_ids c) bs ''market_pair_price_to_order'') (\<lambda>ids.
     if (ml_head ids = []) \<noteq> (ml_tail ids = []) then Err (MDetached (ml_head ids))
     else and_then (audit_walk c s price_key limit [] (ml_head ids) 0) (\<lambda>(expected_prev, oid, visited).
       if oid = [] \<and> expected_prev \<noteq> ml_tail ids then Err (MDetached (ml_tail ids)) else Ok visited)))"

section \<open>Appending an order\<close>

definition append_account :: "market_codec \<Rightarrow> MarketOrder \<Rightarrow> RustLog \<Rightarrow> (MarketAccountOrder, MarketStoreError) result" where
  "append_account c order s =
     and_then (case typed_get s (kind_name KMarketAccount) (mo_owner_address order) of
                 Some bs \<Rightarrow> mdecode (dec_account c) bs ''market_account''
               | None \<Rightarrow> Ok \<lparr> ma_owner_address = mo_owner_address order, ma_orders = [], ma_count = 0, ma_total_count = 0 \<rparr>) (\<lambda>account.
     if ma_owner_address account \<noteq> mo_owner_address order \<or> mo_order_id order \<in> set (ma_orders account)
        \<or> ma_count account < 0 \<or> nat (ma_count account) \<noteq> length (ma_orders account) \<or> ma_total_count account < ma_count account
     then Err (MDetached (mo_order_id order)) else Ok account)"

text \<open>The price list with the order as its tail, the old tail order if there is one, and the order linked to it.\<close>

definition append_ids :: "market_codec \<Rightarrow> MarketOrder \<Rightarrow> bytes \<Rightarrow> RustLog \<Rightarrow>
    (MarketOrderIdList \<times> MarketOrder option \<times> MarketOrder, MarketStoreError) result" where
  "append_ids c order price_key s =
     and_then (case typed_get s (kind_name KMarketPairPriceToOrder) price_key of
                 None \<Rightarrow> Ok \<lparr> ml_head = [], ml_tail = [] \<rparr>
               | Some bs \<Rightarrow> mdecode (dec_ids c) bs ''market_pair_price_to_order'') (\<lambda>ids.
     if (ml_head ids = []) \<noteq> (ml_tail ids = []) then Err (MDetached price_key)
     else and_then (if ml_tail ids = [] then Ok None else and_then (load_order c s (ml_tail ids)) (\<lambda>entry. Ok (Some entry))) (\<lambda>tail.
       case tail of
         Some entry \<Rightarrow>
           if mo_order_id entry \<noteq> ml_tail ids \<or> mo_next entry \<noteq> [] then Err (MWrongNeighbor (mo_order_id entry) (mo_next entry))
           else and_then (validate_order_price entry price_key) (\<lambda>_.
             Ok (ids\<lparr> ml_tail := mo_order_id order \<rparr>, Some entry, order\<lparr> mo_prev := mo_order_id entry \<rparr>))
       | None \<Rightarrow> Ok (ids\<lparr> ml_head := mo_order_id order, ml_tail := mo_order_id order \<rparr>, None, order)))"

definition append_count :: "MarketOrder \<Rightarrow> bytes \<Rightarrow> bool \<Rightarrow> RustLog \<Rightarrow> (i64 \<times> i64 \<times> bytes, MarketStoreError) result" where
  "append_count order pair new_price s =
     and_then (pair_count s pair) (\<lambda>old_count.
     if old_count < 0 then Err (MDetached pair)
     else and_then (map_err MCodec (pair_price_head_key (mo_sell_token_id order) (mo_buy_token_id order))) (\<lambda>head_key.
       if (old_count = 0) \<noteq> (\<not> typed_contains_key s (kind_name KMarketPairPriceToOrder) head_key) then Err (MDetached pair)
       else and_then (if new_price then ok_or (checked_i64 (old_count + 1)) (MInvalidOrder ''market price count overflow'') else Ok old_count) (\<lambda>new_count.
         Ok (old_count, new_count, head_key))))"

definition count_order :: "MarketOrder \<Rightarrow> MarketAccountOrder \<Rightarrow> (MarketAccountOrder, MarketStoreError) result" where
  "count_order order account =
     and_then (ok_or (checked_i64 (ma_count account + 1)) (MInvalidOrder ''account active count overflow'')) (\<lambda>active.
     and_then (ok_or (checked_i64 (ma_total_count account + 1)) (MInvalidOrder ''account total count overflow'')) (\<lambda>whole.
     Ok (account\<lparr> ma_orders := ma_orders account @ [mo_order_id order], ma_count := active, ma_total_count := whole \<rparr>)))"

definition append_batch :: "market_codec \<Rightarrow> MarketOrder \<Rightarrow> RustLog \<Rightarrow> (WriteBatch, MarketStoreError) result" where
  "append_batch c order s =
     (if mo_order_id order = [] \<or> mo_owner_address order = [] then Err (MInvalidOrder ''order and owner IDs must be non-empty'')
      else if mo_prev order \<noteq> [] \<or> mo_next order \<noteq> [] then Err (MDetached (mo_order_id order))
      else if typed_contains_key s (kind_name KMarketOrder) (mo_order_id order) then Err (MInvalidOrder ''order ID already exists'')
      else
        and_then (map_err MCodec (pair_key (mo_sell_token_id order) (mo_buy_token_id order))) (\<lambda>pair.
        and_then (map_err MCodec (order_price_key order)) (\<lambda>price_key.
        and_then (append_account c order s) (\<lambda>account.
        let new_price = (typed_get s (kind_name KMarketPairPriceToOrder) price_key = None) in
        and_then (append_ids c order price_key s) (\<lambda>(ids, tail, order).
        and_then (append_count order pair new_price s) (\<lambda>(old_count, new_count, head_key).
        and_then (count_order order account) (\<lambda>account.
        let batch = (case tail of
                       Some entry \<Rightarrow> state_batch_put (kind_name KMarketOrder) (mo_order_id entry) (enc_order c (entry\<lparr> mo_next := mo_order_id order \<rparr>)) []
                     | None \<Rightarrow> []);
            batch = state_batch_put (kind_name KMarketOrder) (mo_order_id order) (enc_order c order) batch;
            batch = state_batch_put (kind_name KMarketAccount) (mo_owner_address order) (enc_account c account) batch;
            batch = (if new_price \<and> old_count = 0 then state_batch_put (kind_name KMarketPairPriceToOrder) head_key [] batch else batch);
            batch = (if new_price then state_batch_put (kind_name KMarketPairToPrice) pair (i64_to_be_bytes new_count) batch else batch)
        in Ok (state_batch_put (kind_name KMarketPairPriceToOrder) price_key (enc_ids c ids) batch))))))))"

definition market_commit :: "os \<Rightarrow> WriteBatch \<Rightarrow> RustLog \<Rightarrow> RustLog \<times> (unit, MarketStoreError) result" where
  "market_commit env batch s = (case state_batch_commit env batch s of (s', r) \<Rightarrow> (s', map_err MStorage r))"

definition append_market_order :: "os \<Rightarrow> market_codec \<Rightarrow> MarketOrder \<Rightarrow> RustLog \<Rightarrow> RustLog \<times> (unit, MarketStoreError) result" where
  "append_market_order env c order s =
     (case append_batch c order s of Err e \<Rightarrow> (s, Err e) | Ok batch \<Rightarrow> market_commit env batch s)"

section \<open>Unlinking an order\<close>

text \<open>The neighbour named by a link, which must point back and have the same price.\<close>

definition load_neighbor :: "market_codec \<Rightarrow> RustLog \<Rightarrow> bytes \<Rightarrow> (MarketOrder option, MarketStoreError) result" where
  "load_neighbor c s oid = (if oid = [] then Ok None else and_then (load_order c s oid) (\<lambda>entry. Ok (Some entry)))"

definition check_neighbor :: "bytes \<Rightarrow> bytes \<Rightarrow> (MarketOrder \<Rightarrow> bytes) \<Rightarrow> MarketOrder option \<Rightarrow> (unit, MarketStoreError) result" where
  "check_neighbor oid price_key back entry =
     (case entry of
        None \<Rightarrow> Ok ()
      | Some entry \<Rightarrow> if back entry \<noteq> oid then Err (MWrongNeighbor oid (mo_order_id entry)) else validate_order_price entry price_key)"

definition unlink_account :: "market_codec \<Rightarrow> MarketOrder \<Rightarrow> bytes \<Rightarrow> RustLog \<Rightarrow> (MarketAccountOrder, MarketStoreError) result" where
  "unlink_account c order oid s =
     and_then (mrequired s KMarketAccount (mo_owner_address order) ''market_account'') (\<lambda>bs.
     and_then (mdecode (dec_account c) bs ''market_account'') (\<lambda>account.
     if ma_owner_address account \<noteq> mo_owner_address order \<or> ma_count account \<le> 0
        \<or> nat (ma_count account) \<noteq> length (ma_orders account) \<or> ma_total_count account < ma_count account
     then Err (MDetached (mo_owner_address order))
     else case position (\<lambda>x. x = oid) (ma_orders account) of
         None \<Rightarrow> Err (MDetached oid)
       | Some i \<Rightarrow>
         if length (filter (\<lambda>x. x = oid) (ma_orders account)) \<noteq> 1 then Err (MDetached oid)
         else Ok (account\<lparr> ma_orders := take i (ma_orders account) @ drop (Suc i) (ma_orders account), ma_count := ma_count account - 1 \<rparr>)))"

definition unlink_batch :: "market_codec \<Rightarrow> bytes \<Rightarrow> RustLog \<Rightarrow> (WriteBatch \<times> MarketOrder, MarketStoreError) result" where
  "unlink_batch c oid s =
     and_then (load_order c s oid) (\<lambda>order.
     if mo_prev order = oid \<or> mo_next order = oid then Err (MCycle oid)
     else
       and_then (map_err MCodec (pair_key (mo_sell_token_id order) (mo_buy_token_id order))) (\<lambda>pair.
       and_then (map_err MCodec (order_price_key order)) (\<lambda>price_key.
       and_then (mrequired s KMarketPairPriceToOrder price_key ''market_pair_price_to_order'') (\<lambda>bs.
       and_then (mdecode (dec_ids c) bs ''market_pair_price_to_order'') (\<lambda>ids.
       if (ml_head ids = []) \<noteq> (ml_tail ids = []) \<or> (mo_prev order = []) \<noteq> (ml_head ids = oid) \<or> (mo_next order = []) \<noteq> (ml_tail ids = oid)
       then Err (MDetached oid)
       else
         and_then (map_err MCodec (pair_price_head_key (mo_sell_token_id order) (mo_buy_token_id order))) (\<lambda>head_key.
         if \<not> typed_contains_key s (kind_name KMarketPairPriceToOrder) head_key then Err (MDetached pair)
         else
           and_then (mrequired s KMarketPairToPrice pair ''market_pair_to_price'') (\<lambda>bs.
           and_then (price_count bs) (\<lambda>n.
           if n \<le> 0 then Err (MDetached pair)
           else
             and_then (load_neighbor c s (mo_prev order)) (\<lambda>previous.
             and_then (load_neighbor c s (mo_next order)) (\<lambda>following.
             and_then (check_neighbor oid price_key mo_next previous) (\<lambda>_.
             and_then (check_neighbor oid price_key mo_prev following) (\<lambda>_.
             and_then (unlink_account c order oid s) (\<lambda>account.
             let ids = (case previous of Some _ \<Rightarrow> ids | None \<Rightarrow> ids\<lparr> ml_head := mo_next order \<rparr>);
                 ids = (case following of Some _ \<Rightarrow> ids | None \<Rightarrow> ids\<lparr> ml_tail := mo_prev order \<rparr>);
                 batch = (case previous of
                            Some entry \<Rightarrow> state_batch_put (kind_name KMarketOrder) (mo_order_id entry) (enc_order c (entry\<lparr> mo_next := mo_next order \<rparr>)) []
                          | None \<Rightarrow> []);
                 batch = (case following of
                            Some entry \<Rightarrow> state_batch_put (kind_name KMarketOrder) (mo_order_id entry) (enc_order c (entry\<lparr> mo_prev := mo_prev order \<rparr>)) batch
                          | None \<Rightarrow> batch);
                 batch = state_batch_delete (kind_name KMarketOrder) oid batch;
                 batch = state_batch_put (kind_name KMarketAccount) (ma_owner_address account) (enc_account c account) batch
             in Ok (if ml_head ids = []
                    then let batch = state_batch_delete (kind_name KMarketPairPriceToOrder) price_key batch in
                      if n = 1 then state_batch_delete (kind_name KMarketPairPriceToOrder) head_key (state_batch_delete (kind_name KMarketPairToPrice) pair batch)
                      else state_batch_put (kind_name KMarketPairToPrice) pair (i64_to_be_bytes (n - 1)) batch
                    else state_batch_put (kind_name KMarketPairPriceToOrder) price_key (enc_ids c ids) batch, order))))))))))))))"

definition unlink_market_order :: "os \<Rightarrow> market_codec \<Rightarrow> bytes \<Rightarrow> RustLog \<Rightarrow> RustLog \<times> (MarketOrder, MarketStoreError) result" where
  "unlink_market_order env c oid s =
     (case unlink_batch c oid s of
        Err e \<Rightarrow> (s, Err e)
      | Ok (batch, order) \<Rightarrow> (case market_commit env batch s of (s', r) \<Rightarrow> (s', and_then r (\<lambda>_. Ok order))))"

end
