(* ===== verification/Order_Book_Rules.thy ===== *)
theory Order_Book_Rules
  imports Order_Book
begin

text \<open>
  The order book refines a map from price keys to queues of order identifiers. The invariant \<open>book_inv\<close>
  ties the four stores to such a map; appending an order adds its identifier at the end of the queue
  of its price, unlinking removes it, and nothing else of the book changes.
\<close>

section \<open>The codec\<close>

definition order_range :: "MarketOrder \<Rightarrow> bool" where
  "order_range order \<longleftrightarrow> in_i64 (mo_create_time order) \<and> in_i64 (mo_sell_token_quantity order) \<and> in_i64 (mo_buy_token_quantity order)
     \<and> in_i64 (mo_sell_token_quantity_remain order) \<and> in_i64 (mo_sell_token_quantity_return order) \<and> in_i32 (mo_state order)"

definition account_range :: "MarketAccountOrder \<Rightarrow> bool" where
  "account_range account \<longleftrightarrow> in_i64 (ma_count account) \<and> in_i64 (ma_total_count account)"

text \<open>What the protobuf library promises: a message decodes from its own encoding, and a decoded message
  is within the widths of its fields.\<close>

definition codec_ok :: "market_codec \<Rightarrow> bool" where
  "codec_ok c \<longleftrightarrow>
     (\<forall>order. order_range order \<longrightarrow> dec_order c (enc_order c order) = Some order) \<and>
     (\<forall>bs order. dec_order c bs = Some order \<longrightarrow> order_range order) \<and>
     (\<forall>account. account_range account \<longrightarrow> dec_account c (enc_account c account) = Some account) \<and>
     (\<forall>bs account. dec_account c bs = Some account \<longrightarrow> account_range account) \<and>
     (\<forall>ids. dec_ids c (enc_ids c ids) = Some ids)"

lemma codec_okD:
  assumes "codec_ok c"
  shows "order_range order \<Longrightarrow> dec_order c (enc_order c order) = Some order"
    and "dec_order c bs = Some order \<Longrightarrow> order_range order"
    and "account_range account \<Longrightarrow> dec_account c (enc_account c account) = Some account"
    and "dec_account c bs = Some account \<Longrightarrow> account_range account"
    and "dec_ids c (enc_ids c ids) = Some ids"
  using assms by (auto simp: codec_ok_def)

lemma order_range_links [simp]:
  "order_range (order\<lparr> mo_prev := a \<rparr>) = order_range order" "order_range (order\<lparr> mo_next := a \<rparr>) = order_range order"
  "order_price_key (order\<lparr> mo_prev := a \<rparr>) = order_price_key order" "order_price_key (order\<lparr> mo_next := a \<rparr>) = order_price_key order"
  by (simp_all add: order_range_def order_price_key_def)

section \<open>Linked segments\<close>

text \<open>A row of a store is absent, undecodable or a message.\<close>

type_synonym 'a rows = "bytes \<Rightarrow> 'a option option"

definition order_rows :: "market_codec \<Rightarrow> RustLog \<Rightarrow> MarketOrder rows" where
  "order_rows c s k = map_option (dec_order c) (typed_get s (kind_name KMarketOrder) k)"

definition account_rows :: "market_codec \<Rightarrow> RustLog \<Rightarrow> MarketAccountOrder rows" where
  "account_rows c s k = map_option (dec_account c) (typed_get s (kind_name KMarketAccount) k)"

definition ids_rows :: "market_codec \<Rightarrow> RustLog \<Rightarrow> MarketOrderIdList rows" where
  "ids_rows c s k = map_option (dec_ids c) (typed_get s (kind_name KMarketPairPriceToOrder) k)"

definition entry_at :: "MarketOrder rows \<Rightarrow> bytes \<Rightarrow> bytes \<Rightarrow> bytes \<Rightarrow> bytes \<Rightarrow> bool" where
  "entry_at M p a x b \<longleftrightarrow> x \<noteq> [] \<and>
     (\<exists>order. M x = Some (Some order) \<and> mo_order_id order = x \<and> order_price_key order = Ok p \<and> mo_prev order = a \<and> mo_next order = b)"

text \<open>\<open>seg M p a xs b\<close>: the orders \<open>xs\<close> are linked in this order, after \<open>a\<close> and before \<open>b\<close>.\<close>

fun seg :: "MarketOrder rows \<Rightarrow> bytes \<Rightarrow> bytes \<Rightarrow> bytes list \<Rightarrow> bytes \<Rightarrow> bool" where
  "seg M p a [] b \<longleftrightarrow> True"
| "seg M p a (x # xs) b \<longleftrightarrow> entry_at M p a x (hd (xs @ [b])) \<and> seg M p x xs b"

lemma seg_append: "seg M p a (xs @ ys) b \<longleftrightarrow> seg M p a xs (hd (ys @ [b])) \<and> seg M p (last (a # xs)) ys b"
proof (induction xs arbitrary: a)
  case (Cons x xs)
  then show ?case by (cases xs) auto
qed simp

lemma seg_frame: "(\<And>x. x \<in> set xs \<Longrightarrow> M' x = M x) \<Longrightarrow> seg M' p a xs b = seg M p a xs b"
  by (induction xs arbitrary: a) (auto simp: entry_at_def)

lemma seg_entry:
  assumes "seg M p a xs b" "x \<in> set xs"
  obtains order where "M x = Some (Some order)" "mo_order_id order = x" "order_price_key order = Ok p" "x \<noteq> []"
proof -
  obtain ys zs where "xs = ys @ x # zs" using assms(2) by (auto simp: in_set_conv_decomp)
  with assms(1) have "entry_at M p (last (a # ys)) x (hd (zs @ [b]))" by (simp add: seg_append)
  then show thesis using that by (auto simp: entry_at_def)
qed

lemma seg_ids: "seg M p a xs b \<Longrightarrow> [] \<notin> set xs"
  by (auto elim: seg_entry)

text \<open>Appending at the end of a queue.\<close>

definition linked_after :: "MarketOrder rows \<Rightarrow> MarketOrder option \<Rightarrow> MarketOrder \<Rightarrow> MarketOrder rows" where
  "linked_after M tail order =
     (case tail of None \<Rightarrow> M | Some entry \<Rightarrow> M(mo_order_id entry := Some (Some (entry\<lparr> mo_next := mo_order_id order \<rparr>))))
       (mo_order_id order := Some (Some order))"

lemma seg_linked_after_empty:
  "mo_order_id order \<noteq> [] \<Longrightarrow> order_price_key order = Ok p \<Longrightarrow> mo_prev order = [] \<Longrightarrow> mo_next order = [] \<Longrightarrow>
   seg (linked_after M None order) p [] [mo_order_id order] []"
  by (auto simp: entry_at_def linked_after_def)

lemma seg_linked_after:
  assumes "seg M p [] (us @ [t]) []" "distinct (us @ [t])" "M t = Some (Some entry)"
    and x: "mo_order_id order \<noteq> []" "order_price_key order = Ok p" "mo_next order = []" "mo_order_id order \<notin> set (us @ [t])"
  shows "seg (linked_after M (Some entry) (order\<lparr> mo_prev := t \<rparr>)) p [] (us @ [t, mo_order_id order]) []"
proof -
  let ?M = "linked_after M (Some entry) (order\<lparr> mo_prev := t \<rparr>)"
  from assms(1) have *: "seg M p [] us t" "entry_at M p (last ([] # us)) t []" by (simp_all add: seg_append)
  from *(2) assms(3) have t: "mo_order_id entry = t" "order_price_key entry = Ok p" "mo_prev entry = last ([] # us)" "t \<noteq> []"
    by (auto simp: entry_at_def)
  have "seg ?M p [] us t" by (rule seg_frame [THEN iffD2, OF _ *(1)]) (use assms(2) x(4) t(1) in \<open>auto simp: linked_after_def\<close>)
  moreover have "entry_at ?M p (last ([] # us)) t (mo_order_id order)"
    using x t assms(3) by (auto simp: entry_at_def linked_after_def)
  moreover have "entry_at ?M p t (mo_order_id order) []" using x by (auto simp: entry_at_def linked_after_def)
  ultimately show ?thesis by (simp add: seg_append)
qed

text \<open>Removing from a queue.\<close>

definition bypassed :: "MarketOrder rows \<Rightarrow> MarketOrder \<Rightarrow> MarketOrder option \<Rightarrow> MarketOrder option \<Rightarrow> MarketOrder rows" where
  "bypassed M order previous following =
     (let M1 = (case previous of None \<Rightarrow> M | Some entry \<Rightarrow> M(mo_prev order := Some (Some (entry\<lparr> mo_next := mo_next order \<rparr>))));
          M2 = (case following of None \<Rightarrow> M1 | Some entry \<Rightarrow> M1(mo_next order := Some (Some (entry\<lparr> mo_prev := mo_prev order \<rparr>))))
      in M2(mo_order_id order := None))"

definition neighbor :: "MarketOrder rows \<Rightarrow> bytes \<Rightarrow> MarketOrder option" where
  "neighbor M x = (if x = [] then None else Option.bind (M x) id)"

lemma bypassed_at:
  "k \<noteq> mo_prev order \<Longrightarrow> k \<noteq> mo_next order \<Longrightarrow> k \<noteq> mo_order_id order \<Longrightarrow> bypassed M order previous following k = M k"
  "mo_prev order \<noteq> mo_next order \<Longrightarrow> mo_prev order \<noteq> mo_order_id order \<Longrightarrow>
   bypassed M order (Some entry) following (mo_prev order) = Some (Some (entry\<lparr> mo_next := mo_next order \<rparr>))"
  "mo_next order \<noteq> mo_order_id order \<Longrightarrow>
   bypassed M order previous (Some entry) (mo_next order) = Some (Some (entry\<lparr> mo_prev := mo_prev order \<rparr>))"
  "bypassed M order previous following (mo_order_id order) = None"
  by (auto simp: bypassed_def Let_def split: option.splits)

lemma seg_bypassed:
  assumes "seg M p [] (ys @ x # zs) []" "distinct (ys @ x # zs)" "M x = Some (Some order)"
  shows "seg (bypassed M order (neighbor M (mo_prev order)) (neighbor M (mo_next order))) p [] (ys @ zs) []"
proof -
  let ?M = "bypassed M order (neighbor M (mo_prev order)) (neighbor M (mo_next order))"
  let ?a = "last ([] # ys)" and ?b = "hd (zs @ [[]])"
  from assms(1) have s: "seg M p [] ys x" "entry_at M p ?a x ?b" "seg M p x zs []" by (simp_all add: seg_append)
  then have o: "mo_order_id order = x" "mo_prev order = ?a" "mo_next order = ?b" using assms(3) by (auto simp: entry_at_def)
  have ys: "seg ?M p [] ys ?b"
  proof (cases ys rule: rev_cases)
    case (snoc us y)
    with s(1) have u: "seg M p [] us y" "entry_at M p (last ([] # us)) y x" by (simp_all add: seg_append)
    have a: "?a = y" using snoc by simp
    obtain e where e: "M y = Some (Some e)" "mo_order_id e = y" "order_price_key e = Ok p" "mo_prev e = last ([] # us)" "y \<noteq> []"
      using u(2) by (auto simp: entry_at_def)
    have out: "?b \<notin> set us \<union> {y, x}"
      using assms(2) snoc e(5) s(2) seg_ids [OF s(1)] by (cases zs) (auto simp: entry_at_def)
    then have "seg ?M p [] us y"
      using assms(2) snoc o a by (intro seg_frame [THEN iffD2, OF _ u(1)] bypassed_at(1)) auto
    moreover have "?M y = Some (Some (e\<lparr> mo_next := ?b \<rparr>))"
      using bypassed_at(2) [of order M e] o a e out assms(2) snoc by (auto simp: neighbor_def)
    then have "entry_at ?M p (last ([] # us)) y ?b" using e by (simp add: entry_at_def)
    ultimately show ?thesis using snoc by (simp add: seg_append)
  qed simp
  have zs: "seg ?M p ?a zs []"
  proof (cases zs)
    case (Cons z ws)
    with s(3) have w: "seg M p z ws []" "entry_at M p x z (hd (ws @ [[]]))" by simp_all
    have b: "?b = z" using Cons by simp
    obtain e where e: "M z = Some (Some e)" "mo_order_id e = z" "order_price_key e = Ok p" "mo_next e = hd (ws @ [[]])" "z \<noteq> []"
      using w(2) by (auto simp: entry_at_def)
    have out: "?a \<notin> set ws \<union> {z, x}"
      using assms(2) Cons e(5) s(2) seg_ids [OF s(3)] by (cases ys rule: rev_cases) (auto simp: entry_at_def)
    then have "seg ?M p z ws []"
      using assms(2) Cons o b by (intro seg_frame [THEN iffD2, OF _ w(1)] bypassed_at(1)) auto
    moreover have "?M z = Some (Some (e\<lparr> mo_prev := ?a \<rparr>))"
      using bypassed_at(3) [of order M _ e] o b e assms(2) Cons by (auto simp: neighbor_def)
    then have "entry_at ?M p ?a z (hd (ws @ [[]]))" using e by (simp add: entry_at_def)
    ultimately show ?thesis using Cons by simp
  qed simp
  from ys zs show ?thesis by (simp add: seg_append)
qed

section \<open>The invariant\<close>

type_synonym book = "bytes \<Rightarrow> bytes list"

definition price_key :: "bytes \<Rightarrow> bool" where
  "price_key p \<longleftrightarrow> (\<exists>order. order_range order \<and> order_price_key order = Ok p)"

definition queue_inv :: "MarketOrder rows \<Rightarrow> MarketOrderIdList rows \<Rightarrow> bytes \<Rightarrow> bytes list \<Rightarrow> bool" where
  "queue_inv M I p xs \<longleftrightarrow> distinct xs \<and> seg M p [] xs [] \<and>
     (price_key p \<longrightarrow> I p = (if xs = [] then None else Some (Some \<lparr> ml_head = hd xs, ml_tail = last xs \<rparr>)))"

definition owned :: "MarketOrder rows \<Rightarrow> bytes \<Rightarrow> bytes set" where
  "owned M a = {x. \<exists>order. M x = Some (Some order) \<and> mo_owner_address order = a}"

definition account_inv :: "bytes \<Rightarrow> bytes set \<Rightarrow> MarketAccountOrder option option \<Rightarrow> bool" where
  "account_inv a X row \<longleftrightarrow>
     (case row of
        None \<Rightarrow> X = {}
      | Some None \<Rightarrow> False
      | Some (Some account) \<Rightarrow> ma_owner_address account = a \<and> distinct (ma_orders account) \<and> set (ma_orders account) = X
          \<and> ma_count account = int (length (ma_orders account)) \<and> ma_count account \<le> ma_total_count account)"

definition prices :: "book \<Rightarrow> bytes \<Rightarrow> bytes set" where
  "prices book pair = {p. book p \<noteq> [] \<and> take 38 p = pair}"

definition pair_head :: "bytes \<Rightarrow> bytes" where
  "pair_head pair = pair @ replicate 16 0"

definition count_inv :: "RustLog \<Rightarrow> bytes \<Rightarrow> nat \<Rightarrow> bool" where
  "count_inv s pair n \<longleftrightarrow> in_i64 (int n) \<and>
     typed_get s (kind_name KMarketPairToPrice) pair = (if n = 0 then None else Some (i64_to_be_bytes (int n))) \<and>
     (typed_get s (kind_name KMarketPairPriceToOrder) (pair_head pair) \<noteq> None \<longleftrightarrow> n \<noteq> 0)"

definition book_inv :: "market_codec \<Rightarrow> RustLog \<Rightarrow> book \<Rightarrow> bool" where
  "book_inv c s book \<longleftrightarrow>
     (\<forall>p. queue_inv (order_rows c s) (ids_rows c s) p (book p)) \<and>
     (\<forall>x row. order_rows c s x = Some row \<longrightarrow>
        (\<exists>order p. row = Some order \<and> mo_order_id order = x \<and> order_price_key order = Ok p \<and> x \<in> set (book p))) \<and>
     (\<forall>a. account_inv a (owned (order_rows c s) a) (account_rows c s a)) \<and>
     finite {p. book p \<noteq> []} \<and>
     (\<forall>pair. length pair = 38 \<longrightarrow> count_inv s pair (card (prices book pair)))"

lemma book_invD:
  assumes "book_inv c s book"
  shows "queue_inv (order_rows c s) (ids_rows c s) p (book p)"
    and "order_rows c s x = Some row \<Longrightarrow> \<exists>order p. row = Some order \<and> mo_order_id order = x \<and> order_price_key order = Ok p \<and> x \<in> set (book p)"
    and "account_inv a (owned (order_rows c s) a) (account_rows c s a)"
    and "finite {p. book p \<noteq> []}"
    and "length pair = 38 \<Longrightarrow> count_inv s pair (card (prices book pair))"
  using assms by (auto simp: book_inv_def)

lemma order_key_facts:
  assumes "order_range order" "order_price_key order = Ok p"
  obtains pair where "pair_key (mo_sell_token_id order) (mo_buy_token_id order) = Ok pair" "length pair = 38" "take 38 p = pair"
    "pair_price_head_key (mo_sell_token_id order) (mo_buy_token_id order) = Ok (pair_head pair)" "\<forall>q. p \<noteq> pair_head q"
proof -
  let ?s = "mo_sell_token_quantity order" and ?b = "mo_buy_token_quantity order"
  have r: "in_i64 ?s" "in_i64 ?b" using assms(1) by (simp_all add: order_range_def)
  then obtain pair where pair: "padded_pair (mo_sell_token_id order) (mo_buy_token_id order) = Ok pair" "0 < ?s" "0 < ?b"
    and p: "p = pair @ i64_to_be_bytes (?s div gcd ?s ?b) @ i64_to_be_bytes (?b div gcd ?s ?b)"
    using assms(2) by (auto simp: order_price_key_def pair_price_key_Ok)
  note len = length_padded_pair [OF pair(1)]
  have pos: "0 < ?s div gcd ?s ?b" "in_i64 (?s div gcd ?s ?b)" using reduced_range [OF pair(2) r(1) pair(3)] by simp_all
  have "p \<noteq> pair_head q" for q
  proof
    assume *: "p = pair_head q"
    then have "length q = 38" using p len by (simp add: pair_head_def)
    then have "take 8 (drop 38 p) = replicate 8 0" using * by (simp add: pair_head_def)
    moreover have "take 8 (drop 38 p) = i64_to_be_bytes (?s div gcd ?s ?b)" by (simp add: p len)
    ultimately have "i64_from_be_bytes (i64_to_be_bytes (?s div gcd ?s ?b)) = i64_from_be_bytes (replicate 8 0)" by simp
    moreover have "i64_from_be_bytes (replicate 8 0) = 0" by (simp add: i64_from_be_bytes_def be_value_zeros wrap_i64_def)
    ultimately have "?s div gcd ?s ?b = 0" using pos(2) by simp
    with pos(1) show False by simp
  qed
  with pair len p show thesis by (intro that [of pair]) (simp_all add: pair_key_def pair_price_head_key_def pair_head_def)
qed

lemma load_order_Ok: "load_order c s x = Ok order \<longleftrightarrow> order_rows c s x = Some (Some order) \<and> mo_order_id order = x"
  by (auto simp: load_order_def mrequired_def mdecode_def order_rows_def ok_or_def split: option.splits)

lemma order_rows_range: "codec_ok c \<Longrightarrow> order_rows c s x = Some (Some order) \<Longrightarrow> order_range order"
  by (auto simp: order_rows_def codec_okD(2))

lemma validate_order_price_Ok: "order_price_key order = Ok p \<Longrightarrow> validate_order_price order p = Ok ()"
  by (simp add: validate_order_price_def map_err_def)

lemma queue_of:
  assumes "book_inv c s book" "x \<in> set (book p)"
  obtains order where "order_rows c s x = Some (Some order)" "mo_order_id order = x" "order_price_key order = Ok p" "x \<noteq> []"
  using book_invD(1) [OF assms(1), of p] assms(2) by (auto simp: queue_inv_def elim: seg_entry)

lemma queue_price_key:
  assumes "codec_ok c" "book_inv c s book" "x \<in> set (book p)"
  shows "price_key p"
proof -
  obtain order where "order_rows c s x = Some (Some order)" "order_price_key order = Ok p" using queue_of [OF assms(2,3)] .
  then show ?thesis using order_rows_range [OF assms(1)] by (auto simp: price_key_def)
qed

lemma queues_disjoint:
  assumes "book_inv c s book" "x \<in> set (book p)" "x \<in> set (book q)"
  shows "p = q"
proof -
  obtain o1 where "order_rows c s x = Some (Some o1)" "order_price_key o1 = Ok p" using queue_of [OF assms(1,2)] .
  moreover obtain o2 where "order_rows c s x = Some (Some o2)" "order_price_key o2 = Ok q" using queue_of [OF assms(1,3)] .
  ultimately show ?thesis by simp
qed

section \<open>Auditing\<close>

lemma audit_walk_seg:
  assumes "seg (order_rows c s) p a xs []"
  shows "audit_walk c s p n a (hd (xs @ [[]])) v =
    Ok (last (a # take n xs), hd (drop n xs @ [[]]), v + min n (length xs))"
  using assms
proof (induction n arbitrary: a xs v)
  case (Suc n)
  show ?case
  proof (cases xs)
    case (Cons x ys)
    with Suc.prems obtain order where o: "load_order c s x = Ok order" "mo_order_id order = x" "mo_prev order = a"
        "mo_next order = hd (ys @ [[]])" "order_price_key order = Ok p" "x \<noteq> []"
      by (auto simp: entry_at_def load_order_Ok)
    with Suc.IH [of x ys "Suc v"] Suc.prems Cons show ?thesis by (simp add: validate_order_price_Ok)
  qed simp
qed (cases xs; simp)

section \<open>Batches\<close>

lemma kind_name_inj: "kind_name a = kind_name b \<longleftrightarrow> a = b"
proof
  have d: "distinct (map db_name StoreKind_ALL)" by code_simp
  assume "kind_name a = kind_name b"
  then have "db_name a = db_name b" by (auto simp: kind_name_def intro: str_bytes_inj)
  then show "a = b" using d kind_in_ALL [of a] kind_in_ALL [of b] by (auto simp: distinct_map inj_on_def)
qed simp

definition batch_effect :: "WriteBatch \<Rightarrow> StoreKind \<Rightarrow> bytes \<Rightarrow> bytes option option" where
  "batch_effect batch kind k = last_effect batch (physical_key (kind_name kind) k)"

lemma last_effect_append:
  "last_effect (xs @ ys) k = (case last_effect ys k of Some v \<Rightarrow> Some v | None \<Rightarrow> last_effect xs k)"
  by (induction xs) (auto split: option.splits)

lemma batch_effect_simps [simp]:
  "batch_effect [] kind k = None"
  "batch_effect (state_batch_put (kind_name kind') k' v batch) kind k =
     (if kind = kind' \<and> k = k' then Some (Some v) else batch_effect batch kind k)"
  "batch_effect (state_batch_delete (kind_name kind') k' batch) kind k =
     (if kind = kind' \<and> k = k' then Some None else batch_effect batch kind k)"
  by (auto simp: batch_effect_def state_batch_put_def state_batch_delete_def batch_put_def batch_delete_def last_effect_append physical_key_inj kind_name_inj)

lemma market_commit_get:
  assumes "market_commit env batch s = (s', r)"
  shows "typed_get s' (kind_name kind) k =
    (case (if is_ok r then batch_effect batch kind k else None) of None \<Rightarrow> typed_get s (kind_name kind) k | Some v \<Rightarrow> v)"
proof -
  obtain r0 where r0: "write_with_faults env no_faults batch s = (s', r0)" "r = map_err MStorage r0"
    using assms by (auto simp: market_commit_def state_batch_commit_def log_write_def split: prod.splits)
  then have "is_ok r = is_ok r0" by (cases r0) (auto simp: map_err_def)
  then show ?thesis using batch_get [OF r0(1), of kind k]
    by (simp add: get_apply_batch batch_effect_def typed_get_def log_get_def split: option.splits)
qed

section \<open>Appending\<close>

lemma prev_same: "mo_prev order = a \<Longrightarrow> order\<lparr> mo_prev := a \<rparr> = order"
  by (cases order) simp

definition account_of :: "MarketAccountOrder rows \<Rightarrow> bytes \<Rightarrow> MarketAccountOrder" where
  "account_of A a = (case A a of Some (Some account) \<Rightarrow> account
     | _ \<Rightarrow> \<lparr> ma_owner_address = a, ma_orders = [], ma_count = 0, ma_total_count = 0 \<rparr>)"

lemma account_of_inv: "account_inv a X (A a) \<Longrightarrow> account_inv a X (Some (Some (account_of A a)))"
  by (auto simp: account_inv_def account_of_def split: option.splits)

lemma append_account_eq:
  assumes "book_inv c s book" "order_rows c s (mo_order_id order) = None"
  shows "append_account c order s = Ok (account_of (account_rows c s) (mo_owner_address order))"
proof -
  note inv = book_invD(3) [OF assms(1), of "mo_owner_address order"]
  have "mo_order_id order \<notin> owned (order_rows c s) (mo_owner_address order)" using assms(2) by (simp add: owned_def)
  with account_of_inv [where A = "account_rows c s", OF inv] inv show ?thesis
    by (cases "typed_get s (kind_name KMarketAccount) (mo_owner_address order)")
      (auto simp: append_account_def account_of_def account_rows_def account_inv_def mdecode_def ok_or_def split: option.splits)
qed

lemma append_ids_eq:
  assumes "book_inv c s book" "price_key p" "mo_prev order = []"
  shows "append_ids c order p s =
    Ok (\<lparr> ml_head = hd (book p @ [mo_order_id order]), ml_tail = mo_order_id order \<rparr>,
        neighbor (order_rows c s) (last ([] # book p)), order\<lparr> mo_prev := last ([] # book p) \<rparr>)"
proof -
  have q: "seg (order_rows c s) p [] (book p) []"
      "ids_rows c s p = (if book p = [] then None else Some (Some \<lparr> ml_head = hd (book p), ml_tail = last (book p) \<rparr>))"
    using book_invD(1) [OF assms(1), of p] assms(2) by (auto simp: queue_inv_def)
  show ?thesis
  proof (cases "book p" rule: rev_cases)
    case Nil
    with q(2) show ?thesis by (simp add: append_ids_def ids_rows_def neighbor_def prev_same [OF assms(3)])
  next
    case (snoc us t)
    with q(1) obtain entry where e: "order_rows c s t = Some (Some entry)" "mo_order_id entry = t" "order_price_key entry = Ok p" "mo_next entry = []" "t \<noteq> []"
      by (auto simp: seg_append entry_at_def)
    have "t # us \<noteq> [] \<and> hd (us @ [t]) \<noteq> []" using seg_ids [OF q(1)] snoc by (cases us) auto
    moreover have "hd (us @ [t, x]) = hd (us @ [t])" for x by (cases us) simp_all
    ultimately show ?thesis using q(2) snoc e load_order_Ok [of c s t entry]
      by (auto simp: append_ids_def ids_rows_def neighbor_def mdecode_def validate_order_price_Ok)
  qed
qed

lemma pair_count_eq: "count_inv s pair n \<Longrightarrow> pair_count s pair = Ok (int n)"
  by (simp add: count_inv_def pair_count_def price_count_def)

lemma append_count_eq:
  assumes "count_inv s pair n" "pair_price_head_key (mo_sell_token_id order) (mo_buy_token_id order) = Ok (pair_head pair)"
  shows "append_count order pair new_price s =
    and_then (if new_price then ok_or (checked_i64 (int n + 1)) (MInvalidOrder ''market price count overflow'') else Ok (int n)) (\<lambda>m.
      Ok (int n, m, pair_head pair))"
  unfolding append_count_def pair_count_eq [OF assms(1)] using assms by (auto simp: map_err_def contains_get count_inv_def)

lemma and_then_assoc: "and_then (and_then r f) g = and_then r (\<lambda>x. and_then (f x) g)"
  by (cases r) simp_all

lemma counted_account:
  assumes "count_order order account = Ok account'" "account_inv a X (Some (Some account))" "mo_order_id order \<notin> X" "a = mo_owner_address order"
  shows "account_inv a (insert (mo_order_id order) X) (Some (Some account'))" "account_range account'"
  using assms by (auto simp: count_order_def account_inv_def account_range_def and_then_Ok checked_i64_Some)

definition accepts :: "market_codec \<Rightarrow> RustLog \<Rightarrow> MarketOrder \<Rightarrow> bytes \<Rightarrow> bool" where
  "accepts c s order p \<longleftrightarrow> mo_order_id order \<noteq> [] \<and> mo_owner_address order \<noteq> [] \<and> mo_prev order = [] \<and> mo_next order = []
     \<and> order_rows c s (mo_order_id order) = None \<and> order_price_key order = Ok p"

text \<open>On a well-formed book the only checks of an append that can fail are those of its argument and the overflow checks.\<close>

lemma append_batch_eq:
  assumes "codec_ok c" "book_inv c s book" "order_range order" "accepts c s order p" "length pair = 38" "take 38 p = pair"
    and keys: "pair_key (mo_sell_token_id order) (mo_buy_token_id order) = Ok pair"
      "pair_price_head_key (mo_sell_token_id order) (mo_buy_token_id order) = Ok (pair_head pair)"
  defines "n \<equiv> card (prices book pair)" and "a \<equiv> last ([] # book p)"
  shows "append_batch c order s =
    and_then (if book p = [] then ok_or (checked_i64 (int n + 1)) (MInvalidOrder ''market price count overflow'') else Ok (int n)) (\<lambda>m.
    and_then (count_order order (account_of (account_rows c s) (mo_owner_address order))) (\<lambda>account.
      let batch = (case neighbor (order_rows c s) a of
              Some entry \<Rightarrow> state_batch_put (kind_name KMarketOrder) (mo_order_id entry) (enc_order c (entry\<lparr> mo_next := mo_order_id order \<rparr>)) []
            | None \<Rightarrow> []);
          batch = state_batch_put (kind_name KMarketOrder) (mo_order_id order) (enc_order c (order\<lparr> mo_prev := a \<rparr>)) batch;
          batch = state_batch_put (kind_name KMarketAccount) (mo_owner_address order) (enc_account c account) batch;
          batch = (if book p = [] \<and> n = 0 then state_batch_put (kind_name KMarketPairPriceToOrder) (pair_head pair) [] batch else batch);
          batch = (if book p = [] then state_batch_put (kind_name KMarketPairToPrice) pair (i64_to_be_bytes m) batch else batch)
      in Ok (state_batch_put (kind_name KMarketPairPriceToOrder) p
           (enc_ids c \<lparr> ml_head = hd (book p @ [mo_order_id order]), ml_tail = mo_order_id order \<rparr>) batch)))"
proof -
  from assms(4) have o: "mo_order_id order \<noteq> []" "mo_owner_address order \<noteq> []" "mo_prev order = []" "mo_next order = []"
      "order_rows c s (mo_order_id order) = None" "order_price_key order = Ok p" by (simp_all add: accepts_def)
  have pk: "price_key p" using assms(3) o(6) by (auto simp: price_key_def)
  have fresh: "\<not> typed_contains_key s (kind_name KMarketOrder) (mo_order_id order)" using o(5) by (simp add: contains_get order_rows_def)
  have new: "typed_get s (kind_name KMarketPairPriceToOrder) p = None \<longleftrightarrow> book p = []"
    using book_invD(1) [OF assms(2), of p] pk by (auto simp: queue_inv_def ids_rows_def split: if_splits)
  have co: "count_order (order\<lparr> mo_prev := x \<rparr>) = count_order order" for x by (rule ext) (simp add: count_order_def)
  note n = append_count_eq [OF book_invD(5) [OF assms(2,5)], where order = "order\<lparr> mo_prev := a \<rparr>" for a, folded n_def]
  show ?thesis
    using o(1-4) fresh new n keys(2) co
    by (cases "book p = []"; cases "n = 0"; cases "neighbor (order_rows c s) a")
      (simp_all add: append_batch_def append_account_eq [OF assms(2) o(5)] append_ids_eq [OF assms(2) pk o(3)] keys(1) o(6)
        map_err_def Let_def a_def and_then_assoc del: not_None_eq)
qed

text \<open>What a successful append leaves in the four stores.\<close>

lemma append_views:
  assumes "codec_ok c" "book_inv c s book" "order_range order" "append_market_order env c order s = (s', Ok ())"
  obtains p pair account where "accepts c s order p" "price_key p" "length pair = 38" "take 38 p = pair"
    "order_rows c s' = linked_after (order_rows c s) (neighbor (order_rows c s) (last ([] # book p))) (order\<lparr> mo_prev := last ([] # book p) \<rparr>)"
    "account_rows c s' = (account_rows c s)(mo_owner_address order := Some (Some account))"
    "account_inv (mo_owner_address order) (insert (mo_order_id order) (owned (order_rows c s) (mo_owner_address order))) (Some (Some account))"
    "\<forall>q. price_key q \<longrightarrow> ids_rows c s' q =
       (if q = p then Some (Some \<lparr> ml_head = hd (book p @ [mo_order_id order]), ml_tail = mo_order_id order \<rparr>) else ids_rows c s q)"
    "\<forall>q. length q = 38 \<longrightarrow> count_inv s' q (card (prices book q) + (if q = pair \<and> book p = [] then 1 else 0))"
proof -
  from assms(4) obtain batch where b: "append_batch c order s = Ok batch" "market_commit env batch s = (s', Ok ())"
    by (auto simp: append_market_order_def split: sum.splits prod.splits)
  from b(1) obtain p where acc: "accepts c s order p"
    by (auto simp: append_batch_def accepts_def contains_get order_rows_def and_then_Ok map_err_def split: if_splits sum.splits)
  then have o: "mo_order_id order \<noteq> []" "order_rows c s (mo_order_id order) = None" "order_price_key order = Ok p" by (simp_all add: accepts_def)
  have pk: "price_key p" using assms(3) o(3) by (auto simp: price_key_def)
  obtain pair where pair: "pair_key (mo_sell_token_id order) (mo_buy_token_id order) = Ok pair" "length pair = 38" "take 38 p = pair"
    "pair_price_head_key (mo_sell_token_id order) (mo_buy_token_id order) = Ok (pair_head pair)" "\<forall>q. p \<noteq> pair_head q"
    using order_key_facts [OF assms(3) o(3)] .
  let ?n = "card (prices book pair)"
  obtain m account where m: "(if book p = [] then m = int ?n + 1 \<and> in_i64 m else m = int ?n)"
    and account: "count_order order (account_of (account_rows c s) (mo_owner_address order)) = Ok account"
    and batch: "batch = state_batch_put (kind_name KMarketPairPriceToOrder) p (enc_ids c \<lparr> ml_head = hd (book p @ [mo_order_id order]), ml_tail = mo_order_id order \<rparr>)
        (let batch = (case neighbor (order_rows c s) (last ([] # book p)) of
              Some entry \<Rightarrow> state_batch_put (kind_name KMarketOrder) (mo_order_id entry) (enc_order c (entry\<lparr> mo_next := mo_order_id order \<rparr>)) []
            | None \<Rightarrow> []);
          batch = state_batch_put (kind_name KMarketOrder) (mo_order_id order) (enc_order c (order\<lparr> mo_prev := last ([] # book p) \<rparr>)) batch;
          batch = state_batch_put (kind_name KMarketAccount) (mo_owner_address order) (enc_account c account) batch;
          batch = (if book p = [] \<and> ?n = 0 then state_batch_put (kind_name KMarketPairPriceToOrder) (pair_head pair) [] batch else batch)
         in if book p = [] then state_batch_put (kind_name KMarketPairToPrice) pair (i64_to_be_bytes m) batch else batch)"
    using b(1) unfolding append_batch_eq [OF assms(1-3) acc pair(2,3,1,4)] Let_def
    by (auto simp: and_then_Ok checked_i64_Some split: if_splits)
  note get = market_commit_get [OF b(2), simplified is_ok_simps if_True]
  note inv = book_invD [OF assms(2)]
  have fresh: "mo_order_id order \<notin> owned (order_rows c s) (mo_owner_address order)" using o(2) by (simp add: owned_def)
  note counted = counted_account [OF account account_of_inv [where A = "account_rows c s", OF inv(3)] fresh refl]
  have tail: "order_range entry" if "neighbor (order_rows c s) x = Some entry" for x entry
    using that order_rows_range [OF assms(1)] by (auto simp: neighbor_def bind_eq_Some_conv split: if_splits)
  show thesis
  proof (rule that [OF acc pk pair(2,3) _ _ counted(1)]; (intro allI impI)?)
    show "order_rows c s' = linked_after (order_rows c s) (neighbor (order_rows c s) (last ([] # book p))) (order\<lparr> mo_prev := last ([] # book p) \<rparr>)"
      using tail codec_okD(1) [OF assms(1)] assms(3)
      by (auto simp: fun_eq_iff order_rows_def get batch linked_after_def Let_def split: option.splits)
    show "account_rows c s' = (account_rows c s)(mo_owner_address order := Some (Some account))"
      using codec_okD(3) [OF assms(1) counted(2)] by (auto simp: fun_eq_iff account_rows_def get batch Let_def split: option.splits)
    show "ids_rows c s' q = (if q = p then Some (Some \<lparr> ml_head = hd (book p @ [mo_order_id order]), ml_tail = mo_order_id order \<rparr>) else ids_rows c s q)"
      if q: "price_key q" for q
    proof -
      have "q \<noteq> pair_head pair" using q order_key_facts by (metis price_key_def)
      then show ?thesis using codec_okD(5) [OF assms(1)] by (auto simp: ids_rows_def get batch Let_def split: option.splits)
    qed
    show "count_inv s' q (card (prices book q) + (if q = pair \<and> book p = [] then 1 else 0))" if q: "length q = 38" for q
      using inv(5) [OF q] pair(5) [rule_format, symmetric] pair(5) m
      by (auto simp: count_inv_def get batch Let_def pair_head_def split: option.splits)
  qed
qed

text \<open>The content of the orders, without their links.\<close>

definition content :: "MarketOrder rows \<Rightarrow> MarketOrder rows" where
  "content M x = map_option (map_option (\<lambda>order. order\<lparr> mo_prev := [], mo_next := [] \<rparr>)) (M x)"

lemma content_linked_after:
  assumes "\<And>entry. tail = Some entry \<Longrightarrow> M (mo_order_id entry) = Some (Some entry)"
  shows "content (linked_after M tail order) =
    (content M)(mo_order_id order := Some (Some (order\<lparr> mo_prev := [], mo_next := [] \<rparr>)))"
  using assms by (auto simp: fun_eq_iff content_def linked_after_def split: option.splits)

lemma owned_content: "owned M a = {x. \<exists>order. content M x = Some (Some order) \<and> mo_owner_address order = a}"
  by (auto simp: owned_def content_def)

definition row_inv :: "book \<Rightarrow> bytes \<Rightarrow> MarketOrder option \<Rightarrow> bool" where
  "row_inv book x row \<longleftrightarrow> (\<exists>order p. row = Some order \<and> mo_order_id order = x \<and> order_price_key order = Ok p \<and> x \<in> set (book p))"

definition rows_inv :: "MarketOrder rows \<Rightarrow> book \<Rightarrow> bool" where
  "rows_inv M book \<longleftrightarrow> (\<forall>x row. M x = Some row \<longrightarrow> row_inv book x row)"

lemma rows_inv_content: "rows_inv (content M) book \<longleftrightarrow> rows_inv M book"
proof -
  have "row_inv book x (map_option (\<lambda>order. order\<lparr> mo_prev := [], mo_next := [] \<rparr>) row) \<longleftrightarrow> row_inv book x row" for row x
    by (cases row) (auto simp: row_inv_def)
  then have "(\<forall>row. content M x = Some row \<longrightarrow> row_inv book x row) \<longleftrightarrow> (\<forall>row. M x = Some row \<longrightarrow> row_inv book x row)" for x
    by (cases "M x") (auto simp: content_def)
  then show ?thesis by (simp add: rows_inv_def)
qed

lemma finite_prices: "finite {q. book q \<noteq> []} \<Longrightarrow> finite (prices book pair)"
  by (rule finite_subset [of _ "{q. book q \<noteq> []}"]) (auto simp: prices_def)

lemma finite_book: "finite {q. book q \<noteq> []} \<Longrightarrow> finite {q. (book(p := xs)) q \<noteq> []}"
  by (rule finite_subset [of _ "insert p {q. book q \<noteq> []}"]) auto

lemma card_prices:
  assumes "finite {q. book q \<noteq> []}"
  shows "xs \<noteq> [] \<Longrightarrow> card (prices (book(p := xs)) q) = card (prices book q) + (if q = take 38 p \<and> book p = [] then 1 else 0)"
    and "book p \<noteq> [] \<Longrightarrow> card (prices book q) = card (prices (book(p := [])) q) + (if q = take 38 p then 1 else 0)"
proof -
  assume "xs \<noteq> []"
  then have "prices (book(p := xs)) q = (if q = take 38 p then insert p (prices book q) else prices book q)"
    and "p \<in> prices book q \<longleftrightarrow> q = take 38 p \<and> book p \<noteq> []" by (auto simp: prices_def)
  then show "card (prices (book(p := xs)) q) = card (prices book q) + (if q = take 38 p \<and> book p = [] then 1 else 0)"
    using finite_prices [OF assms] by (auto simp: card_insert_if)
next
  assume "book p \<noteq> []"
  then have "prices book q = (if q = take 38 p then insert p (prices (book(p := [])) q) else prices (book(p := [])) q)"
    and "p \<notin> prices (book(p := [])) q" by (auto simp: prices_def)
  then show "card (prices book q) = card (prices (book(p := [])) q) + (if q = take 38 p then 1 else 0)"
    using finite_prices [where book = "book(p := [])", OF finite_book [OF assms]] by (auto simp del: fun_upd_apply)
qed

text \<open>Another queue does not see a change at keys that are not its own.\<close>

lemma queue_frame:
  assumes "queue_inv M I q xs" "\<And>x. x \<in> set xs \<Longrightarrow> M' x = M x" "price_key q \<Longrightarrow> I' q = I q"
  shows "queue_inv M' I' q xs"
  using assms seg_frame [of xs M' M q "[]" "[]"] by (auto simp: queue_inv_def)

lemma tail_entry:
  assumes "book_inv c s book" "neighbor (order_rows c s) (last ([] # book p)) = Some entry"
  shows "book p \<noteq> []" "mo_order_id entry = last (book p)" "order_rows c s (last (book p)) = Some (Some entry)"
proof -
  show *: "book p \<noteq> []" using assms(2) by (auto simp: neighbor_def)
  obtain order where "order_rows c s (last (book p)) = Some (Some order)" "mo_order_id order = last (book p)"
    using queue_of [OF assms(1) last_in_set [OF *]] .
  then show "mo_order_id entry = last (book p)" "order_rows c s (last (book p)) = Some (Some entry)"
    using assms(2) * by (auto simp: neighbor_def split: if_splits)
qed

lemma append_keeps_inv:
  assumes "codec_ok c" "book_inv c s book" "order_range order" "append_market_order env c order s = (s', Ok ())"
  obtains p where "accepts c s order p" "book_inv c s' (book(p := book p @ [mo_order_id order]))"
    "content (order_rows c s') = (content (order_rows c s))(mo_order_id order := Some (Some order))"
proof -
  let ?M = "order_rows c s" and ?x = "mo_order_id order"
  obtain p pair account where acc: "accepts c s order p" and pk: "price_key p" and pair: "length pair = 38" "take 38 p = pair"
    and M: "order_rows c s' = linked_after ?M (neighbor ?M (last ([] # book p))) (order\<lparr> mo_prev := last ([] # book p) \<rparr>)"
    and A: "account_rows c s' = (account_rows c s)(mo_owner_address order := Some (Some account))"
      "account_inv (mo_owner_address order) (insert ?x (owned ?M (mo_owner_address order))) (Some (Some account))"
    and I: "\<forall>q. price_key q \<longrightarrow> ids_rows c s' q = (if q = p then Some (Some \<lparr> ml_head = hd (book p @ [?x]), ml_tail = ?x \<rparr>) else ids_rows c s q)"
    and N: "\<forall>q. length q = 38 \<longrightarrow> count_inv s' q (card (prices book q) + (if q = pair \<and> book p = [] then 1 else 0))"
    using append_views [OF assms] .
  let ?tail = "neighbor ?M (last ([] # book p))" and ?book = "book(p := book p @ [?x])"
  note inv = book_invD [OF assms(2)] and tail = tail_entry [OF assms(2), where p = p]
  have o: "?x \<noteq> []" "mo_prev order = []" "mo_next order = []" "?M ?x = None" "order_price_key order = Ok p" using acc by (simp_all add: accepts_def)
  have stripped: "order\<lparr> mo_prev := [], mo_next := [] \<rparr> = order" using o(2,3) by (cases order) simp
  have fresh: "?x \<notin> set (book q)" for q using o(4) queue_of [OF assms(2), of ?x q] by auto
  have content: "content (order_rows c s') = (content ?M)(?x := Some (Some order))"
  proof -
    have "?M (mo_order_id entry) = Some (Some entry)" if "?tail = Some entry" for entry using tail [OF that] by simp
    from content_linked_after [OF this] show ?thesis unfolding M by (simp add: stripped)
  qed
  have "queue_inv (order_rows c s') (ids_rows c s') q (?book q)" for q
  proof (cases "q = p")
    case True
    have "seg (order_rows c s') p [] (book p @ [?x]) []"
    proof (cases "book p" rule: rev_cases)
      case Nil
      then show ?thesis using seg_linked_after_empty [of order p ?M] o by (simp add: M neighbor_def prev_same)
    next
      case (snoc us t)
      obtain entry where e: "?M t = Some (Some entry)" "t \<noteq> []" using queue_of [OF assms(2), of t p] snoc by auto
      then show ?thesis using seg_linked_after [of ?M p us t entry order] inv(1) [of p] snoc o fresh [of p]
        by (simp add: M neighbor_def queue_inv_def)
    qed
    then show ?thesis using True inv(1) [of p] fresh [of p] I pk by (simp add: queue_inv_def)
  next
    case False
    have "order_rows c s' x = ?M x" if x: "x \<in> set (book q)" for x
    proof -
      have "x \<noteq> mo_order_id entry" if "?tail = Some entry" for entry
        using tail [OF that] False x queues_disjoint [OF assms(2), of x p q] by auto
      moreover have "x \<noteq> ?x" using fresh x by auto
      ultimately show ?thesis by (auto simp: M linked_after_def split: option.splits)
    qed
    then show ?thesis using queue_frame [OF inv(1), of q] I False by simp
  qed
  moreover have "rows_inv (content ?M) book" unfolding rows_inv_content using inv(2) by (auto simp: rows_inv_def row_inv_def)
  then have "rows_inv (content (order_rows c s')) ?book"
    using o(5) unfolding content by (fastforce simp: rows_inv_def row_inv_def)
  moreover have "owned (order_rows c s') a = (if a = mo_owner_address order then insert ?x (owned ?M a) else owned ?M a)" for a
    using o(4) unfolding owned_content content by (auto simp: content_def)
  then have "account_inv a (owned (order_rows c s') a) (account_rows c s' a)" for a using A inv(3) [of a] by simp
  moreover have "count_inv s' q (card (prices ?book q))" if "length q = 38" for q
    using N that pair(2) by (simp add: card_prices(1) [OF inv(4)])
  ultimately have "book_inv c s' ?book"
    using finite_book [OF inv(4)] unfolding rows_inv_content by (simp add: book_inv_def rows_inv_def row_inv_def del: fun_upd_apply)
  then show thesis using that acc content by blast
qed

section \<open>Unlinking\<close>

lemma queue_split:
  assumes "book_inv c s book" "order_rows c s x = Some (Some order)"
  obtains p ys zs where "book p = ys @ x # zs" "distinct (ys @ x # zs)" "seg (order_rows c s) p [] (ys @ x # zs) []"
    "mo_prev order = last ([] # ys)" "mo_next order = hd (zs @ [[]])" "order_price_key order = Ok p" "mo_order_id order = x" "x \<noteq> []"
proof -
  obtain p where p: "mo_order_id order = x" "order_price_key order = Ok p" "x \<in> set (book p)" using book_invD(2) [OF assms(1,2)] by auto
  then obtain ys zs where s: "book p = ys @ x # zs" by (auto simp: in_set_conv_decomp)
  then have q: "distinct (ys @ x # zs)" "seg (order_rows c s) p [] (ys @ x # zs) []" using book_invD(1) [OF assms(1), of p] by (auto simp: queue_inv_def)
  then have "entry_at (order_rows c s) p (last ([] # ys)) x (hd (zs @ [[]]))" by (simp add: seg_append)
  with assms(2) p s q show thesis by (intro that [of p ys zs]) (auto simp: entry_at_def)
qed

lemma link_ends:
  assumes "distinct (ys @ x # zs)" "[] \<notin> set (ys @ x # zs)"
  shows "last ([] # ys) \<noteq> x" "hd (zs @ [[]]) \<noteq> x"
    "last ([] # ys) = [] \<longleftrightarrow> hd (ys @ x # zs) = x" "hd (zs @ [[]]) = [] \<longleftrightarrow> last (ys @ x # zs) = x"
    "last ([] # ys) = [] \<longleftrightarrow> ys = []" "hd (zs @ [[]]) = [] \<longleftrightarrow> zs = []"
  using assms last_in_set [of zs] by (cases ys rule: rev_cases; cases zs; auto simp: hd_append split: if_splits)+

lemma load_neighbor_eq:
  assumes "book_inv c s book" "x \<noteq> [] \<Longrightarrow> order_rows c s x \<noteq> None"
  shows "load_neighbor c s x = Ok (neighbor (order_rows c s) x)"
proof (cases "x = []")
  case False
  then obtain order where "order_rows c s x = Some (Some order)" "mo_order_id order = x" using assms book_invD(2) [OF assms(1), of x] by fastforce
  then show ?thesis using False load_order_Ok [of c s x order] by (simp add: load_neighbor_def neighbor_def)
qed (simp add: load_neighbor_def neighbor_def)

lemma position_remove1: "position (\<lambda>y. y = x) xs = Some i \<Longrightarrow> take i xs @ drop (Suc i) xs = remove1 x xs"
  by (induction xs arbitrary: i) (auto split: if_splits)

lemma unlink_account_eq:
  assumes "book_inv c s book" "order_rows c s x = Some (Some order)"
  obtains account where "account_rows c s (mo_owner_address order) = Some (Some account)"
    "unlink_account c order x s = Ok (account\<lparr> ma_orders := remove1 x (ma_orders account), ma_count := ma_count account - 1 \<rparr>)"
    "account_inv (mo_owner_address order) (owned (order_rows c s) (mo_owner_address order) - {x})
       (Some (Some (account\<lparr> ma_orders := remove1 x (ma_orders account), ma_count := ma_count account - 1 \<rparr>)))"
proof -
  let ?X = "owned (order_rows c s) (mo_owner_address order)"
  have x: "x \<in> ?X" using assms(2) by (simp add: owned_def)
  then obtain account where a: "account_rows c s (mo_owner_address order) = Some (Some account)" "ma_owner_address account = mo_owner_address order"
      "distinct (ma_orders account)" "set (ma_orders account) = ?X" "ma_count account = int (length (ma_orders account))" "ma_count account \<le> ma_total_count account"
    using book_invD(3) [OF assms(1), of "mo_owner_address order"] by (auto simp: account_inv_def split: option.splits)
  obtain i where i: "position (\<lambda>y. y = x) (ma_orders account) = Some i"
    using x a(4) by (cases "position (\<lambda>y. y = x) (ma_orders account)") auto
  have one: "length (filter (\<lambda>y. y = x) (ma_orders account)) = 1"
    using distinct_length_filter [OF a(3), of "\<lambda>y. y = x"] x a(4) by (simp add: Int_def Collect_conv_if)
  have pos: "0 < length (ma_orders account)" using i position_length by fastforce
  have shorter: "int (length (remove1 x (ma_orders account))) = int (length (ma_orders account)) - 1"
    using x a(4) pos by (simp add: length_remove1 of_nat_diff Suc_leI)
  show thesis
  proof (rule that [OF a(1)])
    show "unlink_account c order x s = Ok (account\<lparr> ma_orders := remove1 x (ma_orders account), ma_count := ma_count account - 1 \<rparr>)"
      using a i one pos position_remove1 [OF i]
      by (auto simp: unlink_account_def account_rows_def mrequired_def mdecode_def)
    show "account_inv (mo_owner_address order) (?X - {x})
       (Some (Some (account\<lparr> ma_orders := remove1 x (ma_orders account), ma_count := ma_count account - 1 \<rparr>)))"
      using a x shorter by (auto simp: account_inv_def set_remove1_eq distinct_remove1)
  qed
qed

text \<open>On a well-formed book an unlink of a stored order passes every check.\<close>

definition unlink_writes :: "market_codec \<Rightarrow> MarketOrder \<Rightarrow> MarketOrder option \<Rightarrow> MarketOrder option \<Rightarrow> MarketAccountOrder \<Rightarrow>
    bytes list \<Rightarrow> bytes \<Rightarrow> bytes \<Rightarrow> nat \<Rightarrow> WriteBatch" where
  "unlink_writes c order previous following account xs p pair n =
     (let batch = (case previous of
                    Some entry \<Rightarrow> state_batch_put (kind_name KMarketOrder) (mo_order_id entry) (enc_order c (entry\<lparr> mo_next := mo_next order \<rparr>)) []
                  | None \<Rightarrow> []);
          batch = (case following of
                    Some entry \<Rightarrow> state_batch_put (kind_name KMarketOrder) (mo_order_id entry) (enc_order c (entry\<lparr> mo_prev := mo_prev order \<rparr>)) batch
                  | None \<Rightarrow> batch);
          batch = state_batch_delete (kind_name KMarketOrder) (mo_order_id order) batch;
          batch = state_batch_put (kind_name KMarketAccount) (mo_owner_address order) (enc_account c account) batch
      in if xs = []
         then let batch = state_batch_delete (kind_name KMarketPairPriceToOrder) p batch in
           if n = 1 then state_batch_delete (kind_name KMarketPairPriceToOrder) (pair_head pair) (state_batch_delete (kind_name KMarketPairToPrice) pair batch)
           else state_batch_put (kind_name KMarketPairToPrice) pair (i64_to_be_bytes (int n - 1)) batch
         else state_batch_put (kind_name KMarketPairPriceToOrder) p (enc_ids c \<lparr> ml_head = hd xs, ml_tail = last xs \<rparr>) batch)"

lemma unlink_batch_eq:
  assumes "codec_ok c" "book_inv c s book" "order_rows c s x = Some (Some order)"
    and q: "book p = ys @ x # zs" "distinct (ys @ x # zs)" "seg (order_rows c s) p [] (ys @ x # zs) []"
      "mo_prev order = last ([] # ys)" "mo_next order = hd (zs @ [[]])" "order_price_key order = Ok p" "mo_order_id order = x" "x \<noteq> []"
    and pair: "pair_key (mo_sell_token_id order) (mo_buy_token_id order) = Ok pair" "length pair = 38" "take 38 p = pair"
      "pair_price_head_key (mo_sell_token_id order) (mo_buy_token_id order) = Ok (pair_head pair)"
    and account: "unlink_account c order x s = Ok account" "ma_owner_address account = mo_owner_address order"
  shows "unlink_batch c x s =
    Ok (unlink_writes c order (neighbor (order_rows c s) (mo_prev order)) (neighbor (order_rows c s) (mo_next order)) account (ys @ zs) p pair
      (card (prices book pair)), order)"
proof -
  let ?M = "order_rows c s" and ?n = "card (prices book pair)"
  have ends: "last ([] # ys) \<noteq> x" "hd (zs @ [[]]) \<noteq> x" "last ([] # ys) = [] \<longleftrightarrow> hd (ys @ x # zs) = x"
    "hd (zs @ [[]]) = [] \<longleftrightarrow> last (ys @ x # zs) = x" "last ([] # ys) = [] \<longleftrightarrow> ys = []" "hd (zs @ [[]]) = [] \<longleftrightarrow> zs = []"
    using link_ends [OF q(2) seg_ids [OF q(3)]] by auto
  have pk: "price_key p" using queue_price_key [OF assms(1,2), of x p] q(1) by simp
  obtain bs where ids: "typed_get s (kind_name KMarketPairPriceToOrder) p = Some bs"
      "dec_ids c bs = Some \<lparr> ml_head = hd (ys @ x # zs), ml_tail = last (ys @ x # zs) \<rparr>"
    using book_invD(1) [OF assms(2), of p] pk q(1) by (auto simp: queue_inv_def ids_rows_def)
  have nonempty: "hd (ys @ x # zs) \<noteq> []" "last (ys @ x # zs) \<noteq> []" using seg_ids [OF q(3)]
    by (metis hd_in_set last_in_set append_is_Nil_conv list.distinct(1))+
  have "p \<in> prices book pair" using q(1) pair(3) by (simp add: prices_def)
  then have n: "0 < ?n" using finite_prices [OF book_invD(4) [OF assms(2)]] by (auto simp: card_gt_0_iff)
  note cnt = book_invD(5) [OF assms(2) pair(2), unfolded count_inv_def]
  have prev: "?M (last ([] # ys)) \<noteq> None" if "last ([] # ys) \<noteq> []"
    using that queue_of [OF assms(2), of "last ys" p] q(1) by (cases ys rule: rev_cases) auto
  have succ: "?M (hd (zs @ [[]])) \<noteq> None" if "hd (zs @ [[]]) \<noteq> []"
    using that queue_of [OF assms(2), of "hd zs" p] q(1) by (cases zs) auto
  have s: "seg ?M p [] ys x" "seg ?M p x zs []" using q(3) by (simp_all add: seg_append)
  have backward: "check_neighbor x p mo_next (neighbor ?M (last ([] # ys))) = Ok ()"
    using s(1) by (cases ys rule: rev_cases) (auto simp: seg_append entry_at_def check_neighbor_def neighbor_def validate_order_price_Ok)
  have forth: "check_neighbor x p mo_prev (neighbor ?M (hd (zs @ [[]]))) = Ok ()"
    using s(2) by (cases zs) (auto simp: entry_at_def check_neighbor_def neighbor_def validate_order_price_Ok)
  have none: "neighbor ?M (last ([] # ys)) = None \<longleftrightarrow> ys = []" "neighbor ?M (hd (zs @ [[]])) = None \<longleftrightarrow> zs = []"
    using prev succ ends book_invD(2) [OF assms(2)] by (fastforce simp: neighbor_def)+
  have load: "load_neighbor c s (last ([] # ys)) = Ok (neighbor ?M (last ([] # ys)))" "load_neighbor c s (hd (zs @ [[]])) = Ok (neighbor ?M (hd (zs @ [[]])))"
    using load_neighbor_eq [OF assms(2)] prev succ by blast+
  define a b h l where abhl: "a = last ([] # ys)" "b = hd (zs @ [[]])" "h = hd (ys @ x # zs)" "l = last (ys @ x # zs)"
  have front: "(case neighbor ?M a of None \<Rightarrow> b | Some _ \<Rightarrow> h) = hd (ys @ zs @ [[]])"
    using none(1) by (cases "neighbor ?M a"; cases ys) (simp_all add: abhl)
  have rear: "(case neighbor ?M b of None \<Rightarrow> a | Some _ \<Rightarrow> l) = last ([] # ys @ zs)"
    using none(2) by (cases "neighbor ?M b"; cases zs) (simp_all add: abhl)
  have empty: "hd (ys @ zs @ [[]]) = [] \<longleftrightarrow> ys @ zs = []"
    using seg_ids [OF q(3)] by (cases ys; cases zs) auto
  obtain xs where xs: "xs = ys @ zs" by simp
  have ends': "(case neighbor ?M a of None \<Rightarrow> b | Some _ \<Rightarrow> h) = [] \<longleftrightarrow> xs = []"
    "xs \<noteq> [] \<Longrightarrow> (case neighbor ?M a of None \<Rightarrow> b | Some _ \<Rightarrow> h) = hd xs \<and> (case neighbor ?M b of None \<Rightarrow> a | Some _ \<Rightarrow> l) = last xs"
    unfolding front rear xs empty by (cases ys; simp)+
  note facts = ends(1-4) nonempty ids pair account backward forth load q(4-8)
  show ?thesis
    unfolding xs [symmetric]
    using facts [folded abhl] cnt n load_order_Ok [of c s x order] assms(3)
    by (simp add: unlink_batch_def mrequired_def mdecode_def map_err_def contains_get price_count_def)
      (use ends' in \<open>cases "neighbor ?M a"; cases "neighbor ?M b"; auto simp: unlink_writes_def Let_def\<close>)
qed

lemma neighbor_entry:
  assumes "book_inv c s book" "neighbor (order_rows c s) x = Some entry"
  shows "order_rows c s x = Some (Some entry)" "mo_order_id entry = x"
proof -
  show *: "order_rows c s x = Some (Some entry)" using assms(2) by (auto simp: neighbor_def bind_eq_Some_conv split: if_splits)
  then show "mo_order_id entry = x" using book_invD(2) [OF assms(1) *] by simp
qed

text \<open>What a successful unlink leaves in the four stores.\<close>

lemma unlink_views:
  assumes "codec_ok c" "book_inv c s book" "unlink_market_order env c x s = (s', Ok order)"
  obtains p ys zs account where "order_rows c s x = Some (Some order)" "mo_order_id order = x" "order_price_key order = Ok p" "price_key p"
    "book p = ys @ x # zs" "distinct (ys @ x # zs)" "seg (order_rows c s) p [] (ys @ x # zs) []"
    "order_rows c s' = bypassed (order_rows c s) order (neighbor (order_rows c s) (mo_prev order)) (neighbor (order_rows c s) (mo_next order))"
    "mo_prev order \<noteq> x" "mo_next order \<noteq> x" "mo_prev order = last ([] # ys)" "mo_next order = hd (zs @ [[]])"
    "account_rows c s' = (account_rows c s)(mo_owner_address order := Some (Some account))"
    "account_inv (mo_owner_address order) (owned (order_rows c s) (mo_owner_address order) - {x}) (Some (Some account))"
    "\<forall>q. price_key q \<longrightarrow> ids_rows c s' q =
       (if q = p then if ys @ zs = [] then None else Some (Some \<lparr> ml_head = hd (ys @ zs), ml_tail = last (ys @ zs) \<rparr>) else ids_rows c s q)"
    "\<forall>q. length q = 38 \<longrightarrow> count_inv s' q (card (prices book q) - (if q = take 38 p \<and> ys @ zs = [] then 1 else 0))"
proof -
  let ?M = "order_rows c s"
  note inv = book_invD [OF assms(2)]
  from assms(3) obtain batch where b: "unlink_batch c x s = Ok (batch, order)" "market_commit env batch s = (s', Ok ())"
    by (auto simp: unlink_market_order_def and_then_Ok split: sum.splits prod.splits)
  have x: "?M x = Some (Some order)"
    using b(1) by (auto simp: unlink_batch_def and_then_Ok load_order_Ok Let_def split: if_splits)
  obtain p ys zs where q: "book p = ys @ x # zs" "distinct (ys @ x # zs)" "seg ?M p [] (ys @ x # zs) []"
    "mo_prev order = last ([] # ys)" "mo_next order = hd (zs @ [[]])" "order_price_key order = Ok p" "mo_order_id order = x" "x \<noteq> []"
    using queue_split [OF assms(2) x] .
  have range: "order_range order" using order_rows_range [OF assms(1) x] .
  have pk: "price_key p" using queue_price_key [OF assms(1,2), of x p] q(1) by simp
  obtain pair where pair: "pair_key (mo_sell_token_id order) (mo_buy_token_id order) = Ok pair" "length pair = 38" "take 38 p = pair"
    "pair_price_head_key (mo_sell_token_id order) (mo_buy_token_id order) = Ok (pair_head pair)" "\<forall>q. p \<noteq> pair_head q"
    using order_key_facts [OF range q(6)] .
  obtain account where a: "account_rows c s (mo_owner_address order) = Some (Some account)"
    "unlink_account c order x s = Ok (account\<lparr> ma_orders := remove1 x (ma_orders account), ma_count := ma_count account - 1 \<rparr>)"
    "account_inv (mo_owner_address order) (owned ?M (mo_owner_address order) - {x})
       (Some (Some (account\<lparr> ma_orders := remove1 x (ma_orders account), ma_count := ma_count account - 1 \<rparr>)))"
    using unlink_account_eq [OF assms(2) x] .
  let ?account = "account\<lparr> ma_orders := remove1 x (ma_orders account), ma_count := ma_count account - 1 \<rparr>" and ?n = "card (prices book pair)"
  have owner: "ma_owner_address ?account = mo_owner_address order" using a(3) by (simp add: account_inv_def)
  have "account_range account" using a(1) codec_okD(4) [OF assms(1)] by (auto simp: account_rows_def)
  then have ar: "account_range ?account" using a(3) by (auto simp: account_range_def account_inv_def in_i64_def)
  note batch = unlink_batch_eq [OF assms(1,2) x q pair(1-4) a(2) owner, unfolded b(1), simplified]
  note get = market_commit_get [OF b(2), simplified is_ok_simps if_True]
  have ends: "mo_prev order \<noteq> x" "mo_next order \<noteq> x" using link_ends(1,2) [OF q(2) seg_ids [OF q(3)]] q(4,5) by auto
  have entry: "dec_order c (enc_order c (entry\<lparr> mo_next := y \<rparr>)) = Some (entry\<lparr> mo_next := y \<rparr>)"
      "dec_order c (enc_order c (entry\<lparr> mo_prev := y \<rparr>)) = Some (entry\<lparr> mo_prev := y \<rparr>)" "mo_order_id entry = k"
    if "neighbor ?M k = Some entry" for k entry y
    using codec_okD(1) [OF assms(1)] order_rows_range [OF assms(1) neighbor_entry(1) [OF assms(2) that]] neighbor_entry(2) [OF assms(2) that] by simp_all
  have "p \<in> prices book pair" using q(1) pair(3) by (simp add: prices_def)
  then have n: "0 < ?n" using finite_prices [OF inv(4)] by (auto simp: card_gt_0_iff)
  show thesis
  proof (rule that [OF x q(7,6) pk q(1-3) _ ends q(4,5) _ a(3)]; (intro allI impI)?)
    show "order_rows c s' = bypassed ?M order (neighbor ?M (mo_prev order)) (neighbor ?M (mo_next order))"
      using entry by (auto simp: fun_eq_iff order_rows_def get batch unlink_writes_def bypassed_def Let_def split: option.splits)
    show "account_rows c s' = (account_rows c s)(mo_owner_address order := Some (Some ?account))"
      using codec_okD(3) [OF assms(1) ar] by (auto simp: fun_eq_iff account_rows_def get batch unlink_writes_def Let_def split: option.splits)
    show "ids_rows c s' k = (if k = p then if ys @ zs = [] then None else Some (Some \<lparr> ml_head = hd (ys @ zs), ml_tail = last (ys @ zs) \<rparr>) else ids_rows c s k)"
      if k: "price_key k" for k
    proof -
      have "k \<noteq> pair_head pair" using k order_key_facts by (metis price_key_def)
      then show ?thesis using codec_okD(5) [OF assms(1)] by (auto simp: ids_rows_def get batch unlink_writes_def Let_def split: option.splits)
    qed
    show "count_inv s' k (card (prices book k) - (if k = take 38 p \<and> ys @ zs = [] then 1 else 0))" if k: "length k = 38" for k
      using inv(5) [OF k] pair(3,5) pair(5) [rule_format, symmetric] n
      by (auto simp: count_inv_def get batch unlink_writes_def Let_def pair_head_def in_i64_def of_nat_diff split: option.splits)
  qed
qed

lemma content_bypassed:
  assumes "\<And>entry. previous = Some entry \<Longrightarrow> M (mo_prev order) = Some (Some entry)" "\<And>entry. following = Some entry \<Longrightarrow> M (mo_next order) = Some (Some entry)"
    and "mo_prev order \<noteq> mo_next order \<or> previous = None \<or> following = None"
  shows "content (bypassed M order previous following) = (content M)(mo_order_id order := None)"
  using assms by (auto simp: fun_eq_iff content_def bypassed_def Let_def split: option.splits)

lemma unlink_keeps_inv:
  assumes "codec_ok c" "book_inv c s book" "unlink_market_order env c x s = (s', Ok order)"
  obtains p where "order_rows c s x = Some (Some order)" "order_price_key order = Ok p" "x \<in> set (book p)"
    "book_inv c s' (book(p := remove1 x (book p)))" "content (order_rows c s') = (content (order_rows c s))(x := None)"
proof -
  let ?M = "order_rows c s"
  obtain p ys zs account where x: "?M x = Some (Some order)" "mo_order_id order = x" "order_price_key order = Ok p" and pk: "price_key p"
    and q: "book p = ys @ x # zs" "distinct (ys @ x # zs)" "seg ?M p [] (ys @ x # zs) []"
    and M: "order_rows c s' = bypassed ?M order (neighbor ?M (mo_prev order)) (neighbor ?M (mo_next order))"
    and ends: "mo_prev order \<noteq> x" "mo_next order \<noteq> x" "mo_prev order = last ([] # ys)" "mo_next order = hd (zs @ [[]])"
    and A: "account_rows c s' = (account_rows c s)(mo_owner_address order := Some (Some account))"
      "account_inv (mo_owner_address order) (owned ?M (mo_owner_address order) - {x}) (Some (Some account))"
    and I: "\<forall>q. price_key q \<longrightarrow> ids_rows c s' q =
       (if q = p then if ys @ zs = [] then None else Some (Some \<lparr> ml_head = hd (ys @ zs), ml_tail = last (ys @ zs) \<rparr>) else ids_rows c s q)"
    and N: "\<forall>q. length q = 38 \<longrightarrow> count_inv s' q (card (prices book q) - (if q = take 38 p \<and> ys @ zs = [] then 1 else 0))"
    using unlink_views [OF assms] .
  let ?book = "book(p := ys @ zs)"
  note inv = book_invD [OF assms(2)] and entry = neighbor_entry [OF assms(2)]
  have removed: "remove1 x (book p) = ys @ zs" using q(1,2) by (simp add: remove1_append)
  have prev: "mo_prev order = [] \<or> mo_prev order \<in> set ys" unfolding ends(3) by simp
  have succ: "mo_next order = [] \<or> mo_next order \<in> set zs" unfolding ends(4) by (cases zs) simp_all
  have "mo_prev order \<noteq> mo_next order \<or> neighbor ?M (mo_prev order) = None" using prev succ q(2) by (auto simp: neighbor_def)
  then have content: "content (order_rows c s') = (content ?M)(x := None)"
    unfolding M x(2) [symmetric] using entry(1) by (intro content_bypassed) auto
  have "queue_inv (order_rows c s') (ids_rows c s') k (?book k)" for k
  proof (cases "k = p")
    case True
    have "seg (order_rows c s') p [] (ys @ zs) []" unfolding M by (rule seg_bypassed [OF q(3,2) x(1)])
    then show ?thesis using True q(2) I pk by (simp add: queue_inv_def)
  next
    case False
    have "order_rows c s' y = ?M y" if y: "y \<in> set (book k)" for y
    proof -
      have "y \<notin> set (book p)" "y \<noteq> []" using queues_disjoint [OF assms(2) y] False queue_of [OF assms(2) y] by auto
      then show ?thesis unfolding M using prev succ q(1) x(2) by (intro bypassed_at(1)) auto
    qed
    then show ?thesis using queue_frame [OF inv(1), of k] I False by simp
  qed
  moreover have "rows_inv (content ?M) book" unfolding rows_inv_content using inv(2) by (auto simp: rows_inv_def row_inv_def)
  then have "rows_inv (content (order_rows c s')) ?book"
    using q(1) unfolding content by (fastforce simp: rows_inv_def row_inv_def)
  moreover have "owned (order_rows c s') a = (if a = mo_owner_address order then owned ?M a - {x} else owned ?M a)" for a
    using x(1) unfolding owned_content content by (auto simp: content_def)
  then have "account_inv a (owned (order_rows c s') a) (account_rows c s' a)" for a using A inv(3) [of a] by simp
  moreover have "count_inv s' k (card (prices ?book k))" if "length k = 38" for k
  proof (cases "ys @ zs = []")
    case True
    with N [rule_format, OF that] card_prices(2) [OF inv(4), of p k] q(1) show ?thesis by (auto split: if_splits)
  next
    case False
    with N [rule_format, OF that] card_prices(1) [OF inv(4) False, of p k] q(1) show ?thesis by auto
  qed
  ultimately have "book_inv c s' ?book"
    using finite_book [OF inv(4)] unfolding rows_inv_content by (simp add: book_inv_def rows_inv_def row_inv_def del: fun_upd_apply)
  then show thesis using that [OF x(1,3)] content removed q(1) by simp
qed

section \<open>Properties\<close>

lemma same_rows:
  assumes "\<And>kind k. typed_get s' (kind_name kind) k = typed_get s (kind_name kind) k"
  shows "book_inv c s' book = book_inv c s book" "order_rows c s' = order_rows c s"
proof -
  have "order_rows c s' = order_rows c s" "account_rows c s' = account_rows c s" "ids_rows c s' = ids_rows c s" "count_inv s' = count_inv s"
    using assms by (simp_all add: fun_eq_iff order_rows_def account_rows_def ids_rows_def count_inv_def)
  then show "book_inv c s' book = book_inv c s book" "order_rows c s' = order_rows c s" by (simp_all add: book_inv_def)
qed

lemma commit_Err:
  assumes "market_commit env batch s = (s', Err e)"
  shows "(\<forall>kind k. typed_get s' (kind_name kind) k = typed_get s (kind_name kind) k) \<and> (\<exists>cause. e = MStorage cause)"
  using market_commit_get [OF assms] assms
  by (auto simp: market_commit_def is_ok_def map_err_def split: prod.splits sum.splits)

lemma append_Err:
  assumes "append_market_order env c order s = (s', Err e)"
  shows "\<forall>kind k. typed_get s' (kind_name kind) k = typed_get s (kind_name kind) k"
  using assms commit_Err by (auto simp: append_market_order_def split: sum.splits)

lemma unlink_Err:
  assumes "unlink_market_order env c x s = (s', Err e)"
  shows "\<forall>kind k. typed_get s' (kind_name kind) k = typed_get s (kind_name kind) k"
  using assms commit_Err by (auto simp: unlink_market_order_def and_then_Err split: sum.splits prod.splits)

text \<open>C11: appending an order to a well-formed book adds its identifier at the end of the queue of its price
  and nowhere else, stores the order and leaves the content of every other order as it was, and the book
  stays well formed: links, heads and tails, account rows and price counts. A failed append
  leaves every store as it was; on a well-formed book an acceptable order fails only for storage or a
  counter that would overflow.\<close>

theorem append_market_order_refines:
  assumes "codec_ok c" "book_inv c s book" "order_range order" "append_market_order env c order s = (s', r)"
  shows "case r of
      Ok _ \<Rightarrow> \<exists>p. order_price_key order = Ok p \<and> book_inv c s' (book(p := book p @ [mo_order_id order])) \<and>
        content (order_rows c s') = (content (order_rows c s))(mo_order_id order := Some (Some order))
    | Err e \<Rightarrow> (\<forall>kind k. typed_get s' (kind_name kind) k = typed_get s (kind_name kind) k) \<and> book_inv c s' book \<and>
        ((\<exists>p. accepts c s order p) \<longrightarrow> (\<exists>cause. e = MStorage cause) \<or>
          e \<in> {MInvalidOrder ''market price count overflow'', MInvalidOrder ''account active count overflow'', MInvalidOrder ''account total count overflow''})"
proof (cases r)
  case (Inr u)
  then obtain p where "accepts c s order p" "book_inv c s' (book(p := book p @ [mo_order_id order]))"
    "content (order_rows c s') = (content (order_rows c s))(mo_order_id order := Some (Some order))"
    using append_keeps_inv [OF assms(1-3), of env s'] assms(4) by auto
  then show ?thesis using Inr by (auto simp: accepts_def)
next
  case (Inl e)
  then have same: "\<forall>kind k. typed_get s' (kind_name kind) k = typed_get s (kind_name kind) k" using append_Err assms(4) by blast
  have "(\<exists>cause. e = MStorage cause) \<or> e \<in> {MInvalidOrder ''market price count overflow'', MInvalidOrder ''account active count overflow'', MInvalidOrder ''account total count overflow''}"
    if acc: "accepts c s order p" for p
  proof (cases "append_batch c order s")
    case (Inr batch)
    then show ?thesis using commit_Err [of env batch s s' e] assms(4) Inl by (auto simp: append_market_order_def)
  next
    case (Inl e')
    then have e: "e' = e" using assms(4) \<open>r = Inl e\<close> by (simp add: append_market_order_def)
    have "order_price_key order = Ok p" using acc by (simp add: accepts_def)
    then obtain pair where pair: "pair_key (mo_sell_token_id order) (mo_buy_token_id order) = Ok pair" "length pair = 38" "take 38 p = pair"
      "pair_price_head_key (mo_sell_token_id order) (mo_buy_token_id order) = Ok (pair_head pair)"
      by (rule order_key_facts [OF assms(3)])
    show ?thesis using Inl unfolding append_batch_eq [OF assms(1-3) acc pair(2,3,1,4)] e
      by (auto simp: and_then_Err count_order_def Let_def split: if_splits)
  qed
  then show ?thesis using Inl same same_rows(1) [of s' s c book] assms(2) by auto
qed

text \<open>C12: unlinking an order of a well-formed book returns it, removes it from the queue of its price with
  the neighbours joined, and changes no other order; the price disappears with its last order and the book
  stays well formed. A failed unlink leaves every store as it was, and the unlink of a
  stored order fails only for storage.\<close>

theorem unlink_market_order_refines:
  assumes "codec_ok c" "book_inv c s book" "unlink_market_order env c x s = (s', r)"
  shows "case r of
      Ok order \<Rightarrow> order_rows c s x = Some (Some order) \<and>
        (\<exists>p. order_price_key order = Ok p \<and> x \<in> set (book p) \<and> book_inv c s' (book(p := remove1 x (book p)))) \<and>
        content (order_rows c s') = (content (order_rows c s))(x := None)
    | Err e \<Rightarrow> (\<forall>kind k. typed_get s' (kind_name kind) k = typed_get s (kind_name kind) k) \<and> book_inv c s' book \<and>
        (order_rows c s x \<noteq> None \<longrightarrow> (\<exists>cause. e = MStorage cause))"
proof (cases r)
  case (Inr order)
  then have ok: "unlink_market_order env c x s = (s', Ok order)" using assms(3) by simp
  obtain p where "order_rows c s x = Some (Some order)" "order_price_key order = Ok p" "x \<in> set (book p)"
    "book_inv c s' (book(p := remove1 x (book p)))" "content (order_rows c s') = (content (order_rows c s))(x := None)"
    using unlink_keeps_inv [OF assms(1,2) ok] .
  then show ?thesis using Inr by auto
next
  case (Inl e)
  then have same: "\<forall>kind k. typed_get s' (kind_name kind) k = typed_get s (kind_name kind) k" using unlink_Err assms(3) by blast
  have "\<exists>cause. e = MStorage cause" if stored: "order_rows c s x \<noteq> None"
  proof -
    obtain order where x: "order_rows c s x = Some (Some order)" using stored book_invD(2) [OF assms(2), of x] by fastforce
    obtain p ys zs where q: "book p = ys @ x # zs" "distinct (ys @ x # zs)" "seg (order_rows c s) p [] (ys @ x # zs) []"
      "mo_prev order = last ([] # ys)" "mo_next order = hd (zs @ [[]])" "order_price_key order = Ok p" "mo_order_id order = x" "x \<noteq> []"
      using queue_split [OF assms(2) x] .
    obtain pair where pair: "pair_key (mo_sell_token_id order) (mo_buy_token_id order) = Ok pair" "length pair = 38" "take 38 p = pair"
      "pair_price_head_key (mo_sell_token_id order) (mo_buy_token_id order) = Ok (pair_head pair)"
      by (rule order_key_facts [OF order_rows_range [OF assms(1) x] q(6)])
    obtain account where account: "unlink_account c order x s = Ok account" "ma_owner_address account = mo_owner_address order"
      by (rule unlink_account_eq [OF assms(2) x]) (auto simp: account_inv_def)
    obtain batch where "unlink_batch c x s = Ok (batch, order)" using unlink_batch_eq [OF assms(1,2) x q pair account] by blast
    then show ?thesis using assms(3) Inl commit_Err [of env batch s s']
      by (auto simp: unlink_market_order_def and_then_Err split: prod.splits)
  qed
  then show ?thesis using Inl same same_rows(1) [of s' s c book] assms(2) by auto
qed

text \<open>The audit of a price accepts a well-formed book and counts the orders of the queue up to its limit.\<close>

theorem audit_counts_queue:
  assumes "codec_ok c" "book_inv c s book" "book p \<noteq> []"
  shows "audit_market_price_chain c s p limit = Ok (min limit (length (book p)))"
proof -
  have pk: "price_key p" using queue_price_key [OF assms(1,2) hd_in_set [OF assms(3)]] .
  have q: "seg (order_rows c s) p [] (book p) []" "ids_rows c s p = Some (Some \<lparr> ml_head = hd (book p), ml_tail = last (book p) \<rparr>)"
    using book_invD(1) [OF assms(2), of p] pk assms(3) by (auto simp: queue_inv_def)
  have "hd (book p) \<noteq> []" "last (book p) \<noteq> []" using seg_ids [OF q(1)] assms(3) by (metis hd_in_set, metis last_in_set)
  moreover have "hd (drop limit (book p) @ [[]]) = [] \<longleftrightarrow> length (book p) \<le> limit"
    using seg_ids [OF q(1)] set_drop_subset [of limit "book p"] by (cases "drop limit (book p)") auto
  moreover have "length (book p) \<le> limit \<Longrightarrow> 0 < limit" using assms(3) by (cases "book p") auto
  ultimately show ?thesis using audit_walk_seg [OF q(1), of limit 0] q(2) assms(3)
    by (auto simp: audit_market_price_chain_def mrequired_def mdecode_def ids_rows_def)
qed

section \<open>An instance of the codec\<close>

text \<open>Fields are byte strings, each byte after a one and each string closed by a zero.\<close>

fun esc :: "bytes \<Rightarrow> bytes" where
  "esc [] = [0]"
| "esc (b # bs) = 1 # b # esc bs"

fun unesc :: "bytes \<Rightarrow> (bytes \<times> bytes) option" where
  "unesc (t # bs) =
     (if t = 0 then Some ([], bs)
      else case bs of [] \<Rightarrow> None | b # rest \<Rightarrow> map_option (\<lambda>(field, rest). (b # field, rest)) (unesc rest))"
| "unesc [] = None"

fun fields :: "nat \<Rightarrow> bytes \<Rightarrow> bytes list option" where
  "fields 0 bs = (if bs = [] then Some [] else None)"
| "fields (Suc n) bs =
     (if bs = [] then Some []
      else Option.bind (unesc bs) (\<lambda>(field, rest). map_option (\<lambda>fs. field # fs) (fields n rest)))"

lemma unesc_esc: "unesc (esc field @ rest) = Some (field, rest)"
  by (induction field) simp_all

lemma esc_nonempty: "esc field \<noteq> []"
  by (cases field) simp_all

lemma fields_esc: "length (concat (map esc fs)) \<le> n \<Longrightarrow> fields n (concat (map esc fs)) = Some fs"
proof (induction n arbitrary: fs)
  case 0
  then show ?case using esc_nonempty by (cases fs) simp_all
next
  case (Suc n)
  show ?case
  proof (cases fs)
    case (Cons f gs)
    have "1 \<le> length (esc f)" by (cases f) simp_all
    then have "length (concat (map esc gs)) \<le> n" using Suc.prems Cons by simp
    then show ?thesis using Suc.IH [of gs] Cons esc_nonempty by (simp add: unesc_esc)
  qed simp
qed

definition pack :: "bytes list \<Rightarrow> bytes" where "pack fs = concat (map esc fs)"
definition unpack :: "bytes \<Rightarrow> bytes list option" where "unpack bs = fields (length bs) bs"

lemma unpack_pack [simp]: "unpack (pack fs) = Some fs"
  by (simp add: unpack_def pack_def fields_esc)

definition enc_int :: "int \<Rightarrow> bytes" where
  "enc_int v = (if 0 \<le> v \<and> v < 256 then [word_of_int v] else i64_to_be_bytes v)"

definition dec_int :: "bytes \<Rightarrow> int" where
  "dec_int bs = (if length bs = 1 then uint (hd bs) else i64_from_be_bytes bs)"

lemma dec_enc_int [simp]: "in_i64 v \<Longrightarrow> dec_int (enc_int v) = v"
  by (simp add: dec_int_def enc_int_def uint_word_of_int)

definition pack_order :: "MarketOrder \<Rightarrow> bytes" where
  "pack_order order = pack [mo_order_id order, mo_owner_address order, enc_int (mo_create_time order), mo_sell_token_id order,
     enc_int (mo_sell_token_quantity order), mo_buy_token_id order, enc_int (mo_buy_token_quantity order),
     enc_int (mo_sell_token_quantity_remain order), enc_int (mo_sell_token_quantity_return order), enc_int (mo_state order),
     mo_prev order, mo_next order]"

definition unpack_order :: "bytes \<Rightarrow> MarketOrder option" where
  "unpack_order bs =
     (case unpack bs of
        Some [oid, owner, time, sell, sq, buy, bq, remain, back_q, state, prev, following] \<Rightarrow>
          let order = \<lparr> mo_order_id = oid, mo_owner_address = owner, mo_create_time = dec_int time, mo_sell_token_id = sell,
            mo_sell_token_quantity = dec_int sq, mo_buy_token_id = buy, mo_buy_token_quantity = dec_int bq,
            mo_sell_token_quantity_remain = dec_int remain, mo_sell_token_quantity_return = dec_int back_q, mo_state = dec_int state,
            mo_prev = prev, mo_next = following \<rparr>
          in if order_range order then Some order else None
      | _ \<Rightarrow> None)"

definition pack_account :: "MarketAccountOrder \<Rightarrow> bytes" where
  "pack_account account = pack ([ma_owner_address account, enc_int (ma_count account), enc_int (ma_total_count account)] @ ma_orders account)"

definition unpack_account :: "bytes \<Rightarrow> MarketAccountOrder option" where
  "unpack_account bs =
     (case unpack bs of
        Some (owner # active # whole # orders) \<Rightarrow>
          let account = \<lparr> ma_owner_address = owner, ma_orders = orders, ma_count = dec_int active, ma_total_count = dec_int whole \<rparr>
          in if account_range account then Some account else None
      | _ \<Rightarrow> None)"

definition plain_codec :: market_codec where
  "plain_codec = \<lparr> enc_order = pack_order, dec_order = unpack_order, enc_account = pack_account, dec_account = unpack_account,
     enc_ids = (\<lambda>ids. pack [ml_head ids, ml_tail ids]),
     dec_ids = (\<lambda>bs. case unpack bs of Some [h, t] \<Rightarrow> Some \<lparr> ml_head = h, ml_tail = t \<rparr> | _ \<Rightarrow> None) \<rparr>"

lemma in_i32_i64: "in_i32 v \<Longrightarrow> in_i64 v"
  by (simp add: in_i32_def in_i64_def)

lemma plain_codec_ok: "codec_ok plain_codec"
proof -
  have "unpack_order (pack_order order) = Some order" if "order_range order" for order
    using that in_i32_i64 [of "mo_state order"] by (cases order) (simp add: unpack_order_def pack_order_def order_range_def)
  moreover have "order_range order" if "unpack_order bs = Some order" for bs order
    using that by (auto simp: unpack_order_def Let_def split: option.splits list.splits if_splits)
  moreover have "unpack_account (pack_account account) = Some account" if "account_range account" for account
    using that by (cases account) (simp add: unpack_account_def pack_account_def account_range_def)
  moreover have "account_range account" if "unpack_account bs = Some account" for bs account
    using that by (auto simp: unpack_account_def Let_def split: option.splits list.splits if_splits)
  ultimately show ?thesis by (simp add: codec_ok_def plain_codec_def)
qed

section \<open>An order placed and taken back\<close>

lemma book_inv_empty:
  assumes "\<And>kind k. typed_get s (kind_name kind) k = None"
  shows "book_inv c s (\<lambda>_. [])"
  using assms by (simp add: book_inv_def queue_inv_def order_rows_def ids_rows_def account_rows_def account_inv_def owned_def count_inv_def prices_def in_i64_def)

lemma small_commit:
  assumes "ensure_usable s = Ok ()" "rl_options s = roomy_options" "list_all small_put batch" "batch \<noteq> []" "length batch \<le> 40"
  shows "\<exists>s'. market_commit calm_os batch s = (s', Ok ())"
  using roomy_write [OF assms] by (auto simp: market_commit_def state_batch_commit_def log_write_def map_err_def)

lemma small_batches:
  "list_all small_put (state_batch_put name k v batch) \<longleftrightarrow> length name + length k \<le> 95 \<and> length v \<le> 100 \<and> list_all small_put batch"
  "list_all small_put (state_batch_delete name k batch) \<longleftrightarrow> length name + length k \<le> 95 \<and> list_all small_put batch"
  "length (state_batch_put name k v batch) = Suc (length batch)" "length (state_batch_delete name k batch) = Suc (length batch)"
  "state_batch_put name k v batch \<noteq> []" "state_batch_delete name k batch \<noteq> []"
  by (auto simp: state_batch_put_def state_batch_delete_def batch_put_def batch_delete_def small_put_def physical_key_def)

definition demo_order :: MarketOrder where
  "demo_order = \<lparr> mo_order_id = [1], mo_owner_address = [2], mo_create_time = 0, mo_sell_token_id = [3], mo_sell_token_quantity = 1,
     mo_buy_token_id = [4], mo_buy_token_quantity = 1, mo_sell_token_quantity_remain = 1, mo_sell_token_quantity_return = 0, mo_state = 0,
     mo_prev = [], mo_next = [] \<rparr>"

definition demo_pair :: bytes where "demo_pair = pad_token [3] @ pad_token [4]"
definition demo_price :: bytes where "demo_price = demo_pair @ i64_to_be_bytes 1 @ i64_to_be_bytes 1"

definition demo_account :: "bytes list \<Rightarrow> int \<Rightarrow> MarketAccountOrder" where
  "demo_account orders active = \<lparr> ma_owner_address = [2], ma_orders = orders, ma_count = active, ma_total_count = 1 \<rparr>"

abbreviation empty_log :: RustLog where "empty_log \<equiv> fresh_log roomy_options"

lemma demo_keys:
  "length demo_pair = 38" "take 38 demo_price = demo_pair" "order_price_key demo_order = Ok demo_price" "order_range demo_order"
  "pair_key [3] [4] = Ok demo_pair" "pair_price_head_key [3] [4] = Ok (pair_head demo_pair)" "length demo_price = 54" "length (pair_head demo_pair) = 54"
  by (auto simp: demo_pair_def demo_price_def order_price_key_def demo_order_def pair_price_key_Ok in_i64_def padded_pair_def pad_token_def
      order_range_def in_i32_def pair_key_def pair_price_head_key_def pair_head_def)

lemma empty_log_rows: "typed_get empty_log (kind_name kind) k = None" "ensure_usable empty_log = Ok ()" "rl_options empty_log = roomy_options"
  by (simp_all add: fresh_log_def typed_get_def log_get_def ensure_usable_def)

lemmas empty_market = book_inv_empty [OF empty_log_rows(1), where c = plain_codec]

lemma demo_accepts: "accepts plain_codec empty_log demo_order demo_price"
  by (simp add: accepts_def demo_keys order_rows_def empty_log_rows) (simp add: demo_order_def)

lemma plain_codec_enc: "enc_order plain_codec = pack_order" "enc_account plain_codec = pack_account" "enc_ids plain_codec = (\<lambda>ids. pack [ml_head ids, ml_tail ids])"
  by (simp_all add: plain_codec_def)

lemma market_names: "length (kind_name KMarketPairPriceToOrder) = 26" "length (kind_name KMarketPairToPrice) = 20"
  "length (kind_name KMarketAccount) = 14" "length (kind_name KMarketOrder) = 12"
  by (simp_all add: kind_name_def)

lemmas demo_sizes = small_batches demo_keys market_names pack_account_def pack_order_def demo_account_def pack_def enc_int_def

definition demo_batch :: WriteBatch where
  "demo_batch = state_batch_put (kind_name KMarketPairPriceToOrder) demo_price (pack [[1], [1]])
     (state_batch_put (kind_name KMarketPairToPrice) demo_pair (i64_to_be_bytes 1)
     (state_batch_put (kind_name KMarketPairPriceToOrder) (pair_head demo_pair) []
     (state_batch_put (kind_name KMarketAccount) [2] (pack_account (demo_account [[1]] 1))
     (state_batch_put (kind_name KMarketOrder) [1] (pack_order demo_order) []))))"

lemma demo_append_batch: "append_batch plain_codec demo_order empty_log = Ok demo_batch"
proof -
  have sell: "mo_sell_token_id demo_order = [3]" "mo_buy_token_id demo_order = [4]" "mo_order_id demo_order = [1]" "mo_owner_address demo_order = [2]"
    "demo_order\<lparr> mo_prev := [] \<rparr> = demo_order" by (simp_all add: demo_order_def)
  have acc: "count_order demo_order (account_of (account_rows plain_codec empty_log) [2]) = Ok (demo_account [[1]] 1)"
    by (simp add: count_order_def account_of_def account_rows_def empty_log_rows checked_i64_def in_i64_def sell demo_account_def)
  show ?thesis
    using append_batch_eq [OF plain_codec_ok empty_market demo_keys(4) demo_accepts demo_keys(1,2)]
    by (simp add: sell demo_keys acc prices_def checked_i64_def in_i64_def neighbor_def demo_batch_def plain_codec_enc)
qed

lemma demo_append: "\<exists>s. append_market_order calm_os plain_codec demo_order empty_log = (s, Ok ())"
proof -
  have "list_all small_put demo_batch" "demo_batch \<noteq> []" "length demo_batch \<le> 40"
    by (simp_all add: demo_batch_def demo_sizes) (simp add: demo_order_def)
  from small_commit [OF empty_log_rows(2,3) this] show ?thesis by (simp add: append_market_order_def demo_append_batch)
qed

theorem append_market_order_refines_witness:
  "\<exists>s. append_market_order calm_os plain_codec demo_order empty_log = (s, Ok ()) \<and>
     book_inv plain_codec s ((\<lambda>_. [])(demo_price := [[1]]))"
proof -
  obtain s where s: "append_market_order calm_os plain_codec demo_order empty_log = (s, Ok ())" using demo_append by blast
  then show ?thesis
    using append_market_order_refines [OF plain_codec_ok empty_market demo_keys(4) s] demo_keys(3) by (simp add: demo_order_def)
qed

text \<open>The log with the order, reopened.\<close>

definition demo_filled :: RustLog where
  "demo_filled = empty_log\<lparr> rl_entries := rl_entries (fst (append_market_order calm_os plain_codec demo_order empty_log)) \<rparr>"

definition demo_book :: book where
  "demo_book = (\<lambda>_. [])(demo_price := [[1]])"

lemma demo_filled_rows:
  "typed_get demo_filled (kind_name KMarketOrder) [1] = Some (pack_order demo_order)"
  "typed_get demo_filled (kind_name KMarketAccount) [2] = Some (pack_account (demo_account [[1]] 1))"
  "book_inv plain_codec demo_filled demo_book"
  "ensure_usable demo_filled = Ok ()" "rl_options demo_filled = roomy_options"
proof -
  obtain s where s: "append_market_order calm_os plain_codec demo_order empty_log = (s, Ok ())" using demo_append by blast
  then have same: "typed_get demo_filled (kind_name kind) k = typed_get s (kind_name kind) k" for kind k
    by (simp add: demo_filled_def typed_get_def log_get_def)
  have "market_commit calm_os demo_batch empty_log = (s, Ok ())" using s by (simp add: append_market_order_def demo_append_batch)
  note get = market_commit_get [OF this, simplified is_ok_simps if_True]
  show "typed_get demo_filled (kind_name KMarketOrder) [1] = Some (pack_order demo_order)"
    "typed_get demo_filled (kind_name KMarketAccount) [2] = Some (pack_account (demo_account [[1]] 1))"
    by (simp_all add: same get demo_batch_def)
  obtain p where p: "accepts plain_codec empty_log demo_order p" "book_inv plain_codec s ((\<lambda>_. [])(p := [] @ [mo_order_id demo_order]))"
    using append_keeps_inv [OF plain_codec_ok empty_market demo_keys(4) s] by auto
  have "p = demo_price" using p(1) demo_keys(3) by (simp add: accepts_def)
  then show "book_inv plain_codec demo_filled demo_book"
    using p(2) same_rows(1) [of demo_filled s plain_codec demo_book, OF same] by (simp add: demo_book_def demo_order_def)
  show "ensure_usable demo_filled = Ok ()" "rl_options demo_filled = roomy_options"
    using empty_log_rows(2,3) by (simp_all add: demo_filled_def ensure_usable_def split: if_splits)
qed

lemma demo_decoded:
  "order_rows plain_codec demo_filled [1] = Some (Some demo_order)"
  "account_rows plain_codec demo_filled [2] = Some (Some (demo_account [[1]] 1))"
proof -
  have "account_range (demo_account [[1]] 1)" by (simp add: account_range_def demo_account_def in_i64_def)
  then show "order_rows plain_codec demo_filled [1] = Some (Some demo_order)"
    "account_rows plain_codec demo_filled [2] = Some (Some (demo_account [[1]] 1))"
    using codec_okD(1,3) [OF plain_codec_ok] demo_keys(4) by (simp_all add: order_rows_def account_rows_def demo_filled_rows flip: plain_codec_enc)
qed

lemma demo_unlink: "\<exists>s. unlink_market_order calm_os plain_codec [1] demo_filled = (s, Ok demo_order)"
proof -
  note inv = demo_filled_rows(3)
  have sell: "mo_sell_token_id demo_order = [3]" "mo_buy_token_id demo_order = [4]" "mo_order_id demo_order = [1]" "mo_owner_address demo_order = [2]"
    "mo_prev demo_order = []" "mo_next demo_order = []" by (simp_all add: demo_order_def)
  obtain account where "account_rows plain_codec demo_filled [2] = Some (Some account)"
    "unlink_account plain_codec demo_order [1] demo_filled = Ok (account\<lparr> ma_orders := remove1 [1] (ma_orders account), ma_count := ma_count account - 1 \<rparr>)"
    using unlink_account_eq [OF inv demo_decoded(1)] sell(4) by metis
  then have account: "unlink_account plain_codec demo_order [1] demo_filled = Ok (demo_account [] 0)" using demo_decoded(2) by (auto simp: demo_account_def)
  have queue: "demo_book demo_price = [] @ [1] # []" by (simp add: demo_book_def)
  then have seg: "seg (order_rows plain_codec demo_filled) demo_price [] ([] @ [1] # []) []"
    using book_invD(1) [OF inv, of demo_price] by (simp add: queue_inv_def)
  have one: "card (prices demo_book demo_pair) = 1"
  proof -
    have "prices demo_book demo_pair = {demo_price}" using demo_keys(2) by (auto simp: prices_def demo_book_def split: if_splits)
    then show ?thesis by simp
  qed
  let ?batch = "unlink_writes plain_codec demo_order None None (demo_account [] 0) [] demo_price demo_pair 1"
  have b: "unlink_batch plain_codec [1] demo_filled = Ok (?batch, demo_order)"
    using unlink_batch_eq [OF plain_codec_ok inv demo_decoded(1) queue _ seg _ _ demo_keys(3) _ _ _ demo_keys(1,2) _ account] sell demo_keys(5,6)
    by (simp add: one neighbor_def demo_account_def)
  have "list_all small_put ?batch" "?batch \<noteq> []" "length ?batch \<le> 40"
    by (simp_all add: unlink_writes_def Let_def plain_codec_enc demo_sizes sell)
  from small_commit [OF demo_filled_rows(4,5) this] show ?thesis by (auto simp: unlink_market_order_def b)
qed

theorem unlink_market_order_refines_witness:
  "\<exists>s. unlink_market_order calm_os plain_codec [1] demo_filled = (s, Ok demo_order) \<and> book_inv plain_codec s (\<lambda>_. [])"
proof -
  obtain s where s: "unlink_market_order calm_os plain_codec [1] demo_filled = (s, Ok demo_order)" using demo_unlink by blast
  have "demo_book(demo_price := []) = (\<lambda>_. [])" by (auto simp: demo_book_def)
  with s show ?thesis
    using unlink_market_order_refines [OF plain_codec_ok demo_filled_rows(3) s] demo_keys(3) by (auto simp: demo_book_def)
qed

theorem audit_counts_queue_witness: "audit_market_price_chain plain_codec demo_filled demo_price 5 = Ok 1"
  using audit_counts_queue [OF plain_codec_ok demo_filled_rows(3), of demo_price 5] by (simp add: demo_book_def)

end
