(* ===== verification/Tvm_Word.thy ===== *)
theory Tvm_Word
  imports Primitives_Bytes
begin

text \<open>
  The data word of the virtual machine, \<open>tron-tvm/src/word.rs\<close>: a 256-bit integer with the unsigned,
  signed and shift operations of the instruction set, and the modular arithmetic and exponentiation
  of \<open>opcodes_a.rs\<close>. The backing \<open>U256\<close> is the type \<open>256 word\<close>.
\<close>

unbundle bit_operations_syntax

type_synonym tword = "256 word"

section \<open>Conversions\<close>

definition word_ZERO :: tword where "word_ZERO = 0"
definition word_ONE :: tword where "word_ONE = 1"
definition word_MAX :: tword where "word_MAX = - 1"
definition word_MIN_SIGNED :: tword where "word_MIN_SIGNED = push_bit 255 1"

lemmas word_constants [simp] = word_ZERO_def word_ONE_def word_MAX_def

definition word_from_be :: "bytes \<Rightarrow> tword" where "word_from_be bs = word_of_int (be_value bs)"
definition word_to_be :: "tword \<Rightarrow> bytes" where "word_to_be w = be_bytes 32 (uint w)"
definition word_from_u64 :: "int \<Rightarrow> tword" where "word_from_u64 v = word_of_int v"
definition word_is_zero :: "tword \<Rightarrow> bool" where "word_is_zero w \<longleftrightarrow> w = word_ZERO"
definition word_bit :: "tword \<Rightarrow> nat \<Rightarrow> bool" where "word_bit w i \<longleftrightarrow> i < 256 \<and> bit w i"

definition leading_zeros :: "tword \<Rightarrow> nat" where
  "leading_zeros w = length (takeWhile (\<lambda>i. \<not> bit w i) (rev [0..<256]))"

definition bytes_occupied :: "tword \<Rightarrow> nat" where "bytes_occupied w = (256 - leading_zeros w + 7) div 8"

definition low_u32 :: "tword \<Rightarrow> int" where "low_u32 w = uint w mod 4294967296"
definition low_u64 :: "tword \<Rightarrow> int" where "low_u64 w = uint w mod 18446744073709551616"
definition low_i32 :: "tword \<Rightarrow> i32" where "low_i32 w = wrap_i32 (low_u32 w)"
definition low_i64 :: "tword \<Rightarrow> i64" where "low_i64 w = wrap_i64 (low_u64 w)"

definition to_i32_safe :: "tword \<Rightarrow> i32" where
  "to_i32_safe w = (if w > word_from_u64 2147483647 then 2147483647 else low_i32 w)"

definition to_i64_safe :: "tword \<Rightarrow> i64" where
  "to_i64_safe w = (if w > word_from_u64 9223372036854775807 then 9223372036854775807 else low_i64 w)"

definition last20 :: "tword \<Rightarrow> bytes" where "last20 w = drop 12 (word_to_be w)"
definition to_tron_address :: "tword \<Rightarrow> bytes" where "to_tron_address w = 0x41 # last20 w"
definition word_as_hash :: "tword \<Rightarrow> bytes" where "word_as_hash w = word_to_be w"

definition no_leading_zero_bytes :: "tword \<Rightarrow> bytes" where
  "no_leading_zero_bytes w =
     (let b = word_to_be w in drop (case position (\<lambda>v. v \<noteq> 0) b of Some n \<Rightarrow> n | None \<Rightarrow> 32) b)"

section \<open>Arithmetic\<close>

definition wrapping_add :: "tword \<Rightarrow> tword \<Rightarrow> tword" where "wrapping_add a b = a + b"
definition wrapping_sub :: "tword \<Rightarrow> tword \<Rightarrow> tword" where "wrapping_sub a b = a - b"
definition wrapping_mul :: "tword \<Rightarrow> tword \<Rightarrow> tword" where "wrapping_mul a b = a * b"

definition unsigned_div :: "tword \<Rightarrow> tword \<Rightarrow> tword" where
  "unsigned_div a b = (if word_is_zero b then word_ZERO else a div b)"

definition unsigned_rem :: "tword \<Rightarrow> tword \<Rightarrow> tword" where
  "unsigned_rem a b = (if word_is_zero b then word_ZERO else a mod b)"

definition is_negative :: "tword \<Rightarrow> bool" where "is_negative w \<longleftrightarrow> word_bit w 255"
definition word_neg :: "tword \<Rightarrow> tword" where "word_neg w = wrapping_sub word_ZERO w"

definition signed_cmp :: "tword \<Rightarrow> tword \<Rightarrow> ordering" where
  "signed_cmp a b =
     (case (is_negative a, is_negative b) of (True, False) \<Rightarrow> Less | (False, True) \<Rightarrow> Greater | _ \<Rightarrow> cmp_lin a b)"

definition word_abs :: "tword \<Rightarrow> tword" where "word_abs w = (if is_negative w then word_neg w else w)"

definition signed_div :: "tword \<Rightarrow> tword \<Rightarrow> tword" where
  "signed_div a b =
     (if word_is_zero b then word_ZERO
      else let neg = (is_negative a \<noteq> is_negative b); q = unsigned_div (word_abs a) (word_abs b) in
        if neg then word_neg q else q)"

definition signed_rem :: "tword \<Rightarrow> tword \<Rightarrow> tword" where
  "signed_rem a b =
     (if word_is_zero b then word_ZERO
      else let r = unsigned_rem (word_abs a) (word_abs b) in if is_negative a then word_neg r else r)"

text \<open>The shift distance is read as a saturating \<open>i32\<close>, which is not negative.\<close>

definition word_shl :: "tword \<Rightarrow> tword \<Rightarrow> tword" where
  "word_shl w shift = (let s = to_i32_safe shift in if s \<ge> 256 then word_ZERO else push_bit (nat s) w)"

definition word_shr :: "tword \<Rightarrow> tword \<Rightarrow> tword" where
  "word_shr w shift = (let s = to_i32_safe shift in if s \<ge> 256 then word_ZERO else drop_bit (nat s) w)"

definition word_sar :: "tword \<Rightarrow> tword \<Rightarrow> tword" where
  "word_sar w shift =
     (let s = to_i32_safe shift in
      if s \<ge> 256 then (if is_negative w then word_MAX else word_ZERO)
      else if \<not> is_negative w then word_shr w shift
      else drop_bit (nat s) w OR push_bit (nat (256 - s)) word_MAX)"

definition sign_extend :: "tword \<Rightarrow> tword \<Rightarrow> tword" where
  "sign_extend w byte =
     (let b = to_i32_safe byte in
      if b \<ge> 32 then w
      else let i = nat b * 8 + 7 in
        if word_bit w i then w OR push_bit (i + 1) word_MAX
        else w AND (push_bit (i + 1) 1 - 1))"

section \<open>Modular arithmetic and powers\<close>

definition add_mod :: "tword \<Rightarrow> tword \<Rightarrow> tword \<Rightarrow> tword" where
  "add_mod a b m = (let gap = wrapping_sub m b in if a \<ge> gap then wrapping_sub a gap else wrapping_add a b)"

function mul_mod_loop :: "tword \<Rightarrow> tword \<Rightarrow> tword \<Rightarrow> tword \<Rightarrow> tword" where
  "mul_mod_loop m a b out =
     (if word_is_zero b then out
      else mul_mod_loop m (add_mod a a m) (word_shr b word_ONE) (if word_bit b 0 then add_mod out a m else out))"
  by pat_completeness auto

function exp_loop :: "tword \<Rightarrow> tword \<Rightarrow> tword \<Rightarrow> tword" where
  "exp_loop a p out =
     (if word_is_zero p then out
      else exp_loop (wrapping_mul a a) (word_shr p word_ONE) (if word_bit p 0 then wrapping_mul out a else out))"
  by pat_completeness auto

lemma to_i32_safe_eq: "to_i32_safe w = min (uint w) 2147483647"
proof (cases "uint w \<le> 2147483647")
  case True
  then have "\<not> w > word_from_u64 2147483647" by (simp add: word_from_u64_def word_less_def uint_word_of_int)
  with True show ?thesis
    by (simp add: to_i32_safe_def low_i32_def low_u32_def wrap_i32_def)
next
  case False
  then have "w > word_from_u64 2147483647" by (simp add: word_from_u64_def word_less_def uint_word_of_int)
  with False show ?thesis by (simp add: to_i32_safe_def)
qed

lemma word_shr_one: "word_shr w 1 = w div 2"
proof -
  have "to_i32_safe 1 = 1" by (simp add: to_i32_safe_eq)
  then show ?thesis by (simp add: word_shr_def drop_bit_eq_div)
qed

lemma half_less: "w \<noteq> 0 \<Longrightarrow> unat (w div 2) < unat w" for w :: tword
  by (simp add: unat_div unat_gt_0 div_less_dividend)

termination mul_mod_loop
  by (relation "measure (\<lambda>(m, a, b, out). unat b)") (simp_all add: word_shr_one half_less word_is_zero_def)

termination exp_loop
  by (relation "measure (\<lambda>(a, p, out). unat p)") (simp_all add: word_shr_one half_less word_is_zero_def)

declare mul_mod_loop.simps [simp del] exp_loop.simps [simp del]

definition modular :: "tword \<Rightarrow> tword \<Rightarrow> tword \<Rightarrow> bool \<Rightarrow> tword" where
  "modular a b m multiply =
     (if word_is_zero m then word_ZERO
      else let a = unsigned_rem a m; b = unsigned_rem b m in
        if \<not> multiply then add_mod a b m else mul_mod_loop m a b word_ZERO)"

definition word_exp :: "tword \<Rightarrow> tword \<Rightarrow> tword" where
  "word_exp a p = exp_loop a p word_ONE"

section \<open>Modular arithmetic is exact\<close>

lemma uint_diff: "b \<le> a \<Longrightarrow> uint (a - b) = uint a - uint b" for a b :: tword
  by (simp add: word_le_def uint_sub_lem)

lemma add_mod_eq:
  assumes "a < m" "b < m"
  shows "uint (add_mod a b m) = (uint a + uint b) mod uint m" "add_mod a b m < m"
proof -
  have gap: "uint (m - b) = uint m - uint b" using assms(2) by (intro uint_diff) simp
  have lt: "uint a < uint m" "uint b < uint m" using assms by (simp_all add: word_less_def)
  have "uint (add_mod a b m) = (if uint a + uint b \<ge> uint m then uint a + uint b - uint m else uint a + uint b)"
  proof (cases "a \<ge> m - b")
    case True
    then have "uint a \<ge> uint m - uint b" using gap by (simp add: word_le_def)
    then show ?thesis using True gap by (simp add: add_mod_def wrapping_sub_def uint_diff)
  next
    case False
    then have *: "uint a + uint b < uint m" using gap by (simp add: word_le_def)
    then have "uint (a + b) = uint a + uint b" using uint_lt2p [of m] by (intro uint_add_lem [THEN iffD1]) simp
    with False * show ?thesis by (simp add: add_mod_def wrapping_sub_def wrapping_add_def)
  qed
  with lt show e: "uint (add_mod a b m) = (uint a + uint b) mod uint m"
    by (auto simp: mod_pos_pos_trivial) (metis minus_mod_self2 mod_pos_pos_trivial add_less_cancel_right diff_less_eq diff_ge_0_iff_ge add_strict_mono)
  have "0 < uint m" using lt by (meson le_less_trans uint_ge_0)
  then show "add_mod a b m < m" using e by (simp add: word_less_def)
qed

lemma word_bit_0: "word_bit w 0 \<longleftrightarrow> odd (uint w)" "word_bit w 0 \<longleftrightarrow> odd (unat w)"
proof -
  show "word_bit w 0 \<longleftrightarrow> odd (uint w)" by (simp add: word_bit_def bit_uint_iff flip: bit_0)
  also have "\<dots> \<longleftrightarrow> odd (unat w)" unfolding unat_eq_nat_uint by (subst even_nat_iff) simp_all
  finally show "word_bit w 0 \<longleftrightarrow> odd (unat w)" .
qed

lemma uint_half: "uint (w div 2) = uint w div 2" for w :: tword
  by (simp add: uint_div)

lemma mul_mod_loop_eq:
  assumes "a < m" "out < m"
  shows "uint (mul_mod_loop m a b out) = (uint out + uint a * uint b) mod uint m"
  using assms
proof (induction m a b out rule: mul_mod_loop.induct)
  case (1 m a b out)
  show ?case
  proof (cases "b = 0")
    case True
    then show ?thesis using 1(3) by (simp add: mul_mod_loop.simps word_is_zero_def word_less_def)
  next
    case False
    let ?out = "if word_bit b 0 then add_mod out a m else out"
    have out: "uint ?out = (uint out + uint a * (uint b mod 2)) mod uint m" "?out < m"
    proof -
      have "uint out < uint m" using 1(3) by (simp add: word_less_def)
      then have "uint ?out = (uint out + uint a * (uint b mod 2)) mod uint m \<and> ?out < m"
        using add_mod_eq [OF 1(3,2)] 1(3)
        by (cases "odd (uint b)") (simp_all add: word_bit_0(1) odd_iff_mod_2_eq_one even_iff_mod_2_eq_zero)
      then show "uint ?out = (uint out + uint a * (uint b mod 2)) mod uint m" "?out < m" by auto
    qed
    note a = add_mod_eq [OF 1(2) 1(2)]
    have "uint (mul_mod_loop m a b out) = uint (mul_mod_loop m (add_mod a a m) (b div 2) ?out)"
      using False by (subst mul_mod_loop.simps) (simp add: word_is_zero_def word_shr_one)
    also have "\<dots> = (uint ?out + uint (add_mod a a m) * (uint b div 2)) mod uint m"
      using 1(1) [of] False a(2) out(2) by (simp add: word_is_zero_def word_shr_one uint_half)
    also have "\<dots> = (uint out + uint a * (uint b mod 2) + (uint a + uint a) * (uint b div 2)) mod uint m"
      unfolding out(1) a(1) by (intro mod_add_cong mod_mult_cong) simp_all
    also have "uint out + uint a * (uint b mod 2) + (uint a + uint a) * (uint b div 2) = uint out + uint a * (2 * (uint b div 2) + uint b mod 2)"
      by (simp only: algebra_simps mult_2)
    also have "2 * (uint b div 2) + uint b mod 2 = uint b" by (rule mult_div_mod_eq)
    finally show ?thesis .
  qed
qed

lemma exp_loop_eq: "exp_loop a p out = out * a ^ unat p"
proof (induction a p out rule: exp_loop.induct)
  case (1 a p out)
  show ?case
  proof (cases "p = 0")
    case False
    let ?out = "if word_bit p 0 then out * a else out"
    have "unat p = unat p mod 2 + 2 * (unat p div 2)" by simp
    then have "a ^ unat p = a ^ (unat p mod 2) * (a * a) ^ (unat p div 2)" by (metis power_add power_mult power2_eq_square)
    moreover have "?out = out * a ^ (unat p mod 2)"
      by (cases "odd (unat p)") (simp_all add: word_bit_0(2) odd_iff_mod_2_eq_one even_iff_mod_2_eq_zero)
    moreover have "exp_loop a p out = exp_loop (a * a) (p div 2) ?out"
      using False by (subst exp_loop.simps) (simp add: word_is_zero_def word_shr_one wrapping_mul_def)
    moreover have "\<dots> = ?out * (a * a) ^ (unat p div 2)"
      using 1 False by (simp only: word_is_zero_def word_shr_one wrapping_mul_def unat_div word_constants) (simp add: unat_div)
    ultimately show ?thesis by (simp add: mult.assoc)
  qed (simp add: exp_loop.simps word_is_zero_def)
qed

section \<open>Signed arithmetic is exact\<close>

lemma is_negative_iff: "is_negative w \<longleftrightarrow> sint w < 0"
  using bit_last_iff [of w] by (simp add: is_negative_def word_bit_def)

lemma uint_sint_eq: "uint w = (if sint w < 0 then sint w + 2 ^ 256 else sint w)" for w :: tword
proof -
  have range: "- (2 ^ 255) \<le> sint w" "sint w < 2 ^ 255" using sint_ge [of w] sint_lt [of w] by simp_all
  have "uint w = sint w mod 2 ^ 256" using uint_sint [of w] by (simp add: take_bit_eq_mod)
  also have "\<dots> = (if sint w < 0 then sint w + 2 ^ 256 else sint w)"
  proof (cases "sint w < 0")
    case True
    then have "(sint w + 2 ^ 256) mod 2 ^ 256 = sint w + 2 ^ 256" using range by (intro mod_pos_pos_trivial) simp_all
    with True show ?thesis by simp
  next
    case False
    then show ?thesis using range by (simp add: mod_pos_pos_trivial)
  qed
  finally show ?thesis .
qed

lemma uint_below: "uint w < 2 ^ 256" for w :: tword
  using uint_lt2p [of w] by simp

lemma sint_zero: "sint w = 0 \<longleftrightarrow> w = 0" for w :: tword
  using uint_sint_eq [of w] by (auto simp: uint_0_iff)

lemma uint_word_abs: "uint (word_abs w) = \<bar>sint w\<bar>"
proof (cases "sint w < 0")
  case True
  then have "uint w \<noteq> 0" using uint_sint_eq [of w] sint_ge [of w] by auto
  then have "uint (- w) = 2 ^ 256 - uint w" using uint_below [of w] by (simp add: uint_word_ariths zmod_zminus1_eq_if mod_pos_pos_trivial)
  with True show ?thesis by (simp add: word_abs_def is_negative_iff word_neg_def wrapping_sub_def uint_sint_eq)
next
  case False
  then show ?thesis by (simp add: word_abs_def is_negative_iff uint_sint_eq)
qed

lemma word_neg_of_int: "word_neg (word_of_int k) = word_of_int (- k)"
  by (simp add: word_neg_def wrapping_sub_def)

lemma word_of_uint: "uint w = k \<Longrightarrow> w = word_of_int k" for w :: tword
  by auto

lemma word_abs_quotients:
  assumes "b \<noteq> 0"
  shows "unsigned_div (word_abs a) (word_abs b) = word_of_int (\<bar>sint a\<bar> div \<bar>sint b\<bar>)"
    "unsigned_rem (word_abs a) (word_abs b) = word_of_int (\<bar>sint a\<bar> mod \<bar>sint b\<bar>)"
proof -
  have "word_abs b \<noteq> 0" using assms uint_word_abs [of b] sint_zero [of b] by auto
  then show "unsigned_div (word_abs a) (word_abs b) = word_of_int (\<bar>sint a\<bar> div \<bar>sint b\<bar>)"
    "unsigned_rem (word_abs a) (word_abs b) = word_of_int (\<bar>sint a\<bar> mod \<bar>sint b\<bar>)"
    by (auto simp: unsigned_div_def unsigned_rem_def word_is_zero_def uint_div uint_mod uint_word_abs intro!: word_of_uint)
qed

lemma signed_div_eq: "signed_div a b = word_of_int (sint a sdiv sint b)"
proof (cases "b = 0")
  case False
  then have "sint b \<noteq> 0" by (simp add: sint_zero)
  then show ?thesis using word_abs_quotients(1) [OF False, of a] False
    by (cases "sint a = 0") (auto simp: signed_div_def word_is_zero_def is_negative_iff word_neg_of_int word_neg_def wrapping_sub_def signed_divide_int_def sgn_if)
qed (simp add: signed_div_def word_is_zero_def)

lemma signed_rem_eq: "b \<noteq> 0 \<Longrightarrow> signed_rem a b = word_of_int (sint a smod sint b)"
  using word_abs_quotients(2) [of b a]
  by (cases "sint a = 0") (auto simp: signed_rem_def word_is_zero_def is_negative_iff word_neg_of_int smod_int_alt_def sgn_if)

lemma signed_cmp_eq: "signed_cmp a b = cmp_lin (sint a) (sint b)"
proof -
  note uint_below [of a] uint_below [of b]
  moreover have "a < b \<longleftrightarrow> uint a < uint b" "a = b \<longleftrightarrow> uint a = uint b" by (simp_all add: word_less_def word_uint_eq_iff)
  ultimately show ?thesis using uint_sint_eq [of a] uint_sint_eq [of b] sint_ge [of a] sint_ge [of b]
    by (auto simp: signed_cmp_def is_negative_iff cmp_lin_def split: if_splits)
qed

lemma shift_nonneg: "0 \<le> to_i32_safe w" "to_i32_safe w < 256 \<Longrightarrow> to_i32_safe w = uint w"
  by (simp_all add: to_i32_safe_eq)

lemma big_shift:
  assumes "256 \<le> to_i32_safe shift"
  shows "256 \<le> unat shift" "(2 :: int) ^ 256 \<le> 2 ^ unat shift"
proof -
  have "uint shift = int (unat shift)" by simp
  then show *: "256 \<le> unat shift" using assms unfolding to_i32_safe_eq by linarith
  then show "(2 :: int) ^ 256 \<le> 2 ^ unat shift" by (rule power_increasing) simp
qed

lemma small_shift:
  assumes "\<not> 256 \<le> to_i32_safe shift"
  shows "nat (to_i32_safe shift) = unat shift" "unat shift < 256" "nat (256 - to_i32_safe shift) = 256 - unat shift"
proof -
  have "uint shift = int (unat shift)" by simp
  then have "to_i32_safe shift = int (unat shift)" "int (unat shift) < 256" using assms unfolding to_i32_safe_eq by linarith+
  then show "nat (to_i32_safe shift) = unat shift" "unat shift < 256" "nat (256 - to_i32_safe shift) = 256 - unat shift" by linarith+
qed

lemma word_shr_eq: "uint (word_shr w shift) = uint w div 2 ^ unat shift"
proof (cases "256 \<le> to_i32_safe shift")
  case True
  then have "uint w < 2 ^ unat shift" using big_shift uint_below [of w] by (meson less_le_trans)
  with True show ?thesis by (simp add: word_shr_def div_pos_pos_trivial)
next
  case False
  then show ?thesis using small_shift [OF False] by (simp add: word_shr_def unsigned_drop_bit_eq)
      (use uint_below [of w] in \<open>simp add: drop_bit_eq_div take_bit_eq_mod mod_pos_pos_trivial\<close>)
qed

lemma word_shl_eq: "word_shl w shift = word_of_int (uint w * 2 ^ unat shift)"
proof (cases "256 \<le> to_i32_safe shift")
  case True
  then obtain d where "unat shift = 256 + d" using big_shift(1) le_Suc_ex by blast
  then have "(word_of_int (uint w * 2 ^ unat shift) :: tword) = word_of_int (uint w * 2 ^ d * 2 ^ 256)" by (simp add: power_add mult.assoc)
  also have "\<dots> = 0" by (rule word_of_int_eq_0_iff [THEN iffD2]) simp
  finally show ?thesis using True by (simp add: word_shl_def)
next
  case False
  then show ?thesis using small_shift [OF False] by (simp add: word_shl_def push_bit_eq_mult)
qed

lemma word_sar_eq: "word_sar w shift = word_of_int (sint w div 2 ^ unat shift)"
proof (cases "256 \<le> to_i32_safe shift")
  case True
  note big = big_shift(2) [OF True]
  have range: "- (2 ^ 256) < sint w" "sint w < 2 ^ 256" using sint_ge [of w] sint_lt [of w] by simp_all
  have "sint w div 2 ^ unat shift = (if sint w < 0 then - 1 else 0)"
  proof (cases "sint w < 0")
    case neg: True
    have "sint w div 2 ^ unat shift = - 1" using neg range big by (intro int_div_pos_eq [where r = "sint w + 2 ^ unat shift"]) simp_all
    with neg show ?thesis by simp
  next
    case False
    then show ?thesis using range big by (simp add: div_pos_pos_trivial)
  qed
  with True show ?thesis by (simp add: word_sar_def is_negative_iff)
next
  case False
  note s = small_shift [OF False]
  have "word_sar w shift = word_of_int (drop_bit (unat shift) (sint w))"
  proof (rule bit_word_eqI)
    fix n
    assume "n < LENGTH(256)"
    moreover have least: "min 255 (unat shift + n) = (if unat shift + n < 256 then unat shift + n else 255)" by auto
    ultimately show "bit (word_sar w shift) n = bit (word_of_int (drop_bit (unat shift) (sint w)) :: tword) n"
      using False s bit_imp_le_length [of w "unat shift + n"] least
      by (cases "unat shift + n < 256") (auto simp: word_sar_def word_shr_def is_negative_def word_bit_def Let_def bit_simps)
  qed
  then show ?thesis by (simp add: drop_bit_eq_div)
qed

lemma sign_extend_eq:
  "sign_extend w k = (if uint k < 32 then word_of_int (signed_take_bit (8 * unat k + 7) (uint w)) else w)"
proof (cases "uint k < 32")
  case True
  have k: "uint k = int (unat k)" by simp
  then have b: "to_i32_safe k = int (unat k)" "unat k < 32" using True unfolding to_i32_safe_eq by linarith+
  define i where "i = 8 * unat k + 7"
  have i: "nat (to_i32_safe k) * 8 + 7 = i" "i < 256" using b by (simp_all add: i_def)
  have "sign_extend w k = word_of_int (signed_take_bit i (uint w))"
  proof (rule bit_word_eqI)
    fix n
    assume n: "n < LENGTH(256)"
    have "sign_extend w k = (if bit w i then w OR push_bit (i + 1) (- 1) else w AND mask (i + 1))"
      using True b(1) i by (simp add: sign_extend_def Let_def word_bit_def mask_eq_exp_minus_1)
    then show "bit (sign_extend w k) n = bit (word_of_int (signed_take_bit i (uint w)) :: tword) n"
      using n i(2) by (cases "n \<le> i") (auto simp: bit_simps min_def less_Suc_eq_le)
  qed
  with True show ?thesis by (simp add: i_def)
next
  case False
  then have "32 \<le> to_i32_safe k" unfolding to_i32_safe_eq by linarith
  with False show ?thesis by (simp add: sign_extend_def)
qed

section \<open>Properties\<close>

lemma unsigned_rem_less: "m \<noteq> 0 \<Longrightarrow> uint (unsigned_rem a m) = uint a mod uint m \<and> unsigned_rem a m < m"
proof -
  assume m: "m \<noteq> 0"
  then have "0 < uint m" by (simp add: uint_0_iff order_less_le)
  with m show ?thesis by (simp add: unsigned_rem_def word_is_zero_def uint_mod word_less_def)
qed

lemma signed_parts:
  "signed_div a b = word_of_int (sint a sdiv sint b)"
  "signed_rem a b = (if b = 0 then 0 else word_of_int (sint a smod sint b))"
  "signed_cmp a b = cmp_lin (sint a) (sint b)"
  "word_sar a b = word_of_int (sint a div 2 ^ unat b)"
  "sign_extend a b = (if uint b < 32 then word_of_int (signed_take_bit (8 * unat b + 7) (uint a)) else a)"
  using signed_rem_eq [of b a]
  by (simp_all add: signed_div_eq signed_cmp_eq word_sar_eq sign_extend_eq) (simp add: signed_rem_def word_is_zero_def)

lemma modular_parts:
  "uint (modular a b m False) = (if m = 0 then 0 else (uint a + uint b) mod uint m)"
  "uint (modular a b m True) = (if m = 0 then 0 else (uint a * uint b) mod uint m)"
  "word_exp a p = a ^ unat p"
  "word_shl a p = word_of_int (uint a * 2 ^ unat p)"
  "uint (word_shr a p) = uint a div 2 ^ unat p"
proof -
  have zero: "modular a b 0 x = 0" for x by (simp add: modular_def word_is_zero_def)
  show "uint (modular a b m False) = (if m = 0 then 0 else (uint a + uint b) mod uint m)"
  proof (cases "m = 0")
    case False
    note r = unsigned_rem_less [OF False, of a] unsigned_rem_less [OF False, of b]
    then show ?thesis using False add_mod_eq(1) [of "unsigned_rem a m" m "unsigned_rem b m"]
      by (simp add: modular_def word_is_zero_def mod_simps)
  qed (simp add: zero)
  show "uint (modular a b m True) = (if m = 0 then 0 else (uint a * uint b) mod uint m)"
  proof (cases "m = 0")
    case False
    note r = unsigned_rem_less [OF False, of a] unsigned_rem_less [OF False, of b]
    have "(0 :: tword) < m" using False by (simp add: word_gt_0)
    then show ?thesis using False r mul_mod_loop_eq [of "unsigned_rem a m" m 0 "unsigned_rem b m"]
      by (simp add: modular_def word_is_zero_def mod_simps)
  qed (simp add: zero)
qed (simp_all add: word_exp_def exp_loop_eq word_shl_eq word_shr_eq)

text \<open>C5: the signed operations are exact. Division truncates towards zero and remainder takes the sign of the
  dividend, with zero for a zero divisor and wrap-around for the one quotient that does not fit;
  comparison is by signed value; the arithmetic shift divides by a power of two rounding down for
  every distance; sign extension reads the low bytes as a signed number.\<close>

theorem signed_operations_exact:
  "(signed_div a b = word_of_int (sint a sdiv sint b)) \<and>
   (signed_rem a b = (if b = 0 then 0 else word_of_int (sint a smod sint b))) \<and>
   (signed_cmp a b = cmp_lin (sint a) (sint b)) \<and>
   (word_sar a b = word_of_int (sint a div 2 ^ unat b)) \<and>
   (sign_extend a b = (if uint b < 32 then word_of_int (signed_take_bit (8 * unat b + 7) (uint a)) else a))"
  by (intro conjI signed_parts)

text \<open>C6: the modular operations and powers are exact. Addition and multiplication modulo a word are computed
  without an intermediate overflow, by the loop that doubles and adds; the power is the wrapping product;
  the shifts multiply and divide by powers of two for every distance.\<close>

theorem modular_operations_exact:
  "(uint (modular a b m False) = (if m = 0 then 0 else (uint a + uint b) mod uint m)) \<and>
   (uint (modular a b m True) = (if m = 0 then 0 else (uint a * uint b) mod uint m)) \<and>
   (word_exp a p = a ^ unat p) \<and>
   (word_shl a p = word_of_int (uint a * 2 ^ unat p)) \<and>
   (uint (word_shr a p) = uint a div 2 ^ unat p)"
  by (intro conjI modular_parts)

end
