(* ===== verification/Tvm_Machine.thy ===== *)
theory Tvm_Machine
  imports Tvm_Word
begin

text \<open>
  The parts of a machine frame: faults and results (\<open>tron-tvm/src/result.rs\<close>), the stack, the byte memory
  and the program with its jump destinations (\<open>machine.rs\<close>), and the energy meter with the cost
  formulas (\<open>energy.rs\<close>). A method that changes its object returns the new one.
\<close>

section \<open>Faults and results\<close>

datatype ContractResult =
    CSuccess | CRevert | CIllegalOperation | COutOfEnergy | CBadJumpDestination | COutOfTime | COutOfMemory | CPrecompiledContract
  | CStackTooSmall | CStackTooLarge | CJvmStackOverflow | CTransferFailed | CInvalidCode | CUnknown

fun protobuf_number :: "ContractResult \<Rightarrow> string \<times> i32" where
  "protobuf_number CSuccess = (''SUCCESS'', 1)"
| "protobuf_number CRevert = (''REVERT'', 2)"
| "protobuf_number CBadJumpDestination = (''BAD_JUMP_DESTINATION'', 3)"
| "protobuf_number COutOfMemory = (''OUT_OF_MEMORY'', 4)"
| "protobuf_number CPrecompiledContract = (''PRECOMPILED_CONTRACT'', 5)"
| "protobuf_number CStackTooSmall = (''STACK_TOO_SMALL'', 6)"
| "protobuf_number CStackTooLarge = (''STACK_TOO_LARGE'', 7)"
| "protobuf_number CIllegalOperation = (''ILLEGAL_OPERATION'', 8)"
| "protobuf_number COutOfEnergy = (''OUT_OF_ENERGY'', 10)"
| "protobuf_number COutOfTime = (''OUT_OF_TIME'', 11)"
| "protobuf_number CJvmStackOverflow = (''JVM_STACK_OVER_FLOW'', 12)"
| "protobuf_number CUnknown = (''UNKNOWN'', 13)"
| "protobuf_number CTransferFailed = (''TRANSFER_FAILED'', 14)"
| "protobuf_number CInvalidCode = (''INVALID_CODE'', 15)"

definition from_runtime_number :: "i32 \<Rightarrow> ContractResult option" where
  "from_runtime_number n =
     (if n = 1 then Some CSuccess else if n = 2 then Some CRevert
      else if n = 3 then Some CBadJumpDestination else if n = 4 then Some COutOfMemory
      else if n = 5 then Some CPrecompiledContract else if n = 6 then Some CStackTooSmall
      else if n = 7 then Some CStackTooLarge else if n = 8 then Some CIllegalOperation
      else if n = 10 then Some COutOfEnergy else if n = 11 then Some COutOfTime
      else if n = 12 then Some CJvmStackOverflow else if n = 13 then Some CUnknown
      else if n = 14 then Some CTransferFailed else if n = 15 then Some CInvalidCode
      else None)"

datatype VmFault =
    VIllegalOperation | VOutOfEnergy | VBadJumpDestination | VOutOfTime | VOutOfMemory | VPrecompiledContract | VStackTooSmall
  | VStackTooLarge | VJvmStackOverflow | VTransferFailed | VInvalidCode | VStaticViolation | VReturnDataBounds | VOutOfStorage
  | VArithmetic | VOther

datatype ExitStatus = Succeeded | Reverted | Faulted VmFault

fun contract_result :: "VmFault \<Rightarrow> ContractResult" where
  "contract_result VIllegalOperation = CIllegalOperation"
| "contract_result VOutOfEnergy = COutOfEnergy"
| "contract_result VBadJumpDestination = CBadJumpDestination"
| "contract_result VOutOfTime = COutOfTime"
| "contract_result VOutOfMemory = COutOfMemory"
| "contract_result VPrecompiledContract = CPrecompiledContract"
| "contract_result VStackTooSmall = CStackTooSmall"
| "contract_result VStackTooLarge = CStackTooLarge"
| "contract_result VJvmStackOverflow = CJvmStackOverflow"
| "contract_result VTransferFailed = CTransferFailed"
| "contract_result VInvalidCode = CInvalidCode"
| "contract_result _ = CUnknown"

definition spends_remaining :: "VmFault \<Rightarrow> bool" where "spends_remaining fault \<longleftrightarrow> fault \<noteq> VTransferFailed"

section \<open>The stack\<close>

definition STACK_LIMIT :: nat where "STACK_LIMIT = 1024"
definition MEMORY_LIMIT :: nat where "MEMORY_LIMIT = 3 * 1024 * 1024"
definition MEMORY_CHUNK :: nat where "MEMORY_CHUNK = 1024"

lemmas machine_limits [simp] = STACK_LIMIT_def MEMORY_LIMIT_def MEMORY_CHUNK_def

text \<open>The words of the vector, the top of the stack last.\<close>

type_synonym Stack1024 = "tword list"

definition check_shape :: "Stack1024 \<Rightarrow> nat \<Rightarrow> nat \<Rightarrow> (unit, VmFault) result" where
  "check_shape st required resulting =
     (if length st < required then Err VStackTooSmall
      else if length st - required + resulting > STACK_LIMIT then Err VStackTooLarge else Ok ())"

definition stack_push :: "tword \<Rightarrow> Stack1024 \<Rightarrow> (Stack1024, VmFault) result" where
  "stack_push v st = (if length st = STACK_LIMIT then Err VStackTooLarge else Ok (st @ [v]))"

definition stack_pop :: "Stack1024 \<Rightarrow> (tword \<times> Stack1024, VmFault) result" where
  "stack_pop st = (if st = [] then Err VStackTooSmall else Ok (last st, butlast st))"

definition peek :: "nat \<Rightarrow> Stack1024 \<Rightarrow> (tword, VmFault) result" where
  "peek index st = (if length st < index + 1 then Err VStackTooSmall else Ok (st ! (length st - (index + 1))))"

definition stack_set :: "nat \<Rightarrow> tword \<Rightarrow> Stack1024 \<Rightarrow> (Stack1024, VmFault) result" where
  "stack_set index v st = (if length st < index + 1 then Err VStackTooSmall else Ok (st[length st - (index + 1) := v]))"

definition stack_swap :: "nat \<Rightarrow> Stack1024 \<Rightarrow> (Stack1024, VmFault) result" where
  "stack_swap index st =
     (if length st < 1 then Err VStackTooSmall
      else let top = length st - 1 in
        if top < index then Err VStackTooSmall
        else let other = top - index in Ok (st[top := st ! other, other := st ! top]))"

section \<open>The memory\<close>

record Memory =
  mm_bytes :: bytes
  mm_soft_len :: usize

definition memory_default :: Memory where "memory_default = \<lparr> mm_bytes = [], mm_soft_len = 0 \<rparr>"

definition expand :: "usize \<Rightarrow> usize \<Rightarrow> Memory \<Rightarrow> (Memory, VmFault) result" where
  "expand offset sz m =
     (if sz = 0 then Ok m
      else and_then (ok_or (usize_checked_add offset sz) VOutOfMemory) (\<lambda>end.
        if end > MEMORY_LIMIT then Err VOutOfMemory
        else and_then (ok_or (usize_checked_add end 31) VOutOfMemory) (\<lambda>n.
          let soft = n div 32 * 32;
              m = (if soft > mm_soft_len m then m\<lparr> mm_soft_len := soft \<rparr> else m)
          in and_then (ok_or (usize_checked_add end (MEMORY_CHUNK - 1)) VOutOfMemory) (\<lambda>n.
            let physical = n div MEMORY_CHUNK * MEMORY_CHUNK in
            Ok (if physical > length (mm_bytes m)
                then m\<lparr> mm_bytes := mm_bytes m @ replicate (physical - length (mm_bytes m)) 0 \<rparr> else m)))))"

text \<open>Overwriting a range that is inside the vector.\<close>

definition splice :: "usize \<Rightarrow> bytes \<Rightarrow> bytes \<Rightarrow> bytes" where
  "splice offset data bs = take offset bs @ data @ drop (offset + length data) bs"

definition memory_write :: "usize \<Rightarrow> bytes \<Rightarrow> Memory \<Rightarrow> (Memory, VmFault) result" where
  "memory_write offset data m =
     and_then (expand offset (length data) m) (\<lambda>m.
       Ok (if data \<noteq> [] then m\<lparr> mm_bytes := splice offset data (mm_bytes m) \<rparr> else m))"

definition padded_slice :: "bytes \<Rightarrow> usize \<Rightarrow> usize \<Rightarrow> bytes" where
  "padded_slice source source_offset sz =
     (let copied = (if source_offset < length source then min sz (length source - source_offset) else 0)
      in take copied (drop source_offset source) @ replicate (sz - copied) 0)"

definition write_padded :: "usize \<Rightarrow> usize \<Rightarrow> bytes \<Rightarrow> usize \<Rightarrow> Memory \<Rightarrow> (Memory, VmFault) result" where
  "write_padded offset sz source source_offset m =
     and_then (expand offset sz m) (\<lambda>m.
       Ok (if sz = 0 then m else m\<lparr> mm_bytes := splice offset (padded_slice source source_offset sz) (mm_bytes m) \<rparr>))"

definition memory_read :: "usize \<Rightarrow> usize \<Rightarrow> Memory \<Rightarrow> (bytes \<times> Memory, VmFault) result" where
  "memory_read offset sz m =
     and_then (expand offset sz m) (\<lambda>m. Ok (if sz = 0 then [] else take sz (drop offset (mm_bytes m)), m))"

definition copy_within :: "usize \<Rightarrow> usize \<Rightarrow> usize \<Rightarrow> Memory \<Rightarrow> (Memory, VmFault) result" where
  "copy_within dst src sz m =
     (if sz = 0 then Ok m
      else and_then (expand src sz m) (\<lambda>m. and_then (expand dst sz m) (\<lambda>m.
        Ok (m\<lparr> mm_bytes := splice dst (take sz (drop src (mm_bytes m))) (mm_bytes m) \<rparr>))))"

section \<open>The program\<close>

record Program =
  pg_code :: bytes
  pg_pc :: usize
  pg_jumpdests :: "usize list"

text \<open>The index advances because a vector is shorter than the largest \<open>usize\<close>; the guard states it.\<close>

function scan_jumpdests :: "bytes \<Rightarrow> usize \<Rightarrow> usize list" where
  "scan_jumpdests code i =
     (if i < length code then
        let opcode = code ! i;
            following = (if 0x60 \<le> opcode \<and> opcode \<le> 0x7f then usize_saturating_add (i + 1) (unat (opcode - 0x5f)) else i + 1)
        in (if opcode = 0x5b then [i] else []) @ (if i < following then scan_jumpdests code following else [])
      else [])"
  by pat_completeness auto

termination
  by (relation "measure (\<lambda>(code, i). length code - i)") (auto simp: Let_def split: if_splits)

declare scan_jumpdests.simps [simp del]

definition program_new :: "bytes \<Rightarrow> Program" where
  "program_new code = \<lparr> pg_code = code, pg_pc = 0, pg_jumpdests = scan_jumpdests code 0 \<rparr>"

definition is_jumpdest :: "Program \<Rightarrow> usize \<Rightarrow> bool" where "is_jumpdest p pc \<longleftrightarrow> pc \<in> set (pg_jumpdests p)"

definition program_jump :: "usize \<Rightarrow> Program \<Rightarrow> (Program, VmFault) result" where
  "program_jump pc p = (if \<not> is_jumpdest p pc then Err VBadJumpDestination else Ok (p\<lparr> pg_pc := pc \<rparr>))"

definition next_opcode :: "Program \<Rightarrow> (u8 \<times> Program) option" where
  "next_opcode p = (if pg_pc p < length (pg_code p) then Some (pg_code p ! pg_pc p, p\<lparr> pg_pc := pg_pc p + 1 \<rparr>) else None)"

definition read_push :: "nat \<Rightarrow> Program \<Rightarrow> tword \<times> Program" where
  "read_push n p =
     (let available = min n (length (pg_code p) - pg_pc p)
      in (word_from_be (replicate (32 - n) 0 @ take available (drop (pg_pc p) (pg_code p)) @ replicate (n - available) 0),
          p\<lparr> pg_pc := usize_saturating_add (pg_pc p) n \<rparr>))"

section \<open>Energy\<close>

record EnergyMeter =
  em_limit :: i64
  em_used :: i64
  em_penalty :: i64

definition meter_new :: "i64 \<Rightarrow> (EnergyMeter, VmFault) result" where
  "meter_new limit = (if limit < 0 then Err VOutOfEnergy else Ok \<lparr> em_limit = limit, em_used = 0, em_penalty = 0 \<rparr>)"

definition remaining :: "EnergyMeter \<Rightarrow> i64" where "remaining m = em_limit m - em_used m"

definition spend :: "i64 \<Rightarrow> EnergyMeter \<Rightarrow> EnergyMeter \<times> (unit, VmFault) result" where
  "spend amount m =
     (if amount < 0 then (m, Err VArithmetic)
      else case checked_i64 (em_used m + amount) of
          None \<Rightarrow> (m, Err VOutOfEnergy)
        | Some used \<Rightarrow>
          if used > em_limit m then (m\<lparr> em_used := em_limit m \<rparr>, Err VOutOfEnergy)
          else (m\<lparr> em_used := used \<rparr>, Ok ()))"

definition refund :: "i64 \<Rightarrow> EnergyMeter \<Rightarrow> EnergyMeter \<times> (unit, VmFault) result" where
  "refund amount m =
     (if amount < 0 \<or> amount > em_used m then (m, Err VArithmetic) else (m\<lparr> em_used := em_used m - amount \<rparr>, Ok ()))"

definition add_penalty :: "i64 \<Rightarrow> EnergyMeter \<Rightarrow> EnergyMeter \<times> (unit, VmFault) result" where
  "add_penalty amount m =
     (if amount < 0 then (m, Err VArithmetic)
      else case checked_i64 (em_penalty m + amount) of
          None \<Rightarrow> (m, Err VOutOfEnergy)
        | Some penalty \<Rightarrow> (m\<lparr> em_penalty := penalty \<rparr>, Ok ()))"

definition exhaust :: "EnergyMeter \<Rightarrow> EnergyMeter" where "exhaust m = m\<lparr> em_used := em_limit m \<rparr>"

definition memory_cost :: "usize \<Rightarrow> (i64, VmFault) result" where
  "memory_cost bs =
     and_then (ok_or (usize_checked_add bs 31) VOutOfMemory) (\<lambda>n.
     and_then (ok_or (checked_i64 (int (n div 32))) VOutOfMemory) (\<lambda>w.
     and_then (ok_or (checked_i64 (w * w)) VOutOfEnergy) (\<lambda>square.
     and_then (ok_or (checked_i64 (w * 3)) VOutOfEnergy) (\<lambda>linear.
     ok_or (checked_i64 (linear + square sdiv 512)) VOutOfEnergy))))"

definition meter_memory_delta :: "usize \<Rightarrow> usize \<Rightarrow> (i64, VmFault) result" where
  "meter_memory_delta old_bytes new_bytes =
     and_then (memory_cost new_bytes) (\<lambda>new_cost.
     and_then (memory_cost old_bytes) (\<lambda>old_cost.
     ok_or (checked_i64 (new_cost - old_cost)) VArithmetic))"

definition DYNAMIC_ENERGY_DECIMAL :: i64 where "DYNAMIC_ENERGY_DECIMAL = 10000"
definition DYNAMIC_ENERGY_DECREASE_DIVISOR :: i64 where "DYNAMIC_ENERGY_DECREASE_DIVISOR = 4"

definition apply_dynamic_energy :: "i64 \<Rightarrow> i64 \<Rightarrow> (i64 \<times> i64, VmFault) result" where
  "apply_dynamic_energy base factor =
     (if base < 0 \<or> factor < 0 then Err VArithmetic
      else and_then (ok_or (Option.bind (checked_i64 (base * factor)) (\<lambda>v. checked_i64 (v sdiv DYNAMIC_ENERGY_DECIMAL))) VOutOfEnergy) (\<lambda>penalty.
        and_then (ok_or (checked_i64 (base + penalty)) VOutOfEnergy) (\<lambda>whole. Ok (whole, penalty))))"

definition forwarded_call_energy :: "i64 \<Rightarrow> i64 \<Rightarrow> bool \<Rightarrow> (i64, VmFault) result" where
  "forwarded_call_energy available requested energy_adjustment =
     (if available < 0 \<or> requested < 0 then Err VOutOfEnergy
      else and_then (if energy_adjustment then ok_or (checked_i64 (available - available sdiv 64)) VOutOfEnergy else Ok available) (\<lambda>cap.
        Ok (min requested cap)))"

definition next_dynamic_factor :: "i64 \<Rightarrow> i64 \<Rightarrow> i64 \<Rightarrow> i64 \<Rightarrow> i64 \<Rightarrow> (i64, VmFault) result" where
  "next_dynamic_factor factor usage threshold increase_percent maximum =
     (if factor < 0 \<or> usage < 0 \<or> threshold < 0 \<or> increase_percent < 0 \<or> maximum < 0 then Err VArithmetic
      else if usage > threshold then
        and_then (ok_or (Option.bind (checked_i64 (factor + DYNAMIC_ENERGY_DECIMAL)) (\<lambda>v.
            Option.bind (checked_i64 (v * increase_percent)) (\<lambda>v. checked_i64 (v sdiv 100)))) VOutOfEnergy) (\<lambda>increase.
          ok_or (map_option (\<lambda>v. min v maximum) (checked_i64 (factor + increase))) VOutOfEnergy)
      else Ok (factor - factor sdiv DYNAMIC_ENERGY_DECREASE_DIVISOR))"

section \<open>Stack lemmas\<close>

lemma stack_push_Ok: "stack_push v st = Ok st' \<Longrightarrow> length st \<le> 1024 \<Longrightarrow> length st' \<le> 1024"
  by (auto simp: stack_push_def split: if_splits)

lemma stack_pop_Ok: "stack_pop st = Ok (v, st') \<Longrightarrow> st = st' @ [v]"
  by (auto simp: stack_pop_def split: if_splits)

lemma stack_swap_Ok: "stack_swap n st = Ok st' \<Longrightarrow> length st' = length st"
  by (auto simp: stack_swap_def Let_def split: if_splits)

lemma from_runtime_number_protobuf: "from_runtime_number (snd (protobuf_number r)) = Some r"
  by (cases r) (simp_all add: from_runtime_number_def)

section \<open>Memory lemmas\<close>

definition memory_inv :: "Memory \<Rightarrow> bool" where
  "memory_inv m \<longleftrightarrow> length (mm_bytes m) mod 1024 = 0 \<and> length (mm_bytes m) \<le> MEMORY_LIMIT \<and> mm_soft_len m mod 32 = 0 \<and>
     mm_soft_len m \<le> length (mm_bytes m) \<and> (\<forall>i. mm_soft_len m \<le> i \<and> i < length (mm_bytes m) \<longrightarrow> mm_bytes m ! i = 0)"

text \<open>The memory as a function: zero where nothing was written.\<close>

definition mem_at :: "Memory \<Rightarrow> nat \<Rightarrow> u8" where
  "mem_at m i = (if i < length (mm_bytes m) then mm_bytes m ! i else 0)"

definition ceil32 :: "nat \<Rightarrow> nat" where "ceil32 n = (n + 31) div 32 * 32"

lemma ceil_ge: "0 < k \<Longrightarrow> n \<le> (n + (k - 1)) div k * k" for n k :: nat
proof -
  assume "0 < k"
  then have "(n + (k - 1)) mod k < k" by simp
  moreover have "(n + (k - 1)) div k * k + (n + (k - 1)) mod k = n + (k - 1)" by simp
  ultimately show ?thesis by linarith
qed

lemma ceil_le: "0 < k \<Longrightarrow> m mod k = 0 \<Longrightarrow> n \<le> m \<Longrightarrow> (n + (k - 1)) div k * k \<le> m" for m n k :: nat
proof -
  assume "0 < k" "m mod k = 0" "n \<le> m"
  moreover then obtain q where q: "m = k * q" by (auto simp: mod_eq_0_iff_dvd)
  ultimately have "n + (k - 1) < (q + 1) * k" by (simp add: mult.commute)
  then have "(n + (k - 1)) div k < q + 1" by (rule less_mult_imp_div_less)
  then have "(n + (k - 1)) div k * k \<le> q * k" by (intro mult_le_mono1) linarith
  then show ?thesis unfolding q by (simp only: mult.commute)
qed

lemma memory_inv_default: "memory_inv memory_default" "mem_at memory_default i = 0"
  by (simp_all add: memory_inv_def memory_default_def mem_at_def)

lemma expand_spec:
  assumes "memory_inv m"
  shows "if sz \<noteq> 0 \<and> MEMORY_LIMIT < offset + sz then expand offset sz m = Err VOutOfMemory
    else \<exists>m'. expand offset sz m = Ok m' \<and> memory_inv m' \<and> (\<forall>i. mem_at m' i = mem_at m i) \<and>
      mm_soft_len m' = (if sz = 0 then mm_soft_len m else max (mm_soft_len m) (ceil32 (offset + sz))) \<and>
      (sz \<noteq> 0 \<longrightarrow> offset + sz \<le> mm_soft_len m')"
proof (cases "sz \<noteq> 0 \<and> offset + sz \<le> MEMORY_LIMIT")
  case True
  define soft phys where s: "soft = ceil32 (offset + sz)" "phys = (offset + sz + 1023) div 1024 * 1024"
  have bounds: "offset + sz \<le> soft" "offset + sz \<le> phys" "soft \<le> 3145728" "phys \<le> 3145728" "soft \<le> phys" "soft mod 32 = 0" "phys mod 1024 = 0" "phys mod 32 = 0"
  proof -
    show "offset + sz \<le> soft" "offset + sz \<le> phys" "soft mod 32 = 0" "phys mod 1024 = 0"
      using ceil_ge [of 32 "offset + sz"] ceil_ge [of 1024 "offset + sz"] by (simp_all add: s ceil32_def)
    show phys32: "phys mod 32 = 0" using mod_mult_self1_is_0 [of "32 * ((offset + sz + 1023) div 1024)" 32] by (simp add: s mult.assoc)
    show "soft \<le> 3145728" "phys \<le> 3145728" "soft \<le> phys"
      using True ceil_le [of 32 3145728 "offset + sz"] ceil_le [of 1024 3145728 "offset + sz"] ceil_le [of 32 phys "offset + sz"] phys32 ceil_ge [of 1024 "offset + sz"]
      by (simp_all add: s ceil32_def)
  qed
  let ?m = "\<lparr> mm_bytes = mm_bytes m @ replicate (phys - length (mm_bytes m)) 0, mm_soft_len = max (mm_soft_len m) soft \<rparr>"
  have "expand offset sz m = Ok ?m"
    using True by (cases m) (simp add: expand_def usize_checked_add_def Let_def s ceil32_def max_def)
  moreover have "memory_inv ?m"
    using assms bounds by (auto simp: memory_inv_def nth_append max_def)
  ultimately show ?thesis using True assms bounds s by (auto simp: mem_at_def nth_append max_def)
next
  case False
  then show ?thesis using assms by (auto simp: expand_def usize_checked_add_def)
qed

lemma expand_Ok:
  assumes "memory_inv m" "expand offset sz m = Ok m'"
  shows "memory_inv m'" "mem_at m' i = mem_at m i" "mm_soft_len m' = (if sz = 0 then mm_soft_len m else max (mm_soft_len m) (ceil32 (offset + sz)))"
    "sz \<noteq> 0 \<Longrightarrow> offset + sz \<le> mm_soft_len m'"
  using expand_spec [OF assms(1), of sz offset] assms(2) by (auto split: if_splits)

lemma splice_at:
  assumes "offset + length data \<le> length bs"
  shows "length (splice offset data bs) = length bs"
    "i < length bs \<Longrightarrow> splice offset data bs ! i = (if offset \<le> i \<and> i < offset + length data then data ! (i - offset) else bs ! i)"
  using assms by (auto simp: splice_def nth_append min_def)

lemma splice_spec:
  assumes "memory_inv m" "offset + length data \<le> mm_soft_len m"
  defines "m' \<equiv> m\<lparr> mm_bytes := splice offset data (mm_bytes m) \<rparr>"
  shows "memory_inv m'" "mem_at m' i = (if offset \<le> i \<and> i < offset + length data then data ! (i - offset) else mem_at m i)"
proof -
  have len: "offset + length data \<le> length (mm_bytes m)" using assms(1,2) by (simp add: memory_inv_def)
  note at = splice_at [OF len]
  show "memory_inv m'" using assms(1,2) at by (auto simp: memory_inv_def m'_def)
  show "mem_at m' i = (if offset \<le> i \<and> i < offset + length data then data ! (i - offset) else mem_at m i)"
    using at len by (auto simp: mem_at_def m'_def)
qed

lemma length_padded_slice: "length (padded_slice source source_offset sz) = sz"
  by (auto simp: padded_slice_def Let_def)

lemma padded_slice_at:
  "i < sz \<Longrightarrow> padded_slice source source_offset sz ! i = (if source_offset + i < length source then source ! (source_offset + i) else 0)"
  by (auto simp: padded_slice_def Let_def nth_append)

lemma memory_range: "memory_inv m \<Longrightarrow> offset + sz \<le> mm_soft_len m \<Longrightarrow> take sz (drop offset (mm_bytes m)) = map (mem_at m) [offset..<offset + sz]"
  by (intro nth_equalityI) (auto simp: memory_inv_def mem_at_def)

lemma memory_write_Ok:
  assumes "memory_inv m" "memory_write offset data m = Ok m'"
  shows "memory_inv m'" "mem_at m' i = (if offset \<le> i \<and> i < offset + length data then data ! (i - offset) else mem_at m i)"
proof -
  obtain m1 where m1: "expand offset (length data) m = Ok m1"
      "m' = (if data \<noteq> [] then m1\<lparr> mm_bytes := splice offset data (mm_bytes m1) \<rparr> else m1)"
    using assms(2) by (auto simp: memory_write_def and_then_Ok)
  note e = expand_Ok [OF assms(1) m1(1)]
  show "memory_inv m'" "mem_at m' i = (if offset \<le> i \<and> i < offset + length data then data ! (i - offset) else mem_at m i)"
    using m1(2) e splice_spec [OF e(1), of offset data] by auto
qed

lemma write_padded_Ok:
  assumes "memory_inv m" "write_padded offset sz source source_offset m = Ok m'"
  shows "memory_inv m'" "mem_at m' i =
    (if offset \<le> i \<and> i < offset + sz then if source_offset + (i - offset) < length source then source ! (source_offset + (i - offset)) else 0
     else mem_at m i)"
proof -
  obtain m1 where m1: "expand offset sz m = Ok m1"
      "m' = (if sz = 0 then m1 else m1\<lparr> mm_bytes := splice offset (padded_slice source source_offset sz) (mm_bytes m1) \<rparr>)"
    using assms(2) by (auto simp: write_padded_def and_then_Ok)
  note e = expand_Ok [OF assms(1) m1(1)]
  have s: "memory_inv m'" "mem_at m' i = (if offset \<le> i \<and> i < offset + sz then padded_slice source source_offset sz ! (i - offset) else mem_at m i)"
    using m1(2) e splice_spec [OF e(1), of offset "padded_slice source source_offset sz"] by (auto simp: length_padded_slice)
  show "memory_inv m'" by (rule s(1))
  show "mem_at m' i =
    (if offset \<le> i \<and> i < offset + sz then if source_offset + (i - offset) < length source then source ! (source_offset + (i - offset)) else 0
     else mem_at m i)"
    using s(2) padded_slice_at [of "i - offset" sz source source_offset] by auto
qed

lemma memory_read_Ok:
  assumes "memory_inv m" "memory_read offset sz m = Ok (bs, m')"
  shows "memory_inv m'" "mem_at m' i = mem_at m i" "bs = map (mem_at m) [offset..<offset + sz]"
proof -
  have m1: "expand offset sz m = Ok m'" "bs = (if sz = 0 then [] else take sz (drop offset (mm_bytes m')))"
    using assms(2) by (auto simp: memory_read_def and_then_Ok)
  note e = expand_Ok [OF assms(1) m1(1)]
  show "memory_inv m'" "mem_at m' i = mem_at m i" by (rule e)+
  show "bs = map (mem_at m) [offset..<offset + sz]" using m1(2) e memory_range [OF e(1), of offset sz] by auto
qed

lemma copy_within_Ok:
  assumes "memory_inv m" "copy_within dst src sz m = Ok m'"
  shows "memory_inv m'" "mem_at m' i = (if dst \<le> i \<and> i < dst + sz then mem_at m (src + (i - dst)) else mem_at m i)"
proof -
  have "memory_inv m' \<and> mem_at m' i = (if dst \<le> i \<and> i < dst + sz then mem_at m (src + (i - dst)) else mem_at m i)"
  proof (cases "sz = 0")
    case False
    then obtain m1 m2 where m1: "expand src sz m = Ok m1" and m2: "expand dst sz m1 = Ok m2"
        and m': "m' = m2\<lparr> mm_bytes := splice dst (take sz (drop src (mm_bytes m2))) (mm_bytes m2) \<rparr>"
      using assms(2) by (auto simp: copy_within_def and_then_Ok)
    note e1 = expand_Ok [OF assms(1) m1] and e2 = expand_Ok [OF expand_Ok(1) [OF assms(1) m1] m2]
    have src: "src + sz \<le> mm_soft_len m2" using e1(4) e2(3) False by simp
    note r = memory_range [OF e2(1) src]
    show ?thesis using splice_spec [OF e2(1), of dst "take sz (drop src (mm_bytes m2))"] e2 e1 False m' r by auto
  qed (use assms in \<open>auto simp: copy_within_def\<close>)
  then show "memory_inv m'" "mem_at m' i = (if dst \<le> i \<and> i < dst + sz then mem_at m (src + (i - dst)) else mem_at m i)" by auto
qed

lemma expand_Err:
  assumes "memory_inv m" "expand offset sz m = Err e"
  shows "e = VOutOfMemory" "sz \<noteq> 0" "MEMORY_LIMIT < offset + sz"
  using expand_spec [OF assms(1), of sz offset] assms(2) by (auto split: if_splits)

section \<open>Jump destinations\<close>

definition push_len :: "u8 \<Rightarrow> nat" where
  "push_len opcode = (if 0x60 \<le> opcode \<and> opcode \<le> 0x7f then unat (opcode - 0x5f) else 0)"

text \<open>\<open>instr_from code i j\<close>: reading instructions from \<open>i\<close> on, one begins at \<open>j\<close>.\<close>

inductive instr_from :: "bytes \<Rightarrow> nat \<Rightarrow> nat \<Rightarrow> bool" for code where
  here: "instr_from code i i"
| later: "i < length code \<Longrightarrow> instr_from code (i + 1 + push_len (code ! i)) j \<Longrightarrow> instr_from code i j"

inductive_simps instr_from_iff: "instr_from code i j"

lemma instr_from_le: "instr_from code i j \<Longrightarrow> i \<le> j"
  by (induction rule: instr_from.induct) auto

lemma instr_from_gap:
  assumes "instr_from code a i" "instr_from code a j" "i < j" "i < length code"
  shows "i + 1 + push_len (code ! i) \<le> j"
  using assms
proof (induction arbitrary: j rule: instr_from.induct)
  case (here i)
  then show ?case using instr_from_iff [of code i j] instr_from_le by auto
next
  case (later a i)
  then show ?case using instr_from_iff [of code a j] instr_from_le [OF later.hyps(2)] by auto
qed

lemma push_len_bound: "push_len opcode \<le> 32"
proof -
  have "unat (opcode - 0x5f) \<le> 32" if "0x60 \<le> opcode" "opcode \<le> 0x7f"
  proof -
    have "unat opcode \<le> 127" "96 \<le> unat opcode" using that by (simp_all add: word_le_nat_alt)
    moreover then have "unat (opcode - 0x5f) = unat opcode - 95" by (subst unat_sub) (simp_all add: word_le_nat_alt)
    ultimately show ?thesis by simp
  qed
  then show ?thesis by (simp add: push_len_def)
qed

lemma scan_jumpdests_exact:
  assumes "length code + 33 \<le> usize_max"
  shows "j \<in> set (scan_jumpdests code i) \<longleftrightarrow> instr_from code i j \<and> j < length code \<and> code ! j = 0x5b"
  using assms
proof (induction code i rule: scan_jumpdests.induct)
  case (1 code i)
  show ?case
  proof (cases "i < length code")
    case True
    let ?next = "i + 1 + push_len (code ! i)"
    have "usize_saturating_add (i + 1) (unat (code ! i - 0x5f)) = i + 1 + unat (code ! i - 0x5f)" if "0x60 \<le> code ! i" "code ! i \<le> 0x7f"
      using 1(2) True push_len_bound [of "code ! i"] that by (simp add: usize_saturating_add_def push_len_def)
    then have n: "(if 0x60 \<le> code ! i \<and> code ! i \<le> 0x7f then usize_saturating_add (i + 1) (unat (code ! i - 0x5f)) else i + 1) = ?next"
      by (auto simp: push_len_def)
    have unroll: "scan_jumpdests code i = (if code ! i = 0x5b then [i] else []) @ scan_jumpdests code ?next"
      using True by (subst scan_jumpdests.simps) (simp add: Let_def n)
    have "j \<in> set (scan_jumpdests code ?next) \<longleftrightarrow> instr_from code ?next j \<and> j < length code \<and> code ! j = 0x5b"
      using 1(1) [OF True refl refl] 1(2) n by simp
    then show ?thesis using unroll True instr_from_iff [of code i j] by auto
  qed (use instr_from_le [of code i j] in \<open>auto simp: scan_jumpdests.simps\<close>)
qed

section \<open>The meter\<close>

definition meter_inv :: "EnergyMeter \<Rightarrow> bool" where
  "meter_inv m \<longleftrightarrow> 0 \<le> em_used m \<and> em_used m \<le> em_limit m \<and> in_i64 (em_limit m)"

lemma spend_meter:
  assumes "meter_inv m" "spend amount m = (m', r)"
  shows "meter_inv m'" "em_limit m' = em_limit m" "em_used m \<le> em_used m'"
    "r = Ok () \<Longrightarrow> 0 \<le> amount \<and> em_used m' = em_used m + amount"
  using assms by (auto simp: spend_def meter_inv_def split: if_splits option.splits)

section \<open>Properties\<close>

text \<open>C3: the jump destinations of a program are exactly the JUMPDEST bytes at which an instruction begins
  when the code is read from the start, so no byte inside the immediate of a PUSH is one.\<close>

theorem jumpdests_exact:
  assumes "length code + 33 \<le> usize_max"
  shows "(is_jumpdest (program_new code) pc \<longleftrightarrow> instr_from code 0 pc \<and> pc < length code \<and> code ! pc = 0x5b) \<and>
    (instr_from code 0 i \<and> i < length code \<and> i < pc \<and> pc \<le> i + push_len (code ! i) \<longrightarrow> \<not> is_jumpdest (program_new code) pc)"
proof -
  have iff: "is_jumpdest (program_new code) pc \<longleftrightarrow> instr_from code 0 pc \<and> pc < length code \<and> code ! pc = 0x5b"
    by (simp add: is_jumpdest_def program_new_def scan_jumpdests_exact [OF assms])
  then show ?thesis using instr_from_gap [of code 0 i pc] by auto
qed

theorem jumpdests_exact_witness:
  "is_jumpdest (program_new [0x61, 0x5b, 0x5b, 0x5b]) 3 \<and> \<not> is_jumpdest (program_new [0x61, 0x5b, 0x5b, 0x5b]) 2"
proof -
  let ?code = "[0x61, 0x5b, 0x5b, 0x5b] :: bytes"
  have len: "length ?code + 33 \<le> usize_max" by simp
  have "push_len 0x61 = 2" by (simp add: push_len_def)
  then have "instr_from ?code 0 3" by (intro instr_from.later [of 0]) (simp_all add: instr_from.here numeral_3_eq_3)
  then show ?thesis
    using jumpdests_exact [OF len, of 3 0] jumpdests_exact [OF len, of 2 0] instr_from.here [of ?code 0] \<open>push_len 0x61 = 2\<close>
    by auto
qed

text \<open>When an access to a range is refused, and the soft length after one that is not.\<close>

definition beyond :: "nat \<Rightarrow> nat \<Rightarrow> bool" where "beyond offset sz \<longleftrightarrow> sz \<noteq> 0 \<and> MEMORY_LIMIT < offset + sz"

definition soft_after :: "nat \<Rightarrow> nat \<Rightarrow> nat \<Rightarrow> nat" where
  "soft_after soft offset sz = (if sz = 0 then soft else max soft (ceil32 (offset + sz)))"

lemma expand_total:
  assumes "memory_inv m"
  shows "beyond offset sz \<Longrightarrow> expand offset sz m = Err VOutOfMemory"
    "\<not> beyond offset sz \<Longrightarrow> \<exists>m'. expand offset sz m = Ok m' \<and> memory_inv m' \<and> mm_soft_len m' = soft_after (mm_soft_len m) offset sz"
  using expand_spec [OF assms, of sz offset] by (auto simp: beyond_def soft_after_def)

lemma memory_write_total:
  assumes "memory_inv m"
  shows "if beyond offset (length data) then memory_write offset data m = Err VOutOfMemory
    else \<exists>m'. memory_write offset data m = Ok m' \<and> memory_inv m' \<and> mm_soft_len m' = soft_after (mm_soft_len m) offset (length data) \<and>
      (\<forall>i. mem_at m' i = (if offset \<le> i \<and> i < offset + length data then data ! (i - offset) else mem_at m i))"
proof (cases "beyond offset (length data)")
  case False
  then obtain m1 where m1: "expand offset (length data) m = Ok m1" "mm_soft_len m1 = soft_after (mm_soft_len m) offset (length data)"
    using expand_total [OF assms] by blast
  then obtain m' where m': "memory_write offset data m = Ok m'" "mm_soft_len m' = mm_soft_len m1" by (simp add: memory_write_def)
  then show ?thesis using False m1 memory_write_Ok [OF assms m'(1)] by auto
qed (use expand_total(1) [OF assms] in \<open>simp add: memory_write_def\<close>)

lemma write_padded_total:
  assumes "memory_inv m"
  shows "if beyond offset sz then write_padded offset sz source source_offset m = Err VOutOfMemory
    else \<exists>m'. write_padded offset sz source source_offset m = Ok m' \<and> memory_inv m' \<and> mm_soft_len m' = soft_after (mm_soft_len m) offset sz \<and>
      (\<forall>i. mem_at m' i = (if offset \<le> i \<and> i < offset + sz
        then if source_offset + (i - offset) < length source then source ! (source_offset + (i - offset)) else 0 else mem_at m i))"
proof (cases "beyond offset sz")
  case False
  then obtain m1 where m1: "expand offset sz m = Ok m1" "mm_soft_len m1 = soft_after (mm_soft_len m) offset sz"
    using expand_total [OF assms] by blast
  then obtain m' where m': "write_padded offset sz source source_offset m = Ok m'" "mm_soft_len m' = mm_soft_len m1" by (simp add: write_padded_def)
  then show ?thesis using False m1 write_padded_Ok [OF assms m'(1)] by auto
qed (use expand_total(1) [OF assms] in \<open>simp add: write_padded_def\<close>)

lemma memory_read_total:
  assumes "memory_inv m"
  shows "if beyond offset sz then memory_read offset sz m = Err VOutOfMemory
    else \<exists>m'. memory_read offset sz m = Ok (map (mem_at m) [offset..<offset + sz], m') \<and> memory_inv m' \<and>
      mm_soft_len m' = soft_after (mm_soft_len m) offset sz \<and> (\<forall>i. mem_at m' i = mem_at m i)"
proof (cases "beyond offset sz")
  case False
  then obtain m1 where m1: "expand offset sz m = Ok m1" "mm_soft_len m1 = soft_after (mm_soft_len m) offset sz"
    using expand_total [OF assms] by blast
  then obtain bs where bs: "memory_read offset sz m = Ok (bs, m1)" by (simp add: memory_read_def)
  then show ?thesis using False m1 memory_read_Ok [OF assms bs] by auto
qed (use expand_total(1) [OF assms] in \<open>simp add: memory_read_def\<close>)

lemma copy_within_total:
  assumes "memory_inv m"
  shows "if beyond dst sz \<or> beyond src sz then copy_within dst src sz m = Err VOutOfMemory
    else \<exists>m'. copy_within dst src sz m = Ok m' \<and> memory_inv m' \<and> mm_soft_len m' = soft_after (soft_after (mm_soft_len m) src sz) dst sz \<and>
      (\<forall>i. mem_at m' i = (if dst \<le> i \<and> i < dst + sz then mem_at m (src + (i - dst)) else mem_at m i))"
proof (cases "sz = 0 \<or> beyond src sz")
  case True
  then show ?thesis using assms expand_total(1) [OF assms, of src sz] by (auto simp: beyond_def copy_within_def soft_after_def)
next
  case False
  then obtain m1 where m1: "expand src sz m = Ok m1" "memory_inv m1" "mm_soft_len m1 = soft_after (mm_soft_len m) src sz"
    using expand_total(2) [OF assms, of src sz] by blast
  show ?thesis
  proof (cases "beyond dst sz")
    case True
    then show ?thesis using False m1(1) expand_total(1) [OF m1(2) True] by (simp add: copy_within_def)
  next
    case inside: False
    then obtain m2 where m2: "expand dst sz m1 = Ok m2" "mm_soft_len m2 = soft_after (mm_soft_len m1) dst sz" using expand_total(2) [OF m1(2)] by blast
    then obtain m' where m': "copy_within dst src sz m = Ok m'" "mm_soft_len m' = mm_soft_len m2" using False m1(1) by (simp add: copy_within_def)
    then show ?thesis using False inside m1 m2 copy_within_Ok [OF assms m'(1)] by auto
  qed
qed

text \<open>C4: the memory is a function from addresses to bytes that is zero where nothing was written. A write, a
  padded copy, a read and a move fail with \<open>OutOfMemory\<close> exactly when a non-empty range of theirs ends beyond
  three mebibytes; otherwise they act on exactly their range and the soft length grows to the next multiple of
  32 at its end and no further.\<close>

theorem memory_refines:
  assumes "memory_inv m"
  shows "(if beyond offset (length data) then memory_write offset data m = Err VOutOfMemory
      else \<exists>m'. memory_write offset data m = Ok m' \<and> memory_inv m' \<and> mm_soft_len m' = soft_after (mm_soft_len m) offset (length data) \<and>
        (\<forall>i. mem_at m' i = (if offset \<le> i \<and> i < offset + length data then data ! (i - offset) else mem_at m i))) \<and>
    (if beyond offset sz then write_padded offset sz source source_offset m = Err VOutOfMemory
      else \<exists>m'. write_padded offset sz source source_offset m = Ok m' \<and> memory_inv m' \<and> mm_soft_len m' = soft_after (mm_soft_len m) offset sz \<and>
        (\<forall>i. mem_at m' i = (if offset \<le> i \<and> i < offset + sz
          then if source_offset + (i - offset) < length source then source ! (source_offset + (i - offset)) else 0 else mem_at m i))) \<and>
    (if beyond offset sz then memory_read offset sz m = Err VOutOfMemory
      else \<exists>m'. memory_read offset sz m = Ok (map (mem_at m) [offset..<offset + sz], m') \<and> memory_inv m' \<and>
        mm_soft_len m' = soft_after (mm_soft_len m) offset sz \<and> (\<forall>i. mem_at m' i = mem_at m i)) \<and>
    (if beyond offset sz \<or> beyond source_offset sz then copy_within offset source_offset sz m = Err VOutOfMemory
      else \<exists>m'. copy_within offset source_offset sz m = Ok m' \<and> memory_inv m' \<and>
        mm_soft_len m' = soft_after (soft_after (mm_soft_len m) source_offset sz) offset sz \<and>
        (\<forall>i. mem_at m' i = (if offset \<le> i \<and> i < offset + sz then mem_at m (source_offset + (i - offset)) else mem_at m i)))"
  by (intro conjI memory_write_total write_padded_total memory_read_total copy_within_total assms)

theorem memory_refines_witness:
  "(\<exists>m. memory_write 30 [1, 2, 3] memory_default = Ok m \<and> mem_at m 31 = 2 \<and> mem_at m 40 = 0 \<and> mm_soft_len m = 64) \<and>
   memory_read 3145728 1 memory_default = Err VOutOfMemory"
proof -
  note spec = memory_refines [OF memory_inv_default(1)]
  have far: "memory_read 3145728 1 memory_default = Err VOutOfMemory"
    using conjunct1 [OF conjunct2 [OF conjunct2 [OF spec [of 3145728 _ 1]]]] by (simp add: beyond_def)
  have near: "\<not> beyond 30 (length [1, 2, 3 :: u8])" by (simp add: beyond_def)
  obtain m where m: "memory_write 30 [1, 2, 3] memory_default = Ok m" "mm_soft_len m = soft_after (mm_soft_len memory_default) 30 3"
    "\<forall>i. mem_at m i = (if 30 \<le> i \<and> i < 33 then [1, 2, 3] ! (i - 30) else mem_at memory_default i)"
    using conjunct1 [OF spec [of 30 "[1, 2, 3]"], unfolded if_not_P [OF near]] by (auto simp: numeral_3_eq_3)
  show ?thesis using far m(1,2) m(3) [rule_format, of 31] m(3) [rule_format, of 40] memory_inv_default(2)
    by (simp add: soft_after_def ceil32_def memory_default_def)
qed

end
