(* ===== verification/Tvm_Repository.thy ===== *)
theory Tvm_Repository
  imports Tvm_Machine Fork
begin

text \<open>
  The repository of the virtual machine, \<open>tron-tvm/src/repository.rs\<close>: a stack of journal layers over a
  session or a view of the state. A call opens a layer that is committed into its parent or revoked.
  \<open>BaseState\<close> is the lookup function of the state below; the transient storage and the set of new
  contracts are used as a map and a set. Writing needs a layer to write to; there always is one.
\<close>

section \<open>The journal\<close>

type_synonym StateKey = "StoreKind \<times> bytes"

datatype JournalValue = JPut bytes | JDelete

datatype ChildStorageMode = SharedStorage | CopiedStorage

record RepositoryDelta =
  rd_store :: StoreKind
  rd_key :: bytes
  rd_before :: "bytes option"
  rd_after :: "bytes option"

datatype RepositoryError =
    RInvalidChild | RDecode string | RInvalidDynamicValue string usize | RInvalidForkInterval | RForkTimestampOverflow

definition kind_index :: "StoreKind \<Rightarrow> nat" where
  "kind_index kind = (case position (\<lambda>k. k = kind) StoreKind_ALL of Some i \<Rightarrow> i | None \<Rightarrow> 0)"

text \<open>The derived order: the kinds in their order of declaration, then the keys.\<close>

definition cmp_state_key :: "StateKey \<Rightarrow> StateKey \<Rightarrow> ordering" where
  "cmp_state_key a b = then_with (cmp_lin (kind_index (fst a)) (kind_index (fst b))) (cmp_bytes (snd a) (snd b))"

record RepositoryLayer =
  ly_persistent :: "(StateKey, JournalValue) bt_map"
  ly_transient :: "bytes \<times> tword \<rightharpoonup> tword"
  ly_new_contracts :: "bytes set"
  ly_storage_mode :: "ChildStorageMode option"

definition layer_default :: RepositoryLayer where
  "layer_default = \<lparr> ly_persistent = [], ly_transient = Map.empty, ly_new_contracts = {}, ly_storage_mode = None \<rparr>"

record Repository =
  rp_base :: "StoreKind \<Rightarrow> bytes \<Rightarrow> bytes option"
  rp_layers :: "RepositoryLayer list"
  rp_before :: "(StateKey, bytes option) bt_map"
  rp_blackhole :: bytes

definition repository_new :: "(StoreKind \<Rightarrow> bytes \<Rightarrow> bytes option) \<Rightarrow> Repository" where
  "repository_new base =
     \<lparr> rp_base = base, rp_layers = [layer_default], rp_before = [], rp_blackhole = 0x41 # replicate 20 0x41 \<rparr>"

definition set_blackhole_address :: "bytes \<Rightarrow> Repository \<Rightarrow> Repository" where
  "set_blackhole_address a r = r\<lparr> rp_blackhole := a \<rparr>"

fun find_map :: "('a \<Rightarrow> 'b option) \<Rightarrow> 'a list \<Rightarrow> 'b option" where
  "find_map f [] = None"
| "find_map f (x # xs) = (case f x of Some y \<Rightarrow> Some y | None \<Rightarrow> find_map f xs)"

fun map_last :: "('a \<Rightarrow> 'a) \<Rightarrow> 'a list \<Rightarrow> 'a list" where
  "map_last f [] = []"
| "map_last f [x] = [f x]"
| "map_last f (x # y # xs) = x # map_last f (y # xs)"

fun journal_result :: "JournalValue \<Rightarrow> bytes option" where
  "journal_result (JPut v) = Some v"
| "journal_result JDelete = None"

definition repo_raw :: "Repository \<Rightarrow> StoreKind \<Rightarrow> bytes \<Rightarrow> bytes option" where
  "repo_raw r store key =
     (case find_map (\<lambda>layer. bt_get (ly_persistent layer) (store, key)) (rev (rp_layers r)) of
        Some v \<Rightarrow> journal_result v
      | None \<Rightarrow> rp_base r store key)"

definition repo_write :: "StoreKind \<Rightarrow> bytes \<Rightarrow> JournalValue \<Rightarrow> Repository \<Rightarrow> Repository" where
  "repo_write store key v r =
     (let state = (store, key);
          r = (if bt_get (rp_before r) state = None
               then r\<lparr> rp_before := bt_insert cmp_state_key state (repo_raw r store key) (rp_before r) \<rparr> else r)
      in r\<lparr> rp_layers := map_last (\<lambda>l. l\<lparr> ly_persistent := bt_insert cmp_state_key state v (ly_persistent l) \<rparr>) (rp_layers r) \<rparr>)"

definition put_raw :: "StoreKind \<Rightarrow> bytes \<Rightarrow> bytes \<Rightarrow> Repository \<Rightarrow> Repository" where
  "put_raw store key v = repo_write store key (JPut v)"

definition delete_raw :: "StoreKind \<Rightarrow> bytes \<Rightarrow> Repository \<Rightarrow> Repository" where
  "delete_raw store key = repo_write store key JDelete"

definition begin_child :: "ChildStorageMode \<Rightarrow> Repository \<Rightarrow> usize \<times> Repository" where
  "begin_child mode r =
     (let r = r\<lparr> rp_layers := rp_layers r @ [layer_default\<lparr> ly_storage_mode := Some mode \<rparr>] \<rparr>
      in (length (rp_layers r) - 1, r))"

definition merge_journal :: "RepositoryLayer \<Rightarrow> RepositoryLayer \<Rightarrow> RepositoryLayer" where
  "merge_journal kid parent =
     parent\<lparr> ly_persistent := bt_extend cmp_state_key (ly_persistent kid) (ly_persistent parent),
             ly_transient := ly_transient parent ++ ly_transient kid,
             ly_new_contracts := ly_new_contracts parent \<union> ly_new_contracts kid \<rparr>"

definition commit_child :: "usize \<Rightarrow> Repository \<Rightarrow> Repository \<times> (unit, RepositoryError) result" where
  "commit_child i r =
     (if i + 1 \<noteq> length (rp_layers r) \<or> i = 0 then (r, Err RInvalidChild)
      else (r\<lparr> rp_layers := map_last (merge_journal (last (rp_layers r))) (butlast (rp_layers r)) \<rparr>, Ok ()))"

definition revoke_child :: "usize \<Rightarrow> Repository \<Rightarrow> Repository \<times> (unit, RepositoryError) result" where
  "revoke_child i r =
     (if i + 1 \<noteq> length (rp_layers r) \<or> i = 0 then (r, Err RInvalidChild)
      else (r\<lparr> rp_layers := butlast (rp_layers r) \<rparr>, Ok ()))"

definition child_storage_mode :: "Repository \<Rightarrow> ChildStorageMode option" where
  "child_storage_mode r = (if rp_layers r = [] then None else ly_storage_mode (last (rp_layers r)))"

definition repo_transient :: "Repository \<Rightarrow> bytes \<Rightarrow> tword \<Rightarrow> tword" where
  "repo_transient r a slot =
     (case find_map (\<lambda>l. ly_transient l (a, slot)) (rev (rp_layers r)) of Some v \<Rightarrow> v | None \<Rightarrow> word_ZERO)"

definition set_transient :: "bytes \<Rightarrow> tword \<Rightarrow> tword \<Rightarrow> Repository \<Rightarrow> Repository" where
  "set_transient a slot v r =
     r\<lparr> rp_layers := map_last (\<lambda>l. l\<lparr> ly_transient := (ly_transient l)((a, slot) \<mapsto> v) \<rparr>) (rp_layers r) \<rparr>"

definition mark_new_contract :: "bytes \<Rightarrow> Repository \<Rightarrow> Repository" where
  "mark_new_contract a r =
     r\<lparr> rp_layers := map_last (\<lambda>l. l\<lparr> ly_new_contracts := insert a (ly_new_contracts l) \<rparr>) (rp_layers r) \<rparr>"

definition is_new_contract :: "Repository \<Rightarrow> bytes \<Rightarrow> bool" where
  "is_new_contract r a = list_ex (\<lambda>l. a \<in> ly_new_contracts l) (rp_layers r)"

definition repo_deltas :: "Repository \<Rightarrow> RepositoryDelta list" where
  "repo_deltas r =
     filter (\<lambda>d. rd_before d \<noteq> rd_after d)
       (map (\<lambda>(k, b). \<lparr> rd_store = fst k, rd_key = snd k, rd_before = b, rd_after = repo_raw r (fst k) (snd k) \<rparr>) (rp_before r))"

section \<open>The order of state keys\<close>

lemma kind_index_nth: "StoreKind_ALL ! kind_index k = k"
proof -
  have "k \<in> set StoreKind_ALL" by (cases k) (simp_all add: StoreKind_ALL_def)
  then have "position (\<lambda>x. x = k) StoreKind_ALL \<noteq> None" by auto
  then obtain i where "position (\<lambda>x. x = k) StoreKind_ALL = Some i" by blast
  then show ?thesis using position_Some by (fastforce simp: kind_index_def)
qed

lemma kind_index_inj: "kind_index a = kind_index b \<longleftrightarrow> a = b"
  by (metis kind_index_nth)

interpretation skey: rust_ord cmp_state_key UNIV
proof
  show "cmp_state_key a b = Equal \<longleftrightarrow> a = b" for a b
    by (cases a; cases b) (auto simp: cmp_state_key_def then_with_def kind_index_inj bytes.cmp_eq split: ordering.splits)
  show "cmp_state_key a b = Greater \<longleftrightarrow> cmp_state_key b a = Less" for a b
    using bytes.cmp_swap [of "snd a" "snd b"]
    by (auto simp: cmp_state_key_def then_with_def cmp_lin_def split: ordering.splits if_splits)
  show "cmp_state_key a c = Less" if "cmp_state_key a b = Less" "cmp_state_key b c = Less" for a b c
    using that bytes.cmp_trans [of "snd a" "snd b" "snd c"]
    by (auto simp: cmp_state_key_def then_with_def cmp_lin_def split: ordering.splits if_splits)
qed

lemmas skey_get_insert [simp, bt_simps] = skey.get_insert [simplified]
lemmas skey_wf_insert [simp] = skey.wf_insert [simplified]

section \<open>The contents seen through the layers\<close>

text \<open>What a layer stack shows: the rows, the transient slots and the contracts created so far.\<close>

type_synonym vm_view = "(StateKey \<Rightarrow> bytes option) \<times> (bytes \<times> tword \<Rightarrow> tword) \<times> bytes set"

definition apply_layer :: "RepositoryLayer \<Rightarrow> vm_view \<Rightarrow> vm_view" where
  "apply_layer l v = (case v of (rows, slots, fresh) \<Rightarrow>
     (\<lambda>k. case bt_get (ly_persistent l) k of Some j \<Rightarrow> journal_result j | None \<Rightarrow> rows k,
      \<lambda>k. case ly_transient l k of Some w \<Rightarrow> w | None \<Rightarrow> slots k,
      fresh \<union> ly_new_contracts l))"

definition base_view :: "Repository \<Rightarrow> vm_view" where
  "base_view r = (\<lambda>k. rp_base r (fst k) (snd k), \<lambda>_. 0, {})"

definition layers_view :: "Repository \<Rightarrow> RepositoryLayer list \<Rightarrow> vm_view" where
  "layers_view r ls = fold apply_layer ls (base_view r)"

definition repo_view :: "Repository \<Rightarrow> vm_view" where "repo_view r = layers_view r (rp_layers r)"

definition repo_views :: "Repository \<Rightarrow> vm_view list" where
  "repo_views r = map (\<lambda>n. layers_view r (take (Suc n) (rp_layers r))) [0..<length (rp_layers r)]"

lemma layers_view_snoc [simp]: "layers_view r (ls @ [l]) = apply_layer l (layers_view r ls)"
  by (simp add: layers_view_def)

lemma layers_view_snoc2 [simp]: "layers_view r (ls @ [p, c]) = apply_layer c (apply_layer p (layers_view r ls))"
  by (simp add: layers_view_def)

lemma find_map_snoc [simp]: "find_map f (xs @ ys) = (case find_map f xs of Some y \<Rightarrow> Some y | None \<Rightarrow> find_map f ys)"
  by (induction xs) (auto split: option.splits)

lemma layers_view_lookup:
  "fst (layers_view r ls) k = (case find_map (\<lambda>l. bt_get (ly_persistent l) k) (rev ls) of Some j \<Rightarrow> journal_result j | None \<Rightarrow> rp_base r (fst k) (snd k))"
  "fst (snd (layers_view r ls)) a = (case find_map (\<lambda>l. ly_transient l a) (rev ls) of Some w \<Rightarrow> w | None \<Rightarrow> 0)"
  "snd (snd (layers_view r ls)) = \<Union> (ly_new_contracts ` set ls)"
proof -
  have "fst (layers_view r ls) k = (case find_map (\<lambda>l. bt_get (ly_persistent l) k) (rev ls) of Some j \<Rightarrow> journal_result j | None \<Rightarrow> rp_base r (fst k) (snd k)) \<and>
    fst (snd (layers_view r ls)) a = (case find_map (\<lambda>l. ly_transient l a) (rev ls) of Some w \<Rightarrow> w | None \<Rightarrow> 0) \<and>
    snd (snd (layers_view r ls)) = \<Union> (ly_new_contracts ` set ls)"
  proof (induction ls rule: rev_induct)
    case (snoc l ls)
    then show ?case by (cases "layers_view r ls") (auto simp: apply_layer_def split: option.splits)
  qed (simp add: layers_view_def base_view_def)
  then show "fst (layers_view r ls) k = (case find_map (\<lambda>l. bt_get (ly_persistent l) k) (rev ls) of Some j \<Rightarrow> journal_result j | None \<Rightarrow> rp_base r (fst k) (snd k))"
    "fst (snd (layers_view r ls)) a = (case find_map (\<lambda>l. ly_transient l a) (rev ls) of Some w \<Rightarrow> w | None \<Rightarrow> 0)"
    "snd (snd (layers_view r ls)) = \<Union> (ly_new_contracts ` set ls)" by auto
qed

text \<open>Reads depend on the view only.\<close>

lemma read_view:
  "repo_raw r store key = fst (repo_view r) (store, key)"
  "repo_transient r a slot = fst (snd (repo_view r)) (a, slot)"
  "is_new_contract r a \<longleftrightarrow> a \<in> snd (snd (repo_view r))"
  by (auto simp: repo_raw_def repo_transient_def is_new_contract_def repo_view_def layers_view_lookup list_ex_iff split: option.splits)

lemma map_last_snoc [simp]: "map_last f (xs @ [x]) = xs @ [f x]"
  by (induction xs rule: list.induct) (auto simp: neq_Nil_conv elim!: map_last.elims)

lemma map_last_append: "xs \<noteq> [] \<Longrightarrow> map_last f xs = butlast xs @ [f (last xs)]"
  by (cases xs rule: rev_cases) auto

lemma length_map_last [simp]: "length (map_last f xs) = length xs"
  by (cases xs rule: rev_cases) auto

lemma map_last_Nil [simp]: "map_last f xs = [] \<longleftrightarrow> xs = []"
  by (cases xs rule: rev_cases) auto

lemma repo_views_snoc:
  assumes "rp_layers r = ls @ [l]"
  shows "repo_views r = map (\<lambda>n. layers_view r (take (Suc n) ls)) [0..<length ls] @ [repo_view r]"
  using assms by (auto simp: repo_views_def repo_view_def)

lemma layers_view_cong: "rp_base r = rp_base r' \<Longrightarrow> layers_view r = layers_view r'"
  by (simp add: layers_view_def base_view_def fun_eq_iff)

section \<open>The invariant\<close>

definition journal_keys :: "Repository \<Rightarrow> StateKey set" where
  "journal_keys r = (\<Union>l\<in>set (rp_layers r). dom (bt_get (ly_persistent l)))"

definition repo_inv :: "Repository \<Rightarrow> bool" where
  "repo_inv r \<longleftrightarrow> rp_layers r \<noteq> [] \<and> (\<forall>l\<in>set (rp_layers r). bt_wf cmp_state_key (ly_persistent l)) \<and>
     bt_wf cmp_state_key (rp_before r) \<and> journal_keys r \<subseteq> dom (bt_get (rp_before r)) \<and>
     (\<forall>k b. bt_get (rp_before r) k = Some b \<longrightarrow> b = rp_base r (fst k) (snd k))"

lemma repo_inv_new: "repo_inv (repository_new base)" "repo_view (repository_new base) = (\<lambda>k. base (fst k) (snd k), \<lambda>_. 0, {})"
  by (simp_all add: repo_inv_def repository_new_def layer_default_def journal_keys_def repo_view_def layers_view_def apply_layer_def base_view_def)

lemma repo_layers_snoc: "repo_inv r \<Longrightarrow> \<exists>ls l. rp_layers r = ls @ [l]"
  by (cases "rp_layers r" rule: rev_cases) (auto simp: repo_inv_def)

lemma raw_unjournaled: "(store, key) \<notin> journal_keys r \<Longrightarrow> repo_raw r store key = rp_base r store key"
proof -
  assume "(store, key) \<notin> journal_keys r"
  then have "find_map (\<lambda>l. bt_get (ly_persistent l) (store, key)) (rev ls) = None" if "set ls \<subseteq> set (rp_layers r)" for ls
    using that by (induction ls) (auto simp: journal_keys_def split: option.splits)
  then show ?thesis by (simp add: repo_raw_def)
qed

definition same_frame :: "Repository \<Rightarrow> Repository \<Rightarrow> bool" where
  "same_frame r r' \<longleftrightarrow> rp_base r' = rp_base r \<and> length (rp_layers r') = length (rp_layers r) \<and> butlast (rp_layers r') = butlast (rp_layers r)"

lemma same_frame_refl [simp]: "same_frame r r" and same_frame_trans [trans]: "same_frame a b \<Longrightarrow> same_frame b c \<Longrightarrow> same_frame a c"
  by (auto simp: same_frame_def)

lemma repo_write_inv:
  assumes "repo_inv r"
  shows "repo_inv (repo_write store key v r)" "same_frame r (repo_write store key v r)"
    "repo_view (repo_write store key v r) = (case repo_view r of (rows, slots, fresh) \<Rightarrow> (rows((store, key) := journal_result v), slots, fresh))"
proof -
  obtain ls l where l: "rp_layers r = ls @ [l]" using repo_layers_snoc [OF assms] by auto
  let ?r = "repo_write store key v r"
  have layers: "rp_layers ?r = ls @ [l\<lparr> ly_persistent := bt_insert cmp_state_key (store, key) v (ly_persistent l) \<rparr>]"
    and base: "rp_base ?r = rp_base r"
    and bef: "rp_before ?r = (if bt_get (rp_before r) (store, key) = None then bt_insert cmp_state_key (store, key) (repo_raw r store key) (rp_before r) else rp_before r)"
    by (auto simp: repo_write_def Let_def l)
  have fresh: "repo_raw r store key = rp_base r store key" if "bt_get (rp_before r) (store, key) = None"
    using that assms by (intro raw_unjournaled) (auto simp: repo_inv_def)
  show "same_frame r ?r" by (simp add: same_frame_def layers base l)
  show "repo_inv ?r" using assms fresh unfolding repo_inv_def journal_keys_def layers base bef l
    by (auto split: if_splits) (blast intro: domI)+
  have "layers_view ?r = layers_view r" by (rule layers_view_cong) (rule base)
  then show "repo_view ?r = (case repo_view r of (rows, slots, fresh) \<Rightarrow> (rows((store, key) := journal_result v), slots, fresh))"
    by (cases "layers_view r ls") (auto simp: repo_view_def layers l apply_layer_def fun_eq_iff)
qed

lemma set_transient_inv:
  assumes "repo_inv r"
  shows "repo_inv (set_transient a slot w r)" "same_frame r (set_transient a slot w r)"
    "repo_view (set_transient a slot w r) = (case repo_view r of (rows, slots, fresh) \<Rightarrow> (rows, slots((a, slot) := w), fresh))"
proof -
  obtain ls l where l: "rp_layers r = ls @ [l]" using repo_layers_snoc [OF assms] by auto
  let ?r = "set_transient a slot w r"
  have layers: "rp_layers ?r = ls @ [l\<lparr> ly_transient := (ly_transient l)((a, slot) \<mapsto> w) \<rparr>]"
    and rest: "rp_base ?r = rp_base r" "rp_before ?r = rp_before r" by (simp_all add: set_transient_def l)
  show "same_frame r ?r" by (simp add: same_frame_def layers rest l)
  show "repo_inv ?r" using assms by (simp add: repo_inv_def journal_keys_def layers rest l)
  have "layers_view ?r = layers_view r" by (rule layers_view_cong) (rule rest)
  then show "repo_view ?r = (case repo_view r of (rows, slots, fresh) \<Rightarrow> (rows, slots((a, slot) := w), fresh))"
    by (cases "layers_view r ls") (auto simp: repo_view_def layers l apply_layer_def fun_eq_iff)
qed

lemma mark_new_contract_inv:
  assumes "repo_inv r"
  shows "repo_inv (mark_new_contract a r)" "same_frame r (mark_new_contract a r)"
    "repo_view (mark_new_contract a r) = (case repo_view r of (rows, slots, fresh) \<Rightarrow> (rows, slots, insert a fresh))"
proof -
  obtain ls l where l: "rp_layers r = ls @ [l]" using repo_layers_snoc [OF assms] by auto
  let ?r = "mark_new_contract a r"
  have layers: "rp_layers ?r = ls @ [l\<lparr> ly_new_contracts := insert a (ly_new_contracts l) \<rparr>]"
    and rest: "rp_base ?r = rp_base r" "rp_before ?r = rp_before r" by (simp_all add: mark_new_contract_def l)
  show "same_frame r ?r" by (simp add: same_frame_def layers rest l)
  show "repo_inv ?r" using assms by (simp add: repo_inv_def journal_keys_def layers rest l)
  have "layers_view ?r = layers_view r" by (rule layers_view_cong) (rule rest)
  then show "repo_view ?r = (case repo_view r of (rows, slots, fresh) \<Rightarrow> (rows, slots, insert a fresh))"
    by (cases "layers_view r ls") (auto simp: repo_view_def layers l apply_layer_def fun_eq_iff)
qed

lemma begin_child_inv:
  assumes "repo_inv r" "begin_child mode r = (i, r')"
  shows "repo_inv r'" "repo_view r' = repo_view r" "i = length (rp_layers r)" "rp_base r' = rp_base r"
    "rp_layers r' = rp_layers r @ [layer_default\<lparr> ly_storage_mode := Some mode \<rparr>]" "rp_before r' = rp_before r" "rp_blackhole r' = rp_blackhole r"
proof -
  have r': "r' = r\<lparr> rp_layers := rp_layers r @ [layer_default\<lparr> ly_storage_mode := Some mode \<rparr>] \<rparr>" "i = length (rp_layers r)"
    using assms(2) by (auto simp: begin_child_def Let_def)
  then show "i = length (rp_layers r)" "rp_base r' = rp_base r" "rp_before r' = rp_before r" "rp_blackhole r' = rp_blackhole r"
    "rp_layers r' = rp_layers r @ [layer_default\<lparr> ly_storage_mode := Some mode \<rparr>]" by auto
  show "repo_inv r'" using assms(1) by (auto simp: r' repo_inv_def journal_keys_def layer_default_def)
  have "layers_view r' = layers_view r" by (rule layers_view_cong) (simp add: r')
  then show "repo_view r' = repo_view r"
    by (cases "layers_view r (rp_layers r)") (auto simp: repo_view_def r' apply_layer_def layer_default_def)
qed

lemma apply_merge:
  assumes "bt_wf cmp_state_key (ly_persistent kid)"
  shows "apply_layer (merge_journal kid parent) v = apply_layer kid (apply_layer parent v)"
proof -
  have "distinct (map fst (ly_persistent kid))" using assms by (intro skey.wf_distinct) auto
  then have "bt_get (bt_extend cmp_state_key (ly_persistent kid) (ly_persistent parent)) = bt_get (ly_persistent parent) ++ bt_get (ly_persistent kid)"
    by (intro skey.get_extend) auto
  then show ?thesis by (cases v) (auto simp: apply_layer_def merge_journal_def map_add_def split: option.splits)
qed

lemma dom_merge: "dom (bt_get (ly_persistent (merge_journal kid parent))) = dom (bt_get (ly_persistent parent)) \<union> dom (bt_get (ly_persistent kid))"
  by (simp add: dom_map_of_conv_image_fst merge_journal_def skey.keys_extend)

lemma commit_child_inv:
  assumes "repo_inv r" "length (rp_layers r) = Suc i" "0 < i" "commit_child i r = (r', res)"
  shows "repo_inv r'" "repo_view r' = repo_view r" "res = Ok ()" "length (rp_layers r') = i"
    "butlast (rp_layers r') = butlast (butlast (rp_layers r))" "rp_base r' = rp_base r" "rp_blackhole r' = rp_blackhole r"
proof -
  obtain ls c where c: "rp_layers r = ls @ [c]" using repo_layers_snoc [OF assms(1)] by auto
  with assms(2,3) obtain ps p where p: "ls = ps @ [p]" by (cases ls rule: rev_cases) auto
  have r': "r' = r\<lparr> rp_layers := ps @ [merge_journal c p] \<rparr>" "res = Ok ()"
    using assms(2-4) by (auto simp: commit_child_def c p butlast_append)
  then show "res = Ok ()" "length (rp_layers r') = i" "butlast (rp_layers r') = butlast (butlast (rp_layers r))" "rp_base r' = rp_base r" "rp_blackhole r' = rp_blackhole r"
    using assms(2) by (simp_all add: c p butlast_append)
  have wf: "bt_wf cmp_state_key (ly_persistent c)" "bt_wf cmp_state_key (ly_persistent p)" using assms(1) by (auto simp: repo_inv_def c p)
  then have "bt_wf cmp_state_key (ly_persistent (merge_journal c p))" by (simp add: merge_journal_def skey.wf_extend)
  then show "repo_inv r'" using assms(1) dom_merge [of c p] by (auto simp: repo_inv_def journal_keys_def r' c p)
  have "layers_view r' = layers_view r" by (rule layers_view_cong) (simp add: r')
  then show "repo_view r' = repo_view r" by (simp add: repo_view_def r' c p apply_merge wf)
qed

lemma revoke_child_inv:
  assumes "repo_inv r" "length (rp_layers r) = Suc i" "0 < i" "revoke_child i r = (r', res)"
  shows "repo_inv r'" "res = Ok ()" "rp_layers r' = butlast (rp_layers r)" "rp_base r' = rp_base r" "rp_blackhole r' = rp_blackhole r"
    "repo_view r' = layers_view r (butlast (rp_layers r))"
proof -
  have r': "r' = r\<lparr> rp_layers := butlast (rp_layers r) \<rparr>" "res = Ok ()" using assms(2-4) by (auto simp: revoke_child_def)
  then show "res = Ok ()" "rp_layers r' = butlast (rp_layers r)" "rp_base r' = rp_base r" "rp_blackhole r' = rp_blackhole r" by auto
  have "butlast (rp_layers r) \<noteq> []" using assms(2,3) by (cases "rp_layers r" rule: rev_cases) auto
  moreover have "journal_keys r' \<subseteq> journal_keys r" "set (rp_layers r') \<subseteq> set (rp_layers r)"
    by (auto simp: journal_keys_def r' dest: in_set_butlastD)
  ultimately show "repo_inv r'" using assms(1) by (auto simp: repo_inv_def r')
  show "repo_view r' = layers_view r (butlast (rp_layers r))" using layers_view_cong [of r' r] by (simp add: repo_view_def r')
qed

section \<open>Reachable repositories\<close>

inductive repo_reachable :: "(StoreKind \<Rightarrow> bytes \<Rightarrow> bytes option) \<Rightarrow> Repository \<Rightarrow> bool" for base where
  start: "repo_reachable base (repository_new base)"
| row: "repo_reachable base r \<Longrightarrow> repo_reachable base (repo_write store key v r)"
| transient: "repo_reachable base r \<Longrightarrow> repo_reachable base (set_transient a slot w r)"
| mark: "repo_reachable base r \<Longrightarrow> repo_reachable base (mark_new_contract a r)"
| enter: "repo_reachable base r \<Longrightarrow> repo_reachable base (snd (begin_child mode r))"
| commit: "repo_reachable base r \<Longrightarrow> repo_reachable base (fst (commit_child i r))"
| revoke: "repo_reachable base r \<Longrightarrow> repo_reachable base (fst (revoke_child i r))"

lemma commit_child_refused: "\<not> (length (rp_layers r) = Suc i \<and> 0 < i) \<Longrightarrow> commit_child i r = (r, Err RInvalidChild)"
  and revoke_child_refused: "\<not> (length (rp_layers r) = Suc i \<and> 0 < i) \<Longrightarrow> revoke_child i r = (r, Err RInvalidChild)"
  by (auto simp: commit_child_def revoke_child_def)

lemma repo_reachable_inv: "repo_reachable base r \<Longrightarrow> repo_inv r \<and> rp_base r = base"
proof (induction rule: repo_reachable.induct)
  case start
  then show ?case by (simp add: repo_inv_new) (simp add: repository_new_def)
next
  case (row r store key v)
  then show ?case using repo_write_inv(1,2) by (simp add: same_frame_def)
next
  case (transient r a slot w)
  then show ?case using set_transient_inv(1,2) by (simp add: same_frame_def)
next
  case (mark r a)
  then show ?case using mark_new_contract_inv(1,2) by (simp add: same_frame_def)
next
  case (enter r mode)
  then show ?case using begin_child_inv(1,4) [of r mode] by (metis prod.collapse)
next
  case (commit r i)
  then show ?case using commit_child_inv(1,6) [of r i] commit_child_refused [of r i] by (metis prod.collapse fst_conv)
next
  case (revoke r i)
  then show ?case using revoke_child_inv(1,4) [of r i] revoke_child_refused [of r i] by (metis prod.collapse fst_conv)
qed

lemma deltas_sorted:
  assumes "bt_wf cmp_state_key (rp_before r)"
  shows "sorted_wrt (\<lambda>a b. cmp_state_key (rd_store a, rd_key a) (rd_store b, rd_key b) = Less) (repo_deltas r)"
  unfolding repo_deltas_def
  by (rule sorted_wrt_filter) (use assms in \<open>simp add: sorted_wrt_map bt_wf_def case_prod_beta\<close>)

lemma deltas_members:
  assumes "repo_inv r"
  shows "d \<in> set (repo_deltas r) \<longleftrightarrow>
    rd_before d = rp_base r (rd_store d) (rd_key d) \<and> rd_after d = repo_raw r (rd_store d) (rd_key d) \<and> rd_before d \<noteq> rd_after d"
proof -
  have dist: "distinct (map fst (rp_before r))" using assms by (intro skey.wf_distinct) (auto simp: repo_inv_def)
  have known: "bt_get (rp_before r) k = Some (rp_base r (fst k) (snd k))" if "repo_raw r (fst k) (snd k) \<noteq> rp_base r (fst k) (snd k)" for k
  proof -
    have "k \<in> journal_keys r" using raw_unjournaled [of "fst k" "snd k" r] that by auto
    then obtain b where "bt_get (rp_before r) k = Some b" using assms by (auto simp: repo_inv_def)
    then show ?thesis using assms by (auto simp: repo_inv_def)
  qed
  have pairs: "((k, b) \<in> set (rp_before r)) \<longleftrightarrow> bt_get (rp_before r) k = Some b" for k b using dist by simp
  have "d \<in> set (repo_deltas r) \<longleftrightarrow> ((rd_store d, rd_key d), rd_before d) \<in> set (rp_before r) \<and> rd_after d = repo_raw r (rd_store d) (rd_key d) \<and> rd_before d \<noteq> rd_after d"
    unfolding repo_deltas_def by (cases d) (force simp: image_iff)
  then have mem: "d \<in> set (repo_deltas r) \<longleftrightarrow> bt_get (rp_before r) (rd_store d, rd_key d) = Some (rd_before d) \<and> rd_after d = repo_raw r (rd_store d) (rd_key d) \<and> rd_before d \<noteq> rd_after d"
    by (simp only: pairs)
  have "rd_before d = rp_base r (rd_store d) (rd_key d)" if "bt_get (rp_before r) (rd_store d, rd_key d) = Some (rd_before d)"
    using assms that unfolding repo_inv_def by fastforce
  moreover note known [of "(rd_store d, rd_key d)", simplified]
  ultimately show ?thesis unfolding mem by metis
qed

lemma views_upd:
  assumes "repo_inv r" "same_frame r r'" "repo_view r' = f (repo_view r)"
  shows "repo_views r' = map_last f (repo_views r)"
proof -
  obtain ls l where l: "rp_layers r = ls @ [l]" using repo_layers_snoc [OF assms(1)] by auto
  obtain l' where l': "rp_layers r' = ls @ [l']" using assms(2) l by (cases "rp_layers r'" rule: rev_cases) (auto simp: same_frame_def)
  have "layers_view r' = layers_view r" using assms(2) by (intro layers_view_cong) (simp add: same_frame_def)
  then show ?thesis using assms(3) by (simp add: repo_views_snoc [OF l] repo_views_snoc [OF l'])
qed

lemma views_begin:
  assumes "repo_inv r"
  shows "repo_views (snd (begin_child mode r)) = repo_views r @ [repo_view r]"
proof -
  obtain i r' where r': "begin_child mode r = (i, r')" by fastforce
  note b = begin_child_inv [OF assms r']
  have "layers_view r' = layers_view r" by (rule layers_view_cong) (rule b)
  then have "repo_views r' = repo_views r @ [repo_view r']" unfolding repo_views_snoc [OF b(5)] by (simp add: repo_views_def)
  then show ?thesis using b(2) by (simp add: r')
qed

lemma views_commit:
  assumes "repo_inv r" "length (rp_layers r) = Suc i" "0 < i"
  shows "repo_views (fst (commit_child i r)) = butlast (butlast (repo_views r)) @ [repo_view r]"
proof -
  obtain r' res where r': "commit_child i r = (r', res)" by fastforce
  note c = commit_child_inv [OF assms r']
  obtain ls l where l: "rp_layers r' = ls @ [l]" using repo_layers_snoc [OF c(1)] by auto
  have "butlast (rp_layers r) \<noteq> []" "rp_layers r \<noteq> []" using assms(2,3) by (cases "rp_layers r" rule: rev_cases; auto)+
  then have "rp_layers r = ls @ [last (butlast (rp_layers r)), last (rp_layers r)]"
    using c(5) l append_butlast_last_id [of "rp_layers r"] append_butlast_last_id [of "butlast (rp_layers r)"]
    by (metis append.assoc append_Cons append_Nil butlast_snoc)
  then obtain p q where pq: "rp_layers r = ls @ [p, q]" by blast
  have "layers_view r' = layers_view r" by (rule layers_view_cong) (rule c)
  moreover have "butlast (butlast (repo_views r)) = map (\<lambda>n. layers_view r (take (Suc n) ls)) [0..<length ls]"
    by (auto simp: repo_views_def pq butlast_append)
  ultimately show ?thesis using c(2) by (simp add: r' repo_views_snoc [OF l])
qed

lemma views_revoke:
  assumes "repo_inv r" "length (rp_layers r) = Suc i" "0 < i"
  shows "repo_views (fst (revoke_child i r)) = butlast (repo_views r)"
proof -
  obtain r' res where r': "revoke_child i r = (r', res)" by fastforce
  note c = revoke_child_inv [OF assms r']
  obtain ls l where l: "rp_layers r = ls @ [l]" using repo_layers_snoc [OF assms(1)] by auto
  have "layers_view r' = layers_view r" by (rule layers_view_cong) (rule c)
  then show ?thesis using c(3) by (simp add: r' repo_views_snoc [OF l]) (simp add: repo_views_def l)
qed

section \<open>Properties\<close>

text \<open>C7: the repository refines a stack of independent states. Opening a layer duplicates the top state,
  committing it replaces the state below by the top, revoking it drops the top and uncovers the state
  below unchanged, a write changes one row, one slot or the set of new contracts of the top only;
  a commit or revoke of anything but the top layer is refused and changes nothing.\<close>

theorem repository_refines_stack:
  assumes "repo_reachable base r"
  shows "repo_views (snd (begin_child mode r)) = repo_views r @ [last (repo_views r)] \<and>
    repo_views (fst (commit_child i r)) =
      (if length (repo_views r) = Suc i \<and> 0 < i then butlast (butlast (repo_views r)) @ [last (repo_views r)] else repo_views r) \<and>
    repo_views (fst (revoke_child i r)) = (if length (repo_views r) = Suc i \<and> 0 < i then butlast (repo_views r) else repo_views r) \<and>
    repo_views (repo_write store key v r) = map_last (\<lambda>(rows, slots, fresh). (rows((store, key) := journal_result v), slots, fresh)) (repo_views r) \<and>
    repo_views (set_transient a slot w r) = map_last (\<lambda>(rows, slots, fresh). (rows, slots((a, slot) := w), fresh)) (repo_views r) \<and>
    repo_views (mark_new_contract a r) = map_last (\<lambda>(rows, slots, fresh). (rows, slots, insert a fresh)) (repo_views r)"
proof -
  have inv: "repo_inv r" using repo_reachable_inv [OF assms] by simp
  have len: "length (repo_views r) = length (rp_layers r)" by (simp add: repo_views_def)
  obtain ls l where l: "rp_layers r = ls @ [l]" using repo_layers_snoc [OF inv] by auto
  have last: "last (repo_views r) = repo_view r" by (simp add: repo_views_snoc [OF l])
  have upd: "repo_views (repo_write store key v r) = map_last (\<lambda>(rows, slots, fresh). (rows((store, key) := journal_result v), slots, fresh)) (repo_views r)"
    "repo_views (set_transient a slot w r) = map_last (\<lambda>(rows, slots, fresh). (rows, slots((a, slot) := w), fresh)) (repo_views r)"
    "repo_views (mark_new_contract a r) = map_last (\<lambda>(rows, slots, fresh). (rows, slots, insert a fresh)) (repo_views r)"
    by (rule views_upd [OF inv]; rule repo_write_inv set_transient_inv mark_new_contract_inv; rule inv)+
  show ?thesis unfolding len last upd
    using views_begin [OF inv] views_commit [OF inv, of i] views_revoke [OF inv, of i] commit_child_refused [of r i] revoke_child_refused [of r i]
    by simp
qed

definition demo_base :: "StoreKind \<Rightarrow> bytes \<Rightarrow> bytes option" where
  "demo_base store key = (if store = KCode \<and> key = [1] then Some [7] else None)"

definition demo_repo :: Repository where
  "demo_repo = repo_write KCode [1] JDelete (snd (begin_child CopiedStorage (repository_new demo_base)))"

lemma demo_repo_reachable: "repo_reachable demo_base demo_repo"
  unfolding demo_repo_def by (intro repo_reachable.intros)

theorem repository_refines_stack_witness:
  "repo_views (fst (revoke_child 1 demo_repo)) = [(\<lambda>k. demo_base (fst k) (snd k), \<lambda>_. 0, {})]"
proof -
  have views: "repo_views (snd (begin_child CopiedStorage (repository_new demo_base))) =
      repo_views (repository_new demo_base) @ [last (repo_views (repository_new demo_base))]"
    using repository_refines_stack [OF repo_reachable.start, of CopiedStorage demo_base] by blast
  have one: "repo_views (repository_new demo_base) = [(\<lambda>k. demo_base (fst k) (snd k), \<lambda>_. 0, {})]"
    by (simp add: repo_views_def repository_new_def layers_view_def apply_layer_def base_view_def layer_default_def)
  have len: "length (repo_views demo_repo) = 2"
    by (simp add: repo_views_def demo_repo_def repo_write_def begin_child_def repository_new_def Let_def)
  have "repo_views demo_repo = map_last (\<lambda>(rows, slots, fresh). (rows((KCode, [1]) := journal_result JDelete), slots, fresh))
      (repo_views (snd (begin_child CopiedStorage (repository_new demo_base))))"
    using repository_refines_stack [OF repo_reachable.enter [OF repo_reachable.start]]
    unfolding demo_repo_def by blast
  then have "butlast (repo_views demo_repo) = [(\<lambda>k. demo_base (fst k) (snd k), \<lambda>_. 0, {})]" by (simp add: views one)
  then show ?thesis using repository_refines_stack [OF demo_repo_reachable, where i = 1] len by simp
qed

text \<open>The deltas of a repository are exact: in the order of the keys they list every row whose value differs
  from the state below, once, with the value below and the value seen now, and no other row, whatever
  layers were opened, committed or revoked before.\<close>

theorem repository_deltas_exact:
  assumes "repo_reachable base r"
  shows "sorted_wrt (\<lambda>a b. cmp_state_key (rd_store a, rd_key a) (rd_store b, rd_key b) = Less) (repo_deltas r) \<and>
    set (repo_deltas r) = {d. rd_before d = base (rd_store d) (rd_key d) \<and> rd_after d = repo_raw r (rd_store d) (rd_key d) \<and> rd_before d \<noteq> rd_after d}"
  using repo_reachable_inv [OF assms] deltas_sorted [of r] deltas_members [of r] by (auto simp: repo_inv_def)

theorem repository_deltas_exact_witness:
  "\<lparr> rd_store = KCode, rd_key = [1], rd_before = Some [7], rd_after = None \<rparr> \<in> set (repo_deltas demo_repo)"
proof -
  have "repo_raw demo_repo KCode [1] = None"
    by (simp add: demo_repo_def repo_raw_def repo_write_def begin_child_def repository_new_def layer_default_def Let_def)
  then show ?thesis using repository_deltas_exact [OF demo_repo_reachable] by (simp add: demo_base_def)
qed

end
