(* ===== verification/Tvm_Accounts.thy ===== *)
theory Tvm_Accounts
  imports Tvm_Repository
begin

text \<open>
  The typed rows of the repository, \<open>tron-tvm/src/repository.rs\<close> (accounts, contracts, code, storage,
  dynamic properties, frozen and delegated resources), with the keys of \<open>tron-state/src/delegation.rs\<close>
  and \<open>contract.rs\<close>, and the rule set of \<open>rules.rs\<close>. The generated messages are records of the
  fields the machine reads or writes, with the encoding of the others in one field; their codec and
  the hash function are the parameter \<open>vm_codec\<close>.
\<close>

section \<open>Programs that change a state and may fail\<close>

type_synonym ('s, 'a, 'e) prog = "'s \<Rightarrow> 's \<times> ('a, 'e) result"

definition sbind :: "('s, 'a, 'e) prog \<Rightarrow> ('a \<Rightarrow> ('s, 'b, 'e) prog) \<Rightarrow> ('s, 'b, 'e) prog" where
  "sbind f g s = (case f s of (s', Err e) \<Rightarrow> (s', Err e) | (s', Ok x) \<Rightarrow> g x s')"

definition sret :: "'a \<Rightarrow> ('s, 'a, 'e) prog" where "sret x s = (s, Ok x)"
definition sfail :: "'e \<Rightarrow> ('s, 'a, 'e) prog" where "sfail e s = (s, Err e)"
definition slift :: "('a, 'e) result \<Rightarrow> ('s, 'a, 'e) prog" where "slift r s = (s, r)"
definition sask :: "('s \<Rightarrow> ('a, 'e) result) \<Rightarrow> ('s, 'a, 'e) prog" where "sask f s = (s, f s)"
definition sread :: "('s \<Rightarrow> 'a) \<Rightarrow> ('s, 'a, 'e) prog" where "sread f s = (s, Ok (f s))"
definition supd :: "('s \<Rightarrow> 's) \<Rightarrow> ('s, unit, 'e) prog" where "supd f s = (f s, Ok ())"

lemmas prog_defs = sbind_def sret_def sfail_def slift_def sask_def sread_def supd_def

section \<open>Messages\<close>

record Frozen =
  fz_frozen_balance :: i64
  fz_expire_time :: i64

record FreezeV2 =
  f2_type :: i32
  f2_amount :: i64

record UnFreezeV2 =
  u2_type :: i32
  u2_unfreeze_amount :: i64
  u2_unfreeze_expire_time :: i64

record Vote =
  vo_vote_address :: bytes
  vo_vote_count :: i64

record AccountResource =
  ar_energy_usage :: i64
  ar_frozen_balance_for_energy :: "Frozen option"
  ar_latest_consume_time_for_energy :: i64
  ar_acquired_delegated_frozen_balance_for_energy :: i64
  ar_delegated_frozen_balance_for_energy :: i64
  ar_delegated_frozen_v2_balance_for_energy :: i64
  ar_acquired_delegated_frozen_v2_balance_for_energy :: i64
  ar_rest :: bytes

definition account_resource_default :: AccountResource where
  "account_resource_default = \<lparr> ar_energy_usage = 0, ar_frozen_balance_for_energy = None, ar_latest_consume_time_for_energy = 0,
     ar_acquired_delegated_frozen_balance_for_energy = 0, ar_delegated_frozen_balance_for_energy = 0,
     ar_delegated_frozen_v2_balance_for_energy = 0, ar_acquired_delegated_frozen_v2_balance_for_energy = 0, ar_rest = [] \<rparr>"

record Account =
  ac_account_name :: bytes
  ac_type :: i32
  ac_address :: bytes
  ac_balance :: i64
  ac_votes :: "Vote list"
  ac_asset_v2 :: "(bytes, i64) bt_map"
  ac_frozen :: "Frozen list"
  ac_net_usage :: i64
  ac_acquired_delegated_frozen_balance_for_bandwidth :: i64
  ac_delegated_frozen_balance_for_bandwidth :: i64
  ac_allowance :: i64
  ac_latest_withdraw_time :: i64
  ac_latest_consume_time :: i64
  ac_account_resource :: "AccountResource option"
  ac_frozen_v2 :: "FreezeV2 list"
  ac_unfrozen_v2 :: "UnFreezeV2 list"
  ac_delegated_frozen_v2_balance_for_bandwidth :: i64
  ac_acquired_delegated_frozen_v2_balance_for_bandwidth :: i64
  ac_rest :: bytes

definition account_default :: Account where
  "account_default = \<lparr> ac_account_name = [], ac_type = 0, ac_address = [], ac_balance = 0, ac_votes = [], ac_asset_v2 = [],
     ac_frozen = [], ac_net_usage = 0, ac_acquired_delegated_frozen_balance_for_bandwidth = 0,
     ac_delegated_frozen_balance_for_bandwidth = 0, ac_allowance = 0, ac_latest_withdraw_time = 0, ac_latest_consume_time = 0,
     ac_account_resource = None, ac_frozen_v2 = [], ac_unfrozen_v2 = [], ac_delegated_frozen_v2_balance_for_bandwidth = 0,
     ac_acquired_delegated_frozen_v2_balance_for_bandwidth = 0, ac_rest = [] \<rparr>"

text \<open>The account with an address and nothing else.\<close>

definition account_at :: "bytes \<Rightarrow> Account" where "account_at a = account_default\<lparr> ac_address := a \<rparr>"

record SmartContract =
  sc_origin_address :: bytes
  sc_contract_address :: bytes
  sc_abi :: "bytes option"
  sc_consume_user_resource_percent :: i64
  sc_trx_hash :: bytes
  sc_version :: i32
  sc_code_hash :: bytes
  sc_rest :: bytes

definition smart_contract_default :: SmartContract where
  "smart_contract_default = \<lparr> sc_origin_address = [], sc_contract_address = [], sc_abi = None, sc_consume_user_resource_percent = 0,
     sc_trx_hash = [], sc_version = 0, sc_code_hash = [], sc_rest = [] \<rparr>"

record DelegatedResource =
  dr_from :: bytes
  dr_to :: bytes
  dr_frozen_balance_for_bandwidth :: i64
  dr_frozen_balance_for_energy :: i64
  dr_expire_time_for_bandwidth :: i64
  dr_expire_time_for_energy :: i64

record Votes =
  vs_address :: bytes
  vs_old_votes :: "Vote list"
  vs_new_votes :: "Vote list"

datatype ResourceCode = Bandwidth | Energy | TronPower

fun resource_number :: "ResourceCode \<Rightarrow> i32" where
  "resource_number Bandwidth = 0"
| "resource_number Energy = 1"
| "resource_number TronPower = 2"

definition resource_try_from :: "i32 \<Rightarrow> ResourceCode option" where
  "resource_try_from n = (if n = 0 then Some Bandwidth else if n = 1 then Some Energy else if n = 2 then Some TronPower else None)"

definition ACCOUNT_TYPE_CONTRACT :: i32 where "ACCOUNT_TYPE_CONTRACT = 2"

record vm_codec =
  vc_keccak256 :: "bytes \<Rightarrow> bytes"
  vc_decode_account :: "bytes \<Rightarrow> Account option"
  vc_encode_account :: "Account \<Rightarrow> bytes"
  vc_decode_contract :: "bytes \<Rightarrow> SmartContract option"
  vc_encode_contract :: "SmartContract \<Rightarrow> bytes"
  vc_decode_delegated :: "bytes \<Rightarrow> DelegatedResource option"
  vc_encode_delegated :: "DelegatedResource \<Rightarrow> bytes"
  vc_encode_votes :: "Votes \<Rightarrow> bytes"
  vc_block_witness :: "bytes \<Rightarrow> bytes option"

text \<open>What the encoding of an account promises.\<close>

definition account_codec_ok :: "vm_codec \<Rightarrow> bool" where
  "account_codec_ok X \<longleftrightarrow> (\<forall>a. vc_decode_account X (vc_encode_account X a) = Some a)"

section \<open>Accounts and contracts\<close>

definition repo_decode :: "(bytes \<Rightarrow> 'a option) \<Rightarrow> string \<Rightarrow> bytes option \<Rightarrow> ('a option, RepositoryError) result" where
  "repo_decode dec name bs =
     (case bs of None \<Rightarrow> Ok None | Some v \<Rightarrow> (case dec v of None \<Rightarrow> Err (RDecode name) | Some x \<Rightarrow> Ok (Some x)))"

definition repo_account :: "vm_codec \<Rightarrow> bytes \<Rightarrow> Repository \<Rightarrow> (Account option, RepositoryError) result" where
  "repo_account X a r = repo_decode (vc_decode_account X) ''account'' (repo_raw r KAccount a)"

definition put_account :: "vm_codec \<Rightarrow> Account \<Rightarrow> Repository \<Rightarrow> Repository" where
  "put_account X account = put_raw KAccount (ac_address account) (vc_encode_account X account)"

definition account_or_new :: "bytes \<Rightarrow> Account option \<Rightarrow> Account" where
  "account_or_new a found = (case found of Some x \<Rightarrow> x | None \<Rightarrow> account_at a)"

definition repo_balance :: "vm_codec \<Rightarrow> bytes \<Rightarrow> Repository \<Rightarrow> (i64, RepositoryError) result" where
  "repo_balance X a r = and_then (repo_account X a r) (\<lambda>found. Ok (case found of None \<Rightarrow> 0 | Some x \<Rightarrow> ac_balance x))"

definition set_balance :: "vm_codec \<Rightarrow> bytes \<Rightarrow> i64 \<Rightarrow> (Repository, unit, RepositoryError) prog" where
  "set_balance X a balance =
     sbind (sask (repo_account X a)) (\<lambda>found. supd (put_account X ((account_or_new a found)\<lparr> ac_balance := balance \<rparr>)))"

definition repo_token_balance :: "vm_codec \<Rightarrow> bytes \<Rightarrow> bytes \<Rightarrow> Repository \<Rightarrow> (i64, RepositoryError) result" where
  "repo_token_balance X a token r =
     and_then (repo_account X a r) (\<lambda>found.
       Ok (case Option.bind found (\<lambda>x. bt_get (ac_asset_v2 x) token) of None \<Rightarrow> 0 | Some n \<Rightarrow> n))"

definition set_token_balance :: "vm_codec \<Rightarrow> bytes \<Rightarrow> bytes \<Rightarrow> i64 \<Rightarrow> (Repository, unit, RepositoryError) prog" where
  "set_token_balance X a token balance =
     sbind (sask (repo_account X a)) (\<lambda>found.
       let account = account_or_new a found in
       supd (put_account X (account\<lparr> ac_asset_v2 :=
         (if balance = 0 then bt_remove token (ac_asset_v2 account) else bt_insert cmp_bytes token balance (ac_asset_v2 account)) \<rparr>)))"

definition repo_contract :: "vm_codec \<Rightarrow> bytes \<Rightarrow> Repository \<Rightarrow> (SmartContract option, RepositoryError) result" where
  "repo_contract X a r = repo_decode (vc_decode_contract X) ''contract'' (repo_raw r KContract a)"

definition split_contract :: "SmartContract \<Rightarrow> SmartContract \<times> bytes option" where
  "split_contract c = (c\<lparr> sc_abi := None \<rparr>, sc_abi c)"

definition put_contract :: "vm_codec \<Rightarrow> SmartContract \<Rightarrow> Repository \<Rightarrow> Repository" where
  "put_contract X contract r =
     (let (c, abi) = split_contract contract;
          key = sc_contract_address c;
          r = put_raw KContract key (vc_encode_contract X c) r
      in if repo_raw r KAbi key = None then (case abi of Some data \<Rightarrow> put_raw KAbi key data r | None \<Rightarrow> r) else r)"

definition repo_code :: "bytes \<Rightarrow> Repository \<Rightarrow> bytes option" where
  "repo_code a r = repo_raw r KCode a"

definition put_code :: "bytes \<Rightarrow> bytes \<Rightarrow> Repository \<Rightarrow> Repository" where
  "put_code a code = put_raw KCode a code"

definition create_destination_exists :: "vm_codec \<Rightarrow> bytes \<Rightarrow> bool \<Rightarrow> Repository \<Rightarrow> (bool, RepositoryError) result" where
  "create_destination_exists X a constantinople r =
     and_then (repo_account X a r) (\<lambda>found.
       case found of
         None \<Rightarrow> Ok False
       | Some _ \<Rightarrow> if \<not> constantinople then Ok True else and_then (repo_contract X a r) (\<lambda>c. Ok (c \<noteq> None)))"

definition created_account :: "bytes \<Rightarrow> bool \<Rightarrow> Account option \<Rightarrow> Account" where
  "created_account a constantinople found =
     (case found of
        Some account \<Rightarrow>
          if constantinople then
            let resource = (case ac_account_resource account of Some res \<Rightarrow> res | None \<Rightarrow> account_resource_default) in
            account\<lparr> ac_type := ACCOUNT_TYPE_CONTRACT, ac_acquired_delegated_frozen_balance_for_bandwidth := 0,
              ac_acquired_delegated_frozen_v2_balance_for_bandwidth := 0,
              ac_account_resource := Some (resource\<lparr> ar_acquired_delegated_frozen_balance_for_energy := 0,
                ar_acquired_delegated_frozen_v2_balance_for_energy := 0 \<rparr>) \<rparr>
          else account_default\<lparr> ac_account_name := str_bytes ''CreatedByContract'', ac_type := ACCOUNT_TYPE_CONTRACT, ac_address := a \<rparr>
      | None \<Rightarrow> account_default\<lparr> ac_account_name := str_bytes ''CreatedByContract'', ac_type := ACCOUNT_TYPE_CONTRACT, ac_address := a \<rparr>)"

definition prepare_created_contract ::
  "vm_codec \<Rightarrow> bytes \<Rightarrow> bytes \<Rightarrow> bytes \<Rightarrow> bool \<Rightarrow> bool \<Rightarrow> bool \<Rightarrow> i32 \<Rightarrow> (Repository, unit, RepositoryError) prog" where
  "prepare_created_contract X a origin root_txid is_create2 constantinople compatible_evm version =
     sbind (sask (repo_account X a)) (\<lambda>found.
     sbind (supd (put_account X ((created_account a constantinople found)\<lparr> ac_address := a \<rparr>))) (\<lambda>_.
     sbind (supd (put_contract X (smart_contract_default\<lparr> sc_origin_address := origin, sc_contract_address := a,
         sc_consume_user_resource_percent := 100, sc_trx_hash := (if is_create2 then root_txid else []),
         sc_version := (if compatible_evm then version else 0) \<rparr>))) (\<lambda>_.
     supd (mark_new_contract a))))"

definition save_created_code :: "vm_codec \<Rightarrow> bytes \<Rightarrow> bytes \<Rightarrow> bool \<Rightarrow> (Repository, unit, RepositoryError) prog" where
  "save_created_code X a code constantinople =
     sbind (if constantinople then
              sbind (sask (repo_contract X a)) (\<lambda>found.
              sbind (slift (ok_or found (RDecode ''created contract''))) (\<lambda>contract.
              supd (put_contract X (contract\<lparr> sc_code_hash := vc_keccak256 X code \<rparr>))))
            else sret ()) (\<lambda>_.
     supd (put_code a code))"

definition delete_contract :: "bytes \<Rightarrow> Repository \<Rightarrow> Repository" where
  "delete_contract a r = delete_raw KContract a (delete_raw KAccount a (delete_raw KCode a r))"

section \<open>Storage and dynamic properties\<close>

definition storage_row_key :: "vm_codec \<Rightarrow> bytes \<Rightarrow> bytes \<Rightarrow> i32 \<Rightarrow> bytes option \<Rightarrow> bytes" where
  "storage_row_key X a slot contract_version trx_hash =
     (let address_hash = vc_keccak256 X (case trx_hash of Some h \<Rightarrow> a @ h | None \<Rightarrow> a);
          slot_domain = (if contract_version = 1 then vc_keccak256 X slot else slot)
      in take 16 address_hash @ drop 16 slot_domain)"

definition storage_key :: "vm_codec \<Rightarrow> bytes \<Rightarrow> tword \<Rightarrow> i32 \<Rightarrow> bytes option \<Rightarrow> bytes" where
  "storage_key X a slot contract_version tx_hash = storage_row_key X a (word_to_be slot) contract_version tx_hash"

definition repo_storage :: "vm_codec \<Rightarrow> bytes \<Rightarrow> tword \<Rightarrow> i32 \<Rightarrow> bytes option \<Rightarrow> Repository \<Rightarrow> tword option" where
  "repo_storage X a slot contract_version tx_hash r =
     Option.bind (repo_raw r KStorageRow (storage_key X a slot contract_version tx_hash)) (\<lambda>v.
       if length v = 32 then Some (word_from_be v) else None)"

definition set_storage :: "vm_codec \<Rightarrow> bytes \<Rightarrow> tword \<Rightarrow> tword \<Rightarrow> i32 \<Rightarrow> bytes option \<Rightarrow> Repository \<Rightarrow> Repository" where
  "set_storage X a slot v contract_version tx_hash =
     (let key = storage_key X a slot contract_version tx_hash in
      if word_is_zero v then delete_raw KStorageRow key else put_raw KStorageRow key (word_to_be v))"

definition repo_dynamic_i64 :: "string \<Rightarrow> Repository \<Rightarrow> (i64 option, RepositoryError) result" where
  "repo_dynamic_i64 name r =
     (case dynamic_key name of
        None \<Rightarrow> Ok None
      | Some key \<Rightarrow>
        (case repo_raw r KDynamicProperties key of
           None \<Rightarrow> Ok None
         | Some v \<Rightarrow>
           if length v = 8 then Ok (Some (i64_from_be_bytes v))
           else if length v = 4 then Ok (Some (i32_from_be_bytes v))
           else Err (RInvalidDynamicValue name (length v))))"

definition dynamic_or_zero :: "string \<Rightarrow> Repository \<Rightarrow> (i64, RepositoryError) result" where
  "dynamic_or_zero name r = and_then (repo_dynamic_i64 name r) (\<lambda>v. Ok (case v of Some n \<Rightarrow> n | None \<Rightarrow> 0))"

definition set_dynamic_i64 :: "string \<Rightarrow> i64 \<Rightarrow> (Repository, unit, RepositoryError) prog" where
  "set_dynamic_i64 name v =
     (case dynamic_key name of
        None \<Rightarrow> sfail (RInvalidDynamicValue name 0)
      | Some key \<Rightarrow> supd (put_raw KDynamicProperties key (i64_to_be_bytes v)))"

definition wide_property :: "string \<Rightarrow> Repository \<Rightarrow> (i64, RepositoryError) result" where
  "wide_property name r =
     (case Option.bind (dynamic_key name) (repo_raw r KDynamicProperties) of
        None \<Rightarrow> Err (RInvalidDynamicValue name 0)
      | Some bs \<Rightarrow> if length bs = 8 then Ok (i64_from_be_bytes bs) else Err (RInvalidDynamicValue name (length bs)))"

definition map_fork_error :: "ForkError \<Rightarrow> RepositoryError" where
  "map_fork_error e =
     (case e of InvalidInterval \<Rightarrow> RInvalidForkInterval | TimestampOverflow _ \<Rightarrow> RForkTimestampOverflow | _ \<Rightarrow> RDecode ''fork activation'')"

definition canonical_fork_pass :: "ForkVersion \<Rightarrow> Repository \<Rightarrow> (bool, RepositoryError) result" where
  "canonical_fork_pass fork r =
     and_then (wide_property ''MAINTENANCE_TIME_INTERVAL'' r) (\<lambda>interval.
     and_then (wide_property ''LATEST_BLOCK_HEADER_TIMESTAMP'' r) (\<lambda>timestamp.
     let stats = repo_raw r KDynamicProperties (fork_stats_key (fv_version fork)) in
     case evaluate_fork_pass \<lparr> fp_target = fork, fp_old_cutoff = 16, fp_latest_block_number = 0, fp_energy_limit_height = i64_max,
         fp_latest_block_timestamp = timestamp, fp_maintenance_interval = interval, fp_stats = stats \<rparr> java_fork_math of
       Err e \<Rightarrow> Err (map_fork_error e)
     | Ok b \<Rightarrow> Ok b))"

section \<open>The rule set\<close>

record TvmRules =
  tr_multi_sign :: bool
  tr_transfer_trc10 :: bool
  tr_constantinople :: bool
  tr_solidity_059 :: bool
  tr_istanbul :: bool
  tr_freeze :: bool
  tr_vote :: bool
  tr_london :: bool
  tr_compatible_evm :: bool
  tr_create2_depth_timeout :: bool
  tr_higher_cpu_memory :: bool
  tr_freeze_v2 :: bool
  tr_optimized_chain_id :: bool
  tr_dynamic_energy :: bool
  tr_dynamic_energy_threshold :: i64
  tr_dynamic_energy_increase_factor :: i64
  tr_dynamic_energy_max_factor :: i64
  tr_shanghai :: bool
  tr_energy_adjustment :: bool
  tr_strict_math :: bool
  tr_cancun :: bool
  tr_disable_java_math :: bool
  tr_blob :: bool
  tr_selfdestruct_restriction :: bool
  tr_osaka :: bool
  tr_harden_resource :: bool
  tr_shielded_trc20 :: bool
  tr_latest_block_number :: i64
  tr_energy_limit_hardfork :: bool

definition rule_flag :: "string \<Rightarrow> Repository \<Rightarrow> (bool, RepositoryError) result" where
  "rule_flag name r = and_then (dynamic_or_zero name r) (\<lambda>v. Ok (v = 1))"

definition VERSION_4_8_1_1 :: ForkVersion where
  "VERSION_4_8_1_1 = \<lparr> fv_version = 35, fv_hard_fork_time = 1596780000000, fv_hard_fork_rate = 70 \<rparr>"

definition rules_load :: "i64 \<Rightarrow> Repository \<Rightarrow> (TvmRules, RepositoryError) result" where
  "rules_load energy_limit_height r =
     and_then (dynamic_or_zero ''LATEST_BLOCK_HEADER_NUMBER'' r) (\<lambda>latest.
     and_then (canonical_fork_pass VERSION_4_8_1_1 r) (\<lambda>create2_depth_timeout.
     and_then (rule_flag ''ALLOW_MULTI_SIGN'' r) (\<lambda>multi_sign.
     and_then (rule_flag ''ALLOW_TVM_TRANSFER_TRC10'' r) (\<lambda>transfer_trc10.
     and_then (rule_flag ''ALLOW_TVM_CONSTANTINOPLE'' r) (\<lambda>constantinople.
     and_then (rule_flag ''ALLOW_TVM_SOLIDITY_059'' r) (\<lambda>solidity_059.
     and_then (rule_flag ''ALLOW_TVM_ISTANBUL'' r) (\<lambda>istanbul.
     and_then (rule_flag ''ALLOW_TVM_FREEZE'' r) (\<lambda>freeze.
     and_then (rule_flag ''ALLOW_TVM_VOTE'' r) (\<lambda>vote.
     and_then (rule_flag ''ALLOW_TVM_LONDON'' r) (\<lambda>london.
     and_then (rule_flag ''ALLOW_TVM_COMPATIBLE_EVM'' r) (\<lambda>compatible_evm.
     and_then (rule_flag ''ALLOW_HIGHER_LIMIT_FOR_MAX_CPU_TIME_OF_ONE_TX'' r) (\<lambda>higher_cpu_memory.
     and_then (dynamic_or_zero ''UNFREEZE_DELAY_DAYS'' r) (\<lambda>unfreeze_delay_days.
     and_then (rule_flag ''ALLOW_OPTIMIZED_RETURN_VALUE_OF_CHAIN_ID'' r) (\<lambda>optimized_chain_id.
     and_then (rule_flag ''ALLOW_DYNAMIC_ENERGY'' r) (\<lambda>dynamic_energy.
     and_then (dynamic_or_zero ''DYNAMIC_ENERGY_THRESHOLD'' r) (\<lambda>threshold.
     and_then (dynamic_or_zero ''DYNAMIC_ENERGY_INCREASE_FACTOR'' r) (\<lambda>increase_factor.
     and_then (dynamic_or_zero ''DYNAMIC_ENERGY_MAX_FACTOR'' r) (\<lambda>max_factor.
     and_then (rule_flag ''ALLOW_TVM_SHANGHAI'' r) (\<lambda>shanghai.
     and_then (rule_flag ''ALLOW_ENERGY_ADJUSTMENT'' r) (\<lambda>energy_adjustment.
     and_then (rule_flag ''ALLOW_STRICT_MATH'' r) (\<lambda>strict_math.
     and_then (rule_flag ''ALLOW_TVM_CANCUN'' r) (\<lambda>cancun.
     and_then (rule_flag ''DISABLE_JAVA_LANG_MATH'' r) (\<lambda>disable_java_math.
     and_then (rule_flag ''ALLOW_TVM_BLOB'' r) (\<lambda>blob.
     and_then (rule_flag ''ALLOW_TVM_SELFDESTRUCT_RESTRICTION'' r) (\<lambda>selfdestruct_restriction.
     and_then (rule_flag ''ALLOW_TVM_OSAKA'' r) (\<lambda>osaka.
     and_then (rule_flag ''ALLOW_TVM_HARDEN_RESOURCE'' r) (\<lambda>harden_resource.
     and_then (rule_flag ''ALLOW_SHIELDED_TRC20_TRANSACTION'' r) (\<lambda>shielded_trc20.
     Ok \<lparr> tr_multi_sign = multi_sign, tr_transfer_trc10 = transfer_trc10, tr_constantinople = constantinople, tr_solidity_059 = solidity_059,
       tr_istanbul = istanbul, tr_freeze = freeze, tr_vote = vote, tr_london = london, tr_compatible_evm = compatible_evm,
       tr_create2_depth_timeout = create2_depth_timeout, tr_higher_cpu_memory = higher_cpu_memory, tr_freeze_v2 = unfreeze_delay_days > 0,
       tr_optimized_chain_id = optimized_chain_id, tr_dynamic_energy = dynamic_energy, tr_dynamic_energy_threshold = threshold,
       tr_dynamic_energy_increase_factor = increase_factor, tr_dynamic_energy_max_factor = max_factor, tr_shanghai = shanghai,
       tr_energy_adjustment = energy_adjustment, tr_strict_math = strict_math, tr_cancun = cancun, tr_disable_java_math = disable_java_math,
       tr_blob = blob, tr_selfdestruct_restriction = selfdestruct_restriction, tr_osaka = osaka, tr_harden_resource = harden_resource,
       tr_shielded_trc20 = shielded_trc20, tr_latest_block_number = latest, tr_energy_limit_hardfork = (latest \<ge> energy_limit_height) \<rparr>))))))))))))))))))))))))))))"

end
