(* ===== verification/Tvm_Resources.thy ===== *)
theory Tvm_Resources
  imports Tvm_Accounts
begin

text \<open>
  Frozen and delegated resources, rewards and votes of a contract account: the staking methods of
  \<open>tron-tvm/src/repository.rs\<close> with the keys of \<open>tron-state/src/delegation.rs\<close>. Arithmetic that the code
  does not check wraps around.
\<close>

section \<open>Keys and helpers\<close>

definition LOCKED_PREFIX :: u8 where "LOCKED_PREFIX = 2"
definition UNLOCKED_PREFIX :: u8 where "UNLOCKED_PREFIX = 1"

definition prefixed_pair :: "u8 \<Rightarrow> bytes \<Rightarrow> bytes \<Rightarrow> bytes" where "prefixed_pair p first second = p # first @ second"

definition legacy_resource_key :: "bytes \<Rightarrow> bytes \<Rightarrow> bytes" where "legacy_resource_key from to = from @ to"

definition resource_v2_key :: "bytes \<Rightarrow> bytes \<Rightarrow> bool \<Rightarrow> bytes" where
  "resource_v2_key from to locked = prefixed_pair (if locked then LOCKED_PREFIX else UNLOCKED_PREFIX) from to"

definition repo_checked_add :: "i64 \<Rightarrow> i64 \<Rightarrow> (i64, RepositoryError) result" where
  "repo_checked_add a b = ok_or (checked_i64 (a + b)) (RDecode ''long overflow'')"

definition resource_of :: "tword \<Rightarrow> bool \<Rightarrow> ResourceCode option" where
  "resource_of w tron_power =
     (let n = to_i64_safe w in
      if n = 0 then Some Bandwidth else if n = 1 then Some Energy else if n = 2 \<and> tron_power then Some TronPower else None)"

definition frozen_v2_of :: "Account \<Rightarrow> ResourceCode \<Rightarrow> i64" where
  "frozen_v2_of a k = (case find (\<lambda>v. f2_type v = resource_number k) (ac_frozen_v2 a) of Some v \<Rightarrow> f2_amount v | None \<Rightarrow> 0)"

fun add_frozen_list :: "i32 \<Rightarrow> i64 \<Rightarrow> FreezeV2 list \<Rightarrow> (FreezeV2 list, RepositoryError) result" where
  "add_frozen_list k n [] = Ok [\<lparr> f2_type = k, f2_amount = n \<rparr>]"
| "add_frozen_list k n (v # vs) =
     (if f2_type v = k then and_then (repo_checked_add (f2_amount v) n) (\<lambda>m. Ok (v\<lparr> f2_amount := m \<rparr> # vs))
      else and_then (add_frozen_list k n vs) (\<lambda>vs. Ok (v # vs)))"

definition add_frozen_v2 :: "Account \<Rightarrow> ResourceCode \<Rightarrow> i64 \<Rightarrow> (Account, RepositoryError) result" where
  "add_frozen_v2 a k n = and_then (add_frozen_list (resource_number k) n (ac_frozen_v2 a)) (\<lambda>vs. Ok (a\<lparr> ac_frozen_v2 := vs \<rparr>))"

fun weight_key :: "ResourceCode \<Rightarrow> string" where
  "weight_key Bandwidth = ''TOTAL_NET_WEIGHT''"
| "weight_key Energy = ''TOTAL_ENERGY_WEIGHT''"
| "weight_key TronPower = ''TOTAL_TRON_POWER_WEIGHT''"

definition change_weight :: "ResourceCode \<Rightarrow> i64 \<Rightarrow> i64 \<Rightarrow> (Repository, unit, RepositoryError) prog" where
  "change_weight k old new =
     sbind (sask (dynamic_or_zero (weight_key k))) (\<lambda>sum.
     sbind (slift (repo_checked_add sum (new sdiv 1000000 - old sdiv 1000000))) (\<lambda>sum.
     set_dynamic_i64 (weight_key k) sum))"

definition sum_i64 :: "i64 list \<Rightarrow> i64" where "sum_i64 xs = wrap_i64 (sum_list xs)"

definition resource_or_default :: "Account \<Rightarrow> AccountResource" where
  "resource_or_default a = (case ac_account_resource a of Some r \<Rightarrow> r | None \<Rightarrow> account_resource_default)"

definition energy_frozen :: "Account \<Rightarrow> Frozen option" where
  "energy_frozen a = Option.bind (ac_account_resource a) ar_frozen_balance_for_energy"

fun legacy_frozen :: "Account \<Rightarrow> ResourceCode \<Rightarrow> i64" where
  "legacy_frozen a Bandwidth = sum_i64 (map fz_frozen_balance (ac_frozen a))"
| "legacy_frozen a Energy = (case energy_frozen a of Some v \<Rightarrow> fz_frozen_balance v | None \<Rightarrow> 0)"
| "legacy_frozen a TronPower = 0"

fun legacy_expire :: "Account \<Rightarrow> ResourceCode \<Rightarrow> i64" where
  "legacy_expire a Bandwidth = (case ac_frozen a of v # _ \<Rightarrow> fz_expire_time v | [] \<Rightarrow> 0)"
| "legacy_expire a Energy = (case energy_frozen a of Some v \<Rightarrow> fz_expire_time v | None \<Rightarrow> 0)"
| "legacy_expire a TronPower = 0"

definition delegated_or_new :: "bytes \<Rightarrow> bytes \<Rightarrow> DelegatedResource option \<Rightarrow> DelegatedResource" where
  "delegated_or_new from to d =
     (case d of Some d \<Rightarrow> d
      | None \<Rightarrow> \<lparr> dr_from = from, dr_to = to, dr_frozen_balance_for_bandwidth = 0, dr_frozen_balance_for_energy = 0,
          dr_expire_time_for_bandwidth = 0, dr_expire_time_for_energy = 0 \<rparr>)"

definition repo_delegated :: "vm_codec \<Rightarrow> bytes \<Rightarrow> Repository \<Rightarrow> (DelegatedResource option, RepositoryError) result" where
  "repo_delegated X key r = repo_decode (vc_decode_delegated X) ''delegated resource'' (repo_raw r KDelegatedResource key)"

definition put_delegated :: "vm_codec \<Rightarrow> bytes \<Rightarrow> DelegatedResource \<Rightarrow> Repository \<Rightarrow> Repository" where
  "put_delegated X key d = put_raw KDelegatedResource key (vc_encode_delegated X d)"

definition now_of :: "Repository \<Rightarrow> (i64, RepositoryError) result" where
  "now_of r = dynamic_or_zero ''LATEST_BLOCK_HEADER_TIMESTAMP'' r"

text \<open>A time in days from now, checked as the code does.\<close>

definition days_after :: "i64 \<Rightarrow> i64 \<Rightarrow> (i64, RepositoryError) result" where
  "days_after now days = and_then (ok_or (checked_i64 (days * 86400000)) (RDecode ''long overflow'')) (\<lambda>ms. repo_checked_add now ms)"

section \<open>Self-destruction\<close>

definition can_selfdestruct :: "vm_codec \<Rightarrow> bytes \<Rightarrow> bool \<Rightarrow> bool \<Rightarrow> bool \<Rightarrow> Repository \<Rightarrow> (bool, RepositoryError) result" where
  "can_selfdestruct X owner freeze_enabled freeze_v2_enabled restricted r =
     and_then (repo_account X owner r) (\<lambda>found.
       case found of
         None \<Rightarrow> Ok False
       | Some account \<Rightarrow>
         and_then
           (if freeze_enabled then
              if ac_delegated_frozen_balance_for_bandwidth account \<noteq> 0 \<or>
                 (case ac_account_resource account of Some res \<Rightarrow> ar_delegated_frozen_balance_for_energy res \<noteq> 0 | None \<Rightarrow> False)
              then Ok False
              else if restricted then
                and_then (now_of r) (\<lambda>now.
                  Ok (\<not> (list_ex (\<lambda>v. fz_frozen_balance v > 0 \<and> fz_expire_time v > now) (ac_frozen account) \<or>
                    (case energy_frozen account of Some v \<Rightarrow> fz_frozen_balance v > 0 \<and> fz_expire_time v > now | None \<Rightarrow> False))))
              else Ok True
            else Ok True)
           (\<lambda>legacy_ok.
              if \<not> legacy_ok then Ok False
              else if freeze_v2_enabled then
                and_then (now_of r) (\<lambda>now.
                  Ok (\<not> (ac_delegated_frozen_v2_balance_for_bandwidth account \<noteq> 0 \<or>
                    (case ac_account_resource account of Some res \<Rightarrow> ar_delegated_frozen_v2_balance_for_energy res \<noteq> 0 | None \<Rightarrow> False) \<or>
                    list_ex (\<lambda>v. u2_unfreeze_expire_time v > now) (ac_unfrozen_v2 account))))
              else Ok True))"

fun inherit_frozen_v2 :: "FreezeV2 list \<Rightarrow> Account \<Rightarrow> (Account, RepositoryError) result" where
  "inherit_frozen_v2 [] to = Ok to"
| "inherit_frozen_v2 (v # vs) to =
     and_then (if f2_amount v > 0 then (case resource_try_from (f2_type v) of Some k \<Rightarrow> add_frozen_v2 to k (f2_amount v) | None \<Rightarrow> Ok to) else Ok to)
       (\<lambda>to. inherit_frozen_v2 vs to)"

fun expired_sum :: "i64 \<Rightarrow> UnFreezeV2 list \<Rightarrow> i64 \<Rightarrow> (i64, RepositoryError) result" where
  "expired_sum now [] acc = Ok acc"
| "expired_sum now (v # vs) acc =
     and_then (if u2_unfreeze_amount v > 0 \<and> u2_unfreeze_expire_time v \<le> now then repo_checked_add acc (u2_unfreeze_amount v) else Ok acc)
       (expired_sum now vs)"

definition clear_resources_v2 :: "Account \<Rightarrow> Account" where
  "clear_resources_v2 from =
     from\<lparr> ac_frozen_v2 := [], ac_unfrozen_v2 := [], ac_net_usage := 0, ac_latest_consume_time := 0,
       ac_account_resource := map_option (\<lambda>r. r\<lparr> ar_energy_usage := 0, ar_latest_consume_time_for_energy := 0 \<rparr>) (ac_account_resource from) \<rparr>"

definition transfer_selfdestruct_resources ::
  "vm_codec \<Rightarrow> bytes \<Rightarrow> bytes \<Rightarrow> bool \<Rightarrow> bool \<Rightarrow> bool \<Rightarrow> (Repository, i64, RepositoryError) prog" where
  "transfer_selfdestruct_resources X owner inheritor freeze_enabled freeze_v2_enabled restricted =
     sbind (sask (repo_account X owner)) (\<lambda>found.
       case found of
         None \<Rightarrow> sret 0
       | Some from \<Rightarrow>
         sbind (sask (repo_account X inheritor)) (\<lambda>heir.
         let to = account_or_new inheritor heir in
         sbind
           (if freeze_enabled then
              let bandwidth = sum_i64 (map fz_frozen_balance (ac_frozen from)); energy = legacy_frozen from Energy in
              sbind (slift (and_then (repo_checked_add bandwidth energy) (repo_checked_add (ac_balance to)))) (\<lambda>balance.
              sbind (change_weight Bandwidth bandwidth 0) (\<lambda>_.
              sbind (change_weight Energy energy 0) (\<lambda>_.
              sret (if restricted
                    then from\<lparr> ac_frozen := [], ac_account_resource := map_option (\<lambda>r. r\<lparr> ar_frozen_balance_for_energy := None \<rparr>) (ac_account_resource from) \<rparr>
                    else from, to\<lparr> ac_balance := balance \<rparr>))))
            else sret (from, to))
           (\<lambda>(from, to).
         sbind
           (if freeze_v2_enabled then
              sbind (slift (inherit_frozen_v2 (ac_frozen_v2 from) to)) (\<lambda>to.
              sbind (sask now_of) (\<lambda>now.
              sbind (slift (expired_sum now (ac_unfrozen_v2 from) 0)) (\<lambda>expired.
              sbind (slift (repo_checked_add (ac_balance to) expired)) (\<lambda>balance.
              sret (expired, clear_resources_v2 from, to\<lparr> ac_balance := balance \<rparr>)))))
            else sret (0, from, to))
           (\<lambda>(expired, from, to).
         sbind (supd (put_account X from)) (\<lambda>_.
         sbind (supd (put_account X to)) (\<lambda>_. sret expired))))))"

section \<open>Legacy staking\<close>

definition freeze_for :: "vm_codec \<Rightarrow> bytes \<Rightarrow> bytes \<Rightarrow> ResourceCode \<Rightarrow> i64 \<Rightarrow> i64 \<Rightarrow> Account \<Rightarrow> Account \<Rightarrow> (Repository, Account, RepositoryError) prog" where
  "freeze_for X owner receiver k n expire from to =
     (let key = legacy_resource_key owner receiver in
      sbind (sask (repo_delegated X key)) (\<lambda>found.
      let d = delegated_or_new owner receiver found in
      sbind (case k of
          Bandwidth \<Rightarrow>
            sbind (slift (repo_checked_add (dr_frozen_balance_for_bandwidth d) n)) (\<lambda>held.
            sbind (slift (repo_checked_add (ac_delegated_frozen_balance_for_bandwidth from) n)) (\<lambda>given.
            sbind (slift (repo_checked_add (ac_acquired_delegated_frozen_balance_for_bandwidth to) n)) (\<lambda>got.
            sret (d\<lparr> dr_frozen_balance_for_bandwidth := held, dr_expire_time_for_bandwidth := expire \<rparr>,
              from\<lparr> ac_delegated_frozen_balance_for_bandwidth := given \<rparr>,
              to\<lparr> ac_acquired_delegated_frozen_balance_for_bandwidth := got \<rparr>))))
        | _ \<Rightarrow>
            sbind (slift (repo_checked_add (dr_frozen_balance_for_energy d) n)) (\<lambda>held.
            sbind (slift (repo_checked_add (ar_delegated_frozen_balance_for_energy (resource_or_default from)) n)) (\<lambda>given.
            sbind (slift (repo_checked_add (ar_acquired_delegated_frozen_balance_for_energy (resource_or_default to)) n)) (\<lambda>got.
            sret (d\<lparr> dr_frozen_balance_for_energy := held, dr_expire_time_for_energy := expire \<rparr>,
              from\<lparr> ac_account_resource := Some ((resource_or_default from)\<lparr> ar_delegated_frozen_balance_for_energy := given \<rparr>) \<rparr>,
              to\<lparr> ac_account_resource := Some ((resource_or_default to)\<lparr> ar_acquired_delegated_frozen_balance_for_energy := got \<rparr>) \<rparr>)))))
        (\<lambda>(d, from, to).
      sbind (supd (put_delegated X key d)) (\<lambda>_.
      sbind (supd (put_account X to)) (\<lambda>_. sret from)))))"

definition freeze_self :: "ResourceCode \<Rightarrow> i64 \<Rightarrow> i64 \<Rightarrow> Account \<Rightarrow> (Account, RepositoryError) result" where
  "freeze_self k n expire from =
     (case k of
        Bandwidth \<Rightarrow>
          (case ac_frozen from of
             v # vs \<Rightarrow> and_then (repo_checked_add (fz_frozen_balance v) n) (\<lambda>m.
               Ok (from\<lparr> ac_frozen := \<lparr> fz_frozen_balance = m, fz_expire_time = expire \<rparr> # vs \<rparr>))
           | [] \<Rightarrow> Ok (from\<lparr> ac_frozen := [\<lparr> fz_frozen_balance = n, fz_expire_time = expire \<rparr>] \<rparr>))
      | _ \<Rightarrow>
          (let resource = resource_or_default from;
               frozen = (case ar_frozen_balance_for_energy resource of Some v \<Rightarrow> v | None \<Rightarrow> \<lparr> fz_frozen_balance = 0, fz_expire_time = 0 \<rparr>) in
           and_then (repo_checked_add (fz_frozen_balance frozen) n) (\<lambda>m.
             Ok (from\<lparr> ac_account_resource := Some (resource\<lparr> ar_frozen_balance_for_energy := Some \<lparr> fz_frozen_balance = m, fz_expire_time = expire \<rparr> \<rparr>) \<rparr>))))"

definition repo_freeze_legacy :: "vm_codec \<Rightarrow> bytes \<Rightarrow> bytes \<Rightarrow> tword \<Rightarrow> tword \<Rightarrow> (Repository, bool, RepositoryError) prog" where
  "repo_freeze_legacy X owner receiver amount kind =
     (let n = to_i64_safe amount in
      case resource_of kind False of
        None \<Rightarrow> sret False
      | Some k \<Rightarrow>
        sbind (sask (repo_account X owner)) (\<lambda>found.
          case found of
            None \<Rightarrow> sret False
          | Some from \<Rightarrow>
            if n < 1000000 \<or> n > ac_balance from \<or> length (ac_frozen from) > 1 then sret False
            else
              sbind (if owner = receiver then sret None
                     else sbind (sask (repo_account X receiver)) (\<lambda>to. sret (Some (account_or_new receiver to)))) (\<lambda>to.
              if (case to of Some a \<Rightarrow> ac_type a = ACCOUNT_TYPE_CONTRACT | None \<Rightarrow> False) then sret False
              else
                sbind (sask now_of) (\<lambda>now.
                sbind (sask (dynamic_or_zero ''MIN_FROZEN_TIME'')) (\<lambda>days.
                sbind (slift (days_after now days)) (\<lambda>expire.
                sbind (case to of Some to \<Rightarrow> freeze_for X owner receiver k n expire from to | None \<Rightarrow> slift (freeze_self k n expire from)) (\<lambda>from.
                let from = from\<lparr> ac_balance := ac_balance from - n \<rparr> in
                sbind (sask (dynamic_or_zero (weight_key k))) (\<lambda>sum.
                sbind (slift (repo_checked_add sum (n sdiv 1000000))) (\<lambda>sum.
                sbind (set_dynamic_i64 (weight_key k) sum) (\<lambda>_.
                sbind (supd (put_account X from)) (\<lambda>_. sret True))))))))))) "

text \<open>Taking back what was delegated to another account; the amount, when its time has come.\<close>

definition unfreeze_from :: "vm_codec \<Rightarrow> bytes \<Rightarrow> bytes \<Rightarrow> ResourceCode \<Rightarrow> i64 \<Rightarrow> Account \<Rightarrow> (Repository, (i64 \<times> Account) option, RepositoryError) prog" where
  "unfreeze_from X owner receiver k now from =
     (let key = legacy_resource_key owner receiver in
      sbind (sask (repo_delegated X key)) (\<lambda>found.
        case found of
          None \<Rightarrow> sret None
        | Some d \<Rightarrow>
          (let n = (if k = Bandwidth then dr_frozen_balance_for_bandwidth d else dr_frozen_balance_for_energy d);
               due = (if k = Bandwidth then dr_expire_time_for_bandwidth d else dr_expire_time_for_energy d) in
           if n \<le> 0 \<or> due > now then sret None
           else
             let d = (if k = Bandwidth then d\<lparr> dr_frozen_balance_for_bandwidth := 0, dr_expire_time_for_bandwidth := 0 \<rparr>
                      else d\<lparr> dr_frozen_balance_for_energy := 0, dr_expire_time_for_energy := 0 \<rparr>);
                 from = (if k = Bandwidth
                   then from\<lparr> ac_delegated_frozen_balance_for_bandwidth := wrap_i64 (ac_delegated_frozen_balance_for_bandwidth from - n) \<rparr>
                   else from\<lparr> ac_account_resource := Some ((resource_or_default from)\<lparr> ar_delegated_frozen_balance_for_energy :=
                     wrap_i64 (ar_delegated_frozen_balance_for_energy (resource_or_default from) - n) \<rparr>) \<rparr>) in
             sbind (sask (repo_account X receiver)) (\<lambda>to.
             sbind (case to of
                 None \<Rightarrow> sret ()
               | Some to \<Rightarrow> supd (put_account X
                   (if k = Bandwidth
                    then to\<lparr> ac_acquired_delegated_frozen_balance_for_bandwidth := wrap_i64 (ac_acquired_delegated_frozen_balance_for_bandwidth to - n) \<rparr>
                    else to\<lparr> ac_account_resource := Some ((resource_or_default to)\<lparr> ar_acquired_delegated_frozen_balance_for_energy :=
                      wrap_i64 (ar_acquired_delegated_frozen_balance_for_energy (resource_or_default to) - n) \<rparr>) \<rparr>))) (\<lambda>_.
             sbind (supd (put_delegated X key d)) (\<lambda>_. sret (Some (n, from))))))))"

definition unfreeze_self :: "ResourceCode \<Rightarrow> i64 \<Rightarrow> Account \<Rightarrow> (i64 \<times> Account) option" where
  "unfreeze_self k now from =
     (case k of
        Bandwidth \<Rightarrow>
          (let due = filter (\<lambda>v. fz_expire_time v \<le> now) (ac_frozen from) in
           if due = [] then None
           else Some (sum_i64 (map fz_frozen_balance due), from\<lparr> ac_frozen := filter (\<lambda>v. fz_expire_time v > now) (ac_frozen from) \<rparr>))
      | _ \<Rightarrow>
          (let n = legacy_frozen from k in
           if n \<le> 0 \<or> legacy_expire from k > now then None
           else Some (n, from\<lparr> ac_account_resource := map_option (\<lambda>r. r\<lparr> ar_frozen_balance_for_energy := None \<rparr>) (ac_account_resource from) \<rparr>)))"

definition repo_unfreeze_legacy :: "vm_codec \<Rightarrow> bytes \<Rightarrow> bytes \<Rightarrow> tword \<Rightarrow> (Repository, i64 option, RepositoryError) prog" where
  "repo_unfreeze_legacy X owner receiver kind =
     (case resource_of kind False of
        None \<Rightarrow> sret None
      | Some k \<Rightarrow>
        sbind (sask (repo_account X owner)) (\<lambda>found.
          case found of
            None \<Rightarrow> sret None
          | Some from \<Rightarrow>
            sbind (sask now_of) (\<lambda>now.
            sbind (if owner \<noteq> receiver then unfreeze_from X owner receiver k now from else sret (unfreeze_self k now from)) (\<lambda>released.
              case released of
                None \<Rightarrow> sret None
              | Some (n, from) \<Rightarrow>
                sbind (slift (repo_checked_add (ac_balance from) n)) (\<lambda>balance.
                sbind (sask (dynamic_or_zero (weight_key k))) (\<lambda>sum.
                sbind (slift (repo_checked_add sum (- (n sdiv 1000000)))) (\<lambda>sum.
                sbind (set_dynamic_i64 (weight_key k) sum) (\<lambda>_.
                sbind (supd (put_account X (from\<lparr> ac_balance := balance \<rparr>))) (\<lambda>_. sret (Some n)))))))))) "

section \<open>Staking, second version\<close>

definition repo_freeze_v2 :: "vm_codec \<Rightarrow> bytes \<Rightarrow> tword \<Rightarrow> tword \<Rightarrow> (Repository, bool, RepositoryError) prog" where
  "repo_freeze_v2 X owner amount kind =
     (let n = to_i64_safe amount in
      case resource_of kind True of
        None \<Rightarrow> sret False
      | Some k \<Rightarrow>
        sbind (sask (repo_account X owner)) (\<lambda>found.
          case found of
            None \<Rightarrow> sret False
          | Some a \<Rightarrow>
            if n < 1000000 \<or> n > ac_balance a then sret False
            else
              sbind (slift (add_frozen_v2 (a\<lparr> ac_balance := ac_balance a - n \<rparr>) k n)) (\<lambda>a'.
              sbind (change_weight k (frozen_v2_of a k) (frozen_v2_of a' k)) (\<lambda>_.
              sbind (supd (put_account X a')) (\<lambda>_. sret True)))))"

definition due_v2 :: "i64 \<Rightarrow> UnFreezeV2 \<Rightarrow> bool" where "due_v2 now v \<longleftrightarrow> u2_unfreeze_expire_time v \<le> now"

definition repo_unfreeze_v2 :: "vm_codec \<Rightarrow> bytes \<Rightarrow> tword \<Rightarrow> tword \<Rightarrow> (Repository, bool, RepositoryError) prog" where
  "repo_unfreeze_v2 X owner amount kind =
     (let n = to_i64_safe amount in
      case resource_of kind True of
        None \<Rightarrow> sret False
      | Some k \<Rightarrow>
        sbind (sask (repo_account X owner)) (\<lambda>found.
          case found of
            None \<Rightarrow> sret False
          | Some a \<Rightarrow>
            sbind (sask now_of) (\<lambda>now.
            if n \<le> 0 \<or> n > frozen_v2_of a k \<or> length (filter (\<lambda>v. u2_unfreeze_expire_time v > now) (ac_unfrozen_v2 a)) \<ge> 32 then sret False
            else
              let expired = sum_i64 (map u2_unfreeze_amount (filter (due_v2 now) (ac_unfrozen_v2 a)));
                  a = a\<lparr> ac_unfrozen_v2 := filter (\<lambda>v. \<not> due_v2 now v) (ac_unfrozen_v2 a) \<rparr> in
              sbind (slift (repo_checked_add (ac_balance a) expired)) (\<lambda>balance.
              let a = a\<lparr> ac_balance := balance \<rparr> in
              sbind (slift (add_frozen_v2 a k (- n))) (\<lambda>a'.
              sbind (change_weight k (frozen_v2_of a k) (frozen_v2_of a' k)) (\<lambda>_.
              sbind (sask (dynamic_or_zero ''UNFREEZE_DELAY_DAYS'')) (\<lambda>days.
              sbind (slift (days_after now days)) (\<lambda>expire.
              sbind (supd (put_account X (a'\<lparr> ac_unfrozen_v2 := ac_unfrozen_v2 a' @
                  [\<lparr> u2_type = resource_number k, u2_unfreeze_amount = n, u2_unfreeze_expire_time = expire \<rparr>] \<rparr>))) (\<lambda>_. sret True))))))))) "

definition repo_withdraw_expired_v2 :: "vm_codec \<Rightarrow> bytes \<Rightarrow> (Repository, i64, RepositoryError) prog" where
  "repo_withdraw_expired_v2 X owner =
     sbind (sask (repo_account X owner)) (\<lambda>found.
       case found of
         None \<Rightarrow> sret 0
       | Some a \<Rightarrow>
         sbind (sask now_of) (\<lambda>now.
         let n = sum_i64 (map u2_unfreeze_amount (filter (due_v2 now) (ac_unfrozen_v2 a))) in
         if n > 0 then
           sbind (slift (repo_checked_add (ac_balance a) n)) (\<lambda>balance.
           sbind (supd (put_account X (a\<lparr> ac_unfrozen_v2 := filter (\<lambda>v. \<not> due_v2 now v) (ac_unfrozen_v2 a), ac_balance := balance \<rparr>))) (\<lambda>_. sret n))
         else sret n))"

text \<open>The loop over the pending entries; \<open>None\<close> for an unknown resource.\<close>

fun cancel_entries :: "i64 \<Rightarrow> UnFreezeV2 list \<Rightarrow> Account \<Rightarrow> (Repository, Account option, RepositoryError) prog" where
  "cancel_entries now [] a = sret (Some a)"
| "cancel_entries now (v # vs) a =
     (if u2_unfreeze_expire_time v \<le> now then
        sbind (slift (repo_checked_add (ac_balance a) (u2_unfreeze_amount v))) (\<lambda>balance. cancel_entries now vs (a\<lparr> ac_balance := balance \<rparr>))
      else
        case resource_try_from (u2_type v) of
          None \<Rightarrow> sret None
        | Some k \<Rightarrow>
          sbind (slift (add_frozen_v2 a k (u2_unfreeze_amount v))) (\<lambda>a'.
          sbind (change_weight k (frozen_v2_of a k) (frozen_v2_of a' k)) (\<lambda>_. cancel_entries now vs a')))"

definition repo_cancel_all_unfreeze_v2 :: "vm_codec \<Rightarrow> bytes \<Rightarrow> (Repository, bool, RepositoryError) prog" where
  "repo_cancel_all_unfreeze_v2 X owner =
     sbind (sask (dynamic_or_zero ''ALLOW_CANCEL_ALL_UNFREEZE_V2'')) (\<lambda>allowed.
     if allowed \<noteq> 1 then sret False
     else
       sbind (sask (repo_account X owner)) (\<lambda>found.
         case found of
           None \<Rightarrow> sret False
         | Some a \<Rightarrow>
           if ac_unfrozen_v2 a = [] then sret False
           else
             sbind (sask now_of) (\<lambda>now.
             sbind (cancel_entries now (ac_unfrozen_v2 a) (a\<lparr> ac_unfrozen_v2 := [] \<rparr>)) (\<lambda>res.
               case res of None \<Rightarrow> sret False | Some a \<Rightarrow> sbind (supd (put_account X a)) (\<lambda>_. sret True)))))"

definition freeze_expire_time :: "vm_codec \<Rightarrow> bytes \<Rightarrow> bytes \<Rightarrow> tword \<Rightarrow> Repository \<Rightarrow> (i64, RepositoryError) result" where
  "freeze_expire_time X owner target kind r =
     (let k = to_i64_safe kind in
      if owner = target then
        and_then (repo_account X owner r) (\<lambda>found.
          case found of
            None \<Rightarrow> Ok 0
          | Some a \<Rightarrow>
            Ok (if k = 0 then (case ac_frozen a of v # _ \<Rightarrow> if fz_frozen_balance v \<noteq> 0 then fz_expire_time v else 0 | [] \<Rightarrow> 0)
                else if k = 1 then (case energy_frozen a of Some v \<Rightarrow> if fz_frozen_balance v \<noteq> 0 then fz_expire_time v else 0 | None \<Rightarrow> 0)
                else 0))
      else
        and_then (repo_delegated X (legacy_resource_key owner target) r) (\<lambda>found.
          case found of
            None \<Rightarrow> Ok 0
          | Some d \<Rightarrow>
            Ok (if k = 0 \<and> dr_frozen_balance_for_bandwidth d \<noteq> 0 then dr_expire_time_for_bandwidth d
                else if k = 1 \<and> dr_frozen_balance_for_energy d \<noteq> 0 then dr_expire_time_for_energy d else 0)))"

section \<open>Rewards and votes\<close>

definition repo_withdraw_reward :: "vm_codec \<Rightarrow> bytes \<Rightarrow> (Repository, i64, RepositoryError) prog" where
  "repo_withdraw_reward X owner =
     sbind (sask (repo_account X owner)) (\<lambda>found.
       case found of
         None \<Rightarrow> sret 0
       | Some a \<Rightarrow>
         let n = ac_allowance a in
         if n \<le> 0 then sret 0
         else
           sbind (slift (repo_checked_add (ac_balance a) n)) (\<lambda>balance.
           sbind (sask now_of) (\<lambda>now.
           sbind (supd (put_account X (a\<lparr> ac_allowance := 0, ac_balance := balance, ac_latest_withdraw_time := now \<rparr>))) (\<lambda>_. sret n))))"

fun sum_votes :: "Vote list \<Rightarrow> i64 \<Rightarrow> (i64, RepositoryError) result" where
  "sum_votes [] n = Ok n"
| "sum_votes (v # vs) n = and_then (repo_checked_add n (vo_vote_count v)) (sum_votes vs)"

definition repo_vote_witness :: "vm_codec \<Rightarrow> bytes \<Rightarrow> Vote list \<Rightarrow> (Repository, bool, RepositoryError) prog" where
  "repo_vote_witness X owner votes =
     sbind (sask (repo_account X owner)) (\<lambda>found.
       case found of
         None \<Rightarrow> sret False
       | Some a \<Rightarrow>
         sbind (sread (\<lambda>r. length votes > 30 \<or> list_ex (\<lambda>v. vo_vote_count v \<le> 0 \<or> repo_raw r KWitness (vo_vote_address v) = None) votes)) (\<lambda>bad.
         if bad then sret False
         else
           sbind (slift (sum_votes votes 0)) (\<lambda>cast.
           let power = wrap_i64 (sum_i64 (map fz_frozen_balance (ac_frozen a)) + sum_i64 (map f2_amount (ac_frozen_v2 a))) in
           if cast > power sdiv 1000000 then sret False
           else
             sbind (supd (put_raw KVotes owner (vc_encode_votes X \<lparr> vs_address = ac_address a, vs_old_votes = ac_votes a, vs_new_votes = votes \<rparr>))) (\<lambda>_.
             sbind (supd (put_account X (a\<lparr> ac_votes := votes \<rparr>))) (\<lambda>_. sret True)))))"

section \<open>Delegation\<close>

definition repo_delegate_v2 :: "vm_codec \<Rightarrow> bytes \<Rightarrow> bytes \<Rightarrow> tword \<Rightarrow> tword \<Rightarrow> (Repository, bool, RepositoryError) prog" where
  "repo_delegate_v2 X owner receiver amount kind =
     (let n = to_i64_safe amount; key = resource_v2_key owner receiver False in
      case resource_of kind False of
        None \<Rightarrow> sret False
      | Some k \<Rightarrow>
        if n < 1000000 \<or> owner = receiver then sret False
        else
          sbind (sask (dynamic_or_zero ''ALLOW_DELEGATE_RESOURCE'')) (\<lambda>allowed.
          if allowed \<noteq> 1 then sret False
          else
            sbind (sask (repo_account X owner)) (\<lambda>from.
            sbind (sask (repo_account X receiver)) (\<lambda>to.
              case (from, to) of
                (Some from, Some to) \<Rightarrow>
                  sbind (sask (repo_contract X receiver)) (\<lambda>contract.
                  if contract \<noteq> None \<or> n > frozen_v2_of from k then sret False
                  else
                    sbind (slift (add_frozen_v2 from k (- n))) (\<lambda>from.
                    sbind (case k of
                        Bandwidth \<Rightarrow>
                          sbind (slift (repo_checked_add (ac_delegated_frozen_v2_balance_for_bandwidth from) n)) (\<lambda>given.
                          sbind (slift (repo_checked_add (ac_acquired_delegated_frozen_v2_balance_for_bandwidth to) n)) (\<lambda>got.
                          sret (from\<lparr> ac_delegated_frozen_v2_balance_for_bandwidth := given \<rparr>, to\<lparr> ac_acquired_delegated_frozen_v2_balance_for_bandwidth := got \<rparr>)))
                      | _ \<Rightarrow>
                          sbind (slift (repo_checked_add (ar_delegated_frozen_v2_balance_for_energy (resource_or_default from)) n)) (\<lambda>given.
                          sbind (slift (repo_checked_add (ar_acquired_delegated_frozen_v2_balance_for_energy (resource_or_default to)) n)) (\<lambda>got.
                          sret (from\<lparr> ac_account_resource := Some ((resource_or_default from)\<lparr> ar_delegated_frozen_v2_balance_for_energy := given \<rparr>) \<rparr>,
                            to\<lparr> ac_account_resource := Some ((resource_or_default to)\<lparr> ar_acquired_delegated_frozen_v2_balance_for_energy := got \<rparr>) \<rparr>)))) (\<lambda>(from, to).
                    sbind (sask (repo_delegated X key)) (\<lambda>found.
                    let d = delegated_or_new owner receiver found in
                    sbind (slift (if k = Bandwidth
                        then and_then (repo_checked_add (dr_frozen_balance_for_bandwidth d) n) (\<lambda>m. Ok (d\<lparr> dr_frozen_balance_for_bandwidth := m \<rparr>))
                        else and_then (repo_checked_add (dr_frozen_balance_for_energy d) n) (\<lambda>m. Ok (d\<lparr> dr_frozen_balance_for_energy := m \<rparr>)))) (\<lambda>d.
                    sbind (supd (put_delegated X key d)) (\<lambda>_.
                    sbind (supd (put_account X from)) (\<lambda>_.
                    sbind (supd (put_account X to)) (\<lambda>_. sret True))))))))
              | _ \<Rightarrow> sret False))))"

definition sat_sub_i64 :: "i64 \<Rightarrow> i64 \<Rightarrow> i64" where "sat_sub_i64 a b = max i64_min (min i64_max (a - b))"

definition repo_undelegate_v2 :: "vm_codec \<Rightarrow> bytes \<Rightarrow> bytes \<Rightarrow> tword \<Rightarrow> tword \<Rightarrow> (Repository, bool, RepositoryError) prog" where
  "repo_undelegate_v2 X owner receiver amount kind =
     (let n = to_i64_safe amount; key = resource_v2_key owner receiver False in
      case resource_of kind False of
        None \<Rightarrow> sret False
      | Some k \<Rightarrow>
        if n \<le> 0 then sret False
        else
          sbind (sask (repo_account X owner)) (\<lambda>from.
          sbind (sask (repo_account X receiver)) (\<lambda>to.
            case (from, to) of
              (Some from, Some to) \<Rightarrow>
                sbind (sask (repo_delegated X key)) (\<lambda>found.
                  case found of
                    None \<Rightarrow> sret False
                  | Some d \<Rightarrow>
                    let held = (if k = Bandwidth then dr_frozen_balance_for_bandwidth d else dr_frozen_balance_for_energy d) in
                    if n > held then sret False
                    else
                      sbind (slift (add_frozen_v2 from k n)) (\<lambda>from.
                      let d = (if k = Bandwidth then d\<lparr> dr_frozen_balance_for_bandwidth := held - n \<rparr> else d\<lparr> dr_frozen_balance_for_energy := held - n \<rparr>);
                          from = (if k = Bandwidth
                            then from\<lparr> ac_delegated_frozen_v2_balance_for_bandwidth := wrap_i64 (ac_delegated_frozen_v2_balance_for_bandwidth from - n) \<rparr>
                            else from\<lparr> ac_account_resource := Some ((resource_or_default from)\<lparr> ar_delegated_frozen_v2_balance_for_energy :=
                              wrap_i64 (ar_delegated_frozen_v2_balance_for_energy (resource_or_default from) - n) \<rparr>) \<rparr>);
                          to = (if k = Bandwidth
                            then to\<lparr> ac_acquired_delegated_frozen_v2_balance_for_bandwidth := sat_sub_i64 (ac_acquired_delegated_frozen_v2_balance_for_bandwidth to) n \<rparr>
                            else to\<lparr> ac_account_resource := Some ((resource_or_default to)\<lparr> ar_acquired_delegated_frozen_v2_balance_for_energy :=
                              sat_sub_i64 (ar_acquired_delegated_frozen_v2_balance_for_energy (resource_or_default to)) n \<rparr>) \<rparr>) in
                      sbind (supd (if dr_frozen_balance_for_bandwidth d = 0 \<and> dr_frozen_balance_for_energy d = 0
                          then delete_raw KDelegatedResource key else put_delegated X key d)) (\<lambda>_.
                      sbind (supd (put_account X from)) (\<lambda>_.
                      sbind (supd (put_account X to)) (\<lambda>_. sret True)))))
            | _ \<Rightarrow> sret False)))"

end
