(* ===== verification/Tvm_Operations.thy ===== *)
theory Tvm_Operations
  imports Tvm_Resources
begin

text \<open>
  Operations of the virtual machine: the operation context and registry of \<open>tron-tvm/src/opcode.rs\<close>,
  the arithmetic, environment and block opcodes of \<open>opcodes_a.rs\<close>, and the stack, memory, storage,
  control and log opcodes of \<open>opcodes_b.rs\<close>. An operation is a program on the context; a
  fault keeps the changes made before it, except that a failing memory access leaves the memory as it was.
  The codec, the hash function, the limiter and the precompiled contracts are the parameter \<open>vm_host\<close>:
  \<open>vh_limiter n\<close> is the answer of the n-th check.
\<close>

section \<open>The context\<close>

record FrameContext =
  fr_code_address :: bytes
  fr_context_address :: bytes
  fr_origin :: bytes
  fr_caller :: bytes
  fr_input :: bytes
  fr_call_value :: tword
  fr_token_value :: tword
  fr_token_id :: tword
  fr_root_txid :: bytes
  fr_contract_version :: i32
  fr_depth :: nat
  fr_is_static :: bool

record TvmLog =
  tl_address :: bytes
  tl_topics :: "bytes list"
  tl_data :: bytes

record InternalTransactionRecord =
  it_parent_hash :: bytes
  it_sender :: bytes
  it_transfer_to :: "bytes option"
  it_data :: bytes
  it_value :: tword
  it_token_info :: "(tword \<times> tword) list"
  it_note :: bytes
  it_depth :: nat
  it_index :: nat
  it_nonce :: i64
  it_rejected :: bool
  it_extra :: bytes
  it_encoded :: bytes
  it_hash :: bytes

record OperationEffects =
  oe_return_data :: bytes
  oe_logs :: "TvmLog list"
  oe_internal_transactions :: "InternalTransactionRecord list"
  oe_deleted_accounts :: "bytes list"

definition effects_default :: OperationEffects where
  "effects_default = \<lparr> oe_return_data = [], oe_logs = [], oe_internal_transactions = [], oe_deleted_accounts = [] \<rparr>"

datatype CallKind = CKCall | CKCallCode | CKDelegateCall | CKStaticCall | CKCallToken

record CallRequest =
  cr_kind :: CallKind
  cr_data :: bytes
  cr_destination :: bytes
  cr_energy_limit :: i64
  cr_reserved_energy :: i64
  cr_value :: tword
  cr_token_value :: tword
  cr_token_id :: tword
  cr_output_offset :: usize
  cr_output_size :: usize

datatype CreateKind = KCreate | KCreate2

record CreateRequest =
  ct_kind :: CreateKind
  ct_init_code :: bytes
  ct_energy_limit :: i64
  ct_value :: tword
  ct_salt :: "tword option"

datatype OperationControl =
    OContinue | OHalt bytes | ORevert bytes | OCall CallRequest | OCreate CreateRequest | OSelfDestruct bytes

record OperationContext =
  oc_rules :: TvmRules
  oc_frame :: FrameContext
  oc_program :: Program
  oc_stack :: Stack1024
  oc_memory :: Memory
  oc_effects :: OperationEffects
  oc_energy :: EnergyMeter
  oc_repository :: Repository
  oc_checks :: nat

type_synonym 'a op = "(OperationContext, 'a, VmFault) prog"

record vm_host =
  vh_codec :: vm_codec
  vh_limiter :: "nat \<Rightarrow> (unit, VmFault) result"
  vh_precompile :: "bytes \<Rightarrow> TvmRules \<Rightarrow>
    ((bytes \<Rightarrow> i64) \<times> (bytes \<Rightarrow> bytes option \<Rightarrow> Repository \<Rightarrow> Repository \<times> bool \<times> bytes)) option"
  vh_modexp_timeout :: "bytes \<Rightarrow> bytes \<Rightarrow> TvmRules \<Rightarrow> bool"

record OperationVariant =
  ov_when :: "TvmRules \<Rightarrow> bool"
  ov_energy :: "OperationContext \<Rightarrow> (i64, VmFault) result"
  ov_execute :: "OperationControl op"

record OperationSpec =
  os_opcode :: u8
  os_required_before :: nat
  os_resulting_window :: nat
  os_activation :: "TvmRules \<Rightarrow> bool"
  os_variants :: "OperationVariant list"

definition always :: "TvmRules \<Rightarrow> bool" where "always _ = True"

section \<open>The registry\<close>

datatype RegistryError = Duplicate u8 | NoVariants u8 | InvalidShape u8 | NoActiveVariant u8 | WrongRegisteredCount usize

type_synonym OperationRegistry = "u8 \<rightharpoonup> OperationSpec"

fun add_specs :: "OperationSpec list \<Rightarrow> OperationRegistry \<Rightarrow> (OperationRegistry, RegistryError) result" where
  "add_specs [] slots = Ok slots"
| "add_specs (spec # specs) slots =
     (if slots (os_opcode spec) \<noteq> None then Err (Duplicate (os_opcode spec))
      else if os_variants spec = [] then Err (NoVariants (os_opcode spec))
      else if os_required_before spec > 1024 \<or> os_resulting_window spec > 1024 then Err (InvalidShape (os_opcode spec))
      else add_specs specs (slots(os_opcode spec \<mapsto> spec)))"

definition from_families :: "OperationSpec list list \<Rightarrow> (OperationRegistry, RegistryError) result" where
  "from_families families = add_specs (concat families) Map.empty"

definition all_opcodes :: "u8 list" where "all_opcodes = map word_of_nat [0..<256]"

definition registered_count :: "OperationRegistry \<Rightarrow> usize" where
  "registered_count slots = length (filter (\<lambda>o'. slots o' \<noteq> None) all_opcodes)"

text \<open>The last variant that applies is the one in force.\<close>

definition registry_resolve :: "OperationRegistry \<Rightarrow> TvmRules \<Rightarrow> u8 \<Rightarrow> (OperationSpec \<times> OperationVariant) option" where
  "registry_resolve slots rules opcode =
     Option.bind (slots opcode) (\<lambda>spec.
       if \<not> os_activation spec rules then None
       else (case filter (\<lambda>v. ov_when v rules) (os_variants spec) of [] \<Rightarrow> None | vs \<Rightarrow> Some (spec, last vs)))"

section \<open>Steps on the context\<close>

definition op_pop :: "tword op" where
  "op_pop c = (case stack_pop (oc_stack c) of Err e \<Rightarrow> (c, Err e) | Ok (v, st) \<Rightarrow> (c\<lparr> oc_stack := st \<rparr>, Ok v))"

definition op_push :: "tword \<Rightarrow> unit op" where
  "op_push v c = (case stack_push v (oc_stack c) of Err e \<Rightarrow> (c, Err e) | Ok st \<Rightarrow> (c\<lparr> oc_stack := st \<rparr>, Ok ()))"

definition op_swap :: "nat \<Rightarrow> unit op" where
  "op_swap n c = (case stack_swap n (oc_stack c) of Err e \<Rightarrow> (c, Err e) | Ok st \<Rightarrow> (c\<lparr> oc_stack := st \<rparr>, Ok ()))"

definition op_read :: "usize \<Rightarrow> usize \<Rightarrow> bytes op" where
  "op_read offset sz c = (case memory_read offset sz (oc_memory c) of Err e \<Rightarrow> (c, Err e) | Ok (bs, m) \<Rightarrow> (c\<lparr> oc_memory := m \<rparr>, Ok bs))"

definition op_memory :: "(Memory \<Rightarrow> (Memory, VmFault) result) \<Rightarrow> unit op" where
  "op_memory f c = (case f (oc_memory c) of Err e \<Rightarrow> (c, Err e) | Ok m \<Rightarrow> (c\<lparr> oc_memory := m \<rparr>, Ok ()))"

definition op_jump :: "usize \<Rightarrow> unit op" where
  "op_jump pc c = (case program_jump pc (oc_program c) of Err e \<Rightarrow> (c, Err e) | Ok p \<Rightarrow> (c\<lparr> oc_program := p \<rparr>, Ok ()))"

definition op_read_push :: "nat \<Rightarrow> tword op" where
  "op_read_push n c = (case read_push n (oc_program c) of (w, p) \<Rightarrow> (c\<lparr> oc_program := p \<rparr>, Ok w))"

definition op_spend :: "i64 \<Rightarrow> unit op" where
  "op_spend amount c = (case spend amount (oc_energy c) of (m, res) \<Rightarrow> (c\<lparr> oc_energy := m \<rparr>, res))"

definition op_check_limit :: "vm_host \<Rightarrow> unit op" where
  "op_check_limit H c = (c\<lparr> oc_checks := oc_checks c + 1 \<rparr>, vh_limiter H (oc_checks c))"

definition op_repository :: "(Repository \<Rightarrow> Repository) \<Rightarrow> unit op" where
  "op_repository f = supd (\<lambda>c. c\<lparr> oc_repository := f (oc_repository c) \<rparr>)"

definition op_effects :: "(OperationEffects \<Rightarrow> OperationEffects) \<Rightarrow> unit op" where
  "op_effects f = supd (\<lambda>c. c\<lparr> oc_effects := f (oc_effects c) \<rparr>)"

text \<open>A read of the repository; every error of it is the fault \<open>Other\<close>.\<close>

definition op_query :: "(Repository \<Rightarrow> ('a, RepositoryError) result) \<Rightarrow> 'a op" where
  "op_query f = sask (\<lambda>c. case f (oc_repository c) of Err _ \<Rightarrow> Err VOther | Ok x \<Rightarrow> Ok x)"

definition cont :: "OperationControl op" where "cont = sret OContinue"

definition op_finish :: "tword \<Rightarrow> OperationControl op" where "op_finish v = sbind (op_push v) (\<lambda>_. cont)"

definition i32_usize :: "tword \<Rightarrow> usize" where "i32_usize w = nat (to_i32_safe w)"

definition fixed_energy :: "i64 \<Rightarrow> OperationContext \<Rightarrow> (i64, VmFault) result" where "fixed_energy n _ = Ok n"

section \<open>Arithmetic, comparison and bits\<close>

definition boolw :: "bool \<Rightarrow> tword" where "boolw b = (if b then word_ONE else word_ZERO)"

definition binary :: "(tword \<Rightarrow> tword \<Rightarrow> tword) \<Rightarrow> OperationControl op" where
  "binary f = sbind op_pop (\<lambda>a. sbind op_pop (\<lambda>b. op_finish (f a b)))"

definition op_add :: "OperationControl op" where "op_add = binary wrapping_add"
definition op_mul :: "OperationControl op" where "op_mul = binary wrapping_mul"
definition op_sub :: "OperationControl op" where "op_sub = binary wrapping_sub"
definition op_div :: "OperationControl op" where "op_div = binary unsigned_div"
definition op_sdiv :: "OperationControl op" where "op_sdiv = binary signed_div"
definition op_modu :: "OperationControl op" where "op_modu = binary unsigned_rem"
definition op_smod :: "OperationControl op" where "op_smod = binary signed_rem"

definition op_addmod :: "OperationControl op" where
  "op_addmod = sbind op_pop (\<lambda>a. sbind op_pop (\<lambda>b. sbind op_pop (\<lambda>m. op_finish (modular a b m False))))"

definition op_mulmod :: "OperationControl op" where
  "op_mulmod = sbind op_pop (\<lambda>a. sbind op_pop (\<lambda>b. sbind op_pop (\<lambda>m. op_finish (modular a b m True))))"

definition op_exp :: "OperationControl op" where "op_exp = sbind op_pop (\<lambda>a. sbind op_pop (\<lambda>p. op_finish (word_exp a p)))"
definition op_signextend :: "OperationControl op" where "op_signextend = sbind op_pop (\<lambda>k. sbind op_pop (\<lambda>v. op_finish (sign_extend v k)))"

definition op_lt :: "OperationControl op" where "op_lt = binary (\<lambda>a b. boolw (a < b))"
definition op_gt :: "OperationControl op" where "op_gt = binary (\<lambda>a b. boolw (a > b))"
definition op_slt :: "OperationControl op" where "op_slt = binary (\<lambda>a b. boolw (signed_cmp a b = Less))"
definition op_sgt :: "OperationControl op" where "op_sgt = binary (\<lambda>a b. boolw (signed_cmp a b = Greater))"
definition op_eq :: "OperationControl op" where "op_eq = binary (\<lambda>a b. boolw (a = b))"
definition op_iszero :: "OperationControl op" where "op_iszero = sbind op_pop (\<lambda>a. op_finish (boolw (word_is_zero a)))"
definition op_and :: "OperationControl op" where "op_and = binary (\<lambda>a b. a AND b)"
definition op_or :: "OperationControl op" where "op_or = binary (\<lambda>a b. a OR b)"
definition op_xor :: "OperationControl op" where "op_xor = binary (\<lambda>a b. a XOR b)"
definition op_not :: "OperationControl op" where "op_not = sbind op_pop (\<lambda>a. op_finish (NOT a))"

definition byte_of :: "tword \<Rightarrow> tword \<Rightarrow> tword" where
  "byte_of i v = (if i < word_from_u64 32 then word_from_u64 (uint (word_to_be v ! nat (low_u32 i))) else word_ZERO)"

definition op_byte :: "OperationControl op" where "op_byte = sbind op_pop (\<lambda>i. sbind op_pop (\<lambda>v. op_finish (byte_of i v)))"
definition op_shl :: "OperationControl op" where "op_shl = sbind op_pop (\<lambda>s. sbind op_pop (\<lambda>v. op_finish (word_shl v s)))"
definition op_shr :: "OperationControl op" where "op_shr = sbind op_pop (\<lambda>s. sbind op_pop (\<lambda>v. op_finish (word_shr v s)))"
definition op_sar :: "OperationControl op" where "op_sar = sbind op_pop (\<lambda>s. sbind op_pop (\<lambda>v. op_finish (word_sar v s)))"
definition op_clz :: "OperationControl op" where "op_clz = sbind op_pop (\<lambda>v. op_finish (word_from_u64 (int (leading_zeros v))))"

section \<open>Energy of the first family\<close>

definition peeks :: "OperationContext \<Rightarrow> nat \<Rightarrow> (tword, VmFault) result" where "peeks c n = peek n (oc_stack c)"

definition exp_energy :: "OperationContext \<Rightarrow> (i64, VmFault) result" where
  "exp_energy c = and_then (peeks c 1) (\<lambda>p. Ok (10 + 10 * int (bytes_occupied p)))"

definition mem_energy :: "OperationContext \<Rightarrow> tword \<Rightarrow> tword \<Rightarrow> i64 \<Rightarrow> i64 \<Rightarrow> (i64, VmFault) result" where
  "mem_energy c off sz base per_word =
     (let o' = i32_usize off; n = i32_usize sz in
      and_then (if n = 0 then Ok (mm_soft_len (oc_memory c))
                else ok_or (Option.bind (usize_checked_add o' n) (\<lambda>end. if end \<le> MEMORY_LIMIT then Some end else None)) VOutOfMemory) (\<lambda>end.
      and_then (meter_memory_delta (mm_soft_len (oc_memory c)) end) (\<lambda>delta.
      and_then (ok_or (usize_checked_add n 31) VOutOfMemory) (\<lambda>rounded.
      let words = int (rounded div 32) in
      ok_or (Option.bind (checked_i64 (base + delta)) (\<lambda>v. Option.bind (checked_i64 (words * per_word)) (\<lambda>w. checked_i64 (v + w)))) VOutOfEnergy))))"

definition sha3_energy :: "OperationContext \<Rightarrow> (i64, VmFault) result" where
  "sha3_energy c = and_then (peeks c 0) (\<lambda>off. and_then (peeks c 1) (\<lambda>sz. mem_energy c off sz 30 6))"

definition copy_energy :: "OperationContext \<Rightarrow> (i64, VmFault) result" where
  "copy_energy c = and_then (peeks c 0) (\<lambda>off. and_then (peeks c 2) (\<lambda>sz. mem_energy c off sz 0 3))"

definition extcopy_energy :: "OperationContext \<Rightarrow> (i64, VmFault) result" where
  "extcopy_energy c = and_then (peeks c 1) (\<lambda>off. and_then (peeks c 3) (\<lambda>sz. mem_energy c off sz 20 3))"

definition retcopy_energy :: "OperationContext \<Rightarrow> (i64, VmFault) result" where "retcopy_energy c = copy_energy c"

section \<open>Environment and block\<close>

definition op_sha3 :: "vm_host \<Rightarrow> OperationControl op" where
  "op_sha3 H = sbind op_pop (\<lambda>o'. sbind op_pop (\<lambda>n.
     sbind (op_read (i32_usize o') (i32_usize n)) (\<lambda>data. op_finish (word_from_be (vc_keccak256 (vh_codec H) data)))))"

definition addr_word :: "bytes \<Rightarrow> bool \<Rightarrow> tword" where
  "addr_word bs last_20 =
     (let bs = (if last_20 \<and> length bs > 20 then drop (length bs - 20) bs else bs);
          n = min (length bs) 32
      in word_from_be (replicate (32 - n) 0 @ drop (length bs - n) bs))"

definition op_address :: "OperationControl op" where
  "op_address = sbind (sread (\<lambda>c. addr_word (fr_context_address (oc_frame c)) (tr_multi_sign (oc_rules c)))) op_finish"
definition op_origin :: "OperationControl op" where
  "op_origin = sbind (sread (\<lambda>c. addr_word (fr_origin (oc_frame c)) (tr_multi_sign (oc_rules c)))) op_finish"
definition op_caller :: "OperationControl op" where "op_caller = sbind (sread (\<lambda>c. addr_word (fr_caller (oc_frame c)) True)) op_finish"
definition op_callvalue :: "OperationControl op" where "op_callvalue = sbind (sread (\<lambda>c. fr_call_value (oc_frame c))) op_finish"

definition op_balance :: "vm_host \<Rightarrow> OperationControl op" where
  "op_balance H = sbind op_pop (\<lambda>a. sbind (op_query (repo_balance (vh_codec H) (to_tron_address a))) (\<lambda>v. op_finish (word_from_u64 (max v 0))))"

definition load_word :: "bytes \<Rightarrow> usize \<Rightarrow> tword" where
  "load_word input o' =
     (if o' < length input then let n = min 32 (length input - o') in word_from_be (take n (drop o' input) @ replicate (32 - n) 0)
      else word_from_be (replicate 32 0))"

definition op_calldataload :: "OperationControl op" where
  "op_calldataload = sbind op_pop (\<lambda>o'. sbind (sread (\<lambda>c. load_word (fr_input (oc_frame c)) (i32_usize o'))) op_finish)"
definition op_calldatasize :: "OperationControl op" where
  "op_calldatasize = sbind (sread (\<lambda>c. word_from_u64 (int (length (fr_input (oc_frame c)))))) op_finish"

definition copy_to_memory :: "tword \<Rightarrow> tword \<Rightarrow> tword \<Rightarrow> bytes \<Rightarrow> unit op" where
  "copy_to_memory destination source_offset sz source =
     op_memory (write_padded (i32_usize destination) (i32_usize sz) source (i32_usize source_offset))"

definition op_calldatacopy :: "OperationControl op" where
  "op_calldatacopy = sbind op_pop (\<lambda>m. sbind op_pop (\<lambda>o'. sbind op_pop (\<lambda>n.
     sbind (sread (\<lambda>c. fr_input (oc_frame c))) (\<lambda>input. sbind (copy_to_memory m o' n input) (\<lambda>_. cont)))))"
definition op_codesize :: "OperationControl op" where
  "op_codesize = sbind (sread (\<lambda>c. word_from_u64 (int (length (pg_code (oc_program c)))))) op_finish"
definition op_codecopy :: "OperationControl op" where
  "op_codecopy = sbind op_pop (\<lambda>m. sbind op_pop (\<lambda>o'. sbind op_pop (\<lambda>n.
     sbind (sread (\<lambda>c. pg_code (oc_program c))) (\<lambda>code. sbind (copy_to_memory m o' n code) (\<lambda>_. cont)))))"
definition op_returndatasize :: "OperationControl op" where
  "op_returndatasize = sbind (sread (\<lambda>c. word_from_u64 (int (length (oe_return_data (oc_effects c)))))) op_finish"

definition op_returndatacopy :: "OperationControl op" where
  "op_returndatacopy = sbind op_pop (\<lambda>m. sbind op_pop (\<lambda>o'. sbind op_pop (\<lambda>n.
     sbind (sask (\<lambda>c.
       and_then (ok_or (usize_checked_add (i32_usize o') (i32_usize n)) VReturnDataBounds) (\<lambda>end.
         if end > length (oe_return_data (oc_effects c)) then Err VReturnDataBounds
         else Ok (take (end - i32_usize o') (drop (i32_usize o') (oe_return_data (oc_effects c))))))) (\<lambda>data.
     sbind (op_memory (memory_write (i32_usize m) data)) (\<lambda>_. cont)))))"

definition dynamic_word :: "string \<Rightarrow> Repository \<Rightarrow> tword" where
  "dynamic_word key r = word_from_u64 (max (case repo_dynamic_i64 key r of Ok (Some v) \<Rightarrow> v | _ \<Rightarrow> 0) 0)"

definition op_gasprice :: "OperationControl op" where
  "op_gasprice = sbind (sread (\<lambda>c.
     if tr_compatible_evm (oc_rules c) \<and> fr_contract_version (oc_frame c) = 1 then dynamic_word ''ENERGY_FEE'' (oc_repository c) else word_ZERO)) op_finish"

definition code_or_empty :: "bytes \<Rightarrow> Repository \<Rightarrow> bytes" where
  "code_or_empty a r = (case repo_code a r of Some code \<Rightarrow> code | None \<Rightarrow> [])"

definition op_extcodesize :: "OperationControl op" where
  "op_extcodesize = sbind op_pop (\<lambda>a. sbind (sread (\<lambda>c. word_from_u64 (int (length (code_or_empty (to_tron_address a) (oc_repository c)))))) op_finish)"

definition op_extcodecopy :: "OperationControl op" where
  "op_extcodecopy = sbind op_pop (\<lambda>a. sbind op_pop (\<lambda>m. sbind op_pop (\<lambda>o'. sbind op_pop (\<lambda>n.
     sbind (sread (\<lambda>c. code_or_empty (to_tron_address a) (oc_repository c))) (\<lambda>code. sbind (copy_to_memory m o' n code) (\<lambda>_. cont))))))"

definition op_extcodehash :: "vm_host \<Rightarrow> OperationControl op" where
  "op_extcodehash H = sbind op_pop (\<lambda>a.
     sbind (op_query (repo_account (vh_codec H) (to_tron_address a))) (\<lambda>found.
     sbind (sread (\<lambda>c. case found of
         None \<Rightarrow> word_ZERO
       | Some _ \<Rightarrow> word_from_be (vc_keccak256 (vh_codec H) (code_or_empty (to_tron_address a) (oc_repository c))))) op_finish))"

definition block_id_at :: "i64 \<Rightarrow> Repository \<Rightarrow> bytes option" where
  "block_id_at n r = repo_raw r KBlockIndex (i64_to_be_bytes n)"

definition block_witness :: "vm_host \<Rightarrow> i64 \<Rightarrow> Repository \<Rightarrow> bytes" where
  "block_witness H n r =
     (case Option.bind (block_id_at n r) (\<lambda>i. Option.bind (repo_raw r KBlock i) (vc_block_witness (vh_codec H))) of Some w \<Rightarrow> w | None \<Rightarrow> [])"

definition block_hash_word :: "TvmRules \<Rightarrow> i64 \<Rightarrow> Repository \<Rightarrow> tword" where
  "block_hash_word rules n r =
     (let cur = tr_latest_block_number rules;
          lower = (if tr_disable_java_math rules then max cur 256 - 256 else sat_sub_i64 cur 256)
      in if n < cur \<and> n \<ge> lower
         then (case block_id_at n r of Some v \<Rightarrow> if length v = 32 then word_from_be v else word_ZERO | None \<Rightarrow> word_ZERO)
         else word_ZERO)"

definition op_blockhash :: "OperationControl op" where
  "op_blockhash = sbind op_pop (\<lambda>n. sbind (sread (\<lambda>c. block_hash_word (oc_rules c) (to_i32_safe n) (oc_repository c))) op_finish)"

definition op_coinbase :: "vm_host \<Rightarrow> OperationControl op" where
  "op_coinbase H = sbind (sread (\<lambda>c. addr_word (block_witness H (tr_latest_block_number (oc_rules c)) (oc_repository c)) False)) op_finish"

definition op_timestamp :: "OperationControl op" where
  "op_timestamp = sbind (sread (\<lambda>c.
     let ms = (case repo_dynamic_i64 ''LATEST_BLOCK_HEADER_TIMESTAMP'' (oc_repository c) of Ok (Some v) \<Rightarrow> v | _ \<Rightarrow> 0)
     in word_from_u64 (max (ms sdiv 1000) 0))) op_finish"

definition op_number :: "OperationControl op" where
  "op_number = sbind (sread (\<lambda>c. word_from_u64 (max (tr_latest_block_number (oc_rules c)) 0))) op_finish"
definition op_zero :: "OperationControl op" where "op_zero = op_finish word_ZERO"

definition op_chainid :: "OperationControl op" where
  "op_chainid = sbind (sread (\<lambda>c.
     let i = (case block_id_at 0 (oc_repository c) of Some v \<Rightarrow> v | None \<Rightarrow> []);
         bs = (if tr_compatible_evm (oc_rules c) \<or> tr_optimized_chain_id (oc_rules c) then drop (length i - 4) i else i)
     in addr_word bs False)) op_finish"

definition op_selfbalance :: "vm_host \<Rightarrow> OperationControl op" where
  "op_selfbalance H = sbind (sread (\<lambda>c. fr_context_address (oc_frame c))) (\<lambda>a.
     sbind (op_query (repo_balance (vh_codec H) a)) (\<lambda>v. op_finish (word_from_u64 (max v 0))))"

definition op_basefee :: "OperationControl op" where
  "op_basefee = sbind (sread (\<lambda>c. dynamic_word ''ENERGY_FEE'' (oc_repository c))) op_finish"
definition op_blobhash :: "OperationControl op" where "op_blobhash = sbind op_pop (\<lambda>_. op_finish word_ZERO)"

definition spec_row :: "u8 \<Rightarrow> nat \<Rightarrow> nat \<Rightarrow> (TvmRules \<Rightarrow> bool) \<Rightarrow> (OperationContext \<Rightarrow> (i64, VmFault) result) \<Rightarrow> OperationControl op \<Rightarrow> OperationSpec" where
  "spec_row opcode req res activation energy execute =
     \<lparr> os_opcode = opcode, os_required_before = req, os_resulting_window = res, os_activation = activation,
       os_variants = [\<lparr> ov_when = always, ov_energy = energy, ov_execute = execute \<rparr>] \<rparr>"

definition specs_a :: "vm_host \<Rightarrow> OperationSpec list" where
  "specs_a H =
     [spec_row 0x01 2 1 always (fixed_energy 3) op_add, spec_row 0x02 2 1 always (fixed_energy 5) op_mul,
      spec_row 0x03 2 1 always (fixed_energy 3) op_sub, spec_row 0x04 2 1 always (fixed_energy 5) op_div,
      spec_row 0x05 2 1 always (fixed_energy 5) op_sdiv, spec_row 0x06 2 1 always (fixed_energy 5) op_modu,
      spec_row 0x07 2 1 always (fixed_energy 5) op_smod, spec_row 0x08 3 1 always (fixed_energy 8) op_addmod,
      spec_row 0x09 3 1 always (fixed_energy 8) op_mulmod, spec_row 0x0a 2 1 always exp_energy op_exp,
      spec_row 0x0b 2 1 always (fixed_energy 5) op_signextend, spec_row 0x10 2 1 always (fixed_energy 3) op_lt,
      spec_row 0x11 2 1 always (fixed_energy 3) op_gt, spec_row 0x12 2 1 always (fixed_energy 3) op_slt,
      spec_row 0x13 2 1 always (fixed_energy 3) op_sgt, spec_row 0x14 2 1 always (fixed_energy 3) op_eq,
      spec_row 0x15 1 1 always (fixed_energy 3) op_iszero, spec_row 0x16 2 1 always (fixed_energy 3) op_and,
      spec_row 0x17 2 1 always (fixed_energy 3) op_or, spec_row 0x18 2 1 always (fixed_energy 3) op_xor,
      spec_row 0x19 1 1 always (fixed_energy 3) op_not, spec_row 0x1a 2 1 always (fixed_energy 3) op_byte,
      spec_row 0x1b 2 1 tr_constantinople (fixed_energy 3) op_shl, spec_row 0x1c 2 1 tr_constantinople (fixed_energy 3) op_shr,
      spec_row 0x1d 2 1 tr_constantinople (fixed_energy 3) op_sar, spec_row 0x1e 1 1 tr_osaka (fixed_energy 5) op_clz,
      spec_row 0x20 2 1 always sha3_energy (op_sha3 H), spec_row 0x30 0 1 always (fixed_energy 2) op_address,
      spec_row 0x31 1 1 always (fixed_energy 20) (op_balance H), spec_row 0x32 0 1 always (fixed_energy 2) op_origin,
      spec_row 0x33 0 1 always (fixed_energy 2) op_caller, spec_row 0x34 0 1 always (fixed_energy 2) op_callvalue,
      spec_row 0x35 1 1 always (fixed_energy 3) op_calldataload, spec_row 0x36 0 1 always (fixed_energy 2) op_calldatasize,
      spec_row 0x37 3 0 always copy_energy op_calldatacopy, spec_row 0x38 0 1 always (fixed_energy 2) op_codesize,
      spec_row 0x39 3 0 always copy_energy op_codecopy, spec_row 0x3a 0 1 always (fixed_energy 2) op_gasprice,
      spec_row 0x3b 1 1 always (fixed_energy 20) op_extcodesize, spec_row 0x3c 4 0 always extcopy_energy op_extcodecopy,
      spec_row 0x3d 0 1 always (fixed_energy 2) op_returndatasize, spec_row 0x3e 3 0 always retcopy_energy op_returndatacopy,
      spec_row 0x3f 1 1 tr_constantinople (fixed_energy 400) (op_extcodehash H), spec_row 0x40 1 1 always (fixed_energy 20) op_blockhash,
      spec_row 0x41 0 1 always (fixed_energy 2) (op_coinbase H), spec_row 0x42 0 1 always (fixed_energy 2) op_timestamp,
      spec_row 0x43 0 1 always (fixed_energy 2) op_number, spec_row 0x44 0 1 always (fixed_energy 2) op_zero,
      spec_row 0x45 0 1 always (fixed_energy 2) op_zero, spec_row 0x46 0 1 tr_istanbul (fixed_energy 2) op_chainid,
      spec_row 0x47 0 1 tr_istanbul (fixed_energy 5) (op_selfbalance H), spec_row 0x48 0 1 tr_london (fixed_energy 2) op_basefee,
      spec_row 0x49 1 1 tr_blob (fixed_energy 3) op_blobhash, spec_row 0x4a 0 1 tr_blob (fixed_energy 2) op_zero]"

section \<open>Energy of the second family\<close>

definition usize_word :: "tword \<Rightarrow> usize" where "usize_word v = i32_usize v"

definition memory_end :: "tword \<Rightarrow> tword \<Rightarrow> (usize, VmFault) result" where
  "memory_end offset sz = (let n = usize_word sz in if n = 0 then Ok 0 else ok_or (usize_checked_add (usize_word offset) n) VOutOfMemory)"

definition memory_delta :: "OperationContext \<Rightarrow> usize \<Rightarrow> (i64, VmFault) result" where
  "memory_delta c end =
     (if end = 0 \<or> end \<le> mm_soft_len (oc_memory c) then Ok 0 else meter_memory_delta (mm_soft_len (oc_memory c)) end)"

definition current_opcode :: "OperationContext \<Rightarrow> (u8, VmFault) result" where
  "current_opcode c =
     (let i = pg_pc (oc_program c) - 1 in if i < length (pg_code (oc_program c)) then Ok (pg_code (oc_program c) ! i) else Err VIllegalOperation)"

definition energy_memory :: "OperationContext \<Rightarrow> (i64, VmFault) result" where
  "energy_memory c =
     and_then (current_opcode c) (\<lambda>opcode.
     and_then (peeks c 0) (\<lambda>off.
     and_then (memory_end off (if opcode = 0x53 then word_ONE else word_from_u64 32)) (\<lambda>end.
     and_then (memory_delta c end) (\<lambda>delta.
     ok_or (checked_i64 (delta + (if tr_higher_cpu_memory (oc_rules c) then 1 else 0))) VOutOfEnergy))))"

definition storage_value :: "vm_host \<Rightarrow> OperationContext \<Rightarrow> tword \<Rightarrow> tword option" where
  "storage_value H c slot = repo_storage (vh_codec H) (fr_context_address (oc_frame c)) slot (fr_contract_version (oc_frame c)) None (oc_repository c)"

definition energy_sstore :: "vm_host \<Rightarrow> OperationContext \<Rightarrow> (i64, VmFault) result" where
  "energy_sstore H c =
     and_then (peeks c 0) (\<lambda>slot. and_then (peeks c 1) (\<lambda>new.
       Ok (if storage_value H c slot = None \<and> \<not> word_is_zero new then 20000 else 5000)))"

definition copy_words :: "usize \<Rightarrow> (i64, VmFault) result" where
  "copy_words sz = and_then (ok_or (usize_checked_add sz 31) VOutOfMemory) (\<lambda>n. ok_or (checked_i64 (int (n div 32) * 3)) VOutOfEnergy)"

definition energy_mcopy :: "OperationContext \<Rightarrow> (i64, VmFault) result" where
  "energy_mcopy c =
     and_then (peeks c 0) (\<lambda>dst. and_then (peeks c 1) (\<lambda>src. and_then (peeks c 2) (\<lambda>sz.
     and_then (memory_end (if dst > src then dst else src) sz) (\<lambda>end.
     and_then (memory_delta c end) (\<lambda>delta.
     ok_or (Option.bind (checked_i64 (3 + delta)) (\<lambda>v.
       case copy_words (usize_word sz) of Err _ \<Rightarrow> None | Ok w \<Rightarrow> checked_i64 (v + w))) VOutOfEnergy)))))"

definition energy_log :: "OperationContext \<Rightarrow> (i64, VmFault) result" where
  "energy_log c =
     and_then (current_opcode c) (\<lambda>opcode.
     let topics = uint (opcode - 0xa0) in
     and_then (peeks c 1) (\<lambda>sz.
     and_then (ok_or (checked_i64 (int (usize_word sz) * 8)) VOutOfEnergy) (\<lambda>data.
     ok_or (Option.bind (checked_i64 (375 + topics * 375)) (\<lambda>v.
       Option.bind (checked_i64 (v + data)) (\<lambda>v.
         case and_then (memory_end (case peeks c 0 of Ok w \<Rightarrow> w | Err _ \<Rightarrow> word_MAX) (case peeks c 1 of Ok w \<Rightarrow> w | Err _ \<Rightarrow> word_MAX)) (memory_delta c) of
           Err _ \<Rightarrow> None | Ok delta \<Rightarrow> checked_i64 (v + delta)))) VOutOfEnergy)))"

definition energy_return :: "OperationContext \<Rightarrow> (i64, VmFault) result" where
  "energy_return c = and_then (peeks c 0) (\<lambda>off. and_then (peeks c 1) (\<lambda>sz. and_then (memory_end off sz) (memory_delta c)))"

section \<open>Stack, memory, storage, control and logs\<close>

definition execute_stop :: "OperationControl op" where "execute_stop = sret (OHalt [])"

definition static_guard :: "unit op" where
  "static_guard = sask (\<lambda>c. if fr_is_static (oc_frame c) then Err VStaticViolation else Ok ())"

fun pop_topics :: "nat \<Rightarrow> bytes list op" where
  "pop_topics 0 = sret []"
| "pop_topics (Suc n) = sbind op_pop (\<lambda>t. sbind (pop_topics n) (\<lambda>ts. sret (word_to_be t # ts)))"

definition exec_mload :: "unit op" where
  "exec_mload = sbind op_pop (\<lambda>o'. sbind (op_read (usize_word o') 32) (\<lambda>b. op_push (word_from_be b)))"
definition exec_mstore :: "unit op" where
  "exec_mstore = sbind op_pop (\<lambda>o'. sbind op_pop (\<lambda>v. op_memory (memory_write (usize_word o') (word_to_be v))))"
definition exec_mstore8 :: "unit op" where
  "exec_mstore8 = sbind op_pop (\<lambda>o'. sbind op_pop (\<lambda>v. op_memory (memory_write (usize_word o') [word_to_be v ! 31])))"
definition exec_sload :: "vm_host \<Rightarrow> unit op" where
  "exec_sload H = sbind op_pop (\<lambda>k. sbind (sread (\<lambda>c. case storage_value H c k of Some v \<Rightarrow> v | None \<Rightarrow> word_ZERO)) op_push)"

definition exec_sstore :: "vm_host \<Rightarrow> unit op" where
  "exec_sstore H = sbind static_guard (\<lambda>_. sbind op_pop (\<lambda>k. sbind op_pop (\<lambda>v. sbind (sread oc_frame) (\<lambda>f.
     op_repository (set_storage (vh_codec H) (fr_context_address f) k v (fr_contract_version f) None)))))"

definition exec_jump :: "unit op" where "exec_jump = sbind op_pop (\<lambda>p. op_jump (usize_word p))"
definition exec_jumpi :: "unit op" where
  "exec_jumpi = sbind op_pop (\<lambda>p. sbind op_pop (\<lambda>b. if \<not> word_is_zero b then op_jump (usize_word p) else sret ()))"

definition exec_tload :: "unit op" where
  "exec_tload = sbind op_pop (\<lambda>k. sbind (sread (\<lambda>c. repo_transient (oc_repository c) (fr_context_address (oc_frame c)) k)) op_push)"
definition exec_tstore :: "unit op" where
  "exec_tstore = sbind static_guard (\<lambda>_. sbind op_pop (\<lambda>k. sbind op_pop (\<lambda>v. sbind (sread oc_frame) (\<lambda>f.
     op_repository (set_transient (fr_context_address f) k v)))))"

definition exec_mcopy :: "unit op" where
  "exec_mcopy = sbind op_pop (\<lambda>d. sbind op_pop (\<lambda>s. sbind op_pop (\<lambda>n. op_memory (copy_within (usize_word d) (usize_word s) (usize_word n)))))"

definition exec_log :: "nat \<Rightarrow> unit op" where
  "exec_log n = sbind static_guard (\<lambda>_. sbind op_pop (\<lambda>o'. sbind op_pop (\<lambda>sz. sbind (pop_topics n) (\<lambda>topics.
     sbind (op_read (usize_word o') (usize_word sz)) (\<lambda>data. sbind (sread oc_frame) (\<lambda>f.
     op_effects (\<lambda>e. e\<lparr> oe_logs := oe_logs e @ [\<lparr> tl_address = drop 1 (fr_context_address f), tl_topics = topics, tl_data = data \<rparr>] \<rparr>)))))))"

definition generic_step :: "vm_host \<Rightarrow> u8 \<Rightarrow> unit op" where
  "generic_step H opcode =
     (if opcode = 0x50 then sbind op_pop (\<lambda>_. sret ())
      else if opcode = 0x51 then exec_mload
      else if opcode = 0x52 then exec_mstore
      else if opcode = 0x53 then exec_mstore8
      else if opcode = 0x54 then exec_sload H
      else if opcode = 0x55 then exec_sstore H
      else if opcode = 0x56 then exec_jump
      else if opcode = 0x57 then exec_jumpi
      else if opcode = 0x58 then sbind (sread (\<lambda>c. word_from_u64 (int (pg_pc (oc_program c) - 1)))) op_push
      else if opcode = 0x59 then sbind (sread (\<lambda>c. word_from_u64 (int (mm_soft_len (oc_memory c))))) op_push
      else if opcode = 0x5a then sbind (sread (\<lambda>c. word_from_u64 (max 0 (remaining (oc_energy c))))) op_push
      else if opcode = 0x5b then sret ()
      else if opcode = 0x5c then exec_tload
      else if opcode = 0x5d then exec_tstore
      else if opcode = 0x5e then exec_mcopy
      else if opcode = 0x5f then op_push word_ZERO
      else if 0x60 \<le> opcode \<and> opcode \<le> 0x7f then sbind (op_read_push (unat (opcode - 0x5f))) op_push
      else if 0x80 \<le> opcode \<and> opcode \<le> 0x8f then sbind (sask (\<lambda>c. peeks c (unat (opcode - 0x80)))) op_push
      else if 0x90 \<le> opcode \<and> opcode \<le> 0x9f then op_swap (unat (opcode - 0x8f))
      else if 0xa0 \<le> opcode \<and> opcode \<le> 0xa4 then exec_log (unat (opcode - 0xa0))
      else sfail VIllegalOperation)"

definition execute_generic :: "vm_host \<Rightarrow> OperationControl op" where
  "execute_generic H = sbind (sask current_opcode) (\<lambda>opcode. sbind (generic_step H opcode) (\<lambda>_. cont))"

definition execute_return :: "OperationControl op" where
  "execute_return = sbind op_pop (\<lambda>o'. sbind op_pop (\<lambda>n. sbind (op_read (usize_word o') (usize_word n)) (\<lambda>data. sret (OHalt data))))"

definition execute_revert :: "OperationControl op" where
  "execute_revert = sbind op_pop (\<lambda>o'. sbind op_pop (\<lambda>n. sbind (op_read (usize_word o') (usize_word n)) (\<lambda>data. sret (ORevert data))))"

definition specs_b :: "vm_host \<Rightarrow> OperationSpec list" where
  "specs_b H =
     [spec_row 0x00 0 0 always (fixed_energy 0) execute_stop, spec_row 0x50 1 0 always (fixed_energy 2) (execute_generic H),
      spec_row 0x51 1 1 always energy_memory (execute_generic H), spec_row 0x52 2 0 always energy_memory (execute_generic H),
      spec_row 0x53 2 0 always energy_memory (execute_generic H), spec_row 0x54 1 1 always (fixed_energy 50) (execute_generic H),
      spec_row 0x55 2 0 always (energy_sstore H) (execute_generic H), spec_row 0x56 1 0 always (fixed_energy 8) (execute_generic H),
      spec_row 0x57 2 0 always (fixed_energy 10) (execute_generic H), spec_row 0x58 0 1 always (fixed_energy 2) (execute_generic H),
      spec_row 0x59 0 1 always (fixed_energy 2) (execute_generic H), spec_row 0x5a 0 1 always (fixed_energy 2) (execute_generic H),
      spec_row 0x5b 0 0 always (fixed_energy 1) (execute_generic H), spec_row 0x5c 1 1 tr_cancun (fixed_energy 100) (execute_generic H),
      spec_row 0x5d 2 0 tr_cancun (fixed_energy 100) (execute_generic H), spec_row 0x5e 3 0 tr_cancun energy_mcopy (execute_generic H),
      spec_row 0x5f 0 1 tr_shanghai (fixed_energy 2) (execute_generic H), spec_row 0x60 0 1 always (fixed_energy 3) (execute_generic H),
      spec_row 0x61 0 1 always (fixed_energy 3) (execute_generic H), spec_row 0x62 0 1 always (fixed_energy 3) (execute_generic H),
      spec_row 0x63 0 1 always (fixed_energy 3) (execute_generic H), spec_row 0x64 0 1 always (fixed_energy 3) (execute_generic H),
      spec_row 0x65 0 1 always (fixed_energy 3) (execute_generic H), spec_row 0x66 0 1 always (fixed_energy 3) (execute_generic H),
      spec_row 0x67 0 1 always (fixed_energy 3) (execute_generic H), spec_row 0x68 0 1 always (fixed_energy 3) (execute_generic H),
      spec_row 0x69 0 1 always (fixed_energy 3) (execute_generic H), spec_row 0x6a 0 1 always (fixed_energy 3) (execute_generic H),
      spec_row 0x6b 0 1 always (fixed_energy 3) (execute_generic H), spec_row 0x6c 0 1 always (fixed_energy 3) (execute_generic H),
      spec_row 0x6d 0 1 always (fixed_energy 3) (execute_generic H), spec_row 0x6e 0 1 always (fixed_energy 3) (execute_generic H),
      spec_row 0x6f 0 1 always (fixed_energy 3) (execute_generic H), spec_row 0x70 0 1 always (fixed_energy 3) (execute_generic H),
      spec_row 0x71 0 1 always (fixed_energy 3) (execute_generic H), spec_row 0x72 0 1 always (fixed_energy 3) (execute_generic H),
      spec_row 0x73 0 1 always (fixed_energy 3) (execute_generic H), spec_row 0x74 0 1 always (fixed_energy 3) (execute_generic H),
      spec_row 0x75 0 1 always (fixed_energy 3) (execute_generic H), spec_row 0x76 0 1 always (fixed_energy 3) (execute_generic H),
      spec_row 0x77 0 1 always (fixed_energy 3) (execute_generic H), spec_row 0x78 0 1 always (fixed_energy 3) (execute_generic H),
      spec_row 0x79 0 1 always (fixed_energy 3) (execute_generic H), spec_row 0x7a 0 1 always (fixed_energy 3) (execute_generic H),
      spec_row 0x7b 0 1 always (fixed_energy 3) (execute_generic H), spec_row 0x7c 0 1 always (fixed_energy 3) (execute_generic H),
      spec_row 0x7d 0 1 always (fixed_energy 3) (execute_generic H), spec_row 0x7e 0 1 always (fixed_energy 3) (execute_generic H),
      spec_row 0x7f 0 1 always (fixed_energy 3) (execute_generic H), spec_row 0x80 1 2 always (fixed_energy 3) (execute_generic H),
      spec_row 0x81 2 3 always (fixed_energy 3) (execute_generic H), spec_row 0x82 3 4 always (fixed_energy 3) (execute_generic H),
      spec_row 0x83 4 5 always (fixed_energy 3) (execute_generic H), spec_row 0x84 5 6 always (fixed_energy 3) (execute_generic H),
      spec_row 0x85 6 7 always (fixed_energy 3) (execute_generic H), spec_row 0x86 7 8 always (fixed_energy 3) (execute_generic H),
      spec_row 0x87 8 9 always (fixed_energy 3) (execute_generic H), spec_row 0x88 9 10 always (fixed_energy 3) (execute_generic H),
      spec_row 0x89 10 11 always (fixed_energy 3) (execute_generic H), spec_row 0x8a 11 12 always (fixed_energy 3) (execute_generic H),
      spec_row 0x8b 12 13 always (fixed_energy 3) (execute_generic H), spec_row 0x8c 13 14 always (fixed_energy 3) (execute_generic H),
      spec_row 0x8d 14 15 always (fixed_energy 3) (execute_generic H), spec_row 0x8e 15 16 always (fixed_energy 3) (execute_generic H),
      spec_row 0x8f 16 17 always (fixed_energy 3) (execute_generic H), spec_row 0x90 2 2 always (fixed_energy 3) (execute_generic H),
      spec_row 0x91 3 3 always (fixed_energy 3) (execute_generic H), spec_row 0x92 4 4 always (fixed_energy 3) (execute_generic H),
      spec_row 0x93 5 5 always (fixed_energy 3) (execute_generic H), spec_row 0x94 6 6 always (fixed_energy 3) (execute_generic H),
      spec_row 0x95 7 7 always (fixed_energy 3) (execute_generic H), spec_row 0x96 8 8 always (fixed_energy 3) (execute_generic H),
      spec_row 0x97 9 9 always (fixed_energy 3) (execute_generic H), spec_row 0x98 10 10 always (fixed_energy 3) (execute_generic H),
      spec_row 0x99 11 11 always (fixed_energy 3) (execute_generic H), spec_row 0x9a 12 12 always (fixed_energy 3) (execute_generic H),
      spec_row 0x9b 13 13 always (fixed_energy 3) (execute_generic H), spec_row 0x9c 14 14 always (fixed_energy 3) (execute_generic H),
      spec_row 0x9d 15 15 always (fixed_energy 3) (execute_generic H), spec_row 0x9e 16 16 always (fixed_energy 3) (execute_generic H),
      spec_row 0x9f 17 17 always (fixed_energy 3) (execute_generic H), spec_row 0xa0 2 0 always energy_log (execute_generic H),
      spec_row 0xa1 3 0 always energy_log (execute_generic H), spec_row 0xa2 4 0 always energy_log (execute_generic H),
      spec_row 0xa3 5 0 always energy_log (execute_generic H), spec_row 0xa4 6 0 always energy_log (execute_generic H),
      spec_row 0xf3 2 0 always energy_return execute_return, spec_row 0xfd 2 0 always energy_return execute_revert]"

end
