(* ===== verification/Tvm_Calls.thy ===== *)
theory Tvm_Calls
  imports Tvm_Operations
begin

text \<open>
  Calls, creations, self-destruction and the TRON opcodes, \<open>tron-tvm/src/opcodes_c.rs\<close>, with the
  addresses of \<open>tron-crypto/src/contract_address.rs\<close>. A call or a creation is prepared here and driven
  by the interpreter.
\<close>

section \<open>Strings\<close>

definition utf8_cont :: "u8 \<Rightarrow> bool" where "utf8_cont b \<longleftrightarrow> 0x80 \<le> b \<and> b \<le> 0xbf"

text \<open>Which byte strings \<open>String::from_utf8\<close> accepts.\<close>

fun valid_utf8 :: "bytes \<Rightarrow> bool" where
  "valid_utf8 [] = True"
| "valid_utf8 (a # bs) =
     (if a \<le> 0x7f then valid_utf8 bs
      else case bs of
        [] \<Rightarrow> False
      | b # bs2 \<Rightarrow>
        if 0xc2 \<le> a \<and> a \<le> 0xdf then utf8_cont b \<and> valid_utf8 bs2
        else case bs2 of
          [] \<Rightarrow> False
        | c # bs3 \<Rightarrow>
          if 0xe0 \<le> a \<and> a \<le> 0xef then
            utf8_cont b \<and> (a = 0xe0 \<longrightarrow> 0xa0 \<le> b) \<and> (a = 0xed \<longrightarrow> b \<le> 0x9f) \<and> utf8_cont c \<and> valid_utf8 bs3
          else case bs3 of
            [] \<Rightarrow> False
          | d # bs4 \<Rightarrow>
            0xf0 \<le> a \<and> a \<le> 0xf4 \<and> utf8_cont b \<and> (a = 0xf0 \<longrightarrow> 0x90 \<le> b) \<and> (a = 0xf4 \<longrightarrow> b \<le> 0x8f) \<and> utf8_cont c \<and> utf8_cont d \<and> valid_utf8 bs4)"

section \<open>Energy\<close>

definition CALL_BASE :: i64 where "CALL_BASE = 40"
definition VALUE_TRANSFER :: i64 where "VALUE_TRANSFER = 9000"
definition NEW_ACCOUNT :: i64 where "NEW_ACCOUNT = 25000"
definition STIPEND :: i64 where "STIPEND = 2300"

lemmas call_prices [simp] = CALL_BASE_def VALUE_TRANSFER_def NEW_ACCOUNT_def STIPEND_def

definition word_usize :: "tword \<Rightarrow> (usize, VmFault) result" where
  "word_usize v = (if v > word_from_u64 i64_max then Err VOutOfMemory else Ok (nat (to_i64_safe v)))"

definition range_end :: "tword \<Rightarrow> tword \<Rightarrow> (usize, VmFault) result" where
  "range_end offset sz =
     and_then (word_usize sz) (\<lambda>n.
     if n = 0 then Ok 0
     else and_then (word_usize offset) (\<lambda>o'.
       ok_or (Option.bind (usize_checked_add o' n) (\<lambda>end. if end \<le> MEMORY_LIMIT then Some end else None)) VOutOfMemory))"

fun checked_sum_from :: "i64 \<Rightarrow> i64 list \<Rightarrow> (i64, VmFault) result" where
  "checked_sum_from acc [] = Ok acc"
| "checked_sum_from acc (v # vs) = and_then (ok_or (checked_i64 (acc + v)) VOutOfEnergy) (\<lambda>acc. checked_sum_from acc vs)"

definition checked_sum :: "i64 list \<Rightarrow> (i64, VmFault) result" where "checked_sum vs = checked_sum_from 0 vs"

definition account_missing :: "vm_host \<Rightarrow> bytes \<Rightarrow> OperationContext \<Rightarrow> (bool, VmFault) result" where
  "account_missing H a c = (case repo_account (vh_codec H) a (oc_repository c) of Err _ \<Rightarrow> Err VOther | Ok found \<Rightarrow> Ok (found = None))"

definition call_energy :: "vm_host \<Rightarrow> bool \<Rightarrow> bool \<Rightarrow> bool \<Rightarrow> OperationContext \<Rightarrow> (i64, VmFault) result" where
  "call_energy H with_value new_account token c =
     and_then (peeks c 1) (\<lambda>address.
     and_then (if with_value then peeks c 2 else Ok word_ZERO) (\<lambda>v.
     let i = (if token then 4 else if with_value then 3 else 2) in
     and_then (peeks c i) (\<lambda>in_off. and_then (peeks c (i + 1)) (\<lambda>in_size. and_then (range_end in_off in_size) (\<lambda>in_end.
     and_then (peeks c (i + 2)) (\<lambda>out_off. and_then (peeks c (i + 3)) (\<lambda>out_size. and_then (range_end out_off out_size) (\<lambda>out_end.
     and_then (memory_delta c (max in_end out_end)) (\<lambda>delta.
     and_then (checked_sum [CALL_BASE, delta]) (\<lambda>base.
     if word_is_zero v then Ok base
     else and_then (ok_or (checked_i64 (base + VALUE_TRANSFER)) VOutOfEnergy) (\<lambda>base.
       if new_account then and_then (account_missing H (to_tron_address address) c) (\<lambda>missing.
         if missing then ok_or (checked_i64 (base + NEW_ACCOUNT)) VOutOfEnergy else Ok base)
       else Ok base)))))))))))"

definition call_e :: "vm_host \<Rightarrow> OperationContext \<Rightarrow> (i64, VmFault) result" where "call_e H = call_energy H True True False"
definition callcode_e :: "vm_host \<Rightarrow> OperationContext \<Rightarrow> (i64, VmFault) result" where "callcode_e H = call_energy H True False False"
definition delegate_e :: "vm_host \<Rightarrow> OperationContext \<Rightarrow> (i64, VmFault) result" where "delegate_e H = call_energy H False False False"
definition calltoken_e :: "vm_host \<Rightarrow> OperationContext \<Rightarrow> (i64, VmFault) result" where "calltoken_e H = call_energy H True True True"

definition create_e :: "OperationContext \<Rightarrow> (i64, VmFault) result" where
  "create_e c = and_then (peeks c 1) (\<lambda>off. and_then (peeks c 2) (\<lambda>sz. and_then (range_end off sz) (\<lambda>end.
     and_then (memory_delta c end) (\<lambda>delta. checked_sum [32000, delta]))))"

definition create2_e :: "OperationContext \<Rightarrow> (i64, VmFault) result" where
  "create2_e c =
     and_then (peeks c 2) (\<lambda>sz. and_then (word_usize sz) (\<lambda>n.
     and_then (ok_or (usize_checked_add n 31) VOutOfMemory) (\<lambda>rounded.
     and_then (create_e c) (\<lambda>base.
     and_then (ok_or (checked_i64 (int (rounded div 32) * 6)) VOutOfEnergy) (\<lambda>hashing. checked_sum [base, hashing])))))"

definition freeze_e :: "vm_host \<Rightarrow> OperationContext \<Rightarrow> (i64, VmFault) result" where
  "freeze_e H c = and_then (peeks c 2) (\<lambda>receiver. and_then (account_missing H (to_tron_address receiver) c) (\<lambda>missing.
     Ok (20000 + (if missing then NEW_ACCOUNT else 0))))"

definition vote_end :: "OperationContext \<Rightarrow> nat \<Rightarrow> nat \<Rightarrow> (usize, VmFault) result" where
  "vote_end c off len =
     (let extra = word_from_u64 (if tr_energy_adjustment (oc_rules c) then 32 else 0) in
      and_then (peeks c off) (\<lambda>o'. and_then (peeks c len) (\<lambda>n. range_end o' (wrapping_mul (wrapping_add n extra) (word_from_u64 32)))))"

definition vote_e :: "OperationContext \<Rightarrow> (i64, VmFault) result" where
  "vote_e c = and_then (vote_end c 1 0) (\<lambda>a. and_then (vote_end c 3 2) (\<lambda>w.
     and_then (memory_delta c (max a w)) (\<lambda>delta. checked_sum [30000, delta])))"

definition suicide_e :: "vm_host \<Rightarrow> OperationContext \<Rightarrow> (i64, VmFault) result" where
  "suicide_e H c = and_then (peeks c 0) (\<lambda>target. and_then (account_missing H (to_tron_address target) c) (\<lambda>missing.
     Ok ((if tr_selfdestruct_restriction (oc_rules c) then 5000 else 0) + (if missing then NEW_ACCOUNT else 0))))"

section \<open>Tokens and staking\<close>

definition op_token_value :: "OperationControl op" where "op_token_value = sbind (sread (\<lambda>c. fr_token_value (oc_frame c))) op_finish"
definition op_token_id :: "OperationControl op" where "op_token_id = sbind (sread (\<lambda>c. fr_token_id (oc_frame c))) op_finish"

definition op_token_balance :: "vm_host \<Rightarrow> OperationControl op" where
  "op_token_balance H =
     sbind op_pop (\<lambda>token. sbind op_pop (\<lambda>a.
     sbind (slift (if valid_utf8 (no_leading_zero_bytes token) then Ok (no_leading_zero_bytes token) else Err VOther)) (\<lambda>token.
     sbind (op_query (repo_token_balance (vh_codec H) (to_tron_address a) token)) (\<lambda>v. op_finish (word_from_u64 (max v 0))))))"

definition op_is_contract :: "vm_host \<Rightarrow> OperationControl op" where
  "op_is_contract H = sbind op_pop (\<lambda>a.
     sbind (op_query (repo_contract (vh_codec H) (to_tron_address a))) (\<lambda>found. op_finish (boolw (found \<noteq> None))))"

text \<open>A change of the repository in a layer of its own, revoked when it fails.\<close>

definition in_layer :: "(Repository, tword, RepositoryError) prog \<Rightarrow> tword op" where
  "in_layer f c =
     (let (i, r) = begin_child CopiedStorage (oc_repository c) in
      case f r of
        (r, Ok v) \<Rightarrow>
          (case commit_child i r of
             (r, Err _) \<Rightarrow> (c\<lparr> oc_repository := r \<rparr>, Err VOther)
           | (r, Ok _) \<Rightarrow> (c\<lparr> oc_repository := r \<rparr>, Ok v))
      | (r, Err _) \<Rightarrow>
          (case revoke_child i r of
             (r, Err _) \<Rightarrow> (c\<lparr> oc_repository := r \<rparr>, Err VOther)
           | (r, Ok _) \<Rightarrow> (c\<lparr> oc_repository := r \<rparr>, Ok word_ZERO)))"

definition transactional :: "(Repository, tword, RepositoryError) prog \<Rightarrow> OperationControl op" where
  "transactional f = sbind (in_layer f) op_finish"

definition as_flag :: "(Repository, bool, RepositoryError) prog \<Rightarrow> (Repository, tword, RepositoryError) prog" where
  "as_flag f = sbind f (\<lambda>b. sret (boolw b))"

definition as_amount :: "(Repository, i64, RepositoryError) prog \<Rightarrow> (Repository, tword, RepositoryError) prog" where
  "as_amount f = sbind f (\<lambda>n. sret (word_from_u64 (max n 0)))"

definition context_of :: "bytes op" where "context_of = sread (\<lambda>c. fr_context_address (oc_frame c))"

definition vote_guard :: "unit op" where
  "vote_guard = sbind (sread (\<lambda>c. tr_vote (oc_rules c))) (\<lambda>b. if b then static_guard else sret ())"

definition op_freeze_legacy :: "vm_host \<Rightarrow> OperationControl op" where
  "op_freeze_legacy H = sbind vote_guard (\<lambda>_. sbind op_pop (\<lambda>kind. sbind op_pop (\<lambda>amount. sbind op_pop (\<lambda>receiver.
     sbind (sread (\<lambda>c. tr_freeze_v2 (oc_rules c))) (\<lambda>v2. if v2 then op_finish word_ZERO
     else sbind context_of (\<lambda>owner. transactional (as_flag (repo_freeze_legacy (vh_codec H) owner (to_tron_address receiver) amount kind))))))))"

definition op_unfreeze_legacy :: "vm_host \<Rightarrow> OperationControl op" where
  "op_unfreeze_legacy H = sbind vote_guard (\<lambda>_. sbind op_pop (\<lambda>kind. sbind op_pop (\<lambda>receiver. sbind context_of (\<lambda>owner.
     transactional (sbind (repo_unfreeze_legacy (vh_codec H) owner (to_tron_address receiver) kind) (\<lambda>n. sret (boolw (n \<noteq> None))))))))"

definition op_expire :: "vm_host \<Rightarrow> OperationControl op" where
  "op_expire H = sbind op_pop (\<lambda>kind. sbind op_pop (\<lambda>target. sbind context_of (\<lambda>owner.
     sbind (op_query (freeze_expire_time (vh_codec H) owner (to_tron_address target) kind)) (\<lambda>v. op_finish (word_from_u64 (max (v sdiv 1000) 0))))))"

definition op_freeze_balance_v2 :: "vm_host \<Rightarrow> OperationControl op" where
  "op_freeze_balance_v2 H = sbind static_guard (\<lambda>_. sbind op_pop (\<lambda>kind. sbind op_pop (\<lambda>amount. sbind context_of (\<lambda>owner.
     transactional (as_flag (repo_freeze_v2 (vh_codec H) owner amount kind))))))"

definition op_unfreeze_balance_v2 :: "vm_host \<Rightarrow> OperationControl op" where
  "op_unfreeze_balance_v2 H = sbind static_guard (\<lambda>_. sbind op_pop (\<lambda>kind. sbind op_pop (\<lambda>amount. sbind context_of (\<lambda>owner.
     transactional (as_flag (repo_unfreeze_v2 (vh_codec H) owner amount kind))))))"

definition op_cancel_all :: "vm_host \<Rightarrow> OperationControl op" where
  "op_cancel_all H = sbind static_guard (\<lambda>_. sbind context_of (\<lambda>owner. transactional (as_flag (repo_cancel_all_unfreeze_v2 (vh_codec H) owner))))"

definition op_withdraw_expired :: "vm_host \<Rightarrow> OperationControl op" where
  "op_withdraw_expired H = sbind static_guard (\<lambda>_. sbind context_of (\<lambda>owner. transactional (as_amount (repo_withdraw_expired_v2 (vh_codec H) owner))))"

definition op_delegate_resource :: "vm_host \<Rightarrow> OperationControl op" where
  "op_delegate_resource H = sbind static_guard (\<lambda>_. sbind op_pop (\<lambda>kind. sbind op_pop (\<lambda>amount. sbind op_pop (\<lambda>receiver. sbind context_of (\<lambda>owner.
     transactional (as_flag (repo_delegate_v2 (vh_codec H) owner (to_tron_address receiver) amount kind)))))))"

definition op_undelegate_resource :: "vm_host \<Rightarrow> OperationControl op" where
  "op_undelegate_resource H = sbind static_guard (\<lambda>_. sbind op_pop (\<lambda>kind. sbind op_pop (\<lambda>amount. sbind op_pop (\<lambda>receiver. sbind context_of (\<lambda>owner.
     transactional (as_flag (repo_undelegate_v2 (vh_codec H) owner (to_tron_address receiver) amount kind)))))))"

definition op_word32 :: "usize \<Rightarrow> tword op" where "op_word32 offset = sbind (op_read offset 32) (\<lambda>b. sret (word_from_be b))"

fun read_votes :: "usize \<Rightarrow> usize \<Rightarrow> nat list \<Rightarrow> Vote list op" where
  "read_votes witness_off amount_off [] = sret []"
| "read_votes witness_off amount_off (i # is) =
     sbind (op_word32 (witness_off + 32 + i * 32)) (\<lambda>w. sbind (op_word32 (amount_off + 32 + i * 32)) (\<lambda>a.
     sbind (read_votes witness_off amount_off is) (\<lambda>votes.
     sret (\<lparr> vo_vote_address = to_tron_address w, vo_vote_count = to_i64_safe a \<rparr> # votes))))"

definition op_vote_witness :: "vm_host \<Rightarrow> OperationControl op" where
  "op_vote_witness H =
     sbind static_guard (\<lambda>_.
     sbind op_pop (\<lambda>amount_len. sbind op_pop (\<lambda>amount_off. sbind op_pop (\<lambda>witness_len. sbind op_pop (\<lambda>witness_off.
     if to_i32_safe amount_len \<noteq> to_i32_safe witness_len then op_finish word_ZERO
     else
       sbind (op_word32 (i32_usize witness_off)) (\<lambda>wl. sbind (op_word32 (i32_usize amount_off)) (\<lambda>al.
       if to_i32_safe wl \<noteq> to_i32_safe witness_len \<or> to_i32_safe al \<noteq> to_i32_safe amount_len then sfail VOther
       else
         sbind (read_votes (i32_usize witness_off) (i32_usize amount_off) [0..<i32_usize witness_len]) (\<lambda>votes.
         sbind context_of (\<lambda>owner. transactional (as_flag (repo_vote_witness (vh_codec H) owner votes)))))))))))"

definition op_withdraw_reward :: "vm_host \<Rightarrow> OperationControl op" where
  "op_withdraw_reward H = sbind static_guard (\<lambda>_. sbind context_of (\<lambda>owner. transactional (as_amount (repo_withdraw_reward (vh_codec H) owner))))"

section \<open>Calls and creations\<close>

definition call_cap :: "OperationContext \<Rightarrow> i64" where
  "call_cap c = remaining (oc_energy c) - remaining (oc_energy c) sdiv 64"

definition clear_return_data :: "unit op" where "clear_return_data = op_effects (\<lambda>e. e\<lparr> oe_return_data := [] \<rparr>)"

text \<open>The start of a range that \<open>range_end\<close> accepts.\<close>

definition range_start :: "usize \<Rightarrow> usize \<Rightarrow> usize" where "range_start end sz = (if sz = 0 then 0 else end - sz)"

text \<open>Reserving the energy of a call, at most all but one part in 64 of what remains.\<close>

definition reserve_call :: "CallKind \<Rightarrow> bool \<Rightarrow> bool \<Rightarrow> tword \<Rightarrow> tword \<Rightarrow> tword \<Rightarrow> tword \<Rightarrow> bytes \<Rightarrow> usize \<Rightarrow> usize \<Rightarrow> OperationControl op" where
  "reserve_call kind with_value token requested destination supplied_value token_id data output_offset output_size =
     sbind (sread (\<lambda>c. min (max (to_i64_safe requested) 0) (call_cap c))) (\<lambda>reserved_energy.
     sbind (op_spend reserved_energy) (\<lambda>_.
     sbind (slift (ok_or (checked_i64 (reserved_energy + (if with_value \<and> \<not> word_is_zero supplied_value then STIPEND else 0))) VOutOfEnergy)) (\<lambda>energy_limit.
     sret (OCall \<lparr> cr_kind = kind, cr_data = data, cr_destination = to_tron_address destination, cr_energy_limit = energy_limit,
       cr_reserved_energy = reserved_energy, cr_value = (if token then word_ZERO else supplied_value),
       cr_token_value = (if token then supplied_value else word_ZERO), cr_token_id = token_id,
       cr_output_offset = output_offset, cr_output_size = output_size \<rparr>))))"

definition call_tail :: "CallKind \<Rightarrow> bool \<Rightarrow> bool \<Rightarrow> tword \<Rightarrow> tword \<Rightarrow> tword \<Rightarrow> OperationControl op" where
  "call_tail kind with_value token requested destination supplied_value =
     sbind (sask (\<lambda>c. if fr_is_static (oc_frame c) \<and> \<not> word_is_zero supplied_value then Err VStaticViolation else Ok ())) (\<lambda>_.
     sbind (if token then op_pop else sret word_ZERO) (\<lambda>token_id.
     sbind op_pop (\<lambda>in_off. sbind op_pop (\<lambda>in_size. sbind op_pop (\<lambda>out_off. sbind op_pop (\<lambda>out_size.
     sbind (slift (range_end in_off in_size)) (\<lambda>input_end. sbind (slift (range_end out_off out_size)) (\<lambda>output_end.
     sbind (slift (word_usize in_size)) (\<lambda>input_size. sbind (slift (word_usize out_size)) (\<lambda>output_size.
     sbind (op_read (range_start input_end input_size) input_size) (\<lambda>data.
     sbind (op_memory (expand (range_start output_end output_size) output_size)) (\<lambda>_.
     sbind clear_return_data (\<lambda>_.
     reserve_call kind with_value token requested destination supplied_value token_id data (range_start output_end output_size) output_size)))))))))))))"

definition call_exec :: "CallKind \<Rightarrow> bool \<Rightarrow> bool \<Rightarrow> OperationControl op" where
  "call_exec kind with_value token =
     sbind op_pop (\<lambda>requested. sbind op_pop (\<lambda>destination.
     sbind (if with_value then op_pop else sret word_ZERO) (\<lambda>supplied_value.
     call_tail kind with_value token requested destination supplied_value)))"

definition op_call :: "OperationControl op" where "op_call = call_exec CKCall True False"
definition op_callcode :: "OperationControl op" where "op_callcode = call_exec CKCallCode True False"
definition op_delegate :: "OperationControl op" where "op_delegate = call_exec CKDelegateCall False False"
definition op_staticcall :: "OperationControl op" where "op_staticcall = call_exec CKStaticCall False False"
definition op_calltoken :: "OperationControl op" where "op_calltoken = call_exec CKCallToken True True"

definition read_init_code :: "tword \<Rightarrow> tword \<Rightarrow> bytes op" where
  "read_init_code off sz =
     sbind (slift (range_end off sz)) (\<lambda>end. sbind (slift (word_usize sz)) (\<lambda>n. op_read (range_start end n) n))"

definition op_create :: "OperationControl op" where
  "op_create = sbind static_guard (\<lambda>_. sbind op_pop (\<lambda>v. sbind op_pop (\<lambda>off. sbind op_pop (\<lambda>sz.
     sbind (read_init_code off sz) (\<lambda>init_code. sbind clear_return_data (\<lambda>_. sbind (sread call_cap) (\<lambda>limit.
     sret (OCreate \<lparr> ct_kind = KCreate, ct_init_code = init_code, ct_energy_limit = limit, ct_value = v, ct_salt = None \<rparr>))))))))"

definition op_create2 :: "OperationControl op" where
  "op_create2 = sbind static_guard (\<lambda>_. sbind op_pop (\<lambda>v. sbind op_pop (\<lambda>off. sbind op_pop (\<lambda>sz. sbind op_pop (\<lambda>salt.
     sbind (read_init_code off sz) (\<lambda>init_code.
     sbind (sread (\<lambda>c. tr_osaka (oc_rules c))) (\<lambda>osaka. sbind (if osaka then clear_return_data else sret ()) (\<lambda>_. sbind (sread call_cap) (\<lambda>limit.
     sret (OCreate \<lparr> ct_kind = KCreate2, ct_init_code = init_code, ct_energy_limit = limit, ct_value = v, ct_salt = Some salt \<rparr>))))))))))"

definition op_suicide :: "vm_host \<Rightarrow> OperationControl op" where
  "op_suicide H = sbind static_guard (\<lambda>_.
     sbind (sask (\<lambda>c. case can_selfdestruct (vh_codec H) (fr_context_address (oc_frame c)) (tr_freeze (oc_rules c)) (tr_freeze_v2 (oc_rules c))
         (tr_selfdestruct_restriction (oc_rules c)) (oc_repository c) of Err _ \<Rightarrow> Err VOther | Ok b \<Rightarrow> Ok b)) (\<lambda>allowed.
     if \<not> allowed then sret (ORevert []) else sbind op_pop (\<lambda>target. sret (OSelfDestruct (to_tron_address target)))))"

record ChildFrame =
  ch_code_address :: bytes
  ch_context_address :: bytes
  ch_caller :: bytes
  ch_call_value :: tword
  ch_token_value :: tword
  ch_token_id :: tword
  ch_depth :: nat
  ch_is_static :: bool

definition child_frame :: "FrameContext \<Rightarrow> bytes \<Rightarrow> tword \<Rightarrow> tword \<Rightarrow> tword \<Rightarrow> CallKind \<Rightarrow> ChildFrame option" where
  "child_frame par destination v token_value token_id kind =
     (if fr_depth par \<ge> 64 then None
      else Some (case kind of
          CKCallCode \<Rightarrow> \<lparr> ch_code_address = destination, ch_context_address = fr_context_address par, ch_caller = fr_context_address par,
            ch_call_value = v, ch_token_value = word_ZERO, ch_token_id = word_ZERO, ch_depth = fr_depth par + 1, ch_is_static = fr_is_static par \<rparr>
        | CKDelegateCall \<Rightarrow> \<lparr> ch_code_address = destination, ch_context_address = fr_context_address par, ch_caller = fr_caller par,
            ch_call_value = fr_call_value par, ch_token_value = fr_token_value par, ch_token_id = fr_token_id par,
            ch_depth = fr_depth par + 1, ch_is_static = fr_is_static par \<rparr>
        | CKStaticCall \<Rightarrow> \<lparr> ch_code_address = destination, ch_context_address = destination, ch_caller = fr_context_address par,
            ch_call_value = word_ZERO, ch_token_value = word_ZERO, ch_token_id = word_ZERO, ch_depth = fr_depth par + 1, ch_is_static = True \<rparr>
        | _ \<Rightarrow> \<lparr> ch_code_address = destination, ch_context_address = destination, ch_caller = fr_context_address par,
            ch_call_value = v, ch_token_value = token_value, ch_token_id = token_id, ch_depth = fr_depth par + 1, ch_is_static = fr_is_static par \<rparr>))"

definition tron_keccak_address :: "vm_codec \<Rightarrow> bytes \<Rightarrow> bytes" where
  "tron_keccak_address X input = 0x41 # drop 12 (vc_keccak256 X input)"

definition create_address :: "vm_codec \<Rightarrow> FrameContext \<Rightarrow> i64 \<Rightarrow> bytes" where
  "create_address X frame nonce = tron_keccak_address X (fr_root_txid frame @ i64_to_be_bytes nonce)"

definition create2_address_no_ff :: "vm_codec \<Rightarrow> FrameContext \<Rightarrow> tword \<Rightarrow> bytes \<Rightarrow> bool \<Rightarrow> bytes" where
  "create2_address_no_ff X frame salt init_code istanbul =
     tron_keccak_address X ((if istanbul then fr_context_address frame else fr_caller frame) @ word_to_be salt @ vc_keccak256 X init_code)"

definition validate_deployed_code :: "bytes \<Rightarrow> bool \<Rightarrow> (i64, VmFault) result" where
  "validate_deployed_code code london =
     (if london \<and> code \<noteq> [] \<and> hd code = 0xef then Err VInvalidCode
      else and_then (ok_or (checked_i64 (int (length code))) VOutOfEnergy) (\<lambda>n. ok_or (checked_i64 (n * 200)) VOutOfEnergy))"

definition fair_energy :: "TvmRules \<Rightarrow> bool" where "fair_energy r \<longleftrightarrow> tr_energy_adjustment r \<and> \<not> tr_selfdestruct_restriction r"

definition suicide_variants :: "vm_host \<Rightarrow> OperationVariant list" where
  "suicide_variants H =
     map (\<lambda>w. \<lparr> ov_when = w, ov_energy = suicide_e H, ov_execute = op_suicide H \<rparr>) [always, fair_energy, tr_selfdestruct_restriction]"

definition specs_c :: "vm_host \<Rightarrow> OperationSpec list" where
  "specs_c H =
     [spec_row 0xd0 8 1 tr_transfer_trc10 (calltoken_e H) op_calltoken, spec_row 0xd1 2 1 tr_transfer_trc10 (fixed_energy 20) (op_token_balance H),
      spec_row 0xd2 0 1 tr_transfer_trc10 (fixed_energy 2) op_token_value, spec_row 0xd3 0 1 tr_transfer_trc10 (fixed_energy 2) op_token_id,
      spec_row 0xd4 1 1 tr_solidity_059 (fixed_energy 20) (op_is_contract H), spec_row 0xd5 3 1 tr_freeze (freeze_e H) (op_freeze_legacy H),
      spec_row 0xd6 2 1 tr_freeze (fixed_energy 20000) (op_unfreeze_legacy H), spec_row 0xd7 2 1 tr_freeze (fixed_energy 50) (op_expire H),
      spec_row 0xd8 4 1 tr_vote vote_e (op_vote_witness H), spec_row 0xd9 0 1 tr_vote (fixed_energy 20000) (op_withdraw_reward H),
      spec_row 0xda 2 1 tr_freeze_v2 (fixed_energy 10000) (op_freeze_balance_v2 H), spec_row 0xdb 2 1 tr_freeze_v2 (fixed_energy 10000) (op_unfreeze_balance_v2 H),
      spec_row 0xdc 0 1 tr_freeze_v2 (fixed_energy 10000) (op_cancel_all H), spec_row 0xdd 0 1 tr_freeze_v2 (fixed_energy 10000) (op_withdraw_expired H),
      spec_row 0xde 3 1 tr_freeze_v2 (fixed_energy 10000) (op_delegate_resource H), spec_row 0xdf 3 1 tr_freeze_v2 (fixed_energy 10000) (op_undelegate_resource H),
      spec_row 0xf0 3 1 always create_e op_create, spec_row 0xf1 7 1 always (call_e H) op_call,
      spec_row 0xf2 7 1 always (callcode_e H) op_callcode, spec_row 0xf4 6 1 always (delegate_e H) op_delegate,
      spec_row 0xf5 4 1 tr_constantinople create2_e op_create2, spec_row 0xfa 6 1 always (delegate_e H) op_staticcall,
      \<lparr> os_opcode = 0xff, os_required_before = 1, os_resulting_window = 0, os_activation = always, os_variants = suicide_variants H \<rparr>]"

text \<open>The registry of the node: all three families, 165 operations.\<close>

definition registry_integration :: "vm_host \<Rightarrow> (OperationRegistry, RegistryError) result" where
  "registry_integration H =
     and_then (from_families [specs_a H, specs_b H, specs_c H]) (\<lambda>registry.
       if registered_count registry \<noteq> 165 then Err (WrongRegisteredCount (registered_count registry)) else Ok registry)"

end
