(* ===== verification/Tvm_Interpreter.thy ===== *)
theory Tvm_Interpreter
  imports Tvm_Calls
begin

text \<open>
  The interpreter, \<open>tron-tvm/src/interpreter.rs\<close>: one step, the loop of a frame, calls and creations
  as frames of their own over a layer of the repository, value transfers and self-destruction, and the
  dispatch of precompiled contracts of \<open>precompile.rs\<close>. The context carries the state of a
  frame; the repository, the meter and the limiter are passed to a child and back. The trace is not
  modelled. The loop takes fuel; \<open>Tvm_Safety\<close> shows that every frame ends.
\<close>

section \<open>Outcomes\<close>

record ExecutionOutcome =
  xo_status :: ExitStatus
  xo_contract_result :: ContractResult
  xo_return_data :: bytes
  xo_created_contract :: "bytes option"
  xo_energy_used :: i64
  xo_energy_penalty :: i64
  xo_logs :: "TvmLog list"
  xo_internal_transactions :: "InternalTransactionRecord list"
  xo_deleted_accounts :: "bytes list"
  xo_deltas :: "RepositoryDelta list"

definition outcome_success :: ExecutionOutcome where
  "outcome_success = \<lparr> xo_status = Succeeded, xo_contract_result = CSuccess, xo_return_data = [], xo_created_contract = None,
     xo_energy_used = 0, xo_energy_penalty = 0, xo_logs = [], xo_internal_transactions = [], xo_deleted_accounts = [], xo_deltas = [] \<rparr>"

definition outcome_fault :: "VmFault \<Rightarrow> ExecutionOutcome" where
  "outcome_fault f = outcome_success\<lparr> xo_status := Faulted f, xo_contract_result := contract_result f \<rparr>"

definition frame_outcome :: "ExitStatus \<Rightarrow> ContractResult \<Rightarrow> OperationContext \<Rightarrow> ExecutionOutcome" where
  "frame_outcome status res c =
     \<lparr> xo_status = status, xo_contract_result = res, xo_return_data = oe_return_data (oc_effects c), xo_created_contract = None,
       xo_energy_used = em_used (oc_energy c), xo_energy_penalty = em_penalty (oc_energy c), xo_logs = oe_logs (oc_effects c),
       xo_internal_transactions = oe_internal_transactions (oc_effects c),
       xo_deleted_accounts = remdups_adj (sort_by cmp_bytes (oe_deleted_accounts (oc_effects c))),
       xo_deltas = repo_deltas (oc_repository c) \<rparr>"

definition fault_outcome :: "VmFault \<Rightarrow> OperationContext \<Rightarrow> ExecutionOutcome \<times> OperationContext" where
  "fault_outcome f c =
     (let c = (if spends_remaining f then c\<lparr> oc_energy := exhaust (oc_energy c) \<rparr> else c)
      in (frame_outcome (Faulted f) (contract_result f) c, c))"

definition transaction_child ::
  "vm_codec \<Rightarrow> bytes \<Rightarrow> bytes \<Rightarrow> bytes option \<Rightarrow> bytes \<Rightarrow> tword \<Rightarrow> (tword \<times> tword) list \<Rightarrow> string \<Rightarrow> nat \<Rightarrow> i64 \<Rightarrow> InternalTransactionRecord" where
  "transaction_child X parent_hash sender transfer_to data v token_info note depth nonce =
     (let encoded = parent_hash @ (if note \<noteq> ''create'' then (case transfer_to of Some a \<Rightarrow> a | None \<Rightarrow> []) else []) @ data @
            i64_to_be_bytes (to_i64_safe v)
      in \<lparr> it_parent_hash = parent_hash, it_sender = sender, it_transfer_to = transfer_to, it_data = data, it_value = v,
           it_token_info = token_info, it_note = str_bytes note, it_depth = depth, it_index = nat (max nonce 0) mod 4294967296,
           it_nonce = nonce, it_rejected = False, it_extra = [], it_encoded = encoded,
           it_hash = vc_keccak256 X (encoded @ i64_to_be_bytes nonce) \<rparr>)"

definition reject_transaction :: "InternalTransactionRecord \<Rightarrow> InternalTransactionRecord" where
  "reject_transaction t = t\<lparr> it_rejected := True \<rparr>"

section \<open>Value transfers\<close>

definition as_other :: "(Repository, 'a, RepositoryError) prog \<Rightarrow> (Repository, 'a, VmFault) prog" where
  "as_other f r = (case f r of (r, Err _) \<Rightarrow> (r, Err VOther) | (r, Ok x) \<Rightarrow> (r, Ok x))"

text \<open>The amount as a 64-bit integer; a larger value cannot be transferred.\<close>

definition transfer_amount :: "tword \<Rightarrow> (i64, VmFault) result" where
  "transfer_amount v = (let amount = to_i64_safe v in if v > word_from_u64 amount then Err VTransferFailed else Ok amount)"

definition read_other :: "(Repository \<Rightarrow> ('a, RepositoryError) result) \<Rightarrow> Repository \<Rightarrow> ('a, VmFault) result" where
  "read_other f r = (case f r of Err _ \<Rightarrow> Err VOther | Ok x \<Rightarrow> Ok x)"

definition can_endow :: "vm_codec \<Rightarrow> bytes \<Rightarrow> tword \<Rightarrow> Repository \<Rightarrow> (unit, VmFault) result" where
  "can_endow X from v r =
     and_then (transfer_amount v) (\<lambda>amount.
     and_then (read_other (repo_balance X from) r) (\<lambda>balance.
     if balance < amount then Err VTransferFailed else Ok ()))"

definition can_transfer_value :: "vm_codec \<Rightarrow> bytes \<Rightarrow> bytes \<Rightarrow> tword \<Rightarrow> Repository \<Rightarrow> (unit, VmFault) result" where
  "can_transfer_value X from to v r =
     and_then (can_endow X from v r) (\<lambda>_.
     and_then (read_other (repo_balance X to) r) (\<lambda>target.
     and_then (ok_or (checked_i64 (target + to_i64_safe v)) VTransferFailed) (\<lambda>_. Ok ())))"

definition token_name :: "tword \<Rightarrow> (bytes, VmFault) result" where
  "token_name i = (if valid_utf8 (no_leading_zero_bytes i) then Ok (no_leading_zero_bytes i) else Err VTransferFailed)"

definition can_transfer_token :: "vm_codec \<Rightarrow> bytes \<Rightarrow> bytes \<Rightarrow> tword \<Rightarrow> tword \<Rightarrow> Repository \<Rightarrow> (unit, VmFault) result" where
  "can_transfer_token X from to i v r =
     and_then (transfer_amount v) (\<lambda>amount.
     and_then (token_name i) (\<lambda>token.
     and_then (read_other (repo_token_balance X from token) r) (\<lambda>balance.
     if balance < amount then Err VTransferFailed
     else and_then (read_other (repo_token_balance X to token) r) (\<lambda>target.
       and_then (ok_or (checked_i64 (target + amount)) VTransferFailed) (\<lambda>_. Ok ())))))"

definition transfer_value :: "vm_codec \<Rightarrow> bytes \<Rightarrow> bytes \<Rightarrow> tword \<Rightarrow> (Repository, unit, VmFault) prog" where
  "transfer_value X from to v =
     sbind (slift (transfer_amount v)) (\<lambda>amount.
     sbind (sask (read_other (repo_balance X from))) (\<lambda>balance.
     if balance < amount then sfail VTransferFailed
     else
       sbind (sask (read_other (repo_balance X to))) (\<lambda>target.
       sbind (as_other (set_balance X from (balance - amount))) (\<lambda>_.
       sbind (slift (ok_or (checked_i64 (target + amount)) VTransferFailed)) (\<lambda>raised.
       as_other (set_balance X to raised))))))"

definition transfer_token :: "vm_codec \<Rightarrow> bytes \<Rightarrow> bytes \<Rightarrow> tword \<Rightarrow> tword \<Rightarrow> (Repository, unit, VmFault) prog" where
  "transfer_token X from to i v =
     sbind (slift (transfer_amount v)) (\<lambda>amount.
     sbind (slift (token_name i)) (\<lambda>token.
     sbind (sask (read_other (repo_token_balance X from token))) (\<lambda>balance.
     if balance < amount then sfail VTransferFailed
     else
       sbind (sask (read_other (repo_token_balance X to token))) (\<lambda>target.
       sbind (as_other (set_token_balance X from token (balance - amount))) (\<lambda>_.
       sbind (slift (ok_or (checked_i64 (target + amount)) VTransferFailed)) (\<lambda>raised.
       as_other (set_token_balance X to token raised)))))))"

section \<open>Self-destruction\<close>

definition move_balance :: "vm_codec \<Rightarrow> TvmRules \<Rightarrow> bytes \<Rightarrow> bytes \<Rightarrow> bytes \<Rightarrow> i64 \<Rightarrow> (Repository, unit, VmFault) prog" where
  "move_balance X rules owner beneficiary inheritor balance =
     (if owner = beneficiary then
        sbind (as_other (set_balance X owner 0)) (\<lambda>_.
        if tr_transfer_trc10 rules then
          sbind (sask (read_other (repo_balance X inheritor))) (\<lambda>target.
          sbind (slift (ok_or (checked_i64 (target + balance)) VTransferFailed)) (\<lambda>raised. as_other (set_balance X inheritor raised)))
        else sret ())
      else
        sbind (sask (read_other (repo_balance X beneficiary))) (\<lambda>target.
        sbind (as_other (set_balance X owner 0)) (\<lambda>_.
        sbind (slift (ok_or (checked_i64 (target + balance)) VTransferFailed)) (\<lambda>raised. as_other (set_balance X beneficiary raised)))))"

fun move_tokens :: "vm_codec \<Rightarrow> bytes \<Rightarrow> bytes \<Rightarrow> (bytes \<times> i64) list \<Rightarrow> (Repository, unit, VmFault) prog" where
  "move_tokens X owner inheritor [] = sret ()"
| "move_tokens X owner inheritor ((token, amount) # rest) =
     sbind (sask (read_other (repo_token_balance X inheritor token))) (\<lambda>target.
     sbind (as_other (set_token_balance X owner token 0)) (\<lambda>_.
     sbind (slift (ok_or (checked_i64 (target + amount)) VTransferFailed)) (\<lambda>raised.
     sbind (as_other (set_token_balance X inheritor token raised)) (\<lambda>_.
     move_tokens X owner inheritor rest))))"

definition apply_selfdestruct :: "vm_codec \<Rightarrow> TvmRules \<Rightarrow> bytes \<Rightarrow> bytes \<Rightarrow> (Repository, i64, VmFault) prog" where
  "apply_selfdestruct X rules owner beneficiary =
     sbind (sread rp_blackhole) (\<lambda>blackhole.
     let inheritor = (if owner = beneficiary then blackhole else beneficiary) in
     sbind (sask (read_other (repo_balance X owner))) (\<lambda>balance.
     sbind (move_balance X rules owner beneficiary inheritor balance) (\<lambda>_.
     sbind (if tr_transfer_trc10 rules then
              sbind (sask (read_other (repo_account X owner))) (\<lambda>found.
                case found of Some account \<Rightarrow> move_tokens X owner inheritor (ac_asset_v2 account) | None \<Rightarrow> sret ())
            else sret ()) (\<lambda>_.
     as_other (transfer_selfdestruct_resources X owner inheritor (tr_freeze rules) (tr_freeze_v2 rules) (tr_selfdestruct_restriction rules))))))"

definition is_digit_byte :: "u8 \<Rightarrow> bool" where "is_digit_byte b \<longleftrightarrow> 0x30 \<le> b \<and> b \<le> 0x39"

definition parse_u64 :: "bytes \<Rightarrow> nat option" where
  "parse_u64 s =
     (let digits = (if s \<noteq> [] \<and> hd s = 0x2b then tl s else s);
          n = foldl (\<lambda>n b. 10 * n + unat (b - 0x30)) 0 digits
      in if digits \<noteq> [] \<and> list_all is_digit_byte digits \<and> n < 18446744073709551616 then Some n else None)"

definition token_info_of :: "vm_codec \<Rightarrow> bytes \<Rightarrow> Repository \<Rightarrow> (tword \<times> tword) list" where
  "token_info_of X a r =
     (case repo_account X a r of
        Ok (Some account) \<Rightarrow> map (\<lambda>(i, v). (word_from_u64 (case parse_u64 i of Some n \<Rightarrow> int n | None \<Rightarrow> 0), word_from_u64 (max v 0))) (ac_asset_v2 account)
      | _ \<Rightarrow> [])"

definition next_nonce :: "i64 \<Rightarrow> i64" where "next_nonce n = min i64_max (n + 1)"

definition push_record :: "InternalTransactionRecord \<Rightarrow> OperationContext \<Rightarrow> OperationContext" where
  "push_record t c = c\<lparr> oc_effects := (oc_effects c)\<lparr> oe_internal_transactions := oe_internal_transactions (oc_effects c) @ [t] \<rparr> \<rparr>"

definition expired_record :: "vm_codec \<Rightarrow> bytes \<Rightarrow> FrameContext \<Rightarrow> bytes \<Rightarrow> bytes \<Rightarrow> i64 \<Rightarrow> i64 \<Rightarrow> InternalTransactionRecord" where
  "expired_record X parent_hash frame beneficiary blackhole expired n =
     transaction_child X parent_hash (fr_context_address frame)
       (Some (if fr_context_address frame = beneficiary then blackhole else beneficiary)) [] (word_from_u64 expired) []
       ''withdrawExpireUnfreezeWhileSuiciding'' (fr_depth frame) n"

definition self_destruct ::
  "vm_host \<Rightarrow> bytes \<Rightarrow> bytes \<Rightarrow> i64 \<Rightarrow> OperationContext \<Rightarrow> ExecutionOutcome \<times> OperationContext \<times> i64" where
  "self_destruct H beneficiary parent_hash nonce c =
     (let X = vh_codec H; frame = oc_frame c; rules = oc_rules c; self = fr_context_address frame; r = oc_repository c;
          balance = (case repo_balance X self r of Ok b \<Rightarrow> b | Err _ \<Rightarrow> 0);
          tx = transaction_child X parent_hash self (Some beneficiary) [] (word_from_u64 (max balance 0)) (token_info_of X self r) ''suicide'' (fr_depth frame) nonce;
          deletes = (\<not> tr_selfdestruct_restriction rules \<or> is_new_contract r self);
          restricted_self_noop = (tr_selfdestruct_restriction rules \<and> \<not> deletes \<and> self = beneficiary);
          finish = (\<lambda>c tx nonce.
            let c = (if deletes then c\<lparr> oc_effects := (oc_effects c)\<lparr> oe_deleted_accounts := oe_deleted_accounts (oc_effects c) @ [self] \<rparr>,
                                       oc_repository := delete_contract self (oc_repository c) \<rparr> else c);
                c = c\<lparr> oc_effects := (oc_effects c)\<lparr> oe_internal_transactions := tx # oe_internal_transactions (oc_effects c) \<rparr> \<rparr>
            in (frame_outcome Succeeded CSuccess c, c, nonce))
      in if restricted_self_noop then finish c tx (next_nonce nonce)
         else
           (case apply_selfdestruct X rules self beneficiary r of
              (r, Err _) \<Rightarrow> (let (o', c) = fault_outcome VTransferFailed (c\<lparr> oc_repository := r \<rparr>) in (o', c, next_nonce nonce))
            | (r, Ok expired) \<Rightarrow>
              (let c = c\<lparr> oc_repository := r \<rparr> in
               if expired > 0 then
                 finish (push_record (expired_record X parent_hash frame beneficiary (rp_blackhole r) expired (next_nonce nonce)) c)
                   (tx\<lparr> it_value := wrapping_add (it_value tx) (word_from_u64 expired) \<rparr>) (next_nonce (next_nonce nonce))
               else finish c tx (next_nonce nonce))))"

section \<open>Precompiled contracts\<close>

record PrecompileOutput =
  po_success :: bool
  po_output :: bytes
  po_energy :: i64
  po_fault :: "VmFault option"

definition low_address :: "bytes \<Rightarrow> int option" where
  "low_address a = (if list_ex (\<lambda>v. v \<noteq> 0) (take 16 (drop 1 a)) then None else Some (be_value (drop 17 a)))"

definition dispatch_with_caller ::
  "vm_host \<Rightarrow> bytes \<Rightarrow> bytes \<Rightarrow> TvmRules \<Rightarrow> bytes option \<Rightarrow> Repository \<Rightarrow> EnergyMeter \<Rightarrow> (PrecompileOutput \<times> Repository \<times> EnergyMeter) option" where
  "dispatch_with_caller H address input rules caller r meter =
     Option.bind (low_address address) (\<lambda>_.
     Option.bind (vh_precompile H address rules) (\<lambda>(energy, execute).
     case spend (energy input) meter of
       (meter, Err _) \<Rightarrow> (let meter = exhaust meter in
         Some (\<lparr> po_success = False, po_output = [], po_energy = em_used meter, po_fault = Some VOutOfEnergy \<rparr>, r, meter))
     | (meter, Ok _) \<Rightarrow>
       (let (i, r) = begin_child CopiedStorage r;
            (r, ok, output) = execute input caller r;
            r = fst (if ok then commit_child i r else revoke_child i r);
            meter = (if ok then meter else exhaust meter);
            fault = (if ok then None else if vh_modexp_timeout H address input rules then Some VOutOfTime else Some VPrecompiledContract)
        in Some (\<lparr> po_success = ok, po_output = output, po_energy = em_used meter, po_fault = fault \<rparr>, r, meter))))"

section \<open>Calls\<close>

type_synonym exec_frame = "bytes \<Rightarrow> i64 \<Rightarrow> OperationContext \<Rightarrow> (ExecutionOutcome \<times> OperationContext \<times> i64) option"

definition push_quiet :: "tword \<Rightarrow> OperationContext \<Rightarrow> OperationContext" where "push_quiet v c = fst (op_push v c)"

definition refund_quiet :: "i64 \<Rightarrow> OperationContext \<Rightarrow> OperationContext" where
  "refund_quiet amount c = c\<lparr> oc_energy := fst (refund amount (oc_energy c)) \<rparr>"

definition spend_quiet :: "i64 \<Rightarrow> OperationContext \<Rightarrow> OperationContext" where
  "spend_quiet amount c = c\<lparr> oc_energy := fst (spend amount (oc_energy c)) \<rparr>"

definition set_return_data :: "bytes \<Rightarrow> OperationContext \<Rightarrow> OperationContext" where
  "set_return_data data c = c\<lparr> oc_effects := (oc_effects c)\<lparr> oe_return_data := data \<rparr> \<rparr>"

definition write_quiet :: "usize \<Rightarrow> bytes \<Rightarrow> OperationContext \<Rightarrow> OperationContext" where
  "write_quiet offset data c = fst (op_memory (memory_write offset data) c)"

definition reject_call_before_execution :: "CallRequest \<Rightarrow> OperationContext \<Rightarrow> OperationContext" where
  "reject_call_before_execution request c = push_quiet word_ZERO (set_return_data [] (refund_quiet (cr_reserved_energy request) c))"

definition child_context :: "FrameContext \<Rightarrow> bytes \<Rightarrow> EnergyMeter \<Rightarrow> OperationContext \<Rightarrow> OperationContext" where
  "child_context frame code meter c =
     c\<lparr> oc_frame := frame, oc_program := program_new code, oc_stack := [], oc_memory := memory_default, oc_effects := effects_default, oc_energy := meter \<rparr>"

definition meter_of :: "i64 \<Rightarrow> EnergyMeter" where
  "meter_of limit = \<lparr> em_limit = max limit 0, em_used = 0, em_penalty = 0 \<rparr>"

text \<open>Taking over the effects of a child.\<close>

definition adopt_effects :: "InternalTransactionRecord \<Rightarrow> ExecutionOutcome \<Rightarrow> OperationContext \<Rightarrow> OperationContext" where
  "adopt_effects record out c =
     c\<lparr> oc_effects := (oc_effects c)\<lparr> oe_logs := oe_logs (oc_effects c) @ xo_logs out,
       oe_deleted_accounts := oe_deleted_accounts (oc_effects c) @ xo_deleted_accounts out,
       oe_internal_transactions := oe_internal_transactions (oc_effects c) @ [record] @ xo_internal_transactions out \<rparr> \<rparr>"

definition reject_effects :: "InternalTransactionRecord \<Rightarrow> ExecutionOutcome \<Rightarrow> OperationContext \<Rightarrow> OperationContext" where
  "reject_effects record out c =
     c\<lparr> oc_effects := (oc_effects c)\<lparr> oe_internal_transactions :=
       oe_internal_transactions (oc_effects c) @ [reject_transaction record] @ map reject_transaction (xo_internal_transactions out) \<rparr> \<rparr>"

definition feasible :: "vm_codec \<Rightarrow> CallRequest \<Rightarrow> bytes \<Rightarrow> Repository \<Rightarrow> (unit, VmFault) result" where
  "feasible X request self r =
     (case cr_kind request of
        CKCall \<Rightarrow> can_transfer_value X self (cr_destination request) (cr_value request) r
      | CKCallToken \<Rightarrow> can_transfer_token X self (cr_destination request) (cr_token_id request) (cr_token_value request) r
      | CKCallCode \<Rightarrow> can_endow X self (cr_value request) r
      | _ \<Rightarrow> Ok ())"

definition call_transfer :: "vm_codec \<Rightarrow> CallRequest \<Rightarrow> bytes \<Rightarrow> (Repository, unit, VmFault) prog" where
  "call_transfer X request self =
     (case cr_kind request of
        CKCall \<Rightarrow> transfer_value X self (cr_destination request) (cr_value request)
      | CKCallToken \<Rightarrow> transfer_token X self (cr_destination request) (cr_token_id request) (cr_token_value request)
      | _ \<Rightarrow> sret ())"

definition call_frame :: "FrameContext \<Rightarrow> ChildFrame \<Rightarrow> bytes \<Rightarrow> FrameContext" where
  "call_frame par spec data =
     \<lparr> fr_code_address = ch_code_address spec, fr_context_address = ch_context_address spec, fr_origin = fr_origin par, fr_caller = ch_caller spec,
       fr_input = data, fr_call_value = ch_call_value spec, fr_token_value = ch_token_value spec, fr_token_id = ch_token_id spec,
       fr_root_txid = fr_root_txid par, fr_contract_version = fr_contract_version par, fr_depth = ch_depth spec, fr_is_static = ch_is_static spec \<rparr>"

text \<open>The called code: a precompiled contract, or a frame of its own. The result is the outcome, the repository,
  the number of checks and the nonce after it.\<close>

definition run_callee ::
  "vm_host \<Rightarrow> exec_frame \<Rightarrow> FrameContext \<Rightarrow> EnergyMeter \<Rightarrow> bytes \<Rightarrow> i64 \<Rightarrow> OperationContext \<Rightarrow> (ExecutionOutcome \<times> Repository \<times> nat \<times> i64) option" where
  "run_callee H exec frame meter hash nonce c =
     (case dispatch_with_caller H (fr_code_address frame) (fr_input frame) (oc_rules c) (Some (fr_caller frame)) (oc_repository c) meter of
        Some (pre, r, meter) \<Rightarrow>
          (let out = (if po_success pre then outcome_success else outcome_fault (case po_fault pre of Some f \<Rightarrow> f | None \<Rightarrow> VPrecompiledContract))
           in Some (out\<lparr> xo_return_data := po_output pre, xo_energy_used := em_used meter \<rparr>, r, oc_checks c, nonce))
      | None \<Rightarrow>
          map_option (\<lambda>(out, c', nonce). (out, oc_repository c', oc_checks c', nonce))
            (exec hash nonce (child_context frame (code_or_empty (fr_code_address frame) (oc_repository c)) meter c)))"

definition finish_call :: "CallRequest \<Rightarrow> usize \<Rightarrow> InternalTransactionRecord \<Rightarrow> ExecutionOutcome \<Rightarrow> OperationContext \<Rightarrow> OperationContext" where
  "finish_call request i record out c =
     (let unused = cr_reserved_energy request - min (xo_energy_used out) (cr_reserved_energy request);
          c = set_return_data (xo_return_data out) (refund_quiet unused c);
          c = write_quiet (cr_output_offset request) (take (min (cr_output_size request) (length (xo_return_data out))) (xo_return_data out)) c
      in if xo_status out = Succeeded
         then push_quiet word_ONE (adopt_effects record out (c\<lparr> oc_repository := fst (commit_child i (oc_repository c)) \<rparr>))
         else push_quiet word_ZERO (reject_effects record out (c\<lparr> oc_repository := fst (revoke_child i (oc_repository c)) \<rparr>)))"

definition drive_call :: "vm_host \<Rightarrow> exec_frame \<Rightarrow> CallRequest \<Rightarrow> bytes \<Rightarrow> i64 \<Rightarrow> OperationContext \<Rightarrow> (OperationContext \<times> i64) option" where
  "drive_call H exec request parent_hash nonce c =
     (let X = vh_codec H; par = oc_frame c; self = fr_context_address par in
      case child_frame par (cr_destination request) (cr_value request) (cr_token_value request) (cr_token_id request) (cr_kind request) of
        None \<Rightarrow> Some (reject_call_before_execution request c, nonce)
      | Some spec \<Rightarrow>
        if \<not> is_ok (feasible X request self (oc_repository c)) then Some (reject_call_before_execution request c, nonce)
        else
          let token_info = (if cr_kind request = CKCallToken then [(cr_token_id request, cr_token_value request)] else []);
              record = transaction_child X parent_hash self (Some (cr_destination request)) (cr_data request)
                (if cr_kind request = CKCallToken then word_ZERO else cr_value request) token_info ''call'' (fr_depth par) nonce;
              nonce = next_nonce nonce;
              (i, r) = begin_child CopiedStorage (oc_repository c)
          in case call_transfer X request self r of
               (r, Err _) \<Rightarrow>
                 Some (push_quiet word_ZERO (set_return_data [] (push_record (reject_transaction record) (c\<lparr> oc_repository := fst (revoke_child i r) \<rparr>))), nonce)
             | (r, Ok _) \<Rightarrow>
                 map_option (\<lambda>(out, r, checks, nonce). (finish_call request i record out (c\<lparr> oc_repository := r, oc_checks := checks \<rparr>), nonce))
                   (run_callee H exec (call_frame par spec (cr_data request)) (meter_of (cr_energy_limit request)) (it_hash record) nonce (c\<lparr> oc_repository := r \<rparr>)))"

section \<open>Creations\<close>

definition address_word :: "bytes \<Rightarrow> tword" where "address_word a = word_from_be (replicate 12 0 @ drop 1 a)"

definition refused_create :: "InternalTransactionRecord \<Rightarrow> usize \<Rightarrow> Repository \<Rightarrow> OperationContext \<Rightarrow> OperationContext" where
  "refused_create record i r c = push_record (reject_transaction record) (c\<lparr> oc_repository := fst (revoke_child i r) \<rparr>)"

definition create_frame :: "FrameContext \<Rightarrow> bytes \<Rightarrow> tword \<Rightarrow> FrameContext" where
  "create_frame par address v =
     \<lparr> fr_code_address = address, fr_context_address = address, fr_origin = fr_origin par, fr_caller = fr_context_address par, fr_input = [],
       fr_call_value = v, fr_token_value = word_ZERO, fr_token_id = word_ZERO, fr_root_txid = fr_root_txid par,
       fr_contract_version = fr_contract_version par, fr_depth = (fr_depth par + 1) mod 65536, fr_is_static = False \<rparr>"

text \<open>The deposit for the code: what is left of the child's energy pays for it.\<close>

definition code_deposit :: "bytes \<Rightarrow> bool \<Rightarrow> EnergyMeter \<Rightarrow> EnergyMeter \<times> (unit, VmFault) result" where
  "code_deposit code london meter =
     (case validate_deployed_code code london of
        Err e \<Rightarrow> (meter, Err e)
      | Ok cost \<Rightarrow> if length code > 24576 then (meter, Err VOutOfEnergy) else spend cost meter)"

definition finish_create ::
  "vm_host \<Rightarrow> CreateRequest \<Rightarrow> bytes \<Rightarrow> usize \<Rightarrow> InternalTransactionRecord \<Rightarrow> ExecutionOutcome \<Rightarrow> EnergyMeter \<Rightarrow> OperationContext \<Rightarrow> OperationContext" where
  "finish_create H request address i record out meter c =
     (let rules = oc_rules c;
          failed = (\<lambda>meter c.
            let c = set_return_data (xo_return_data out) (spend_quiet (min (em_used meter) (remaining (oc_energy c))) c)
            in push_quiet word_ZERO (reject_effects record out (c\<lparr> oc_repository := fst (revoke_child i (oc_repository c)) \<rparr>)))
      in if xo_status out = Succeeded then
           (case code_deposit (xo_return_data out) (tr_london rules) meter of
              (meter, Err _) \<Rightarrow> failed meter c
            | (meter, Ok _) \<Rightarrow>
              (case save_created_code (vh_codec H) address (xo_return_data out) (tr_constantinople rules) (oc_repository c) of
                 (r, Err _) \<Rightarrow> failed meter (c\<lparr> oc_repository := r \<rparr>)
               | (r, Ok _) \<Rightarrow>
                 (let c = adopt_effects record out (c\<lparr> oc_repository := fst (commit_child i r) \<rparr>);
                      c = (if ct_kind request = KCreate \<or> tr_osaka rules then set_return_data [] c else c);
                      c = push_quiet (address_word address) c
                  in spend_quiet (min (em_used meter) (remaining (oc_energy c))) c)))
         else failed meter c)"

definition too_deep :: "CreateKind \<Rightarrow> TvmRules \<Rightarrow> nat \<Rightarrow> (unit, VmFault) result option" where
  "too_deep kind rules depth =
     (if depth < 64 then None
      else case kind of
        KCreate \<Rightarrow> Some (Ok ())
      | KCreate2 \<Rightarrow>
        if tr_compatible_evm rules \<or> tr_osaka rules then Some (Ok ())
        else if tr_create2_depth_timeout rules then Some (Err VOutOfTime) else None)"

definition created_address :: "vm_codec \<Rightarrow> CreateRequest \<Rightarrow> FrameContext \<Rightarrow> TvmRules \<Rightarrow> i64 \<Rightarrow> bytes" where
  "created_address X request par rules nonce =
     (case ct_salt request of
        None \<Rightarrow> create_address X par nonce
      | Some salt \<Rightarrow> create2_address_no_ff X par salt (ct_init_code request) (tr_istanbul rules))"

definition prepare_creation :: "vm_codec \<Rightarrow> CreateRequest \<Rightarrow> bytes \<Rightarrow> FrameContext \<Rightarrow> TvmRules \<Rightarrow> (Repository, unit, VmFault) prog" where
  "prepare_creation X request address par rules =
     sbind (as_other (prepare_created_contract X address (fr_context_address par) (fr_root_txid par) (ct_kind request = KCreate2)
       (tr_constantinople rules) (tr_compatible_evm rules) (fr_contract_version par))) (\<lambda>_.
     if word_is_zero (ct_value request) then sret () else transfer_value X (fr_context_address par) address (ct_value request))"

definition drive_create :: "vm_host \<Rightarrow> exec_frame \<Rightarrow> CreateRequest \<Rightarrow> bytes \<Rightarrow> i64 \<Rightarrow> OperationContext \<Rightarrow> (OperationContext \<times> i64 \<times> (unit, VmFault) result) option" where
  "drive_create H exec request parent_hash nonce c =
     (let X = vh_codec H; par = oc_frame c; rules = oc_rules c; self = fr_context_address par in
      case too_deep (ct_kind request) rules (fr_depth par) of
        Some (Err f) \<Rightarrow> Some (c, nonce, Err f)
      | Some (Ok _) \<Rightarrow> Some (push_quiet word_ZERO c, nonce, Ok ())
      | None \<Rightarrow>
        if \<not> is_ok (can_endow X self (ct_value request) (oc_repository c)) then Some (push_quiet word_ZERO c, nonce, Ok ())
        else
          let address = created_address X request par rules nonce;
              record = transaction_child X parent_hash self (Some address) (ct_init_code request) (ct_value request) [] ''create'' (fr_depth par) nonce;
              nonce = next_nonce nonce;
              (i, r) = begin_child CopiedStorage (oc_repository c)
          in if (case create_destination_exists X address (tr_constantinople rules) r of Ok b \<Rightarrow> b | Err _ \<Rightarrow> True)
             then Some (push_quiet word_ZERO (spend_quiet (min (ct_energy_limit request) (remaining (oc_energy c))) (refused_create record i r c)), nonce, Ok ())
             else
               (case prepare_creation X request address par rules r of
                  (r, Err _) \<Rightarrow> Some (push_quiet word_ZERO (refused_create record i r c), nonce, Ok ())
                | (r, Ok _) \<Rightarrow>
                  map_option (\<lambda>(out, c', nonce).
                      (finish_create H request address i record out (oc_energy c') (c\<lparr> oc_repository := oc_repository c', oc_checks := oc_checks c' \<rparr>), nonce, Ok ()))
                    (exec (it_hash record) nonce
                      (child_context (create_frame par address (ct_value request)) (ct_init_code request) (meter_of (ct_energy_limit request)) (c\<lparr> oc_repository := r \<rparr>)))))"

section \<open>The loop\<close>

type_synonym resolved_ops = "u8 \<Rightarrow> (OperationSpec \<times> OperationVariant) option"

definition step :: "vm_host \<Rightarrow> resolved_ops \<Rightarrow> u8 \<Rightarrow> OperationControl op" where
  "step H ops opcode =
     (case ops opcode of
        None \<Rightarrow> sfail VIllegalOperation
      | Some (spec, variant) \<Rightarrow>
        sbind (sask (\<lambda>c. check_shape (oc_stack c) (os_required_before spec) (os_resulting_window spec))) (\<lambda>_.
        sbind (sask (ov_energy variant)) (\<lambda>cost.
        sbind (op_spend cost) (\<lambda>_.
        sbind (op_check_limit H) (\<lambda>_.
        ov_execute variant)))))"

definition finish_fault :: "VmFault \<Rightarrow> i64 \<Rightarrow> OperationContext \<Rightarrow> ExecutionOutcome \<times> OperationContext \<times> i64" where
  "finish_fault f nonce c = (let (o', c) = fault_outcome f c in (o', c, nonce))"

primrec execute_frame :: "vm_host \<Rightarrow> resolved_ops \<Rightarrow> nat \<Rightarrow> exec_frame" where
  "execute_frame H ops 0 = (\<lambda>parent_hash nonce c. None)"
| "execute_frame H ops (Suc fuel) = (\<lambda>parent_hash nonce c.
     case next_opcode (oc_program c) of
       None \<Rightarrow> Some (frame_outcome Succeeded CSuccess c, c, nonce)
     | Some (opcode, p) \<Rightarrow>
       (case step H ops opcode (c\<lparr> oc_program := p \<rparr>) of
          (c, Err f) \<Rightarrow> Some (finish_fault f nonce c)
        | (c, Ok control) \<Rightarrow>
          (case control of
             OContinue \<Rightarrow> execute_frame H ops fuel parent_hash nonce c
           | OHalt data \<Rightarrow> (let c = set_return_data data c in Some (frame_outcome Succeeded CSuccess c, c, nonce))
           | ORevert data \<Rightarrow> (let c = set_return_data data c in Some (frame_outcome Reverted CRevert c, c, nonce))
           | OSelfDestruct beneficiary \<Rightarrow> Some (self_destruct H beneficiary parent_hash nonce c)
           | OCall request \<Rightarrow>
             Option.bind (drive_call H (execute_frame H ops fuel) request parent_hash nonce c) (\<lambda>(c, nonce).
               execute_frame H ops fuel parent_hash nonce c)
           | OCreate request \<Rightarrow>
             Option.bind (drive_create H (execute_frame H ops fuel) request parent_hash nonce c) (\<lambda>(c, nonce, res).
               case res of
                 Err f \<Rightarrow> Some (finish_fault f nonce c)
               | Ok _ \<Rightarrow> execute_frame H ops fuel parent_hash nonce c))))"

text \<open>A run: the frame in a layer of its own, kept only when it succeeds.\<close>

definition run_root :: "vm_host \<Rightarrow> resolved_ops \<Rightarrow> nat \<Rightarrow> OperationContext \<Rightarrow> (ExecutionOutcome \<times> OperationContext) option" where
  "run_root H ops fuel c =
     (let (root, r) = begin_child CopiedStorage (oc_repository c) in
      map_option (\<lambda>(out, c', _).
          if xo_status out = Succeeded then
            (let r = fst (commit_child root (oc_repository c')) in (out\<lparr> xo_deltas := repo_deltas r \<rparr>, c'\<lparr> oc_repository := r \<rparr>))
          else
            (let r = fst (revoke_child root (oc_repository c')) in
             (out\<lparr> xo_logs := [], xo_deleted_accounts := [], xo_internal_transactions := map reject_transaction (xo_internal_transactions out),
                xo_deltas := repo_deltas r \<rparr>, c'\<lparr> oc_repository := r \<rparr>)))
        (execute_frame H ops fuel (fr_root_txid (oc_frame c)) 0 (c\<lparr> oc_repository := r, oc_effects := effects_default \<rparr>)))"

end
