(* ===== verification/Tvm_Steps.thy ===== *)
theory Tvm_Steps
  imports Tvm_Interpreter
begin

text \<open>
  What every operation of the machine keeps. Programs are related step by step: the locale
  \<open>step_order\<close> has a reflexive and transitive relation of states and the closure of the programs
  that follow it; it is interpreted on repositories and on operation contexts.
\<close>

section \<open>Programs that follow a relation\<close>

definition follows :: "('s \<Rightarrow> 's \<Rightarrow> bool) \<Rightarrow> ('s, 'a, 'e) prog \<Rightarrow> bool" where
  "follows R f \<longleftrightarrow> (\<forall>s. R s (fst (f s)))"

locale step_order =
  fixes R :: "'s \<Rightarrow> 's \<Rightarrow> bool"
  assumes R_refl: "R s s"
    and R_trans: "R s t \<Longrightarrow> R t u \<Longrightarrow> R s u"
begin

lemma bind: "follows R f \<Longrightarrow> (\<And>x. follows R (g x)) \<Longrightarrow> follows R (sbind f g)"
  unfolding follows_def sbind_def
proof (intro allI)
  fix s
  assume f: "\<forall>s. R s (fst (f s))" and g: "\<And>x. \<forall>s. R s (fst (g x s))"
  obtain s' res where s': "f s = (s', res)" by fastforce
  show "R s (fst (case f s of (s', Err e) \<Rightarrow> (s', Err e) | (s', Ok x) \<Rightarrow> g x s'))"
    using spec [OF f, of s] g [rule_format, of s'] R_trans by (cases res) (auto simp: s')
qed

lemma pure: "follows R (sret x)" "follows R (sfail e)" "follows R (slift r)" "follows R (sask h)" "follows R (sread k)"
  by (simp_all add: follows_def sret_def sfail_def slift_def sask_def sread_def R_refl)

lemma upd: "(\<And>s. R s (h s)) \<Longrightarrow> follows R (supd h)"
  by (simp add: follows_def supd_def)

lemma branch: "follows R f \<Longrightarrow> follows R g \<Longrightarrow> follows R (if b then f else g)"
  by simp

lemma opt: "follows R f \<Longrightarrow> (\<And>x. follows R (g x)) \<Longrightarrow> follows R (case v of None \<Rightarrow> f | Some x \<Rightarrow> g x)"
  by (cases v) simp_all

lemma pair: "(\<And>a b. follows R (g a b)) \<Longrightarrow> follows R (case p of (a, b) \<Rightarrow> g a b)"
  by (cases p) simp

lemma code: "follows R f \<Longrightarrow> follows R g \<Longrightarrow> follows R h \<Longrightarrow> follows R (case k of Bandwidth \<Rightarrow> f | Energy \<Rightarrow> g | TronPower \<Rightarrow> h)"
  by (cases k) simp_all

lemma letI: "(\<And>x. follows R (g x)) \<Longrightarrow> follows R (Let v g)"
  by (simp add: Let_def)

lemma upd_branch: "follows R (supd h) \<Longrightarrow> follows R (supd k) \<Longrightarrow> follows R (supd (if b then h else k))"
  by (cases b) (simp_all add: follows_def supd_def)

lemmas closure = bind pure branch opt pair code letI upd_branch

end

section \<open>Repositories\<close>

definition repo_rel :: "Repository \<Rightarrow> Repository \<Rightarrow> bool" where
  "repo_rel r r' \<longleftrightarrow> rp_blackhole r' = rp_blackhole r \<and> (repo_inv r \<longrightarrow> repo_inv r' \<and> same_frame r r')"

interpretation rrel: step_order repo_rel
  by unfold_locales (auto simp: repo_rel_def intro: same_frame_trans)

lemma repo_rel_writes:
  "repo_rel r (repo_write store key v r)" "repo_rel r (set_transient a slot w r)" "repo_rel r (mark_new_contract a r)"
  using repo_write_inv(1,2) set_transient_inv(1,2) mark_new_contract_inv(1,2)
  by (auto simp: repo_rel_def repo_write_def set_transient_def mark_new_contract_def Let_def)

lemma repo_rel_puts:
  "repo_rel r (put_raw store key b r)" "repo_rel r (delete_raw store key r)" "repo_rel r (put_account X acc r)" "repo_rel r (put_code p q r)"
  "repo_rel r (put_delegated X key d r)" "repo_rel r (set_storage X a slot v n h r)" "repo_rel r (put_contract X c r)" "repo_rel r (delete_contract a r)"
  by (simp_all add: put_raw_def delete_raw_def put_account_def put_code_def put_delegated_def set_storage_def put_contract_def delete_contract_def
      split_contract_def Let_def repo_rel_writes rrel.R_refl split: option.split)
    (meson repo_rel_writes rrel.R_trans)+

lemma rrel_put [intro]: "follows repo_rel (supd (put_account X acc))" "follows repo_rel (supd (put_delegated X key d))" "follows repo_rel (supd (put_raw store key b))"
  "follows repo_rel (supd (delete_raw store key))" "follows repo_rel (supd (put_contract X c))" "follows repo_rel (supd (put_code p q))" "follows repo_rel (supd (mark_new_contract p))"
  by (rule rrel.upd; rule repo_rel_puts repo_rel_writes)+

lemmas repo_steps = rrel.closure rrel_put

lemma repo_prog_steps:
  "follows repo_rel (set_balance X a b)" "follows repo_rel (set_token_balance X a token b)" "follows repo_rel (set_dynamic_i64 name v)"
  "follows repo_rel (prepare_created_contract X a origin txid f1 f2 f3 ver)" "follows repo_rel (save_created_code X a code f1)"
  unfolding set_balance_def set_token_balance_def set_dynamic_i64_def prepare_created_contract_def save_created_code_def
  by (rule repo_steps)+

lemma change_weight_steps: "follows repo_rel (change_weight k old new)"
  unfolding change_weight_def by (rule repo_steps repo_prog_steps)+

lemma cancel_entries_steps: "follows repo_rel (cancel_entries now vs a)"
proof (induction vs arbitrary: a)
  case (Cons v vs)
  show ?case unfolding cancel_entries.simps by (rule repo_steps change_weight_steps Cons.IH)+
qed (simp add: repo_steps)

lemma freeze_for_steps: "follows repo_rel (freeze_for X owner receiver k n expire from to)" "follows repo_rel (unfreeze_from X owner receiver k now from)"
  unfolding freeze_for_def unfreeze_from_def by (rule repo_steps)+

lemma resource_steps:
  "follows repo_rel (transfer_selfdestruct_resources X owner inheritor f1 f2 f3)"
  "follows repo_rel (repo_freeze_legacy X owner receiver amount kind)" "follows repo_rel (repo_unfreeze_legacy X owner receiver kind)"
  "follows repo_rel (repo_freeze_v2 X owner amount kind)" "follows repo_rel (repo_unfreeze_v2 X owner amount kind)"
  "follows repo_rel (repo_withdraw_expired_v2 X owner)" "follows repo_rel (repo_cancel_all_unfreeze_v2 X owner)"
  "follows repo_rel (repo_withdraw_reward X owner)" "follows repo_rel (repo_vote_witness X owner votes)"
  "follows repo_rel (repo_delegate_v2 X owner receiver amount kind)" "follows repo_rel (repo_undelegate_v2 X owner receiver amount kind)"
  unfolding transfer_selfdestruct_resources_def repo_freeze_legacy_def repo_unfreeze_legacy_def repo_freeze_v2_def repo_unfreeze_v2_def
    repo_withdraw_expired_v2_def repo_cancel_all_unfreeze_v2_def repo_withdraw_reward_def repo_vote_witness_def repo_delegate_v2_def repo_undelegate_v2_def
  by (rule repo_steps repo_prog_steps change_weight_steps freeze_for_steps cancel_entries_steps)+

lemma as_other_steps: "follows repo_rel f \<Longrightarrow> follows repo_rel (as_other f)"
  by (auto simp: follows_def as_other_def split: prod.split sum.split) (metis fst_conv)+

lemma transfer_steps:
  "follows repo_rel (transfer_value X from to v)" "follows repo_rel (transfer_token X from to i v)" "follows repo_rel (move_balance X rules owner ben inh bal)"
  unfolding transfer_value_def transfer_token_def move_balance_def by (rule repo_steps as_other_steps repo_prog_steps)+

lemma move_tokens_steps: "follows repo_rel (move_tokens X owner inh ts)"
  by (induction ts) (auto intro!: repo_steps as_other_steps repo_prog_steps)

lemma apply_selfdestruct_steps: "follows repo_rel (apply_selfdestruct X rules owner ben)"
  unfolding apply_selfdestruct_def by (rule repo_steps as_other_steps transfer_steps move_tokens_steps resource_steps)+

lemma prepare_creation_steps: "follows repo_rel (prepare_creation X request address par rules)"
  unfolding prepare_creation_def by (rule repo_steps as_other_steps transfer_steps repo_prog_steps)+

lemma call_transfer_steps: "follows repo_rel (call_transfer X request self)"
  unfolding call_transfer_def by (cases "cr_kind request") (auto intro: repo_steps transfer_steps)

section \<open>Contexts\<close>

definition vm_inv :: "OperationContext \<Rightarrow> bool" where
  "vm_inv c \<longleftrightarrow> length (oc_stack c) \<le> 1024 \<and> memory_inv (oc_memory c) \<and> meter_inv (oc_energy c) \<and> repo_inv (oc_repository c)"

text \<open>What stays fixed while a frame runs; the energy only grows.\<close>

definition keeps_frame :: "OperationContext \<Rightarrow> OperationContext \<Rightarrow> bool" where
  "keeps_frame c c' \<longleftrightarrow> oc_rules c' = oc_rules c \<and> oc_frame c' = oc_frame c \<and> pg_code (oc_program c') = pg_code (oc_program c) \<and>
     em_limit (oc_energy c') = em_limit (oc_energy c) \<and> em_used (oc_energy c) \<le> em_used (oc_energy c') \<and>
     same_frame (oc_repository c) (oc_repository c') \<and> rp_blackhole (oc_repository c') = rp_blackhole (oc_repository c)"

definition ctx_rel :: "bool \<Rightarrow> OperationContext \<Rightarrow> OperationContext \<Rightarrow> bool" where
  "ctx_rel jumps c c' \<longleftrightarrow> (vm_inv c \<longrightarrow> vm_inv c' \<and> keeps_frame c c' \<and> (jumps \<or> pg_pc (oc_program c) \<le> pg_pc (oc_program c')))"

lemma keeps_frame_refl [simp]: "keeps_frame c c"
  by (simp add: keeps_frame_def)

lemma keeps_frame_trans [trans]: "keeps_frame a b \<Longrightarrow> keeps_frame b c \<Longrightarrow> keeps_frame a c"
  by (auto simp: keeps_frame_def intro: same_frame_trans)

interpretation crel: step_order "ctx_rel jumps" for jumps
  by unfold_locales (auto simp: ctx_rel_def intro: keeps_frame_trans)

lemma crel_stack:
  "follows (ctx_rel j) op_pop" "follows (ctx_rel j) (op_push v)" "follows (ctx_rel j) (op_swap n)"
  using stack_pop_Ok stack_push_Ok stack_swap_Ok
  by (auto simp: follows_def op_pop_def op_push_def op_swap_def ctx_rel_def vm_inv_def keeps_frame_def split: sum.split prod.split)
    (fastforce dest: stack_pop_Ok stack_push_Ok stack_swap_Ok)+

lemma crel_memory:
  "follows (ctx_rel j) (op_read offset sz)" "follows (ctx_rel j) (op_memory (memory_write offset data))"
  "follows (ctx_rel j) (op_memory (write_padded offset sz source k))" "follows (ctx_rel j) (op_memory (copy_within d s sz))"
  "follows (ctx_rel j) (op_memory (expand offset sz))"
  by (auto simp: follows_def op_read_def op_memory_def ctx_rel_def vm_inv_def keeps_frame_def split: sum.split prod.split
      dest: memory_read_Ok(1) memory_write_Ok(1) write_padded_Ok(1) copy_within_Ok(1) expand_Ok(1))

lemma crel_program: "follows (ctx_rel True) (op_jump pc)" "follows (ctx_rel True) (op_read_push n)"
  by (auto simp: follows_def op_jump_def op_read_push_def program_jump_def read_push_def ctx_rel_def vm_inv_def keeps_frame_def Let_def
      usize_saturating_add_def split: sum.split prod.split if_splits)

lemma crel_spend: "follows (ctx_rel j) (op_spend amount)"
  by (auto simp: follows_def op_spend_def ctx_rel_def vm_inv_def keeps_frame_def split: prod.split dest: spend_meter)

lemma crel_check: "follows (ctx_rel j) (op_check_limit H)"
  by (simp add: follows_def op_check_limit_def ctx_rel_def vm_inv_def keeps_frame_def)

lemma crel_effects: "follows (ctx_rel j) (op_effects f)"
  unfolding op_effects_def by (rule crel.upd) (simp add: ctx_rel_def vm_inv_def keeps_frame_def)

lemma crel_repository: "(\<And>r. repo_rel r (f r)) \<Longrightarrow> follows (ctx_rel j) (op_repository f)"
  by (simp add: follows_def op_repository_def supd_def ctx_rel_def vm_inv_def keeps_frame_def repo_rel_def)

lemma crel_query: "follows (ctx_rel j) (op_query f)"
  unfolding op_query_def by (rule crel.closure)

lemma crel_guards: "follows (ctx_rel j) static_guard" "follows (ctx_rel j) vote_guard" "follows (ctx_rel j) context_of" "follows (ctx_rel j) cont"
  unfolding static_guard_def vote_guard_def context_of_def cont_def by (rule crel.closure)+

lemma crel_finish: "follows (ctx_rel j) (op_finish v)"
  unfolding op_finish_def by (rule crel.closure crel_stack crel_guards)+

text \<open>A program on a layer of its own, which is then committed or revoked.\<close>

lemma layer_commit:
  assumes "repo_inv r" "begin_child mode r = (i, r1)" "repo_rel r1 r2" "commit_child i r2 = (r3, res)"
  shows "repo_inv r3 \<and> same_frame r r3 \<and> rp_blackhole r3 = rp_blackhole r \<and> res = Ok () \<and> repo_view r3 = repo_view r2"
proof -
  note b = begin_child_inv [OF assms(1,2)]
  have r2: "repo_inv r2" "same_frame r1 r2" "rp_blackhole r2 = rp_blackhole r1" using assms(3) b(1) by (auto simp: repo_rel_def)
  have i: "0 < i" "length (rp_layers r2) = Suc i" using assms(1) b r2(2) by (auto simp: repo_inv_def same_frame_def)
  note c = commit_child_inv [OF r2(1) i(2,1) assms(4)]
  have "butlast (rp_layers r2) = rp_layers r" "length (rp_layers r) = i" "rp_base r2 = rp_base r" using r2(2) b by (auto simp: same_frame_def)
  then show ?thesis using c b r2 by (auto simp: same_frame_def)
qed

lemma layer_revoke:
  assumes "repo_inv r" "begin_child mode r = (i, r1)" "repo_rel r1 r2" "revoke_child i r2 = (r3, res)"
  shows "repo_inv r3 \<and> rp_layers r3 = rp_layers r \<and> rp_base r3 = rp_base r \<and> rp_blackhole r3 = rp_blackhole r \<and> res = Ok () \<and> repo_view r3 = repo_view r"
proof -
  note b = begin_child_inv [OF assms(1,2)]
  have r2: "repo_inv r2" "same_frame r1 r2" "rp_blackhole r2 = rp_blackhole r1" using assms(3) b(1) by (auto simp: repo_rel_def)
  have i: "0 < i" "length (rp_layers r2) = Suc i" using assms(1) b r2(2) by (auto simp: repo_inv_def same_frame_def)
  note c = revoke_child_inv [OF r2(1) i(2,1) assms(4)]
  have l: "butlast (rp_layers r2) = rp_layers r" "rp_base r2 = rp_base r" using r2(2) b by (auto simp: same_frame_def)
  then have "repo_view r3 = repo_view r" using c(6) layers_view_cong [of r2 r] by (simp add: repo_view_def)
  then show ?thesis using c l b r2 by auto
qed

lemma in_layer_cases:
  assumes "repo_inv (oc_repository c)" "follows repo_rel f" "in_layer f c = (c', res)"
  obtains (kept) r v r1 i r2 where "c' = c\<lparr> oc_repository := r \<rparr>" "res = Ok v" "repo_inv r" "same_frame (oc_repository c) r" "rp_blackhole r = rp_blackhole (oc_repository c)"
      "begin_child CopiedStorage (oc_repository c) = (i, r1)" "f r1 = (r2, Ok v)" "repo_view r = repo_view r2"
    | (dropped) r where "c' = c\<lparr> oc_repository := r \<rparr>" "repo_inv r" "same_frame (oc_repository c) r" "rp_blackhole r = rp_blackhole (oc_repository c)"
      "repo_view r = repo_view (oc_repository c)"
proof -
  obtain i r1 where b: "begin_child CopiedStorage (oc_repository c) = (i, r1)" by fastforce
  obtain r2 q where f: "f r1 = (r2, q)" by fastforce
  have rel: "repo_rel r1 r2" using assms(2) f by (metis follows_def fst_conv)
  show ?thesis
  proof (cases q)
    case (Inr v)
    obtain r3 q' where c: "commit_child i r2 = (r3, q')" by fastforce
    show ?thesis using kept [of r3 v i r1 r2] layer_commit [OF assms(1) b rel c] assms(3) by (simp add: in_layer_def b f c Inr)
  next
    case (Inl e)
    obtain r3 q' where c: "revoke_child i r2 = (r3, q')" by fastforce
    show ?thesis using dropped [of r3] layer_revoke [OF assms(1) b rel c] assms(3) by (simp add: in_layer_def b f c Inl same_frame_def)
  qed
qed

lemma crel_in_layer:
  assumes "follows repo_rel f"
  shows "follows (ctx_rel j) (in_layer f)"
  unfolding follows_def ctx_rel_def
proof (intro allI impI)
  fix c
  assume inv: "vm_inv c"
  obtain c' res where c': "in_layer f c = (c', res)" by fastforce
  have "repo_inv (oc_repository c)" using inv by (simp add: vm_inv_def)
  then show "vm_inv (fst (in_layer f c)) \<and> keeps_frame c (fst (in_layer f c)) \<and> (j \<or> pg_pc (oc_program c) \<le> pg_pc (oc_program (fst (in_layer f c))))"
    by (rule in_layer_cases [OF _ assms c']) (use inv in \<open>simp_all add: c' vm_inv_def keeps_frame_def\<close>)
qed

lemma crel_transactional: "follows repo_rel f \<Longrightarrow> follows (ctx_rel j) (transactional f)"
  unfolding transactional_def by (rule crel.bind crel_in_layer crel_finish | assumption)+

lemma repo_wrap_steps: "follows repo_rel f \<Longrightarrow> follows repo_rel (as_flag f)" "follows repo_rel g \<Longrightarrow> follows repo_rel (as_amount g)"
  unfolding as_flag_def as_amount_def by (rule repo_steps | assumption)+

section \<open>The three families\<close>

lemmas ctx_steps = crel.closure crel_stack crel_memory crel_spend crel_check crel_effects crel_query crel_guards crel_finish

lemma family_a_steps:
  "follows (ctx_rel j) (binary f)" "follows (ctx_rel j) op_addmod" "follows (ctx_rel j) op_mulmod" "follows (ctx_rel j) op_exp" "follows (ctx_rel j) op_signextend"
  "follows (ctx_rel j) op_iszero" "follows (ctx_rel j) op_not" "follows (ctx_rel j) op_byte" "follows (ctx_rel j) op_shl" "follows (ctx_rel j) op_shr"
  "follows (ctx_rel j) op_sar" "follows (ctx_rel j) op_clz" "follows (ctx_rel j) (op_sha3 H)" "follows (ctx_rel j) op_address" "follows (ctx_rel j) op_origin"
  "follows (ctx_rel j) op_caller" "follows (ctx_rel j) op_callvalue" "follows (ctx_rel j) (op_balance H)" "follows (ctx_rel j) op_calldataload"
  "follows (ctx_rel j) op_calldatasize" "follows (ctx_rel j) op_calldatacopy" "follows (ctx_rel j) op_codesize" "follows (ctx_rel j) op_codecopy"
  "follows (ctx_rel j) op_returndatasize" "follows (ctx_rel j) op_returndatacopy" "follows (ctx_rel j) op_gasprice" "follows (ctx_rel j) op_extcodesize"
  "follows (ctx_rel j) op_extcodecopy" "follows (ctx_rel j) (op_extcodehash H)" "follows (ctx_rel j) op_blockhash" "follows (ctx_rel j) (op_coinbase H)"
  "follows (ctx_rel j) op_timestamp" "follows (ctx_rel j) op_number" "follows (ctx_rel j) op_zero" "follows (ctx_rel j) op_chainid" "follows (ctx_rel j) (op_selfbalance H)"
  "follows (ctx_rel j) op_basefee" "follows (ctx_rel j) op_blobhash"
  unfolding binary_def op_addmod_def op_mulmod_def op_exp_def op_signextend_def op_iszero_def op_not_def op_byte_def op_shl_def op_shr_def op_sar_def op_clz_def
    op_sha3_def op_address_def op_origin_def op_caller_def op_callvalue_def op_balance_def op_calldataload_def op_calldatasize_def op_calldatacopy_def op_codesize_def
    op_codecopy_def op_returndatasize_def op_returndatacopy_def op_gasprice_def op_extcodesize_def op_extcodecopy_def op_extcodehash_def op_blockhash_def op_coinbase_def
    op_timestamp_def op_number_def op_zero_def op_chainid_def op_selfbalance_def op_basefee_def op_blobhash_def copy_to_memory_def
  by (rule ctx_steps)+

lemmas binary_ops = op_add_def op_mul_def op_sub_def op_div_def op_sdiv_def op_modu_def op_smod_def op_lt_def op_gt_def op_slt_def op_sgt_def op_eq_def op_and_def op_or_def op_xor_def

lemma pop_topics_steps: "follows (ctx_rel j) (pop_topics n)"
  by (induction n) (auto intro!: ctx_steps)

lemma family_b_steps:
  "follows (ctx_rel j) exec_mload" "follows (ctx_rel j) exec_mstore" "follows (ctx_rel j) exec_mstore8" "follows (ctx_rel j) (exec_sload H)" "follows (ctx_rel j) (exec_sstore H)"
  "follows (ctx_rel True) exec_jump" "follows (ctx_rel True) exec_jumpi" "follows (ctx_rel j) exec_tload" "follows (ctx_rel j) exec_tstore" "follows (ctx_rel j) exec_mcopy"
  "follows (ctx_rel j) (exec_log n)" "follows (ctx_rel j) execute_stop" "follows (ctx_rel j) execute_return" "follows (ctx_rel j) execute_revert"
  unfolding exec_mload_def exec_mstore_def exec_mstore8_def exec_sload_def exec_sstore_def exec_jump_def exec_jumpi_def exec_tload_def exec_tstore_def exec_mcopy_def
    exec_log_def execute_stop_def execute_return_def execute_revert_def
  by (rule ctx_steps crel_program crel_repository repo_rel_puts repo_rel_writes pop_topics_steps)+

lemma generic_steps: "follows (ctx_rel True) (execute_generic H)"
  unfolding execute_generic_def generic_step_def by (rule ctx_steps crel_program family_b_steps)+

lemma read_votes_steps: "follows (ctx_rel j) (read_votes w a is)"
  by (induction "is") (auto simp: op_word32_def intro!: ctx_steps)

lemma family_c_steps:
  "follows (ctx_rel j) op_token_value" "follows (ctx_rel j) op_token_id" "follows (ctx_rel j) (op_token_balance H)" "follows (ctx_rel j) (op_is_contract H)"
  "follows (ctx_rel j) (op_freeze_legacy H)" "follows (ctx_rel j) (op_unfreeze_legacy H)" "follows (ctx_rel j) (op_expire H)" "follows (ctx_rel j) (op_freeze_balance_v2 H)"
  "follows (ctx_rel j) (op_unfreeze_balance_v2 H)" "follows (ctx_rel j) (op_cancel_all H)" "follows (ctx_rel j) (op_withdraw_expired H)" "follows (ctx_rel j) (op_delegate_resource H)"
  "follows (ctx_rel j) (op_undelegate_resource H)" "follows (ctx_rel j) (op_vote_witness H)" "follows (ctx_rel j) (op_withdraw_reward H)" "follows (ctx_rel j) (call_exec kind b t)"
  "follows (ctx_rel j) op_create" "follows (ctx_rel j) op_create2" "follows (ctx_rel j) (op_suicide H)"
  unfolding op_token_value_def op_token_id_def op_token_balance_def op_is_contract_def op_freeze_legacy_def op_unfreeze_legacy_def op_expire_def op_freeze_balance_v2_def
    op_unfreeze_balance_v2_def op_cancel_all_def op_withdraw_expired_def op_delegate_resource_def op_undelegate_resource_def op_vote_witness_def op_withdraw_reward_def
    call_exec_def call_tail_def reserve_call_def op_create_def op_create2_def op_suicide_def clear_return_data_def read_init_code_def op_word32_def
  by (rule ctx_steps crel_transactional read_votes_steps repo_wrap_steps resource_steps repo_steps)+

lemmas call_ops = op_call_def op_callcode_def op_delegate_def op_staticcall_def op_calltoken_def

end
