(* ===== verification/Tvm_Table.thy ===== *)
theory Tvm_Table
  imports Tvm_Steps
begin

text \<open>
  The table of operations: what every row promises to the interpreter (\<open>row_ok\<close>), that the 165 rows
  of the three families keep the promise, and that they form a registry.
\<close>

section \<open>Results of programs\<close>

definition yields :: "('a \<Rightarrow> bool) \<Rightarrow> ('s, 'a, 'e) prog \<Rightarrow> bool" where
  "yields P f \<longleftrightarrow> (\<forall>s s' x. f s = (s', Ok x) \<longrightarrow> P x)"

lemma sbind_Ok: "sbind f g s = (s', Ok y) \<longleftrightarrow> (\<exists>s1 x. f s = (s1, Ok x) \<and> g x s1 = (s', Ok y))"
  by (auto simp: sbind_def split: prod.splits sum.splits)

lemma yields_bind: "(\<And>x. yields P (g x)) \<Longrightarrow> yields P (sbind f g)"
  unfolding yields_def sbind_Ok by blast

lemma yields_sret: "P x \<Longrightarrow> yields P (sret x)" and yields_sfail: "yields P (sfail e)"
  by (auto simp: yields_def sret_def sfail_def)

lemma yields_if: "yields P f \<Longrightarrow> yields P g \<Longrightarrow> yields P (if b then f else g)"
  by simp

fun plain :: "OperationControl \<Rightarrow> bool" where
  "plain (OCall _) = False"
| "plain (OCreate _) = False"
| "plain _ = True"

lemma yields_cont: "yields plain cont"
  by (simp add: cont_def yields_sret)

lemma yields_finish: "yields plain (op_finish v)"
  unfolding op_finish_def by (rule yields_bind yields_cont)+

lemma yields_transactional: "yields plain (transactional f)"
  unfolding transactional_def by (rule yields_bind yields_finish)+

lemmas yield_rules = yields_bind yields_if yields_cont yields_finish yields_transactional yields_sfail yields_sret

lemma family_a_plain:
  "yields plain (binary f)" "yields plain op_addmod" "yields plain op_mulmod" "yields plain op_exp" "yields plain op_signextend"
  "yields plain op_iszero" "yields plain op_not" "yields plain op_byte" "yields plain op_shl" "yields plain op_shr"
  "yields plain op_sar" "yields plain op_clz" "yields plain (op_sha3 H)" "yields plain op_address" "yields plain op_origin"
  "yields plain op_caller" "yields plain op_callvalue" "yields plain (op_balance H)" "yields plain op_calldataload"
  "yields plain op_calldatasize" "yields plain op_calldatacopy" "yields plain op_codesize" "yields plain op_codecopy"
  "yields plain op_returndatasize" "yields plain op_returndatacopy" "yields plain op_gasprice" "yields plain op_extcodesize"
  "yields plain op_extcodecopy" "yields plain (op_extcodehash H)" "yields plain op_blockhash" "yields plain (op_coinbase H)"
  "yields plain op_timestamp" "yields plain op_number" "yields plain op_zero" "yields plain op_chainid" "yields plain (op_selfbalance H)"
  "yields plain op_basefee" "yields plain op_blobhash"
  unfolding binary_def op_addmod_def op_mulmod_def op_exp_def op_signextend_def op_iszero_def op_not_def op_byte_def op_shl_def op_shr_def op_sar_def op_clz_def
    op_sha3_def op_address_def op_origin_def op_caller_def op_callvalue_def op_balance_def op_calldataload_def op_calldatasize_def op_calldatacopy_def op_codesize_def
    op_codecopy_def op_returndatasize_def op_returndatacopy_def op_gasprice_def op_extcodesize_def op_extcodecopy_def op_extcodehash_def op_blockhash_def op_coinbase_def
    op_timestamp_def op_number_def op_zero_def op_chainid_def op_selfbalance_def op_basefee_def op_blobhash_def
  by (rule yield_rules)+

lemma family_b_plain: "yields plain (execute_generic H)" "yields plain execute_stop" "yields plain execute_return" "yields plain execute_revert"
  unfolding execute_generic_def execute_stop_def execute_return_def execute_revert_def by (rule yield_rules | simp)+

lemma family_c_plain:
  "yields plain op_token_value" "yields plain op_token_id" "yields plain (op_token_balance H)" "yields plain (op_is_contract H)"
  "yields plain (op_freeze_legacy H)" "yields plain (op_unfreeze_legacy H)" "yields plain (op_expire H)" "yields plain (op_freeze_balance_v2 H)"
  "yields plain (op_unfreeze_balance_v2 H)" "yields plain (op_cancel_all H)" "yields plain (op_withdraw_expired H)" "yields plain (op_delegate_resource H)"
  "yields plain (op_undelegate_resource H)" "yields plain (op_vote_witness H)" "yields plain (op_withdraw_reward H)" "yields plain (op_suicide H)"
  unfolding op_token_value_def op_token_id_def op_token_balance_def op_is_contract_def op_freeze_legacy_def op_unfreeze_legacy_def op_expire_def op_freeze_balance_v2_def
    op_unfreeze_balance_v2_def op_cancel_all_def op_withdraw_expired_def op_delegate_resource_def op_undelegate_resource_def op_vote_witness_def op_withdraw_reward_def op_suicide_def
  by (rule yield_rules | simp)+

section \<open>The cost of memory is monotone\<close>

lemma memory_cost_Ok: "memory_cost b = Ok x \<Longrightarrow> x = 3 * int ((b + 31) div 32) + int ((b + 31) div 32) * int ((b + 31) div 32) div 512"
  by (auto simp: memory_cost_def and_then_Ok signed_divide_int_def usize_checked_add_def sgn_if split: if_splits)

lemma memory_cost_mono:
  assumes "memory_cost a = Ok x" "memory_cost b = Ok y" "a \<le> b"
  shows "x \<le> y"
proof -
  have w: "int ((a + 31) div 32) \<le> int ((b + 31) div 32)" using assms(3) by (simp add: div_le_mono)
  then have "int ((a + 31) div 32) * int ((a + 31) div 32) \<le> int ((b + 31) div 32) * int ((b + 31) div 32)" by (intro mult_mono) simp_all
  then have "int ((a + 31) div 32) * int ((a + 31) div 32) div 512 \<le> int ((b + 31) div 32) * int ((b + 31) div 32) div 512" by (rule zdiv_mono1) simp
  then show ?thesis using w memory_cost_Ok [OF assms(1)] memory_cost_Ok [OF assms(2)] by linarith
qed

lemma memory_delta_nonneg: "memory_delta c end = Ok d \<Longrightarrow> 0 \<le> d"
  by (auto simp: memory_delta_def meter_memory_delta_def and_then_Ok dest: memory_cost_mono split: if_splits)

section \<open>Rows\<close>

definition row_ok :: "u8 \<Rightarrow> OperationVariant \<Rightarrow> bool" where
  "row_ok opcode v \<longleftrightarrow> follows (ctx_rel True) (ov_execute v) \<and>
     ((\<exists>n\<ge>1. ov_energy v = fixed_energy n) \<or>
      (\<forall>c. vm_inv c \<longrightarrow> current_opcode c = Ok opcode \<longrightarrow> pg_pc (oc_program c) \<le> pg_pc (oc_program (fst (ov_execute v c))))) \<and>
     (\<forall>c n c1 c2 req. vm_inv c1 \<longrightarrow> ov_energy v c = Ok n \<longrightarrow> oc_stack c1 = oc_stack c \<longrightarrow> ov_execute v c1 = (c2, Ok (OCall req)) \<longrightarrow>
        1 \<le> n \<and> 0 \<le> cr_reserved_energy req \<and> em_used (oc_energy c2) = em_used (oc_energy c1) + cr_reserved_energy req \<and>
        cr_energy_limit req < n + cr_reserved_energy req) \<and>
     (\<forall>c n c1 c2 req. vm_inv c1 \<longrightarrow> ov_energy v c = Ok n \<longrightarrow> oc_stack c1 = oc_stack c \<longrightarrow> ov_execute v c1 = (c2, Ok (OCreate req)) \<longrightarrow>
        1 \<le> n \<and> ct_energy_limit req \<le> remaining (oc_energy c2))"

lemma row_ok_plain:
  assumes "yields plain (ov_execute v)" "follows (ctx_rel False) (ov_execute v)"
  shows "row_ok opcode v"
  using assms by (fastforce simp: row_ok_def follows_def ctx_rel_def yields_def)

definition jumping :: "u8 \<Rightarrow> bool" where
  "jumping opcode \<longleftrightarrow> opcode = 0x56 \<or> opcode = 0x57 \<or> 0x60 \<le> opcode \<and> opcode \<le> 0x7f"

lemma generic_forward: "\<not> jumping opcode \<Longrightarrow> follows (ctx_rel False) (generic_step H opcode)"
proof -
  assume "\<not> jumping opcode"
  then have *: "opcode \<noteq> 0x56" "opcode \<noteq> 0x57" "\<not> (0x60 \<le> opcode \<and> opcode \<le> 0x7f)" by (auto simp: jumping_def)
  show ?thesis unfolding generic_step_def if_not_P [OF *(1)] if_not_P [OF *(2)] if_not_P [OF *(3)]
    by (rule ctx_steps family_b_steps)+
qed

lemma row_ok_generic:
  assumes "ov_execute v = execute_generic H" "\<not> jumping opcode \<or> (\<exists>n\<ge>1. ov_energy v = fixed_energy n)"
  shows "row_ok opcode v"
proof -
  have "pg_pc (oc_program c) \<le> pg_pc (oc_program (fst (execute_generic H c)))" if "vm_inv c" "current_opcode c = Ok opcode" "\<not> jumping opcode" for c
  proof -
    have "follows (ctx_rel False) (sbind (generic_step H opcode) (\<lambda>_. cont))" by (rule ctx_steps generic_forward that)+
    moreover have "execute_generic H c = sbind (generic_step H opcode) (\<lambda>_. cont) c" using that(2) by (simp add: execute_generic_def sbind_def sask_def)
    ultimately show ?thesis using that(1) by (simp add: follows_def ctx_rel_def)
  qed
  moreover note generic_steps [of H] family_b_plain(1) [of H]
  ultimately show ?thesis using assms by (fastforce simp: row_ok_def yields_def)
qed

lemma op_pop_Ok: "op_pop c = (c', Ok v) \<Longrightarrow> oc_stack c = oc_stack c' @ [v] \<and> oc_energy c' = oc_energy c"
  by (auto simp: op_pop_def stack_pop_def split: if_splits sum.splits)

lemma peeks_last:
  assumes "oc_stack c = st @ [x] @ rest" "length rest = n"
  shows "peeks c n = Ok x"
  using assms by (simp add: peeks_def peek_def nth_append)

lemma op_spend_Ok: "op_spend amount c = (c', Ok ()) \<Longrightarrow> vm_inv c \<Longrightarrow> em_used (oc_energy c') = em_used (oc_energy c) + amount \<and> em_limit (oc_energy c') = em_limit (oc_energy c)"
  by (auto simp: op_spend_def vm_inv_def split: prod.splits dest: spend_meter(4) spend_meter(2))

lemma follows_inv: "follows (ctx_rel j) f \<Longrightarrow> f c = (c', res) \<Longrightarrow> vm_inv c \<Longrightarrow> vm_inv c'"
  by (metis follows_def ctx_rel_def fst_conv)

lemma keeps_energy:
  "op_read off sz c = (c', res) \<Longrightarrow> oc_energy c' = oc_energy c" "op_memory h c = (c', res') \<Longrightarrow> oc_energy c' = oc_energy c"
  "clear_return_data c = (c', res'') \<Longrightarrow> oc_energy c' = oc_energy c"
  by (auto simp: op_read_def op_memory_def clear_return_data_def op_effects_def supd_def split: sum.splits)

lemma call_cap_bounds: "vm_inv c \<Longrightarrow> 0 \<le> call_cap c \<and> call_cap c \<le> remaining (oc_energy c)"
  by (auto simp: call_cap_def vm_inv_def meter_inv_def remaining_def signed_divide_int_def sgn_if)

text \<open>Programs that do not touch the meter.\<close>

definition calm :: "OperationContext \<Rightarrow> OperationContext \<Rightarrow> bool" where
  "calm c c' \<longleftrightarrow> ctx_rel True c c' \<and> oc_energy c' = oc_energy c"

interpretation calm: step_order calm
  by unfold_locales (auto simp: calm_def intro: crel.R_refl crel.R_trans)

lemma calm_steps: "follows calm op_pop" "follows calm (op_read off sz)" "follows calm (op_memory (expand off sz))" "follows calm clear_return_data" "follows calm static_guard"
proof -
  have *: "follows calm f" if "follows (ctx_rel True) f" "\<And>c. oc_energy (fst (f c)) = oc_energy c" for f :: "'a op"
    using that by (simp add: follows_def calm_def)
  show "follows calm op_pop" "follows calm (op_read off sz)" "follows calm (op_memory (expand off sz))" "follows calm clear_return_data" "follows calm static_guard"
    unfolding clear_return_data_def
    by (rule *; (rule ctx_steps | simp add: op_pop_def op_read_def op_memory_def op_effects_def supd_def static_guard_def sask_def split: sum.split prod.split))+
qed

text \<open>Programs that end in a call request.\<close>

definition calls :: "(CallRequest \<Rightarrow> bool) \<Rightarrow> OperationControl op \<Rightarrow> bool" where
  "calls P f \<longleftrightarrow> (\<forall>c c' control. vm_inv c \<longrightarrow> f c = (c', Ok control) \<longrightarrow>
     (\<exists>req. control = OCall req \<and> 0 \<le> cr_reserved_energy req \<and> em_used (oc_energy c') = em_used (oc_energy c) + cr_reserved_energy req \<and> P req))"

lemma calls_bind:
  assumes "follows calm f" "\<And>x. calls P (g x)"
  shows "calls P (sbind f g)"
  unfolding calls_def
proof (intro allI impI)
  fix c c' control
  assume inv: "vm_inv c" and run: "sbind f g c = (c', Ok control)"
  then obtain c1 x where c1: "f c = (c1, Ok x)" "g x c1 = (c', Ok control)" by (auto simp: sbind_Ok)
  have "calm c c1" using assms(1) c1(1) by (metis follows_def fst_conv)
  then have "vm_inv c1" "oc_energy c1 = oc_energy c" using inv by (auto simp: calm_def ctx_rel_def)
  then show "\<exists>req. control = OCall req \<and> 0 \<le> cr_reserved_energy req \<and> em_used (oc_energy c') = em_used (oc_energy c) + cr_reserved_energy req \<and> P req"
    using assms(2) [of x] c1(2) by (auto simp: calls_def)
qed

definition stipend_limit :: "bool \<Rightarrow> CallRequest \<Rightarrow> bool" where
  "stipend_limit paid req \<longleftrightarrow> cr_energy_limit req = cr_reserved_energy req + (if paid then 2300 else 0)"

lemma calls_reserve: "calls (stipend_limit (wv \<and> v \<noteq> 0)) (reserve_call kind wv tok requested destination v tid data off sz)"
  unfolding calls_def
proof (intro allI impI)
  fix c c' control
  assume inv: "vm_inv c" and run: "reserve_call kind wv tok requested destination v tid data off sz c = (c', Ok control)"
  show "\<exists>req. control = OCall req \<and> 0 \<le> cr_reserved_energy req \<and> em_used (oc_energy c') = em_used (oc_energy c) + cr_reserved_energy req \<and> stipend_limit (wv \<and> v \<noteq> 0) req"
    using run call_cap_bounds [OF inv] op_spend_Ok [OF _ inv]
    by (fastforce simp: reserve_call_def sbind_Ok sread_def slift_def sret_def word_is_zero_def stipend_limit_def)
qed

lemma call_tail: "calls (stipend_limit (wv \<and> v \<noteq> 0)) (call_tail kind wv tok requested destination v)"
  unfolding call_tail_def by (rule calls_bind calls_reserve calm.closure calm_steps)+

lemma call_exec_Ok:
  assumes "call_exec kind wv tok c = (c', Ok control)" "vm_inv c"
  shows "\<exists>req v. control = OCall req \<and> 0 \<le> cr_reserved_energy req \<and> em_used (oc_energy c') = em_used (oc_energy c) + cr_reserved_energy req \<and>
    stipend_limit (wv \<and> v \<noteq> 0) req \<and> (wv \<longrightarrow> peeks c 2 = Ok v)"
proof -
  obtain c1 requested c2 destination c3 v where
    p: "op_pop c = (c1, Ok requested)" "op_pop c1 = (c2, Ok destination)" "(if wv then op_pop else sret word_ZERO) c2 = (c3, Ok v)"
    and tail: "call_tail kind wv tok requested destination v c3 = (c', Ok control)"
    using assms(1) by (auto simp: call_exec_def sbind_Ok)
  have stack: "oc_stack c = (oc_stack c2 @ [destination]) @ [requested]" "oc_energy c2 = oc_energy c" using op_pop_Ok [OF p(1)] op_pop_Ok [OF p(2)] by simp_all
  have inv2: "vm_inv c2" using follows_inv [OF crel_stack(1) p(2)] follows_inv [OF crel_stack(1) p(1)] assms(2) by simp
  have "follows (ctx_rel True) (if wv then op_pop else sret word_ZERO)" by (rule ctx_steps)+
  then have inv3: "vm_inv c3" using follows_inv p(3) inv2 by blast
  have "oc_energy c3 = oc_energy c \<and> (wv \<longrightarrow> peeks c 2 = Ok v)"
    using p(3) stack op_pop_Ok [of c2 c3 v] peeks_last [of c "oc_stack c3" v "[destination, requested]" 2] by (auto simp: sret_def split: if_splits)
  then show ?thesis using call_tail [of wv v kind tok requested destination] tail inv3 by (fastforce simp: calls_def)
qed

lemma call_energy_Ok:
  assumes "call_energy H wv na tok c = Ok n"
  shows "40 \<le> n \<and> (\<forall>v. wv \<and> peeks c 2 = Ok v \<and> v \<noteq> 0 \<longrightarrow> 9040 \<le> n)"
  using assms memory_delta_nonneg
  by (fastforce simp: call_energy_def and_then_Ok checked_sum_def Let_def word_is_zero_def split: if_splits)

lemma row_ok_call:
  assumes "ov_execute v = call_exec kind wv tok" "ov_energy v = call_energy H wv na tok"
  shows "row_ok opcode v"
proof -
  have "1 \<le> n \<and> 0 \<le> cr_reserved_energy req \<and> em_used (oc_energy c2) = em_used (oc_energy c1) + cr_reserved_energy req \<and> cr_energy_limit req < n + cr_reserved_energy req"
    if "vm_inv c1" "call_energy H wv na tok c = Ok n" "oc_stack c1 = oc_stack c" "call_exec kind wv tok c1 = (c2, Ok (OCall req))" for c n c1 c2 req
  proof -
    note prem = that
    obtain v where v: "0 \<le> cr_reserved_energy req" "em_used (oc_energy c2) = em_used (oc_energy c1) + cr_reserved_energy req"
      "stipend_limit (wv \<and> v \<noteq> 0) req" "wv \<longrightarrow> peeks c 2 = Ok v"
      using call_exec_Ok [OF prem(4,1)] prem(3) by (auto simp: peeks_def)
    have n: "40 \<le> n" "wv \<and> v \<noteq> 0 \<longrightarrow> 9040 \<le> n" using call_energy_Ok [OF that(2)] v(4) by auto
    show ?thesis using v(1-3) n by (cases "wv \<and> v \<noteq> 0") (auto simp: stipend_limit_def)
  qed
  moreover have "control \<noteq> OCreate req" if "vm_inv c1" "call_exec kind wv tok c1 = (c2, Ok control)" for c1 c2 control req
    using call_exec_Ok [OF that(2,1)] by auto
  moreover have "follows (ctx_rel False) (call_exec kind wv tok)" by (rule family_c_steps)
  ultimately show ?thesis using assms family_c_steps(16) [of True] by (fastforce simp: row_ok_def follows_def ctx_rel_def)
qed

lemma row_ok_create:
  assumes "ov_execute v = op_create \<and> ov_energy v = create_e \<or> ov_execute v = op_create2 \<and> ov_energy v = create2_e"
  shows "row_ok opcode v"
proof -
  have cost: "1 \<le> n" if "create_e c = Ok n \<or> create2_e c = Ok n" for c n
    using that memory_delta_nonneg by (fastforce simp: create_e_def create2_e_def and_then_Ok checked_sum_def Let_def)
  have "(case control of OCreate req \<Rightarrow> ct_energy_limit req \<le> remaining (oc_energy c2) | OCall _ \<Rightarrow> False | _ \<Rightarrow> True)"
    if "vm_inv c1" "op_create c1 = (c2, Ok control) \<or> op_create2 c1 = (c2, Ok control)" for c1 c2 control
  proof -
    have "vm_inv c2" using that follows_inv [OF family_c_steps(17)] follows_inv [OF family_c_steps(18)] by blast
    then show ?thesis using that(2) call_cap_bounds [of c2] by (auto simp: op_create_def op_create2_def sbind_Ok sread_def sret_def)
  qed
  then have "ct_energy_limit req \<le> remaining (oc_energy c2)" "control \<noteq> OCall req'"
    if "vm_inv c1" "op_create c1 = (c2, Ok control) \<or> op_create2 c1 = (c2, Ok control)" "control = OCreate req" for c1 c2 control req req'
    using that by fastforce+
  moreover have "control \<noteq> OCall req'"
    if "vm_inv c1" "op_create c1 = (c2, Ok control) \<or> op_create2 c1 = (c2, Ok control)" for c1 c2 control req'
    using that \<open>\<And>control c2 c1. vm_inv c1 \<Longrightarrow> op_create c1 = (c2, Ok control) \<or> op_create2 c1 = (c2, Ok control) \<Longrightarrow> _\<close> by fastforce
  ultimately show ?thesis using assms cost family_c_steps(17,18) [of True] family_c_steps(17,18) [of False]
    unfolding row_ok_def follows_def ctx_rel_def by metis
qed

section \<open>The families and the registry\<close>

definition spec_ok :: "OperationSpec \<Rightarrow> bool" where
  "spec_ok spec \<longleftrightarrow> list_all (row_ok (os_opcode spec)) (os_variants spec)"

lemma spec_row_ok: "spec_ok (spec_row opcode req res act energy execute) \<longleftrightarrow> row_ok opcode \<lparr> ov_when = always, ov_energy = energy, ov_execute = execute \<rparr>"
  by (simp add: spec_ok_def spec_row_def)

lemma spec_plain:
  "yields plain execute \<Longrightarrow> follows (ctx_rel False) execute \<Longrightarrow> spec_ok (spec_row opcode req res act energy execute)"
  by (simp add: spec_row_ok row_ok_plain)

lemma spec_generic: "\<not> jumping opcode \<Longrightarrow> spec_ok (spec_row opcode req res act energy (execute_generic H))"
  "1 \<le> n \<Longrightarrow> spec_ok (spec_row opcode req res act (fixed_energy n) (execute_generic H))"
  by (auto simp: spec_row_ok intro!: row_ok_generic)

lemma spec_call: "spec_ok (spec_row opcode req res act (call_energy H wv na tok) (call_exec kind wv tok))"
  by (auto simp: spec_row_ok intro!: row_ok_call)

lemma spec_create: "spec_ok (spec_row opcode req res act create_e op_create)" "spec_ok (spec_row opcode req res act create2_e op_create2)"
  by (auto simp: spec_row_ok intro!: row_ok_create)

lemma list_all_ConsI: "P x \<Longrightarrow> list_all P xs \<Longrightarrow> list_all P (x # xs)" and list_all_NilI: "list_all P []"
  by simp_all

lemma specs_a_ok: "list_all spec_ok (specs_a H)"
  unfolding specs_a_def binary_ops
  by (rule list_all_ConsI list_all_NilI spec_plain family_a_plain family_a_steps)+

lemma specs_b_ok: "list_all spec_ok (specs_b H)"
  unfolding specs_b_def
  by (rule list_all_ConsI list_all_NilI | rule spec_generic(2), simp; fail | rule spec_generic(1), simp add: jumping_def; fail
    | rule spec_plain family_b_plain family_b_steps)+

lemmas call_costs = call_e_def callcode_e_def delegate_e_def calltoken_e_def

lemma suicide_ok: "spec_ok \<lparr> os_opcode = o', os_required_before = n, os_resulting_window = m, os_activation = act, os_variants = suicide_variants H \<rparr>"
  by (auto simp: spec_ok_def suicide_variants_def intro!: row_ok_plain family_c_plain family_c_steps)

lemma specs_c_ok: "list_all spec_ok (specs_c H)"
  unfolding specs_c_def call_ops call_costs
  by (rule list_all_ConsI list_all_NilI spec_call spec_create spec_plain family_c_plain family_c_steps suicide_ok)+

lemma add_specs_Ok:
  assumes "add_specs specs slots = Ok reg" "reg opcode = Some spec"
  shows "slots opcode = Some spec \<or> spec \<in> set specs \<and> os_opcode spec = opcode"
  using assms by (induction specs slots rule: add_specs.induct) (auto split: if_splits)

definition ops_ok :: "resolved_ops \<Rightarrow> bool" where
  "ops_ok ops \<longleftrightarrow> (\<forall>opcode spec v. ops opcode = Some (spec, v) \<longrightarrow> row_ok opcode v)"

lemma registry_resolve_ok:
  assumes "from_families families = Ok reg" "list_all (list_all spec_ok) families"
  shows "ops_ok (registry_resolve reg rules)"
  unfolding ops_ok_def
proof (intro allI impI)
  fix opcode spec v
  assume "registry_resolve reg rules opcode = Some (spec, v)"
  then obtain vs where spec: "reg opcode = Some spec" and vs: "filter (\<lambda>v. ov_when v rules) (os_variants spec) = vs" "vs \<noteq> []" "v = last vs"
    by (auto simp: registry_resolve_def bind_eq_Some_conv split: if_splits list.splits)
  have "v \<in> set (os_variants spec)" using vs(2,3) last_in_set [of vs] unfolding vs(1) [symmetric] by fastforce
  moreover have "spec \<in> set (concat families)" "os_opcode spec = opcode" using add_specs_Ok [of "concat families" Map.empty reg opcode spec] spec assms(1) by (auto simp: from_families_def)
  ultimately show "row_ok opcode v" using assms(2) by (auto simp: list_all_iff spec_ok_def)
qed

lemma integration_ops_ok: "registry_integration H = Ok reg \<Longrightarrow> ops_ok (registry_resolve reg rules)"
  by (rule registry_resolve_ok [of "[specs_a H, specs_b H, specs_c H]"])
    (auto simp: registry_integration_def and_then_Ok specs_a_ok specs_b_ok specs_c_ok split: if_splits)

text \<open>The registry is complete: no opcode is registered twice, every shape fits the stack.\<close>

definition shape_ok :: "OperationSpec \<Rightarrow> bool" where
  "shape_ok spec \<longleftrightarrow> os_variants spec \<noteq> [] \<and> os_required_before spec \<le> 1024 \<and> os_resulting_window spec \<le> 1024"

lemma add_specs_complete:
  assumes "list_all shape_ok specs" "distinct (map os_opcode specs)" "set (map os_opcode specs) \<inter> dom slots = {}"
  shows "\<exists>reg. add_specs specs slots = Ok reg \<and> dom reg = set (map os_opcode specs) \<union> dom slots"
  using assms
proof (induction specs slots rule: add_specs.induct)
  case (2 spec specs slots)
  have head: "slots (os_opcode spec) = None" "shape_ok spec" using 2(2,4) by auto
  have "list_all shape_ok specs" "distinct (map os_opcode specs)" "set (map os_opcode specs) \<inter> dom (slots(os_opcode spec \<mapsto> spec)) = {}"
    using 2(2-4) by auto
  then obtain reg where "add_specs specs (slots(os_opcode spec \<mapsto> spec)) = Ok reg"
    "dom reg = set (map os_opcode specs) \<union> dom (slots(os_opcode spec \<mapsto> spec))"
    using 2(1) head by (metis (full_types) shape_ok_def not_le)
  then show ?case using head by (auto simp: shape_ok_def simp del: fun_upd_apply)
qed simp

lemma all_opcodes_set: "set all_opcodes = UNIV" "distinct all_opcodes"
proof -
  have "x \<in> set all_opcodes" for x :: u8
    using unsigned_less [of x] by (auto simp: all_opcodes_def image_iff intro!: bexI [of _ "unat x"])
  then show "set all_opcodes = UNIV" by auto
  then show "distinct all_opcodes" by (intro card_distinct) (simp add: all_opcodes_def card_word)
qed

lemma registered_count_card: "registered_count reg = card (dom reg)"
proof -
  have "length (filter (\<lambda>o'. reg o' \<noteq> None) all_opcodes) = card (set (filter (\<lambda>o'. reg o' \<noteq> None) all_opcodes))"
    by (rule distinct_card [symmetric]) (simp add: all_opcodes_set)
  also have "set (filter (\<lambda>o'. reg o' \<noteq> None) all_opcodes) = dom reg" using all_opcodes_set by auto
  finally show ?thesis by (simp add: registered_count_def)
qed

definition spec_codes :: "OperationSpec list \<Rightarrow> u8 list" where "spec_codes = map os_opcode"

lemma spec_codes_rows: "spec_codes (spec_row opcode req res act e x # specs) = opcode # spec_codes specs" "spec_codes [] = []"
  by (simp_all add: spec_codes_def spec_row_def)

lemma spec_codes_suicide: "spec_codes (\<lparr> os_opcode = o', os_required_before = n, os_resulting_window = m, os_activation = act, os_variants = vs \<rparr> # specs) = o' # spec_codes specs"
  by (simp add: spec_codes_def)

definition opcode_numbers :: "nat list" where
  "opcode_numbers = [0x01..<0x0c] @ [0x10..<0x1f] @ [0x20] @ [0x30..<0x4b] @ [0x00] @ [0x50..<0xa5] @ [0xf3, 0xfd] @ [0xd0..<0xe0] @ [0xf0, 0xf1, 0xf2, 0xf4, 0xf5, 0xfa, 0xff]"

definition opcode_table :: "u8 list" where "opcode_table = map word_of_nat opcode_numbers"

lemma family_codes: "spec_codes (specs_a H @ specs_b H @ specs_c H) = opcode_table"
  unfolding specs_a_def specs_b_def specs_c_def append_Cons append_Nil spec_codes_rows spec_codes_suicide by code_simp

lemma opcode_table_distinct: "distinct opcode_table" "length opcode_table = 165"
proof -
  have "distinct opcode_numbers" "set opcode_numbers \<subseteq> {..<256}" by (auto simp: opcode_numbers_def)
  moreover have "inj_on (word_of_nat :: nat \<Rightarrow> u8) {..<256}" by (rule inj_onI) (simp add: word_of_nat_eq_iff take_bit_nat_eq_self)
  ultimately show "distinct opcode_table" by (auto simp: opcode_table_def distinct_map intro: inj_on_subset)
qed (simp add: opcode_table_def opcode_numbers_def)

lemma shape_row: "shape_ok (spec_row opcode req res act e x) \<longleftrightarrow> req \<le> 1024 \<and> res \<le> 1024"
  by (simp add: shape_ok_def spec_row_def)

lemma family_shapes: "list_all shape_ok (specs_a H @ specs_b H @ specs_c H)"
  unfolding specs_a_def specs_b_def specs_c_def append_Cons append_Nil
  by (rule list_all_ConsI list_all_NilI | simp only: shape_row; simp | simp add: shape_ok_def suicide_variants_def; fail)+

lemma integration_complete: "\<exists>reg. registry_integration H = Ok reg \<and> dom reg = set opcode_table"
proof -
  have codes: "map os_opcode (specs_a H @ specs_b H @ specs_c H) = opcode_table" using family_codes by (simp add: spec_codes_def)
  obtain reg where reg: "add_specs (specs_a H @ specs_b H @ specs_c H) Map.empty = Ok reg" "dom reg = set opcode_table"
    using add_specs_complete [OF family_shapes, of H Map.empty, unfolded codes] opcode_table_distinct(1) by auto
  then have "registered_count reg = 165" using opcode_table_distinct by (simp add: registered_count_card distinct_card)
  then show ?thesis using reg by (auto simp: registry_integration_def from_families_def)
qed

end
