(* ===== verification/Tvm_Frames.thy ===== *)
theory Tvm_Frames
  imports Tvm_Table
begin

text \<open>
  Frames of the interpreter: what a frame keeps of its context and of the layers of the repository
  below its own, whatever it executes and however deep it calls.
\<close>

section \<open>The relation of a frame\<close>

definition frame_rel :: "OperationContext \<Rightarrow> OperationContext \<Rightarrow> bool" where
  "frame_rel c c' \<longleftrightarrow> vm_inv c' \<and> oc_rules c' = oc_rules c \<and> oc_frame c' = oc_frame c \<and> pg_code (oc_program c') = pg_code (oc_program c) \<and>
     em_limit (oc_energy c') = em_limit (oc_energy c) \<and> same_frame (oc_repository c) (oc_repository c') \<and>
     rp_blackhole (oc_repository c') = rp_blackhole (oc_repository c)"

lemma frame_rel_trans [trans]: "frame_rel a b \<Longrightarrow> frame_rel b c \<Longrightarrow> frame_rel a c"
  by (auto simp: frame_rel_def intro: same_frame_trans)

lemma frame_rel_step: "ctx_rel j c c' \<Longrightarrow> vm_inv c \<Longrightarrow> frame_rel c c' \<and> em_used (oc_energy c) \<le> em_used (oc_energy c')"
  by (auto simp: ctx_rel_def frame_rel_def keeps_frame_def)

text \<open>Programs of the machine whose result is dropped.\<close>

lemma push_quiet_frame: "vm_inv c \<Longrightarrow> frame_rel c (push_quiet v c)"
  using crel_stack(2) [of True v] frame_rel_step [of True c "push_quiet v c"]
  by (auto simp: push_quiet_def follows_def op_push_def split: sum.split)

lemma write_quiet_frame: "vm_inv c \<Longrightarrow> frame_rel c (write_quiet off data c)"
  using crel_memory(2) [of True off data] frame_rel_step [of True c "write_quiet off data c"]
  by (auto simp: write_quiet_def follows_def op_memory_def split: sum.split)

lemma refund_quiet_frame: "vm_inv c \<Longrightarrow> 0 \<le> amount \<Longrightarrow> amount \<le> em_used (oc_energy c) \<Longrightarrow>
   frame_rel c (refund_quiet amount c) \<and> em_used (oc_energy (refund_quiet amount c)) = em_used (oc_energy c) - amount"
  by (simp add: refund_quiet_def refund_def frame_rel_def vm_inv_def meter_inv_def)

lemma spend_quiet_frame: "vm_inv c \<Longrightarrow> frame_rel c (spend_quiet amount c) \<and> em_used (oc_energy c) \<le> em_used (oc_energy (spend_quiet amount c))"
  using spend_meter [of "oc_energy c" amount "fst (spend amount (oc_energy c))" "snd (spend amount (oc_energy c))"]
  by (simp add: spend_quiet_def frame_rel_def vm_inv_def)

lemma effects_frame: "vm_inv c \<Longrightarrow> frame_rel c (c\<lparr> oc_effects := e \<rparr>)"
  by (simp add: frame_rel_def vm_inv_def)

lemma effect_frames: "vm_inv c \<Longrightarrow> frame_rel c (set_return_data data c)" "vm_inv c \<Longrightarrow> frame_rel c (push_record t c)"
  "vm_inv c \<Longrightarrow> frame_rel c (adopt_effects t out c)" "vm_inv c \<Longrightarrow> frame_rel c (reject_effects t out c)"
  by (simp_all add: set_return_data_def push_record_def adopt_effects_def reject_effects_def effects_frame)

lemma effect_keeps [simp]:
  "oc_energy (set_return_data data c) = oc_energy c" "oc_energy (push_record t c) = oc_energy c"
  "oc_energy (adopt_effects t out c) = oc_energy c" "oc_energy (reject_effects t out c) = oc_energy c"
  "oc_repository (set_return_data data c) = oc_repository c" "oc_repository (push_record t c) = oc_repository c"
  "oc_repository (adopt_effects t out c) = oc_repository c" "oc_repository (reject_effects t out c) = oc_repository c"
  "oc_program (set_return_data data c) = oc_program c" "oc_program (push_record t c) = oc_program c"
  "oc_program (adopt_effects t out c) = oc_program c" "oc_program (reject_effects t out c) = oc_program c"
  by (simp_all add: set_return_data_def push_record_def adopt_effects_def reject_effects_def)

lemma vm_inv_frame: "frame_rel c c' \<Longrightarrow> vm_inv c'"
  by (simp add: frame_rel_def)

lemma frame_then:
  "frame_rel c d \<Longrightarrow> frame_rel c (set_return_data data d)" "frame_rel c d \<Longrightarrow> frame_rel c (push_record t d)"
  "frame_rel c d \<Longrightarrow> frame_rel c (adopt_effects t out d)" "frame_rel c d \<Longrightarrow> frame_rel c (reject_effects t out d)"
  "frame_rel c d \<Longrightarrow> frame_rel c (push_quiet v d)" "frame_rel c d \<Longrightarrow> frame_rel c (write_quiet off data d)" "frame_rel c d \<Longrightarrow> frame_rel c (spend_quiet n d)"
  by (meson frame_rel_trans vm_inv_frame effect_frames push_quiet_frame write_quiet_frame spend_quiet_frame)+

lemma quiet_keeps [simp]:
  "oc_energy (push_quiet v c) = oc_energy c" "oc_repository (push_quiet v c) = oc_repository c" "oc_program (push_quiet v c) = oc_program c"
  "oc_energy (write_quiet off data c) = oc_energy c" "oc_repository (write_quiet off data c) = oc_repository c" "oc_program (write_quiet off data c) = oc_program c"
  "oc_repository (refund_quiet n c) = oc_repository c" "oc_repository (spend_quiet n c) = oc_repository c"
  by (auto simp: push_quiet_def op_push_def write_quiet_def op_memory_def refund_quiet_def spend_quiet_def split: sum.split)

section \<open>Executors of frames\<close>

text \<open>What is assumed of the precompiled contracts: they use the repository through its operations.\<close>

definition host_ok :: "vm_host \<Rightarrow> bool" where
  "host_ok H \<longleftrightarrow> (\<forall>address rules energy execute input caller r.
     vh_precompile H address rules = Some (energy, execute) \<longrightarrow> repo_rel r (fst (execute input caller r)))"

definition safe_exec :: "exec_frame \<Rightarrow> bool" where
  "safe_exec exec \<longleftrightarrow> (\<forall>hash nonce c out c' nonce'. vm_inv c \<longrightarrow> exec hash nonce c = Some (out, c', nonce') \<longrightarrow>
     frame_rel c c' \<and> xo_energy_used out = em_used (oc_energy c'))"

lemma frame_outcome_energy [simp]: "xo_energy_used (frame_outcome st res c) = em_used (oc_energy c)"
  "xo_status (frame_outcome st res c) = st"
  by (simp_all add: frame_outcome_def)

lemma finish_fault_safe:
  assumes "vm_inv c" "finish_fault f nonce c = (out, c', nonce')"
  shows "frame_rel c c' \<and> xo_energy_used out = em_used (oc_energy c') \<and> xo_status out = Faulted f"
  using assms by (auto simp: finish_fault_def fault_outcome_def exhaust_def frame_rel_def vm_inv_def meter_inv_def Let_def split: if_splits)

lemma repo_frame: "vm_inv c \<Longrightarrow> repo_rel (oc_repository c) r \<Longrightarrow> frame_rel c (c\<lparr> oc_repository := r \<rparr>)"
  by (auto simp: frame_rel_def repo_rel_def vm_inv_def)

lemma repo_effects_frame: "vm_inv c \<Longrightarrow> repo_rel (oc_repository c) r \<Longrightarrow> frame_rel c (c\<lparr> oc_repository := r, oc_effects := e \<rparr>)"
  by (auto simp: frame_rel_def repo_rel_def vm_inv_def)

lemma self_destruct_safe:
  assumes inv: "vm_inv c" and run: "self_destruct H ben hash nonce c = (out, c', nonce')"
  shows "frame_rel c c' \<and> xo_energy_used out = em_used (oc_energy c')"
proof -
  obtain r res where app: "apply_selfdestruct (vh_codec H) (oc_rules c) (fr_context_address (oc_frame c)) ben (oc_repository c) = (r, res)" by fastforce
  have rel: "repo_rel (oc_repository c) r" using apply_selfdestruct_steps app by (metis follows_def fst_conv)
  note 1 = repo_effects_frame [OF inv rel] repo_effects_frame [OF inv rrel.R_trans [OF rel repo_rel_puts(8)]] repo_effects_frame [OF inv repo_rel_puts(8)]
  have 4: "frame_rel c (c\<lparr> oc_effects := e \<rparr>)" for e by (rule effects_frame [OF inv])
  note 5 = finish_fault_safe [of "c\<lparr> oc_repository := r \<rparr>" VTransferFailed "next_nonce nonce", OF vm_inv_frame [OF repo_frame [OF inv rel]]] repo_frame [OF inv rel]
  show ?thesis
  proof (cases res)
    case (Inl e)
    obtain out2 c2 where "fault_outcome VTransferFailed (c\<lparr> oc_repository := r \<rparr>) = (out2, c2)" by fastforce
    then show ?thesis using run 1(3) 4 5 frame_rel_trans [OF 5(2)]
      by (auto simp: self_destruct_def app Inl Let_def finish_fault_def split: if_splits)
  next
    case (Inr expired)
    show ?thesis using run 1 4 by (auto simp: self_destruct_def app Inr Let_def push_record_def split: if_splits)
  qed
qed

section \<open>Calls\<close>

lemma layer_end:
  assumes "repo_inv r" "begin_child mode r = (i, r1)" "repo_rel r1 r2"
  shows "repo_rel r (fst (commit_child i r2)) \<and> repo_view (fst (commit_child i r2)) = repo_view r2"
    "repo_rel r (fst (revoke_child i r2)) \<and> rp_layers (fst (revoke_child i r2)) = rp_layers r \<and> repo_view (fst (revoke_child i r2)) = repo_view r"
proof -
  obtain r3 a where c: "commit_child i r2 = (r3, a)" by fastforce
  show "repo_rel r (fst (commit_child i r2)) \<and> repo_view (fst (commit_child i r2)) = repo_view r2"
    using layer_commit [OF assms c] by (simp add: c repo_rel_def)
  obtain r4 b where d: "revoke_child i r2 = (r4, b)" by fastforce
  show "repo_rel r (fst (revoke_child i r2)) \<and> rp_layers (fst (revoke_child i r2)) = rp_layers r \<and> repo_view (fst (revoke_child i r2)) = repo_view r"
    using layer_revoke [OF assms d] by (simp add: d repo_rel_def same_frame_def)
qed

lemma begin_child_rel: "repo_inv r \<Longrightarrow> begin_child mode r = (i, r1) \<Longrightarrow> repo_inv r1"
  by (rule begin_child_inv)

lemma exhaust_meter: "meter_inv m \<Longrightarrow> meter_inv (exhaust m)"
  by (simp add: meter_inv_def exhaust_def)

lemma dispatch_safe:
  assumes "host_ok H" "repo_inv r" "meter_inv m" "dispatch_with_caller H address input rules caller r m = Some (pre, r', m')"
  shows "repo_rel r r' \<and> meter_inv m'"
proof -
  obtain energy execute where pre: "vh_precompile H address rules = Some (energy, execute)"
    using assms(4) by (auto simp: dispatch_with_caller_def bind_eq_Some_conv)
  obtain m1 paid where m1: "spend (energy input) m = (m1, paid)" by fastforce
  have inv1: "meter_inv m1" by (rule spend_meter(1) [OF assms(3) m1])
  obtain i r1 where b: "begin_child CopiedStorage r = (i, r1)" by fastforce
  obtain r2 ok data where ex: "execute input caller r1 = (r2, ok, data)" by (cases "execute input caller r1") auto
  have rel: "repo_rel r1 r2" using assms(1) pre ex unfolding host_ok_def by (metis fst_conv)
  show ?thesis using assms(4) layer_end [OF assms(2) b rel] inv1 exhaust_meter [OF inv1] rrel.R_refl
    by (cases paid) (auto simp: dispatch_with_caller_def bind_eq_Some_conv pre m1 b ex Let_def)
qed

lemma child_inv: "vm_inv c \<Longrightarrow> meter_inv meter \<Longrightarrow> vm_inv (child_context frame code meter c)"
  by (simp add: child_context_def vm_inv_def memory_inv_default)

lemma meter_of_inv: "limit \<le> i64_max \<Longrightarrow> meter_inv (meter_of limit)"
  by (auto simp: meter_of_def meter_inv_def in_i64_def)

lemma frame_repo_rel: "frame_rel c c' \<Longrightarrow> repo_rel (oc_repository c) (oc_repository c')"
  by (auto simp: frame_rel_def repo_rel_def vm_inv_def)

lemma run_callee_safe:
  assumes "host_ok H" "safe_exec exec" "vm_inv c" "meter_inv meter" "run_callee H exec frame meter hash nonce c = Some (out, r, checks, nonce')"
  shows "repo_rel (oc_repository c) r \<and> 0 \<le> xo_energy_used out"
proof (cases "dispatch_with_caller H (fr_code_address frame) (fr_input frame) (oc_rules c) (Some (fr_caller frame)) (oc_repository c) meter")
  case None
  let ?c = "child_context frame (code_or_empty (fr_code_address frame) (oc_repository c)) meter c"
  obtain c' where run: "exec hash nonce ?c = Some (out, c', nonce')" "r = oc_repository c'"
    using assms(5) by (auto simp: run_callee_def None)
  have "frame_rel ?c c'" "xo_energy_used out = em_used (oc_energy c')"
    using assms(2) run(1) child_inv [OF assms(3,4)] unfolding safe_exec_def by blast+
  then show ?thesis using frame_repo_rel [of ?c c'] by (auto simp: run(2) child_context_def frame_rel_def vm_inv_def meter_inv_def)
next
  case (Some a)
  obtain pre r' m' where a: "a = (pre, r', m')" by (cases a)
  have "repo_inv (oc_repository c)" using assms(3) by (simp add: vm_inv_def)
  from dispatch_safe [OF assms(1) this assms(4) Some [unfolded a]] show ?thesis
    using assms(5) by (auto simp: run_callee_def Some a Let_def meter_inv_def)
qed

lemma layer_context: "vm_inv c \<Longrightarrow> repo_inv r \<Longrightarrow> vm_inv (c\<lparr> oc_repository := r, oc_checks := k \<rparr>)"
  by (simp add: vm_inv_def)

lemma close_layer:
  assumes "vm_inv c" "frame_rel (c\<lparr> oc_repository := r2, oc_checks := k \<rparr>) c2" "repo_rel (oc_repository c) r3"
  shows "frame_rel c (c2\<lparr> oc_repository := r3 \<rparr>)"
  using assms by (auto simp: frame_rel_def repo_rel_def vm_inv_def)

lemma settle_call:
  assumes "vm_inv c" "0 \<le> amount" "amount \<le> em_used (oc_energy c)"
    and c2: "c2 = write_quiet off data (set_return_data data' (refund_quiet amount c))"
  shows "frame_rel c c2 \<and> em_used (oc_energy c2) = em_used (oc_energy c) - amount \<and> oc_repository c2 = oc_repository c"
proof -
  note r = refund_quiet_frame [OF assms(1-3)]
  then show ?thesis using frame_then(6) [OF frame_then(1)] by (simp add: c2)
qed

lemma finish_call_safe:
  assumes inv: "vm_inv c" and b: "begin_child CopiedStorage (oc_repository c) = (i, r1)" and rel: "repo_rel r1 r2"
    and reserve: "0 \<le> cr_reserved_energy request" "cr_reserved_energy request \<le> em_used (oc_energy c)" "0 \<le> xo_energy_used out"
    and c': "c' = finish_call request i rec out (c\<lparr> oc_repository := r2, oc_checks := k \<rparr>)"
  shows "frame_rel c c' \<and> em_used (oc_energy c) - cr_reserved_energy request \<le> em_used (oc_energy c') \<and>
    (xo_status out \<noteq> Succeeded \<longrightarrow> repo_view (oc_repository c') = repo_view (oc_repository c))"
proof -
  let ?c = "c\<lparr> oc_repository := r2, oc_checks := k \<rparr>"
  let ?u = "cr_reserved_energy request - min (xo_energy_used out) (cr_reserved_energy request)"
  have ri: "repo_inv (oc_repository c)" using inv by (simp add: vm_inv_def)
  have r2: "repo_inv r2" using rel begin_child_rel [OF ri b] by (simp add: repo_rel_def)
  define c2 where "c2 = write_quiet (cr_output_offset request) (take (min (cr_output_size request) (length (xo_return_data out))) (xo_return_data out))
    (set_return_data (xo_return_data out) (refund_quiet ?u ?c))"
  have c2: "frame_rel ?c c2" "em_used (oc_energy c2) = em_used (oc_energy c) - ?u" "oc_repository c2 = r2"
    using settle_call [OF layer_context [OF inv r2] _ _ c2_def] reserve by auto
  note e = layer_end [OF ri b rel]
  have k: "frame_rel c (c2\<lparr> oc_repository := r3 \<rparr>)" if "repo_rel (oc_repository c) r3" for r3 by (rule close_layer [OF inv c2(1) that])
  have c'_eq: "c' = (if xo_status out = Succeeded then push_quiet word_ONE (adopt_effects rec out (c2\<lparr> oc_repository := fst (commit_child i r2) \<rparr>))
    else push_quiet word_ZERO (reject_effects rec out (c2\<lparr> oc_repository := fst (revoke_child i r2) \<rparr>)))"
    by (simp add: c' finish_call_def Let_def c2_def [symmetric] c2(3))
  show ?thesis using frame_then(5) [OF frame_then(3) [OF k]] frame_then(5) [OF frame_then(4) [OF k]] e c2(2) reserve unfolding c'_eq by auto
qed

lemma drive_call_safe:
  assumes host: "host_ok H" and exec: "safe_exec exec" and inv: "vm_inv c"
    and run: "drive_call H exec request hash nonce c = Some (c', nonce')"
    and reserve: "0 \<le> cr_reserved_energy request" "cr_reserved_energy request \<le> em_used (oc_energy c)" "cr_energy_limit request \<le> i64_max"
  shows "frame_rel c c' \<and> em_used (oc_energy c) - cr_reserved_energy request \<le> em_used (oc_energy c')"
proof -
  let ?self = "fr_context_address (oc_frame c)"
  have ri: "repo_inv (oc_repository c)" using inv by (simp add: vm_inv_def)
  obtain i r1 where b: "begin_child CopiedStorage (oc_repository c) = (i, r1)" by fastforce
  obtain r2 res where t: "call_transfer (vh_codec H) request ?self r1 = (r2, res)" by fastforce
  have rel: "repo_rel r1 r2" using call_transfer_steps t by (metis follows_def fst_conv)
  have early: "frame_rel c (reject_call_before_execution request c) \<and> em_used (oc_energy (reject_call_before_execution request c)) = em_used (oc_energy c) - cr_reserved_energy request"
  proof -
    note r = refund_quiet_frame [OF inv reserve(1,2)]
    then show ?thesis using frame_then(5) [OF frame_then(1)] by (simp add: reject_call_before_execution_def)
  qed
  have failed: "frame_rel c c3 \<and> oc_energy c3 = oc_energy c" if "c3 = push_quiet word_ZERO (set_return_data [] (push_record t (c\<lparr> oc_repository := fst (revoke_child i r2) \<rparr>)))" for t c3
  proof -
    have 1: "frame_rel c (c\<lparr> oc_repository := fst (revoke_child i r2) \<rparr>)" using layer_end(2) [OF ri b rel] repo_frame [OF inv] by blast
    then show ?thesis using frame_then(5) [OF frame_then(1) [OF frame_then(2) [OF 1]]] by (simp add: that)
  qed
  have r2: "vm_inv (c\<lparr> oc_repository := r2 \<rparr>)" using rel begin_child_rel [OF ri b] inv by (simp add: repo_rel_def vm_inv_def)
  have ended: "frame_rel c c3 \<and> em_used (oc_energy c) - cr_reserved_energy request \<le> em_used (oc_energy c3)"
    if "run_callee H exec fr (meter_of (cr_energy_limit request)) h n (c\<lparr> oc_repository := r2 \<rparr>) = Some (out, r3, k, n')"
      "c3 = finish_call request i rec out (c\<lparr> oc_repository := r3, oc_checks := k \<rparr>)" for fr h n out r3 k n' c3 rec
  proof -
    have "repo_rel r2 r3" "0 \<le> xo_energy_used out" using run_callee_safe [OF host exec r2 meter_of_inv [OF reserve(3)] that(1)] by auto
    then show ?thesis using finish_call_safe [OF inv b rrel.R_trans [OF rel] reserve(1,2) _ that(2)] by blast
  qed
  show ?thesis using run early failed [OF refl] ended [OF _ refl]
    by (cases res) (fastforce simp: drive_call_def Let_def b t reserve split: option.splits if_splits)+
qed

section \<open>Creations\<close>

lemma spend_quiet_used: "vm_inv c \<Longrightarrow> em_used (oc_energy c) \<le> em_used (oc_energy (spend_quiet n c))"
  using spend_quiet_frame by blast

lemma finish_create_safe:
  assumes inv: "vm_inv c" and b: "begin_child CopiedStorage (oc_repository c) = (i, r1)" and rel: "repo_rel r1 r2"
    and c': "c' = finish_create H request address i rec out meter (c\<lparr> oc_repository := r2, oc_checks := k \<rparr>)"
  shows "frame_rel c c' \<and> em_used (oc_energy c) \<le> em_used (oc_energy c')"
proof -
  let ?c = "c\<lparr> oc_repository := r2, oc_checks := k \<rparr>"
  have ri: "repo_inv (oc_repository c)" using inv by (simp add: vm_inv_def)
  obtain r3 res where save: "save_created_code (vh_codec H) address (xo_return_data out) (tr_constantinople (oc_rules c)) r2 = (r3, res)" by fastforce
  have "repo_rel r2 r3" using repo_prog_steps(5) save by (metis follows_def fst_conv)
  note e = layer_end [OF ri b rel] layer_end [OF ri b rrel.R_trans [OF rel this]]
  have failed: "frame_rel c c3 \<and> em_used (oc_energy c) \<le> em_used (oc_energy c3)"
    if "c3 = push_quiet word_ZERO (reject_effects rec out ((set_return_data data (spend_quiet n (c\<lparr> oc_repository := r, oc_checks := k \<rparr>)))\<lparr> oc_repository := r4 \<rparr>))"
      "repo_inv r" "repo_rel (oc_repository c) r4" for c3 data n r r4
  proof -
    note v = layer_context [OF inv that(2), of k]
    have "frame_rel (c\<lparr> oc_repository := r, oc_checks := k \<rparr>) (set_return_data data (spend_quiet n (c\<lparr> oc_repository := r, oc_checks := k \<rparr>)))"
      using spend_quiet_frame [OF v] frame_then(1) by blast
    from frame_then(5) [OF frame_then(4) [OF close_layer [OF inv this that(3)]]] show ?thesis
      using spend_quiet_used [OF v, of n] by (simp add: that(1))
  qed
  have made: "frame_rel c c3 \<and> em_used (oc_energy c) \<le> em_used (oc_energy c3)"
    if "c3 = spend_quiet n (push_quiet v (if f then set_return_data [] d else d))" "d = adopt_effects rec out (c\<lparr> oc_repository := r4, oc_checks := k \<rparr>)"
      "repo_rel (oc_repository c) r4" for c3 v n f d r4
  proof -
    have "frame_rel c (c\<lparr> oc_repository := r4, oc_checks := k \<rparr>)" using that(3) inv by (auto simp: frame_rel_def vm_inv_def repo_rel_def)
    then have "frame_rel c d" using frame_then(3) that(2) by blast
    then have "frame_rel c (push_quiet v (if f then set_return_data [] d else d))" using frame_then(5) frame_then(1) by auto
    from frame_then(7) [OF this, of n] spend_quiet_used [OF vm_inv_frame [OF this], of n] show ?thesis by (cases f) (simp_all add: that(1,2))
  qed
  have inv2: "repo_inv r2" "repo_inv r3" using rel begin_child_rel [OF ri b] \<open>repo_rel r2 r3\<close> by (auto simp: repo_rel_def)
  obtain m2 paid where dep: "code_deposit (xo_return_data out) (tr_london (oc_rules c)) meter = (m2, paid)" by fastforce
  have swap: "c\<lparr> oc_checks := k, oc_repository := r \<rparr> = c\<lparr> oc_repository := r, oc_checks := k \<rparr>" for r by simp
  show ?thesis using failed [OF refl inv2(1)] failed [OF refl inv2(2)] made [where f = True, OF refl refl] made [where f = False, OF refl refl] e
    by (cases paid; cases res) (auto simp: c' finish_create_def Let_def dep save swap)
qed

lemma drive_create_safe:
  assumes exec: "safe_exec exec" and inv: "vm_inv c" and limit: "ct_energy_limit request \<le> i64_max"
    and run: "drive_create H exec request hash nonce c = Some (c', nonce', res)"
  shows "frame_rel c c' \<and> em_used (oc_energy c) \<le> em_used (oc_energy c')"
proof -
  have ri: "repo_inv (oc_repository c)" using inv by (simp add: vm_inv_def)
  obtain i r1 where b: "begin_child CopiedStorage (oc_repository c) = (i, r1)" by fastforce
  define address where "address = created_address (vh_codec H) request (oc_frame c) (oc_rules c) nonce"
  obtain r2 prepared where t: "prepare_creation (vh_codec H) request address (oc_frame c) (oc_rules c) r1 = (r2, prepared)" by fastforce
  have rel: "repo_rel r1 r2" using prepare_creation_steps t by (metis follows_def fst_conv)
  have self: "frame_rel c c" using inv by (simp add: frame_rel_def)
  have refused: "frame_rel c (refused_create rec i r c) \<and> oc_energy (refused_create rec i r c) = oc_energy c" if "repo_rel r1 r" for rec r
    using frame_then(2) [OF repo_frame [OF inv]] layer_end(2) [OF ri b that] by (simp add: refused_create_def)
  have paid: "frame_rel c (push_quiet v (spend_quiet n d)) \<and> em_used (oc_energy c) \<le> em_used (oc_energy (spend_quiet n d))" if "frame_rel c d \<and> oc_energy d = oc_energy c" for v n d
    using that frame_then(5,7) spend_quiet_used [OF vm_inv_frame, of c d n] by auto
  have r2: "vm_inv (c\<lparr> oc_repository := r2 \<rparr>)" using rel begin_child_rel [OF ri b] inv by (simp add: repo_rel_def vm_inv_def)
  have ended: "frame_rel c c3 \<and> em_used (oc_energy c) \<le> em_used (oc_energy c3)"
    if "exec h n (child_context fr code (meter_of (ct_energy_limit request)) (c\<lparr> oc_repository := r2 \<rparr>)) = Some (out, c2, n')"
      "c3 = finish_create H request address i rec out (oc_energy c2) (c\<lparr> oc_repository := oc_repository c2, oc_checks := oc_checks c2 \<rparr>)" for fr code h n out c2 n' c3 rec
  proof -
    have "frame_rel (child_context fr code (meter_of (ct_energy_limit request)) (c\<lparr> oc_repository := r2 \<rparr>)) c2"
      using exec that(1) child_inv [OF r2 meter_of_inv [OF limit]] unfolding safe_exec_def by blast
    from frame_repo_rel [OF this] have "repo_rel r2 (oc_repository c2)" by (simp add: child_context_def)
    then show ?thesis using finish_create_safe [OF inv b rrel.R_trans [OF rel] that(2)] by blast
  qed
  show ?thesis using run self refused [OF rrel.R_refl] refused [OF rel] frame_then(5) paid [OF refused [OF rrel.R_refl]] ended [OF _ refl]
    by (cases prepared) (auto simp: drive_create_def Let_def b t address_def [symmetric] split: option.splits if_splits sum.splits)
qed

end
