(* ===== verification/Tvm_Safety.thy ===== *)
theory Tvm_Safety
  imports Tvm_Frames
begin

text \<open>
  Execution as a whole: every frame keeps the invariants of the machine and of the layers below
  its own, and every frame ends, because each instruction either pays energy or moves the program
  counter forward, and a child gets less energy than its caller had.
\<close>

section \<open>One step\<close>

lemma step_Ok:
  assumes "step H ops opcode c = (c2, Ok control)" "vm_inv c"
  obtains spec v n c1 where "ops opcode = Some (spec, v)" "ov_energy v c = Ok n" "0 \<le> n" "vm_inv c1" "oc_stack c1 = oc_stack c" "oc_program c1 = oc_program c"
    "em_used (oc_energy c1) = em_used (oc_energy c) + n" "ov_execute v c1 = (c2, Ok control)"
proof -
  obtain spec v where v: "ops opcode = Some (spec, v)" using assms(1) by (auto simp: step_def sfail_def split: option.splits)
  obtain n a b where n: "ov_energy v c = Ok n" "op_spend n c = (a, Ok ())" "op_check_limit H a = (b, Ok ())" "ov_execute v b = (c2, Ok control)"
    using assms(1) by (auto simp: step_def v sbind_Ok sask_def)
  have a: "em_used (oc_energy a) = em_used (oc_energy c) + n" using op_spend_Ok [OF n(2) assms(2)] by simp
  have "0 \<le> n" using n(2) assms(2) by (auto simp: op_spend_def vm_inv_def split: prod.splits dest: spend_meter(4))
  moreover have "vm_inv b" using follows_inv [OF crel_check n(3)] follows_inv [OF crel_spend n(2)] assms(2) by blast
  moreover have "oc_stack b = oc_stack c" "oc_program b = oc_program c" "oc_energy b = oc_energy a"
    using n(2,3) by (auto simp: op_spend_def op_check_limit_def split: prod.splits)
  ultimately show ?thesis using that [OF v n(1)] n(4) a by auto
qed

lemma step_frame:
  assumes "ops_ok ops" "step H ops opcode c = (c2, res)" "vm_inv c"
  shows "frame_rel c c2 \<and> em_used (oc_energy c) \<le> em_used (oc_energy c2)"
proof -
  have "follows (ctx_rel True) (step H ops opcode)"
  proof (cases "ops opcode")
    case (Some a)
    then have "follows (ctx_rel True) (ov_execute (snd a))" using assms(1) by (cases a) (auto simp: ops_ok_def row_ok_def)
    then show ?thesis unfolding step_def Some by (cases a) (auto intro!: ctx_steps)
  qed (simp add: step_def crel.pure)
  then have "ctx_rel True c c2" using assms(2) by (metis follows_def fst_conv)
  then show ?thesis using frame_rel_step assms(3) by blast
qed

lemma next_opcode_context:
  assumes "next_opcode (oc_program c) = Some (opcode, p)" "vm_inv c"
  shows "frame_rel c (c\<lparr> oc_program := p \<rparr>)" "pg_pc p = Suc (pg_pc (oc_program c))" "pg_pc (oc_program c) < length (pg_code (oc_program c))"
    "pg_code p = pg_code (oc_program c)" "pg_code p ! pg_pc (oc_program c) = opcode"
  using assms by (auto simp: next_opcode_def frame_rel_def vm_inv_def split: if_splits)

lemma step_progress:
  assumes ops: "ops_ok ops" and inv: "vm_inv c" and p: "next_opcode (oc_program c) = Some (opcode, p)"
    and run: "step H ops opcode (c\<lparr> oc_program := p \<rparr>) = (c2, Ok control)"
  shows "em_used (oc_energy c) < em_used (oc_energy c2) \<or> pg_pc (oc_program c) < pg_pc (oc_program c2)"
    "control = OCall req \<Longrightarrow> 0 \<le> cr_reserved_energy req \<and> em_used (oc_energy c) < em_used (oc_energy c2) - cr_reserved_energy req \<and> cr_energy_limit req < remaining (oc_energy c)"
    "control = OCreate creq \<Longrightarrow> em_used (oc_energy c) < em_used (oc_energy c2) \<and> ct_energy_limit creq \<le> remaining (oc_energy c2)"
proof -
  note q = next_opcode_context [OF p inv]
  let ?c = "c\<lparr> oc_program := p \<rparr>"
  obtain spec v n c1 where s: "ops opcode = Some (spec, v)" "ov_energy v ?c = Ok n" "0 \<le> n" "vm_inv c1" "oc_stack c1 = oc_stack ?c" "oc_program c1 = oc_program ?c"
    "em_used (oc_energy c1) = em_used (oc_energy ?c) + n" "ov_execute v c1 = (c2, Ok control)"
    by (rule step_Ok [OF run vm_inv_frame [OF q(1)]])
  have row: "row_ok opcode v" using ops s(1) by (auto simp: ops_ok_def)
  have "ctx_rel True c1 c2" using row s(8) by (metis row_ok_def follows_def fst_conv)
  then have used: "em_used (oc_energy c1) \<le> em_used (oc_energy c2)" "em_limit (oc_energy c2) = em_limit (oc_energy c1)" using s(4) by (auto simp: ctx_rel_def keeps_frame_def)
  note f = step_frame [OF ops run vm_inv_frame [OF q(1)]]
  have cur: "current_opcode c1 = Ok opcode" using q(2-5) by (simp add: current_opcode_def s(6))
  show "em_used (oc_energy c) < em_used (oc_energy c2) \<or> pg_pc (oc_program c) < pg_pc (oc_program c2)"
  proof (cases "\<exists>m\<ge>1. ov_energy v = fixed_energy m")
    case True
    then have "1 \<le> n" using s(2) by (auto simp: fixed_energy_def)
    then show ?thesis using used s(7) by simp
  next
    case False
    then have "pg_pc (oc_program c1) \<le> pg_pc (oc_program (fst (ov_execute v c1)))" using row s(4) cur unfolding row_ok_def by blast
    then show ?thesis using q(2) s(6,8) by simp
  qed
  have lim: "em_used (oc_energy c2) \<le> em_limit (oc_energy c)" using f by (auto simp: frame_rel_def vm_inv_def meter_inv_def)
  show "0 \<le> cr_reserved_energy req \<and> em_used (oc_energy c) < em_used (oc_energy c2) - cr_reserved_energy req \<and> cr_energy_limit req < remaining (oc_energy c)" if "control = OCall req"
  proof -
    have "1 \<le> n \<and> 0 \<le> cr_reserved_energy req \<and> em_used (oc_energy c2) = em_used (oc_energy c1) + cr_reserved_energy req \<and> cr_energy_limit req < n + cr_reserved_energy req"
      using row s(2,4,5,8) that unfolding row_ok_def by blast
    then show ?thesis using s(7) lim by (simp add: remaining_def)
  qed
  show "em_used (oc_energy c) < em_used (oc_energy c2) \<and> ct_energy_limit creq \<le> remaining (oc_energy c2)" if "control = OCreate creq"
  proof -
    have "1 \<le> n \<and> ct_energy_limit creq \<le> remaining (oc_energy c2)" using row s(2,4,5,8) that unfolding row_ok_def by blast
    then show ?thesis using s(7) used by simp
  qed
qed

section \<open>Frames are safe\<close>

lemma remaining_i64: "vm_inv c \<Longrightarrow> remaining (oc_energy c) \<le> i64_max"
  by (auto simp: vm_inv_def meter_inv_def remaining_def in_i64_def)

lemma execute_frame_safe:
  assumes "host_ok H" "ops_ok ops"
  shows "safe_exec (execute_frame H ops fuel)"
proof (induction fuel)
  case (Suc fuel)
  show ?case unfolding safe_exec_def
  proof (intro allI impI)
    fix hash nonce c out c' nonce'
    assume inv: "vm_inv c" and run: "execute_frame H ops (Suc fuel) hash nonce c = Some (out, c', nonce')"
    show "frame_rel c c' \<and> xo_energy_used out = em_used (oc_energy c')"
    proof (cases "next_opcode (oc_program c)")
      case None
      then show ?thesis using run inv by (auto simp: frame_rel_def)
    next
      case (Some a)
      obtain opcode p where p: "next_opcode (oc_program c) = Some (opcode, p)" using Some by (cases a) auto
      obtain c2 res where s: "step H ops opcode (c\<lparr> oc_program := p \<rparr>) = (c2, res)" by fastforce
      note q = next_opcode_context [OF p inv]
      have c2: "frame_rel c c2" using step_frame [OF assms(2) s vm_inv_frame [OF q(1)]] frame_rel_trans [OF q(1)] by blast
      note inv2 = vm_inv_frame [OF c2]
      have rest: "frame_rel c c' \<and> xo_energy_used out = em_used (oc_energy c')"
        if "execute_frame H ops fuel hash n c3 = Some (out, c', nonce')" "frame_rel c2 c3" for n c3
        using Suc.IH that vm_inv_frame [OF that(2)] frame_rel_trans [OF c2] frame_rel_trans [OF that(2)] unfolding safe_exec_def by blast
      have fault: "frame_rel c c' \<and> xo_energy_used out = em_used (oc_energy c')" if "finish_fault f n c3 = (out, c', nonce')" "frame_rel c2 c3" for f n c3
        using finish_fault_safe [OF vm_inv_frame [OF that(2)] that(1)] frame_rel_trans [OF c2 frame_rel_trans [OF that(2)]] by blast
      have refl2: "frame_rel c2 c2" using inv2 by (simp add: frame_rel_def)
      show ?thesis
      proof (cases res)
        case (Inl f)
        show ?thesis using run fault [OF _ refl2] by (simp add: p s Inl)
      next
        case (Inr control)
        note s' = s [unfolded Inr]
        note progress = step_progress [OF assms(2) inv p s']
        show ?thesis
        proof (cases control)
          case OContinue
          then show ?thesis using run rest [OF _ refl2] by (simp add: p s Inr)
        next
          case (OHalt data)
          then show ?thesis using run frame_then(1) [OF c2] by (auto simp: p s Inr Let_def)
        next
          case (ORevert data)
          then show ?thesis using run frame_then(1) [OF c2] by (auto simp: p s Inr Let_def)
        next
          case (OSelfDestruct ben)
          then show ?thesis using run self_destruct_safe [OF inv2] frame_rel_trans [OF c2] by (fastforce simp: p s Inr)
        next
          case (OCall req)
          then obtain c3 n where d: "drive_call H (execute_frame H ops fuel) req hash nonce c2 = Some (c3, n)" "execute_frame H ops fuel hash n c3 = Some (out, c', nonce')"
            using run by (auto simp: p s Inr bind_eq_Some_conv)
          have "frame_rel c2 c3" using drive_call_safe [OF assms(1) Suc.IH inv2 d(1)] progress(2) [OF OCall] remaining_i64 [OF inv] inv
            by (auto simp: vm_inv_def meter_inv_def)
          then show ?thesis by (rule rest [OF d(2)])
        next
          case (OCreate req)
          then obtain c3 n r where d: "drive_create H (execute_frame H ops fuel) req hash nonce c2 = Some (c3, n, r)"
            "(case r of Err f \<Rightarrow> Some (finish_fault f n c3) | Ok _ \<Rightarrow> execute_frame H ops fuel hash n c3) = Some (out, c', nonce')"
            using run by (auto simp: p s Inr bind_eq_Some_conv)
          have "frame_rel c2 c3" using drive_create_safe [OF Suc.IH inv2 _ d(1)] progress(3) [OF OCreate] remaining_i64 [OF inv2] by auto
          then show ?thesis using d(2) rest fault by (cases r) auto
        qed
      qed
    qed
  qed
qed (simp add: safe_exec_def)

section \<open>Frames end\<close>

definition exec_le :: "exec_frame \<Rightarrow> exec_frame \<Rightarrow> bool" where
  "exec_le e e' \<longleftrightarrow> (\<forall>hash nonce c y. e hash nonce c = Some y \<longrightarrow> e' hash nonce c = Some y)"

lemma run_callee_mono: "exec_le e e' \<Longrightarrow> run_callee H e frame meter hash nonce c = Some y \<Longrightarrow> run_callee H e' frame meter hash nonce c = Some y"
  by (fastforce simp: exec_le_def run_callee_def split: option.splits)

lemma drive_call_mono: "exec_le e e' \<Longrightarrow> drive_call H e req hash nonce c = Some y \<Longrightarrow> drive_call H e' req hash nonce c = Some y"
  using run_callee_mono [of e e' H] by (fastforce simp: drive_call_def Let_def split: option.splits if_splits prod.splits sum.splits)

lemma drive_create_mono: "exec_le e e' \<Longrightarrow> drive_create H e req hash nonce c = Some y \<Longrightarrow> drive_create H e' req hash nonce c = Some y"
  by (fastforce simp: exec_le_def drive_create_def Let_def split: option.splits if_splits prod.splits sum.splits)

text \<open>One unfolding of a frame, after its next instruction was decoded and executed.\<close>

lemma execute_frame_step:
  assumes "next_opcode (oc_program c) = Some (opcode, p)" "step H ops opcode (c\<lparr> oc_program := p \<rparr>) = (c2, Ok control)"
  shows "execute_frame H ops (Suc fuel) hash nonce c = (case control of
      OContinue \<Rightarrow> execute_frame H ops fuel hash nonce c2
    | OHalt data \<Rightarrow> (let c = set_return_data data c2 in Some (frame_outcome Succeeded CSuccess c, c, nonce))
    | ORevert data \<Rightarrow> (let c = set_return_data data c2 in Some (frame_outcome Reverted CRevert c, c, nonce))
    | OSelfDestruct beneficiary \<Rightarrow> Some (self_destruct H beneficiary hash nonce c2)
    | OCall req \<Rightarrow> Option.bind (drive_call H (execute_frame H ops fuel) req hash nonce c2) (\<lambda>(c, nonce). execute_frame H ops fuel hash nonce c)
    | OCreate req \<Rightarrow> Option.bind (drive_create H (execute_frame H ops fuel) req hash nonce c2) (\<lambda>(c, nonce, res).
        case res of Err f \<Rightarrow> Some (finish_fault f nonce c) | Ok _ \<Rightarrow> execute_frame H ops fuel hash nonce c))"
  using assms by (simp only: execute_frame.simps option.case prod.case sum.case)

lemma execute_frame_stop:
  "next_opcode (oc_program c) = None \<Longrightarrow> execute_frame H ops (Suc fuel) hash nonce c = Some (frame_outcome Succeeded CSuccess c, c, nonce)"
  "next_opcode (oc_program c) = Some (opcode, p) \<Longrightarrow> step H ops opcode (c\<lparr> oc_program := p \<rparr>) = (c2, Err f) \<Longrightarrow>
     execute_frame H ops (Suc fuel) hash nonce c = Some (finish_fault f nonce c2)"
  by simp_all

lemma execute_frame_Suc: "exec_le (execute_frame H ops fuel) (execute_frame H ops (Suc fuel))"
proof (induction fuel)
  case (Suc fuel)
  have le: "execute_frame H ops fuel h n d = Some z \<Longrightarrow> execute_frame H ops (Suc fuel) h n d = Some z" for h n d z
    using Suc.IH unfolding exec_le_def by blast
  show ?case unfolding exec_le_def
  proof (intro allI impI)
    fix hash nonce c y
    assume run: "execute_frame H ops (Suc fuel) hash nonce c = Some y"
    show "execute_frame H ops (Suc (Suc fuel)) hash nonce c = Some y"
    proof (cases "next_opcode (oc_program c)")
      case None
      then show ?thesis using run by (simp only: execute_frame_stop)
    next
      case (Some a)
      then obtain opcode p where p: "next_opcode (oc_program c) = Some (opcode, p)" by (cases a) auto
      obtain c2 res where s: "step H ops opcode (c\<lparr> oc_program := p \<rparr>) = (c2, res)" by fastforce
      show ?thesis
      proof (cases res)
        case (Inl f)
        then show ?thesis using run s p by (simp only: execute_frame_stop(2) [OF p])
      next
        case (Inr control)
        note e = execute_frame_step [OF p s [unfolded Inr]]
        show ?thesis
        proof (cases control)
          case (OCall req)
          then obtain d n where "drive_call H (execute_frame H ops fuel) req hash nonce c2 = Some (d, n)" "execute_frame H ops fuel hash n d = Some y"
            using run by (auto simp: e bind_eq_Some_conv simp del: execute_frame.simps)
          then show ?thesis using OCall drive_call_mono [OF Suc.IH] le by (simp add: e del: execute_frame.simps)
        next
          case (OCreate req)
          then obtain d n r where d: "drive_create H (execute_frame H ops fuel) req hash nonce c2 = Some (d, n, r)"
            "(case r of Err f \<Rightarrow> Some (finish_fault f n d) | Ok _ \<Rightarrow> execute_frame H ops fuel hash n d) = Some y"
            using run by (auto simp: e bind_eq_Some_conv simp del: execute_frame.simps)
          then show ?thesis using OCreate drive_create_mono [OF Suc.IH d(1)] le by (cases r) (simp_all add: e del: execute_frame.simps)
        qed (use run le in \<open>simp_all add: e del: execute_frame.simps\<close>)
      qed
    qed
  qed
qed (simp add: exec_le_def)

lemma execute_frame_mono: "n \<le> m \<Longrightarrow> execute_frame H ops n hash nonce c = Some y \<Longrightarrow> execute_frame H ops m hash nonce c = Some y"
proof (induction rule: dec_induct)
  case (step k)
  then show ?case using execute_frame_Suc [of H ops k] unfolding exec_le_def by blast
qed

definition ends :: "vm_host \<Rightarrow> resolved_ops \<Rightarrow> bytes \<Rightarrow> i64 \<Rightarrow> OperationContext \<Rightarrow> bool" where
  "ends H ops hash nonce c \<longleftrightarrow> (\<exists>fuel y. execute_frame H ops fuel hash nonce c = Some y)"

lemma drive_call_ends:
  assumes host: "host_ok H" and inv: "vm_inv c" and limit: "cr_energy_limit req \<le> i64_max"
    and child: "\<And>h n d. vm_inv d \<Longrightarrow> remaining (oc_energy d) = max (cr_energy_limit req) 0 \<Longrightarrow> ends H ops h n d"
  shows "\<exists>fuel y. drive_call H (execute_frame H ops fuel) req hash nonce c = Some y"
proof -
  have ri: "repo_inv (oc_repository c)" using inv by (simp add: vm_inv_def)
  obtain i r1 where b: "begin_child CopiedStorage (oc_repository c) = (i, r1)" by fastforce
  obtain r2 res where t: "call_transfer (vh_codec H) req (fr_context_address (oc_frame c)) r1 = (r2, res)" by fastforce
  have rel: "repo_rel r1 r2" using call_transfer_steps t by (metis follows_def fst_conv)
  have r2: "vm_inv (c\<lparr> oc_repository := r2 \<rparr>)" using rel begin_child_rel [OF ri b] inv by (simp add: repo_rel_def vm_inv_def)
  have "\<exists>fuel y. run_callee H (execute_frame H ops fuel) fr (meter_of (cr_energy_limit req)) h n (c\<lparr> oc_repository := r2 \<rparr>) = Some y" for fr h n
  proof -
    let ?d = "child_context fr (code_or_empty (fr_code_address fr) r2) (meter_of (cr_energy_limit req)) (c\<lparr> oc_repository := r2 \<rparr>)"
    have "ends H ops h n ?d" by (rule child [OF child_inv [OF r2 meter_of_inv [OF limit]]]) (simp add: child_context_def meter_of_def remaining_def)
    then show ?thesis by (auto simp: ends_def run_callee_def split: option.split)
  qed
  then show ?thesis
    by (cases "child_frame (oc_frame c) (cr_destination req) (cr_value req) (cr_token_value req) (cr_token_id req) (cr_kind req)"; cases res)
      (simp_all add: drive_call_def Let_def b t del: execute_frame.simps, blast)
qed

lemma drive_create_ends:
  assumes inv: "vm_inv c" and limit: "ct_energy_limit req \<le> i64_max"
    and child: "\<And>h n d. vm_inv d \<Longrightarrow> remaining (oc_energy d) = max (ct_energy_limit req) 0 \<Longrightarrow> ends H ops h n d"
  shows "\<exists>fuel y. drive_create H (execute_frame H ops fuel) req hash nonce c = Some y"
proof -
  have ri: "repo_inv (oc_repository c)" using inv by (simp add: vm_inv_def)
  obtain i r1 where b: "begin_child CopiedStorage (oc_repository c) = (i, r1)" by fastforce
  define address where "address = created_address (vh_codec H) req (oc_frame c) (oc_rules c) nonce"
  obtain r2 res where t: "prepare_creation (vh_codec H) req address (oc_frame c) (oc_rules c) r1 = (r2, res)" by fastforce
  have rel: "repo_rel r1 r2" using prepare_creation_steps t by (metis follows_def fst_conv)
  have r2: "vm_inv (c\<lparr> oc_repository := r2 \<rparr>)" using rel begin_child_rel [OF ri b] inv by (simp add: repo_rel_def vm_inv_def)
  have "ends H ops h n (child_context fr code (meter_of (ct_energy_limit req)) (c\<lparr> oc_repository := r2 \<rparr>))" for h n fr code
    by (rule child [OF child_inv [OF r2 meter_of_inv [OF limit]]]) (simp add: child_context_def meter_of_def remaining_def)
  then have "\<exists>fuel y. execute_frame H ops fuel h n (child_context fr code (meter_of (ct_energy_limit req)) (c\<lparr> oc_repository := r2 \<rparr>)) = Some y" for h n fr code
    by (simp add: ends_def)
  then have ex: "\<exists>fuel y. execute_frame H ops fuel h n (child_context fr code (meter_of (ct_energy_limit req)) (c\<lparr> oc_repository := r2 \<rparr>)) = Some y" for h n fr code
    by blast
  show ?thesis
  proof (cases "create_destination_exists (vh_codec H) address (tr_constantinople (oc_rules c)) r1 = Ok False \<and> res = Ok () \<and>
      too_deep (ct_kind req) (oc_rules c) (fr_depth (oc_frame c)) = None \<and> is_ok (can_endow (vh_codec H) (fr_context_address (oc_frame c)) (ct_value req) (oc_repository c))")
    case True
    then show ?thesis using ex by (simp add: drive_create_def Let_def b t address_def [symmetric] del: execute_frame.simps) blast
  next
    case False
    then show ?thesis by (cases res) (auto simp: drive_create_def Let_def b t address_def [symmetric] split: option.split sum.split)
  qed
qed

lemma ends_more: "ends H ops hash nonce c \<Longrightarrow> \<exists>fuel \<ge> n. \<exists>y. execute_frame H ops fuel hash nonce c = Some y"
  using execute_frame_mono [of _ "max n fuel" for fuel] unfolding ends_def by (meson max.cobounded1 max.cobounded2)

lemma drive_call_fuel: "n \<le> m \<Longrightarrow> drive_call H (execute_frame H ops n) req hash nonce c = Some y \<Longrightarrow> drive_call H (execute_frame H ops m) req hash nonce c = Some y"
  by (rule drive_call_mono) (auto simp: exec_le_def intro: execute_frame_mono)

lemma drive_create_fuel: "n \<le> m \<Longrightarrow> drive_create H (execute_frame H ops n) req hash nonce c = Some y \<Longrightarrow> drive_create H (execute_frame H ops m) req hash nonce c = Some y"
  by (rule drive_create_mono) (auto simp: exec_le_def intro: execute_frame_mono)

text \<open>What gets smaller: first the energy left, then the code left to read.\<close>

definition frame_order :: "(OperationContext \<times> OperationContext) set" where
  "frame_order = measures [\<lambda>c. nat (remaining (oc_energy c)), \<lambda>c. length (pg_code (oc_program c)) - pg_pc (oc_program c)]"

lemma frame_orderI:
  "remaining (oc_energy d) < remaining (oc_energy c) \<Longrightarrow> 0 < remaining (oc_energy c) \<Longrightarrow> (d, c) \<in> frame_order"
  "remaining (oc_energy d) \<le> remaining (oc_energy c) \<Longrightarrow> pg_code (oc_program d) = pg_code (oc_program c) \<Longrightarrow>
     pg_pc (oc_program c) < pg_pc (oc_program d) \<Longrightarrow> pg_pc (oc_program c) < length (pg_code (oc_program c)) \<Longrightarrow> (d, c) \<in> frame_order"
  by (auto simp: frame_order_def)

lemma wf_frame_order: "wf frame_order"
  by (simp add: frame_order_def)

lemma frame_ends_step:
  assumes host: "host_ok H" and ops: "ops_ok ops" and inv: "vm_inv c"
    and IH: "\<And>d hash nonce. (d, c) \<in> frame_order \<Longrightarrow> vm_inv d \<Longrightarrow> ends H ops hash nonce d"
    and p: "next_opcode (oc_program c) = Some (opcode, p)" and s: "step H ops opcode (c\<lparr> oc_program := p \<rparr>) = (c2, Ok control)"
  shows "ends H ops hash nonce c"
proof -
  note q = next_opcode_context [OF p inv] and progress = step_progress [OF ops inv p s] and e = execute_frame_step [OF p s]
  have c2: "frame_rel c c2" "em_used (oc_energy c) \<le> em_used (oc_energy c2)"
    using step_frame [OF ops s vm_inv_frame [OF q(1)]] frame_rel_trans [OF q(1)] by auto
  note inv2 = vm_inv_frame [OF c2(1)]
  have rem: "remaining (oc_energy d) = em_limit (oc_energy c) - em_used (oc_energy d)" "em_used (oc_energy d) \<le> em_limit (oc_energy c)" if "frame_rel c d" for d
    using that by (auto simp: frame_rel_def vm_inv_def meter_inv_def remaining_def)
  have self: "frame_rel c c" using inv by (simp add: frame_rel_def)
  note rem_c = rem [OF self] and rem_2 = rem [OF c2(1)]
  have code2: "pg_code (oc_program c2) = pg_code (oc_program c)" using c2(1) by (simp add: frame_rel_def)
  have later: "ends H ops h n d" if "frame_rel c2 d" "em_used (oc_energy c) < em_used (oc_energy d)" for h n d
    using rem [OF frame_rel_trans [OF c2(1) that(1)]] that rem_c by (intro IH frame_orderI(1) vm_inv_frame [OF that(1)]) auto
  show ?thesis
  proof (cases control)
    case OContinue
    have "(c2, c) \<in> frame_order" using progress(1) q(3) rem_c rem_2 c2(2) code2 frame_orderI [of c2 c] by fastforce
    from IH [OF this inv2] obtain fuel y where "execute_frame H ops fuel hash nonce c2 = Some y" unfolding ends_def by blast
    then have "execute_frame H ops (Suc fuel) hash nonce c = Some y" using OContinue by (simp add: e del: execute_frame.simps)
    then show ?thesis unfolding ends_def by blast
  next
    case (OCall req)
    note pr = progress(2) [OF OCall]
    have used: "0 \<le> em_used (oc_energy c)" using inv by (simp add: vm_inv_def meter_inv_def)
    have l: "cr_energy_limit req \<le> i64_max" using pr remaining_i64 [OF inv] by linarith
    have "ends H ops h n d" if "vm_inv d" "remaining (oc_energy d) = max (cr_energy_limit req) 0" for h n d
      using that pr rem_c rem_2 by (intro IH frame_orderI(1)) auto
    from drive_call_ends [OF host inv2 l this] obtain fuel c3 n
      where d: "drive_call H (execute_frame H ops fuel) req hash nonce c2 = Some (c3, n)" by fast
    have "frame_rel c2 c3" "em_used (oc_energy c) < em_used (oc_energy c3)"
      using drive_call_safe [OF host execute_frame_safe [OF host ops] inv2 d _ _ l] pr used by linarith+
    then obtain fuel' y where f: "fuel \<le> fuel'" "execute_frame H ops fuel' hash n c3 = Some y" using ends_more [OF later] by blast
    then have "execute_frame H ops (Suc fuel') hash nonce c = Some y" using OCall drive_call_fuel [OF f(1) d] by (simp add: e del: execute_frame.simps)
    then show ?thesis unfolding ends_def by blast
  next
    case (OCreate req)
    note pr = progress(3) [OF OCreate]
    have l: "ct_energy_limit req \<le> i64_max" using pr remaining_i64 [OF inv2] by linarith
    have "ends H ops h n d" if "vm_inv d" "remaining (oc_energy d) = max (ct_energy_limit req) 0" for h n d
      using that pr rem_c rem_2 by (intro IH frame_orderI(1)) auto
    from drive_create_ends [OF inv2 l this] obtain fuel c3 n r
      where d: "drive_create H (execute_frame H ops fuel) req hash nonce c2 = Some (c3, n, r)" by fast
    have "frame_rel c2 c3" "em_used (oc_energy c) < em_used (oc_energy c3)"
      using drive_create_safe [OF execute_frame_safe [OF host ops] inv2 l d] pr by linarith+
    then obtain fuel' y where f: "fuel \<le> fuel'" "execute_frame H ops fuel' hash n c3 = Some y" using ends_more [OF later] by blast
    then have "\<exists>y. execute_frame H ops (Suc fuel') hash nonce c = Some y" using OCreate drive_create_fuel [OF f(1) d]
      by (cases r) (simp_all add: e del: execute_frame.simps split_paired_Ex)
    then show ?thesis unfolding ends_def by blast
  qed (use e [of 0 hash nonce] in \<open>simp_all add: ends_def Let_def del: execute_frame.simps split_paired_Ex, blast+\<close>)
qed

lemma frame_ends:
  assumes "host_ok H" "ops_ok ops"
  shows "vm_inv c \<Longrightarrow> ends H ops hash nonce c"
proof (induction c arbitrary: hash nonce rule: wf_induct_rule [OF wf_frame_order])
  case (1 c)
  show ?case
  proof (cases "next_opcode (oc_program c)")
    case None
    then show ?thesis using execute_frame_stop(1) [OF None] unfolding ends_def by blast
  next
    case (Some a)
    then obtain opcode p where p: "next_opcode (oc_program c) = Some (opcode, p)" by (cases a) auto
    obtain c2 res where s: "step H ops opcode (c\<lparr> oc_program := p \<rparr>) = (c2, res)" by fastforce
    show ?thesis
    proof (cases res)
      case (Inl f)
      then show ?thesis using execute_frame_stop(2) [OF p] s unfolding ends_def by blast
    next
      case (Inr control)
      then show ?thesis using frame_ends_step [OF assms 1(2,1) p] s by blast
    qed
  qed
qed

end
