(* ===== verification/Tvm_Runs.thy ===== *)
theory Tvm_Runs
  imports Tvm_Safety
begin

text \<open>
  Whole runs of the virtual machine with the complete registry of operations: they end, they stay within
  their energy, and a run that does not succeed leaves the state as it was. The transfer of a value to
  the own address is the exception to what a transfer should do, and is stated as it is.
\<close>

section \<open>Runs\<close>

text \<open>The frame a run executes, in a layer of its own.\<close>

lemma run_root_frame:
  assumes "host_ok H" "ops_ok ops" "vm_inv c" "run_root H ops fuel c = Some (out, c')"
  obtains i r1 o1 d n where "begin_child CopiedStorage (oc_repository c) = (i, r1)"
    "frame_rel (c\<lparr> oc_repository := r1, oc_effects := effects_default \<rparr>) d" "xo_energy_used o1 = em_used (oc_energy d)"
    "repo_rel r1 (oc_repository d)"
    "out = (if xo_status o1 = Succeeded then o1\<lparr> xo_deltas := repo_deltas (oc_repository c') \<rparr>
      else o1\<lparr> xo_logs := [], xo_deleted_accounts := [], xo_internal_transactions := map reject_transaction (xo_internal_transactions o1),
        xo_deltas := repo_deltas (oc_repository c') \<rparr>)"
    "c' = d\<lparr> oc_repository := (if xo_status o1 = Succeeded then fst (commit_child i (oc_repository d)) else fst (revoke_child i (oc_repository d))) \<rparr>"
proof -
  obtain i r1 where b: "begin_child CopiedStorage (oc_repository c) = (i, r1)" by fastforce
  let ?c = "c\<lparr> oc_repository := r1, oc_effects := effects_default \<rparr>"
  have inv: "vm_inv ?c" using begin_child_rel [OF _ b] assms(3) by (simp add: vm_inv_def repo_rel_def)
  obtain o1 d n where e: "execute_frame H ops fuel (fr_root_txid (oc_frame c)) 0 ?c = Some (o1, d, n)"
    using assms(4) by (auto simp: run_root_def b)
  have f: "frame_rel ?c d" "xo_energy_used o1 = em_used (oc_energy d)"
    using execute_frame_safe [OF assms(1,2), of fuel] inv e unfolding safe_exec_def by blast+
  show ?thesis
    by (rule that [OF b f]) (use frame_repo_rel [OF f(1)] assms(4) e in \<open>auto simp: run_root_def b Let_def split: if_splits\<close>)
qed

section \<open>Properties\<close>

text \<open>C1: a run of the virtual machine with the complete registry, on a context in good order and with precompiled contracts
  that use the repository through its operations, keeps the machine in good order (the stack has at most
  1024 words, the memory and the energy meter are consistent), uses no more energy than its limit, and
  touches no layer below the one it was given. The reported deltas are exactly the rows that now differ from the base
  state. When the run does not succeed, what the repository shows is what it showed before,
  no log and no deletion is reported, and every internal transaction is marked rejected.\<close>

theorem execution_safe:
  assumes "host_ok H" "registry_integration H = Ok reg" "vm_inv c" "run_root H (registry_resolve reg (oc_rules c)) fuel c = Some (out, c')"
  shows "vm_inv c' \<and> 0 \<le> xo_energy_used out \<and> xo_energy_used out \<le> em_limit (oc_energy c) \<and>
    same_frame (oc_repository c) (oc_repository c') \<and>
    set (xo_deltas out) = {d. rd_before d = rp_base (oc_repository c) (rd_store d) (rd_key d) \<and>
      rd_after d = fst (repo_view (oc_repository c')) (rd_store d, rd_key d) \<and> rd_before d \<noteq> rd_after d} \<and>
    (xo_status out \<noteq> Succeeded \<longrightarrow> repo_view (oc_repository c') = repo_view (oc_repository c) \<and>
      xo_logs out = [] \<and> xo_deleted_accounts out = [] \<and> list_all it_rejected (xo_internal_transactions out))"
proof -
  have ri: "repo_inv (oc_repository c)" using assms(3) by (simp add: vm_inv_def)
  obtain i r1 o1 d n where b: "begin_child CopiedStorage (oc_repository c) = (i, r1)"
    and f: "frame_rel (c\<lparr> oc_repository := r1, oc_effects := effects_default \<rparr>) d" "xo_energy_used o1 = em_used (oc_energy d)" "repo_rel r1 (oc_repository d)"
    and out: "out = (if xo_status o1 = Succeeded then o1\<lparr> xo_deltas := repo_deltas (oc_repository c') \<rparr>
      else o1\<lparr> xo_logs := [], xo_deleted_accounts := [], xo_internal_transactions := map reject_transaction (xo_internal_transactions o1),
        xo_deltas := repo_deltas (oc_repository c') \<rparr>)"
    and c': "c' = d\<lparr> oc_repository := (if xo_status o1 = Succeeded then fst (commit_child i (oc_repository d)) else fst (revoke_child i (oc_repository d))) \<rparr>"
    by (rule run_root_frame [OF assms(1) integration_ops_ok [OF assms(2)] assms(3,4)])
  note e = layer_end [OF ri b f(3)]
  have rel: "repo_rel (oc_repository c) (oc_repository c')" using e by (simp add: c')
  then have inv: "repo_inv (oc_repository c')" "same_frame (oc_repository c) (oc_repository c')" using ri by (auto simp: repo_rel_def)
  have d: "vm_inv d" "em_limit (oc_energy d) = em_limit (oc_energy c)" using f(1) by (simp_all add: frame_rel_def)
  have "vm_inv c'" using d(1) inv(1) by (simp add: c' vm_inv_def)
  moreover have "0 \<le> xo_energy_used out" "xo_energy_used out \<le> em_limit (oc_energy c)"
    using d f(2) by (auto simp: out vm_inv_def meter_inv_def)
  moreover have "set (xo_deltas out) = {d. rd_before d = rp_base (oc_repository c) (rd_store d) (rd_key d) \<and>
      rd_after d = fst (repo_view (oc_repository c')) (rd_store d, rd_key d) \<and> rd_before d \<noteq> rd_after d}"
    using deltas_members [OF inv(1)] inv(2) by (auto simp: out same_frame_def read_view(1))
  moreover have "repo_view (oc_repository c') = repo_view (oc_repository c) \<and>
      xo_logs out = [] \<and> xo_deleted_accounts out = [] \<and> list_all it_rejected (xo_internal_transactions out)" if "xo_status out \<noteq> Succeeded"
    using that e(2) by (auto simp: out c' list_all_iff reject_transaction_def split: if_splits)
  ultimately show ?thesis using inv(2) by blast
qed

text \<open>C2: every run ends: the complete registry can be built and has all 165 operations, and with it, on every context in
  good order, the run of any program gives an outcome once it has enough fuel, and more fuel does not
  change it.\<close>

theorem execution_ends:
  assumes "host_ok H" "vm_inv c"
  shows "\<exists>reg fuel out c'. registry_integration H = Ok reg \<and> dom reg = set opcode_table \<and>
    (\<forall>n\<ge>fuel. run_root H (registry_resolve reg (oc_rules c)) n c = Some (out, c'))"
proof -
  obtain reg where reg: "registry_integration H = Ok reg" "dom reg = set opcode_table" using integration_complete by blast
  obtain i r1 where b: "begin_child CopiedStorage (oc_repository c) = (i, r1)" by fastforce
  let ?c = "c\<lparr> oc_repository := r1, oc_effects := effects_default \<rparr>"
  have "vm_inv ?c" using begin_child_rel [OF _ b] assms(2) by (simp add: vm_inv_def repo_rel_def)
  from frame_ends [OF assms(1) integration_ops_ok [OF reg(1)] this] obtain fuel y
    where y: "execute_frame H (registry_resolve reg (oc_rules c)) fuel (fr_root_txid (oc_frame c)) 0 ?c = Some y" unfolding ends_def by blast
  have "run_root H (registry_resolve reg (oc_rules c)) n c = run_root H (registry_resolve reg (oc_rules c)) fuel c" if "fuel \<le> n" for n
    using execute_frame_mono [OF that y] y by (simp add: run_root_def b del: execute_frame.simps)
  moreover obtain out c' where "run_root H (registry_resolve reg (oc_rules c)) fuel c = Some (out, c')"
    by (cases "run_root H (registry_resolve reg (oc_rules c)) fuel c") (use y in \<open>auto simp: run_root_def b simp del: execute_frame.simps\<close>)
  ultimately show ?thesis using reg by metis
qed

lemma to_i64_safe_eq: "to_i64_safe w = min (uint w) 9223372036854775807"
proof (cases "uint w \<le> 9223372036854775807")
  case True
  then have "\<not> w > word_from_u64 9223372036854775807" by (simp add: word_from_u64_def word_less_def uint_word_of_int)
  with True show ?thesis
    by (simp add: to_i64_safe_def low_i64_def low_u64_def wrap_i64_def)
next
  case False
  then have "w > word_from_u64 9223372036854775807" by (simp add: word_from_u64_def word_less_def uint_word_of_int)
  with False show ?thesis by (simp add: to_i64_safe_def)
qed

text \<open>A transfer from an account to itself: the balance is read twice before it is written twice.\<close>

lemma balance_after_set:
  assumes "repo_inv r" "repo_account X a r = Ok (Some acc)" "ac_address acc = a"
    and "vc_decode_account X (vc_encode_account X (acc\<lparr> ac_balance := b \<rparr>)) = Some (acc\<lparr> ac_balance := b \<rparr>)"
  shows "\<exists>r'. set_balance X a b r = (r', Ok ()) \<and> repo_inv r' \<and> repo_account X a r' = Ok (Some (acc\<lparr> ac_balance := b \<rparr>))"
proof -
  let ?r = "put_account X (acc\<lparr> ac_balance := b \<rparr>) r"
  have "fst (repo_view ?r) (KAccount, a) = Some (vc_encode_account X (acc\<lparr> ac_balance := b \<rparr>))"
    using repo_write_inv(3) [OF assms(1)] assms(3) by (simp add: put_account_def put_raw_def split: prod.splits)
  then have "repo_account X a ?r = Ok (Some (acc\<lparr> ac_balance := b \<rparr>))" by (simp add: repo_account_def repo_decode_def read_view(1) assms(4))
  moreover have "repo_inv ?r" using repo_write_inv(1) [OF assms(1)] by (simp add: put_account_def put_raw_def)
  ultimately show ?thesis using assms(2) by (simp add: set_balance_def sbind_def sask_def supd_def account_or_new_def)
qed

text \<open>C39: a contract that calls itself with a value is credited without being debited. For every account that exists and
  is stored under its own address, every amount up to its balance and every codec that decodes what it encoded
  of this account, the check before the call accepts the call, the transfer succeeds, and the balance
  afterwards is the old one plus the amount, as long as that is a 64-bit integer.\<close>

theorem self_call_mints:
  assumes "repo_inv r" "repo_account X a r = Ok (Some acc)" "ac_address acc = a"
    and "\<forall>b. in_i64 b \<longrightarrow> vc_decode_account X (vc_encode_account X (acc\<lparr> ac_balance := b \<rparr>)) = Some (acc\<lparr> ac_balance := b \<rparr>)"
    and "cr_kind req = CKCall" "cr_destination req = a" "transfer_amount (cr_value req) = Ok n" "n \<le> ac_balance acc" "in_i64 (ac_balance acc + n)"
  shows "feasible X req a r = Ok () \<and> (\<exists>r'. call_transfer X req a r = (r', Ok ()) \<and> repo_balance X a r' = Ok (ac_balance acc + n))"
proof -
  have n: "to_i64_safe (cr_value req) = n" using assms(7) by (simp add: transfer_amount_def Let_def split: if_splits)
  then have pos: "0 \<le> n" by (auto simp: to_i64_safe_eq)
  have bal: "repo_balance X a r = Ok (ac_balance acc)" by (simp add: repo_balance_def assms(2))
  have fits: "in_i64 (ac_balance acc - n)" using assms(8,9) pos by (simp add: in_i64_def)
  obtain r1 where r1: "set_balance X a (ac_balance acc - n) r = (r1, Ok ())" "repo_inv r1" "repo_account X a r1 = Ok (Some (acc\<lparr> ac_balance := ac_balance acc - n \<rparr>))"
    using balance_after_set [OF assms(1-3)] assms(4) fits by blast
  obtain r2 where r2: "set_balance X a (ac_balance acc + n) r1 = (r2, Ok ())" "repo_account X a r2 = Ok (Some (acc\<lparr> ac_balance := ac_balance acc + n \<rparr>))"
    using balance_after_set [OF r1(2,3), of "ac_balance acc + n"] assms(3,4,9) by auto
  have "feasible X req a r = Ok ()"
    using assms(8,9) by (simp add: checked_i64_def feasible_def assms(5-7) can_transfer_value_def can_endow_def read_other_def bal n)
  moreover have "call_transfer X req a r = (r2, Ok ())"
    using assms(8,9) by (simp add: checked_i64_def call_transfer_def assms(5-7) transfer_value_def sbind_def slift_def sask_def read_other_def as_other_def bal r1(1) r2(1))
  moreover have "repo_balance X a r2 = Ok (ac_balance acc + n)" by (simp add: repo_balance_def r2(2))
  ultimately show ?thesis by blast
qed

text \<open>The cost of memory of at most three mebibytes.\<close>

lemma memory_cost_small:
  assumes "b \<le> 3145728"
  shows "memory_cost b = Ok (3 * int ((b + 31) div 32) + int ((b + 31) div 32) * int ((b + 31) div 32) div 512)"
proof -
  let ?w = "int ((b + 31) div 32)"
  have w: "0 \<le> ?w" "?w \<le> 98304" using assms by linarith+
  have "?w * ?w \<le> 98304 * 98304" using w by (intro mult_mono) auto
  moreover have "0 \<le> ?w * ?w" by simp
  moreover from this have "?w * ?w div 512 \<le> ?w * ?w" "0 \<le> ?w * ?w div 512" by linarith+
  ultimately show ?thesis using w assms
    by (simp add: memory_cost_def usize_checked_add_def checked_i64_def in_i64_def signed_divide_int_def sgn_if)
qed

text \<open>Copying into memory that was expanded before is charged the price of a smaller memory less the price of
  the present one: once the memory is longer than the end of the range by more words than are copied, the charge is negative
  and the instruction fails with \<open>Arithmetic\<close>.\<close>

theorem copy_in_expanded_memory_fails:
  assumes "memory_inv (oc_memory c)" "peek 0 (oc_stack c) = Ok off" "peek 2 (oc_stack c) = Ok sz"
    and "uint off = int i" "uint sz = int n" "0 < n" "(i + n + 31) div 32 + (n + 31) div 32 < mm_soft_len (oc_memory c) div 32"
  shows "\<exists>charge. copy_energy c = Ok charge \<and> charge < 0 \<and> spend charge (oc_energy c) = (oc_energy c, Err VArithmetic)"
proof -
  let ?s = "mm_soft_len (oc_memory c)"
  let ?we = "int ((i + n + 31) div 32)" and ?ws = "int ((?s + 31) div 32)"
  have s: "?s \<le> 3145728" "?s mod 32 = 0" using assms(1) by (auto simp: memory_inv_def)
  have e: "i + n \<le> ?s" "i + n \<le> 3145728" using assms(7) s(1) by linarith+
  have ws: "?we + int ((n + 31) div 32) < ?ws" using assms(7) by linarith
  then have sq: "?we * ?we div 512 \<le> ?ws * ?ws div 512" by (intro zdiv_mono1 mult_mono) auto
  have big: "?ws \<le> 98304" "?ws * ?ws div 512 \<le> 98304 * 98304 div 512" using s(1) by (linarith, intro zdiv_mono1 mult_mono) auto
  have pos: "0 \<le> ?we" "0 \<le> ?we * ?we div 512" "0 \<le> int ((n + 31) div 32)" by (simp_all add: pos_imp_zdiv_nonneg_iff)
  let ?charge = "3 * ?we + ?we * ?we div 512 - (3 * ?ws + ?ws * ?ws div 512) + int ((n + 31) div 32) * 3"
  have o: "i32_usize off = i" "i32_usize sz = n" using e assms(4,5) by (simp_all add: i32_usize_def to_i32_safe_eq min_def)
  have small: "in_i64 (3 * ?we + ?we * ?we div 512 - (3 * ?ws + ?ws * ?ws div 512))" "in_i64 (int ((n + 31) div 32) * 3)" "in_i64 ?charge"
    using ws sq big pos unfolding in_i64_def by linarith+
  have "copy_energy c = Ok ?charge"
    using assms(2,3,6) e small memory_cost_small [OF s(1)] memory_cost_small [OF e(2)]
    by (simp add: copy_energy_def peeks_def mem_energy_def o usize_checked_add_def meter_memory_delta_def checked_i64_def)
  moreover have "?charge < 0" using ws sq by linarith
  ultimately show ?thesis by (auto simp: spend_def)
qed

section \<open>Concrete runs\<close>

definition demo_address :: bytes where "demo_address = 0x41 # replicate 20 7"

definition demo_codec :: vm_codec where
  "demo_codec = \<lparr> vc_keccak256 = \<lambda>_. replicate 32 0,
     vc_decode_account = \<lambda>bs. if length bs = 8 then Some ((account_at demo_address)\<lparr> ac_balance := i64_from_be_bytes bs \<rparr>) else None,
     vc_encode_account = \<lambda>a. i64_to_be_bytes (ac_balance a), vc_decode_contract = \<lambda>_. None, vc_encode_contract = \<lambda>_. [],
     vc_decode_delegated = \<lambda>_. None, vc_encode_delegated = \<lambda>_. [], vc_encode_votes = \<lambda>_. [], vc_block_witness = \<lambda>_. None \<rparr>"

definition demo_host :: vm_host where
  "demo_host = \<lparr> vh_codec = demo_codec, vh_limiter = \<lambda>_. Ok (), vh_precompile = \<lambda>_ _. None, vh_modexp_timeout = \<lambda>_ _ _. False \<rparr>"

definition demo_rules :: TvmRules where
  "demo_rules = \<lparr> tr_multi_sign = False, tr_transfer_trc10 = True, tr_constantinople = True, tr_solidity_059 = True, tr_istanbul = True,
     tr_freeze = True, tr_vote = True, tr_london = True, tr_compatible_evm = True, tr_create2_depth_timeout = False,
     tr_higher_cpu_memory = False, tr_freeze_v2 = True, tr_optimized_chain_id = True, tr_dynamic_energy = False,
     tr_dynamic_energy_threshold = 0, tr_dynamic_energy_increase_factor = 0, tr_dynamic_energy_max_factor = 0, tr_shanghai = True,
     tr_energy_adjustment = False, tr_strict_math = False, tr_cancun = False, tr_disable_java_math = False, tr_blob = False,
     tr_selfdestruct_restriction = False, tr_osaka = False, tr_harden_resource = False, tr_shielded_trc20 = False,
     tr_latest_block_number = 0, tr_energy_limit_hardfork = True \<rparr>"

definition demo_state :: "StoreKind \<Rightarrow> bytes \<Rightarrow> bytes option" where
  "demo_state store key = (if store = KAccount \<and> key = demo_address then Some (i64_to_be_bytes 100) else None)"

text \<open>A program of one byte that is no operation.\<close>

definition demo_context :: OperationContext where
  "demo_context = \<lparr> oc_rules = demo_rules,
     oc_frame = \<lparr> fr_code_address = demo_address, fr_context_address = demo_address, fr_origin = demo_address, fr_caller = demo_address,
       fr_input = [], fr_call_value = 0, fr_token_value = 0, fr_token_id = 0, fr_root_txid = replicate 32 0, fr_contract_version = 0,
       fr_depth = 0, fr_is_static = False \<rparr>,
     oc_program = program_new [0xfe], oc_stack = [], oc_memory = memory_default, oc_effects = effects_default, oc_energy = meter_of 1000,
     oc_repository = repository_new demo_state, oc_checks = 0 \<rparr>"

lemma demo_host_ok: "host_ok demo_host"
  by (simp add: host_ok_def demo_host_def)

lemma demo_context_inv: "vm_inv demo_context"
  by (simp add: vm_inv_def demo_context_def memory_inv_default meter_inv_def meter_of_def in_i64_def repo_inv_new)

lemma demo_run:
  assumes "registry_integration demo_host = Ok reg"
  shows "\<exists>out c'. run_root demo_host (registry_resolve reg (oc_rules demo_context)) 1 demo_context = Some (out, c') \<and>
    xo_status out = Faulted VIllegalOperation \<and> xo_energy_used out = 1000"
proof -
  have "0xfe \<notin> dom reg" using integration_complete [of demo_host] assms by (auto simp: opcode_table_def opcode_numbers_def upt_rec)
  then have none: "registry_resolve reg rules 0xfe = None" for rules by (simp add: registry_resolve_def domIff)
  show ?thesis
    by (simp add: run_root_def begin_child_def demo_context_def next_opcode_def program_new_def step_def none sfail_def finish_fault_def fault_outcome_def
        frame_outcome_def spends_remaining_def exhaust_def meter_of_def Let_def)
qed

theorem execution_ends_witness:
  "\<exists>reg fuel out c'. registry_integration demo_host = Ok reg \<and> run_root demo_host (registry_resolve reg demo_rules) fuel demo_context = Some (out, c')"
  using execution_ends [OF demo_host_ok demo_context_inv] by (fastforce simp: demo_context_def)

theorem execution_safe_witness:
  "\<exists>reg out c'. registry_integration demo_host = Ok reg \<and> run_root demo_host (registry_resolve reg (oc_rules demo_context)) 1 demo_context = Some (out, c') \<and>
    xo_status out = Faulted VIllegalOperation \<and> repo_view (oc_repository c') = repo_view (oc_repository demo_context)"
proof -
  obtain reg where reg: "registry_integration demo_host = Ok reg" using integration_complete by blast
  obtain out c' where run: "run_root demo_host (registry_resolve reg (oc_rules demo_context)) 1 demo_context = Some (out, c')" "xo_status out = Faulted VIllegalOperation"
    using demo_run [OF reg] by blast
  have "repo_view (oc_repository c') = repo_view (oc_repository demo_context)"
    using execution_safe [OF demo_host_ok reg demo_context_inv run(1)] run(2) by simp
  then show ?thesis using reg run by blast
qed

definition demo_request :: CallRequest where
  "demo_request = \<lparr> cr_kind = CKCall, cr_data = [], cr_destination = demo_address, cr_energy_limit = 0, cr_reserved_energy = 0, cr_value = 30,
     cr_token_value = 0, cr_token_id = 0, cr_output_offset = 0, cr_output_size = 0 \<rparr>"

theorem self_call_mints_witness:
  "\<exists>r'. call_transfer demo_codec demo_request demo_address (repository_new demo_state) = (r', Ok ()) \<and> repo_balance demo_codec demo_address r' = Ok 130"
proof -
  let ?acc = "(account_at demo_address)\<lparr> ac_balance := 100 \<rparr>"
  have "repo_account demo_codec demo_address (repository_new demo_state) = Ok (Some ?acc)"
    by (simp add: repo_account_def repo_decode_def repo_raw_def repository_new_def layer_default_def demo_state_def demo_codec_def in_i64_def)
  moreover have "transfer_amount (cr_value demo_request) = Ok 30"
    by (simp add: transfer_amount_def demo_request_def to_i64_safe_eq word_from_u64_def)
  ultimately show ?thesis
    using self_call_mints [OF repo_inv_new(1), of demo_codec demo_address demo_state ?acc demo_request 30]
    by (auto simp: account_at_def demo_codec_def demo_request_def in_i64_def)
qed

end
