(* ===== verification/Spec2Isabelle.thy ===== *)
theory Spec2Isabelle
  imports Primitives_Arithmetic Dynamic_Types Khaos_Branch Pbft_Safety Fork_Rules Schedule_Rules Resource Order_Book_Rules Tvm_Runs
begin

text \<open>
  Verification of the Rust port of the TRON node (\<open>rust-tron/crates\<close>): the layers a node's state
  rests on, from byte strings to the fork database, the consensus rules on top of them and the
  contract virtual machine.

  \<^bold>\<open>The program.\<close> A node keeps its state in one ordered key-value store per directory, the RustLog
  engine of \<open>tron-storage\<close> (a snapshot file and a write-ahead log). \<open>tron-state\<close> puts typed stores on
  top of it (a store is a prefix of the physical keys), a stack of overlay sessions over the typed
  stores (a block or a transaction is executed in a session that is committed, merged into its
  parent or revoked), checkpoints and cursors (head, solid and PBFT view of the history), the
  table of dynamic properties (the chain's parameters and counters), and the fork database, which
  holds the recent blocks of all branches and finds where two branches part. \<open>tron-tvm\<close> runs contracts: an
  interpreter over a journal of layers above a session. \<open>tron-primitives\<close> has
  the arithmetic, byte, identifier and key encodings all of them share.

  \<^bold>\<open>Theories and what they model.\<close>
  \<^item> \<open>Tron_Prelude\<close>: results, 64-bit and 32-bit integers as \<open>int\<close> with the wrap-around written
    out, \<open>usize\<close> as \<open>nat\<close> with its bound, bytes as 8-bit words, big- and little-endian readers.
  \<^item> \<open>BTree_Map\<close>: the standard library's ordered map as a sorted association list over a comparison;
    the locale \<open>rust_ord\<close> states what a lawful comparison is and carries every map lemma.
  \<^item> \<open>Primitives_Arithmetic\<close> (\<open>arithmetic.rs\<close>, \<open>time.rs\<close>), \<open>Primitives_Bytes\<close> (\<open>bytes.rs\<close>,
    \<open>types.rs\<close>, \<open>wire.rs\<close>, \<open>tapos.rs\<close>, \<open>merkle.rs\<close>), \<open>Market_Keys\<close> (\<open>market.rs\<close> of primitives and of
    state, and \<open>market_total_cmp\<close> of the store).
  \<^item> \<open>Rust_Log_Codec\<close> (batch, snapshot and frame formats), \<open>Market_Index\<close> (the price index kept
    beside the entries), \<open>Rust_Log\<close> (open, recovery, write with rollback, compaction) and
    \<open>Rust_Log_Queries\<close> (reads, scans, iterators, close), all of \<open>tron-storage/src/lib.rs\<close>. The file
    system is the argument \<open>env\<close>: for every call site of an I/O operation it says whether the call
    fails, how much of a buffer a short read or a failed write transfers, so a theorem for all
    \<open>env\<close> covers every pattern of failures. Fault injection is the argument \<open>faults\<close>.
  \<^item> \<open>State_Store\<close> (\<open>store.rs\<close>), \<open>Session_Manager\<close> (\<open>session.rs\<close>, \<open>pending.rs\<close>: the record
    \<open>ManagerState\<close> is \<open>ManagerState\<close>, one function per method, with the state the mutex guards as
    argument and result), \<open>Session_Views\<close> and \<open>Session_Invariant\<close> (its theorems, the latter over an
    inductive step relation with any number of open handles), \<open>Cursor\<close> (\<open>cursor.rs\<close>).
  \<^item> \<open>Dynamic\<close> (\<open>dynamic.rs\<close>, \<open>dynamic_properties.rs\<close>), \<open>Dynamic_Keys\<close> (facts of the key table) and
    \<open>Dynamic_Types\<close> (the locale \<open>absent_store\<close> of a store that can be asked and extended, interpreted on
    the typed stores; type safety, initialisation and the maintenance clock).
  \<^item> \<open>Khaos\<close> (\<open>khaos.rs\<close>: \<open>KhaosStore\<close>, \<open>KhaosDatabase\<close>), \<open>Khaos_Store\<close> (the bookkeeping of one store),
    \<open>Khaos_Index\<close> (when its identifier index is exact), \<open>Khaos_Database\<close> (reachable states, pushes), \<open>Khaos_Branch\<close> (parent links and branches).
  \<^item> \<open>Tvm_Word\<close> (\<open>tron-tvm/src/word.rs\<close>, the arithmetic loops of \<open>opcodes_a.rs\<close>) and \<open>Tvm_Machine\<close>
    (\<open>result.rs\<close>, \<open>machine.rs\<close>, \<open>energy.rs\<close>): the words, stack, memory, program and energy meter of the
    virtual machine, with \<open>mem_at\<close> the memory as a function.
  \<^item> \<open>Tvm_Repository\<close> (the layered journal of \<open>tron-tvm/src/repository.rs\<close>), \<open>Tvm_Accounts\<close> (its typed rows and the
    rule set of \<open>rules.rs\<close>) and \<open>Tvm_Resources\<close> (staking, delegation, votes and rewards); \<open>Tvm_Operations\<close>
    (\<open>opcode.rs\<close>, \<open>opcodes_a.rs\<close>, \<open>opcodes_b.rs\<close>: the context, the registry and the operations, as programs that
    change a state and may fail), \<open>Tvm_Calls\<close> (\<open>opcodes_c.rs\<close>) and \<open>Tvm_Interpreter\<close> (\<open>interpreter.rs\<close>, the dispatch
    of \<open>precompile.rs\<close>). The theorems: \<open>Tvm_Steps\<close> (relations a program keeps, from the locale of reflexive and
    transitive relations), \<open>Tvm_Table\<close> (every row of the registry keeps them; the registry is complete),
    \<open>Tvm_Frames\<close> (calls and creations), \<open>Tvm_Safety\<close> (frames are safe and end) and \<open>Tvm_Runs\<close> (whole runs). The
    protobuf codec and Keccak-256 are the parameter \<open>vm_codec\<close>, the limiter and the precompiled contracts the
    parameter \<open>vm_host\<close>; of the latter \<open>host_ok\<close> assumes that they use the repository through its operations.
  \<^item> \<open>Order_Book\<close> (the order book of \<open>tron-state/src/market.rs\<close>: four typed stores changed by one batch)
    and \<open>Order_Book_Rules\<close> (the invariant \<open>book_inv\<close> over a map from price keys to queues, refinement of
    append and unlink, and the audit). The protobuf codec is the parameter \<open>market_codec\<close>, its law
    \<open>codec_ok\<close>; \<open>plain_codec\<close> satisfies it.
  \<^item> \<open>Pbft\<close> (\<open>tron-consensus/src/pbft.rs\<close>: the record \<open>PbftSidecar\<close>, one function per method),
    \<open>Pbft_Votes\<close> (the invariant and the vote handlers) and \<open>Pbft_Safety\<close> (reachable states and
    properties). Encoding, digest, signing and recovery of a signer are the parameter \<open>crypto_ops\<close>.
  \<^item> \<open>Fork\<close> (\<open>tron-state/src/fork.rs\<close>) and \<open>Fork_Rules\<close> (its loops as instances of one scan, and its
    properties); \<open>Resource\<close> (\<open>tron-state/src/resource.rs\<close>).
  \<^item> \<open>Schedule\<close> (\<open>tron-consensus/src/schedule.rs\<close>, \<open>production.rs\<close>) and \<open>Schedule_Rules\<close> (an inductive
    reachability of the guard together with the blocks it was told of, and the properties; the
    comparison of candidates is interpreted as a \<open>rust_preord\<close>).

  \<^bold>\<open>What the lemmas show.\<close> Codecs: exact round trips, in both directions where the format is
  canonical, and detection of single-byte damage. Engine: on a handle whose files replay to
  its entries a write is atomic and durable under every pattern of failures during it, recovery replays
  the complete frames and cuts a torn tail, and the files go on replaying to the entries in memory as
  long as no maintenance error is pending; what follows a compaction that failed between truncating the
  log and writing its header is stated separately. Index: maintaining the price index equals rebuilding it, and a
  query returns the first rows of the price-ordered list. Sessions: without abandoned layers reads
  through the overlay equal reads of a captured view, and where they differ with them is stated; merge and flush leave the visible contents unchanged, revoke restores
  them, the session counter is the number of live layers in every reachable state, failures are
  atomic. Cursors: the ancestor search ends and is exact. Properties: each keeps the width of its
  encoding. Fork database: the height index and counters are exact in every reachable state, the identifier index
  when no identifier was inserted twice, a push stays within
  the limits and is atomic when refused, and a branch query returns the two sides of a fork down to the
  nearest common ancestor.
  Virtual machine: the word operations are exact, jump destinations are exactly the instruction
  boundaries, the memory operations act on exactly their range, the repository refines a stack of
  states, every run ends, stays within its energy, and leaves the state as it was when it fails.
  Order book: appending and unlinking refine adding to and removing from a queue, with links, account
  rows and price counts kept consistent, and on a consistent book only storage can fail.
  PBFT: every announced commit is certified by a quorum of distinct witnesses, conflicting commits
  expose double signers, the retained bytes stay within their bound, the persisted cursor only rises.
  Forks: the version number never falls and rises only to a version that passes, and the effect of an
  announcement on every vote is exact. Production: slots and times are inverse, witnesses take turns,
  the election is independent of the listing order, accusations of equivocation are backed by two
  blocks. Resources: recovery decays monotonically to zero, shares never exceed a limit.

  \<^bold>\<open>Bounds, recursion and assumptions.\<close> Every loop is a total function: structural, or with a
  measure (bytes left in the log, blocks below the current one). The ancestor search follows parent
  links until it reaches a root and is a partial function; that it returns in every reachable state
  is proved. The interpreter takes fuel; \<open>execution_ends\<close> shows that enough of it always exists and that
  more does not change the outcome. Session identifiers are assumed not to wrap around within one run, and block heights to
  stay below the largest 64-bit integer; where the code would wrap, the definitions wrap. Callers of
  the fork database are assumed to keep no reference-counted blocks alive between calls, and to use
  the database's own methods rather than \<open>linked_store_mut\<close>. Hash functions, the digest of the Merkle
  tree and the retained size of a block's value are parameters.

  \<^bold>\<open>Not modelled.\<close> Error texts and display implementations; the operating system's file locks beyond
  their success or failure; the other storage formats (\<open>format.rs\<close> beyond what the codec uses,
  \<open>fs.rs\<close>, \<open>toolkit.rs\<close>, \<open>snapshot_bundle.rs\<close>); the ordered merge of market cursors across overlay
  layers; the remaining crates, whose state goes through the layers above:
  transaction execution (\<open>tron-execution\<close>), the precompiled contracts and the trace of \<open>tron-tvm\<close>, the rest of consensus
  (\<open>tron-consensus\<close>: maintenance, rewards, proposals, backup), protocol buffers (\<open>tron-protocol\<close>, generated), networking, interfaces,
  cryptography, shielded transactions, configuration, metrics, and the node and toolkit binaries.
\<close>

end
